(* ===== verification/Fw_Prelude.thy ===== *)
theory Fw_Prelude
  imports Main "HOL-Library.Word"
begin

unbundle bit_operations_syntax

text \<open>
  Prelude of the development: the machine types the sources use (\<open>uint8_t\<close> to
  \<open>uint64_t\<close> as words, strings as byte lists), the result type of operations that can
  raise or run into undefined behaviour, the collections of simplification rules the
  component theories fill, and the generic facts about lists and words that more than one
  component needs.
\<close>

section \<open>Types\<close>

type_synonym u8 = "8 word"
type_synonym u16 = "16 word"
type_synonym u32 = "32 word"
type_synonym u64 = "64 word"

section \<open>Collections of rules\<close>

named_theorems ba_simps \<open>equations of the byte array operations\<close>
named_theorems inv_intros \<open>preservation of component invariants\<close>
named_theorems ci_simps \<open>case-insensitive string comparison\<close>

section \<open>Results\<close>

text \<open>
  An operation that can throw, abort or dereference a null pointer returns \<open>Inl\<close> of the
  failure. \<open>bind_res\<close> runs the rest of the operation only after a success, which is what
  an exception or an abort does to the statements after it.
\<close>

definition bind_res :: "'e + 'a \<Rightarrow> ('a \<Rightarrow> 'e + 'b) \<Rightarrow> 'e + 'b" where
  "bind_res r f = (case r of Inl e \<Rightarrow> Inl e | Inr x \<Rightarrow> f x)"

lemma bind_res_Inl [simp]: "bind_res (Inl e) f = Inl e"
  by (simp add: bind_res_def)

lemma bind_res_Inr [simp]: "bind_res (Inr x) f = f x"
  by (simp add: bind_res_def)

lemma bind_res_eq_Inr: "bind_res r f = Inr y \<longleftrightarrow> (\<exists>x. r = Inr x \<and> f x = Inr y)"
  by (cases r) auto

section \<open>Unsigned subtraction\<close>

text \<open>
  \<open>size_t\<close> quantities that the code only compares and adds are natural numbers here;
  where the code subtracts, \<open>usub64\<close> writes out the wrap-around of \<open>uint64_t\<close>.
\<close>

definition usub64 :: "nat \<Rightarrow> nat \<Rightarrow> nat" where
  "usub64 a b = (if b \<le> a then a - b else a + 2 ^ 64 - b)"

lemma usub64_le [simp]: "b \<le> a \<Longrightarrow> usub64 a b = a - b"
  by (simp add: usub64_def)

section \<open>Signed integers\<close>

text \<open>Division of the C languages rounds towards zero; a value converted to \<open>int\<close> wraps.\<close>

definition tdiv :: "int \<Rightarrow> int \<Rightarrow> int" where
  "tdiv a b = sgn a * sgn b * (\<bar>a\<bar> div \<bar>b\<bar>)"

definition tmod :: "int \<Rightarrow> int \<Rightarrow> int" where
  "tmod a b = a - b * tdiv a b"

definition to_i32 :: "int \<Rightarrow> int" where
  "to_i32 x = sint (word_of_int x :: u32)"

definition to_i64 :: "int \<Rightarrow> int" where
  "to_i64 x = sint (word_of_int x :: u64)"

lemma to_i32_id: "- (2 ^ 31) \<le> x \<Longrightarrow> x < 2 ^ 31 \<Longrightarrow> to_i32 x = x"
  unfolding to_i32_def signed_of_int by (simp add: signed_take_bit_int_eq_self)

lemma to_i64_id: "- (2 ^ 63) \<le> x \<Longrightarrow> x < 2 ^ 63 \<Longrightarrow> to_i64 x = x"
  unfolding to_i64_def signed_of_int by (simp add: signed_take_bit_int_eq_self)

lemma tdiv_tmod: "b * tdiv a b + tmod a b = a"
  by (simp add: tmod_def)

lemma tdiv_nonneg: "0 \<le> a \<Longrightarrow> 0 < b \<Longrightarrow> tdiv a b = a div b"
  by (cases "a = 0") (auto simp: tdiv_def)

lemma tmod_nonneg: "0 \<le> a \<Longrightarrow> 0 < b \<Longrightarrow> tmod a b = a mod b"
  by (simp add: tmod_def tdiv_nonneg minus_mult_div_eq_mod)

lemma tdiv_tmod_neg: "0 < b \<Longrightarrow> tdiv (- a) b = - tdiv a b" "0 < b \<Longrightarrow> tmod (- a) b = - tmod a b"
  by (auto simp: tdiv_def tmod_def)

lemma tmod_bound: "0 < b \<Longrightarrow> \<bar>tmod a b\<bar> < b"
proof (cases "0 \<le> a")
  case False
  assume b: "0 < b"
  have "\<bar>tmod a b\<bar> = - a mod b"
    using b False tmod_nonneg [of "- a" b] tdiv_tmod_neg(2) [of b a] pos_mod_sign [OF b, of "- a"] by linarith
  then show ?thesis using b by simp
qed (simp add: tmod_nonneg)

section \<open>Overwriting a part of a list\<close>

text \<open>\<open>overwrite i xs ys\<close> is the effect of \<open>memcpy(p + i, xs, length xs)\<close> on the block \<open>ys\<close>.\<close>

definition overwrite :: "nat \<Rightarrow> 'a list \<Rightarrow> 'a list \<Rightarrow> 'a list" where
  "overwrite i xs ys = take i ys @ xs @ drop (i + length xs) ys"

lemma length_overwrite [simp]:
  "i + length xs \<le> length ys \<Longrightarrow> length (overwrite i xs ys) = length ys"
  by (simp add: overwrite_def)

lemma overwrite_Nil [simp]: "overwrite i [] ys = ys"
  by (simp add: overwrite_def)

lemma overwrite_append_left:
  "i + length xs \<le> length ys \<Longrightarrow> overwrite i xs (ys @ zs) = overwrite i xs ys @ zs"
  by (simp add: overwrite_def)

lemma overwrite_append_right:
  assumes "length ys \<le> i"
  shows "overwrite i xs (ys @ zs) = ys @ overwrite (i - length ys) xs zs"
proof -
  have "i + length xs - length ys = i - length ys + length xs" using assms by simp
  with assms show ?thesis by (simp add: overwrite_def)
qed

lemma overwrite_split:
  assumes "i + length xs + length xs' \<le> length ys"
  shows "overwrite (i + length xs) xs' (overwrite i xs ys) = overwrite i (xs @ xs') ys"
proof -
  have "take (i + length xs) (overwrite i xs ys) = take i ys @ xs"
    using assms by (simp add: overwrite_def)
  moreover have "drop (i + length xs + length xs') (overwrite i xs ys)
      = drop (i + length (xs @ xs')) ys"
    using assms by (simp add: overwrite_def add_ac)
  ultimately show ?thesis by (simp add: overwrite_def add_ac)
qed

lemma take_drop_overwrite:
  "i + length xs \<le> length ys \<Longrightarrow> take (length xs) (drop i (overwrite i xs ys)) = xs"
  by (simp add: overwrite_def)

lemma take_overwrite: "i \<le> length ys \<Longrightarrow> take i (overwrite i xs ys) = take i ys"
  by (simp add: overwrite_def)

lemma drop_overwrite:
  "i + length xs \<le> length ys \<Longrightarrow>
   drop (i + length xs) (overwrite i xs ys) = drop (i + length xs) ys"
  by (simp add: overwrite_def)

section \<open>Blocks of equal length\<close>

lemma length_concat_const:
  "\<forall>x \<in> set xss. length x = b \<Longrightarrow> length (concat xss) = b * length xss"
  by (induction xss) auto

lemma nth_append_middle [simp]: "(xs @ y # ys) ! length xs = y"
  by (simp add: nth_append)

lemma concat_update_block:
  assumes "\<forall>x \<in> set xss. length x = b" "i < length xss" "off + length ys \<le> b"
  shows "concat (xss[i := overwrite off ys (xss ! i)]) = overwrite (b * i + off) ys (concat xss)"
proof -
  have split: "xss = take i xss @ xss ! i # drop (Suc i) xss"
    using assms(2) by (simp add: id_take_nth_drop)
  have lt: "length (concat (take i xss)) = b * i"
    using assms(1,2) by (subst length_concat_const [of _ b]) (auto dest: in_set_takeD)
  have li: "length (xss ! i) = b" using assms(1,2) by auto
  have "xss[i := overwrite off ys (xss ! i)]
      = take i xss @ overwrite off ys (xss ! i) # drop (Suc i) xss"
    using assms(2) by (simp add: upd_conv_take_nth_drop)
  then have "concat (xss[i := overwrite off ys (xss ! i)])
      = concat (take i xss) @ overwrite off ys (xss ! i) @ concat (drop (Suc i) xss)"
    by simp
  also have "\<dots> = overwrite (b * i + off) ys
      (concat (take i xss) @ (xss ! i @ concat (drop (Suc i) xss)))"
    using lt li assms(3) by (simp add: overwrite_append_right overwrite_append_left)
  also have "concat (take i xss) @ (xss ! i @ concat (drop (Suc i) xss)) = concat xss"
    using arg_cong [OF split, of concat] by simp
  finally show ?thesis .
qed

lemma take_drop_block:
  assumes "\<forall>x \<in> set xss. length x = b" "i < length xss" "off + n \<le> b"
  shows "take n (drop off (xss ! i)) = take n (drop (b * i + off) (concat xss))"
proof -
  have split: "concat xss = concat (take i xss) @ xss ! i @ concat (drop (Suc i) xss)"
    using arg_cong [OF id_take_nth_drop [OF assms(2)], of concat] by simp
  have lt: "length (concat (take i xss)) = b * i"
    using assms(1,2) by (subst length_concat_const [of _ b]) (auto dest: in_set_takeD)
  have li: "length (xss ! i) = b" using assms(1,2) by auto
  show ?thesis using lt li assms(3) by (simp add: split)
qed

end
