(* ===== verification/Endians.thy ===== *)
theory Endians
  imports Fw_Prelude
begin

text \<open>
  \<open>src/src/socket/endians.h\<close>: byte swapping of 16, 32 and 64 bit values and the two
  macros that swap on one byte order only, and the memory representation of an integer
  that \<open>memcpy\<close> and \<open>write(&value, sizeof(value))\<close> expose. The build targets are
  little-endian (\<open>THIS_BYTE_ORDER\<close> is \<open>THIS_LITTLE_ENDIAN\<close>), so the representation is
  least significant byte first. The lemmas show that swapping reverses the representation
  and is an involution, and that an integer is determined by its representation.
\<close>

section \<open>Byte order flags\<close>

definition THIS_LITTLE_ENDIAN :: nat where "THIS_LITTLE_ENDIAN = 1"
definition THIS_BIG_ENDIAN :: nat where "THIS_BIG_ENDIAN = 2"
definition THIS_BYTE_ORDER :: nat where "THIS_BYTE_ORDER = THIS_LITTLE_ENDIAN"

section \<open>Swapping\<close>

definition bswap_64 :: "u64 \<Rightarrow> u64" where
  "bswap_64 value =
     drop_bit 56 (value AND 0xFF00000000000000) OR
     drop_bit 40 (value AND 0x00FF000000000000) OR
     drop_bit 24 (value AND 0x0000FF0000000000) OR
     drop_bit 8 (value AND 0x000000FF00000000) OR
     push_bit 8 (value AND 0x00000000FF000000) OR
     push_bit 24 (value AND 0x0000000000FF0000) OR
     push_bit 40 (value AND 0x000000000000FF00) OR
     push_bit 56 (value AND 0x00000000000000FF)"

definition bswap_32 :: "u32 \<Rightarrow> u32" where
  "bswap_32 value =
     drop_bit 24 (value AND 0xFF000000) OR
     drop_bit 8 (value AND 0x00FF0000) OR
     push_bit 8 (value AND 0x0000FF00) OR
     push_bit 24 (value AND 0x000000FF)"

definition bswap_16 :: "u16 \<Rightarrow> u16" where
  "bswap_16 value = drop_bit 8 (value AND 0xFF00) OR push_bit 8 (value AND 0x00FF)"

text \<open>\<open>byteswapOnLittleEndian\<close> and \<open>byteswapOnBigEndian\<close> as compiled on this byte order.\<close>

definition byteswapOnLittleEndian_32 :: "u32 \<Rightarrow> u32" where
  "byteswapOnLittleEndian_32 t =
     (if THIS_BYTE_ORDER = THIS_BIG_ENDIAN then t else bswap_32 t)"

definition byteswapOnLittleEndian_16 :: "u16 \<Rightarrow> u16" where
  "byteswapOnLittleEndian_16 t =
     (if THIS_BYTE_ORDER = THIS_BIG_ENDIAN then t else bswap_16 t)"

definition byteswapOnBigEndian_32 :: "u32 \<Rightarrow> u32" where
  "byteswapOnBigEndian_32 t =
     (if THIS_BYTE_ORDER = THIS_BIG_ENDIAN then bswap_32 t else t)"

section \<open>The memory representation of an integer\<close>

definition to_bytes :: "nat \<Rightarrow> 'a::len word \<Rightarrow> u8 list" where
  "to_bytes n w = map (\<lambda>i. ucast (drop_bit (8 * i) w)) [0..<n]"

fun of_bytes :: "u8 list \<Rightarrow> 'a::len word" where
  "of_bytes [] = 0"
| "of_bytes (b # bs) = ucast b OR push_bit 8 (of_bytes bs)"

lemma length_to_bytes [simp]: "length (to_bytes n w) = n"
  by (simp add: to_bytes_def)

lemma nth_to_bytes [simp]: "i < n \<Longrightarrow> to_bytes n w ! i = ucast (drop_bit (8 * i) w)"
  by (simp add: to_bytes_def)

lemma bit_of_bytes:
  "bit (of_bytes bs :: 'a::len word) k \<longleftrightarrow>
     k < LENGTH('a) \<and> k div 8 < length bs \<and> bit (bs ! (k div 8)) (k mod 8)"
proof (induction bs arbitrary: k)
  case Nil
  then show ?case by simp
next
  case (Cons b bs)
  show ?case
  proof (cases "k < 8")
    case True
    then show ?thesis by (auto simp: bit_simps)
  next
    case False
    then obtain j where k: "k = j + 8" by (metis le_iff_add add.commute not_le)
    have "\<not> bit b (j + 8)" "(j + 8) div 8 = Suc (j div 8)" by (auto dest: bit_imp_le_length)
    then show ?thesis using Cons.IH [of j] by (auto simp: k bit_simps dest: bit_imp_le_length)
  qed
qed

lemma of_to_bytes:
  "LENGTH('a) = 8 * n \<Longrightarrow> of_bytes (to_bytes n w) = (w :: 'a::len word)"
  by (rule bit_word_eqI) (auto simp: bit_of_bytes bit_simps less_mult_imp_div_less mult.commute)

lemma to_of_bytes:
  assumes "LENGTH('a) = 8 * n" "length bs = n"
  shows "to_bytes n (of_bytes bs :: 'a::len word) = bs"
proof (rule nth_equalityI)
  fix i assume "i < length (to_bytes n (of_bytes bs :: 'a word))"
  then have i: "i < n" by simp
  show "to_bytes n (of_bytes bs :: 'a word) ! i = bs ! i"
    using i assms by (intro bit_word_eqI) (auto simp: bit_of_bytes bit_simps)
qed (use assms in simp)

section \<open>Swapping reverses the representation\<close>

lemma to_bytes_nat:
  "to_bytes 2 w = [ucast w, ucast (drop_bit 8 w)]"
  "to_bytes 4 w = [ucast w, ucast (drop_bit 8 w), ucast (drop_bit 16 w), ucast (drop_bit 24 w)]"
  "to_bytes 8 w = [ucast w, ucast (drop_bit 8 w), ucast (drop_bit 16 w), ucast (drop_bit 24 w),
     ucast (drop_bit 32 w), ucast (drop_bit 40 w), ucast (drop_bit 48 w), ucast (drop_bit 56 w)]"
  by (simp_all add: to_bytes_def upt_rec)

lemma byte_masks:
  "(0xFF :: 'a::len word) = mask 8"
  "(0xFF00 :: 'a word) = push_bit 8 (mask 8)"
  "(0xFF0000 :: 'a word) = push_bit 16 (mask 8)"
  "(0xFF000000 :: 'a word) = push_bit 24 (mask 8)"
  "(0xFF00000000 :: 'a word) = push_bit 32 (mask 8)"
  "(0xFF0000000000 :: 'a word) = push_bit 40 (mask 8)"
  "(0xFF000000000000 :: 'a word) = push_bit 48 (mask 8)"
  "(0xFF00000000000000 :: 'a word) = push_bit 56 (mask 8)"
  by (simp_all add: mask_eq_exp_minus_1 push_bit_eq_mult)

lemma to_bytes_bswap_16: "to_bytes 2 (bswap_16 v) = rev (to_bytes 2 v)"
  unfolding to_bytes_nat bswap_16_def byte_masks
  by (simp, intro conjI; rule bit_word_eqI) (auto simp: bit_simps)

lemma to_bytes_bswap_32: "to_bytes 4 (bswap_32 v) = rev (to_bytes 4 v)"
  unfolding to_bytes_nat bswap_32_def byte_masks
  by (simp, intro conjI; rule bit_word_eqI) (auto simp: bit_simps)

lemma to_bytes_bswap_64: "to_bytes 8 (bswap_64 v) = rev (to_bytes 8 v)"
  unfolding to_bytes_nat bswap_64_def byte_masks
  by (simp, intro conjI; rule bit_word_eqI) (auto simp: bit_simps)

lemma to_bytes_inj:
  "LENGTH('a) = 8 * n \<Longrightarrow> to_bytes n v = to_bytes n w \<Longrightarrow> v = (w :: 'a::len word)"
  by (metis of_to_bytes)

lemma bswap_16_bswap_16 [simp]: "bswap_16 (bswap_16 v) = v"
  by (rule to_bytes_inj [of 2]) (simp_all add: to_bytes_bswap_16)

lemma bswap_32_bswap_32 [simp]: "bswap_32 (bswap_32 v) = v"
  by (rule to_bytes_inj [of 4]) (simp_all add: to_bytes_bswap_32)

lemma bswap_64_bswap_64 [simp]: "bswap_64 (bswap_64 v) = v"
  by (rule to_bytes_inj [of 8]) (simp_all add: to_bytes_bswap_64)

lemma bswap_32_of_bytes: "length bs = 4 \<Longrightarrow> bswap_32 (of_bytes bs) = of_bytes (rev bs)"
  by (rule to_bytes_inj [of 4]) (simp_all add: to_bytes_bswap_32 to_of_bytes)

end
