(* ===== verification/Byte_Array.thy ===== *)
theory Byte_Array
  imports Endians
begin

text \<open>
  \<open>src/src/socket/bytearray.{h,cpp}\<close>, the storage: a linked list of blocks of
  \<open>m_baseSize\<close> bytes, a global position and the block pointer \<open>m_cur\<close>.

  The list that hangs off \<open>m_root\<close> is \<open>m_nodes\<close>; it only grows at its end and is cut
  back to its first element by \<open>clear\<close>, so a node pointer is an index into it
  and \<open>nullptr\<close> is \<open>None\<close>. A byte of \<open>new char[s]\<close> that was never written is \<open>None\<close>.
  Operations that throw, divide by zero or follow a null pointer return that as \<open>Inl\<close>.

  The first half translates the operations; the second half states what they do to the
  flat contents of the blocks (\<open>flat\<close>), for every state that satisfies \<open>wf\<close>, and shows that
  \<open>wf\<close> is kept by every operation except a \<open>write\<close> that ends on a block boundary
  before the end of the capacity, where the code leaves \<open>m_cur\<close> behind.
\<close>

section \<open>State\<close>

datatype ba_error =
    OutOfRange | NullDeref | DivByZero | Indeterminate | SignedOverflow | BufferOverflow
  | NegativeCount | NoProgress

type_synonym cell = "u8 option"

record node =
  nd_ptr :: "cell list"
  nd_size :: nat

record ByteArray =
  m_baseSize :: nat
  m_position :: nat
  m_capacity :: nat
  m_size :: nat
  m_endian :: nat
  m_nodes :: "node list"
  m_cur :: "nat option"

definition new_Node :: "nat \<Rightarrow> node" where
  "new_Node s = \<lparr>nd_ptr = replicate s None, nd_size = s\<rparr>"

definition new_ByteArray :: "nat \<Rightarrow> ByteArray" where
  "new_ByteArray base_size =
     \<lparr>m_baseSize = base_size, m_position = 0, m_capacity = base_size, m_size = 0,
      m_endian = THIS_BIG_ENDIAN, m_nodes = [new_Node base_size], m_cur = Some 0\<rparr>"

text \<open>\<open>node->next\<close>\<close>

definition next_node :: "ByteArray \<Rightarrow> nat \<Rightarrow> nat option" where
  "next_node ba c = (if Suc c < length (m_nodes ba) then Some (Suc c) else None)"

definition getReadSize :: "ByteArray \<Rightarrow> nat" where
  "getReadSize ba = usub64 (m_size ba) (m_position ba)"

definition getCapacity :: "ByteArray \<Rightarrow> nat" where
  "getCapacity ba = usub64 (m_capacity ba) (m_position ba)"

definition isLittleEndian :: "ByteArray \<Rightarrow> bool" where
  "isLittleEndian ba \<longleftrightarrow> m_endian ba = THIS_LITTLE_ENDIAN"

definition setIsLittleEndian :: "bool \<Rightarrow> ByteArray \<Rightarrow> ByteArray" where
  "setIsLittleEndian val ba =
     ba\<lparr>m_endian := if val then THIS_LITTLE_ENDIAN else THIS_BIG_ENDIAN\<rparr>"

section \<open>Operations\<close>

definition addCapacity :: "nat \<Rightarrow> ByteArray \<Rightarrow> ba_error + ByteArray" where
  "addCapacity sz ba =
     (if sz = 0 then Inr ba
      else let old_cap = getCapacity ba in
        if sz \<le> old_cap then Inr ba
        else if m_baseSize ba = 0 then Inl DivByZero
        else
          let need = sz - old_cap;
              count = need div m_baseSize ba + (if need mod m_baseSize ba \<noteq> 0 then 1 else 0);
              first = length (m_nodes ba);
              ba' = ba\<lparr>m_nodes := m_nodes ba @ replicate count (new_Node (m_baseSize ba)),
                       m_capacity := m_capacity ba + count * m_baseSize ba\<rparr>
          in Inr (if old_cap = 0 then ba'\<lparr>m_cur := Some first\<rparr> else ba'))"

definition put_block :: "nat \<Rightarrow> nat \<Rightarrow> cell list \<Rightarrow> ByteArray \<Rightarrow> ByteArray" where
  "put_block c npos buf ba =
     ba\<lparr>m_nodes := (m_nodes ba)[c := (m_nodes ba ! c)
          \<lparr>nd_ptr := overwrite npos buf (nd_ptr (m_nodes ba ! c))\<rparr>]\<rparr>"

text \<open>
  The loop of \<open>write\<close>; \<open>buf\<close> is what is left to copy, so \<open>size\<close> is its length. In the
  first branch the code sets \<open>size = 0\<close> before it compares \<open>npos + size\<close> with the block size.
\<close>

function write_loop :: "cell list \<Rightarrow> nat \<Rightarrow> nat \<Rightarrow> ByteArray \<Rightarrow> ba_error + ByteArray" where
  "write_loop buf npos ncap ba =
     (if buf = [] then Inr ba
      else case m_cur ba of
        None \<Rightarrow> Inl NullDeref
      | Some c \<Rightarrow>
          if length buf \<le> ncap then
            let ba1 = (put_block c npos buf ba)\<lparr>m_position := m_position ba + length buf\<rparr>
            in Inr (if npos + 0 = nd_size (m_nodes ba1 ! c)
                    then ba1\<lparr>m_cur := next_node ba1 c\<rparr> else ba1)
          else
            let ba1 = (put_block c npos (take ncap buf) ba)
                        \<lparr>m_position := m_position ba + ncap, m_cur := next_node ba c\<rparr>
            in case m_cur ba1 of
                 None \<Rightarrow> Inl NullDeref
               | Some c' \<Rightarrow> write_loop (drop ncap buf) 0 (nd_size (m_nodes ba1 ! c')) ba1)"
  by pat_completeness auto
termination
  by (relation "measure (\<lambda>(buf, npos, ncap, ba). case m_cur ba of None \<Rightarrow> 0 | Some c \<Rightarrow> length (m_nodes ba) - c)")
     (auto simp: next_node_def put_block_def split: if_splits)

declare write_loop.simps [simp del]

definition ByteArray_write :: "cell list \<Rightarrow> ByteArray \<Rightarrow> ba_error + ByteArray" where
  "ByteArray_write buf ba =
     (if length buf = 0 then Inr ba
      else bind_res (addCapacity (length buf) ba) (\<lambda>ba1.
        if m_baseSize ba1 = 0 then Inl DivByZero
        else case m_cur ba1 of
          None \<Rightarrow> Inl NullDeref
        | Some c \<Rightarrow>
            let npos = m_position ba1 mod m_baseSize ba1;
                ncap = usub64 (nd_size (m_nodes ba1 ! c)) npos
            in bind_res (write_loop buf npos ncap ba1) (\<lambda>ba2.
                 Inr (if m_size ba2 < m_position ba2 then ba2\<lparr>m_size := m_position ba2\<rparr> else ba2))))"

function read_loop ::
  "nat \<Rightarrow> nat \<Rightarrow> nat \<Rightarrow> cell list \<Rightarrow> ByteArray \<Rightarrow> ba_error + cell list \<times> ByteArray" where
  "read_loop sz npos ncap buf ba =
     (if sz = 0 then Inr (buf, ba)
      else case m_cur ba of
        None \<Rightarrow> Inl NullDeref
      | Some c \<Rightarrow>
          if sz \<le> ncap then
            Inr (buf @ take sz (drop npos (nd_ptr (m_nodes ba ! c))),
                 (if nd_size (m_nodes ba ! c) = npos + sz then ba\<lparr>m_cur := next_node ba c\<rparr> else ba)
                   \<lparr>m_position := m_position ba + sz\<rparr>)
          else
            let buf' = buf @ take ncap (drop npos (nd_ptr (m_nodes ba ! c)));
                ba1 = ba\<lparr>m_position := m_position ba + ncap, m_cur := next_node ba c\<rparr>
            in case m_cur ba1 of
                 None \<Rightarrow> Inl NullDeref
               | Some c' \<Rightarrow> read_loop (sz - ncap) 0 (nd_size (m_nodes ba1 ! c')) buf' ba1)"
  by pat_completeness auto
termination
  by (relation "measure (\<lambda>(sz, npos, ncap, buf, ba). case m_cur ba of None \<Rightarrow> 0 | Some c \<Rightarrow> length (m_nodes ba) - c)")
     (auto simp: next_node_def split: if_splits)

declare read_loop.simps [simp del]

definition ByteArray_read :: "nat \<Rightarrow> ByteArray \<Rightarrow> ba_error + cell list \<times> ByteArray" where
  "ByteArray_read sz ba =
     (if getReadSize ba < sz then Inl OutOfRange
      else if m_baseSize ba = 0 then Inl DivByZero
      else case m_cur ba of
        None \<Rightarrow> Inl NullDeref
      | Some c \<Rightarrow>
          let npos = m_position ba mod m_baseSize ba;
              ncap = usub64 (nd_size (m_nodes ba ! c)) npos
          in read_loop sz npos ncap [] ba)"

text \<open>
  \<open>read(buf, size, position) const\<close>: the same loop with a local node pointer and the given
  position, started at \<open>m_cur\<close>; the object does not change.
\<close>

definition ByteArray_read_at :: "nat \<Rightarrow> nat \<Rightarrow> ByteArray \<Rightarrow> ba_error + cell list" where
  "ByteArray_read_at sz position ba =
     (if usub64 (m_size ba) position < sz then Inl OutOfRange
      else if m_baseSize ba = 0 then Inl DivByZero
      else case m_cur ba of
        None \<Rightarrow> Inl NullDeref
      | Some c \<Rightarrow>
          let npos = position mod m_baseSize ba;
              ncap = usub64 (nd_size (m_nodes ba ! c)) npos
          in bind_res (read_loop sz npos ncap [] (ba\<lparr>m_position := position\<rparr>)) (\<lambda>(cs, _). Inr cs))"

text \<open>The loop of \<open>setPosition\<close> walks the list from the root; \<open>i\<close> is the index of the head.\<close>

fun seek :: "nat \<Rightarrow> node list \<Rightarrow> nat \<Rightarrow> ba_error + nat option" where
  "seek i [] v = Inl NullDeref"
| "seek i (n # ns) v =
     (if nd_size n < v then seek (Suc i) ns (v - nd_size n)
      else if v = nd_size n then Inr (if ns = [] then None else Some (Suc i))
      else Inr (Some i))"

definition setPosition :: "nat \<Rightarrow> ByteArray \<Rightarrow> ba_error + ByteArray" where
  "setPosition v ba =
     (if m_capacity ba < v then Inl OutOfRange
      else
        let ba1 = ba\<lparr>m_position := v, m_size := max (m_size ba) v\<rparr>
        in bind_res (seek 0 (m_nodes ba) v) (\<lambda>cur. Inr (ba1\<lparr>m_cur := cur\<rparr>)))"

text \<open>\<open>clear\<close> keeps the root block only; its bytes stay as they are.\<close>

definition clear :: "ByteArray \<Rightarrow> ByteArray" where
  "clear ba =
     ba\<lparr>m_position := 0, m_size := 0, m_capacity := m_baseSize ba,
        m_nodes := take 1 (m_nodes ba), m_cur := Some 0\<rparr>"

definition toString :: "ByteArray \<Rightarrow> ba_error + cell list" where
  "toString ba =
     (if getReadSize ba = 0 then Inr [] else ByteArray_read_at (getReadSize ba) (m_position ba) ba)"

section \<open>The abstract view\<close>

definition flat :: "ByteArray \<Rightarrow> cell list" where
  "flat ba = concat (map nd_ptr (m_nodes ba))"

definition nodes_ok :: "ByteArray \<Rightarrow> bool" where
  "nodes_ok ba \<longleftrightarrow>
     0 < m_baseSize ba \<and> m_nodes ba \<noteq> [] \<and>
     (\<forall>n \<in> set (m_nodes ba). nd_size n = m_baseSize ba \<and> length (nd_ptr n) = m_baseSize ba) \<and>
     m_capacity ba = m_baseSize ba * length (m_nodes ba)"

definition blocks_ok :: "ByteArray \<Rightarrow> bool" where
  "blocks_ok ba \<longleftrightarrow> nodes_ok ba \<and> m_position ba \<le> m_size ba \<and> m_size ba \<le> m_capacity ba"

text \<open>
  Where \<open>m_cur\<close> should be: at the block of the position, or null at the end of the
  capacity. A write that fills the last block leaves it on that block (\<open>cur_full\<close>), which
  the next \<open>addCapacity\<close> repairs.
\<close>

definition cur_exact :: "ByteArray \<Rightarrow> bool" where
  "cur_exact ba \<longleftrightarrow>
     m_cur ba = (if m_position ba < m_capacity ba then Some (m_position ba div m_baseSize ba) else None)"

definition cur_full :: "ByteArray \<Rightarrow> bool" where
  "cur_full ba \<longleftrightarrow> m_position ba = m_capacity ba \<and> m_cur ba = Some (length (m_nodes ba) - 1)"

definition wf :: "ByteArray \<Rightarrow> bool" where
  "wf ba \<longleftrightarrow> blocks_ok ba \<and> (cur_exact ba \<or> cur_full ba)"

lemma nodes_okD:
  assumes "nodes_ok ba"
  shows "0 < m_baseSize ba" "m_nodes ba \<noteq> []"
    and "\<And>i. i < length (m_nodes ba) \<Longrightarrow> nd_size (m_nodes ba ! i) = m_baseSize ba"
    and "\<And>i. i < length (m_nodes ba) \<Longrightarrow> length (nd_ptr (m_nodes ba ! i)) = m_baseSize ba"
    and "\<forall>x \<in> set (map nd_ptr (m_nodes ba)). length x = m_baseSize ba"
    and "m_capacity ba = m_baseSize ba * length (m_nodes ba)"
  using assms by (auto simp: nodes_ok_def)

lemma blocks_okD:
  assumes "blocks_ok ba"
  shows "nodes_ok ba" "m_position ba \<le> m_size ba" "m_size ba \<le> m_capacity ba"
  using assms by (auto simp: blocks_ok_def)

lemma wfD: "wf ba \<Longrightarrow> blocks_ok ba"
  by (simp add: wf_def)

lemma length_flat: "nodes_ok ba \<Longrightarrow> length (flat ba) = m_capacity ba"
  using nodes_okD(6) [of ba] length_concat_const [OF nodes_okD(5) [of ba]]
  by (simp add: flat_def)

lemma getReadSize_eq [ba_simps]: "blocks_ok ba \<Longrightarrow> getReadSize ba = m_size ba - m_position ba"
  by (simp add: getReadSize_def blocks_okD)

lemma getCapacity_eq [ba_simps]: "blocks_ok ba \<Longrightarrow> getCapacity ba = m_capacity ba - m_position ba"
  using blocks_okD(2,3) [of ba] by (simp add: getCapacity_def)

lemma pos_block:
  assumes "nodes_ok ba" "p < m_capacity ba"
  shows "p div m_baseSize ba < length (m_nodes ba)"
  using assms nodes_okD(6) [of ba] by (simp add: less_mult_imp_div_less mult.commute)

lemma next_node_Some:
  "nodes_ok ba \<Longrightarrow> m_baseSize ba * Suc c < m_capacity ba \<Longrightarrow> next_node ba c = Some (Suc c)"
  by (simp add: next_node_def nodes_okD(1,6) del: mult_Suc_right)

lemma next_node_None:
  "nodes_ok ba \<Longrightarrow> m_baseSize ba * Suc c = m_capacity ba \<Longrightarrow> next_node ba c = None"
  using nodes_okD(1,6) [of ba] by (simp add: next_node_def del: mult_Suc_right)

section \<open>Writing\<close>

lemma put_block_frame [simp]:
  "m_baseSize (put_block c npos buf ba) = m_baseSize ba"
  "m_position (put_block c npos buf ba) = m_position ba"
  "m_capacity (put_block c npos buf ba) = m_capacity ba"
  "m_size (put_block c npos buf ba) = m_size ba"
  "m_endian (put_block c npos buf ba) = m_endian ba"
  "m_cur (put_block c npos buf ba) = m_cur ba"
  "length (m_nodes (put_block c npos buf ba)) = length (m_nodes ba)"
  by (simp_all add: put_block_def)

lemma nodes_ok_cong:
  "nodes_ok (ba\<lparr>m_position := p\<rparr>) = nodes_ok ba"
  "nodes_ok (ba\<lparr>m_cur := q\<rparr>) = nodes_ok ba"
  "nodes_ok (ba\<lparr>m_size := z\<rparr>) = nodes_ok ba"
  "flat (ba\<lparr>m_position := p\<rparr>) = flat ba"
  "flat (ba\<lparr>m_cur := q\<rparr>) = flat ba"
  "flat (ba\<lparr>m_size := z\<rparr>) = flat ba"
  by (simp_all add: nodes_ok_def flat_def)

declare nodes_ok_cong [simp]

lemma put_block_ok:
  assumes "nodes_ok ba" "c < length (m_nodes ba)" "npos + length buf \<le> m_baseSize ba"
  shows "nodes_ok (put_block c npos buf ba)"
    and "flat (put_block c npos buf ba) = overwrite (m_baseSize ba * c + npos) buf (flat ba)"
proof -
  have len: "npos + length buf \<le> length (nd_ptr (m_nodes ba ! c))"
    using assms nodes_okD(4) by simp
  show "nodes_ok (put_block c npos buf ba)"
    using assms nodes_okD(3) [OF assms(1,2)] len
    by (auto simp: nodes_ok_def put_block_def dest!: set_update_subset_insert [THEN subsetD])
  have "map nd_ptr (m_nodes (put_block c npos buf ba))
      = (map nd_ptr (m_nodes ba))[c := overwrite npos buf (map nd_ptr (m_nodes ba) ! c)]"
    using assms(2) by (simp add: put_block_def map_update)
  then show "flat (put_block c npos buf ba) = overwrite (m_baseSize ba * c + npos) buf (flat ba)"
    unfolding flat_def
    using concat_update_block [OF nodes_okD(5) [OF assms(1)], of c npos buf] assms(2,3) by simp
qed

definition frame :: "ByteArray \<Rightarrow> ByteArray \<Rightarrow> bool" where
  "frame ba ba' \<longleftrightarrow> m_baseSize ba' = m_baseSize ba \<and> m_capacity ba' = m_capacity ba \<and>
     m_size ba' = m_size ba \<and> m_endian ba' = m_endian ba \<and>
     length (m_nodes ba') = length (m_nodes ba)"

lemma write_loop_correct:
  assumes "nodes_ok ba" "m_cur ba = Some c" "c < length (m_nodes ba)" "npos < m_baseSize ba"
    "ncap = m_baseSize ba - npos" "m_baseSize ba * c + npos + length buf \<le> m_capacity ba"
  shows "\<exists>ba'. write_loop buf npos ncap ba = Inr ba' \<and> nodes_ok ba' \<and> frame ba ba' \<and>
     flat ba' = overwrite (m_baseSize ba * c + npos) buf (flat ba) \<and>
     m_position ba' = m_position ba + length buf \<and>
     m_cur ba' = Some (if buf = [] then c
                       else (m_baseSize ba * c + npos + length buf - 1) div m_baseSize ba)"
  using assms
proof (induction buf npos ncap ba arbitrary: c rule: write_loop.induct)
  case (1 buf npos ncap ba)
  let ?b = "m_baseSize ba"
  note ok = nodes_okD [OF \<open>nodes_ok ba\<close>]
  consider "buf = []" | "buf \<noteq> []" "length buf \<le> ncap" | "ncap < length buf" by force
  then show ?case
  proof cases
    case 1
    then show ?thesis using "1.prems" by (simp add: write_loop.simps frame_def)
  next
    case 2
    have fits: "npos + length buf \<le> ?b" using 2 "1.prems" by simp
    note put = put_block_ok [OF "1.prems"(1) "1.prems"(3) fits]
    have sz: "nd_size (m_nodes (put_block c npos buf ba) ! c) = ?b"
      using nodes_okD(3) [OF put(1)] "1.prems"(3) by simp
    have "(?b * c + npos + length buf - 1) div ?b = c"
      using fits 2(1) by (intro div_nat_eqI) (cases buf; simp)+
    moreover have "write_loop buf npos ncap ba
        = Inr ((put_block c npos buf ba)\<lparr>m_position := m_position ba + length buf\<rparr>)"
      using 2 "1.prems"(2,4) sz by (simp add: write_loop.simps [of buf npos ncap ba] Let_def)
    ultimately show ?thesis using 2(1) "1.prems"(2) put by (simp add: frame_def)
  next
    case 3
    let ?ba1 = "(put_block c npos (take ncap buf) ba)\<lparr>m_position := m_position ba + ncap, m_cur := Some (Suc c)\<rparr>"
    have fits: "npos + length (take ncap buf) \<le> ?b" using 3 "1.prems" by simp
    note put = put_block_ok [OF "1.prems"(1) "1.prems"(3) fits]
    have bc: "?b * Suc c < m_capacity ba" using "1.prems"(4,5,6) 3 by simp
    then have nx: "next_node ba c = Some (Suc c)" "Suc c < length (m_nodes ba)"
      using "1.prems"(1) ok(1,6) next_node_Some [OF "1.prems"(1), of c]
      by (simp_all del: mult_Suc_right)
    have sz: "nd_size (m_nodes ?ba1 ! Suc c) = ?b"
      using nodes_okD(3) [OF put(1), of "Suc c"] nx by simp
    have ne: "buf \<noteq> []" "drop ncap buf \<noteq> []" using 3 by auto
    have rec: "write_loop buf npos ncap ba = write_loop (drop ncap buf) 0 ?b ?ba1"
      using 3 ne "1.prems"(2) nx sz by (simp add: write_loop.simps [of buf npos ncap ba] Let_def)
    have start: "?b * Suc c = ?b * c + npos + length (take ncap buf)"
      using "1.prems"(4,5) 3 by simp
    obtain ba' where ba': "write_loop (drop ncap buf) 0 ?b ?ba1 = Inr ba'" "nodes_ok ba'" "frame ?ba1 ba'"
      "flat ba' = overwrite (?b * Suc c) (drop ncap buf) (flat ?ba1)"
      "m_position ba' = m_position ba + length buf"
      "m_cur ba' = Some ((?b * Suc c + length (drop ncap buf) - 1) div ?b)"
      using "1.IH" [of c _ "Suc c", OF ne(1) "1.prems"(2) _ refl] 3 nx put(1) sz "1.prems"(5,6) ok(1) ne start
      by (fastforce simp: Let_def)
    have "overwrite (?b * Suc c) (drop ncap buf) (overwrite (?b * c + npos) (take ncap buf) (flat ba))
        = overwrite (?b * c + npos) (take ncap buf @ drop ncap buf) (flat ba)"
      unfolding start by (rule overwrite_split) (use "1.prems"(1,6) in \<open>simp add: length_flat\<close>)
    then have "flat ba' = overwrite (?b * c + npos) buf (flat ba)"
      using ba'(4) put(2) by simp
    moreover have "?b * Suc c + length (drop ncap buf) - 1 = ?b * c + npos + length buf - 1"
      using start 3 by simp
    ultimately show ?thesis using rec ba' ne by (simp add: frame_def)
  qed
qed

text \<open>After \<open>addCapacity\<close> there is room for the request and \<open>m_cur\<close> is the block of the position.\<close>

definition ready :: "nat \<Rightarrow> ByteArray \<Rightarrow> bool" where
  "ready n ba \<longleftrightarrow> blocks_ok ba \<and> m_position ba + n \<le> m_capacity ba \<and>
     m_cur ba = Some (m_position ba div m_baseSize ba) \<and>
     m_position ba div m_baseSize ba < length (m_nodes ba)"

lemma round_up:
  fixes b n :: nat
  assumes "0 < b"
  defines "k \<equiv> n div b + (if n mod b \<noteq> 0 then 1 else 0)"
  shows "n \<le> k * b" "0 < n \<Longrightarrow> k * b < n + b"
proof -
  have "n = n div b * b + n mod b" "n mod b < b" using assms(1) by simp_all
  moreover have "k * b = n div b * b + (if n mod b \<noteq> 0 then b else 0)"
    by (simp add: k_def)
  ultimately obtain q r where "n = q * b + r" "r < b" "k * b = q * b + (if r \<noteq> 0 then b else 0)"
    by blast
  then show "n \<le> k * b" "0 < n \<Longrightarrow> k * b < n + b" by simp_all
qed

lemma nodes_ok_grow:
  fixes k :: nat
  assumes "nodes_ok ba"
  defines "ba' \<equiv> ba\<lparr>m_nodes := m_nodes ba @ replicate k (new_Node (m_baseSize ba)),
                    m_capacity := m_capacity ba + k * m_baseSize ba\<rparr>"
  shows "nodes_ok ba'" "flat ba' = flat ba @ replicate (k * m_baseSize ba) None"
proof -
  show "nodes_ok ba'"
    using assms(1) by (auto simp: nodes_ok_def ba'_def new_Node_def algebra_simps)
  have "concat (replicate k (replicate b x)) = replicate (k * b) x" for b and x :: cell
    by (induction k) (auto simp: replicate_add)
  then show "flat ba' = flat ba @ replicate (k * m_baseSize ba) None"
    by (simp add: flat_def ba'_def new_Node_def)
qed

lemma addCapacity_correct:
  assumes "wf ba" "0 < n"
  shows "\<exists>ba' k. addCapacity n ba = Inr ba' \<and> ready n ba' \<and>
     flat ba' = flat ba @ replicate (k * m_baseSize ba) None \<and>
     m_baseSize ba' = m_baseSize ba \<and> m_position ba' = m_position ba \<and>
     m_size ba' = m_size ba \<and> m_endian ba' = m_endian ba \<and>
     m_capacity ba' = m_capacity ba + k * m_baseSize ba \<and>
     (0 < k \<longrightarrow> m_capacity ba' < m_position ba + n + m_baseSize ba)"
proof (cases "m_position ba + n \<le> m_capacity ba")
  case True
  have ok: "blocks_ok ba" using assms(1) by (rule wfD)
  have "n \<le> m_capacity ba - m_position ba" using True by simp
  then have "addCapacity n ba = Inr ba"
    using assms(2) ok by (simp add: addCapacity_def getCapacity_eq Let_def)
  moreover have "ready n ba"
    using True assms ok pos_block [OF blocks_okD(1) [OF ok], of "m_position ba"]
    by (auto simp: ready_def wf_def cur_exact_def cur_full_def)
  ultimately show ?thesis by (intro exI [of _ ba] exI [of _ 0]) simp
next
  case False
  let ?b = "m_baseSize ba" and ?p = "m_position ba"
  have ok: "blocks_ok ba" using assms(1) by (rule wfD)
  note nok = blocks_okD(1) [OF ok] and le = blocks_okD(2,3) [OF ok]
  note b0 = nodes_okD(1) [OF nok] and cap = nodes_okD(6) [OF nok]
  define need where "need = n - (m_capacity ba - ?p)"
  define k where "k = need div ?b + (if need mod ?b \<noteq> 0 then 1 else 0)"
  define ba1 where "ba1 = ba\<lparr>m_nodes := m_nodes ba @ replicate k (new_Node ?b),
      m_capacity := m_capacity ba + k * ?b\<rparr>"
  define ba' where "ba' = (if getCapacity ba = 0 then ba1\<lparr>m_cur := Some (length (m_nodes ba))\<rparr> else ba1)"
  have need: "0 < need" using False assms(2) le by (auto simp: need_def)
  have kb: "need \<le> k * ?b" "k * ?b < need + ?b"
    using round_up [OF b0, of need] need unfolding k_def by simp_all
  have eq: "addCapacity n ba = Inr ba'"
    using False assms(2) ok b0 unfolding addCapacity_def ba'_def ba1_def k_def need_def
    by (simp add: getCapacity_eq Let_def)
  note grow = nodes_ok_grow [OF nok, of k, folded ba1_def]
  have frm: "m_baseSize ba' = ?b" "m_position ba' = ?p" "m_size ba' = m_size ba"
    "m_endian ba' = m_endian ba" "m_capacity ba' = m_capacity ba + k * ?b"
    "flat ba' = flat ba @ replicate (k * ?b) None" "nodes_ok ba'"
    using grow by (simp_all add: ba'_def ba1_def)
  have room: "?p + n \<le> m_capacity ba'" "m_capacity ba' < ?p + n + ?b"
    using kb False le frm(5) by (simp_all add: need_def)
  have blk: "?p div ?b < length (m_nodes ba')"
    using pos_block [OF frm(7), of ?p] room(1) assms(2) frm(1) by simp
  have "m_cur ba' = Some (?p div ?b)"
  proof (cases "?p = m_capacity ba")
    case True
    then show ?thesis using cap b0 ok by (simp add: ba'_def getCapacity_eq)
  next
    case False
    then show ?thesis
      using assms(1) ok le by (auto simp: ba'_def ba1_def getCapacity_eq wf_def cur_exact_def cur_full_def)
  qed
  then have "ready n ba'"
    using frm room(1) blk le by (simp add: ready_def blocks_ok_def)
  then show ?thesis using eq frm room(2) by blast
qed

text \<open>
  The contract of \<open>write\<close>: the bytes land at the position, everything before and after is
  kept, position and size move. \<open>m_cur\<close> is right afterwards unless the write ends on a
  block boundary with capacity left behind it.
\<close>

lemma ByteArray_write_correct:
  assumes "wf ba" "buf \<noteq> []"
  shows "\<exists>ba' k. ByteArray_write buf ba = Inr ba' \<and> blocks_ok ba' \<and>
     flat ba' = overwrite (m_position ba) buf (flat ba @ replicate (k * m_baseSize ba) None) \<and>
     m_position ba' = m_position ba + length buf \<and>
     m_size ba' = max (m_size ba) (m_position ba + length buf) \<and>
     m_capacity ba' = m_capacity ba + k * m_baseSize ba \<and>
     m_baseSize ba' = m_baseSize ba \<and> m_endian ba' = m_endian ba \<and>
     (0 < k \<longrightarrow> m_capacity ba' < m_position ba' + m_baseSize ba) \<and>
     m_cur ba' = Some ((m_position ba' - 1) div m_baseSize ba)"
proof -
  let ?b = "m_baseSize ba" and ?p = "m_position ba"
  have n0: "0 < length buf" using assms(2) by simp
  obtain ba1 k where ba1: "addCapacity (length buf) ba = Inr ba1" "ready (length buf) ba1"
    "flat ba1 = flat ba @ replicate (k * ?b) None" "m_baseSize ba1 = ?b" "m_position ba1 = ?p"
    "m_size ba1 = m_size ba" "m_endian ba1 = m_endian ba" "m_capacity ba1 = m_capacity ba + k * ?b"
    "0 < k \<longrightarrow> m_capacity ba1 < ?p + length buf + ?b"
    using addCapacity_correct [OF assms(1) n0] by blast
  from ba1(2,4,5) have rdy: "blocks_ok ba1" "?p + length buf \<le> m_capacity ba1"
    "m_cur ba1 = Some (?p div ?b)" "?p div ?b < length (m_nodes ba1)"
    by (simp_all add: ready_def)
  note nok = blocks_okD(1) [OF rdy(1)]
  have b0: "0 < ?b" using nodes_okD(1) [OF nok] ba1(4) by simp
  have sz: "nd_size (m_nodes ba1 ! (?p div ?b)) = ?b" using nodes_okD(3) [OF nok rdy(4)] ba1(4) by simp
  have md: "?p mod ?b < ?b" using b0 by simp
  have pos: "?b * (?p div ?b) + ?p mod ?b = ?p" by simp
  obtain ba2 where ba2: "write_loop buf (?p mod ?b) (?b - ?p mod ?b) ba1 = Inr ba2" "nodes_ok ba2"
    "frame ba1 ba2" "flat ba2 = overwrite ?p buf (flat ba1)" "m_position ba2 = ?p + length buf"
    "m_cur ba2 = Some ((?p + length buf - 1) div ?b)"
    using write_loop_correct [OF nok rdy(3,4), of "?p mod ?b" "?b - ?p mod ?b" buf] md pos rdy(2) ba1(4,5) assms(2)
    by auto
  define ba' where "ba' = ba2\<lparr>m_size := max (m_size ba2) (m_position ba2)\<rparr>"
  have "(if m_size ba2 < m_position ba2 then ba2\<lparr>m_size := m_position ba2\<rparr> else ba2) = ba'"
    by (simp add: ba'_def max_def)
  then have "ByteArray_write buf ba = Inr ba'"
    using ba1(1,4,5) ba2(1) n0 b0 rdy(3) sz md by (simp add: ByteArray_write_def Let_def)
  moreover have "blocks_ok ba'"
    using ba2 rdy(1,2) blocks_okD(3) [OF rdy(1)] by (simp add: ba'_def blocks_ok_def frame_def)
  moreover have "m_size ba' = max (m_size ba) (?p + length buf)"
    using ba2(3,5) ba1(6) by (simp add: ba'_def frame_def)
  ultimately show ?thesis
    using ba1(3,4,7,8,9) ba2(3-6)
    by (intro exI [of _ ba'] exI [of _ k]) (simp add: ba'_def frame_def)
qed

lemma cur_after_write:
  assumes "blocks_ok ba" "m_cur ba = Some ((m_position ba - 1) div m_baseSize ba)" "0 < m_position ba"
    "m_position ba mod m_baseSize ba \<noteq> 0 \<or> m_position ba = m_capacity ba"
  shows "wf ba"
proof -
  note nok = blocks_okD(1) [OF assms(1)]
  note b0 = nodes_okD(1) [OF nok] and cap = nodes_okD(6) [OF nok]
  have le: "m_position ba \<le> m_capacity ba" using blocks_okD(2,3) [OF assms(1)] by simp
  show ?thesis
  proof (cases "m_position ba = m_capacity ba")
    case True
    have "(m_baseSize ba * length (m_nodes ba) - 1) div m_baseSize ba = length (m_nodes ba) - 1"
      using b0 nodes_okD(2) [OF nok]
      by (cases "length (m_nodes ba)") (auto intro!: div_nat_eqI simp: algebra_simps)
    then show ?thesis using True assms(1,2) cap by (simp add: wf_def cur_full_def)
  next
    case False
    with assms(4) have "m_position ba mod m_baseSize ba \<noteq> 0" by simp
    then have "(m_position ba - 1) div m_baseSize ba = m_position ba div m_baseSize ba"
      using assms(3) by (metis Suc_pred' div_Suc)
    then show ?thesis using False le assms(1,2) by (simp add: wf_def cur_exact_def)
  qed
qed

section \<open>Reading and positioning\<close>

lemma read_loop_correct:
  assumes "nodes_ok ba" "m_cur ba = Some c" "c < length (m_nodes ba)" "npos < m_baseSize ba"
    "ncap = m_baseSize ba - npos" "m_baseSize ba * c + npos + n \<le> m_capacity ba"
  shows "read_loop n npos ncap buf ba =
     Inr (buf @ take n (drop (m_baseSize ba * c + npos) (flat ba)),
          ba\<lparr>m_position := m_position ba + n,
             m_cur := if n = 0 then Some c
                      else if m_baseSize ba * c + npos + n < m_capacity ba
                      then Some ((m_baseSize ba * c + npos + n) div m_baseSize ba) else None\<rparr>)"
  using assms
proof (induction n npos ncap buf ba arbitrary: c rule: read_loop.induct)
  case (1 n npos ncap buf ba)
  let ?b = "m_baseSize ba"
  note ok = nodes_okD [OF \<open>nodes_ok ba\<close>]
  have blk: "take k (drop npos (nd_ptr (m_nodes ba ! c))) = take k (drop (?b * c + npos) (flat ba))"
    if "npos + k \<le> ?b" for k
    using take_drop_block [OF ok(5), of c npos k] that "1.prems"(3) by (simp add: flat_def)
  have sz: "nd_size (m_nodes ba ! c) = ?b" using ok(3) "1.prems"(3) by simp
  consider "n = 0" | "0 < n" "n \<le> ncap" | "ncap < n" by force
  then show ?case
  proof cases
    case 1
    then show ?thesis using "1.prems"(2) by (simp add: read_loop.simps)
  next
    case 2
    have nx: "next_node ba c = (if ?b * Suc c < m_capacity ba then Some (Suc c) else None)"
      using ok(1,6) by (simp add: next_node_def del: mult_Suc_right)
    have dv: "(?b * c + npos + n) div ?b = (if npos + n = ?b then Suc c else c)"
      using 2 "1.prems"(4,5) ok(1) by (auto simp: add.assoc)
    have "npos + n \<noteq> ?b \<Longrightarrow> ?b * c + npos + n < m_capacity ba"
      using 2 "1.prems"(3,4,5) ok(6) mult_le_mono2 [of "Suc c" "length (m_nodes ba)" ?b] by simp
    moreover have "take n (drop npos (nd_ptr (m_nodes ba ! c))) = take n (drop (?b * c + npos) (flat ba))"
      using blk [of n] 2 "1.prems"(4,5) by simp
    ultimately show ?thesis unfolding read_loop.simps [of n npos ncap buf ba] dv
      using 2 "1.prems"(2) sz nx by (simp add: add.assoc add.commute [of "?b * c"])
  next
    case 3
    have bc: "?b * Suc c < m_capacity ba" using "1.prems"(4,5,6) 3 by simp
    then have nx: "next_node ba c = Some (Suc c)" "Suc c < length (m_nodes ba)"
      using "1.prems"(1) ok(1,6) next_node_Some [OF "1.prems"(1), of c] by (simp_all del: mult_Suc_right)
    have start: "?b * Suc c = ?b * c + npos + ncap" using "1.prems"(4,5) by simp
    define S where "S = ?b * c + npos"
    have spl: "take n (drop S (flat ba)) = take ncap (drop S (flat ba))
        @ take (n - ncap) (drop (S + ncap) (flat ba))"
      using 3 take_add [of ncap "n - ncap" "drop S (flat ba)"] by (simp add: add.commute)
    have nz: "n \<noteq> 0" "0 < n - ncap" "\<not> n \<le> ncap" "S + ncap + (n - ncap) = S + n"
      using 3 by auto
    note IH = "1.IH" [OF nz(1) "1.prems"(2) nz(3) refl refl, of "Suc c" "Suc c"]
    have bS: "?b * Suc c = S + ncap" and bn: "S + n \<le> m_capacity ba"
      using start "1.prems"(6) by (simp_all add: S_def)
    have bk: "take ncap (drop npos (nd_ptr (m_nodes ba ! c))) = take ncap (drop S (flat ba))"
      using blk [of ncap] "1.prems"(4,5) by (simp add: S_def)
    have "read_loop (n - ncap) 0 ?b (buf @ take ncap (drop S (flat ba)))
        (ba\<lparr>m_position := m_position ba + ncap, m_cur := Some (Suc c)\<rparr>)
      = Inr (buf @ take ncap (drop S (flat ba)) @ take (n - ncap) (drop (S + ncap) (flat ba)),
          ba\<lparr>m_position := m_position ba + n,
             m_cur := if S + n < m_capacity ba then Some ((S + n) div ?b) else None\<rparr>)"
      using IH nz nx sz ok(1,3) "1.prems"(1) bk bn
      by (simp add: bS del: mult_Suc_right cong: if_cong)
    then show ?thesis
      using nx sz ok(3) nz "1.prems"(2) bk spl
      by (simp add: read_loop.simps [of n npos ncap buf ba] Let_def S_def del: mult_Suc_right)
  qed
qed

lemma wf_cur_Some:
  assumes "wf ba" "m_position ba < m_capacity ba"
  shows "m_cur ba = Some (m_position ba div m_baseSize ba)"
  using assms by (auto simp: wf_def cur_exact_def cur_full_def)

text \<open>
  The contract of \<open>read\<close> on a positive number of bytes: what lies at the position is
  returned, the position moves, nothing else changes but \<open>m_cur\<close>, which stays right.
\<close>

lemma ByteArray_read_correct:
  assumes "wf ba" "0 < n" "n \<le> m_size ba - m_position ba"
  shows "\<exists>ba'. ByteArray_read n ba = Inr (take n (drop (m_position ba) (flat ba)), ba') \<and>
     wf ba' \<and> flat ba' = flat ba \<and> m_position ba' = m_position ba + n \<and>
     m_size ba' = m_size ba \<and> m_capacity ba' = m_capacity ba \<and>
     m_baseSize ba' = m_baseSize ba \<and> m_endian ba' = m_endian ba"
proof -
  let ?b = "m_baseSize ba" and ?p = "m_position ba"
  have ok: "blocks_ok ba" using assms(1) by (rule wfD)
  note nok = blocks_okD(1) [OF ok] and le = blocks_okD(2,3) [OF ok]
  note b0 = nodes_okD(1) [OF nok]
  have pc: "?p < m_capacity ba" using assms(2,3) le by simp
  note cur = wf_cur_Some [OF assms(1) pc] and blk = pos_block [OF nok pc]
  have sz: "nd_size (m_nodes ba ! (?p div ?b)) = ?b" using nodes_okD(3) [OF nok blk] .
  have md: "?p mod ?b < ?b" using b0 by simp
  have room: "?b * (?p div ?b) + ?p mod ?b + n \<le> m_capacity ba" using assms(3) le by simp
  define ba' where "ba' = ba\<lparr>m_position := ?p + n,
      m_cur := if ?p + n < m_capacity ba then Some ((?p + n) div ?b) else None\<rparr>"
  have "ByteArray_read n ba = Inr (take n (drop ?p (flat ba)), ba')"
    using read_loop_correct [OF nok cur blk md refl room, of "[]"] assms(2,3) ok b0 cur sz md
    by (simp add: ByteArray_read_def getReadSize_eq Let_def ba'_def)
  moreover have "wf ba'" using nok le assms(3)
    by (simp add: wf_def blocks_ok_def cur_exact_def ba'_def)
  ultimately show ?thesis by (intro exI [of _ ba']) (simp add: ba'_def)
qed

lemma ByteArray_read_short:
  "wf ba \<Longrightarrow> m_size ba - m_position ba < n \<Longrightarrow> ByteArray_read n ba = Inl OutOfRange"
  by (simp add: ByteArray_read_def getReadSize_eq wfD)

text \<open>A read of no bytes still looks at \<open>m_cur\<close>.\<close>

lemma ByteArray_read_0:
  assumes "wf ba"
  shows "ByteArray_read 0 ba = (if m_cur ba = None then Inl NullDeref else Inr ([], ba))"
  using nodes_okD(1) [OF blocks_okD(1) [OF wfD [OF assms]]]
  by (auto simp: ByteArray_read_def read_loop.simps split: option.splits)

lemma seek_correct:
  assumes "\<forall>n \<in> set ns. nd_size n = b" "0 < b" "ns \<noteq> []" "v \<le> b * length ns"
  shows "seek i ns v = Inr (if v < b * length ns then Some (i + v div b) else None)"
  using assms
proof (induction i ns v rule: seek.induct)
  case (1 i v)
  then show ?case by simp
next
  case (2 i n ns v)
  show ?case
  proof (cases "b < v")
    case True
    then have "ns \<noteq> []" "v - b \<le> b * length ns" using 2(4,5) 2(2) by auto
    moreover have "v div b = Suc ((v - b) div b)" using True 2(3) by (simp add: div_if)
    moreover have "v - b < b * length ns \<longleftrightarrow> v < b * Suc (length ns)" using True 2(2) by auto
    ultimately show ?thesis using 2 True by simp
  next
    case False
    then have "v \<noteq> b \<Longrightarrow> v div b = 0" by simp
    then show ?thesis using 2(2,3,5) False by (cases ns) (auto simp: less_Suc_eq)
  qed
qed

lemma setPosition_correct:
  assumes "nodes_ok ba" "m_size ba \<le> m_capacity ba" "v \<le> m_capacity ba"
  shows "\<exists>ba'. setPosition v ba = Inr ba' \<and> wf ba' \<and> cur_exact ba' \<and> flat ba' = flat ba \<and>
     m_position ba' = v \<and> m_size ba' = max (m_size ba) v \<and> m_capacity ba' = m_capacity ba \<and>
     m_baseSize ba' = m_baseSize ba \<and> m_endian ba' = m_endian ba"
proof -
  note ok = nodes_okD [OF assms(1)]
  have all: "\<forall>n \<in> set (m_nodes ba). nd_size n = m_baseSize ba" using assms(1) by (simp add: nodes_ok_def)
  define ba' where "ba' = ba\<lparr>m_position := v, m_size := max (m_size ba) v,
      m_cur := if v < m_capacity ba then Some (v div m_baseSize ba) else None\<rparr>"
  have "setPosition v ba = Inr ba'"
    using seek_correct [OF all ok(1,2), of v 0] assms(3) ok(6)
    by (simp add: setPosition_def ba'_def)
  moreover have "nodes_ok ba'" using assms(1) by (simp add: ba'_def nodes_ok_def)
  moreover have "flat ba' = flat ba" by (simp add: ba'_def flat_def)
  ultimately show ?thesis using assms(2,3)
    by (intro exI [of _ ba']) (simp add: ba'_def wf_def cur_exact_def blocks_ok_def)
qed

lemma setPosition_out_of_range: "m_capacity ba < v \<Longrightarrow> setPosition v ba = Inl OutOfRange"
  by (simp add: setPosition_def)

lemma wf_new_ByteArray [inv_intros]: "0 < b \<Longrightarrow> wf (new_ByteArray b)"
  by (simp add: wf_def blocks_ok_def nodes_ok_def cur_exact_def new_ByteArray_def new_Node_def)

lemma wf_clear [inv_intros]:
  assumes "wf ba"
  shows "wf (clear ba)"
proof -
  note nok = blocks_okD(1) [OF wfD [OF assms]]
  then obtain n ns where "m_nodes ba = n # ns" using nodes_okD(2) by (cases "m_nodes ba") auto
  then show ?thesis using nok
    by (simp add: wf_def blocks_ok_def nodes_ok_def cur_exact_def clear_def)
qed

lemma wf_setIsLittleEndian [inv_intros]: "wf ba \<Longrightarrow> wf (setIsLittleEndian e ba)"
  by (auto simp: wf_def blocks_ok_def nodes_ok_def cur_exact_def cur_full_def setIsLittleEndian_def
      split: if_splits)

lemma toString_correct:
  assumes "wf ba"
  shows "toString ba = Inr (take (m_size ba - m_position ba) (drop (m_position ba) (flat ba)))"
proof (cases "m_size ba - m_position ba = 0")
  case True
  then show ?thesis using assms by (simp add: toString_def getReadSize_eq wfD)
next
  case False
  have ok: "blocks_ok ba" using assms by (rule wfD)
  note nok = blocks_okD(1) [OF ok] and le = blocks_okD(2,3) [OF ok]
  let ?b = "m_baseSize ba" and ?p = "m_position ba" and ?n = "m_size ba - m_position ba"
  have pc: "?p < m_capacity ba" using False le by simp
  note cur = wf_cur_Some [OF assms pc] and blk = pos_block [OF nok pc]
  have sz: "nd_size (m_nodes ba ! (?p div ?b)) = ?b" using nodes_okD(3) [OF nok blk] .
  have b0: "0 < ?b" and md: "?p mod ?b < ?b" using nodes_okD(1) [OF nok] by simp_all
  have room: "?b * (?p div ?b) + ?p mod ?b + ?n \<le> m_capacity ba" using le by simp
  have same: "ba\<lparr>m_position := ?p\<rparr> = ba" by simp
  show ?thesis
    using read_loop_correct [OF nok cur blk md refl room, of "[]"] False ok b0 cur sz md le
    by (simp add: toString_def getReadSize_eq ByteArray_read_at_def Let_def same)
qed

section \<open>Appending\<close>

text \<open>
  The usual life of an array: it is filled by writes at its end. \<open>appending\<close> holds of a new
  array and is kept by every write, so the block boundary exception never applies there.
\<close>

definition appending :: "ByteArray \<Rightarrow> bool" where
  "appending ba \<longleftrightarrow> wf ba \<and> m_position ba = m_size ba \<and>
     (m_capacity ba < m_position ba + m_baseSize ba \<or>
      m_position ba = 0 \<and> m_capacity ba = m_baseSize ba)"

definition contents :: "ByteArray \<Rightarrow> cell list" where
  "contents ba = take (m_size ba) (flat ba)"

lemma appending_new [inv_intros]: "0 < b \<Longrightarrow> appending (new_ByteArray b)"
  using wf_new_ByteArray [of b] by (simp add: appending_def new_ByteArray_def)

lemma boundary_at_end:
  assumes "blocks_ok ba" "m_position ba mod m_baseSize ba = 0"
    "m_capacity ba < m_position ba + m_baseSize ba"
  shows "m_position ba = m_capacity ba"
proof -
  note nok = blocks_okD(1) [OF assms(1)]
  note b0 = nodes_okD(1) [OF nok] and cap = nodes_okD(6) [OF nok]
  obtain k where k: "m_position ba = m_baseSize ba * k" using assms(2) by auto
  have "m_baseSize ba * k \<le> m_baseSize ba * length (m_nodes ba)"
    using le_trans [OF blocks_okD(2,3) [OF assms(1)]] unfolding k cap .
  then have "k \<le> length (m_nodes ba)" using b0 by simp
  moreover have "m_baseSize ba * length (m_nodes ba) < m_baseSize ba * Suc k" using assms(3) k cap by simp
  then have "length (m_nodes ba) < Suc k" by (simp only: mult_less_cancel1)
  ultimately show ?thesis using k cap by simp
qed

lemma appending_write:
  assumes "appending ba"
  shows "\<exists>ba'. ByteArray_write buf ba = Inr ba' \<and> appending ba' \<and>
     contents ba' = contents ba @ buf \<and> m_endian ba' = m_endian ba \<and>
     m_baseSize ba' = m_baseSize ba"
proof (cases "buf = []")
  case True
  then show ?thesis using assms by (simp add: ByteArray_write_def)
next
  case False
  from assms have wf: "wf ba" and ps: "m_position ba = m_size ba"
    and cp: "m_capacity ba \<le> m_position ba + m_baseSize ba" by (auto simp: appending_def)
  note nok = blocks_okD(1) [OF wfD [OF wf]] and le = blocks_okD(2,3) [OF wfD [OF wf]]
  obtain ba' k where w: "ByteArray_write buf ba = Inr ba'" "blocks_ok ba'"
    "flat ba' = overwrite (m_position ba) buf (flat ba @ replicate (k * m_baseSize ba) None)"
    "m_position ba' = m_position ba + length buf"
    "m_size ba' = max (m_size ba) (m_position ba + length buf)"
    "m_capacity ba' = m_capacity ba + k * m_baseSize ba"
    "m_baseSize ba' = m_baseSize ba" "m_endian ba' = m_endian ba"
    "0 < k \<longrightarrow> m_capacity ba' < m_position ba' + m_baseSize ba"
    "m_cur ba' = Some ((m_position ba' - 1) div m_baseSize ba)"
    using ByteArray_write_correct [OF wf False] by blast
  have cap': "m_capacity ba' < m_position ba' + m_baseSize ba'"
    using w(4,6,7,9) cp False by (cases "k = 0"; cases buf) auto
  have "wf ba'"
    using cur_after_write [OF w(2)] boundary_at_end [OF w(2) _ cap'] w(4,7,10) False by auto
  moreover have "contents ba' = contents ba @ buf"
    using w(3,5) ps le length_flat [OF nok] by (simp add: contents_def overwrite_def)
  ultimately show ?thesis using w(1,4,5,7,8) ps cap' by (auto simp: appending_def)
qed

section \<open>Properties\<close>

text \<open>
  C10. A write of a non-empty buffer to a well-formed array succeeds: the bytes replace
  those at the position (after growing by whole blocks if needed), every other byte is
  kept, the position moves past the buffer and the size grows to it if it was smaller.
  The result is well-formed again unless the write stops on a block boundary that has
  capacity behind it.
\<close>

theorem ByteArray_write_spec:
  assumes "wf ba" "buf \<noteq> []"
  shows "\<exists>ba' k. ByteArray_write buf ba = Inr ba' \<and>
     flat ba' = overwrite (m_position ba) buf (flat ba @ replicate (k * m_baseSize ba) None) \<and>
     m_position ba' = m_position ba + length buf \<and>
     m_size ba' = max (m_size ba) (m_position ba + length buf) \<and>
     m_capacity ba' = m_capacity ba + k * m_baseSize ba \<and> blocks_ok ba' \<and>
     (m_position ba' mod m_baseSize ba' \<noteq> 0 \<or> m_position ba' = m_capacity ba' \<longrightarrow> wf ba')"
proof -
  obtain ba' k where w: "ByteArray_write buf ba = Inr ba'" "blocks_ok ba'"
    "flat ba' = overwrite (m_position ba) buf (flat ba @ replicate (k * m_baseSize ba) None)"
    "m_position ba' = m_position ba + length buf"
    "m_size ba' = max (m_size ba) (m_position ba + length buf)"
    "m_capacity ba' = m_capacity ba + k * m_baseSize ba"
    "m_baseSize ba' = m_baseSize ba"
    "m_cur ba' = Some ((m_position ba' - 1) div m_baseSize ba)"
    using ByteArray_write_correct [OF assms] by blast
  have "0 < m_position ba'" using w(4) assms(2) by simp
  then have "m_position ba' mod m_baseSize ba' \<noteq> 0 \<or> m_position ba' = m_capacity ba' \<longrightarrow> wf ba'"
    using cur_after_write [OF w(2)] w(7,8) by simp
  with w(1-6) show ?thesis by blast
qed

theorem ByteArray_write_spec_witness:
  "\<exists>ba'. ByteArray_write [Some 1] (new_ByteArray 4) = Inr ba' \<and> m_position ba' = 1 \<and> m_size ba' = 1"
  using ByteArray_write_spec [OF wf_new_ByteArray [of 4], of "[Some 1]"]
  by (auto simp: new_ByteArray_def)

text \<open>
  C11. A read of \<open>n > 0\<close> bytes from a well-formed array that has that many returns exactly
  the bytes at the position, leaves every byte, the size and the capacity alone, moves the
  position, and keeps the array well-formed; a longer read throws.
\<close>

theorem ByteArray_read_spec:
  assumes "wf ba" "0 < n"
  shows "if n \<le> m_size ba - m_position ba
     then \<exists>ba'. ByteArray_read n ba = Inr (take n (drop (m_position ba) (flat ba)), ba') \<and>
        wf ba' \<and> flat ba' = flat ba \<and> m_position ba' = m_position ba + n \<and>
        m_size ba' = m_size ba \<and> m_capacity ba' = m_capacity ba
     else ByteArray_read n ba = Inl OutOfRange"
  using ByteArray_read_correct [OF assms] ByteArray_read_short [OF assms(1), of n] by auto

theorem ByteArray_read_spec_witness:
  "ByteArray_read 3 (new_ByteArray 4) = Inl OutOfRange"
  using ByteArray_read_spec [OF wf_new_ByteArray, of 4 3] by (simp add: new_ByteArray_def)

text \<open>
  \<open>setPosition\<close> within the capacity repairs \<open>m_cur\<close>: whatever \<open>m_cur\<close> was, the result is
  well-formed, keeps every byte, and its size is at least the new position; beyond the
  capacity it throws.
\<close>

theorem setPosition_spec:
  assumes "blocks_ok ba"
  shows "if v \<le> m_capacity ba
     then \<exists>ba'. setPosition v ba = Inr ba' \<and> wf ba' \<and> flat ba' = flat ba \<and>
        m_position ba' = v \<and> m_size ba' = max (m_size ba) v
     else setPosition v ba = Inl OutOfRange"
  using setPosition_correct [OF blocks_okD(1,3) [OF assms], of v] setPosition_out_of_range [of ba v]
  by auto

theorem setPosition_spec_witness:
  "\<exists>ba'. setPosition 4 (new_ByteArray 4) = Inr ba' \<and> m_size ba' = 4"
  using setPosition_spec [OF wfD [OF wf_new_ByteArray], of 4 4] by (auto simp: new_ByteArray_def)

text \<open>
  The exception of \<open>ByteArray_write_spec\<close> loses data: with blocks of four bytes, filling eight bytes,
  going back to the start and writing two buffers of four bytes leaves the second buffer in
  the first block, where the first one was, and the second block unchanged.
\<close>

theorem write_at_block_boundary_overwrites:
  "bind_res (ByteArray_write (map Some [a1, a2, a3, a4, a5, a6, a7, a8]) (new_ByteArray 4)) (\<lambda>ba1.
   bind_res (setPosition 0 ba1) (\<lambda>ba2.
   bind_res (ByteArray_write (map Some [b1, b2, b3, b4]) ba2) (\<lambda>ba3.
   bind_res (ByteArray_write (map Some [c1, c2, c3, c4]) ba3) (\<lambda>ba4.
   bind_res (setPosition 0 ba4) toString))))
   = Inr (map Some [c1, c2, c3, c4, a5, a6, a7, a8])"
  by code_simp

end
