(* ===== verification/Byte_Codec.thy ===== *)
theory Byte_Codec
  imports Byte_Array
begin

text \<open>
  \<open>src/src/socket/bytearray.cpp\<close>, the typed reads and writes: fixed width integers in the
  array's byte order, zigzag and varint coded integers, floats and doubles (as their object
  representation), and the strings with a 16, 32, 64 bit, varint or no length in front.

  A signed fixed width integer is the word that holds it (\<open>sint\<close> reads it). The arithmetic
  of \<open>EncodeZigzag\<close> happens on signed C++ integers, where leaving the range is undefined;
  there it is \<open>Inl SignedOverflow\<close>. The interface the round trips rest on is the locale
  \<open>codec\<close>, interpreted for every pair of operations.
\<close>

section \<open>Helpers\<close>

definition known :: "cell list \<Rightarrow> ba_error + u8 list" where
  "known cs = (case those cs of None \<Rightarrow> Inl Indeterminate | Some bs \<Rightarrow> Inr bs)"

definition write_bytes :: "u8 list \<Rightarrow> ByteArray \<Rightarrow> ba_error + ByteArray" where
  "write_bytes bs ba = ByteArray_write (map Some bs) ba"

definition read_bytes :: "nat \<Rightarrow> ByteArray \<Rightarrow> ba_error + u8 list \<times> ByteArray" where
  "read_bytes n ba =
     bind_res (ByteArray_read n ba) (\<lambda>(cs, ba'). bind_res (known cs) (\<lambda>bs. Inr (bs, ba')))"

section \<open>Fixed width integers\<close>

definition writeFint8 :: "u8 \<Rightarrow> ByteArray \<Rightarrow> ba_error + ByteArray" where
  "writeFint8 value ba = write_bytes (to_bytes 1 value) ba"

definition writeFuint8 :: "u8 \<Rightarrow> ByteArray \<Rightarrow> ba_error + ByteArray" where
  "writeFuint8 value ba = write_bytes (to_bytes 1 value) ba"

definition writeFint16 :: "u16 \<Rightarrow> ByteArray \<Rightarrow> ba_error + ByteArray" where
  "writeFint16 value ba =
     (let value' = if m_endian ba \<noteq> THIS_BYTE_ORDER then bswap_16 value else value
      in write_bytes (to_bytes 2 value') ba)"

definition writeFuint16 :: "u16 \<Rightarrow> ByteArray \<Rightarrow> ba_error + ByteArray" where
  "writeFuint16 value ba =
     (let value' = if m_endian ba \<noteq> THIS_BYTE_ORDER then bswap_16 value else value
      in write_bytes (to_bytes 2 value') ba)"

definition writeFint32 :: "u32 \<Rightarrow> ByteArray \<Rightarrow> ba_error + ByteArray" where
  "writeFint32 value ba =
     (let value' = if m_endian ba \<noteq> THIS_BYTE_ORDER then bswap_32 value else value
      in write_bytes (to_bytes 4 value') ba)"

definition writeFuint32 :: "u32 \<Rightarrow> ByteArray \<Rightarrow> ba_error + ByteArray" where
  "writeFuint32 value ba =
     (let value' = if m_endian ba \<noteq> THIS_BYTE_ORDER then bswap_32 value else value
      in write_bytes (to_bytes 4 value') ba)"

definition writeFint64 :: "u64 \<Rightarrow> ByteArray \<Rightarrow> ba_error + ByteArray" where
  "writeFint64 value ba =
     (let value' = if m_endian ba \<noteq> THIS_BYTE_ORDER then bswap_64 value else value
      in write_bytes (to_bytes 8 value') ba)"

definition writeFuint64 :: "u64 \<Rightarrow> ByteArray \<Rightarrow> ba_error + ByteArray" where
  "writeFuint64 value ba =
     (let value' = if m_endian ba \<noteq> THIS_BYTE_ORDER then bswap_64 value else value
      in write_bytes (to_bytes 8 value') ba)"

definition readFint8 :: "ByteArray \<Rightarrow> ba_error + u8 \<times> ByteArray" where
  "readFint8 ba = bind_res (read_bytes 1 ba) (\<lambda>(bs, ba'). Inr (of_bytes bs, ba'))"

definition readFuint8 :: "ByteArray \<Rightarrow> ba_error + u8 \<times> ByteArray" where
  "readFuint8 ba = bind_res (read_bytes 1 ba) (\<lambda>(bs, ba'). Inr (of_bytes bs, ba'))"

definition readFint16 :: "ByteArray \<Rightarrow> ba_error + u16 \<times> ByteArray" where
  "readFint16 ba = bind_res (read_bytes 2 ba) (\<lambda>(bs, ba').
     let v = of_bytes bs
     in Inr (if m_endian ba' = THIS_BYTE_ORDER then v else bswap_16 v, ba'))"

definition readFuint16 :: "ByteArray \<Rightarrow> ba_error + u16 \<times> ByteArray" where
  "readFuint16 ba = bind_res (read_bytes 2 ba) (\<lambda>(bs, ba').
     let v = of_bytes bs
     in Inr (if m_endian ba' = THIS_BYTE_ORDER then v else bswap_16 v, ba'))"

definition readFint32 :: "ByteArray \<Rightarrow> ba_error + u32 \<times> ByteArray" where
  "readFint32 ba = bind_res (read_bytes 4 ba) (\<lambda>(bs, ba').
     let v = of_bytes bs
     in Inr (if m_endian ba' = THIS_BYTE_ORDER then v else bswap_32 v, ba'))"

definition readFuint32 :: "ByteArray \<Rightarrow> ba_error + u32 \<times> ByteArray" where
  "readFuint32 ba = bind_res (read_bytes 4 ba) (\<lambda>(bs, ba').
     let v = of_bytes bs
     in Inr (if m_endian ba' = THIS_BYTE_ORDER then v else bswap_32 v, ba'))"

definition readFint64 :: "ByteArray \<Rightarrow> ba_error + u64 \<times> ByteArray" where
  "readFint64 ba = bind_res (read_bytes 8 ba) (\<lambda>(bs, ba').
     let v = of_bytes bs
     in Inr (if m_endian ba' = THIS_BYTE_ORDER then v else bswap_64 v, ba'))"

definition readFuint64 :: "ByteArray \<Rightarrow> ba_error + u64 \<times> ByteArray" where
  "readFuint64 ba = bind_res (read_bytes 8 ba) (\<lambda>(bs, ba').
     let v = of_bytes bs
     in Inr (if m_endian ba' = THIS_BYTE_ORDER then v else bswap_64 v, ba'))"

section \<open>Zigzag and varint integers\<close>

text \<open>A signed operation of width \<open>w\<close> whose exact result is \<open>x\<close>.\<close>

definition signed_arith :: "nat \<Rightarrow> int \<Rightarrow> ba_error + int" where
  "signed_arith w x =
     (if - (2 ^ (w - 1)) \<le> x \<and> x < 2 ^ (w - 1) then Inr x else Inl SignedOverflow)"

definition EncodeZigzag :: "nat \<Rightarrow> int \<Rightarrow> ba_error + int" where
  "EncodeZigzag w v =
     (if v < 0
      then bind_res (signed_arith w (- v)) (\<lambda>m.
             bind_res (signed_arith w (m * 2)) (\<lambda>d. signed_arith w (d - 1)))
      else signed_arith w (v * 2))"

definition DecodeZigzag :: "'a::len word \<Rightarrow> 'a word" where
  "DecodeZigzag v = drop_bit 1 v XOR (- (v AND 1))"

text \<open>\<open>tmp[i++] = b\<close> on an array of \<open>n\<close> bytes.\<close>

definition tmp_put :: "nat \<Rightarrow> u8 list \<Rightarrow> u8 \<Rightarrow> ba_error + u8 list" where
  "tmp_put n tmp b = (if length tmp < n then Inr (tmp @ [b]) else Inl BufferOverflow)"

function varint_loop :: "nat \<Rightarrow> u8 list \<Rightarrow> 'a::len word \<Rightarrow> ba_error + u8 list" where
  "varint_loop n tmp value =
     (if 128 \<le> unat value then
        bind_res (tmp_put n tmp (ucast (value AND 0x7F) OR 0x80)) (\<lambda>tmp'.
          varint_loop n tmp' (drop_bit 7 value))
      else tmp_put n tmp (ucast value))"
  by pat_completeness auto
termination
proof (relation "measure (\<lambda>(n, tmp, value). unat value)")
  fix n :: nat and tmp :: "u8 list" and w :: "'a word" and tmp' :: "u8 list"
  assume "128 \<le> unat w"
  then have "unat (drop_bit 7 w) < unat w"
    by (simp only: unat_drop_bit_eq) (simp add: drop_bit_eq_div)
  then show "((n, tmp', drop_bit 7 w), n, tmp, w) \<in> measure (\<lambda>(n, tmp, value). unat value)"
    by simp
qed simp

declare varint_loop.simps [simp del]

definition writeUint32 :: "u32 \<Rightarrow> ByteArray \<Rightarrow> ba_error + ByteArray" where
  "writeUint32 value ba = bind_res (varint_loop 5 [] value) (\<lambda>tmp. write_bytes tmp ba)"

definition writeUint64 :: "u64 \<Rightarrow> ByteArray \<Rightarrow> ba_error + ByteArray" where
  "writeUint64 value ba = bind_res (varint_loop 10 [] value) (\<lambda>tmp. write_bytes tmp ba)"

definition writeInt32 :: "int \<Rightarrow> ByteArray \<Rightarrow> ba_error + ByteArray" where
  "writeInt32 value ba = bind_res (EncodeZigzag 32 value) (\<lambda>z. writeUint32 (word_of_int z) ba)"

definition writeInt64 :: "int \<Rightarrow> ByteArray \<Rightarrow> ba_error + ByteArray" where
  "writeInt64 value ba = bind_res (EncodeZigzag 64 value) (\<lambda>z. writeUint64 (word_of_int z) ba)"

text \<open>The loop \<open>for (int i = 0; i < bits; i += 7)\<close>.\<close>

function varint_read ::
  "nat \<Rightarrow> nat \<Rightarrow> 'a::len word \<Rightarrow> ByteArray \<Rightarrow> ba_error + 'a word \<times> ByteArray" where
  "varint_read bits i result ba =
     (if i < bits then
        bind_res (readFuint8 ba) (\<lambda>(b, ba').
          if unat b < 128 then Inr (result OR push_bit i (ucast b), ba')
          else varint_read bits (i + 7) (result OR push_bit i (ucast (b AND 0x7F))) ba')
      else Inr (result, ba))"
  by pat_completeness auto
termination
  by (relation "measure (\<lambda>(bits, i, result, ba). bits - i)") auto

declare varint_read.simps [simp del]

definition readUint32 :: "ByteArray \<Rightarrow> ba_error + u32 \<times> ByteArray" where
  "readUint32 ba = varint_read 32 0 0 ba"

definition readUint64 :: "ByteArray \<Rightarrow> ba_error + u64 \<times> ByteArray" where
  "readUint64 ba = varint_read 64 0 0 ba"

definition readInt32 :: "ByteArray \<Rightarrow> ba_error + int \<times> ByteArray" where
  "readInt32 ba = bind_res (readUint32 ba) (\<lambda>(v, ba'). Inr (sint (DecodeZigzag v), ba'))"

definition readInt64 :: "ByteArray \<Rightarrow> ba_error + int \<times> ByteArray" where
  "readInt64 ba = bind_res (readUint64 ba) (\<lambda>(v, ba'). Inr (sint (DecodeZigzag v), ba'))"

section \<open>Floating point numbers\<close>

text \<open>\<open>memcpy\<close> between the number and an integer of its size; the number is its representation.\<close>

definition writeFloat :: "u32 \<Rightarrow> ByteArray \<Rightarrow> ba_error + ByteArray" where
  "writeFloat value ba = writeFuint32 value ba"

definition writeDouble :: "u64 \<Rightarrow> ByteArray \<Rightarrow> ba_error + ByteArray" where
  "writeDouble value ba = writeFuint64 value ba"

definition readFloat :: "ByteArray \<Rightarrow> ba_error + u32 \<times> ByteArray" where
  "readFloat ba = readFuint32 ba"

definition readDouble :: "ByteArray \<Rightarrow> ba_error + u64 \<times> ByteArray" where
  "readDouble ba = readFuint64 ba"

section \<open>Strings\<close>

definition writeStringF16 :: "u8 list \<Rightarrow> ByteArray \<Rightarrow> ba_error + ByteArray" where
  "writeStringF16 value ba =
     bind_res (writeFuint16 (word_of_nat (length value)) ba) (write_bytes value)"

definition writeStringF32 :: "u8 list \<Rightarrow> ByteArray \<Rightarrow> ba_error + ByteArray" where
  "writeStringF32 value ba =
     bind_res (writeFuint32 (word_of_nat (length value)) ba) (write_bytes value)"

definition writeStringF64 :: "u8 list \<Rightarrow> ByteArray \<Rightarrow> ba_error + ByteArray" where
  "writeStringF64 value ba =
     bind_res (writeFuint64 (word_of_nat (length value)) ba) (write_bytes value)"

definition writeStringVint :: "u8 list \<Rightarrow> ByteArray \<Rightarrow> ba_error + ByteArray" where
  "writeStringVint value ba =
     bind_res (writeUint64 (word_of_nat (length value)) ba) (write_bytes value)"

definition writeStringWithoutLength :: "u8 list \<Rightarrow> ByteArray \<Rightarrow> ba_error + ByteArray" where
  "writeStringWithoutLength value ba = write_bytes value ba"

definition readStringF16 :: "ByteArray \<Rightarrow> ba_error + u8 list \<times> ByteArray" where
  "readStringF16 ba = bind_res (readFuint16 ba) (\<lambda>(len, ba'). read_bytes (unat len) ba')"

definition readStringF32 :: "ByteArray \<Rightarrow> ba_error + u8 list \<times> ByteArray" where
  "readStringF32 ba = bind_res (readFuint32 ba) (\<lambda>(len, ba'). read_bytes (unat len) ba')"

definition readStringF64 :: "ByteArray \<Rightarrow> ba_error + u8 list \<times> ByteArray" where
  "readStringF64 ba = bind_res (readFuint64 ba) (\<lambda>(len, ba'). read_bytes (unat len) ba')"

definition readStringVint :: "ByteArray \<Rightarrow> ba_error + u8 list \<times> ByteArray" where
  "readStringVint ba = bind_res (readUint64 ba) (\<lambda>(len, ba'). read_bytes (unat len) ba')"

section \<open>Reading bytes\<close>

text \<open>The bytes between the position and the size, which is what reads consume.\<close>

definition unread :: "ByteArray \<Rightarrow> cell list" where
  "unread ba = drop (m_position ba) (contents ba)"

lemma known_map_Some [simp]: "known (map Some bs) = Inr bs"
proof -
  have "those (map Some bs) = Some bs" by (induction bs) simp_all
  then show ?thesis by (simp add: known_def)
qed

lemma length_contents: "blocks_ok ba \<Longrightarrow> length (contents ba) = m_size ba"
  by (simp add: contents_def length_flat blocks_okD)

lemma read_bytes_law:
  assumes "wf ba" "unread ba = map Some bs @ rest" "bs \<noteq> []"
  shows "\<exists>ba'. read_bytes (length bs) ba = Inr (bs, ba') \<and> wf ba' \<and> unread ba' = rest \<and>
     m_endian ba' = m_endian ba"
proof -
  let ?n = "length bs" and ?p = "m_position ba"
  note le = blocks_okD(2,3) [OF wfD [OF assms(1)]]
  have un: "unread ba = take (m_size ba - ?p) (drop ?p (flat ba))"
    by (simp add: unread_def contents_def drop_take)
  have "length (unread ba) = m_size ba - ?p"
    by (simp add: unread_def length_contents wfD [OF assms(1)])
  with assms(2) have n: "?n \<le> m_size ba - ?p" by simp
  have "take ?n (drop ?p (flat ba)) = take ?n (unread ba)" using n by (simp add: un)
  then have tk: "take ?n (drop ?p (flat ba)) = map Some bs" using assms(2) by simp
  obtain ba' where r: "ByteArray_read ?n ba = Inr (map Some bs, ba')" "wf ba'" "flat ba' = flat ba"
    "m_position ba' = ?p + ?n" "m_size ba' = m_size ba" "m_endian ba' = m_endian ba"
    using ByteArray_read_correct [OF assms(1) _ n] assms(3) tk by auto
  have "unread ba' = drop ?n (unread ba)"
    using r(3-5) by (simp add: unread_def contents_def add.commute)
  then show ?thesis using r assms(2) by (simp add: read_bytes_def)
qed

text \<open>A read of no bytes succeeds when the position is inside the capacity.\<close>

lemma read_bytes_0:
  "wf ba \<Longrightarrow> m_position ba < m_capacity ba \<Longrightarrow> read_bytes 0 ba = Inr ([], ba)"
  using known_map_Some [of "[]"] by (simp add: read_bytes_def ByteArray_read_0 wf_cur_Some)

lemma appending_write_bytes:
  assumes "appending ba"
  shows "\<exists>ba'. write_bytes bs ba = Inr ba' \<and> appending ba' \<and>
     contents ba' = contents ba @ map Some bs \<and> m_endian ba' = m_endian ba"
  using appending_write [OF assms, of "map Some bs"] by (auto simp: write_bytes_def)

lemma rewind_unread:
  assumes "appending ba"
  shows "\<exists>ba'. setPosition 0 ba = Inr ba' \<and> wf ba' \<and> unread ba' = contents ba \<and>
     m_endian ba' = m_endian ba"
proof -
  have ok: "blocks_ok ba" using assms by (simp add: appending_def wfD)
  show ?thesis
    using setPosition_correct [OF blocks_okD(1,3) [OF ok], of 0] by (auto simp: unread_def contents_def)
qed

section \<open>The codec interface\<close>

text \<open>
  A pair of a write and a read that agree on an encoding: the write appends the encoding,
  the read consumes it from the front of the unread bytes.
\<close>

locale codec =
  fixes wr :: "'a \<Rightarrow> ByteArray \<Rightarrow> ba_error + ByteArray"
    and rd :: "ByteArray \<Rightarrow> ba_error + 'a \<times> ByteArray"
    and enc :: "nat \<Rightarrow> 'a \<Rightarrow> u8 list"
    and good :: "'a \<Rightarrow> bool"
  assumes wr_law: "appending ba \<Longrightarrow> good v \<Longrightarrow>
      \<exists>ba'. wr v ba = Inr ba' \<and> appending ba' \<and>
        contents ba' = contents ba @ map Some (enc (m_endian ba) v) \<and> m_endian ba' = m_endian ba"
    and rd_law: "wf ba \<Longrightarrow> good v \<Longrightarrow> unread ba = map Some (enc (m_endian ba) v) @ rest \<Longrightarrow>
      \<exists>ba'. rd ba = Inr (v, ba') \<and> wf ba' \<and> unread ba' = rest \<and> m_endian ba' = m_endian ba"

text \<open>
  Values of several kinds in one array: the reader is told the kind to expect, as the
  callers of the array know the layout of their messages.
\<close>

fun write_all :: "('a \<Rightarrow> ByteArray \<Rightarrow> ba_error + ByteArray) \<Rightarrow> 'a list \<Rightarrow> ByteArray \<Rightarrow> ba_error + ByteArray" where
  "write_all wr [] ba = Inr ba"
| "write_all wr (v # vs) ba = bind_res (wr v ba) (write_all wr vs)"

fun read_all ::
  "('k \<Rightarrow> ByteArray \<Rightarrow> ba_error + 'a \<times> ByteArray) \<Rightarrow> 'k list \<Rightarrow> ByteArray \<Rightarrow> ba_error + 'a list \<times> ByteArray" where
  "read_all rd [] ba = Inr ([], ba)"
| "read_all rd (k # ks) ba =
     bind_res (rd k ba) (\<lambda>(v, ba'). bind_res (read_all rd ks ba') (\<lambda>(vs, ba''). Inr (v # vs, ba'')))"

text \<open>Write the values to a new array, set the position back to the start, read them.\<close>

definition write_then_read ::
  "('a \<Rightarrow> ByteArray \<Rightarrow> ba_error + ByteArray) \<Rightarrow> ('k \<Rightarrow> ByteArray \<Rightarrow> ba_error + 'a \<times> ByteArray) \<Rightarrow>
   nat \<Rightarrow> bool \<Rightarrow> 'a list \<Rightarrow> 'k list \<Rightarrow> ba_error + 'a list" where
  "write_then_read wr rd base_size little vs ks =
     bind_res (write_all wr vs (setIsLittleEndian little (new_ByteArray base_size))) (\<lambda>ba1.
     bind_res (setPosition 0 ba1) (\<lambda>ba2.
     bind_res (read_all rd ks ba2) (\<lambda>(vs', _). Inr vs')))"

locale tagged_codec =
  fixes wr :: "'a \<Rightarrow> ByteArray \<Rightarrow> ba_error + ByteArray"
    and rd :: "'k \<Rightarrow> ByteArray \<Rightarrow> ba_error + 'a \<times> ByteArray"
    and kind :: "'a \<Rightarrow> 'k"
    and enc :: "nat \<Rightarrow> 'a \<Rightarrow> u8 list"
    and good :: "'a \<Rightarrow> bool"
  assumes each: "codec wr (rd k) enc (\<lambda>v. good v \<and> kind v = k)"
begin

lemma write_all_law:
  assumes "appending ba" "\<forall>v \<in> set vs. good v"
  shows "\<exists>ba'. write_all wr vs ba = Inr ba' \<and> appending ba' \<and>
     contents ba' = contents ba @ map Some (concat (map (enc (m_endian ba)) vs)) \<and>
     m_endian ba' = m_endian ba"
  using assms
proof (induction vs arbitrary: ba)
  case Nil
  then show ?case by simp
next
  case (Cons v vs)
  then obtain ba1 where ba1: "wr v ba = Inr ba1" "appending ba1"
    "contents ba1 = contents ba @ map Some (enc (m_endian ba) v)" "m_endian ba1 = m_endian ba"
    using codec.wr_law [OF each [of "kind v"], of ba v] by auto
  show ?case using Cons.IH [OF ba1(2)] Cons.prems(2) ba1 by auto
qed

lemma read_all_law:
  assumes "wf ba" "\<forall>v \<in> set vs. good v"
    "unread ba = map Some (concat (map (enc (m_endian ba)) vs)) @ rest"
  shows "\<exists>ba'. read_all rd (map kind vs) ba = Inr (vs, ba') \<and> wf ba' \<and> unread ba' = rest"
  using assms
proof (induction vs arbitrary: ba)
  case Nil
  then show ?case by simp
next
  case (Cons v vs)
  then obtain ba1 where ba1: "rd (kind v) ba = Inr (v, ba1)" "wf ba1"
    "unread ba1 = map Some (concat (map (enc (m_endian ba)) vs)) @ rest" "m_endian ba1 = m_endian ba"
    using codec.rd_law [OF each [of "kind v"], of ba v] by auto
  show ?case using Cons.IH [OF ba1(2)] Cons.prems(2) ba1 by auto
qed

lemma write_then_read_law:
  assumes "0 < b" "\<forall>v \<in> set vs. good v"
  shows "write_then_read wr rd b little vs (map kind vs) = Inr vs"
proof -
  have "appending (setIsLittleEndian little (new_ByteArray b))"
    using appending_new [OF assms(1)] wf_setIsLittleEndian [of "new_ByteArray b"]
    by (simp add: appending_def setIsLittleEndian_def new_ByteArray_def)
  moreover have "contents (setIsLittleEndian little (new_ByteArray b)) = []"
    by (simp add: contents_def setIsLittleEndian_def new_ByteArray_def)
  ultimately obtain ba1 where
    1: "write_all wr vs (setIsLittleEndian little (new_ByteArray b)) = Inr ba1" "appending ba1"
      "contents ba1 = map Some (concat (map (enc (m_endian ba1)) vs))"
    using write_all_law [OF _ assms(2)] by fastforce
  obtain ba2 where 2: "setPosition 0 ba1 = Inr ba2" "wf ba2" "unread ba2 = contents ba1"
    "m_endian ba2 = m_endian ba1"
    using rewind_unread [OF 1(2)] by blast
  have "unread ba2 = map Some (concat (map (enc (m_endian ba2)) vs)) @ []" using 1(3) 2(3,4) by simp
  from read_all_law [OF 2(2) assms(2) this] 1(1) 2(1) show ?thesis
    by (auto simp: write_then_read_def)
qed

end

text \<open>A plain codec is a tagged one with a single kind.\<close>

sublocale codec \<subseteq> tagged_codec wr "\<lambda>_::unit. rd" "\<lambda>_. ()" enc good
  by unfold_locales (use wr_law rd_law in auto)

section \<open>The codecs of the array\<close>

definition enc_fixed :: "nat \<Rightarrow> nat \<Rightarrow> 'a::len word \<Rightarrow> u8 list" where
  "enc_fixed n e v = (if e = THIS_BYTE_ORDER then to_bytes n v else rev (to_bytes n v))"

lemma fixed_codec:
  fixes sw :: "'a::len word \<Rightarrow> 'a word"
  assumes "LENGTH('a) = 8 * n" "0 < n" "\<And>v. to_bytes n (sw v) = rev (to_bytes n v)"
    "\<And>v ba. wr v ba = write_bytes (to_bytes n (if m_endian ba \<noteq> THIS_BYTE_ORDER then sw v else v)) ba"
    "\<And>ba. rd ba = bind_res (read_bytes n ba) (\<lambda>(bs, ba'). let v = of_bytes bs in
        Inr (if m_endian ba' = THIS_BYTE_ORDER then v else sw v, ba'))"
  shows "codec wr rd (enc_fixed n) (\<lambda>_. True)"
proof
  fix ba :: ByteArray and v
  have e: "to_bytes n (if m_endian ba \<noteq> THIS_BYTE_ORDER then sw v else v) = enc_fixed n (m_endian ba) v"
    by (simp add: enc_fixed_def assms(3))
  {
    assume "appending ba"
    from appending_write_bytes [OF this, of "enc_fixed n (m_endian ba) v"]
    show "\<exists>ba'. wr v ba = Inr ba' \<and> appending ba' \<and>
        contents ba' = contents ba @ map Some (enc_fixed n (m_endian ba) v) \<and> m_endian ba' = m_endian ba"
      by (simp add: assms(4) e)
  }
  fix rest
  assume *: "wf ba" "unread ba = map Some (enc_fixed n (m_endian ba) v) @ rest"
  have len: "length (enc_fixed n (m_endian ba) v) = n" by (simp add: enc_fixed_def)
  have "sw (of_bytes (rev (to_bytes n v))) = v"
    using assms(1,3) by (intro to_bytes_inj [of n]) (simp_all add: to_of_bytes)
  then have "(if m_endian ba = THIS_BYTE_ORDER then of_bytes (enc_fixed n (m_endian ba) v)
      else sw (of_bytes (enc_fixed n (m_endian ba) v))) = v"
    using assms(1) by (simp add: enc_fixed_def of_to_bytes)
  with read_bytes_law [OF *] assms(2) len
  show "\<exists>ba'. rd ba = Inr (v, ba') \<and> wf ba' \<and> unread ba' = rest \<and> m_endian ba' = m_endian ba"
    by (fastforce simp: assms(5) Let_def)
qed

interpretation fint8: codec writeFint8 readFint8 "enc_fixed 1" "\<lambda>_. True"
  by (rule fixed_codec [where sw = "\<lambda>v. v"])
     (auto simp: writeFint8_def readFint8_def to_bytes_def Let_def)

interpretation fuint8: codec writeFuint8 readFuint8 "enc_fixed 1" "\<lambda>_. True"
  by (rule fixed_codec [where sw = "\<lambda>v. v"])
     (auto simp: writeFuint8_def readFuint8_def to_bytes_def Let_def)

interpretation fint16: codec writeFint16 readFint16 "enc_fixed 2" "\<lambda>_. True"
  by (rule fixed_codec [where sw = bswap_16])
     (auto simp: writeFint16_def readFint16_def to_bytes_bswap_16 Let_def)

interpretation fuint16: codec writeFuint16 readFuint16 "enc_fixed 2" "\<lambda>_. True"
  by (rule fixed_codec [where sw = bswap_16])
     (auto simp: writeFuint16_def readFuint16_def to_bytes_bswap_16 Let_def)

interpretation fint32: codec writeFint32 readFint32 "enc_fixed 4" "\<lambda>_. True"
  by (rule fixed_codec [where sw = bswap_32])
     (auto simp: writeFint32_def readFint32_def to_bytes_bswap_32 Let_def)

interpretation fuint32: codec writeFuint32 readFuint32 "enc_fixed 4" "\<lambda>_. True"
  by (rule fixed_codec [where sw = bswap_32])
     (auto simp: writeFuint32_def readFuint32_def to_bytes_bswap_32 Let_def)

interpretation fint64: codec writeFint64 readFint64 "enc_fixed 8" "\<lambda>_. True"
  by (rule fixed_codec [where sw = bswap_64])
     (auto simp: writeFint64_def readFint64_def to_bytes_bswap_64 Let_def)

interpretation fuint64: codec writeFuint64 readFuint64 "enc_fixed 8" "\<lambda>_. True"
  by (rule fixed_codec [where sw = bswap_64])
     (auto simp: writeFuint64_def readFuint64_def to_bytes_bswap_64 Let_def)

interpretation float_codec: codec writeFloat readFloat "enc_fixed 4" "\<lambda>_. True"
  using fuint32.codec_axioms by (simp add: writeFloat_def [abs_def] readFloat_def [abs_def])

interpretation double_codec: codec writeDouble readDouble "enc_fixed 8" "\<lambda>_. True"
  using fuint64.codec_axioms by (simp add: writeDouble_def [abs_def] readDouble_def [abs_def])

section \<open>Varint and zigzag\<close>

function enc_varint :: "'a::len word \<Rightarrow> u8 list" where
  "enc_varint v =
     (if 128 \<le> unat v then (ucast (v AND 0x7F) OR 0x80) # enc_varint (drop_bit 7 v) else [ucast v])"
  by pat_completeness auto
termination
proof (relation "measure unat")
  fix v :: "'a word"
  assume "128 \<le> unat v"
  then have "unat (drop_bit 7 v) < unat v"
    by (simp only: unat_drop_bit_eq) (simp add: drop_bit_eq_div)
  then show "(drop_bit 7 v, v) \<in> measure unat" by simp
qed simp

declare enc_varint.simps [simp del]

lemma varint_loop_enc:
  "length tmp + length (enc_varint v) \<le> n \<Longrightarrow> varint_loop n tmp v = Inr (tmp @ enc_varint v)"
proof (induction v arbitrary: tmp rule: enc_varint.induct)
  case (1 v)
  show ?case
  proof (cases "128 \<le> unat v")
    case True
    have ne: "enc_varint (drop_bit 7 v) \<noteq> []" by (subst enc_varint.simps) simp
    have "length tmp + Suc (length (enc_varint (drop_bit 7 v))) \<le> n"
      using 1(2) True by (simp add: enc_varint.simps [of v])
    then show ?thesis
      using 1(1) [OF True, of "tmp @ [ucast (v AND 0x7F) OR 0x80]"] True ne
      by (simp add: varint_loop.simps [of n tmp v] enc_varint.simps [of v] tmp_put_def)
  next
    case False
    then show ?thesis using 1(2)
      by (simp add: varint_loop.simps [of n tmp v] enc_varint.simps [of v] tmp_put_def)
  qed
qed

lemma length_enc_varint: "unat v < 2 ^ (7 * k) \<Longrightarrow> 0 < k \<Longrightarrow> length (enc_varint v) \<le> k"
proof (induction v arbitrary: k rule: enc_varint.induct)
  case (1 v)
  show ?case
  proof (cases "128 \<le> unat v")
    case True
    then obtain j where k: "k = Suc j" "0 < j"
      using 1(2,3) by (cases k; cases "k = 1") auto
    have "unat (drop_bit 7 v) < 2 ^ (7 * j)"
      using 1(2) unfolding unat_drop_bit_eq by (simp add: k drop_bit_eq_div power_add less_mult_imp_div_less)
    from 1(1) [OF True this k(2)] True k show ?thesis by (simp add: enc_varint.simps [of v])
  next
    case False
    then show ?thesis using 1(3) by (simp add: enc_varint.simps [of v])
  qed
qed

lemma low7: "(0x7F :: 'a::len word) = mask 7"
  by (simp add: mask_eq_exp_minus_1)

lemma top_bit: "(0x80 :: 'a::len word) = push_bit 7 1"
  by (simp add: push_bit_eq_mult)

lemma bit_0x80: "bit (0x80 :: int) n \<longleftrightarrow> n = 7"
  using bit_exp_iff [of 7 n, where ?'a = int] by auto

lemma unat_top_bit: "128 \<le> unat ((x :: u8) OR 0x80)"
proof -
  have "bit (x OR push_bit 7 1) 7" by (simp add: bit_simps)
  then have "bit (unat (x OR push_bit 7 1)) 7" by (simp only: bit_unsigned_iff) simp
  then have o: "odd (unat (x OR push_bit 7 1) div 2 ^ 7)" by (rule bit_iff_odd [THEN iffD1])
  have "2 ^ 7 \<le> unat (x OR push_bit 7 1)"
  proof (rule ccontr)
    assume "\<not> 2 ^ 7 \<le> unat (x OR push_bit 7 1)"
    then have "unat (x OR push_bit 7 1) div 2 ^ 7 = 0" by (simp only: not_le div_less)
    with o show False by simp
  qed
  then show ?thesis by (simp add: push_bit_eq_mult del: unsigned_or_eq)
qed

lemma ucast_u8_id: "take_bit 8 (v :: 'a::len word) = v \<Longrightarrow> ucast (ucast v :: u8) = v"
  by (rule bit_word_eqI, drule_tac f = "\<lambda>w. bit w n" in arg_cong) (auto simp: bit_simps)

lemma varint_byte:
  fixes v :: "'a::len word"
  assumes "128 \<le> unat v"
  shows "128 \<le> unat (ucast (v AND 0x7F) OR 0x80 :: u8)"
    and "ucast ((ucast (v AND 0x7F) OR 0x80 :: u8) AND 0x7F) = v AND 0x7F"
    and "(r OR push_bit i (v AND 0x7F)) OR push_bit (i + 7) (drop_bit 7 v) = r OR push_bit i v"
proof -
  let ?x = "ucast (v AND 0x7F) :: u8"
  show "128 \<le> unat (?x OR 0x80)" by (rule unat_top_bit)
  show "ucast ((ucast (v AND 0x7F) OR 0x80 :: u8) AND 0x7F) = v AND 0x7F"
    unfolding low7 by (rule bit_word_eqI) (auto simp: bit_simps bit_0x80)
  have k: "7 + (n - (i + 7)) = n - i" if "\<not> n - i < 7" for n using that by simp
  show "(r OR push_bit i (v AND 0x7F)) OR push_bit (i + 7) (drop_bit 7 v) = r OR push_bit i v"
  proof (rule bit_word_eqI)
    fix n assume "n < LENGTH('a)"
    then show "bit ((r OR push_bit i (v AND 0x7F)) OR push_bit (i + 7) (drop_bit 7 v)) n
        = bit (r OR push_bit i v) n"
      unfolding low7 by (cases "n - i < 7") (auto simp: bit_simps k)
  qed
qed

lemma readFuint8_law:
  "wf ba \<Longrightarrow> unread ba = Some b # rest \<Longrightarrow>
   \<exists>ba'. readFuint8 ba = Inr (b, ba') \<and> wf ba' \<and> unread ba' = rest \<and> m_endian ba' = m_endian ba"
  using fuint8.rd_law [of ba b rest] by (simp add: enc_fixed_def to_bytes_def)

lemma varint_read_law:
  fixes v :: "'a::len word"
  assumes "wf ba" "i < LENGTH('a)" "unat v < 2 ^ (LENGTH('a) - i)"
    "unread ba = map Some (enc_varint v) @ rest"
  shows "\<exists>ba'. varint_read LENGTH('a) i r ba = Inr (r OR push_bit i v, ba') \<and> wf ba' \<and>
     unread ba' = rest \<and> m_endian ba' = m_endian ba"
  using assms
proof (induction v arbitrary: ba i r rule: enc_varint.induct)
  case (1 v)
  show ?case
  proof (cases "128 \<le> unat v")
    case True
    note byte = varint_byte [OF True]
    let ?b = "ucast (v AND 0x7F) OR 0x80 :: u8"
    obtain ba1 where ba1: "readFuint8 ba = Inr (?b, ba1)" "wf ba1" "m_endian ba1 = m_endian ba"
      "unread ba1 = map Some (enc_varint (drop_bit 7 v)) @ rest"
      using readFuint8_law [OF 1(2), of ?b] 1(5) True by (auto simp: enc_varint.simps [of v])
    have "(2::nat) ^ 7 < 2 ^ (LENGTH('a) - i)" using le_less_trans [OF True 1(4)] by simp
    then have i7: "7 < LENGTH('a) - i" by (rule power_less_imp_less_exp [rotated]) simp
    then have "(2::nat) ^ (LENGTH('a) - i) = 2 ^ (LENGTH('a) - (i + 7)) * 2 ^ 7"
      by (subst power_add [symmetric]) simp
    then have "unat (drop_bit 7 v) < 2 ^ (LENGTH('a) - (i + 7))"
      using 1(4) unfolding unat_drop_bit_eq by (simp add: drop_bit_eq_div less_mult_imp_div_less)
    with 1(1) [OF True ba1(2) _ _ ba1(4), of "i + 7" "r OR push_bit i (v AND 0x7F)"] i7
    obtain ba' where "varint_read LENGTH('a) (i + 7) (r OR push_bit i (v AND 0x7F)) ba1
        = Inr (r OR push_bit i v, ba')" "wf ba'" "unread ba' = rest" "m_endian ba' = m_endian ba"
      unfolding byte(3) ba1(3) by fastforce
    moreover have "\<not> unat ?b < 128" using byte(1) by simp
    ultimately show ?thesis
      using 1(3) ba1(1) byte(2) by (simp add: varint_read.simps [of _ i] del: push_bit_and)
  next
    case False
    then have "take_bit 8 (unat v) = unat v" by (intro take_bit_nat_eq_self) simp
    then have "take_bit 8 v = v" by (simp add: word_unat_eq_iff unsigned_take_bit_eq)
    then have "ucast (ucast v :: u8) = v" by (rule ucast_u8_id)
    moreover obtain ba' where "readFuint8 ba = Inr (ucast v, ba')" "wf ba'" "unread ba' = rest"
      "m_endian ba' = m_endian ba"
      using readFuint8_law [OF 1(2), of "ucast v" rest] 1(5) False by (auto simp: enc_varint.simps [of v])
    moreover have "unat (ucast v :: u8) < 128"
      using False by (simp add: unsigned_ucast_eq le_less_trans [OF take_bit_nat_less_eq_self])
    ultimately show ?thesis using 1(3) by (simp add: varint_read.simps [of _ i])
  qed
qed

lemma varint_codec:
  fixes wr :: "'a::len word \<Rightarrow> ByteArray \<Rightarrow> ba_error + ByteArray"
  assumes "LENGTH('a) \<le> 7 * n" "0 < n"
    "\<And>v ba. wr v ba = bind_res (varint_loop n [] v) (\<lambda>tmp. write_bytes tmp ba)"
    "\<And>ba. rd ba = varint_read LENGTH('a) 0 0 ba"
  shows "codec wr rd (\<lambda>_. enc_varint) (\<lambda>_. True)"
proof
  fix ba :: ByteArray and v :: "'a word"
  have "unat v < 2 ^ LENGTH('a)" by (rule unsigned_less)
  also have "(2::nat) ^ LENGTH('a) \<le> 2 ^ (7 * n)" using assms(1) by (intro power_increasing) simp_all
  finally have "varint_loop n [] v = Inr (enc_varint v)"
    using varint_loop_enc [of "[]" v n] length_enc_varint [of v n] assms(2) by simp
  then show "\<exists>ba'. wr v ba = Inr ba' \<and> appending ba' \<and>
      contents ba' = contents ba @ map Some (enc_varint v) \<and> m_endian ba' = m_endian ba"
    if "appending ba"
    using appending_write_bytes [OF that, of "enc_varint v"] by (simp add: assms(3))
  show "\<exists>ba'. rd ba = Inr (v, ba') \<and> wf ba' \<and> unread ba' = rest \<and> m_endian ba' = m_endian ba"
    if "wf ba" "unread ba = map Some (enc_varint v) @ rest" for rest
    using varint_read_law [OF that(1) _ _ that(2), of 0 0] unsigned_less [of v] by (auto simp: assms(4))
qed

interpretation uint32_codec: codec writeUint32 readUint32 "\<lambda>_. enc_varint" "\<lambda>_. True"
  by (rule varint_codec [where n = 5]) (simp_all add: writeUint32_def readUint32_def)

interpretation uint64_codec: codec writeUint64 readUint64 "\<lambda>_. enc_varint" "\<lambda>_. True"
  by (rule varint_codec [where n = 10]) (simp_all add: writeUint64_def readUint64_def)

text \<open>\<open>zigzag\<close> is the value \<open>EncodeZigzag\<close> computes when no signed operation leaves its range.\<close>

definition zigzag :: "int \<Rightarrow> int" where
  "zigzag v = (if v < 0 then - 2 * v - 1 else 2 * v)"

definition zigzag_range :: "nat \<Rightarrow> int \<Rightarrow> bool" where
  "zigzag_range w v \<longleftrightarrow> - (2 ^ (w - 2)) < v \<and> v < 2 ^ (w - 2)"

lemma EncodeZigzag_eq:
  assumes "2 \<le> w" "- (2 ^ (w - 1)) \<le> v" "v < 2 ^ (w - 1)"
  shows "EncodeZigzag w v = (if zigzag_range w v then Inr (zigzag v) else Inl SignedOverflow)"
proof -
  have "w - 1 = Suc (w - 2)" using assms(1) by simp
  then have p: "(2::int) ^ (w - 1) = 2 * 2 ^ (w - 2)" by simp
  define q :: int where "q = 2 ^ (w - 2)"
  have "0 < q" by (simp add: q_def)
  then show ?thesis
    using assms(2,3)
    unfolding EncodeZigzag_def signed_arith_def zigzag_range_def zigzag_def p q_def [symmetric]
    by (cases "v < 0"; cases "- v * 2 < 2 * q"; simp)
qed

lemma uint_of_int: "0 \<le> k \<Longrightarrow> k < 2 ^ LENGTH('a) \<Longrightarrow> uint (word_of_int k :: 'a::len word) = k"
  by (simp add: uint_word_of_int)

lemma DecodeZigzag_zigzag:
  assumes "zigzag_range LENGTH('a) v" "2 \<le> LENGTH('a)"
  shows "DecodeZigzag (word_of_int (zigzag v) :: 'a::len word) = word_of_int v"
proof -
  have "LENGTH('a) = Suc (Suc (LENGTH('a) - 2))" using assms(2) by simp
  then have p: "(2::int) ^ LENGTH('a) = 2 * (2 * 2 ^ (LENGTH('a) - 2))"
    using power_Suc by metis
  define m where "m = (if v < 0 then - v - 1 else v)"
  have m: "0 \<le> m" "2 * m + 1 < 2 ^ LENGTH('a)" "zigzag v = 2 * m + (if v < 0 then 1 else 0)"
    using assms(1) by (auto simp: m_def zigzag_range_def zigzag_def p)
  have u: "uint (word_of_int (zigzag v) :: 'a word) = zigzag v"
    using m by (intro uint_of_int) auto
  have um: "uint (word_of_int m :: 'a word) = m" using m by (intro uint_of_int) auto
  have "uint (drop_bit 1 (word_of_int (zigzag v) :: 'a word)) = m"
  proof -
    have tk: "take_bit LENGTH('a) (zigzag v) = zigzag v" using m by (intro take_bit_int_eq_self) auto
    have "uint (drop_bit 1 (word_of_int (zigzag v) :: 'a word)) = zigzag v div 2"
      unfolding unsigned_drop_bit_eq u tk by (simp add: drop_bit_eq_div)
    then show ?thesis using m(3) by simp
  qed
  then have "drop_bit 1 (word_of_int (zigzag v) :: 'a word) = word_of_int m"
    unfolding word_uint_eq_iff um .
  moreover have "(word_of_int (zigzag v) :: 'a word) AND 1 = of_bool (v < 0)"
    using m(3) by (simp add: and_one_eq mod_2_eq_odd)
  ultimately show ?thesis
    by (cases "v < 0") (simp_all add: DecodeZigzag_def m_def bit.xor_one_right not_eq_complement)
qed

lemma zigzag_codec:
  fixes wu :: "'a::len word \<Rightarrow> ByteArray \<Rightarrow> ba_error + ByteArray"
  assumes "codec wu ru (\<lambda>_. enc_varint) (\<lambda>_. True)" "2 \<le> LENGTH('a)"
    "\<And>v ba. wr v ba = bind_res (EncodeZigzag LENGTH('a) v) (\<lambda>z. wu (word_of_int z) ba)"
    "\<And>ba. rd ba = bind_res (ru ba) (\<lambda>(v, ba'). Inr (sint (DecodeZigzag v), ba'))"
  shows "codec wr rd (\<lambda>_ v. enc_varint (word_of_int (zigzag v) :: 'a word)) (zigzag_range LENGTH('a))"
proof
  fix ba :: ByteArray and v :: int
  assume r: "zigzag_range LENGTH('a) v"
  have "LENGTH('a) - 1 = Suc (LENGTH('a) - 2)" using assms(2) by simp
  then have p: "(2::int) ^ (LENGTH('a) - 1) = 2 * 2 ^ (LENGTH('a) - 2)" by simp
  have q: "(0::int) < 2 ^ (LENGTH('a) - 2)" by simp
  have b: "- (2 ^ (LENGTH('a) - 1)) \<le> v" "v < 2 ^ (LENGTH('a) - 1)"
    using r q unfolding zigzag_range_def p by linarith+
  have e: "EncodeZigzag LENGTH('a) v = Inr (zigzag v)" using EncodeZigzag_eq [OF assms(2) b] r by simp
  show "\<exists>ba'. wr v ba = Inr ba' \<and> appending ba' \<and>
      contents ba' = contents ba @ map Some (enc_varint (word_of_int (zigzag v) :: 'a word)) \<and>
      m_endian ba' = m_endian ba" if "appending ba"
    using codec.wr_law [OF assms(1) that] by (simp add: assms(3) e)
  have "signed_take_bit (LENGTH('a) - 1) v = v" using b by (intro signed_take_bit_int_eq_self) auto
  then have "sint (word_of_int v :: 'a word) = v" by (simp add: sint_sbintrunc')
  then show "\<exists>ba'. rd ba = Inr (v, ba') \<and> wf ba' \<and> unread ba' = rest \<and> m_endian ba' = m_endian ba"
    if "wf ba" "unread ba = map Some (enc_varint (word_of_int (zigzag v) :: 'a word)) @ rest" for rest
    using codec.rd_law [OF assms(1) that(1) TrueI that(2)] DecodeZigzag_zigzag [OF r assms(2)]
    by (auto simp: assms(4))
qed

interpretation int32_codec: codec writeInt32 readInt32
  "\<lambda>_ v. enc_varint (word_of_int (zigzag v) :: u32)" "zigzag_range 32"
  using zigzag_codec [OF uint32_codec.codec_axioms, of writeInt32 readInt32]
  by (simp add: writeInt32_def readInt32_def)

interpretation int64_codec: codec writeInt64 readInt64
  "\<lambda>_ v. enc_varint (word_of_int (zigzag v) :: u64)" "zigzag_range 64"
  using zigzag_codec [OF uint64_codec.codec_axioms, of writeInt64 readInt64]
  by (simp add: writeInt64_def readInt64_def)

section \<open>Strings\<close>

text \<open>
  A string that is not empty and whose length fits the prefix. The empty string is
  excluded: reading it performs a read of no bytes, which follows a null \<open>m_cur\<close> when the
  length prefix ended the last block.
\<close>

definition string_ok :: "nat \<Rightarrow> u8 list \<Rightarrow> bool" where
  "string_ok w v \<longleftrightarrow> v \<noteq> [] \<and> length v < 2 ^ w"

lemma string_codec:
  fixes wl :: "'a::len word \<Rightarrow> ByteArray \<Rightarrow> ba_error + ByteArray"
  assumes "codec wl rl encl (\<lambda>_. True)"
    "\<And>v ba. wr v ba = bind_res (wl (word_of_nat (length v)) ba) (write_bytes v)"
    "\<And>ba. rd ba = bind_res (rl ba) (\<lambda>(len, ba'). read_bytes (unat len) ba')"
  shows "codec wr rd (\<lambda>e v. encl e (word_of_nat (length v)) @ v) (string_ok LENGTH('a))"
proof
  fix ba :: ByteArray and v :: "u8 list"
  assume r: "string_ok LENGTH('a) v"
  let ?n = "word_of_nat (length v) :: 'a word"
  have len: "unat ?n = length v" using r by (simp add: unsigned_of_nat take_bit_nat_eq_self string_ok_def)
  show "\<exists>ba'. wr v ba = Inr ba' \<and> appending ba' \<and>
      contents ba' = contents ba @ map Some (encl (m_endian ba) ?n @ v) \<and> m_endian ba' = m_endian ba"
    if a: "appending ba"
  proof -
    obtain ba1 where 1: "wl ?n ba = Inr ba1" "appending ba1"
      "contents ba1 = contents ba @ map Some (encl (m_endian ba) ?n)" "m_endian ba1 = m_endian ba"
      using codec.wr_law [OF assms(1) a] by blast
    show ?thesis using appending_write_bytes [OF 1(2), of v] 1 by (auto simp: assms(2))
  qed
  show "\<exists>ba'. rd ba = Inr (v, ba') \<and> wf ba' \<and> unread ba' = rest \<and> m_endian ba' = m_endian ba"
    if w: "wf ba" and u: "unread ba = map Some (encl (m_endian ba) ?n @ v) @ rest" for rest
  proof -
    have "unread ba = map Some (encl (m_endian ba) ?n) @ map Some v @ rest" using u by simp
    then obtain ba1 where 1: "rl ba = Inr (?n, ba1)" "wf ba1" "unread ba1 = map Some v @ rest"
      "m_endian ba1 = m_endian ba"
      using codec.rd_law [OF assms(1) w TrueI] by blast
    show ?thesis using read_bytes_law [OF 1(2,3)] r 1 by (auto simp: assms(3) len string_ok_def)
  qed
qed

interpretation f16_string: codec writeStringF16 readStringF16
  "\<lambda>e v. enc_fixed 2 e (word_of_nat (length v) :: u16) @ v" "string_ok 16"
  using string_codec [OF fuint16.codec_axioms, of writeStringF16 readStringF16]
  by (simp add: writeStringF16_def readStringF16_def)

interpretation f32_string: codec writeStringF32 readStringF32
  "\<lambda>e v. enc_fixed 4 e (word_of_nat (length v) :: u32) @ v" "string_ok 32"
  using string_codec [OF fuint32.codec_axioms, of writeStringF32 readStringF32]
  by (simp add: writeStringF32_def readStringF32_def)

interpretation f64_string: codec writeStringF64 readStringF64
  "\<lambda>e v. enc_fixed 8 e (word_of_nat (length v) :: u64) @ v" "string_ok 64"
  using string_codec [OF fuint64.codec_axioms, of writeStringF64 readStringF64]
  by (simp add: writeStringF64_def readStringF64_def)

interpretation vint_string: codec writeStringVint readStringVint
  "\<lambda>_ v. enc_varint (word_of_nat (length v) :: u64) @ v" "string_ok 64"
  using string_codec [OF uint64_codec.codec_axioms, of writeStringVint readStringVint]
  by (simp add: writeStringVint_def readStringVint_def)

section \<open>Messages\<close>

text \<open>
  A message is a sequence of values written by any of the typed operations; its layout is
  the list of the operations that read it back.
\<close>

datatype item =
    Fint8 u8
  | Fuint8 u8
  | Fint16 u16
  | Fuint16 u16
  | Fint32 u32
  | Fuint32 u32
  | Fint64 u64
  | Fuint64 u64
  | Int32 int
  | Uint32 u32
  | Int64 int
  | Uint64 u64
  | Float u32
  | Double u64
  | StringF16 "u8 list"
  | StringF32 "u8 list"
  | StringF64 "u8 list"
  | StringVint "u8 list"

datatype item_tag =
    KFint8 | KFuint8 | KFint16 | KFuint16 | KFint32 | KFuint32
  | KFint64 | KFuint64 | KInt32 | KUint32 | KInt64 | KUint64
  | KFloat | KDouble | KStringF16 | KStringF32 | KStringF64 | KStringVint

fun item_kind :: "item \<Rightarrow> item_tag" where
  "item_kind (Fint8 v) = KFint8"
| "item_kind (Fuint8 v) = KFuint8"
| "item_kind (Fint16 v) = KFint16"
| "item_kind (Fuint16 v) = KFuint16"
| "item_kind (Fint32 v) = KFint32"
| "item_kind (Fuint32 v) = KFuint32"
| "item_kind (Fint64 v) = KFint64"
| "item_kind (Fuint64 v) = KFuint64"
| "item_kind (Int32 v) = KInt32"
| "item_kind (Uint32 v) = KUint32"
| "item_kind (Int64 v) = KInt64"
| "item_kind (Uint64 v) = KUint64"
| "item_kind (Float v) = KFloat"
| "item_kind (Double v) = KDouble"
| "item_kind (StringF16 v) = KStringF16"
| "item_kind (StringF32 v) = KStringF32"
| "item_kind (StringF64 v) = KStringF64"
| "item_kind (StringVint v) = KStringVint"

fun write_item :: "item \<Rightarrow> ByteArray \<Rightarrow> ba_error + ByteArray" where
  "write_item (Fint8 v) ba = writeFint8 v ba"
| "write_item (Fuint8 v) ba = writeFuint8 v ba"
| "write_item (Fint16 v) ba = writeFint16 v ba"
| "write_item (Fuint16 v) ba = writeFuint16 v ba"
| "write_item (Fint32 v) ba = writeFint32 v ba"
| "write_item (Fuint32 v) ba = writeFuint32 v ba"
| "write_item (Fint64 v) ba = writeFint64 v ba"
| "write_item (Fuint64 v) ba = writeFuint64 v ba"
| "write_item (Int32 v) ba = writeInt32 v ba"
| "write_item (Uint32 v) ba = writeUint32 v ba"
| "write_item (Int64 v) ba = writeInt64 v ba"
| "write_item (Uint64 v) ba = writeUint64 v ba"
| "write_item (Float v) ba = writeFloat v ba"
| "write_item (Double v) ba = writeDouble v ba"
| "write_item (StringF16 v) ba = writeStringF16 v ba"
| "write_item (StringF32 v) ba = writeStringF32 v ba"
| "write_item (StringF64 v) ba = writeStringF64 v ba"
| "write_item (StringVint v) ba = writeStringVint v ba"

definition read_as :: "('a \<Rightarrow> item) \<Rightarrow> (ByteArray \<Rightarrow> ba_error + 'a \<times> ByteArray) \<Rightarrow>
    ByteArray \<Rightarrow> ba_error + item \<times> ByteArray" where
  "read_as C rd ba = bind_res (rd ba) (\<lambda>(v, ba'). Inr (C v, ba'))"

fun read_item :: "item_tag \<Rightarrow> ByteArray \<Rightarrow> ba_error + item \<times> ByteArray" where
  "read_item KFint8 = read_as Fint8 readFint8"
| "read_item KFuint8 = read_as Fuint8 readFuint8"
| "read_item KFint16 = read_as Fint16 readFint16"
| "read_item KFuint16 = read_as Fuint16 readFuint16"
| "read_item KFint32 = read_as Fint32 readFint32"
| "read_item KFuint32 = read_as Fuint32 readFuint32"
| "read_item KFint64 = read_as Fint64 readFint64"
| "read_item KFuint64 = read_as Fuint64 readFuint64"
| "read_item KInt32 = read_as Int32 readInt32"
| "read_item KUint32 = read_as Uint32 readUint32"
| "read_item KInt64 = read_as Int64 readInt64"
| "read_item KUint64 = read_as Uint64 readUint64"
| "read_item KFloat = read_as Float readFloat"
| "read_item KDouble = read_as Double readDouble"
| "read_item KStringF16 = read_as StringF16 readStringF16"
| "read_item KStringF32 = read_as StringF32 readStringF32"
| "read_item KStringF64 = read_as StringF64 readStringF64"
| "read_item KStringVint = read_as StringVint readStringVint"

fun enc_item :: "nat \<Rightarrow> item \<Rightarrow> u8 list" where
  "enc_item e (Fint8 v) = enc_fixed 1 e v"
| "enc_item e (Fuint8 v) = enc_fixed 1 e v"
| "enc_item e (Fint16 v) = enc_fixed 2 e v"
| "enc_item e (Fuint16 v) = enc_fixed 2 e v"
| "enc_item e (Fint32 v) = enc_fixed 4 e v"
| "enc_item e (Fuint32 v) = enc_fixed 4 e v"
| "enc_item e (Fint64 v) = enc_fixed 8 e v"
| "enc_item e (Fuint64 v) = enc_fixed 8 e v"
| "enc_item e (Int32 v) = enc_varint (word_of_int (zigzag v) :: u32)"
| "enc_item e (Uint32 v) = enc_varint v"
| "enc_item e (Int64 v) = enc_varint (word_of_int (zigzag v) :: u64)"
| "enc_item e (Uint64 v) = enc_varint v"
| "enc_item e (Float v) = enc_fixed 4 e v"
| "enc_item e (Double v) = enc_fixed 8 e v"
| "enc_item e (StringF16 v) = enc_fixed 2 e (word_of_nat (length v) :: u16) @ v"
| "enc_item e (StringF32 v) = enc_fixed 4 e (word_of_nat (length v) :: u32) @ v"
| "enc_item e (StringF64 v) = enc_fixed 8 e (word_of_nat (length v) :: u64) @ v"
| "enc_item e (StringVint v) = enc_varint (word_of_nat (length v) :: u64) @ v"

fun item_ok :: "item \<Rightarrow> bool" where
  "item_ok (Int32 v) = zigzag_range 32 v"
| "item_ok (Int64 v) = zigzag_range 64 v"
| "item_ok (StringF16 v) = string_ok 16 v"
| "item_ok (StringF32 v) = string_ok 32 v"
| "item_ok (StringF64 v) = string_ok 64 v"
| "item_ok (StringVint v) = string_ok 64 v"
| "item_ok _ = True"

lemma item_codec:
  assumes "codec wr rd enc good" "\<And>v ba. write_item (C v) ba = wr v ba" "read_item k = read_as C rd"
    "\<And>i. item_kind i = k \<Longrightarrow> item_ok i \<Longrightarrow> \<exists>v. i = C v \<and> good v" "\<And>e v. enc_item e (C v) = enc e v"
  shows "codec write_item (read_item k) enc_item (\<lambda>i. item_ok i \<and> item_kind i = k)"
proof
  fix ba :: ByteArray and i
  assume "item_ok i \<and> item_kind i = k"
  then obtain v where v: "i = C v" "good v" using assms(4) by blast
  show "\<exists>ba'. write_item i ba = Inr ba' \<and> appending ba' \<and>
      contents ba' = contents ba @ map Some (enc_item (m_endian ba) i) \<and> m_endian ba' = m_endian ba"
    if "appending ba"
    using codec.wr_law [OF assms(1) that v(2)] by (simp add: v(1) assms(2,5))
  show "\<exists>ba'. read_item k ba = Inr (i, ba') \<and> wf ba' \<and> unread ba' = rest \<and> m_endian ba' = m_endian ba"
    if "wf ba" "unread ba = map Some (enc_item (m_endian ba) i) @ rest" for rest
    using codec.rd_law [OF assms(1) that(1) v(2)] that(2) by (fastforce simp: v(1) assms(3,5) read_as_def)
qed

lemma item_kind_cases:
  "item_kind i = KFint8 \<Longrightarrow> item_ok i \<Longrightarrow> \<exists>v. i = Fint8 v"
  "item_kind i = KFuint8 \<Longrightarrow> item_ok i \<Longrightarrow> \<exists>v. i = Fuint8 v"
  "item_kind i = KFint16 \<Longrightarrow> item_ok i \<Longrightarrow> \<exists>v. i = Fint16 v"
  "item_kind i = KFuint16 \<Longrightarrow> item_ok i \<Longrightarrow> \<exists>v. i = Fuint16 v"
  "item_kind i = KFint32 \<Longrightarrow> item_ok i \<Longrightarrow> \<exists>v. i = Fint32 v"
  "item_kind i = KFuint32 \<Longrightarrow> item_ok i \<Longrightarrow> \<exists>v. i = Fuint32 v"
  "item_kind i = KFint64 \<Longrightarrow> item_ok i \<Longrightarrow> \<exists>v. i = Fint64 v"
  "item_kind i = KFuint64 \<Longrightarrow> item_ok i \<Longrightarrow> \<exists>v. i = Fuint64 v"
  "item_kind i = KInt32 \<Longrightarrow> item_ok i \<Longrightarrow> \<exists>v. i = Int32 v \<and> zigzag_range 32 v"
  "item_kind i = KUint32 \<Longrightarrow> item_ok i \<Longrightarrow> \<exists>v. i = Uint32 v"
  "item_kind i = KInt64 \<Longrightarrow> item_ok i \<Longrightarrow> \<exists>v. i = Int64 v \<and> zigzag_range 64 v"
  "item_kind i = KUint64 \<Longrightarrow> item_ok i \<Longrightarrow> \<exists>v. i = Uint64 v"
  "item_kind i = KFloat \<Longrightarrow> item_ok i \<Longrightarrow> \<exists>v. i = Float v"
  "item_kind i = KDouble \<Longrightarrow> item_ok i \<Longrightarrow> \<exists>v. i = Double v"
  "item_kind i = KStringF16 \<Longrightarrow> item_ok i \<Longrightarrow> \<exists>v. i = StringF16 v \<and> string_ok 16 v"
  "item_kind i = KStringF32 \<Longrightarrow> item_ok i \<Longrightarrow> \<exists>v. i = StringF32 v \<and> string_ok 32 v"
  "item_kind i = KStringF64 \<Longrightarrow> item_ok i \<Longrightarrow> \<exists>v. i = StringF64 v \<and> string_ok 64 v"
  "item_kind i = KStringVint \<Longrightarrow> item_ok i \<Longrightarrow> \<exists>v. i = StringVint v \<and> string_ok 64 v"
  by (cases i; simp)+

interpretation items: tagged_codec write_item read_item item_kind enc_item item_ok
proof (rule tagged_codec.intro)
  fix k
  show "codec write_item (read_item k) enc_item (\<lambda>i. item_ok i \<and> item_kind i = k)"
  proof (cases k)
    case KFint8
    show ?thesis unfolding KFint8
      by (rule item_codec [OF fint8.codec_axioms, where C = Fint8]) (auto dest: item_kind_cases)
  next
    case KFuint8
    show ?thesis unfolding KFuint8
      by (rule item_codec [OF fuint8.codec_axioms, where C = Fuint8]) (auto dest: item_kind_cases)
  next
    case KFint16
    show ?thesis unfolding KFint16
      by (rule item_codec [OF fint16.codec_axioms, where C = Fint16]) (auto dest: item_kind_cases)
  next
    case KFuint16
    show ?thesis unfolding KFuint16
      by (rule item_codec [OF fuint16.codec_axioms, where C = Fuint16]) (auto dest: item_kind_cases)
  next
    case KFint32
    show ?thesis unfolding KFint32
      by (rule item_codec [OF fint32.codec_axioms, where C = Fint32]) (auto dest: item_kind_cases)
  next
    case KFuint32
    show ?thesis unfolding KFuint32
      by (rule item_codec [OF fuint32.codec_axioms, where C = Fuint32]) (auto dest: item_kind_cases)
  next
    case KFint64
    show ?thesis unfolding KFint64
      by (rule item_codec [OF fint64.codec_axioms, where C = Fint64]) (auto dest: item_kind_cases)
  next
    case KFuint64
    show ?thesis unfolding KFuint64
      by (rule item_codec [OF fuint64.codec_axioms, where C = Fuint64]) (auto dest: item_kind_cases)
  next
    case KInt32
    show ?thesis unfolding KInt32
      by (rule item_codec [OF int32_codec.codec_axioms, where C = Int32]) (auto dest: item_kind_cases)
  next
    case KUint32
    show ?thesis unfolding KUint32
      by (rule item_codec [OF uint32_codec.codec_axioms, where C = Uint32]) (auto dest: item_kind_cases)
  next
    case KInt64
    show ?thesis unfolding KInt64
      by (rule item_codec [OF int64_codec.codec_axioms, where C = Int64]) (auto dest: item_kind_cases)
  next
    case KUint64
    show ?thesis unfolding KUint64
      by (rule item_codec [OF uint64_codec.codec_axioms, where C = Uint64]) (auto dest: item_kind_cases)
  next
    case KFloat
    show ?thesis unfolding KFloat
      by (rule item_codec [OF float_codec.codec_axioms, where C = Float]) (auto dest: item_kind_cases)
  next
    case KDouble
    show ?thesis unfolding KDouble
      by (rule item_codec [OF double_codec.codec_axioms, where C = Double]) (auto dest: item_kind_cases)
  next
    case KStringF16
    show ?thesis unfolding KStringF16
      by (rule item_codec [OF f16_string.codec_axioms, where C = StringF16]) (auto dest: item_kind_cases)
  next
    case KStringF32
    show ?thesis unfolding KStringF32
      by (rule item_codec [OF f32_string.codec_axioms, where C = StringF32]) (auto dest: item_kind_cases)
  next
    case KStringF64
    show ?thesis unfolding KStringF64
      by (rule item_codec [OF f64_string.codec_axioms, where C = StringF64]) (auto dest: item_kind_cases)
  next
    case KStringVint
    show ?thesis unfolding KStringVint
      by (rule item_codec [OF vint_string.codec_axioms, where C = StringVint]) (auto dest: item_kind_cases)
  qed
qed

section \<open>Properties\<close>

lemma word16_of_nat_mod: "(word_of_nat n :: u16) = word_of_nat (n mod 65536)"
  by (simp add: word_unat_eq_iff unsigned_of_nat take_bit_eq_mod)

text \<open>
  C4. A message of values of any kinds, written to a new array of any positive block size
  and either byte order and read back from the start with the matching operations,
  comes back unchanged. Signed varints are restricted to the range in which
  \<open>EncodeZigzag\<close> is defined, strings to non-empty ones whose length fits their prefix.
\<close>

theorem message_roundtrip:
  assumes "0 < base_size" "\<forall>i \<in> set msg. item_ok i"
  shows "write_then_read write_item read_item base_size little msg (map item_kind msg) = Inr msg"
  using assms by (rule items.write_then_read_law)

theorem message_roundtrip_witness:
  "write_then_read write_item read_item 2 False
     [Fint16 0x1234, Int32 (-5), StringF16 [1, 2, 3], Uint64 300, Double 7]
     [KFint16, KInt32, KStringF16, KUint64, KDouble]
   = Inr [Fint16 0x1234, Int32 (-5), StringF16 [1, 2, 3], Uint64 300, Double 7]"
  using message_roundtrip [of 2 "[Fint16 0x1234, Int32 (-5), StringF16 [1, 2, 3], Uint64 300, Double 7]" False]
  by (simp add: zigzag_range_def string_ok_def)

text \<open>
  C28. \<open>writeInt32\<close> is defined on exactly half of the 32 bit integers: for every value
  strictly between \<open>-2^30\<close> and \<open>2^30\<close> it appends the varint of the zigzag value, at most
  five bytes, and for every other one the code computes a signed overflow.
\<close>

theorem writeInt32_defined_range:
  assumes "appending ba" "- (2 ^ 31) \<le> v" "v < 2 ^ 31"
  shows "if - (2 ^ 30) < v \<and> v < 2 ^ 30
     then \<exists>ba' bs. writeInt32 v ba = Inr ba' \<and> contents ba' = contents ba @ map Some bs \<and>
        0 < length bs \<and> length bs \<le> 5
     else writeInt32 v ba = Inl SignedOverflow"
proof -
  have e: "EncodeZigzag 32 v = (if zigzag_range 32 v then Inr (zigzag v) else Inl SignedOverflow)"
    using EncodeZigzag_eq [of 32 v] assms(2,3) by simp
  have r: "zigzag_range 32 v \<longleftrightarrow> - (2 ^ 30) < v \<and> v < 2 ^ 30" by (simp add: zigzag_range_def)
  show ?thesis
  proof (cases "zigzag_range 32 v")
    case True
    let ?z = "word_of_int (zigzag v) :: u32"
    have "unat ?z < 2 ^ LENGTH(32)" by (rule unsigned_less)
    then have "length (enc_varint ?z) \<le> 5" by (intro length_enc_varint) simp_all
    moreover have "0 < length (enc_varint ?z)" by (subst enc_varint.simps) simp
    ultimately show ?thesis using int32_codec.wr_law [OF assms(1) True] True r by auto
  next
    case False
    then have "writeInt32 v ba = Inl SignedOverflow" using e by (simp add: writeInt32_def)
    then show ?thesis using False r by simp
  qed
qed

theorem writeInt32_defined_range_witness:
  "writeInt32 (2 ^ 30) (new_ByteArray 8) = Inl SignedOverflow \<and>
   (\<exists>ba' bs. writeInt32 (-3) (new_ByteArray 8) = Inr ba' \<and>
      contents ba' = contents (new_ByteArray 8) @ map Some bs \<and> 0 < length bs \<and> length bs \<le> 5)"
  using writeInt32_defined_range [OF appending_new, of 8 "2 ^ 30"]
    writeInt32_defined_range [OF appending_new, of 8 "-3"] by simp

text \<open>
  \<open>writeStringF16\<close> stores only the low 16 bits of the length but all the bytes: what
  comes back of a longer string is its first \<open>length mod 65536\<close> bytes.
\<close>

theorem writeStringF16_truncates:
  assumes "0 < base_size" "length s mod 65536 \<noteq> 0"
  shows "write_then_read writeStringF16 (\<lambda>_::unit. readStringF16) base_size little [s] [()]
     = Inr [take (length s mod 65536) s]"
proof -
  let ?n = "length s mod 65536" and ?b0 = "setIsLittleEndian little (new_ByteArray base_size)"
  let ?t = "take ?n s"
  have len: "length ?t = ?n" by simp
  have n: "(word_of_nat (length s) :: u16) = word_of_nat (length ?t)"
    unfolding len by (rule word16_of_nat_mod)
  have ap: "appending ?b0"
    using appending_new [OF assms(1)] wf_setIsLittleEndian [of "new_ByteArray base_size"]
    by (simp add: appending_def setIsLittleEndian_def new_ByteArray_def)
  have c0: "contents ?b0 = []"
    by (simp add: contents_def setIsLittleEndian_def new_ByteArray_def)
  obtain b1 where 1: "writeFuint16 (word_of_nat (length s)) ?b0 = Inr b1" "appending b1"
    "contents b1 = map Some (enc_fixed 2 (m_endian ?b0) (word_of_nat (length s) :: u16))"
    "m_endian b1 = m_endian ?b0"
    using fuint16.wr_law [OF ap TrueI, of "word_of_nat (length s)"] c0 by auto
  obtain b2 where 2: "write_bytes s b1 = Inr b2" "appending b2"
    "contents b2 = contents b1 @ map Some s" "m_endian b2 = m_endian ?b0"
    using appending_write_bytes [OF 1(2), of s] 1(4) by auto
  obtain b3 where 3: "setPosition 0 b2 = Inr b3" "wf b3" "unread b3 = contents b2"
    "m_endian b3 = m_endian ?b0"
    using rewind_unread [OF 2(2)] 2(4) by auto
  have "string_ok 16 ?t" using assms(2) by (auto simp: string_ok_def)
  moreover have "map Some ?t @ map Some (drop ?n s) = map Some s" by (simp flip: map_append)
  then have "unread b3 = map Some (enc_fixed 2 (m_endian b3) (word_of_nat (length ?t) :: u16) @ ?t)
      @ map Some (drop ?n s)"
    using 3(3,4) 2(3) 1(3) n by simp
  ultimately obtain b4 where "readStringF16 b3 = Inr (?t, b4)"
    using f16_string.rd_law [OF 3(2)] by blast
  then show ?thesis using 1(1) 2(1) 3(1) by (simp add: write_then_read_def writeStringF16_def)
qed

theorem writeStringF16_truncates_witness:
  "write_then_read writeStringF16 (\<lambda>_::unit. readStringF16) 4096 True [replicate 65538 7] [()]
   = Inr [[7, 7]]"
  using writeStringF16_truncates [of 4096 "replicate 65538 7" True] by (simp add: numeral_2_eq_2)

end
