(* ===== verification/Byte_Io.thy ===== *)
theory Byte_Io
  imports Byte_Codec
begin

text \<open>
  \<open>src/src/socket/bytearray.cpp\<close>, the array at its borders: the scatter/gather lists handed
  to \<open>readv\<close> and \<open>writev\<close>, copying to and from files, and the hexadecimal dump.

  An \<open>iovec\<close> is a triple of block index, offset and length. The span of a list is the list
  of global positions it denotes, in order; the lemmas show that each operation returns
  the span it promises. What a file stream does is a parameter: whether the file opens, and
  the bytes it holds.
\<close>

section \<open>Scatter and gather lists\<close>

type_synonym iovec = "nat \<times> nat \<times> nat"

function iov_loop ::
  "ByteArray \<Rightarrow> nat \<Rightarrow> nat option \<Rightarrow> nat \<Rightarrow> nat \<Rightarrow> iovec list \<Rightarrow> ba_error + iovec list" where
  "iov_loop ba len cur npos ncap buffers =
     (if len = 0 then Inr buffers
      else case cur of
        None \<Rightarrow> Inl NullDeref
      | Some c \<Rightarrow>
          if len \<le> ncap then Inr (buffers @ [(c, npos, len)])
          else case next_node ba c of
              None \<Rightarrow> Inl NullDeref
            | Some c' \<Rightarrow>
                iov_loop ba (len - ncap) (Some c') 0 (nd_size (m_nodes ba ! c')) (buffers @ [(c, npos, ncap)]))"
  by pat_completeness auto
termination
  by (relation "measure (\<lambda>(ba, len, cur, npos, ncap, buffers).
        case cur of None \<Rightarrow> 0 | Some c \<Rightarrow> length (m_nodes ba) - c)")
     (auto simp: next_node_def split: if_splits)

declare iov_loop.simps [simp del]

definition getReadBuffers ::
  "iovec list \<Rightarrow> nat \<Rightarrow> ByteArray \<Rightarrow> ba_error + nat \<times> iovec list" where
  "getReadBuffers buffers len0 ba =
     (let len = if getReadSize ba < len0 then getReadSize ba else len0
      in if len = 0 then Inr (0, buffers)
         else if m_baseSize ba = 0 then Inl DivByZero
         else case m_cur ba of
           None \<Rightarrow> Inl NullDeref
         | Some c \<Rightarrow>
             let npos = m_position ba mod m_baseSize ba;
                 ncap = usub64 (nd_size (m_nodes ba ! c)) npos
             in bind_res (iov_loop ba len (Some c) npos ncap buffers) (\<lambda>iovs. Inr (len, iovs)))"

text \<open>\<open>count\<close> steps along the list from the root.\<close>

fun skip_nodes :: "ByteArray \<Rightarrow> nat \<Rightarrow> nat option \<Rightarrow> ba_error + nat option" where
  "skip_nodes ba 0 cur = Inr cur"
| "skip_nodes ba (Suc count) cur =
     (case cur of None \<Rightarrow> Inl NullDeref | Some c \<Rightarrow> skip_nodes ba count (next_node ba c))"

text \<open>The clamp is by the read size of \<open>m_position\<close>, not of \<open>position\<close>, as in the source.\<close>

definition getReadBuffers_at ::
  "iovec list \<Rightarrow> nat \<Rightarrow> nat \<Rightarrow> ByteArray \<Rightarrow> ba_error + nat \<times> iovec list" where
  "getReadBuffers_at buffers len0 position ba =
     (let len = if getReadSize ba < len0 then getReadSize ba else len0
      in if len = 0 then Inr (0, buffers)
         else if m_baseSize ba = 0 then Inl DivByZero
         else bind_res (skip_nodes ba (position div m_baseSize ba) (Some 0)) (\<lambda>cur.
           case cur of
             None \<Rightarrow> Inl NullDeref
           | Some c \<Rightarrow>
               let npos = position mod m_baseSize ba;
                   ncap = usub64 (nd_size (m_nodes ba ! c)) npos
               in bind_res (iov_loop ba len (Some c) npos ncap buffers) (\<lambda>iovs. Inr (len, iovs))))"

definition getWriteBuffers ::
  "iovec list \<Rightarrow> nat \<Rightarrow> ByteArray \<Rightarrow> ba_error + nat \<times> iovec list \<times> ByteArray" where
  "getWriteBuffers buffers len ba =
     (if len = 0 then Inr (0, buffers, ba)
      else bind_res (addCapacity len ba) (\<lambda>ba1.
        if m_baseSize ba1 = 0 then Inl DivByZero
        else case m_cur ba1 of
          None \<Rightarrow> Inl NullDeref
        | Some c \<Rightarrow>
            let npos = m_position ba1 mod m_baseSize ba1;
                ncap = usub64 (nd_size (m_nodes ba1 ! c)) npos
            in bind_res (iov_loop ba1 len (Some c) npos ncap buffers) (\<lambda>iovs. Inr (len, iovs, ba1))))"

section \<open>Files\<close>

text \<open>
  The loop of \<open>writeToFile\<close>: \<open>read_size\<close>, \<open>pos\<close> and \<open>len\<close> are signed 64 bit integers.
  A negative count given to \<open>ofs.write\<close> is undefined.
\<close>

function write_file_loop ::
  "ByteArray \<Rightarrow> int \<Rightarrow> int \<Rightarrow> nat option \<Rightarrow> cell list \<Rightarrow> ba_error + cell list" where
  "write_file_loop ba read_size pos cur out =
     (if read_size \<le> 0 then Inr out
      else
        let diff = pos mod int (m_baseSize ba);
            len = (if int (m_baseSize ba) < read_size then int (m_baseSize ba) else read_size) - diff
        in case cur of
             None \<Rightarrow> Inl NullDeref
           | Some c \<Rightarrow>
               if len < 0 then Inl NegativeCount
               else write_file_loop ba (read_size - len) (pos + len) (next_node ba c)
                      (out @ take (nat len) (drop (nat diff) (nd_ptr (m_nodes ba ! c)))))"
  by pat_completeness auto
termination
  by (relation "measure (\<lambda>(ba, read_size, pos, cur, out).
        case cur of None \<Rightarrow> 0 | Some c \<Rightarrow> Suc (length (m_nodes ba) - c))")
     (auto simp: next_node_def split: if_splits option.splits)

declare write_file_loop.simps [simp del]

text \<open>The result is the returned flag and the contents of the truncated and rewritten file.\<close>

definition writeToFile :: "bool \<Rightarrow> ByteArray \<Rightarrow> ba_error + bool \<times> cell list" where
  "writeToFile opened ba =
     (if \<not> opened then Inr (False, [])
      else if m_baseSize ba = 0 \<and> 0 < getReadSize ba then Inl DivByZero
      else bind_res (write_file_loop ba (int (getReadSize ba)) (int (m_position ba)) (m_cur ba) [])
             (\<lambda>out. Inr (True, out)))"

text \<open>
  \<open>ifs.read\<close> of \<open>m_baseSize\<close> bytes sets \<open>eof\<close> when fewer are left. With blocks of no
  bytes the loop would read nothing forever; that is \<open>NoProgress\<close>.
\<close>

function read_file_loop :: "u8 list \<Rightarrow> ByteArray \<Rightarrow> ba_error + ByteArray" where
  "read_file_loop rest ba =
     (if m_baseSize ba = 0 then Inl NoProgress
      else if length rest < m_baseSize ba then write_bytes rest ba
      else case write_bytes (take (m_baseSize ba) rest) ba of
          Inl e \<Rightarrow> Inl e
        | Inr ba' \<Rightarrow> read_file_loop (drop (m_baseSize ba) rest) ba')"
  by pat_completeness auto
termination
  by (relation "measure (\<lambda>(rest, ba). length rest)") auto

declare read_file_loop.simps [simp del]

definition readFromFile :: "u8 list option \<Rightarrow> ByteArray \<Rightarrow> ba_error + bool \<times> ByteArray" where
  "readFromFile file ba =
     (case file of
        None \<Rightarrow> Inr (False, ba)
      | Some bs \<Rightarrow> bind_res (read_file_loop bs ba) (\<lambda>ba'. Inr (True, ba')))"

section \<open>Hexadecimal dump\<close>

definition hex_digit :: "nat \<Rightarrow> char" where
  "hex_digit n = ''0123456789abcdef'' ! n"

definition hex_byte :: "u8 \<Rightarrow> string" where
  "hex_byte b = [hex_digit (unat b div 16), hex_digit (unat b mod 16), CHR '' '']"

fun hex_loop :: "nat \<Rightarrow> u8 list \<Rightarrow> string" where
  "hex_loop i [] = []"
| "hex_loop i (b # bs) =
     (if 0 < i \<and> i mod 32 = 0 then [CHR 0x0A] else []) @ hex_byte b @ hex_loop (Suc i) bs"

definition toHexString :: "ByteArray \<Rightarrow> ba_error + string" where
  "toHexString ba = bind_res (toString ba) (\<lambda>cs. bind_res (known cs) (\<lambda>bs. Inr (hex_loop 0 bs)))"

section \<open>What the lists denote\<close>

definition span :: "nat \<Rightarrow> iovec list \<Rightarrow> nat list" where
  "span b iovs = concat (map (\<lambda>(c, off, n). [b * c + off..<b * c + off + n]) iovs)"

definition inside :: "ByteArray \<Rightarrow> iovec list \<Rightarrow> bool" where
  "inside ba iovs \<longleftrightarrow> (\<forall>(c, off, n) \<in> set iovs. c < length (m_nodes ba) \<and> off + n \<le> length (nd_ptr (m_nodes ba ! c)))"

text \<open>The bytes \<open>writev\<close> takes from the blocks.\<close>

definition gather :: "ByteArray \<Rightarrow> iovec list \<Rightarrow> cell list" where
  "gather ba iovs = concat (map (\<lambda>(c, off, n). take n (drop off (nd_ptr (m_nodes ba ! c)))) iovs)"

lemma span_simps [simp]:
  "span b [] = []"
  "span b (xs @ ys) = span b xs @ span b ys"
  "span b [(c, off, n)] = [b * c + off..<b * c + off + n]"
  by (simp_all add: span_def)

lemma inside_append [simp]: "inside ba (xs @ ys) \<longleftrightarrow> inside ba xs \<and> inside ba ys"
  by (simp add: inside_def ball_Un)

lemma gather_span:
  assumes "nodes_ok ba" "inside ba iovs"
  shows "gather ba iovs = map (nth (flat ba)) (span (m_baseSize ba) iovs)"
  using assms(2)
proof (induction iovs)
  case Nil
  then show ?case by (simp add: gather_def)
next
  case (Cons x iovs)
  obtain c off n where x: "x = (c, off, n)" by (cases x)
  let ?p = "m_baseSize ba * c + off"
  have c: "c < length (m_nodes ba)" "off + n \<le> m_baseSize ba"
    using Cons.prems x nodes_okD(4) [OF assms(1)] by (auto simp: inside_def)
  have "take n (drop off (nd_ptr (m_nodes ba ! c))) = take n (drop ?p (flat ba))"
    using take_drop_block [OF nodes_okD(5) [OF assms(1)], of c off n] c by (simp add: flat_def)
  moreover have "?p + n \<le> length (flat ba)"
    using c mult_le_mono2 [of "Suc c" "length (m_nodes ba)" "m_baseSize ba"]
    by (simp add: length_flat [OF assms(1)] nodes_okD(6) [OF assms(1)])
  then have "take n (drop ?p (flat ba)) = map (nth (flat ba)) [?p..<?p + n]"
    by (auto intro: nth_equalityI)
  ultimately show ?case using Cons x by (simp add: gather_def span_def inside_def)
qed

lemma upt_append_split:
  fixes s k n :: nat
  shows "k \<le> n \<Longrightarrow> [s..<s + k] @ [s + k..<s + k + (n - k)] = [s..<s + n]"
  using upt_add_eq_append [of s "s + k" "n - k"] by simp

lemma iov_loop_correct:
  assumes "nodes_ok ba" "c < length (m_nodes ba)" "npos < m_baseSize ba"
    "ncap = m_baseSize ba - npos" "m_baseSize ba * c + npos + n \<le> m_capacity ba" "inside ba acc"
  shows "\<exists>iovs. iov_loop ba n (Some c) npos ncap acc = Inr iovs \<and> inside ba iovs \<and>
     span (m_baseSize ba) iovs
       = span (m_baseSize ba) acc @ [m_baseSize ba * c + npos..<m_baseSize ba * c + npos + n]"
  using assms
proof (induction ba n "Some c" npos ncap acc arbitrary: c rule: iov_loop.induct)
  case (1 ba n npos ncap acc)
  let ?b = "m_baseSize ba"
  note ok = nodes_okD [OF \<open>nodes_ok ba\<close>]
  show ?case
  proof (cases "n \<le> ncap")
    case True
    then have "inside ba [(c, npos, n)]" using "1.prems" ok(4) by (simp add: inside_def)
    then show ?thesis using True "1.prems"(6) by (auto simp: iov_loop.simps [of ba n])
  next
    case False
    have lt: "?b * Suc c < m_capacity ba" using "1.prems"(3,4,5) False by simp
    have nx: "next_node ba c = Some (Suc c)" "Suc c < length (m_nodes ba)"
      using lt next_node_Some [OF "1.prems"(1) lt] ok(1,6) by (simp_all del: mult_Suc_right)
    have start: "?b * Suc c = ?b * c + npos + ncap" using "1.prems"(3,4) by simp
    have "inside ba (acc @ [(c, npos, ncap)])" using "1.prems" ok(4) by (simp add: inside_def)
    then obtain iovs where r: "iov_loop ba (n - ncap) (Some (Suc c)) 0 ?b (acc @ [(c, npos, ncap)]) = Inr iovs"
      "inside ba iovs"
      "span ?b iovs = span ?b acc @ [?b * c + npos..<?b * Suc c] @ [?b * Suc c..<?b * Suc c + (n - ncap)]"
      using "1.hyps" [of c "Suc c"] False nx ok(1,3) "1.prems"(1,5) start by (auto simp del: mult_Suc_right)
    have "[?b * c + npos..<?b * Suc c] @ [?b * Suc c..<?b * Suc c + (n - ncap)]
        = [?b * c + npos..<?b * c + npos + n]"
      unfolding start using upt_append_split [of ncap n "?b * c + npos"] False by simp
    then show ?thesis using r False nx ok(3) by (simp add: iov_loop.simps [of ba n])
  qed
qed

lemma getReadBuffers_correct:
  assumes "wf ba"
  shows "\<exists>iovs. getReadBuffers [] len ba = Inr (min len (m_size ba - m_position ba), iovs) \<and>
     inside ba iovs \<and>
     span (m_baseSize ba) iovs
       = [m_position ba..<m_position ba + min len (m_size ba - m_position ba)]"
proof (cases "min len (m_size ba - m_position ba) = 0")
  case True
  then show ?thesis using assms
    by (auto simp: getReadBuffers_def getReadSize_eq wfD Let_def inside_def min_def split: if_splits)
next
  case False
  let ?b = "m_baseSize ba" and ?p = "m_position ba" and ?n = "min len (m_size ba - m_position ba)"
  have ok: "blocks_ok ba" using assms by (rule wfD)
  note nok = blocks_okD(1) [OF ok] and le = blocks_okD(2,3) [OF ok]
  have pc: "?p < m_capacity ba" using False le by simp
  note cur = wf_cur_Some [OF assms pc] and blk = pos_block [OF nok pc]
  have sz: "nd_size (m_nodes ba ! (?p div ?b)) = ?b" using nodes_okD(3) [OF nok blk] .
  have md: "?p mod ?b < ?b" "0 < ?b" using nodes_okD(1) [OF nok] by simp_all
  have pos: "?b * (?p div ?b) + ?p mod ?b = ?p" by simp
  have room: "?b * (?p div ?b) + ?p mod ?b + ?n \<le> m_capacity ba" unfolding pos using le by simp
  have n: "(if getReadSize ba < len then getReadSize ba else len) = ?n"
    by (simp add: getReadSize_eq ok min_def)
  obtain iovs where "iov_loop ba ?n (Some (?p div ?b)) (?p mod ?b) (?b - ?p mod ?b) [] = Inr iovs"
    "inside ba iovs" "span ?b iovs = [?p..<?p + ?n]"
    using iov_loop_correct [OF nok blk md(1) refl room, of "[]"] unfolding pos
    by (auto simp: inside_def)
  then show ?thesis using False n cur sz md by (auto simp: getReadBuffers_def Let_def)
qed

lemma getWriteBuffers_correct:
  assumes "wf ba" "0 < len"
  shows "\<exists>iovs ba' k. getWriteBuffers [] len ba = Inr (len, iovs, ba') \<and> wf ba' \<and>
     flat ba' = flat ba @ replicate (k * m_baseSize ba) None \<and>
     m_position ba' = m_position ba \<and> m_size ba' = m_size ba \<and>
     inside ba' iovs \<and> span (m_baseSize ba') iovs = [m_position ba..<m_position ba + len]"
proof -
  obtain ba' k where a: "addCapacity len ba = Inr ba'" "ready len ba'"
    "flat ba' = flat ba @ replicate (k * m_baseSize ba) None"
    "m_position ba' = m_position ba" "m_size ba' = m_size ba"
    using addCapacity_correct [OF assms] by blast
  let ?b = "m_baseSize ba'" and ?p = "m_position ba'"
  from a(2) have r: "blocks_ok ba'" "?p + len \<le> m_capacity ba'" "m_cur ba' = Some (?p div ?b)"
    "?p div ?b < length (m_nodes ba')" by (simp_all add: ready_def)
  note nok = blocks_okD(1) [OF r(1)]
  have "wf ba'" using r assms(2) by (simp add: wf_def cur_exact_def)
  have sz: "nd_size (m_nodes ba' ! (?p div ?b)) = ?b" using nodes_okD(3) [OF nok r(4)] .
  have md: "?p mod ?b < ?b" "0 < ?b" using nodes_okD(1) [OF nok] by simp_all
  have pos: "?b * (?p div ?b) + ?p mod ?b = ?p" by simp
  have room: "?b * (?p div ?b) + ?p mod ?b + len \<le> m_capacity ba'" unfolding pos using r(2) .
  obtain iovs where i: "iov_loop ba' len (Some (?p div ?b)) (?p mod ?b) (?b - ?p mod ?b) [] = Inr iovs"
    "inside ba' iovs" "span ?b iovs = [?p..<?p + len]"
    using iov_loop_correct [OF nok r(4) md(1) refl room, of "[]"] unfolding pos
    by (auto simp: inside_def)
  then have "getWriteBuffers [] len ba = Inr (len, iovs, ba')"
    using assms(2) a(1) r(3) sz md by (simp add: getWriteBuffers_def Let_def)
  then show ?thesis using i a(3-5) \<open>wf ba'\<close> by (intro exI [of _ iovs] exI [of _ ba'] exI [of _ k]) simp
qed

section \<open>Files\<close>

text \<open>From an aligned position every round but the last writes a whole block.\<close>

lemma write_file_aligned:
  assumes "nodes_ok ba" "m_baseSize ba * c + n \<le> m_capacity ba"
    "cur = (if m_baseSize ba * c < m_capacity ba then Some c else None)"
  shows "write_file_loop ba (int n) (int (m_baseSize ba * c)) cur out
    = Inr (out @ take n (drop (m_baseSize ba * c) (flat ba)))"
  using assms(2,3)
proof (induction n arbitrary: c cur out rule: less_induct)
  case (less n)
  let ?b = "m_baseSize ba"
  note ok = nodes_okD [OF assms(1)]
  show ?case
  proof (cases "n = 0")
    case True
    then show ?thesis by (simp add: write_file_loop.simps)
  next
    case False
    have lt: "?b * c < m_capacity ba" using less.prems(1) False by simp
    then have c: "c < length (m_nodes ba)" using ok(1,6) by simp
    define m where "m = min n ?b"
    have m: "0 < m" "m \<le> n" "m \<le> ?b" using False ok(1) by (simp_all add: m_def)
    have df: "int (?b * c) mod int ?b = 0" by simp
    have blk: "take m (nd_ptr (m_nodes ba ! c)) = take m (drop (?b * c) (flat ba))"
      using take_drop_block [OF ok(5), of c 0 m] c m by (simp add: flat_def)
    have nx: "next_node ba c = (if ?b * Suc c < m_capacity ba then Some (Suc c) else None)"
      using ok(1,6) by (simp add: next_node_def del: mult_Suc_right)
    have len: "(if int ?b < int n then int ?b else int n) = int m" by (simp add: m_def)
    have one: "write_file_loop ba (int n) (int (?b * c)) (Some c) out
        = write_file_loop ba (int (n - m)) (int (?b * c + m)) (next_node ba c)
            (out @ take m (drop (?b * c) (flat ba)))"
      unfolding write_file_loop.simps [of ba "int n"] df len
      using False m blk by (simp add: Let_def of_nat_diff)
    show ?thesis
    proof (cases "n \<le> ?b")
      case True
      then have "m = n" by (simp add: m_def)
      with one less.prems lt show ?thesis by (simp add: write_file_loop.simps)
    next
      case False
      then have mb: "m = ?b" by (simp add: m_def)
      have "write_file_loop ba (int (n - m)) (int (?b * Suc c)) (next_node ba c)
            (out @ take m (drop (?b * c) (flat ba)))
          = Inr (out @ take m (drop (?b * c) (flat ba)) @ take (n - m) (drop (?b * Suc c) (flat ba)))"
        using less.IH [of "n - m" "Suc c"] m mb nx less.prems(1) False by simp
      moreover have "?b * Suc c = ?b * c + m" using mb by simp
      moreover have "take n (drop (?b * c) (flat ba))
          = take m (drop (?b * c) (flat ba)) @ take (n - m) (drop (?b * c + m) (flat ba))"
        using take_add [of m "n - m" "drop (?b * c) (flat ba)"] m by (simp add: add.commute)
      ultimately show ?thesis using one less.prems lt by (simp add: add_ac)
    qed
  qed
qed

lemma read_file_loop_correct:
  "appending ba \<Longrightarrow> \<exists>ba'. read_file_loop bs ba = Inr ba' \<and> appending ba' \<and>
     contents ba' = contents ba @ map Some bs"
proof (induction bs ba rule: read_file_loop.induct)
  case (1 bs ba)
  let ?b = "m_baseSize ba"
  have b0: "0 < ?b" using nodes_okD(1) [OF blocks_okD(1) [OF wfD]] 1(2) by (simp add: appending_def)
  show ?case
  proof (cases "length bs < ?b")
    case True
    then show ?thesis using appending_write_bytes [OF 1(2), of bs] b0
      by (auto simp: read_file_loop.simps [of bs])
  next
    case False
    obtain ba1 where 1: "write_bytes (take ?b bs) ba = Inr ba1" "appending ba1"
      "contents ba1 = contents ba @ map Some (take ?b bs)"
      using appending_write_bytes [OF 1(2)] by blast
    have "map Some (take ?b bs) @ map Some (drop ?b bs) = map Some bs"
      by (simp flip: map_append)
    then show ?thesis using "1.IH" [OF _ False 1(1,2)] b0 False 1 
      by (auto simp: read_file_loop.simps [of bs])
  qed
qed

lemma getReadBuffers_gather:
  assumes "wf ba"
  shows "\<exists>iovs. getReadBuffers [] len ba = Inr (min len (m_size ba - m_position ba), iovs) \<and>
     inside ba iovs \<and>
     gather ba iovs = take (min len (m_size ba - m_position ba)) (drop (m_position ba) (flat ba))"
proof -
  let ?n = "min len (m_size ba - m_position ba)"
  obtain iovs where i: "getReadBuffers [] len ba = Inr (?n, iovs)" "inside ba iovs"
    "span (m_baseSize ba) iovs = [m_position ba..<m_position ba + ?n]"
    using getReadBuffers_correct [OF assms] by blast
  note ok = wfD [OF assms]
  have "gather ba iovs = map (nth (flat ba)) [m_position ba..<m_position ba + ?n]"
    using gather_span [OF blocks_okD(1) [OF ok] i(2)] i(3) by simp
  also have "\<dots> = take ?n (drop (m_position ba) (flat ba))"
    using blocks_okD(2,3) [OF ok] length_flat [OF blocks_okD(1) [OF ok]]
    by (intro nth_equalityI) auto
  finally show ?thesis using i by blast
qed

section \<open>Properties\<close>

text \<open>
  \<open>getReadBuffers\<close> on a well-formed array returns the smaller of the request and
  the read size, and buffers that lie inside the blocks and hold exactly that many bytes
  from the position on.
\<close>

theorem getReadBuffers_spec:
  assumes "wf ba"
  shows "\<exists>iovs. getReadBuffers [] len ba = Inr (min len (m_size ba - m_position ba), iovs) \<and>
     inside ba iovs \<and>
     gather ba iovs = take (min len (m_size ba - m_position ba)) (drop (m_position ba) (flat ba))"
  using getReadBuffers_gather [OF assms] .

theorem getReadBuffers_spec_witness:
  "\<exists>iovs. getReadBuffers [] 9 (new_ByteArray 4) = Inr (0, iovs)"
  using getReadBuffers_spec [OF wf_new_ByteArray, of 4 9] by (auto simp: new_ByteArray_def)

text \<open>
  \<open>getWriteBuffers\<close> makes room and returns buffers inside the blocks whose positions are
  the \<open>len\<close> consecutive ones from the current position on; bytes, position and size stay.
\<close>

theorem getWriteBuffers_spec:
  assumes "wf ba" "0 < len"
  shows "\<exists>iovs ba' k. getWriteBuffers [] len ba = Inr (len, iovs, ba') \<and> wf ba' \<and>
     flat ba' = flat ba @ replicate (k * m_baseSize ba) None \<and>
     m_position ba' = m_position ba \<and> m_size ba' = m_size ba \<and> inside ba' iovs \<and>
     span (m_baseSize ba') iovs = [m_position ba..<m_position ba + len]"
  using getWriteBuffers_correct [OF assms] .

theorem getWriteBuffers_spec_witness:
  "\<exists>iovs ba'. getWriteBuffers [] 6 (new_ByteArray 4) = Inr (6, iovs, ba') \<and>
     span (m_baseSize ba') iovs = [0, 1, 2, 3, 4, 5]"
  using getWriteBuffers_spec [OF wf_new_ByteArray, of 4 6]
  by (auto simp: new_ByteArray_def upt_rec)

text \<open>
  A file read into a new array and written out from its start is copied exactly,
  whatever its length and the block size.
\<close>

theorem file_roundtrip:
  assumes "0 < base_size"
  shows "bind_res (readFromFile (Some bs) (new_ByteArray base_size)) (\<lambda>(_, ba).
     bind_res (setPosition 0 ba) (writeToFile True)) = Inr (True, map Some bs)"
proof -
  obtain ba1 where 1: "read_file_loop bs (new_ByteArray base_size) = Inr ba1" "appending ba1"
    "contents ba1 = map Some bs"
    using read_file_loop_correct [OF appending_new [OF assms], of bs]
    by (auto simp: contents_def new_ByteArray_def)
  have ok1: "blocks_ok ba1" using 1(2) by (simp add: appending_def wfD)
  obtain ba2 where 2: "setPosition 0 ba1 = Inr ba2" "wf ba2" "cur_exact ba2" "flat ba2 = flat ba1"
    "m_position ba2 = 0" "m_size ba2 = m_size ba1" "m_capacity ba2 = m_capacity ba1"
    using setPosition_correct [OF blocks_okD(1,3) [OF ok1], of 0] by auto
  note ok2 = wfD [OF 2(2)]
  note nok2 = blocks_okD(1) [OF ok2]
  have "m_baseSize ba2 \<noteq> 0" "m_baseSize ba2 * 0 + m_size ba2 \<le> m_capacity ba2"
    using nodes_okD(1) [OF nok2] blocks_okD(3) [OF ok2] by simp_all
  moreover have "m_cur ba2 = (if m_baseSize ba2 * 0 < m_capacity ba2 then Some 0 else None)"
    using 2(3,5) by (simp add: cur_exact_def)
  ultimately have "writeToFile True ba2 = Inr (True, take (m_size ba2) (flat ba2))"
    using write_file_aligned [OF nok2, of 0 "m_size ba2" "m_cur ba2" "[]"] 2(5)
    by (simp add: writeToFile_def getReadSize_eq ok2)
  then show ?thesis using 1 2 by (simp add: readFromFile_def contents_def)
qed

theorem file_roundtrip_witness:
  "bind_res (readFromFile (Some [1, 2, 3, 4, 5]) (new_ByteArray 2)) (\<lambda>(_, ba).
     bind_res (setPosition 0 ba) (writeToFile True)) = Inr (True, map Some [1, 2, 3, 4, 5])"
  by (rule file_roundtrip) simp

text \<open>
  From a position inside a block, with no more than a block left to write,
  \<open>writeToFile\<close> writes too few bytes and then follows the null \<open>next\<close> pointer: six bytes in
  one block of eight, written out from position two.
\<close>

theorem writeToFile_unaligned_crash:
  "bind_res (ByteArray_write (map Some [a1, a2, a3, a4, a5, a6]) (new_ByteArray 8)) (\<lambda>ba1.
   bind_res (setPosition 2 ba1) (writeToFile True)) = Inl NullDeref"
  by code_simp

end
