(* ===== verification/Std_Containers.thy ===== *)
theory Std_Containers
  imports Fw_Prelude
begin

text \<open>
  What the sources use of \<open>std::set\<close> and \<open>std::map\<close>: ordered containers whose keys are
  compared by a user supplied strict order. A container is the list of its elements in
  iteration order; lookups and updates find the first element that is not smaller than the
  key, as the tree search does. The locale \<open>strict_weak_order\<close> is what the standard demands
  of the comparator; every component that brings a comparator interprets it.
\<close>

section \<open>Ordered sets\<close>

definition oset_find :: "('a \<Rightarrow> 'a \<Rightarrow> bool) \<Rightarrow> 'a \<Rightarrow> 'a list \<Rightarrow> 'a option" where
  "oset_find lt x xs =
     (case dropWhile (\<lambda>y. lt y x) xs of
        [] \<Rightarrow> None
      | y # _ \<Rightarrow> if lt x y then None else Some y)"

definition oset_insert :: "('a \<Rightarrow> 'a \<Rightarrow> bool) \<Rightarrow> 'a \<Rightarrow> 'a list \<Rightarrow> 'a list" where
  "oset_insert lt x xs =
     (if oset_find lt x xs = None
      then takeWhile (\<lambda>y. lt y x) xs @ x # dropWhile (\<lambda>y. lt y x) xs
      else xs)"

text \<open>\<open>[begin, upper_bound x)\<close> and \<open>[upper_bound x, end)\<close>\<close>

definition oset_upto :: "('a \<Rightarrow> 'a \<Rightarrow> bool) \<Rightarrow> 'a \<Rightarrow> 'a list \<Rightarrow> 'a list" where
  "oset_upto lt x xs = takeWhile (\<lambda>y. \<not> lt x y) xs"

definition oset_after :: "('a \<Rightarrow> 'a \<Rightarrow> bool) \<Rightarrow> 'a \<Rightarrow> 'a list \<Rightarrow> 'a list" where
  "oset_after lt x xs = dropWhile (\<lambda>y. \<not> lt x y) xs"

section \<open>Ordered maps\<close>

fun om_find :: "('k \<Rightarrow> 'k \<Rightarrow> bool) \<Rightarrow> 'k \<Rightarrow> ('k \<times> 'v) list \<Rightarrow> 'v option" where
  "om_find lt k [] = None"
| "om_find lt k ((k', v) # m) =
     (if lt k' k then om_find lt k m else if lt k k' then None else Some v)"

text \<open>\<open>m[k] = v\<close>; a key that compares equal keeps its own spelling.\<close>

fun om_put :: "('k \<Rightarrow> 'k \<Rightarrow> bool) \<Rightarrow> 'k \<Rightarrow> 'v \<Rightarrow> ('k \<times> 'v) list \<Rightarrow> ('k \<times> 'v) list" where
  "om_put lt k v [] = [(k, v)]"
| "om_put lt k v ((k', w) # m) =
     (if lt k' k then (k', w) # om_put lt k v m
      else if lt k k' then (k, v) # (k', w) # m
      else (k', v) # m)"

fun om_del :: "('k \<Rightarrow> 'k \<Rightarrow> bool) \<Rightarrow> 'k \<Rightarrow> ('k \<times> 'v) list \<Rightarrow> ('k \<times> 'v) list" where
  "om_del lt k [] = []"
| "om_del lt k ((k', w) # m) =
     (if lt k' k then (k', w) # om_del lt k m
      else if lt k k' then (k', w) # m
      else m)"

section \<open>Laws of the comparator\<close>

locale strict_weak_order =
  fixes lt :: "'a \<Rightarrow> 'a \<Rightarrow> bool"
  assumes asym: "lt x y \<Longrightarrow> \<not> lt y x"
    and negtrans: "lt x y \<Longrightarrow> lt x z \<or> lt z y"
begin

lemma irrefl: "\<not> lt x x"
  using asym by blast

lemma trans: "lt x y \<Longrightarrow> lt y z \<Longrightarrow> lt x z"
  using asym negtrans by blast

lemma tw_filter: "sorted_wrt lt xs \<Longrightarrow> takeWhile (\<lambda>y. lt y x) xs = filter (\<lambda>y. lt y x) xs"
  by (induction xs) (auto intro: trans intro!: filter_False [symmetric])

lemma dw_filter: "sorted_wrt lt xs \<Longrightarrow> dropWhile (\<lambda>y. lt y x) xs = filter (\<lambda>y. \<not> lt y x) xs"
  by (induction xs) (auto intro: trans intro!: filter_True [symmetric])

lemma upto_filter: "sorted_wrt lt xs \<Longrightarrow> oset_upto lt x xs = filter (\<lambda>y. \<not> lt x y) xs"
  unfolding oset_upto_def by (induction xs) (auto intro: trans intro!: filter_False [symmetric])

lemma after_filter: "sorted_wrt lt xs \<Longrightarrow> oset_after lt x xs = filter (lt x) xs"
  unfolding oset_after_def by (induction xs) (auto intro: trans intro!: filter_True [symmetric])

lemma find_None:
  assumes "sorted_wrt lt xs"
  shows "oset_find lt x xs = None \<longleftrightarrow> (\<forall>y \<in> set xs. lt x y \<or> lt y x)"
  using assms by (induction xs) (auto simp: oset_find_def dest: asym trans split: list.splits if_splits)

lemma find_Some: "oset_find lt x xs = Some y \<Longrightarrow> y \<in> set xs \<and> \<not> lt x y \<and> \<not> lt y x"
  using set_dropWhileD [of _ "\<lambda>y. lt y x" xs]
  by (auto simp: oset_find_def dropWhile_eq_Cons_conv split: list.splits if_splits)

lemma set_insert: "sorted_wrt lt xs \<Longrightarrow>
    set (oset_insert lt x xs) = (if oset_find lt x xs = None then insert x (set xs) else set xs)"
  by (simp add: oset_insert_def tw_filter dw_filter) blast

lemma sorted_insert:
  assumes "sorted_wrt lt xs"
  shows "sorted_wrt lt (oset_insert lt x xs)"
proof (cases "oset_find lt x xs = None")
  case True
  then have "\<forall>y \<in> set xs. \<not> lt y x \<longrightarrow> lt x y" using find_None [OF assms] by blast
  then show ?thesis using True assms
    by (auto simp: oset_insert_def tw_filter dw_filter sorted_wrt_append sorted_wrt_filter intro: trans)
next
  case False
  then show ?thesis using assms unfolding oset_insert_def by (simp only: if_False)
qed

lemma distinct_sorted: "sorted_wrt lt xs \<Longrightarrow> distinct xs"
  by (induction xs) (auto simp: irrefl)

lemma om_find_None: "(\<forall>q \<in> set m. lt k (fst q)) \<Longrightarrow> om_find lt k m = None"
  by (induction m) (auto dest: asym)

lemma keys_put: "set (map fst (om_put lt k v m)) \<subseteq> insert k (set (map fst m))"
proof (induction m)
  case (Cons q m)
  then show ?case by (cases q) (auto simp del: set_map)
qed simp

lemma keys_del: "set (om_del lt k m) \<subseteq> set m"
  by (induction m) (auto split: if_splits)

lemma sorted_put:
  "sorted_wrt lt (map fst m) \<Longrightarrow> sorted_wrt lt (map fst (om_put lt k v m))"
proof (induction m)
  case (Cons q m)
  obtain k' w where q: "q = (k', w)" by (cases q)
  have "\<forall>y \<in> set (map fst (om_put lt k v m)). y = k \<or> lt k' y"
    using keys_put [of k v m] Cons.prems q by fastforce
  then show ?case using Cons q by (auto intro: trans)
qed simp

lemma sorted_del:
  "sorted_wrt lt (map fst m) \<Longrightarrow> sorted_wrt lt (map fst (om_del lt k m))"
proof (induction m)
  case (Cons q m)
  then show ?case using keys_del [of k m] by (cases q) auto
qed simp

text \<open>What a lookup returns after an update: keys that compare equal are the same key.\<close>

lemma find_put:
  "sorted_wrt lt (map fst m) \<Longrightarrow>
   om_find lt j (om_put lt k v m) = (if \<not> lt j k \<and> \<not> lt k j then Some v else om_find lt j m)"
proof (induction m)
  case Nil
  then show ?case by simp
next
  case (Cons q m)
  obtain k' w where q: "q = (k', w)" by (cases q)
  consider "lt k' k" | "\<not> lt k' k" "lt k k'" | "\<not> lt k' k" "\<not> lt k k'" by blast
  then show ?case
  proof cases
    case 1
    then have "\<not> lt k' j \<Longrightarrow> lt j k" using negtrans [of k' k j] by blast
    with 1 Cons q show ?thesis by auto
  next
    case 2
    then have "lt j k \<Longrightarrow> lt j k'" using trans [of j k k'] by blast
    with 2 Cons q show ?thesis by (auto dest: asym)
  next
    case 3
    then have "lt k' j \<longleftrightarrow> lt k j" "lt j k' \<longleftrightarrow> lt j k"
      using negtrans [of k' j k] negtrans [of k j k'] negtrans [of j k' k] negtrans [of j k k'] by blast+
    with 3 Cons q show ?thesis by auto
  qed
qed

lemma find_del:
  "sorted_wrt lt (map fst m) \<Longrightarrow>
   om_find lt j (om_del lt k m) = (if \<not> lt j k \<and> \<not> lt k j then None else om_find lt j m)"
proof (induction m)
  case Nil
  then show ?case by simp
next
  case (Cons q m)
  obtain k' w where q: "q = (k', w)" by (cases q)
  consider "lt k' k" | "\<not> lt k' k" "lt k k'" | "\<not> lt k' k" "\<not> lt k k'" by blast
  then show ?case
  proof cases
    case 1
    then have "\<not> lt k' j \<Longrightarrow> lt j k" using negtrans [of k' k j] by blast
    with 1 Cons q show ?thesis by auto
  next
    case 2
    then have "\<not> lt k j \<Longrightarrow> lt j k'" using negtrans [of k k' j] by blast
    with 2 Cons q show ?thesis by (auto dest: asym)
  next
    case 3
    then have eq: "lt k' j \<longleftrightarrow> lt k j" "lt j k' \<longleftrightarrow> lt j k"
      using negtrans [of k' j k] negtrans [of k j k'] negtrans [of j k' k] negtrans [of j k k'] by blast+
    have "lt j (fst r)" if "\<not> lt k' j" "r \<in> set m" for r
      using that Cons.prems q negtrans [of k' "fst r" j] by auto
    then have "\<not> lt k' j \<Longrightarrow> om_find lt j m = None" by (intro om_find_None) blast
    with 3 eq Cons q show ?thesis by (auto dest: asym)
  qed
qed

end

end
