(* ===== verification/C_Strings.thy ===== *)
theory C_Strings
  imports Std_Containers "HOL-Library.Char_ord"
begin

text \<open>
  The string operations of the C and C++ libraries that the components on top of the
  sockets use: the view of a \<open>std::string\<close> as a C string, \<open>memchr\<close>, number printing by
  streams, the order of \<open>std::string\<close> and the case insensitive order of \<open>strcasecmp\<close>. Both
  orders are interpretations of \<open>strict_weak_order\<close>, so the lookup laws of the ordered
  containers hold for maps keyed by them.
\<close>

section \<open>C strings\<close>

text \<open>What a callee that takes \<open>s.c_str()\<close> sees: the characters before the first NUL.\<close>

definition c_str :: "string \<Rightarrow> string" where
  "c_str s = takeWhile (\<lambda>c. c \<noteq> CHR 0x00) s"

text \<open>\<open>mem_chr s p c n\<close> is \<open>memchr(s + p, c, n)\<close> as an index into \<open>s\<close>.\<close>

definition mem_chr :: "'a list \<Rightarrow> nat \<Rightarrow> 'a \<Rightarrow> nat \<Rightarrow> nat option" where
  "mem_chr s p c n =
     (let w = take n (drop p s); k = length (takeWhile (\<lambda>x. x \<noteq> c) w)
      in if k < length w then Some (p + k) else None)"

lemma c_str_id [simp]: "CHR 0x00 \<notin> set s \<Longrightarrow> c_str s = s"
  unfolding c_str_def by (rule takeWhile_eq_all_conv [THEN iffD2]) auto

lemma no_nul_c_str [simp]: "CHR 0x00 \<notin> set (c_str s)"
  by (auto simp: c_str_def dest: set_takeWhileD)

lemma c_str_pre: "CHR 0x00 \<notin> set s \<Longrightarrow> c_str (s @ t) = s @ c_str t"
  unfolding c_str_def by (subst takeWhile_append2) auto

lemma mem_chr_None: "mem_chr s p c n = None \<longleftrightarrow> c \<notin> set (take n (drop p s))"
proof -
  let ?w = "take n (drop p s)"
  have "length (takeWhile (\<lambda>x. x \<noteq> c) ?w) < length ?w \<longleftrightarrow> takeWhile (\<lambda>x. x \<noteq> c) ?w \<noteq> ?w"
    by (metis length_takeWhile_le nat_less_le takeWhile_eq_take take_all)
  then show ?thesis by (auto simp: mem_chr_def Let_def takeWhile_eq_all_conv)
qed

lemma mem_chr_hit:
  "c \<notin> set xs \<Longrightarrow> length xs < n \<Longrightarrow> length s = p \<Longrightarrow>
   mem_chr (s @ xs @ c # ys) p c n = Some (p + length xs)"
proof -
  assume a: "c \<notin> set xs" "length xs < n" "length s = p"
  obtain m where n: "n = Suc (length xs + m)" using a(2) less_iff_Suc_add by auto
  have "takeWhile (\<lambda>x. x \<noteq> c) (xs @ c # zs) = xs" for zs
    using a(1) by (subst takeWhile_append2) auto
  then show ?thesis using a(3) by (simp add: mem_chr_def Let_def n)
qed

section \<open>Printing numbers\<close>

definition digit :: "nat \<Rightarrow> char" where
  "digit n = (if n < 10 then char_of (48 + n) else char_of (87 + n))"

fun num_str :: "nat \<Rightarrow> nat \<Rightarrow> string" where
  "num_str b n = (if b < 2 \<or> n < b then [digit n] else num_str b (n div b) @ [digit (n mod b)])"

declare num_str.simps [simp del]

text \<open>\<open>os << n\<close> and \<open>os << std::hex << n\<close>\<close>

definition dec :: "nat \<Rightarrow> string" where "dec n = num_str 10 n"
definition hex :: "nat \<Rightarrow> string" where "hex n = num_str 16 n"

text \<open>\<open>os << n\<close> and \<open>std::to_string\<close> of an \<open>int\<close>\<close>

definition int_str :: "int \<Rightarrow> string" where
  "int_str n = (if n < 0 then CHR ''-'' # dec (nat (- n)) else dec (nat n))"

text \<open>Reading the digits back.\<close>

definition digit_val :: "char \<Rightarrow> nat" where
  "digit_val c = (if of_char c < (58::nat) then of_char c - 48 else of_char c - 87)"

definition num_val :: "nat \<Rightarrow> string \<Rightarrow> nat" where
  "num_val b s = foldl (\<lambda>v c. v * b + digit_val c) 0 s"

lemma digit_val_digit: "n < 16 \<Longrightarrow> digit_val (digit n) = n"
  by (auto simp: digit_def digit_val_def)

lemma num_val_append [simp]: "num_val b (s @ [c]) = num_val b s * b + digit_val c"
  by (simp add: num_val_def)

lemma num_val_num_str: "2 \<le> b \<Longrightarrow> b \<le> 16 \<Longrightarrow> num_val b (num_str b n) = n"
proof (induction b n rule: num_str.induct)
  case (1 b n)
  have "digit_val (digit (n mod b)) = n mod b"
    using 1(2,3) mod_less_divisor [of b n] by (intro digit_val_digit) linarith
  moreover have "n < b \<Longrightarrow> digit_val (digit n) = n" using 1 by (intro digit_val_digit) simp
  ultimately show ?case using 1 by (subst num_str.simps) (auto simp: num_val_def)
qed

lemma num_val_dec [simp]: "num_val 10 (dec n) = n"
  by (simp add: dec_def num_val_num_str)

lemma dec_inject [simp]: "dec m = dec n \<longleftrightarrow> m = n"
  by (metis num_val_dec)

definition is_digit :: "char \<Rightarrow> bool" where
  "is_digit c \<longleftrightarrow> 48 \<le> (of_char c :: nat) \<and> of_char c \<le> (57 :: nat)"

lemma dec_digits: "c \<in> set (dec n) \<Longrightarrow> is_digit c"
  unfolding dec_def
proof (induction "10 :: nat" n rule: num_str.induct)
  case (1 n)
  then show ?case
    by (subst (asm) (2) num_str.simps)
      (auto simp: is_digit_def digit_def split: if_splits)
qed

lemma dec_not_Nil [simp]: "dec n \<noteq> []"
  unfolding dec_def by (subst num_str.simps) simp

section \<open>The order of std::string\<close>

fun str_less :: "string \<Rightarrow> string \<Rightarrow> bool" where
  "str_less [] [] = False"
| "str_less [] (_ # _) = True"
| "str_less (_ # _) [] = False"
| "str_less (x # xs) (y # ys) =
     (if (of_char x :: nat) < of_char y then True
      else if (of_char y :: nat) < of_char x then False
      else str_less xs ys)"

lemma str_less_asym: "str_less xs ys \<Longrightarrow> \<not> str_less ys xs"
  by (induction xs ys rule: str_less.induct) (auto split: if_splits)

lemma str_less_negtrans: "str_less xs ys \<Longrightarrow> str_less xs zs \<or> str_less zs ys"
proof (induction xs ys arbitrary: zs rule: str_less.induct)
  case (2 y ys)
  then show ?case by (cases zs) auto
next
  case (4 x xs y ys)
  then show ?case by (cases zs) (auto split: if_splits)
qed auto

lemma str_less_total: "str_less xs ys \<or> str_less ys xs \<or> xs = ys"
proof (induction xs ys rule: str_less.induct)
  case (4 x xs y ys)
  then show ?case by (auto simp: not_less dest: antisym)
qed auto

lemma str_less_eq [simp]: "\<not> str_less xs xs"
  using str_less_asym by blast

lemma str_equiv [simp]: "\<not> str_less xs ys \<and> \<not> str_less ys xs \<longleftrightarrow> xs = ys"
  using str_less_total by auto

interpretation string_order: strict_weak_order str_less
  by unfold_locales (fact str_less_asym, fact str_less_negtrans)

section \<open>strcasecmp\<close>

definition lower :: "char \<Rightarrow> char" where
  "lower c = (let n = of_char c :: nat in if 65 \<le> n \<and> n \<le> 90 then char_of (n + 32) else c)"

text \<open>The sign of \<open>strcasecmp(a.c_str(), b.c_str())\<close>, negative and zero.\<close>

definition casecmp_less :: "string \<Rightarrow> string \<Rightarrow> bool" where
  "casecmp_less a b = str_less (map lower (c_str a)) (map lower (c_str b))"

definition casecmp_eq :: "string \<Rightarrow> string \<Rightarrow> bool" where
  "casecmp_eq a b \<longleftrightarrow> map lower (c_str a) = map lower (c_str b)"

interpretation case_order: strict_weak_order casecmp_less
  by unfold_locales (auto simp: casecmp_less_def dest: str_less_asym str_less_negtrans)

lemma casecmp_equiv: "\<not> casecmp_less a b \<and> \<not> casecmp_less b a \<longleftrightarrow> casecmp_eq a b"
  using str_equiv unfolding casecmp_less_def casecmp_eq_def by blast

section \<open>Multimaps\<close>

text \<open>\<open>multimap::insert\<close> puts an element behind its equals.\<close>

definition mm_insert :: "('k \<Rightarrow> 'k \<Rightarrow> bool) \<Rightarrow> 'k \<Rightarrow> 'v \<Rightarrow> ('k \<times> 'v) list \<Rightarrow> ('k \<times> 'v) list" where
  "mm_insert lt k v m =
     takeWhile (\<lambda>q. \<not> lt k (fst q)) m @ (k, v) # dropWhile (\<lambda>q. \<not> lt k (fst q)) m"

definition mm_equal_range :: "('k \<Rightarrow> 'k \<Rightarrow> bool) \<Rightarrow> 'k \<Rightarrow> ('k \<times> 'v) list \<Rightarrow> ('k \<times> 'v) list" where
  "mm_equal_range lt k m =
     takeWhile (\<lambda>q. \<not> lt k (fst q)) (dropWhile (\<lambda>q. lt (fst q) k) m)"

end
