(* ===== verification/Http_Model.thy ===== *)
theory Http_Model
  imports C_Strings
begin

text \<open>
  \<open>src/src/HTTP/http.h\<close> and \<open>http.cpp\<close>: methods and status codes with their tables, requests
  and responses with their case insensitive header maps, typed access to header values and
  the text form of messages. \<open>boost::lexical_cast\<close> is the parameter \<open>cast\<close>, which returns
  \<open>None\<close> where the library throws. A message text is parsed back by a reference splitter to
  state what a dumped message means.
\<close>

section \<open>Methods and status codes\<close>

datatype HttpMethod =
  DELETE | GET | HEAD | POST | PUT | CONNECT | OPTIONS
  | TRACE | COPY | LOCK | MKCOL | MOVE | PROPFIND | PROPPATCH
  | SEARCH | UNLOCK | BIND | REBIND | UNBIND | ACL | REPORT
  | MKACTIVITY | CHECKOUT | MERGE | MSEARCH | NOTIFY | SUBSCRIBE | UNSUBSCRIBE
  | PATCH | PURGE | MKCALENDAR | LINK | UNLINK | SOURCE | INVALID_METHOD

definition HTTP_METHOD_MAP :: "(nat \<times> HttpMethod \<times> string) list" where
  "HTTP_METHOD_MAP =
    [(0, DELETE, ''DELETE''), (1, GET, ''GET''), (2, HEAD, ''HEAD''),
     (3, POST, ''POST''), (4, PUT, ''PUT''), (5, CONNECT, ''CONNECT''),
     (6, OPTIONS, ''OPTIONS''), (7, TRACE, ''TRACE''), (8, COPY, ''COPY''),
     (9, LOCK, ''LOCK''), (10, MKCOL, ''MKCOL''), (11, MOVE, ''MOVE''),
     (12, PROPFIND, ''PROPFIND''), (13, PROPPATCH, ''PROPPATCH''), (14, SEARCH, ''SEARCH''),
     (15, UNLOCK, ''UNLOCK''), (16, BIND, ''BIND''), (17, REBIND, ''REBIND''),
     (18, UNBIND, ''UNBIND''), (19, ACL, ''ACL''), (20, REPORT, ''REPORT''),
     (21, MKACTIVITY, ''MKACTIVITY''), (22, CHECKOUT, ''CHECKOUT''), (23, MERGE, ''MERGE''),
     (24, MSEARCH, ''M-SEARCH''), (25, NOTIFY, ''NOTIFY''), (26, SUBSCRIBE, ''SUBSCRIBE''),
     (27, UNSUBSCRIBE, ''UNSUBSCRIBE''), (28, PATCH, ''PATCH''), (29, PURGE, ''PURGE''),
     (30, MKCALENDAR, ''MKCALENDAR''), (31, LINK, ''LINK''), (32, UNLINK, ''UNLINK''),
     (33, SOURCE, ''SOURCE'')]"

text \<open>
  \<open>HttpStatus\<close> has the underlying type \<open>int\<close> and is made from arbitrary numbers, so it is
  an integer; the table lists the codes that have a name.
\<close>

type_synonym HttpStatus = int

definition HTTP_STATUS_MAP :: "(int \<times> string) list" where
  "HTTP_STATUS_MAP =
    [(100, ''Continue''), (101, ''Switching Protocols''),
     (102, ''Processing''), (200, ''OK''),
     (201, ''Created''), (202, ''Accepted''),
     (203, ''Non-Authoritative Information''), (204, ''No Content''),
     (205, ''Reset Content''), (206, ''Partial Content''),
     (207, ''Multi-Status''), (208, ''Already Reported''),
     (226, ''IM Used''), (300, ''Multiple Choices''),
     (301, ''Moved Permanently''), (302, ''Found''),
     (303, ''See Other''), (304, ''Not Modified''),
     (305, ''Use Proxy''), (307, ''Temporary Redirect''),
     (308, ''Permanent Redirect''), (400, ''Bad Request''),
     (401, ''Unauthorized''), (402, ''Payment Required''),
     (403, ''Forbidden''), (404, ''Not Found''),
     (405, ''Method Not Allowed''), (406, ''Not Acceptable''),
     (407, ''Proxy Authentication Required''), (408, ''Request Timeout''),
     (409, ''Conflict''), (410, ''Gone''),
     (411, ''Length Required''), (412, ''Precondition Failed''),
     (413, ''Payload Too Large''), (414, ''URI Too Long''),
     (415, ''Unsupported Media Type''), (416, ''Range Not Satisfiable''),
     (417, ''Expectation Failed''), (421, ''Misdirected Request''),
     (422, ''Unprocessable Entity''), (423, ''Locked''),
     (424, ''Failed Dependency''), (426, ''Upgrade Required''),
     (428, ''Precondition Required''), (429, ''Too Many Requests''),
     (431, ''Request Header Fields Too Large''), (451, ''Unavailable For Legal Reasons''),
     (500, ''Internal Server Error''), (501, ''Not Implemented''),
     (502, ''Bad Gateway''), (503, ''Service Unavailable''),
     (504, ''Gateway Timeout''), (505, ''HTTP Version Not Supported''),
     (506, ''Variant Also Negotiates''), (507, ''Insufficient Storage''),
     (508, ''Loop Detected''), (510, ''Not Extended''),
     (511, ''Network Authentication Required'')]"

fun find_method :: "(string \<Rightarrow> bool) \<Rightarrow> (nat \<times> HttpMethod \<times> string) list \<Rightarrow> HttpMethod" where
  "find_method P [] = INVALID_METHOD"
| "find_method P ((num, name, str) # xs) = (if P str then name else find_method P xs)"

definition StringToHttpMethod :: "string \<Rightarrow> HttpMethod" where
  "StringToHttpMethod m = find_method (\<lambda>str. str = c_str m) HTTP_METHOD_MAP"

text \<open>\<open>strncmp(str, m, strlen(str)) == 0\<close> for a text \<open>m\<close> that ends in a NUL.\<close>

definition CharsToHttpMethod :: "string \<Rightarrow> HttpMethod" where
  "CharsToHttpMethod m = find_method (\<lambda>str. take (length str) (c_str m) = str) HTTP_METHOD_MAP"

definition s_method_string :: "string list" where
  "s_method_string = map (\<lambda>(num, name, str). str) HTTP_METHOD_MAP"

fun method_num :: "(nat \<times> HttpMethod \<times> string) list \<Rightarrow> HttpMethod \<Rightarrow> nat" where
  "method_num [] m = 34"
| "method_num ((num, name, str) # xs) m = (if m = name then num else method_num xs m)"

definition HttpMethodToString :: "HttpMethod \<Rightarrow> string" where
  "HttpMethodToString m =
     (let idx = method_num HTTP_METHOD_MAP m
      in if length s_method_string \<le> idx then ''<unknown>'' else s_method_string ! idx)"

definition HttpStatusToString :: "HttpStatus \<Rightarrow> string" where
  "HttpStatusToString s =
     (case map_of HTTP_STATUS_MAP s of Some msg \<Rightarrow> msg | None \<Rightarrow> ''<unknown>'')"

section \<open>Header maps\<close>

definition CompareNoCase :: "string \<Rightarrow> string \<Rightarrow> bool" where
  "CompareNoCase lhs rhs = casecmp_less lhs rhs"

type_synonym HttpMap = "(string \<times> string) list"

definition checkGetAs ::
  "(string \<Rightarrow> 'a option) \<Rightarrow> HttpMap \<Rightarrow> string \<Rightarrow> 'a \<Rightarrow> bool \<times> 'a" where
  "checkGetAs cast m key def =
     (case om_find CompareNoCase key m of
        None \<Rightarrow> (False, def)
      | Some s \<Rightarrow> (case cast s of Some v \<Rightarrow> (True, v) | None \<Rightarrow> (False, def)))"

definition getAs :: "(string \<Rightarrow> 'a option) \<Rightarrow> HttpMap \<Rightarrow> string \<Rightarrow> 'a \<Rightarrow> 'a" where
  "getAs cast m key def =
     (case om_find CompareNoCase key m of
        None \<Rightarrow> def
      | Some s \<Rightarrow> (case cast s of Some v \<Rightarrow> v | None \<Rightarrow> def))"

section \<open>Requests\<close>

record HttpRequest =
  m_method :: HttpMethod
  m_version :: u8
  m_close :: bool
  m_path :: string
  m_query :: string
  m_fragment :: string
  m_body :: string
  m_headers :: HttpMap
  m_params :: HttpMap
  m_cookies :: HttpMap

definition new_HttpRequest :: "u8 \<Rightarrow> bool \<Rightarrow> HttpRequest" where
  "new_HttpRequest version close =
     \<lparr>m_method = GET, m_version = version, m_close = close, m_path = ''/'', m_query = [],
      m_fragment = [], m_body = [], m_headers = [], m_params = [], m_cookies = []\<rparr>"

definition getHeader :: "string \<Rightarrow> string \<Rightarrow> HttpRequest \<Rightarrow> string" where
  "getHeader key def r =
     (case om_find CompareNoCase key (m_headers r) of None \<Rightarrow> def | Some v \<Rightarrow> v)"

definition getParam :: "string \<Rightarrow> string \<Rightarrow> HttpRequest \<Rightarrow> string" where
  "getParam key def r =
     (case om_find CompareNoCase key (m_params r) of None \<Rightarrow> def | Some v \<Rightarrow> v)"

definition getCookie :: "string \<Rightarrow> string \<Rightarrow> HttpRequest \<Rightarrow> string" where
  "getCookie key def r =
     (case om_find CompareNoCase key (m_cookies r) of None \<Rightarrow> def | Some v \<Rightarrow> v)"

definition setHeader :: "string \<Rightarrow> string \<Rightarrow> HttpRequest \<Rightarrow> HttpRequest" where
  "setHeader key val r = r\<lparr>m_headers := om_put CompareNoCase key val (m_headers r)\<rparr>"

definition setParam :: "string \<Rightarrow> string \<Rightarrow> HttpRequest \<Rightarrow> HttpRequest" where
  "setParam key val r = r\<lparr>m_params := om_put CompareNoCase key val (m_params r)\<rparr>"

definition setCookie :: "string \<Rightarrow> string \<Rightarrow> HttpRequest \<Rightarrow> HttpRequest" where
  "setCookie key val r = r\<lparr>m_cookies := om_put CompareNoCase key val (m_cookies r)\<rparr>"

definition delHeader :: "string \<Rightarrow> HttpRequest \<Rightarrow> HttpRequest" where
  "delHeader key r = r\<lparr>m_headers := om_del CompareNoCase key (m_headers r)\<rparr>"

definition delParam :: "string \<Rightarrow> HttpRequest \<Rightarrow> HttpRequest" where
  "delParam key r = r\<lparr>m_params := om_del CompareNoCase key (m_params r)\<rparr>"

definition delCookie :: "string \<Rightarrow> HttpRequest \<Rightarrow> HttpRequest" where
  "delCookie key r = r\<lparr>m_cookies := om_del CompareNoCase key (m_cookies r)\<rparr>"

text \<open>\<open>hasHeader(key, &val)\<close>: the result and what was stored through the pointer.\<close>

definition hasHeader :: "string \<Rightarrow> HttpRequest \<Rightarrow> bool \<times> string option" where
  "hasHeader key r =
     (case om_find CompareNoCase key (m_headers r) of
        None \<Rightarrow> (False, None) | Some v \<Rightarrow> (True, Some v))"

definition hasParam :: "string \<Rightarrow> HttpRequest \<Rightarrow> bool \<times> string option" where
  "hasParam key r =
     (case om_find CompareNoCase key (m_params r) of
        None \<Rightarrow> (False, None) | Some v \<Rightarrow> (True, Some v))"

definition hasCookie :: "string \<Rightarrow> HttpRequest \<Rightarrow> bool \<times> string option" where
  "hasCookie key r =
     (case om_find CompareNoCase key (m_cookies r) of
        None \<Rightarrow> (False, None) | Some v \<Rightarrow> (True, Some v))"

definition checkGetHeaderAs where
  "checkGetHeaderAs cast key def r = checkGetAs cast (m_headers r) key def"

definition getHeaderAs where
  "getHeaderAs cast key def r = getAs cast (m_headers r) key def"

definition checkGetParamAs where
  "checkGetParamAs cast key def r = checkGetAs cast (m_headers r) key def"

definition getParamAs where
  "getParamAs cast key def r = getAs cast (m_headers r) key def"

definition checkGetCookieAs where
  "checkGetCookieAs cast key def r = checkGetAs cast (m_headers r) key def"

definition getCookieAs where
  "getCookieAs cast key def r = getAs cast (m_headers r) key def"

section \<open>Text form\<close>

definition crlf :: string where "crlf = [CHR 0x0D, CHR 0x0A]"

definition version_str :: "u8 \<Rightarrow> string" where
  "version_str v = dec (unat (drop_bit 4 v)) @ ''.'' @ dec (unat (v AND 0x0F))"

fun dump_headers :: "HttpMap \<Rightarrow> string" where
  "dump_headers [] = []"
| "dump_headers ((k, v) # hs) =
     (if casecmp_eq k ''connection'' then dump_headers hs
      else k @ '': '' @ v @ crlf @ dump_headers hs)"

definition dump_connection :: "bool \<Rightarrow> string" where
  "dump_connection close = ''connection: '' @ (if close then ''close'' else ''keep-alive'') @ crlf"

definition dump_body :: "string \<Rightarrow> string" where
  "dump_body body =
     (if body \<noteq> [] then ''content-length: '' @ dec (length body) @ crlf @ crlf @ body else crlf)"

definition request_line :: "HttpRequest \<Rightarrow> string" where
  "request_line r =
     HttpMethodToString (m_method r) @ '' '' @ m_path r @
     (if m_query r = [] then [] else ''?'') @ m_query r @
     (if m_fragment r = [] then [] else ''#'') @ m_fragment r @
     '' HTTP/'' @ version_str (m_version r)"

definition dump_request :: "HttpRequest \<Rightarrow> string" where
  "dump_request r =
     request_line r @ crlf @ dump_connection (m_close r) @ dump_headers (m_headers r) @
     dump_body (m_body r)"

section \<open>Responses\<close>

record HttpResponse =
  r_status :: HttpStatus
  r_version :: u8
  r_close :: bool
  r_body :: string
  r_reason :: string
  r_headers :: HttpMap

definition new_HttpResponse :: "u8 \<Rightarrow> bool \<Rightarrow> HttpResponse" where
  "new_HttpResponse version close =
     \<lparr>r_status = 200, r_version = version, r_close = close, r_body = [], r_reason = [],
      r_headers = []\<rparr>"

definition response_getHeader :: "string \<Rightarrow> string \<Rightarrow> HttpResponse \<Rightarrow> string" where
  "response_getHeader key def r =
     (case om_find CompareNoCase key (r_headers r) of None \<Rightarrow> def | Some v \<Rightarrow> v)"

definition response_setHeader :: "string \<Rightarrow> string \<Rightarrow> HttpResponse \<Rightarrow> HttpResponse" where
  "response_setHeader key val r = r\<lparr>r_headers := om_put CompareNoCase key val (r_headers r)\<rparr>"

definition response_delHeader :: "string \<Rightarrow> HttpResponse \<Rightarrow> HttpResponse" where
  "response_delHeader key r = r\<lparr>r_headers := om_del CompareNoCase key (r_headers r)\<rparr>"

text \<open>\<open>(uint32_t)m_status\<close> is printed, so a negative status wraps.\<close>

definition status_line :: "HttpResponse \<Rightarrow> string" where
  "status_line r =
     ''HTTP/'' @ version_str (r_version r) @ '' '' @
     dec (unat (word_of_int (r_status r) :: u32)) @ '' '' @
     (if r_reason r = [] then HttpStatusToString (r_status r) else r_reason r)"

definition dump_response :: "HttpResponse \<Rightarrow> string" where
  "dump_response r =
     status_line r @ crlf @ dump_headers (r_headers r) @ dump_connection (r_close r) @
     dump_body (r_body r)"

section \<open>Tables\<close>

text \<open>Two texts differ at a position that both have, so neither starts with the other.\<close>

fun diverge :: "string \<Rightarrow> string \<Rightarrow> bool" where
  "diverge (x # xs) (y # ys) \<longleftrightarrow> x \<noteq> y \<or> diverge xs ys"
| "diverge _ _ \<longleftrightarrow> False"

lemma diverge_take: "diverge a b \<Longrightarrow> take (length a) (b @ x) \<noteq> a"
  by (induction a b rule: diverge.induct) auto

lemma find_method_prefix:
  "list_all (\<lambda>(num, name, str). str = l \<or> diverge str l) xs \<Longrightarrow>
   find_method (\<lambda>str. take (length str) (l @ x) = str) xs = find_method (\<lambda>str. str = l) xs"
proof (induction xs)
  case (Cons e xs)
  obtain num name str where e: "e = (num, name, str)" by (cases e)
  show ?case
  proof (cases "str = l")
    case False
    then have "take (length str) (l @ x) \<noteq> str" using Cons.prems e diverge_take by simp
    then show ?thesis using False Cons e by simp
  qed (simp add: e)
qed simp

text \<open>What the proofs need of the table, entry by entry.\<close>

lemma table_text: "list_all (\<lambda>(num, name, l). HttpMethodToString name = l) HTTP_METHOD_MAP"
  by code_simp

lemma table_find:
  "list_all (\<lambda>(num, name, l). find_method (\<lambda>str. str = l) HTTP_METHOD_MAP = name) HTTP_METHOD_MAP"
  by code_simp

lemma table_diverge:
  "list_all (\<lambda>(num, name, l). list_all (\<lambda>(num, name, str). str = l \<or> diverge str l) HTTP_METHOD_MAP)
     HTTP_METHOD_MAP"
  by code_simp

lemma table_no_nul: "list_all (\<lambda>(num, name, l). list_all (\<lambda>c. c \<noteq> CHR 0x00) l) HTTP_METHOD_MAP"
  by code_simp

lemma table_known: "list_all (\<lambda>(num, name, l). l \<noteq> ''<unknown>'') HTTP_METHOD_MAP"
  by code_simp

lemma table_unknown:
  "find_method (\<lambda>str. str = ''<unknown>'') HTTP_METHOD_MAP = INVALID_METHOD"
  "HttpMethodToString INVALID_METHOD = ''<unknown>''"
  by code_simp+

lemma table_total: "m \<noteq> INVALID_METHOD \<Longrightarrow> \<exists>num l. (num, m, l) \<in> set HTTP_METHOD_MAP"
  by (cases m) (auto simp: HTTP_METHOD_MAP_def)

lemma method_text:
  assumes "m \<noteq> INVALID_METHOD"
  obtains l where "HttpMethodToString m = l" "l \<noteq> ''<unknown>''"
    "find_method (\<lambda>str. str = l) HTTP_METHOD_MAP = m"
    "list_all (\<lambda>(num, name, str). str = l \<or> diverge str l) HTTP_METHOD_MAP" "CHR 0x00 \<notin> set l"
proof -
  obtain num l where e: "(num, m, l) \<in> set HTTP_METHOD_MAP" using table_total [OF assms] by blast
  have at: "list_all P HTTP_METHOD_MAP \<Longrightarrow> P (num, m, l)" for P
    using e by (simp add: list_all_iff)
  show ?thesis
    using at [OF table_text] at [OF table_find] at [OF table_diverge] at [OF table_no_nul]
      at [OF table_known]
    by (intro that [of l]) (auto simp: list_all_iff)
qed

text \<open>
  The method table is consistent: every method but \<open>INVALID_METHOD\<close> has a name, both
  conversions map the name back to the method, \<open>CharsToHttpMethod\<close> even when more text
  follows the name, as it does in a request line, and a text that starts with no known name
  is invalid. \<open>CharsToHttpMethod\<close> therefore also accepts words that only start with a name.
\<close>

theorem method_names:
  assumes "m \<noteq> INVALID_METHOD"
  shows "StringToHttpMethod (HttpMethodToString m) = m
    \<and> CharsToHttpMethod (HttpMethodToString m @ rest) = m
    \<and> HttpMethodToString m \<noteq> ''<unknown>''
    \<and> HttpMethodToString INVALID_METHOD = ''<unknown>''
    \<and> StringToHttpMethod ''<unknown>'' = INVALID_METHOD"
proof -
  have u: "StringToHttpMethod ''<unknown>'' = INVALID_METHOD"
    by (simp add: StringToHttpMethod_def table_unknown)
  obtain l where l: "HttpMethodToString m = l" "l \<noteq> ''<unknown>''"
    "find_method (\<lambda>str. str = l) HTTP_METHOD_MAP = m"
    "list_all (\<lambda>(num, name, str). str = l \<or> diverge str l) HTTP_METHOD_MAP" "CHR 0x00 \<notin> set l"
    by (rule method_text [OF assms])
  have c: "CharsToHttpMethod (l @ rest) = m"
    unfolding CharsToHttpMethod_def c_str_pre [OF l(5)] find_method_prefix [OF l(4)] by (rule l(3))
  have s: "StringToHttpMethod l = m"
    unfolding StringToHttpMethod_def c_str_id [OF l(5)] by (rule l(3))
  show ?thesis unfolding l(1) using c s l(2) table_unknown(2) u by blast
qed

lemma method_names_witness: "CharsToHttpMethod ''GET / HTTP/1.1'' = GET"
  using method_names [of GET "'' / HTTP/1.1''"]
  by (simp add: HttpMethodToString_def s_method_string_def HTTP_METHOD_MAP_def)

section \<open>Header maps\<close>

interpretation header_order: strict_weak_order CompareNoCase
  unfolding CompareNoCase_def by (rule case_order.strict_weak_order_axioms)

text \<open>\<open>std::map\<close> keeps its keys strictly ordered.\<close>

definition map_ok :: "HttpMap \<Rightarrow> bool" where
  "map_ok m \<longleftrightarrow> sorted_wrt CompareNoCase (map fst m)"

lemma find_put_case: "map_ok m \<Longrightarrow>
   om_find CompareNoCase j (om_put CompareNoCase k v m) =
   (if casecmp_eq j k then Some v else om_find CompareNoCase j m)"
  using header_order.find_put [of m j k v] casecmp_equiv [of j k]
  by (simp add: map_ok_def CompareNoCase_def)

lemma find_del_case: "map_ok m \<Longrightarrow>
   om_find CompareNoCase j (om_del CompareNoCase k m) =
   (if casecmp_eq j k then None else om_find CompareNoCase j m)"
  using header_order.find_del [of m j k] casecmp_equiv [of j k]
  by (simp add: map_ok_def CompareNoCase_def)

lemma map_ok_Nil [simp]: "map_ok []"
  by (simp add: map_ok_def)

lemma map_ok_put [simp]: "map_ok m \<Longrightarrow> map_ok (om_put CompareNoCase k v m)"
  unfolding map_ok_def by (rule header_order.sorted_put)

lemma map_ok_del [simp]: "map_ok m \<Longrightarrow> map_ok (om_del CompareNoCase k m)"
  unfolding map_ok_def by (rule header_order.sorted_del)

text \<open>
  Headers, parameters and cookies behave as maps whose keys ignore case: after a set
  the lookup of any spelling of the key returns the new value and of every other key what
  it returned before, after a delete the default, \<open>hasHeader\<close> agrees with \<open>getHeader\<close>, and
  the three maps of a request do not influence each other.
\<close>

theorem header_map_laws:
  assumes "map_ok (m_headers r)" "map_ok (m_params r)" "map_ok (m_cookies r)"
  shows "getHeader j d (setHeader k v r) = (if casecmp_eq j k then v else getHeader j d r)
    \<and> getHeader j d (delHeader k r) = (if casecmp_eq j k then d else getHeader j d r)
    \<and> getParam j d (setParam k v r) = (if casecmp_eq j k then v else getParam j d r)
    \<and> getParam j d (delParam k r) = (if casecmp_eq j k then d else getParam j d r)
    \<and> getCookie j d (setCookie k v r) = (if casecmp_eq j k then v else getCookie j d r)
    \<and> getCookie j d (delCookie k r) = (if casecmp_eq j k then d else getCookie j d r)
    \<and> hasHeader j (setHeader k v r) = (if casecmp_eq j k then (True, Some v) else hasHeader j r)
    \<and> getHeader j d (setParam k v (setCookie k v r)) = getHeader j d r
    \<and> map_ok (m_headers (setHeader k v r)) \<and> map_ok (m_headers (delHeader k r))
    \<and> map_ok (m_params (setParam k v r)) \<and> map_ok (m_cookies (setCookie k v r))"
  using assms
  by (simp add: getHeader_def setHeader_def delHeader_def getParam_def setParam_def delParam_def
      getCookie_def setCookie_def delCookie_def hasHeader_def find_put_case find_del_case)

lemma header_map_laws_witness:
  "getHeader ''HOST'' [] (setHeader ''Host'' ''a'' (new_HttpRequest 0x11 True)) = ''a''"
proof -
  have "casecmp_eq ''HOST'' ''Host''" by code_simp
  moreover have "map_ok (m_headers (new_HttpRequest 0x11 True))"
    "map_ok (m_params (new_HttpRequest 0x11 True))" "map_ok (m_cookies (new_HttpRequest 0x11 True))"
    by (simp_all add: new_HttpRequest_def)
  ultimately show ?thesis
    using header_map_laws [of "new_HttpRequest 0x11 True" "''HOST''" "[]" "''Host''" "''a''"] by simp
qed

text \<open>
  The typed getters of parameters and cookies look into the headers: whatever
  parameters and cookies a request has, \<open>getParamAs\<close>, \<open>checkGetParamAs\<close> and their cookie
  versions return what the header of that name converts to, and the default for a request
  without headers.
\<close>

theorem typed_getters_read_headers:
  "getParamAs cast k d (r\<lparr>m_params := ps, m_cookies := cs\<rparr>) = getHeaderAs cast k d r
   \<and> getCookieAs cast k d (r\<lparr>m_params := ps, m_cookies := cs\<rparr>) = getHeaderAs cast k d r
   \<and> checkGetParamAs cast k d (r\<lparr>m_params := ps, m_cookies := cs\<rparr>) = checkGetHeaderAs cast k d r
   \<and> checkGetCookieAs cast k d (r\<lparr>m_params := ps, m_cookies := cs\<rparr>) = checkGetHeaderAs cast k d r
   \<and> getParamAs cast k d (setParam k v (new_HttpRequest ver close)) = d"
  by (simp add: getParamAs_def getCookieAs_def checkGetParamAs_def checkGetCookieAs_def
      getHeaderAs_def checkGetHeaderAs_def getAs_def setParam_def new_HttpRequest_def)

section \<open>Reading a message text\<close>

fun take_line :: "string \<Rightarrow> string \<times> string" where
  "take_line (c # d # cs) =
     (if c = CHR 0x0D \<and> d = CHR 0x0A then ([], cs)
      else let (l, rest) = take_line (d # cs) in (c # l, rest))"
| "take_line cs = (cs, [])"

lemma take_line_le:
  "take_line s = (l, rest) \<Longrightarrow> length rest \<le> length s \<and> (l \<noteq> [] \<longrightarrow> length rest < length s)"
  by (induction s arbitrary: l rule: take_line.induct)
    (fastforce split: if_splits prod.splits)+

lemma take_line_length: "(l, rest) = take_line s \<Longrightarrow> l \<noteq> [] \<Longrightarrow> length rest < length s"
  using take_line_le [of s l rest] by simp

function head_lines :: "string \<Rightarrow> string list \<times> string" where
  "head_lines s =
     (case take_line s of (l, rest) \<Rightarrow>
        if l = [] then ([], rest)
        else case head_lines rest of (ls, body) \<Rightarrow> (l # ls, body))"
  by pat_completeness auto
termination by (relation "measure length") (auto simp: take_line_length)

declare head_lines.simps [simp del]

definition split_field :: "string \<Rightarrow> string \<times> string" where
  "split_field l =
     (let k = takeWhile (\<lambda>c. c \<noteq> CHR '':'') l in (k, drop (length k + 2) l))"

lemma take_line_hit: "CHR 0x0D \<notin> set l \<Longrightarrow> take_line (l @ crlf @ rest) = (l, rest)"
proof (induction l)
  case Nil
  then show ?case by (simp add: crlf_def)
next
  case (Cons c l)
  then show ?case by (cases "l @ crlf @ rest") auto
qed

lemma head_lines_line:
  "CHR 0x0D \<notin> set l \<Longrightarrow> l \<noteq> [] \<Longrightarrow>
   head_lines (l @ crlf @ rest) = (case head_lines rest of (ls, body) \<Rightarrow> (l # ls, body))"
  by (subst head_lines.simps) (simp add: take_line_hit)

lemma head_lines_end: "head_lines (crlf @ body) = ([], body)"
  by (subst head_lines.simps) (simp add: take_line_hit [of "[]", simplified])

definition field_line :: "string \<times> string \<Rightarrow> string" where
  "field_line f = fst f @ '': '' @ snd f"

definition field_ok :: "string \<times> string \<Rightarrow> bool" where
  "field_ok f \<longleftrightarrow> CHR 0x0D \<notin> set (fst f) \<and> CHR 0x0D \<notin> set (snd f) \<and> CHR '':'' \<notin> set (fst f)"

lemma split_field_line: "field_ok f \<Longrightarrow> split_field (field_line f) = f"
proof -
  assume f: "field_ok f"
  have "takeWhile (\<lambda>c. c \<noteq> CHR '':'') (fst f @ CHR '':'' # x) = fst f" for x
    using f by (subst takeWhile_append2) (auto simp: field_ok_def)
  then show ?thesis by (simp add: split_field_def field_line_def)
qed

lemma head_lines_fields:
  "list_all field_ok fs \<Longrightarrow>
   head_lines (concat (map (\<lambda>f. field_line f @ crlf) fs) @ crlf @ body) = (map field_line fs, body)"
proof (induction fs)
  case (Cons f fs)
  then have "CHR 0x0D \<notin> set (field_line f)" "field_line f \<noteq> []"
    by (auto simp: field_line_def field_ok_def)
  then show ?case using Cons head_lines_line [of "field_line f"] by simp
qed (simp add: head_lines_end)

section \<open>Dumped messages\<close>

definition sent_headers :: "HttpMap \<Rightarrow> HttpMap" where
  "sent_headers hs = filter (\<lambda>(k, v). \<not> casecmp_eq k ''connection'') hs"

definition connection_field :: "bool \<Rightarrow> string \<times> string" where
  "connection_field close = (''connection'', if close then ''close'' else ''keep-alive'')"

definition length_field :: "string \<Rightarrow> HttpMap" where
  "length_field body = (if body = [] then [] else [(''content-length'', dec (length body))])"

lemma dump_headers_fields:
  "dump_headers hs = concat (map (\<lambda>f. field_line f @ crlf) (sent_headers hs))"
  by (induction hs rule: dump_headers.induct) (auto simp: sent_headers_def field_line_def)

lemma dump_body_fields:
  "dump_body body = concat (map (\<lambda>f. field_line f @ crlf) (length_field body)) @ crlf @ body"
  by (simp add: dump_body_def length_field_def field_line_def)

lemma dump_connection_field: "dump_connection close = field_line (connection_field close) @ crlf"
  by (simp add: dump_connection_def connection_field_def field_line_def)

lemma no_cr_dec [simp]: "CHR 0x0D \<notin> set (dec n)"
  using dec_digits [of "CHR 0x0D" n] by (auto simp: is_digit_def)

lemma no_cr_version [simp]: "CHR 0x0D \<notin> set (version_str v)"
  by (simp add: version_str_def)

lemma length_field_ok [simp]: "list_all field_ok (length_field body)"
  by (simp add: length_field_def field_ok_def)

lemma connection_field_ok [simp]: "field_ok (connection_field close)"
  by (simp add: connection_field_def field_ok_def)

lemma sent_ok: "list_all field_ok hs \<Longrightarrow> list_all field_ok (sent_headers hs)"
  by (auto simp: sent_headers_def list_all_iff)

lemma split_lines: "list_all field_ok fs \<Longrightarrow> map (split_field \<circ> field_line) fs = fs"
  by (induction fs) (auto simp: split_field_line)

lemma head_lines_message:
  assumes "CHR 0x0D \<notin> set l" "l \<noteq> []" "list_all field_ok fs"
  shows "head_lines (l @ crlf @ concat (map (\<lambda>f. field_line f @ crlf) fs) @ crlf @ body)
     = (l # map field_line fs, body)"
  using assms by (simp add: head_lines_line head_lines_fields)

text \<open>
  A request whose texts contain no carriage return (and no colon in a header name) is
  recovered from its dump: the first line is the request line, the fields are the
  connection field that \<open>m_close\<close> says, then the headers in map order without any stored
  connection header, then a content-length that is the length of the body when there is
  one, and what follows the empty line is the body. Responses carry the same fields, with
  the connection field behind the headers. A content-length header set by the user is not
  left out, so with a body the dump then has two.
\<close>

theorem message_dump_parses:
  assumes "CHR 0x0D \<notin> set (request_line r)" "list_all field_ok (m_headers r)"
    "CHR 0x0D \<notin> set (status_line p)" "list_all field_ok (r_headers p)"
  shows "(case head_lines (dump_request r) of (ls, body) \<Rightarrow>
        hd ls = request_line r \<and> body = m_body r
      \<and> map split_field (tl ls)
          = connection_field (m_close r) # sent_headers (m_headers r) @ length_field (m_body r))
    \<and> (case head_lines (dump_response p) of (ls, body) \<Rightarrow>
        hd ls = status_line p \<and> body = r_body p
      \<and> map split_field (tl ls)
          = sent_headers (r_headers p) @ connection_field (r_close p) # length_field (r_body p))"
proof -
  let ?f = "connection_field (m_close r) # sent_headers (m_headers r) @ length_field (m_body r)"
  let ?g = "sent_headers (r_headers p) @ connection_field (r_close p) # length_field (r_body p)"
  have f: "list_all field_ok ?f" and g: "list_all field_ok ?g" using assms sent_ok by auto
  have ne: "request_line r \<noteq> []" "status_line p \<noteq> []"
    by (simp_all add: request_line_def status_line_def)
  have "head_lines (dump_request r) = (request_line r # map field_line ?f, m_body r)"
    using head_lines_message [OF assms(1) ne(1) f, of "m_body r"]
    by (simp add: dump_request_def dump_headers_fields dump_body_fields dump_connection_field)
  moreover have "head_lines (dump_response p) = (status_line p # map field_line ?g, r_body p)"
    using head_lines_message [OF assms(3) ne(2) g, of "r_body p"]
    by (simp add: dump_response_def dump_headers_fields dump_body_fields dump_connection_field)
  ultimately show ?thesis using split_lines [OF f] split_lines [OF g] by (simp add: comp_def)
qed

lemma message_dump_parses_witness:
  "case head_lines (dump_request (new_HttpRequest 0x11 True)) of (ls, body) \<Rightarrow>
     map split_field (tl ls) = [(''connection'', ''close'')] \<and> body = []"
  using message_dump_parses [of "new_HttpRequest 0x11 True" "new_HttpResponse 0x11 True"]
  by (auto simp: new_HttpRequest_def new_HttpResponse_def request_line_def status_line_def
      HttpMethodToString_def s_method_string_def HTTP_METHOD_MAP_def HttpStatusToString_def
      HTTP_STATUS_MAP_def connection_field_def sent_headers_def length_field_def
      split: prod.splits)

end
