(* ===== verification/Fibers.thy ===== *)
theory Fibers
  imports Fw_Prelude
begin

text \<open>
  \<open>src/src/async/fiber.{h,cpp}\<close> on one thread: fibers as objects on a heap, the three
  thread-local pointers (\<open>t_fiber\<close>, \<open>t_threadFiber\<close> and the scheduler's \<open>t_fiber\<close>, here
  \<open>t_main\<close>, which \<open>Scheduler::GetMainFiber\<close> returns), and where control is.

  A saved context is a continuation: the start of an entry function on a fiber's stack, or
  the place where the code on that stack last saved itself. \<open>fs_run\<close> is the fiber on whose
  stack the processor executes. \<open>swapcontext(a, b)\<close> stores the running continuation in
  context \<open>a\<close> and jumps to the one in \<open>b\<close>; nothing ties the stored continuation to the
  owner of \<open>a\<close>, which is what the theorems about the end of a fiber are about. A failed
  \<open>ASSERT\<close> aborts. \<open>getcontext\<close> and \<open>swapcontext\<close> are taken to succeed.
\<close>

section \<open>State\<close>

datatype fiber_state = F_INIT | F_HOLD | F_EXEC | F_TERM | F_READY | F_EXCEPT

datatype fiber_error = AssertFailed | NullFiber

datatype entry = MainFunc | MainFuncCaller

datatype cont = Fresh nat entry | Paused nat

fun cont_owner :: "cont \<Rightarrow> nat" where
  "cont_owner (Fresh f e) = f"
| "cont_owner (Paused f) = f"

record 'f fiber =
  fb_id :: nat
  fb_stacksize :: u32
  fb_state :: fiber_state
  fb_ctx :: cont
  fb_stack :: bool
  fb_cb :: "'f option"

record 'f fibers =
  fs_heap :: "nat \<Rightarrow> 'f fiber option"
  s_fiber_id :: nat
  s_fiber_count :: nat
  t_fiber :: "nat option"
  t_threadFiber :: "nat option"
  t_main :: "nat option"
  fs_run :: "nat option"

definition set_state :: "nat \<Rightarrow> fiber_state \<Rightarrow> 'f fibers \<Rightarrow> 'f fibers" where
  "set_state f st s = s\<lparr>fs_heap := (fs_heap s)(f := map_option (\<lambda>x. x\<lparr>fb_state := st\<rparr>) (fs_heap s f))\<rparr>"

definition state_of :: "'f fibers \<Rightarrow> nat \<Rightarrow> fiber_state option" where
  "state_of s f = map_option fb_state (fs_heap s f)"

definition SetThis :: "nat option \<Rightarrow> 'f fibers \<Rightarrow> 'f fibers" where
  "SetThis f s = s\<lparr>t_fiber := f\<rparr>"

section \<open>Construction and destruction\<close>

text \<open>The private constructor: the fiber of the thread's own stack, at address \<open>a\<close>.\<close>

definition new_main_fiber :: "nat \<Rightarrow> 'f fibers \<Rightarrow> 'f fibers" where
  "new_main_fiber a s =
     (SetThis (Some a) s)
       \<lparr>fs_heap := (fs_heap s)(a \<mapsto> \<lparr>fb_id = 0, fb_stacksize = 0, fb_state = F_EXEC, fb_ctx = Paused a,
                                    fb_stack = False, fb_cb = None\<rparr>),
        s_fiber_count := Suc (s_fiber_count s), fs_run := Some a\<rparr>"

definition new_fiber :: "u32 \<Rightarrow> nat \<Rightarrow> 'f option \<Rightarrow> nat \<Rightarrow> bool \<Rightarrow> 'f fibers \<Rightarrow> 'f fibers" where
  "new_fiber default_size a cb stacksize use_caller s =
     s\<lparr>s_fiber_id := Suc (s_fiber_id s), s_fiber_count := Suc (s_fiber_count s),
       fs_heap := (fs_heap s)(a \<mapsto>
         \<lparr>fb_id = Suc (s_fiber_id s),
          fb_stacksize = (if stacksize \<noteq> 0 then word_of_nat stacksize else default_size),
          fb_state = F_INIT,
          fb_ctx = Fresh a (if use_caller then MainFunc else MainFuncCaller),
          fb_stack = True, fb_cb = cb\<rparr>)\<rparr>"

definition destroy_fiber :: "nat \<Rightarrow> 'f fibers \<Rightarrow> fiber_error + 'f fibers" where
  "destroy_fiber a s =
     (case fs_heap s a of
        None \<Rightarrow> Inl NullFiber
      | Some x \<Rightarrow>
          let s1 = s\<lparr>s_fiber_count := s_fiber_count s - 1, fs_heap := (fs_heap s)(a := None)\<rparr>
          in if fb_stack x then
               if fb_state x \<in> {F_TERM, F_INIT, F_EXCEPT} then Inr s1 else Inl AssertFailed
             else if fb_cb x \<noteq> None \<or> fb_state x \<noteq> F_EXEC then Inl AssertFailed
             else Inr (if t_fiber s1 = Some a then SetThis None s1 else s1))"

text \<open>\<open>reset\<close> always installs \<open>MainFunc\<close>.\<close>

definition fiber_reset :: "nat \<Rightarrow> 'f option \<Rightarrow> 'f fibers \<Rightarrow> fiber_error + 'f fibers" where
  "fiber_reset a cb s =
     (case fs_heap s a of
        None \<Rightarrow> Inl NullFiber
      | Some x \<Rightarrow>
          if fb_stack x \<and> fb_state x \<in> {F_TERM, F_INIT, F_EXCEPT}
          then Inr (s\<lparr>fs_heap := (fs_heap s)(a \<mapsto> x\<lparr>fb_cb := cb, fb_ctx := Fresh a MainFunc, fb_state := F_INIT\<rparr>)\<rparr>)
          else Inl AssertFailed)"

section \<open>Switching\<close>

definition swapcontext :: "nat option \<Rightarrow> nat option \<Rightarrow> 'f fibers \<Rightarrow> fiber_error + 'f fibers" where
  "swapcontext a b s =
     (case (a, b, fs_run s) of
        (Some a', Some b', Some r) \<Rightarrow>
          (case (fs_heap s a', fs_heap s b') of
             (Some x, Some _) \<Rightarrow>
               let h = (fs_heap s)(a' \<mapsto> x\<lparr>fb_ctx := Paused r\<rparr>)
               in Inr (s\<lparr>fs_heap := h, fs_run := map_option (\<lambda>y. cont_owner (fb_ctx y)) (h b')\<rparr>)
           | _ \<Rightarrow> Inl NullFiber)
      | _ \<Rightarrow> Inl NullFiber)"

definition swapIn :: "nat \<Rightarrow> 'f fibers \<Rightarrow> fiber_error + 'f fibers" where
  "swapIn f s =
     (let s1 = SetThis (Some f) s
      in if state_of s1 f = Some F_EXEC then Inl AssertFailed
         else swapcontext (t_main s1) (Some f) (set_state f F_EXEC s1))"

definition swapOut :: "nat \<Rightarrow> 'f fibers \<Rightarrow> fiber_error + 'f fibers" where
  "swapOut f s = (let s1 = SetThis (t_main s) s in swapcontext (Some f) (t_main s1) s1)"

definition fiber_call :: "nat \<Rightarrow> 'f fibers \<Rightarrow> fiber_error + 'f fibers" where
  "fiber_call f s =
     (let s1 = set_state f F_EXEC (SetThis (Some f) s) in swapcontext (t_threadFiber s1) (Some f) s1)"

definition uncall :: "nat \<Rightarrow> 'f fibers \<Rightarrow> fiber_error + 'f fibers" where
  "uncall f s =
     (let s1 = SetThis (t_threadFiber s) s in swapcontext (Some f) (t_threadFiber s1) s1)"

text \<open>\<open>GetThis\<close>; \<open>a\<close> is the address of the main fiber should it have to be created.\<close>

definition GetThis :: "nat \<Rightarrow> 'f fibers \<Rightarrow> nat \<times> 'f fibers" where
  "GetThis a s =
     (case t_fiber s of
        Some f \<Rightarrow> (f, s)
      | None \<Rightarrow> (a, (new_main_fiber a s)\<lparr>t_threadFiber := Some a\<rparr>))"

definition GetFiberId :: "'f fibers \<Rightarrow> nat" where
  "GetFiberId s =
     (case t_fiber s of
        None \<Rightarrow> 0
      | Some f \<Rightarrow> (case fs_heap s f of None \<Rightarrow> 0 | Some x \<Rightarrow> fb_id x))"

definition TotalFibers :: "'f fibers \<Rightarrow> nat" where
  "TotalFibers s = s_fiber_count s"

definition YieldToReady :: "nat \<Rightarrow> 'f fibers \<Rightarrow> fiber_error + 'f fibers" where
  "YieldToReady a s = (let (cur, s1) = GetThis a s in swapOut cur (set_state cur F_READY s1))"

text \<open>The assignment of \<open>F_HOLD\<close> is commented out in the source: the state stays as it is.\<close>

definition YieldToHold :: "nat \<Rightarrow> 'f fibers \<Rightarrow> fiber_error + 'f fibers" where
  "YieldToHold a s = (let (cur, s1) = GetThis a s in swapOut cur s1)"

section \<open>The end of a fiber\<close>

text \<open>
  The entry functions after the callback: \<open>cur\<close> is what \<open>GetThis\<close> returned at their start.
  They differ only in the last call. When that call returns, the function returns into a
  context with no \<open>uc_link\<close>.
\<close>

datatype outcome = Returned | Threw

definition finish_cb :: "nat \<Rightarrow> outcome \<Rightarrow> 'f fibers \<Rightarrow> 'f fibers" where
  "finish_cb cur r s =
     (case r of
        Returned \<Rightarrow> s\<lparr>fs_heap := (fs_heap s)(cur := map_option (\<lambda>x. x\<lparr>fb_cb := None, fb_state := F_TERM\<rparr>) (fs_heap s cur))\<rparr>
      | Threw \<Rightarrow> set_state cur F_EXCEPT s)"

definition MainFunc_end :: "nat \<Rightarrow> outcome \<Rightarrow> 'f fibers \<Rightarrow> fiber_error + 'f fibers" where
  "MainFunc_end cur r s = swapOut cur (finish_cb cur r s)"

definition MainFuncCaller_end :: "nat \<Rightarrow> outcome \<Rightarrow> 'f fibers \<Rightarrow> fiber_error + 'f fibers" where
  "MainFuncCaller_end cur r s = uncall cur (finish_cb cur r s)"

definition entry_end :: "entry \<Rightarrow> nat \<Rightarrow> outcome \<Rightarrow> 'f fibers \<Rightarrow> fiber_error + 'f fibers" where
  "entry_end e = (case e of MainFunc \<Rightarrow> MainFunc_end | MainFuncCaller \<Rightarrow> MainFuncCaller_end)"

text \<open>
  A fiber that has not run yet, switched to with \<open>swapIn\<close>, whose callback ends with
  \<open>r\<close> without yielding.
\<close>

definition run_to_end :: "nat \<Rightarrow> outcome \<Rightarrow> 'f fibers \<Rightarrow> fiber_error + 'f fibers" where
  "run_to_end f r s =
     (case fs_heap s f of
        None \<Rightarrow> Inl NullFiber
      | Some x \<Rightarrow>
          (case fb_ctx x of
             Paused _ \<Rightarrow> Inl NullFiber
           | Fresh _ e \<Rightarrow> bind_res (swapIn f s) (entry_end e f r)))"

section \<open>Threads\<close>

text \<open>
  On a pool thread the scheduler runs on the thread's own fiber; on the thread that
  created the scheduler with \<open>use_caller\<close> it runs on a fiber of its own. \<open>sched\<close> is the
  fiber that runs the scheduler, \<open>thr\<close> the fiber of the thread.
\<close>

definition in_scheduler :: "nat \<Rightarrow> nat \<Rightarrow> 'f fibers \<Rightarrow> bool" where
  "in_scheduler sched thr s \<longleftrightarrow>
     fs_run s = Some sched \<and> t_main s = Some sched \<and> t_threadFiber s = Some thr \<and>
     (\<exists>x. fs_heap s sched = Some x) \<and> (\<exists>x. fs_heap s thr = Some x \<and> cont_owner (fb_ctx x) = thr)"

definition waiting :: "entry \<Rightarrow> nat \<Rightarrow> 'f fibers \<Rightarrow> bool" where
  "waiting e f s \<longleftrightarrow> (\<exists>x. fs_heap s f = Some x \<and> fb_state x \<noteq> F_EXEC \<and> fb_ctx x = Fresh f e)"

lemma run_to_end_correct:
  assumes "in_scheduler sched thr s" "waiting e f s" "f \<noteq> sched" "f \<noteq> thr"
  shows "\<exists>s'. run_to_end f r s = Inr s' \<and>
     state_of s' f = Some (case r of Returned \<Rightarrow> F_TERM | Threw \<Rightarrow> F_EXCEPT) \<and>
     fs_run s' = Some (case e of MainFunc \<Rightarrow> sched | MainFuncCaller \<Rightarrow> thr) \<and>
     t_fiber s' = fs_run s'"
proof -
  obtain x where x: "fs_heap s f = Some x" "fb_state x \<noteq> F_EXEC" "fb_ctx x = Fresh f e"
    using assms(2) by (auto simp: waiting_def)
  obtain y where y: "fs_heap s sched = Some y" using assms(1) by (auto simp: in_scheduler_def)
  obtain z where z: "fs_heap s thr = Some z" "cont_owner (fb_ctx z) = thr"
    using assms(1) by (auto simp: in_scheduler_def)
  have m: "t_main s = Some sched" "t_threadFiber s = Some thr" "fs_run s = Some sched"
    using assms(1) by (auto simp: in_scheduler_def)
  note defs = run_to_end_def swapIn_def SetThis_def state_of_def set_state_def swapcontext_def
    entry_end_def finish_cb_def Let_def
  show ?thesis
  proof (cases e)
    case MainFunc
    then show ?thesis using x y z m assms(3,4)
      by (cases r) (simp_all add: defs MainFunc_end_def swapOut_def)
  next
    case MainFuncCaller
    then show ?thesis using x y z m assms(3,4)
      by (cases r; cases "thr = sched") (auto simp: defs MainFuncCaller_end_def uncall_def)
  qed
qed

lemma waiting_new_fiber:
  "waiting (if use_caller then MainFunc else MainFuncCaller) a (new_fiber ds a cb sz use_caller s)"
  by (simp add: waiting_def new_fiber_def)

lemma in_scheduler_new_fiber:
  "in_scheduler sched thr s \<Longrightarrow> a \<noteq> sched \<Longrightarrow> a \<noteq> thr \<Longrightarrow>
   in_scheduler sched thr (new_fiber ds a cb sz use_caller s)"
  by (simp add: in_scheduler_def new_fiber_def)

lemma fiber_reset_waiting:
  assumes "fs_heap s a = Some x" "fb_stack x" "fb_state x \<in> {F_TERM, F_INIT, F_EXCEPT}" "a \<noteq> sched" "a \<noteq> thr"
  shows "\<exists>s'. fiber_reset a cb s = Inr s' \<and> waiting MainFunc a s' \<and>
     (in_scheduler sched thr s \<longrightarrow> in_scheduler sched thr s')"
  using assms by (auto simp: fiber_reset_def waiting_def in_scheduler_def)

section \<open>Properties\<close>

text \<open>
  On a pool thread, where the scheduler runs on the thread's own fiber, a new fiber or
  a recycled one that runs to its end gives control back to the scheduler, with
  \<open>t_fiber\<close> pointing at it again, and is left in \<open>F_TERM\<close>, or \<open>F_EXCEPT\<close> if the
  callback threw.
\<close>

theorem pool_thread_fiber_returns:
  assumes "in_scheduler thr thr s" "f \<noteq> thr"
  shows "(\<exists>s'. run_to_end f r (new_fiber ds f cb sz use_caller s) = Inr s' \<and>
        state_of s' f = Some (case r of Returned \<Rightarrow> F_TERM | Threw \<Rightarrow> F_EXCEPT) \<and>
        fs_run s' = Some thr \<and> t_fiber s' = Some thr) \<and>
     (\<forall>x. fs_heap s f = Some x \<longrightarrow> fb_stack x \<longrightarrow> fb_state x \<in> {F_TERM, F_INIT, F_EXCEPT} \<longrightarrow>
        (\<exists>s' s''. fiber_reset f cb s = Inr s' \<and> run_to_end f r s' = Inr s'' \<and>
           fs_run s'' = Some thr \<and> t_fiber s'' = Some thr))"
proof (intro conjI allI impI)
  have e: "(case e of MainFunc \<Rightarrow> thr | MainFuncCaller \<Rightarrow> thr) = thr" for e by (cases e) auto
  show "\<exists>s'. run_to_end f r (new_fiber ds f cb sz use_caller s) = Inr s' \<and>
        state_of s' f = Some (case r of Returned \<Rightarrow> F_TERM | Threw \<Rightarrow> F_EXCEPT) \<and>
        fs_run s' = Some thr \<and> t_fiber s' = Some thr"
    using run_to_end_correct [OF in_scheduler_new_fiber [OF assms(1)] waiting_new_fiber] assms(2)
    by (fastforce simp: e)
  fix x assume "fs_heap s f = Some x" "fb_stack x" "fb_state x \<in> {F_TERM, F_INIT, F_EXCEPT}"
  from fiber_reset_waiting [OF this assms(2,2)] assms(1) obtain s' where
    "fiber_reset f cb s = Inr s'" "waiting MainFunc f s'" "in_scheduler thr thr s'" by blast
  then show "\<exists>s' s''. fiber_reset f cb s = Inr s' \<and> run_to_end f r s' = Inr s'' \<and>
        fs_run s'' = Some thr \<and> t_fiber s'' = Some thr"
    using run_to_end_correct [of thr thr s' MainFunc f r] assms(2) by (fastforce simp: e)
qed

text \<open>A thread whose main fiber is at address 0.\<close>

definition one_thread :: "nat fibers" where
  "one_thread = (snd (GetThis 0 \<lparr>fs_heap = (\<lambda>_. None), s_fiber_id = 0, s_fiber_count = 0, t_fiber = None,
     t_threadFiber = None, t_main = None, fs_run = None\<rparr>))\<lparr>t_main := Some 0\<rparr>"

theorem pool_thread_fiber_returns_witness:
  "\<exists>s'. run_to_end 1 Returned (new_fiber 4096 1 (Some 7) 0 False one_thread) = Inr s' \<and>
     state_of s' 1 = Some F_TERM \<and> fs_run s' = Some 0"
proof -
  have "in_scheduler 0 0 one_thread"
    by (simp add: in_scheduler_def one_thread_def GetThis_def new_main_fiber_def SetThis_def)
  from pool_thread_fiber_returns [OF this, of 1 Returned 4096 "Some 7" 0 False] show ?thesis by auto
qed

text \<open>
  On the thread that created the scheduler with \<open>use_caller\<close>, the scheduler runs on a
  fiber of its own. There a fiber made by the constructor does not come back to the scheduler
  when it ends but to the thread's fiber, while a recycled one does come back: the
  constructor installs the two entry functions the wrong way round.
\<close>

theorem caller_thread_fiber_leaves_scheduler:
  assumes "in_scheduler sched thr s" "sched \<noteq> thr" "f \<noteq> sched" "f \<noteq> thr"
  shows "(\<exists>s'. run_to_end f r (new_fiber ds f cb sz False s) = Inr s' \<and> fs_run s' = Some thr \<and> fs_run s' \<noteq> Some sched) \<and>
     (\<forall>x. fs_heap s f = Some x \<longrightarrow> fb_stack x \<longrightarrow> fb_state x \<in> {F_TERM, F_INIT, F_EXCEPT} \<longrightarrow>
        (\<exists>s' s''. fiber_reset f cb s = Inr s' \<and> run_to_end f r s' = Inr s'' \<and> fs_run s'' = Some sched))"
proof (intro conjI allI impI)
  show "\<exists>s'. run_to_end f r (new_fiber ds f cb sz False s) = Inr s' \<and> fs_run s' = Some thr \<and> fs_run s' \<noteq> Some sched"
    using run_to_end_correct [OF in_scheduler_new_fiber [OF assms(1,3,4)] waiting_new_fiber assms(3,4), of r ds cb sz False]
      assms(2) by auto
  fix x assume "fs_heap s f = Some x" "fb_stack x" "fb_state x \<in> {F_TERM, F_INIT, F_EXCEPT}"
  from fiber_reset_waiting [OF this assms(3,4), of cb] assms(1) obtain s' where
    "fiber_reset f cb s = Inr s'" "waiting MainFunc f s'" "in_scheduler sched thr s'" by blast
  then show "\<exists>s' s''. fiber_reset f cb s = Inr s' \<and> run_to_end f r s' = Inr s'' \<and> fs_run s'' = Some sched"
    using run_to_end_correct [of sched thr s' MainFunc f r] assms(3,4) by fastforce
qed

text \<open>
  The thread of \<open>one_thread\<close> after \<open>Scheduler(1, true)\<close> made its root fiber (address 1) and
  \<open>stop\<close> called it.
\<close>

definition caller_thread :: "fiber_error + nat fibers" where
  "caller_thread = fiber_call 1 ((new_fiber 4096 1 (Some 0) 0 True one_thread)\<lparr>t_main := Some 1\<rparr>)"

theorem caller_thread_fiber_leaves_scheduler_witness:
  "\<exists>s s'. caller_thread = Inr s \<and> run_to_end 2 Returned (new_fiber 4096 2 (Some 7) 0 False s) = Inr s' \<and>
     fs_run s' = Some 0 \<and> fs_run s' \<noteq> Some 1"
proof -
  obtain s where c: "caller_thread = Inr s" and i: "in_scheduler 1 0 s"
    by (simp add: caller_thread_def fiber_call_def new_fiber_def one_thread_def GetThis_def new_main_fiber_def
        SetThis_def set_state_def swapcontext_def Let_def in_scheduler_def)
  from caller_thread_fiber_leaves_scheduler [OF i, of 2 Returned 4096 "Some 7" 0] c show ?thesis by auto
qed

text \<open>
  The root fiber itself gets \<open>MainFunc\<close>, whose last call saves and restores the same
  context: control stays on the root fiber's stack, \<open>MainFunc\<close> returns into a context
  without successor, and \<open>stop\<close>, which called the root fiber, does not resume.
\<close>

theorem root_fiber_end_never_returns:
  assumes "in_scheduler sched thr s" "sched \<noteq> thr"
  shows "\<exists>s'. MainFunc_end sched r s = Inr s' \<and> fs_run s' = Some sched \<and> fs_run s' \<noteq> Some thr"
  using assms
  by (cases r) (auto simp: in_scheduler_def MainFunc_end_def finish_cb_def set_state_def swapOut_def SetThis_def
      swapcontext_def Let_def)

theorem root_fiber_end_never_returns_witness:
  "\<exists>s s'. caller_thread = Inr s \<and> MainFunc_end 1 Returned s = Inr s' \<and> fs_run s' \<noteq> Some 0"
proof -
  obtain s where c: "caller_thread = Inr s" and i: "in_scheduler 1 0 s"
    by (simp add: caller_thread_def fiber_call_def new_fiber_def one_thread_def GetThis_def new_main_fiber_def
        SetThis_def set_state_def swapcontext_def Let_def in_scheduler_def)
  from root_fiber_end_never_returns [OF i, of Returned] c show ?thesis by auto
qed

end
