(* ===== verification/Schedulers.thy ===== *)
theory Schedulers
  imports Fibers
begin

text \<open>
  \<open>src/src/async/scheduler.{h,cpp}\<close>: the task queue, the loop every pool thread runs, and
  starting and stopping. A task holds a fiber or a callback and the thread it is bound to
  (-1 for any). What a fiber or callback does while it has control is an argument of the
  loop: the tasks it schedules and the state it is in when control comes back. The state
  of a fiber is kept in \<open>sc_state\<close>; switching itself is modelled in \<open>Fibers\<close>.

  The lemmas show which task the loop takes, that the other tasks keep their order, that
  none is lost, and that the counter of active threads returns to its value.
\<close>

section \<open>State\<close>

datatype sched_error = SchedAssert

record 'f task =
  tk_fiber :: "nat option"
  tk_cb :: "'f option"
  tk_thread :: int

record 'f sched =
  sc_queue :: "'f task list"
  sc_active :: nat
  sc_idle :: nat
  sc_stopping :: bool
  sc_autoStop :: bool
  sc_threadCount :: nat
  sc_threadIds :: "int list"
  sc_rootThread :: int
  sc_rootFiber :: "nat option"
  sc_state :: "nat \<Rightarrow> fiber_state"

text \<open>
  The constructors of \<open>FiberAndThread\<close>. Those that take a pointer swap the content out of
  the caller's variable, which the second component returns emptied.
\<close>

definition task_of_fiber :: "nat option \<Rightarrow> int \<Rightarrow> 'f task" where
  "task_of_fiber f thr = \<lparr>tk_fiber = f, tk_cb = None, tk_thread = thr\<rparr>"

definition task_of_cb :: "'f option \<Rightarrow> int \<Rightarrow> 'f task" where
  "task_of_cb cb thr = \<lparr>tk_fiber = None, tk_cb = cb, tk_thread = thr\<rparr>"

definition task_swap_fiber :: "nat option \<Rightarrow> int \<Rightarrow> 'f task \<times> nat option" where
  "task_swap_fiber f thr = (task_of_fiber f thr, None)"

definition task_swap_cb :: "'f option \<Rightarrow> int \<Rightarrow> 'f task \<times> 'f option" where
  "task_swap_cb cb thr = (task_of_cb cb thr, None)"

text \<open>
  The constructor with \<open>use_caller\<close>: \<open>tid\<close> is the calling thread, \<open>root\<close> the address of the
  new root fiber, \<open>other\<close> whether the thread has a scheduler already.
\<close>

definition new_Scheduler ::
  "nat \<Rightarrow> bool \<Rightarrow> int \<Rightarrow> nat \<Rightarrow> bool \<Rightarrow> (nat \<Rightarrow> fiber_state) \<Rightarrow> sched_error + 'f sched" where
  "new_Scheduler threads use_caller tid root other st =
     (if threads = 0 then Inl SchedAssert
      else if use_caller \<and> other then Inl SchedAssert
      else Inr \<lparr>sc_queue = [], sc_active = 0, sc_idle = 0, sc_stopping = True, sc_autoStop = False,
             sc_threadCount = (if use_caller then threads - 1 else threads),
             sc_threadIds = (if use_caller then [tid] else []),
             sc_rootThread = (if use_caller then tid else - 1),
             sc_rootFiber = (if use_caller then Some root else None),
             sc_state = (if use_caller then st(root := F_INIT) else st)\<rparr>)"

section \<open>Scheduling\<close>

definition scheduleNoLock :: "'f task \<Rightarrow> 'f sched \<Rightarrow> bool \<times> 'f sched" where
  "scheduleNoLock ft s =
     (sc_queue s = [],
      if tk_fiber ft \<noteq> None \<or> tk_cb ft \<noteq> None then s\<lparr>sc_queue := sc_queue s @ [ft]\<rparr> else s)"

text \<open>The flag says whether \<open>tickle\<close> is called once the lock is released.\<close>

definition schedule :: "'f task \<Rightarrow> 'f sched \<Rightarrow> bool \<times> 'f sched" where
  "schedule ft s = scheduleNoLock ft s"

fun schedule_range_loop :: "'f task list \<Rightarrow> bool \<Rightarrow> 'f sched \<Rightarrow> bool \<times> 'f sched" where
  "schedule_range_loop [] need_tickle s = (need_tickle, s)"
| "schedule_range_loop (ft # fts) need_tickle s =
     (let (b, s') = scheduleNoLock ft s in schedule_range_loop fts (b \<or> need_tickle) s')"

text \<open>The batch version for callbacks: each element is swapped out of the caller's range.\<close>

definition schedule_range :: "'f option list \<Rightarrow> 'f sched \<Rightarrow> bool \<times> 'f sched" where
  "schedule_range cbs s = schedule_range_loop (map (\<lambda>cb. fst (task_swap_cb cb (- 1))) cbs) False s"

definition stopping :: "'f sched \<Rightarrow> bool" where
  "stopping s \<longleftrightarrow> sc_autoStop s \<and> sc_stopping s \<and> sc_queue s = [] \<and> sc_active s = 0"

definition start :: "int list \<Rightarrow> 'f sched \<Rightarrow> 'f sched" where
  "start ids s =
     (if \<not> sc_stopping s then s
      else s\<lparr>sc_stopping := False, sc_threadIds := sc_threadIds s @ take (sc_threadCount s) ids\<rparr>)"

text \<open>
  \<open>stop\<close> up to the wait for the threads; \<open>is_this\<close> says whether the calling thread's
  scheduler is this one. The result says whether it returned early, and how often it tickled.
\<close>

definition stop :: "bool \<Rightarrow> 'f sched \<Rightarrow> sched_error + bool \<times> nat \<times> 'f sched" where
  "stop is_this s =
     (let s1 = s\<lparr>sc_autoStop := True\<rparr>;
          only_root = (case sc_rootFiber s of
              None \<Rightarrow> False
            | Some r \<Rightarrow> sc_threadCount s = 0 \<and> (sc_state s r = F_TERM \<or> sc_state s r = F_INIT));
          s2 = (if only_root then s1\<lparr>sc_stopping := True\<rparr> else s1)
      in if only_root \<and> stopping s2 then Inr (True, 0, s2)
         else if (sc_rootThread s \<noteq> - 1) \<noteq> is_this then Inl SchedAssert
         else Inr (False, sc_threadCount s + (if sc_rootFiber s \<noteq> None then 1 else 0), s2\<lparr>sc_stopping := True\<rparr>))"

section \<open>The loop of a thread\<close>

text \<open>
  The scan of the queue: tasks of other threads are skipped and remembered in \<open>tickle_me\<close>,
  fibers that are executing are skipped, the first task left is taken.
\<close>

fun pick :: "int \<Rightarrow> (nat \<Rightarrow> fiber_state) \<Rightarrow> 'f task list \<Rightarrow> sched_error + bool \<times> 'f task option \<times> 'f task list" where
  "pick tid st [] = Inr (False, None, [])"
| "pick tid st (t # ts) =
     (if tk_thread t \<noteq> - 1 \<and> tk_thread t \<noteq> tid then
        bind_res (pick tid st ts) (\<lambda>(_, r, rest). Inr (True, r, t # rest))
      else if tk_fiber t = None \<and> tk_cb t = None then Inl SchedAssert
      else if (case tk_fiber t of None \<Rightarrow> False | Some f \<Rightarrow> st f = F_EXEC) then
        bind_res (pick tid st ts) (\<lambda>(b, r, rest). Inr (b, r, t # rest))
      else Inr (False, Some t, ts))"

datatype 'f work = WFiber nat | WCb 'f | WIdle | WNone

datatype loop_end = Again | LeaveLoop

text \<open>
  \<open>swapIn\<close> as the scheduler sees it: the fiber must not be executing; when control comes
  back it has scheduled some tasks and is in some state.
\<close>

definition swap_in :: "nat \<Rightarrow> 'f task list \<times> fiber_state \<Rightarrow> 'f sched \<Rightarrow> sched_error + 'f sched" where
  "swap_in f beh s =
     (if sc_state s f = F_EXEC then Inl SchedAssert
      else let s' = snd (schedule_range_loop (fst beh) False s)
           in Inr (s'\<lparr>sc_state := (sc_state s')(f := snd beh)\<rparr>))"

definition set_fiber_state :: "nat \<Rightarrow> fiber_state \<Rightarrow> 'f sched \<Rightarrow> 'f sched" where
  "set_fiber_state f st s = s\<lparr>sc_state := (sc_state s)(f := st)\<rparr>"

text \<open>\<open>cb_fiber->reset(cb)\<close> or a new fiber at address \<open>na\<close>\<close>

definition cb_fiber_for :: "nat option \<Rightarrow> nat \<Rightarrow> 'f sched \<Rightarrow> sched_error + nat \<times> 'f sched" where
  "cb_fiber_for cbf na s =
     (case cbf of
        Some f \<Rightarrow> if sc_state s f \<in> {F_TERM, F_INIT, F_EXCEPT} then Inr (f, set_fiber_state f F_INIT s)
                  else Inl SchedAssert
      | None \<Rightarrow> Inr (na, set_fiber_state na F_INIT s))"

text \<open>
  One round of the loop of \<open>run\<close>: \<open>tid\<close> is the thread, \<open>idle\<close> its idle fiber, \<open>na\<close> the
  address of a new callback fiber, \<open>beh\<close> what the fibers and callbacks do. The result names
  what was run.
\<close>

definition run_round ::
  "int \<Rightarrow> nat \<Rightarrow> nat \<Rightarrow> ('f work \<Rightarrow> 'f sched \<Rightarrow> 'f task list \<times> fiber_state) \<Rightarrow> nat option \<Rightarrow> 'f sched \<Rightarrow>
   sched_error + 'f work \<times> loop_end \<times> nat option \<times> 'f sched" where
  "run_round tid idle na beh cbf s =
     bind_res (pick tid (sc_state s) (sc_queue s)) (\<lambda>(tickle_me, ft, rest).
       case ft of
         None \<Rightarrow>
           if sc_state s idle = F_TERM then Inr (WNone, LeaveLoop, cbf, s)
           else bind_res (swap_in idle (beh WIdle s) (s\<lparr>sc_idle := sc_idle s + 1\<rparr>)) (\<lambda>s1.
             let s2 = s1\<lparr>sc_idle := sc_idle s1 - 1\<rparr>
             in Inr (WIdle, Again, cbf,
                  if sc_state s2 idle \<noteq> F_TERM \<and> sc_state s2 idle \<noteq> F_EXCEPT
                  then set_fiber_state idle F_HOLD s2 else s2))
       | Some t \<Rightarrow>
           let s1 = s\<lparr>sc_queue := rest, sc_active := sc_active s + 1\<rparr>
           in if (case tk_fiber t of None \<Rightarrow> False
                  | Some f \<Rightarrow> sc_state s f \<noteq> F_TERM \<and> sc_state s f \<noteq> F_EXCEPT) then
                let f = the (tk_fiber t)
                in bind_res (swap_in f (beh (WFiber f) s1) s1) (\<lambda>s2.
                  let s3 = s2\<lparr>sc_active := sc_active s2 - 1\<rparr>
                  in Inr (WFiber f, Again, cbf,
                       if sc_state s3 f = F_READY then snd (schedule (task_of_fiber (Some f) (- 1)) s3)
                       else if sc_state s3 f \<noteq> F_TERM \<and> sc_state s3 f \<noteq> F_EXCEPT
                       then set_fiber_state f F_HOLD s3 else s3))
              else case tk_cb t of
                Some cb \<Rightarrow>
                  bind_res (cb_fiber_for cbf na s1) (\<lambda>(f, s2).
                  bind_res (swap_in f (beh (WCb cb) s2) s2) (\<lambda>s3.
                  let s4 = s3\<lparr>sc_active := sc_active s3 - 1\<rparr>
                  in if sc_state s4 f = F_READY
                     then Inr (WCb cb, Again, None, snd (schedule (task_of_fiber (Some f) (- 1)) s4))
                     else if sc_state s4 f = F_EXCEPT \<or> sc_state s4 f = F_TERM
                     then Inr (WCb cb, Again, Some f, set_fiber_state f F_INIT s4)
                     else Inr (WCb cb, Again, None, set_fiber_state f F_HOLD s4)))
              | None \<Rightarrow> Inr (WNone, Again, cbf, s1\<lparr>sc_active := sc_active s1 - 1\<rparr>))"

text \<open>\<open>Scheduler::idle\<close> until it gives control back: it ends, or yields and stays executing.\<close>

definition idle_beh :: "'f sched \<Rightarrow> 'f task list \<times> fiber_state" where
  "idle_beh s = ([], if stopping s then F_TERM else F_EXEC)"

text \<open>Rounds of one thread until it leaves the loop or the fuel is used up; the work done, in order.\<close>

fun run_rounds ::
  "nat \<Rightarrow> int \<Rightarrow> nat \<Rightarrow> nat \<Rightarrow> ('f work \<Rightarrow> 'f sched \<Rightarrow> 'f task list \<times> fiber_state) \<Rightarrow> nat option \<Rightarrow> 'f sched \<Rightarrow>
   sched_error + 'f work list \<times> nat option \<times> 'f sched" where
  "run_rounds 0 tid idle na beh cbf s = Inr ([], cbf, s)"
| "run_rounds (Suc n) tid idle na beh cbf s =
     bind_res (run_round tid idle na beh cbf s) (\<lambda>(w, e, cbf', s').
       if e = LeaveLoop then Inr ([w], cbf', s')
       else bind_res (run_rounds n tid idle na beh cbf' s') (\<lambda>(ws, cbf'', s''). Inr (w # ws, cbf'', s'')))"

section \<open>Scheduling appends\<close>

definition task_ok :: "'f task \<Rightarrow> bool" where
  "task_ok t \<longleftrightarrow> tk_fiber t \<noteq> None \<or> tk_cb t \<noteq> None"

definition queue_ok :: "'f sched \<Rightarrow> bool" where
  "queue_ok s \<longleftrightarrow> (\<forall>t \<in> set (sc_queue s). task_ok t)"

lemma scheduleNoLock_queue [simp]:
  "sc_queue (snd (scheduleNoLock t s)) = sc_queue s @ (if task_ok t then [t] else [])"
  "sc_active (snd (scheduleNoLock t s)) = sc_active s"
  "sc_idle (snd (scheduleNoLock t s)) = sc_idle s"
  "sc_state (snd (scheduleNoLock t s)) = sc_state s"
  by (auto simp: scheduleNoLock_def task_ok_def)

lemma schedule_range_loop_queue [simp]:
  "sc_queue (snd (schedule_range_loop ts b s)) = sc_queue s @ filter task_ok ts"
  "sc_active (snd (schedule_range_loop ts b s)) = sc_active s"
  "sc_idle (snd (schedule_range_loop ts b s)) = sc_idle s"
  "sc_state (snd (schedule_range_loop ts b s)) = sc_state s"
  by (induction ts arbitrary: b s) (simp_all add: split_beta Let_def)

lemma swap_in_queue:
  assumes "swap_in f beh s = Inr s'"
  shows "sc_queue s' = sc_queue s @ filter task_ok (fst beh)" "sc_active s' = sc_active s"
    "sc_idle s' = sc_idle s" "sc_state s' = (sc_state s)(f := snd beh)"
  using assms by (auto simp: swap_in_def Let_def split: if_splits)

section \<open>Which task is taken\<close>

definition eligible :: "int \<Rightarrow> (nat \<Rightarrow> fiber_state) \<Rightarrow> 'f task \<Rightarrow> bool" where
  "eligible tid st t \<longleftrightarrow> (tk_thread t = - 1 \<or> tk_thread t = tid) \<and>
     (case tk_fiber t of None \<Rightarrow> True | Some f \<Rightarrow> st f \<noteq> F_EXEC)"

lemma pick_correct:
  assumes "\<forall>t \<in> set q. task_ok t"
  shows "\<exists>b r rest. pick tid st q = Inr (b, r, rest) \<and>
     (case r of
        None \<Rightarrow> rest = q \<and> (\<forall>t \<in> set q. \<not> eligible tid st t)
      | Some t \<Rightarrow> \<exists>before after. q = before @ t # after \<and> rest = before @ after \<and> eligible tid st t \<and>
          (\<forall>u \<in> set before. \<not> eligible tid st u)) \<and>
     (r = None \<longrightarrow> b = (\<exists>t \<in> set q. tk_thread t \<noteq> - 1 \<and> tk_thread t \<noteq> tid))"
  using assms
proof (induction q)
  case Nil
  then show ?case by (auto intro!: exI [of _ False])
next
  case (Cons t q)
  then obtain b r rest where IH: "pick tid st q = Inr (b, r, rest)"
    "case r of None \<Rightarrow> rest = q \<and> (\<forall>t \<in> set q. \<not> eligible tid st t)
      | Some t \<Rightarrow> \<exists>before after. q = before @ t # after \<and> rest = before @ after \<and> eligible tid st t \<and>
          (\<forall>u \<in> set before. \<not> eligible tid st u)"
    "r = None \<longrightarrow> b = (\<exists>t \<in> set q. tk_thread t \<noteq> - 1 \<and> tk_thread t \<noteq> tid)" by auto
  have "task_ok t" using Cons.prems by simp
  show ?case
  proof (cases "eligible tid st t")
    case True
    then have "pick tid st (t # q) = Inr (False, Some t, q)"
      using \<open>task_ok t\<close> by (auto simp: eligible_def task_ok_def split: option.splits)
    moreover have "\<exists>before after. t # q = before @ t # after \<and> q = before @ after \<and> eligible tid st t \<and>
          (\<forall>u \<in> set before. \<not> eligible tid st u)"
      by (rule exI [of _ "[]"], rule exI [of _ q]) (simp add: True)
    ultimately show ?thesis by (intro exI [of _ False]) (simp del: pick.simps)
  next
    case False
    have "pick tid st (t # q) = Inr (tk_thread t \<noteq> - 1 \<and> tk_thread t \<noteq> tid \<or> b, r, t # rest)"
      using False IH(1) \<open>task_ok t\<close> by (auto simp: eligible_def task_ok_def split: option.splits)
    moreover have "case r of None \<Rightarrow> t # rest = t # q \<and> (\<forall>u \<in> set (t # q). \<not> eligible tid st u)
      | Some t' \<Rightarrow> \<exists>before after. t # q = before @ t' # after \<and> t # rest = before @ after \<and> eligible tid st t' \<and>
          (\<forall>u \<in> set before. \<not> eligible tid st u)"
    proof (cases r)
      case None
      then show ?thesis using IH(2) False by simp
    next
      case (Some t')
      then obtain before after where ba: "q = before @ t' # after" "rest = before @ after" "eligible tid st t'"
        "\<forall>u \<in> set before. \<not> eligible tid st u" using IH(2) by auto
      show ?thesis unfolding Some option.case
        by (rule exI [of _ "t # before"], rule exI [of _ after]) (use ba False in simp)
    qed
    ultimately show ?thesis using IH(3) by auto
  qed
qed

section \<open>A round\<close>

lemma set_fiber_state_frame [simp]:
  "sc_queue (set_fiber_state f st s) = sc_queue s" "sc_active (set_fiber_state f st s) = sc_active s"
  "sc_idle (set_fiber_state f st s) = sc_idle s" "sc_state (set_fiber_state f st s) = (sc_state s)(f := st)"
  by (simp_all add: set_fiber_state_def)

lemma schedule_fiber_queue [simp]:
  "sc_queue (snd (schedule (task_of_fiber (Some f) thr) s)) = sc_queue s @ [task_of_fiber (Some f) thr]"
  "sc_active (snd (schedule t s)) = sc_active s" "sc_idle (snd (schedule t s)) = sc_idle s"
  by (simp_all add: schedule_def task_ok_def task_of_fiber_def)

text \<open>
  What a round does to the queue: the task taken is the first one this thread may run, the
  others stay in order, what the task scheduled follows, and a task that yielded
  ready comes last.
\<close>

definition took :: "int \<Rightarrow> 'f sched \<Rightarrow> 'f task \<Rightarrow> 'f task list \<Rightarrow> bool" where
  "took tid s t rest \<longleftrightarrow> (\<exists>before after. sc_queue s = before @ t # after \<and> rest = before @ after \<and>
     eligible tid (sc_state s) t \<and> (\<forall>u \<in> set before. \<not> eligible tid (sc_state s) u))"

definition back_in_queue :: "nat \<Rightarrow> fiber_state \<Rightarrow> 'f task list" where
  "back_in_queue f st = (if st = F_READY then [task_of_fiber (Some f) (- 1)] else [])"

lemma run_round_None:
  assumes "pick tid (sc_state s) (sc_queue s) = Inr (b, None, rest)"
    "run_round tid idle na beh cbf s = Inr (w, e, cbf', s')"
  shows "(if e = LeaveLoop then w = WNone \<and> s' = s \<and> sc_state s idle = F_TERM
     else w = WIdle \<and> sc_state s idle \<noteq> F_TERM \<and> sc_queue s' = sc_queue s @ filter task_ok (fst (beh WIdle s)) \<and>
       sc_active s' = sc_active s \<and> sc_idle s' = sc_idle s)"
  using assms
  by (auto simp: run_round_def bind_res_eq_Inr Let_def swap_in_queue split: if_splits)

lemma run_round_fiber:
  assumes "pick tid (sc_state s) (sc_queue s) = Inr (b, Some t, rest)" "tk_fiber t = Some f"
    "sc_state s f \<notin> {F_TERM, F_EXCEPT}"
    "run_round tid idle na beh cbf s = Inr (w, e, cbf', s')"
  shows "w = WFiber f \<and> e = Again \<and> sc_active s' = sc_active s \<and> sc_idle s' = sc_idle s \<and>
     (\<exists>s1. sc_queue s1 = rest \<and> sc_queue s' = rest @ filter task_ok (fst (beh (WFiber f) s1))
        @ back_in_queue f (snd (beh (WFiber f) s1)))"
proof -
  let ?s1 = "s\<lparr>sc_queue := rest, sc_active := sc_active s + 1\<rparr>"
  obtain s2 where s2: "swap_in f (beh (WFiber f) ?s1) ?s1 = Inr s2"
    "w = WFiber f" "e = Again"
    "s' = (let s3 = s2\<lparr>sc_active := sc_active s2 - 1\<rparr> in
       if sc_state s3 f = F_READY then snd (schedule (task_of_fiber (Some f) (- 1)) s3)
       else if sc_state s3 f \<noteq> F_TERM \<and> sc_state s3 f \<noteq> F_EXCEPT then set_fiber_state f F_HOLD s3 else s3)"
    using assms by (auto simp: run_round_def bind_res_eq_Inr Let_def)
  note q = swap_in_queue [OF s2(1)]
  show ?thesis using s2(2-4) q
    by (intro conjI exI [of _ ?s1]) (auto simp: back_in_queue_def Let_def)
qed

lemma cb_fiber_for_frame:
  assumes "cb_fiber_for cbf na s = Inr (f, s')"
  shows "sc_queue s' = sc_queue s" "sc_active s' = sc_active s" "sc_idle s' = sc_idle s" "sc_state s' f = F_INIT"
  using assms by (auto simp: cb_fiber_for_def split: option.splits if_splits)

lemma run_round_cb:
  assumes "pick tid (sc_state s) (sc_queue s) = Inr (b, Some t, rest)"
    "case tk_fiber t of None \<Rightarrow> True | Some f \<Rightarrow> sc_state s f \<in> {F_TERM, F_EXCEPT}" "tk_cb t = Some cb"
    "run_round tid idle na beh cbf s = Inr (w, e, cbf', s')"
  shows "w = WCb cb \<and> e = Again \<and> sc_active s' = sc_active s \<and> sc_idle s' = sc_idle s \<and>
     (\<exists>f s1. sc_queue s1 = rest \<and> sc_queue s' = rest @ filter task_ok (fst (beh (WCb cb) s1))
        @ back_in_queue f (snd (beh (WCb cb) s1)))"
proof -
  let ?s1 = "s\<lparr>sc_queue := rest, sc_active := sc_active s + 1\<rparr>"
  have c: "\<not> (case tk_fiber t of None \<Rightarrow> False | Some f \<Rightarrow> sc_state s f \<noteq> F_TERM \<and> sc_state s f \<noteq> F_EXCEPT)"
    using assms(2) by (auto split: option.splits)
  obtain f s2 s3 where s: "cb_fiber_for cbf na ?s1 = Inr (f, s2)" "swap_in f (beh (WCb cb) s2) s2 = Inr s3"
    and r: "(let s4 = s3\<lparr>sc_active := sc_active s3 - 1\<rparr>
       in if sc_state s4 f = F_READY
          then Inr (WCb cb, Again, None, snd (schedule (task_of_fiber (Some f) (- 1)) s4))
          else if sc_state s4 f = F_EXCEPT \<or> sc_state s4 f = F_TERM
          then Inr (WCb cb, Again, Some f, set_fiber_state f F_INIT s4)
          else Inr (WCb cb, Again, None, set_fiber_state f F_HOLD s4)) = (Inr (w, e, cbf', s') :: sched_error + _)"
    using assms(4) unfolding run_round_def assms(1) bind_res_Inr
    by (auto simp: c assms(3) bind_res_eq_Inr Let_def)
  note fr = cb_fiber_for_frame [OF s(1)] and q = swap_in_queue [OF s(2)]
  have w: "w = WCb cb" "e = Again" using r by (auto simp: Let_def split: if_splits)
  have a: "sc_active s' = sc_active s" "sc_idle s' = sc_idle s"
    using r q fr by (auto simp: Let_def split: if_splits)
  have "sc_queue s' = rest @ filter task_ok (fst (beh (WCb cb) s2)) @ back_in_queue f (snd (beh (WCb cb) s2))"
    using r q fr by (auto simp: Let_def back_in_queue_def split: if_splits)
  moreover have "sc_queue s2 = rest" using fr by simp
  ultimately show ?thesis using w a by blast
qed

lemma run_round_done:
  assumes "pick tid (sc_state s) (sc_queue s) = Inr (b, Some t, rest)"
    "case tk_fiber t of None \<Rightarrow> True | Some f \<Rightarrow> sc_state s f \<in> {F_TERM, F_EXCEPT}" "tk_cb t = None"
  shows "run_round tid idle na beh cbf s = Inr (WNone, Again, cbf, s\<lparr>sc_queue := rest\<rparr>)"
proof -
  have c: "\<not> (case tk_fiber t of None \<Rightarrow> False | Some f \<Rightarrow> sc_state s f \<noteq> F_TERM \<and> sc_state s f \<noteq> F_EXCEPT)"
    using assms(2) by (auto split: option.splits)
  show ?thesis unfolding run_round_def assms(1) bind_res_Inr by (simp add: c assms(3) Let_def)
qed

section \<open>Callbacks that run to completion\<close>

definition plain_cb :: "int \<Rightarrow> 'f \<Rightarrow> 'f task \<Rightarrow> bool" where
  "plain_cb tid cb t \<longleftrightarrow> tk_fiber t = None \<and> tk_cb t = Some cb \<and> (tk_thread t = - 1 \<or> tk_thread t = tid)"

definition cb_fiber_free :: "nat option \<Rightarrow> 'f sched \<Rightarrow> bool" where
  "cb_fiber_free cbf s \<longleftrightarrow> (case cbf of None \<Rightarrow> True | Some f \<Rightarrow> sc_state s f \<in> {F_TERM, F_INIT, F_EXCEPT})"

lemma run_rounds_callbacks:
  assumes "list_all2 (plain_cb tid) cbs (sc_queue s)" "cb_fiber_free cbf s"
    "\<And>cb s. beh (WCb cb) s = ([], F_TERM)"
  shows "\<exists>cbf' s'. run_rounds (length cbs) tid idle na beh cbf s = Inr (map WCb cbs, cbf', s') \<and>
     sc_queue s' = [] \<and> sc_active s' = sc_active s \<and> cb_fiber_free cbf' s'"
  using assms(1,2)
proof (induction cbs arbitrary: cbf s)
  case Nil
  then show ?case by simp
next
  case (Cons cb cbs)
  then obtain t ts where q: "sc_queue s = t # ts" "plain_cb tid cb t" "list_all2 (plain_cb tid) cbs ts"
    by (auto simp: list_all2_Cons1)
  define s1 where "s1 = s\<lparr>sc_queue := ts, sc_active := sc_active s + 1\<rparr>"
  have p: "pick tid (sc_state s) (sc_queue s) = Inr (False, Some t, ts)"
    using q(1,2) by (auto simp: plain_cb_def)
  obtain f s2 where f: "cb_fiber_for cbf na s1 = Inr (f, s2)"
    using Cons.prems(2) by (auto simp: cb_fiber_for_def cb_fiber_free_def s1_def split: option.splits)
  note fr = cb_fiber_for_frame [OF f]
  define s4 where "s4 = s2\<lparr>sc_active := sc_active s, sc_state := (sc_state s2)(f := F_INIT)\<rparr>"
  have "run_round tid idle na beh cbf s = Inr (WCb cb, Again, Some f, s4)"
    unfolding run_round_def p bind_res_Inr using q(2) f fr
    by (simp add: plain_cb_def assms(3) swap_in_def s1_def [symmetric] s4_def set_fiber_state_def Let_def)
       (simp add: s1_def set_fiber_state_def)
  moreover obtain cbf' s' where "run_rounds (length cbs) tid idle na beh (Some f) s4 = Inr (map WCb cbs, cbf', s')"
    "sc_queue s' = []" "sc_active s' = sc_active s4" "cb_fiber_free cbf' s'"
    using Cons.IH [of s4 "Some f"] q(3) fr by (auto simp: s4_def s1_def cb_fiber_free_def)
  ultimately show ?case by (simp add: s4_def)
qed

section \<open>A thread with nothing to do\<close>

text \<open>A thread that can run nothing of what is queued runs its idle fiber once and finds the scheduler as it was.\<close>

definition idle_holds :: "nat \<Rightarrow> 'f sched \<Rightarrow> 'f sched" where
  "idle_holds idle s = s\<lparr>sc_state := (sc_state s)(idle := F_HOLD)\<rparr>"

lemma pick_nothing:
  "\<forall>t \<in> set q. task_ok t \<and> \<not> eligible tid st t \<Longrightarrow> \<exists>b. pick tid st q = Inr (b, None, q)"
  using pick_correct [of q tid st] by (fastforce split: option.splits)

lemma idle_round:
  assumes "\<forall>t \<in> set (sc_queue s). task_ok t \<and> \<not> eligible tid (sc_state s) t" "sc_state s idle \<notin> {F_TERM, F_EXEC}"
    "beh WIdle s = idle_beh s" "\<not> stopping s"
  shows "run_round tid idle na beh cbf s = Inr (WIdle, Again, cbf, idle_holds idle s)"
proof -
  obtain b where p: "pick tid (sc_state s) (sc_queue s) = Inr (b, None, sc_queue s)" using pick_nothing [OF assms(1)] by blast
  show ?thesis using assms(2-4)
    by (simp add: run_round_def p swap_in_def idle_beh_def set_fiber_state_def idle_holds_def Let_def)
qed

lemma idle_rounds:
  assumes "\<forall>t \<in> set (sc_queue s). task_ok t \<and> \<not> eligible tid (sc_state s) t" "sc_state s idle \<notin> {F_TERM, F_EXEC}"
    "\<And>s. beh WIdle s = idle_beh s" "\<not> stopping s"
  shows "run_rounds n tid idle na beh cbf s = Inr (replicate n WIdle, cbf, if n = 0 then s else idle_holds idle s)"
  using assms(1,2,4)
proof (induction n arbitrary: s)
  case (Suc n)
  have e: "eligible tid (sc_state (idle_holds idle s)) t = eligible tid (sc_state s) t" for t
    using Suc.prems(2) by (auto simp: eligible_def idle_holds_def split: option.splits)
  have "run_rounds n tid idle na beh cbf (idle_holds idle s) =
      Inr (replicate n WIdle, cbf, if n = 0 then idle_holds idle s else idle_holds idle (idle_holds idle s))"
  proof (rule Suc.IH)
    show "\<forall>t \<in> set (sc_queue (idle_holds idle s)). task_ok t \<and> \<not> eligible tid (sc_state (idle_holds idle s)) t"
      using Suc.prems(1) unfolding e by (simp add: idle_holds_def)
    show "\<not> stopping (idle_holds idle s)" using Suc.prems(3) by (simp add: stopping_def idle_holds_def)
  qed (simp add: idle_holds_def)
  moreover have "idle_holds idle (idle_holds idle s) = idle_holds idle s" by (simp add: idle_holds_def)
  ultimately show ?case using idle_round [of s tid idle beh na cbf] Suc.prems assms(3) by simp
qed simp

lemma run_round_again:
  assumes "queue_ok s" "\<exists>t \<in> set (sc_queue s). eligible tid (sc_state s) t" "run_round tid idle na beh cbf s = Inr (w, e, c, s')"
  shows "e = Again \<and> w \<noteq> WIdle"
proof -
  obtain b r rest where p: "pick tid (sc_state s) (sc_queue s) = Inr (b, r, rest)"
    "case r of None \<Rightarrow> rest = sc_queue s \<and> (\<forall>t \<in> set (sc_queue s). \<not> eligible tid (sc_state s) t)
      | Some t \<Rightarrow> \<exists>before after. sc_queue s = before @ t # after \<and> rest = before @ after \<and> eligible tid (sc_state s) t \<and>
          (\<forall>u \<in> set before. \<not> eligible tid (sc_state s) u)"
    using pick_correct [of "sc_queue s" tid "sc_state s"] assms(1) unfolding queue_ok_def by blast
  then obtain t where r: "r = Some t" using assms(2) by (cases r) auto
  show ?thesis using assms(3) unfolding run_round_def p(1) r
    by (auto simp: bind_res_eq_Inr Let_def split: if_splits option.splits)
qed

section \<open>Properties\<close>

text \<open>
  C19. A round of the loop takes the first task of the queue that this thread may run and
  whose fiber is not executing; all other tasks keep their order, the tasks it schedules are
  appended, and it is appended itself if it yielded ready. The counters of active and idle
  threads come back to their values. The thread idles or leaves the loop only when there is
  no such task, and leaves it only when its idle fiber has ended.
\<close>

theorem run_round_spec:
  assumes "queue_ok s" "run_round tid idle na beh cbf s = Inr (w, e, cbf', s')"
  shows "sc_active s' = sc_active s \<and> sc_idle s' = sc_idle s \<and>
     (case w of
        WIdle \<Rightarrow> e = Again \<and> (\<forall>t \<in> set (sc_queue s). \<not> eligible tid (sc_state s) t) \<and>
          sc_queue s' = sc_queue s @ filter task_ok (fst (beh WIdle s))
      | WNone \<Rightarrow> (if e = LeaveLoop
          then s' = s \<and> sc_state s idle = F_TERM \<and> (\<forall>t \<in> set (sc_queue s). \<not> eligible tid (sc_state s) t)
          else \<exists>t f. took tid s t (sc_queue s') \<and> tk_cb t = None \<and> tk_fiber t = Some f \<and> sc_state s f \<in> {F_TERM, F_EXCEPT})
      | _ \<Rightarrow> e = Again \<and> (\<exists>t rest f s1. took tid s t rest \<and> (w = WFiber f \<and> tk_fiber t = Some f \<or> (\<exists>cb. w = WCb cb \<and> tk_cb t = Some cb)) \<and>
          sc_queue s' = rest @ filter task_ok (fst (beh w s1)) @ back_in_queue f (snd (beh w s1))))"
proof -
  obtain b r rest where p: "pick tid (sc_state s) (sc_queue s) = Inr (b, r, rest)"
    and r: "case r of None \<Rightarrow> rest = sc_queue s \<and> (\<forall>t \<in> set (sc_queue s). \<not> eligible tid (sc_state s) t)
      | Some t \<Rightarrow> took tid s t rest"
    using pick_correct [of "sc_queue s" tid "sc_state s"] assms(1) unfolding took_def queue_ok_def by blast
  show ?thesis
  proof (cases r)
    case None
    from run_round_None [OF p [unfolded None] assms(2)] r None show ?thesis by (cases e) auto
  next
    case (Some t)
    then have t: "took tid s t rest" and p': "pick tid (sc_state s) (sc_queue s) = Inr (b, Some t, rest)"
      using r p by simp_all
    have "task_ok t" using t assms(1) by (auto simp: took_def queue_ok_def)
    consider f where "tk_fiber t = Some f" "sc_state s f \<notin> {F_TERM, F_EXCEPT}"
      | "case tk_fiber t of None \<Rightarrow> True | Some f \<Rightarrow> sc_state s f \<in> {F_TERM, F_EXCEPT}"
      by (cases "tk_fiber t") auto
    then show ?thesis
    proof cases
      case 1
      from run_round_fiber [OF p' 1 assms(2)] t 1(1) show ?thesis by auto
    next
      case 2
      show ?thesis
      proof (cases "tk_cb t")
        case None
        then obtain f where "tk_fiber t = Some f" using \<open>task_ok t\<close> by (auto simp: task_ok_def)
        with run_round_done [OF p' 2 None] assms(2) t 2 None show ?thesis by auto
      next
        case (Some cb)
        from run_round_cb [OF p' 2 Some assms(2)] t Some show ?thesis by auto
      qed
    qed
  qed
qed

text \<open>A scheduler of one pool thread with two callbacks in its queue.\<close>

definition two_callbacks :: "nat sched" where
  "two_callbacks = snd (schedule_range [Some 7, Some 8]
     \<lparr>sc_queue = [], sc_active = 0, sc_idle = 0, sc_stopping = False, sc_autoStop = False, sc_threadCount = 1,
      sc_threadIds = [1], sc_rootThread = - 1, sc_rootFiber = None, sc_state = (\<lambda>_. F_INIT)\<rparr>)"

lemma two_callbacks_queue: "sc_queue two_callbacks = [task_of_cb (Some 7) (- 1), task_of_cb (Some 8) (- 1)]"
  by (simp add: two_callbacks_def schedule_range_def task_swap_cb_def task_ok_def task_of_cb_def
      del: schedule_range_loop.simps)

theorem run_round_spec_witness:
  "\<exists>w e c s'. run_round 1 0 5 (\<lambda>_ _. ([], F_TERM)) None two_callbacks = Inr (w, e, c, s') \<and> sc_active s' = 0"
proof -
  have q: "queue_ok two_callbacks"
    by (simp add: queue_ok_def two_callbacks_queue task_ok_def task_of_cb_def)
  obtain w e c s' where r: "run_round 1 0 5 (\<lambda>_ _. ([], F_TERM)) None two_callbacks = Inr (w, e, c, s')"
    by (simp add: run_round_def two_callbacks_queue task_of_cb_def cb_fiber_for_def swap_in_def Let_def)
  have "sc_active two_callbacks = 0"
    by (simp add: two_callbacks_def schedule_range_def del: schedule_range_loop.simps)
  then show ?thesis using run_round_spec [OF q r] r by auto
qed

text \<open>
  C30. Callbacks are run in the order in which they were scheduled: with a queue of \<open>n\<close>
  callbacks this thread may run, none of which yields, \<open>n\<close> rounds run exactly these
  callbacks in this order and leave the queue empty, recycling one fiber.
\<close>

theorem callbacks_run_in_order:
  assumes "list_all2 (plain_cb tid) cbs (sc_queue s)" "cb_fiber_free cbf s"
    "\<And>cb s. beh (WCb cb) s = ([], F_TERM)"
  shows "\<exists>cbf' s'. run_rounds (length cbs) tid idle na beh cbf s = Inr (map WCb cbs, cbf', s') \<and>
     sc_queue s' = [] \<and> sc_active s' = sc_active s"
  using run_rounds_callbacks [OF assms(1,2), of beh idle na] assms(3) by blast

theorem callbacks_run_in_order_witness:
  "\<exists>cbf' s'. run_rounds 2 1 0 5 (\<lambda>_ _. ([], F_TERM)) None two_callbacks = Inr ([WCb 7, WCb 8], cbf', s') \<and>
     sc_queue s' = []"
proof -
  have "list_all2 (plain_cb 1) [7, 8] (sc_queue two_callbacks)"
    by (simp add: two_callbacks_queue plain_cb_def task_of_cb_def)
  from callbacks_run_in_order [OF this, of None "\<lambda>_ _. ([], F_TERM)" 0 5] show ?thesis
    by (auto simp: cb_fiber_free_def numeral_2_eq_2)
qed

text \<open>
  C31. After \<open>stop\<close>, a thread that has no task to run leaves the loop in two rounds exactly when the queue is empty and
  no thread is active: the idle fiber ends, then the loop does. While a task of another thread is
  queued or a thread is active, the thread runs its idle fiber in every round, however many, and nothing
  of the queue is lost; and in a round that finds a task it may run, it runs something and stays in the loop.
\<close>

theorem stop_drains:
  assumes "queue_ok s" "sc_state s idle \<notin> {F_TERM, F_EXEC}" "\<And>s. beh WIdle s = idle_beh s" "sc_autoStop s" "sc_stopping s"
  shows "if \<exists>t \<in> set (sc_queue s). eligible tid (sc_state s) t
     then \<forall>w e c s'. run_round tid idle na beh cbf s = Inr (w, e, c, s') \<longrightarrow> e = Again \<and> w \<noteq> WIdle
     else if sc_queue s = [] \<and> sc_active s = 0
     then \<forall>n. \<exists>c s'. run_rounds (n + 2) tid idle na beh cbf s = Inr ([WIdle, WNone], c, s')
     else \<forall>n. \<exists>c s'. run_rounds n tid idle na beh cbf s = Inr (replicate n WIdle, c, s') \<and> sc_queue s' = sc_queue s
       \<and> sc_active s' = sc_active s"
proof (cases "\<exists>t \<in> set (sc_queue s). eligible tid (sc_state s) t")
  case True
  then show ?thesis using run_round_again [OF assms(1) True] by auto
next
  case none: False
  show ?thesis
  proof (cases "sc_queue s = [] \<and> sc_active s = 0")
    case True
    then have "run_rounds (Suc (Suc n)) tid idle na beh cbf s = Inr ([WIdle, WNone], cbf, s\<lparr>sc_state := (sc_state s)(idle := F_TERM)\<rparr>)" for n
      using assms(2-5) by (simp add: run_round_def swap_in_def idle_beh_def stopping_def Let_def)
    then show ?thesis using True by simp
  next
    case False
    then have "\<not> stopping s" by (auto simp: stopping_def)
    moreover have "\<forall>t \<in> set (sc_queue s). task_ok t \<and> \<not> eligible tid (sc_state s) t" using none assms(1) by (auto simp: queue_ok_def)
    ultimately have "run_rounds n tid idle na beh cbf s = Inr (replicate n WIdle, cbf, if n = 0 then s else idle_holds idle s)" for n
      using idle_rounds assms(2,3) by blast
    then show ?thesis using none False by (simp add: idle_holds_def)
  qed
qed

theorem stop_drains_witness:
  "(\<exists>c s'. run_rounds 2 1 0 5 (\<lambda>w. idle_beh) None
     (two_callbacks\<lparr>sc_queue := [], sc_stopping := True, sc_autoStop := True\<rparr>) = Inr ([WIdle, WNone], c, s'))
   \<and> (\<exists>c s'. run_rounds 3 1 0 5 (\<lambda>w. idle_beh) None
     (two_callbacks\<lparr>sc_queue := [task_of_cb (Some 7) 2], sc_stopping := True, sc_autoStop := True\<rparr>) = Inr ([WIdle, WIdle, WIdle], c, s')
     \<and> sc_queue s' = [task_of_cb (Some 7) 2])"
proof -
  let ?u = "two_callbacks\<lparr>sc_queue := [], sc_stopping := True, sc_autoStop := True\<rparr>"
  let ?v = "two_callbacks\<lparr>sc_queue := [task_of_cb (Some 7) 2], sc_stopping := True, sc_autoStop := True\<rparr>"
  have z: "sc_active two_callbacks = 0" "sc_state two_callbacks 0 = F_INIT"
    by (simp_all add: two_callbacks_def schedule_range_def del: schedule_range_loop.simps)
  have "\<forall>n. \<exists>c s'. run_rounds (n + 2) 1 0 5 (\<lambda>w. idle_beh) None ?u = Inr ([WIdle, WNone], c, s')"
    using stop_drains [of ?u 0 "\<lambda>w. idle_beh" 1 5 None] z by (simp add: queue_ok_def del: run_rounds.simps)
  from this [rule_format, of 0] have 1: "\<exists>c s'. run_rounds 2 1 0 5 (\<lambda>w. idle_beh) None ?u = Inr ([WIdle, WNone], c, s')"
    by (simp add: numeral_2_eq_2 del: run_rounds.simps)
  have "\<forall>n. \<exists>c s'. run_rounds n 1 0 5 (\<lambda>w. idle_beh) None ?v = Inr (replicate n WIdle, c, s') \<and> sc_queue s' = sc_queue ?v
      \<and> sc_active s' = sc_active ?v"
    using stop_drains [of ?v 0 "\<lambda>w. idle_beh" 1 5 None] z
    by (simp add: queue_ok_def task_ok_def task_of_cb_def eligible_def del: run_rounds.simps)
  from this [rule_format, of 3] have 2: "\<exists>c s'. run_rounds 3 1 0 5 (\<lambda>w. idle_beh) None ?v = Inr ([WIdle, WIdle, WIdle], c, s')
      \<and> sc_queue s' = [task_of_cb (Some 7) 2]" by (auto simp: numeral_3_eq_3 simp del: run_rounds.simps)
  from 1 2 show ?thesis by blast
qed

end
