(* ===== verification/Timers.thy ===== *)
theory Timers
  imports Std_Containers
begin

text \<open>
  \<open>src/src/async/timer.{h,cpp}\<close>: timers and the timer manager. A timer is an object with an
  address; \<open>m_heap\<close> holds the objects and \<open>m_timers\<close> the addresses in the order of the
  set, whose comparator reads \<open>m_next\<close> through the address. Times are 64 bit words and wrap
  as in C++. \<open>GetCurrentMS()\<close> and the address of a new object are arguments.

  The lemmas show that the set stays ordered although its keys are mutable, that every
  timer with a callback is in the set (so that the unchecked \<open>erase(find(...))\<close> of \<open>cancel\<close>
  never sees \<open>end()\<close>), and what expires when.
\<close>

section \<open>State\<close>

datatype timer_error = EraseEnd

text \<open>A callback is a function or \<open>std::bind(&OnTimer, weak_cond, cb)\<close>.\<close>

datatype 'f callback = Direct 'f | Bound nat 'f

record 'f timer =
  m_recurring :: bool
  m_ms :: u64
  m_next :: u64
  m_cb :: "'f callback option"

record 'f timer_manager =
  m_heap :: "nat \<Rightarrow> 'f timer"
  m_timers :: "nat list"
  m_tickled :: bool
  m_previous :: u64

definition no_timer :: "'f timer" where
  "no_timer = \<lparr>m_recurring = False, m_ms = 0, m_next = 0, m_cb = None\<rparr>"

definition new_TimerManager :: "u64 \<Rightarrow> 'f timer_manager" where
  "new_TimerManager now =
     \<lparr>m_heap = (\<lambda>_. no_timer), m_timers = [], m_tickled = False, m_previous = now\<rparr>"

definition Timer_at :: "u64 \<Rightarrow> 'f timer" where
  "Timer_at next_ms = \<lparr>m_recurring = False, m_ms = 0, m_next = next_ms, m_cb = None\<rparr>"

definition new_Timer :: "u64 \<Rightarrow> u64 \<Rightarrow> 'f callback option \<Rightarrow> bool \<Rightarrow> 'f timer" where
  "new_Timer now ms cb recurring =
     \<lparr>m_recurring = recurring, m_ms = ms, m_next = now + ms, m_cb = cb\<rparr>"

definition Comparator :: "(nat \<Rightarrow> 'f timer) \<Rightarrow> nat option \<Rightarrow> nat option \<Rightarrow> bool" where
  "Comparator h lhs rhs =
     (case (lhs, rhs) of
        (None, None) \<Rightarrow> False
      | (None, Some _) \<Rightarrow> True
      | (Some _, None) \<Rightarrow> False
      | (Some l, Some r) \<Rightarrow>
          if m_next (h l) < m_next (h r) then True
          else if m_next (h r) < m_next (h l) then False
          else l < r)"

definition before :: "(nat \<Rightarrow> 'f timer) \<Rightarrow> nat \<Rightarrow> nat \<Rightarrow> bool" where
  "before h a b = Comparator h (Some a) (Some b)"

section \<open>Operations of a timer\<close>

definition timer_cancel :: "nat \<Rightarrow> 'f timer_manager \<Rightarrow> timer_error + bool \<times> 'f timer_manager" where
  "timer_cancel a tm =
     (if m_cb (m_heap tm a) \<noteq> None then
        let h = (m_heap tm)(a := (m_heap tm a)\<lparr>m_cb := None\<rparr>)
        in case oset_find (before h) a (m_timers tm) of
             None \<Rightarrow> Inl EraseEnd
           | Some it \<Rightarrow> Inr (True, tm\<lparr>m_heap := h, m_timers := remove1 it (m_timers tm)\<rparr>)
      else Inr (False, tm))"

definition timer_refresh ::
  "u64 \<Rightarrow> nat \<Rightarrow> 'f timer_manager \<Rightarrow> timer_error + bool \<times> 'f timer_manager" where
  "timer_refresh now a tm =
     (if m_cb (m_heap tm a) = None then Inr (False, tm)
      else case oset_find (before (m_heap tm)) a (m_timers tm) of
        None \<Rightarrow> Inr (False, tm)
      | Some it \<Rightarrow>
          let rest = remove1 it (m_timers tm);
              h = (m_heap tm)(a := (m_heap tm a)\<lparr>m_next := now + m_ms (m_heap tm a)\<rparr>)
          in Inr (True, tm\<lparr>m_heap := h, m_timers := oset_insert (before h) a rest\<rparr>))"

text \<open>
  \<open>addTimer(timer, lock)\<close>: the result says whether \<open>onTimerInsertedAtFront\<close> is called after
  the lock is released.
\<close>

definition addTimer_locked :: "nat \<Rightarrow> 'f timer_manager \<Rightarrow> bool \<times> 'f timer_manager" where
  "addTimer_locked a tm =
     (let it = (case oset_find (before (m_heap tm)) a (m_timers tm) of None \<Rightarrow> a | Some y \<Rightarrow> y);
          timers = oset_insert (before (m_heap tm)) a (m_timers tm);
          at_front = (it = hd timers \<and> \<not> m_tickled tm)
      in (at_front, tm\<lparr>m_timers := timers, m_tickled := if at_front then True else m_tickled tm\<rparr>))"

definition timer_reset ::
  "u64 \<Rightarrow> u64 \<Rightarrow> bool \<Rightarrow> nat \<Rightarrow> 'f timer_manager \<Rightarrow> timer_error + bool \<times> bool \<times> 'f timer_manager" where
  "timer_reset now ms from_now a tm =
     (let t = m_heap tm a
      in if ms = m_ms t \<and> \<not> from_now then Inr (True, False, tm)
         else if m_cb t = None then Inr (False, False, tm)
         else case oset_find (before (m_heap tm)) a (m_timers tm) of
           None \<Rightarrow> Inr (False, False, tm)
         | Some it \<Rightarrow>
             let start = (if from_now then now else m_next t - m_ms t);
                 tm1 = tm\<lparr>m_timers := remove1 it (m_timers tm),
                          m_heap := (m_heap tm)(a := t\<lparr>m_ms := ms, m_next := start + ms\<rparr>)\<rparr>;
                 (front, tm2) = addTimer_locked a tm1
             in Inr (True, front, tm2))"

section \<open>Operations of the manager\<close>

definition addTimer ::
  "u64 \<Rightarrow> nat \<Rightarrow> u64 \<Rightarrow> 'f callback option \<Rightarrow> bool \<Rightarrow> 'f timer_manager \<Rightarrow> bool \<times> 'f timer_manager" where
  "addTimer now a ms cb recurring tm =
     addTimer_locked a (tm\<lparr>m_heap := (m_heap tm)(a := new_Timer now ms cb recurring)\<rparr>)"

text \<open>\<open>OnTimer\<close>: the functions that run when the callback of a condition timer is called.\<close>

definition OnTimer :: "(nat \<Rightarrow> bool) \<Rightarrow> nat \<Rightarrow> 'f \<Rightarrow> 'f list" where
  "OnTimer alive weak_cond cb = (if alive weak_cond then [cb] else [])"

definition call_cb :: "(nat \<Rightarrow> bool) \<Rightarrow> 'f callback \<Rightarrow> 'f list" where
  "call_cb alive cb = (case cb of Direct f \<Rightarrow> [f] | Bound w f \<Rightarrow> OnTimer alive w f)"

definition addConditionTimer ::
  "u64 \<Rightarrow> nat \<Rightarrow> u64 \<Rightarrow> 'f \<Rightarrow> nat \<Rightarrow> bool \<Rightarrow> 'f timer_manager \<Rightarrow> bool \<times> 'f timer_manager" where
  "addConditionTimer now a ms cb weak_cond recurring tm =
     addTimer now a ms (Some (Bound weak_cond cb)) recurring tm"

definition getNextTimer :: "u64 \<Rightarrow> 'f timer_manager \<Rightarrow> u64 \<times> 'f timer_manager" where
  "getNextTimer now tm =
     (let tm' = tm\<lparr>m_tickled := False\<rparr>
      in case m_timers tm of
           [] \<Rightarrow> (- 1, tm')
         | a # _ \<Rightarrow>
             if m_next (m_heap tm a) \<le> now then (0, tm')
             else (m_next (m_heap tm a) - now, tm'))"

definition hasTimer :: "'f timer_manager \<Rightarrow> bool" where
  "hasTimer tm \<longleftrightarrow> m_timers tm \<noteq> []"

definition detectClockRollover :: "u64 \<Rightarrow> 'f timer_manager \<Rightarrow> bool \<times> 'f timer_manager" where
  "detectClockRollover now tm = (now < m_previous tm - 60 * 60 * 1000, tm\<lparr>m_previous := now\<rparr>)"

fun expire_loop ::
  "u64 \<Rightarrow> nat list \<Rightarrow> 'f callback option list \<Rightarrow> 'f timer_manager \<Rightarrow> 'f callback option list \<times> 'f timer_manager" where
  "expire_loop now [] cbs tm = (cbs, tm)"
| "expire_loop now (a # as) cbs tm =
     (let t = m_heap tm a
      in if m_recurring t then
           let h = (m_heap tm)(a := t\<lparr>m_next := now + m_ms t\<rparr>)
           in expire_loop now as (cbs @ [m_cb t])
                (tm\<lparr>m_heap := h, m_timers := oset_insert (before h) a (m_timers tm)\<rparr>)
         else expire_loop now as (cbs @ [m_cb t])
                (tm\<lparr>m_heap := (m_heap tm)(a := t\<lparr>m_cb := None\<rparr>)\<rparr>))"

text \<open>\<open>na\<close> is the address of \<open>now_timer\<close>, which \<open>upper_bound\<close> compares with the timers.\<close>

definition listExpiredCb ::
  "u64 \<Rightarrow> nat \<Rightarrow> 'f callback option list \<Rightarrow> 'f timer_manager \<Rightarrow> 'f callback option list \<times> 'f timer_manager" where
  "listExpiredCb now na cbs tm =
     (case m_timers tm of
        [] \<Rightarrow> (cbs, tm)
      | first # _ \<Rightarrow>
          let (rollover, tm1) = detectClockRollover now tm
          in if \<not> rollover \<and> now < m_next (m_heap tm first) then (cbs, tm1)
             else
               let lt = before ((m_heap tm1)(na := Timer_at now));
                   expired = (if rollover then m_timers tm1 else oset_upto lt na (m_timers tm1));
                   rest = (if rollover then [] else oset_after lt na (m_timers tm1))
               in expire_loop now expired cbs (tm1\<lparr>m_timers := rest\<rparr>))"

section \<open>The order of the set\<close>

lemma before_eq:
  "before h a b \<longleftrightarrow> m_next (h a) < m_next (h b) \<or> m_next (h a) = m_next (h b) \<and> a < b"
  by (auto simp: before_def Comparator_def)

interpretation timer_order: strict_weak_order "before h" for h
  by unfold_locales (auto simp: before_eq)

lemma before_total: "a \<noteq> b \<Longrightarrow> before h a b \<or> before h b a"
  by (auto simp: before_eq)

definition timers_ok :: "'f timer_manager \<Rightarrow> bool" where
  "timers_ok tm \<longleftrightarrow> sorted_wrt (before (m_heap tm)) (m_timers tm) \<and>
     (\<forall>a. m_cb (m_heap tm a) \<noteq> None \<longrightarrow> a \<in> set (m_timers tm))"

lemma oset_find_before:
  assumes "sorted_wrt (before h) xs"
  shows "oset_find (before h) a xs = (if a \<in> set xs then Some a else None)"
proof (cases "oset_find (before h) a xs")
  case None
  then show ?thesis using timer_order.find_None [OF assms, of a] timer_order.irrefl [of h a] by auto
next
  case (Some y)
  then show ?thesis using timer_order.find_Some [OF Some] before_total [of y a h] by auto
qed

lemma set_oset_insert_before:
  "sorted_wrt (before h) xs \<Longrightarrow> set (oset_insert (before h) a xs) = insert a (set xs)"
  by (auto simp: timer_order.set_insert oset_find_before)

lemma sorted_before_update:
  "a \<notin> set xs \<Longrightarrow> sorted_wrt (before (h(a := t))) xs \<longleftrightarrow> sorted_wrt (before h) xs"
  by (intro iffI; elim sorted_wrt_mono_rel [rotated]) (auto simp: before_eq split: if_splits)

lemma sorted_before_remove1:
  assumes "sorted_wrt (before h) xs"
  shows "sorted_wrt (before h) (remove1 a xs)" "set (remove1 a xs) = set xs - {a}"
  using assms timer_order.distinct_sorted [OF assms]
  by (auto simp: distinct_remove1_removeAll removeAll_filter_not_eq sorted_wrt_filter)

lemma sorted_before_cong:
  "(\<And>a. m_next (h a) = m_next (h' a)) \<Longrightarrow> before h = before h'"
  by (intro ext) (simp add: before_eq)

section \<open>Every operation keeps the set in order\<close>

lemma timers_ok_new [inv_intros]: "timers_ok (new_TimerManager now)"
  by (simp add: timers_ok_def new_TimerManager_def no_timer_def)

lemma timer_cancel_ok:
  assumes "timers_ok tm"
  shows "\<exists>r tm'. timer_cancel a tm = Inr (r, tm') \<and> timers_ok tm' \<and>
     (r \<longleftrightarrow> m_cb (m_heap tm a) \<noteq> None) \<and> set (m_timers tm') = set (m_timers tm) - (if r then {a} else {})"
proof (cases "m_cb (m_heap tm a) = None")
  case True
  then show ?thesis using assms by (intro exI [of _ False]) (simp add: timer_cancel_def)
next
  case False
  let ?h = "(m_heap tm)(a := (m_heap tm a)\<lparr>m_cb := None\<rparr>)"
  have eq: "before ?h = before (m_heap tm)" by (rule sorted_before_cong) simp
  from assms False have s: "sorted_wrt (before (m_heap tm)) (m_timers tm)" "a \<in> set (m_timers tm)"
    by (auto simp: timers_ok_def)
  have f: "oset_find (before (m_heap tm)) a (m_timers tm) = Some a" using s by (simp add: oset_find_before)
  have r: "timer_cancel a tm = Inr (True, tm\<lparr>m_heap := ?h, m_timers := remove1 a (m_timers tm)\<rparr>)"
    unfolding timer_cancel_def Let_def eq using False f by simp
  have "timers_ok (tm\<lparr>m_heap := ?h, m_timers := remove1 a (m_timers tm)\<rparr>)"
    using assms sorted_before_remove1 [OF s(1), of a] by (simp add: timers_ok_def eq) 
  then show ?thesis using r False sorted_before_remove1 [OF s(1), of a] by (intro exI [of _ True]) simp
qed

lemma timers_ok_reinsert:
  assumes "timers_ok tm" "a \<in> set (m_timers tm)" "m_cb t = m_cb (m_heap tm a)"
  defines "h \<equiv> (m_heap tm)(a := t)" and "rest \<equiv> remove1 a (m_timers tm)"
  shows "timers_ok (tm\<lparr>m_heap := h, m_timers := oset_insert (before h) a rest\<rparr>)"
    and "set (oset_insert (before h) a rest) = set (m_timers tm)"
    and "sorted_wrt (before h) rest"
proof -
  have s: "sorted_wrt (before (m_heap tm)) rest" "set rest = set (m_timers tm) - {a}"
    using assms(1) sorted_before_remove1 [of "m_heap tm" "m_timers tm" a]
    by (simp_all add: timers_ok_def rest_def)
  show h: "sorted_wrt (before h) rest" using s by (simp add: h_def sorted_before_update)
  show "set (oset_insert (before h) a rest) = set (m_timers tm)"
    using set_oset_insert_before [OF h, of a] s(2) assms(2) by auto
  then show "timers_ok (tm\<lparr>m_heap := h, m_timers := oset_insert (before h) a rest\<rparr>)"
    using assms(1,3) timer_order.sorted_insert [OF h, of a] by (simp add: timers_ok_def h_def)
qed

lemma timer_refresh_ok:
  assumes "timers_ok tm"
  shows "\<exists>r tm'. timer_refresh now a tm = Inr (r, tm') \<and> timers_ok tm' \<and>
     (r \<longleftrightarrow> m_cb (m_heap tm a) \<noteq> None) \<and> set (m_timers tm') = set (m_timers tm)"
proof (cases "m_cb (m_heap tm a) = None")
  case True
  then show ?thesis using assms by (intro exI [of _ False]) (simp add: timer_refresh_def)
next
  case False
  from assms False have s: "sorted_wrt (before (m_heap tm)) (m_timers tm)" "a \<in> set (m_timers tm)"
    by (auto simp: timers_ok_def)
  show ?thesis using False s timers_ok_reinsert [OF assms s(2), of "(m_heap tm a)\<lparr>m_next := now + m_ms (m_heap tm a)\<rparr>"]
    by (intro exI [of _ True]) (simp add: timer_refresh_def oset_find_before Let_def)
qed

lemma addTimer_locked_timers [simp]:
  "m_timers (snd (addTimer_locked a tm)) = oset_insert (before (m_heap tm)) a (m_timers tm)"
  "m_heap (snd (addTimer_locked a tm)) = m_heap tm"
  by (simp_all add: addTimer_locked_def Let_def)

lemma timer_reset_ok:
  assumes "timers_ok tm"
  shows "\<exists>r f tm'. timer_reset now ms from_now a tm = Inr (r, f, tm') \<and> timers_ok tm' \<and>
     set (m_timers tm') = set (m_timers tm)"
proof (cases "ms = m_ms (m_heap tm a) \<and> \<not> from_now \<or> m_cb (m_heap tm a) = None")
  case True
  then show ?thesis using assms by (auto simp: timer_reset_def Let_def)
next
  case False
  from assms False have s: "sorted_wrt (before (m_heap tm)) (m_timers tm)" "a \<in> set (m_timers tm)"
    by (auto simp: timers_ok_def)
  define t where "t = (m_heap tm a)\<lparr>m_ms := ms, m_next :=
      (if from_now then now else m_next (m_heap tm a) - m_ms (m_heap tm a)) + ms\<rparr>"
  have cb: "m_cb t = m_cb (m_heap tm a)" by (simp add: t_def)
  define tm1 where "tm1 = tm\<lparr>m_timers := remove1 a (m_timers tm), m_heap := (m_heap tm)(a := t)\<rparr>"
  have r: "timer_reset now ms from_now a tm = (let (front, tm2) = addTimer_locked a tm1 in Inr (True, front, tm2))"
    unfolding timer_reset_def tm1_def t_def Let_def oset_find_before [OF s(1)] using False
    by (simp only: s(2) if_False if_True option.case de_Morgan_disj)
  note re = timers_ok_reinsert [OF assms s(2) cb]
  have "timers_ok (snd (addTimer_locked a tm1))" "set (m_timers (snd (addTimer_locked a tm1))) = set (m_timers tm)"
    using re(1,2) by (simp_all add: timers_ok_def tm1_def)
  then show ?thesis using r
    by (cases "addTimer_locked a tm1") (simp del: addTimer_locked_timers; blast)
qed

lemma addTimer_ok:
  assumes "timers_ok tm" "a \<notin> set (m_timers tm)"
  shows "timers_ok (snd (addTimer now a ms cb recurring tm))"
    and "set (m_timers (snd (addTimer now a ms cb recurring tm))) = insert a (set (m_timers tm))"
proof -
  let ?h = "(m_heap tm)(a := new_Timer now ms cb recurring)"
  have s: "sorted_wrt (before ?h) (m_timers tm)"
    using assms by (simp add: timers_ok_def sorted_before_update)
  note i = set_oset_insert_before [OF s, of a] timer_order.sorted_insert [OF s, of a]
  show "set (m_timers (snd (addTimer now a ms cb recurring tm))) = insert a (set (m_timers tm))"
    using i by (simp add: addTimer_def)
  show "timers_ok (snd (addTimer now a ms cb recurring tm))"
    using i assms(1) by (auto simp: addTimer_def timers_ok_def)
qed

section \<open>Expiry\<close>

definition rearm :: "u64 \<Rightarrow> 'f timer \<Rightarrow> 'f timer" where
  "rearm now t = (if m_recurring t then t\<lparr>m_next := now + m_ms t\<rparr> else t\<lparr>m_cb := None\<rparr>)"

lemma expire_loop_correct:
  assumes "distinct as" "set as \<inter> set (m_timers tm) = {}" "sorted_wrt (before (m_heap tm)) (m_timers tm)"
    "\<forall>a. m_cb (m_heap tm a) \<noteq> None \<longrightarrow> a \<in> set (m_timers tm) \<union> set as"
  shows "\<exists>tm'. expire_loop now as cbs tm = (cbs @ map (\<lambda>a. m_cb (m_heap tm a)) as, tm') \<and>
     timers_ok tm' \<and> set (m_timers tm') = set (m_timers tm) \<union> {a \<in> set as. m_recurring (m_heap tm a)} \<and>
     m_heap tm' = (\<lambda>a. if a \<in> set as then rearm now (m_heap tm a) else m_heap tm a) \<and>
     m_tickled tm' = m_tickled tm \<and> m_previous tm' = m_previous tm"
  using assms
proof (induction as arbitrary: cbs tm)
  case Nil
  then show ?case by (simp add: timers_ok_def)
next
  case (Cons a as)
  let ?t = "m_heap tm a"
  define h where "h = (m_heap tm)(a := rearm now ?t)"
  define tm1 where "tm1 = tm\<lparr>m_heap := h, m_timers :=
      (if m_recurring ?t then oset_insert (before h) a (m_timers tm) else m_timers tm)\<rparr>"
  have step: "expire_loop now (a # as) cbs tm = expire_loop now as (cbs @ [m_cb ?t]) tm1"
    by (simp add: Let_def tm1_def h_def rearm_def)
  have fresh: "a \<notin> set (m_timers tm)" "a \<notin> set as" using Cons.prems(1,2) by auto
  have s: "sorted_wrt (before h) (m_timers tm)"
    using Cons.prems(3) fresh by (simp add: h_def sorted_before_update)
  have t1: "set (m_timers tm1) = set (m_timers tm) \<union> (if m_recurring ?t then {a} else {})"
    using set_oset_insert_before [OF s, of a] by (simp add: tm1_def)
  have s1: "sorted_wrt (before (m_heap tm1)) (m_timers tm1)"
    using s timer_order.sorted_insert [OF s, of a] by (simp add: tm1_def)
  have h1: "m_heap tm1 b = (if b = a then rearm now ?t else m_heap tm b)" for b
    by (simp add: tm1_def h_def)
  have d: "distinct as" "set as \<inter> set (m_timers tm1) = {}" using Cons.prems(1,2) t1 fresh by auto
  have c: "\<forall>b. m_cb (m_heap tm1 b) \<noteq> None \<longrightarrow> b \<in> set (m_timers tm1) \<union> set as"
    using Cons.prems(4) by (auto simp: h1 t1 rearm_def)
  have same: "map (\<lambda>b. m_cb (m_heap tm1 b)) as = map (\<lambda>b. m_cb (m_heap tm b)) as"
    "{b \<in> set as. m_recurring (m_heap tm1 b)} = {b \<in> set as. m_recurring (m_heap tm b)}"
    using fresh by (auto simp: h1)
  obtain tm' where r: "expire_loop now as (cbs @ [m_cb ?t]) tm1
      = ((cbs @ [m_cb ?t]) @ map (\<lambda>b. m_cb (m_heap tm b)) as, tm')" "timers_ok tm'"
    "set (m_timers tm') = set (m_timers tm1) \<union> {b \<in> set as. m_recurring (m_heap tm b)}"
    "m_heap tm' = (\<lambda>b. if b \<in> set as then rearm now (m_heap tm1 b) else m_heap tm1 b)"
    "m_tickled tm' = m_tickled tm1" "m_previous tm' = m_previous tm1"
    using Cons.IH [OF d s1 c, of "cbs @ [m_cb ?t]"] unfolding same by blast
  have hp: "m_heap tm' = (\<lambda>b. if b \<in> set (a # as) then rearm now (m_heap tm b) else m_heap tm b)"
    using fresh by (auto simp: r(4) h1)
  have "set (m_timers tm') = set (m_timers tm) \<union> {b \<in> set (a # as). m_recurring (m_heap tm b)}"
    using r(3) t1 by auto
  then show ?case unfolding step using r hp by (simp add: tm1_def)
qed

text \<open>The timers that expire at \<open>now\<close>, in the order of their deadlines.\<close>

definition due :: "u64 \<Rightarrow> nat \<Rightarrow> 'f timer_manager \<Rightarrow> nat list" where
  "due now na tm = filter (\<lambda>a. m_next (m_heap tm a) < now \<or> m_next (m_heap tm a) = now \<and> a < na) (m_timers tm)"

lemma listExpiredCb_correct:
  assumes "timers_ok tm" "na \<notin> set (m_timers tm)" "m_timers tm \<noteq> []"
    "ex = (if now < m_previous tm - 3600000 then m_timers tm else due now na tm)"
  shows "\<exists>tm'. listExpiredCb now na cbs tm = (cbs @ map (\<lambda>a. m_cb (m_heap tm a)) ex, tm') \<and>
     timers_ok tm' \<and>
     set (m_timers tm') = set (m_timers tm) - {a \<in> set ex. \<not> m_recurring (m_heap tm a)} \<and>
     m_heap tm' = (\<lambda>a. if a \<in> set ex then rearm now (m_heap tm a) else m_heap tm a) \<and>
     m_tickled tm' = m_tickled tm \<and> m_previous tm' = now"
proof -
  obtain first as where ts: "m_timers tm = first # as" using assms(3) by (cases "m_timers tm") auto
  let ?roll = "now < m_previous tm - 3600000"
  define tm1 where "tm1 = tm\<lparr>m_previous := now\<rparr>"
  have s: "sorted_wrt (before (m_heap tm)) (m_timers tm)" using assms(1) by (simp add: timers_ok_def)
  show ?thesis
  proof (cases "\<not> ?roll \<and> now < m_next (m_heap tm first)")
    case True
    have "now < m_next (m_heap tm a)" if "a \<in> set (m_timers tm)" for a
      using s that True unfolding ts by (auto simp: before_eq dest: less_trans)
    then have "due now na tm = []" by (auto simp: due_def filter_empty_conv dest: less_asym)
    then have "ex = []" using True assms(4) by simp
    moreover have "listExpiredCb now na cbs tm = (cbs, tm1)"
      using True by (simp add: listExpiredCb_def ts detectClockRollover_def Let_def tm1_def)
    ultimately show ?thesis using assms(1) by (simp add: tm1_def timers_ok_def)
  next
    case False
    let ?lt = "before ((m_heap tm)(na := Timer_at now))"
    have sl: "sorted_wrt ?lt (m_timers tm)" using s assms(2) by (simp add: sorted_before_update)
    have lt: "?lt na a \<longleftrightarrow> \<not> (m_next (m_heap tm a) < now \<or> m_next (m_heap tm a) = now \<and> a < na)"
      if "a \<in> set (m_timers tm)" for a
      using that assms(2) by (auto simp: before_eq Timer_at_def)
    have up: "oset_upto ?lt na (m_timers tm) = due now na tm"
      unfolding timer_order.upto_filter [OF sl] due_def using lt by (intro filter_cong) auto
    define rest where "rest = (if ?roll then [] else oset_after ?lt na (m_timers tm))"
    have rs: "set rest = set (m_timers tm) - set ex" "sorted_wrt (before (m_heap tm)) rest"
      using s lt unfolding rest_def timer_order.after_filter [OF sl] assms(4) due_def
      by (auto simp: sorted_wrt_filter)
    define tm2 where "tm2 = tm1\<lparr>m_timers := rest\<rparr>"
    have eq: "listExpiredCb now na cbs tm = expire_loop now ex cbs tm2"
      unfolding listExpiredCb_def ts list.case detectClockRollover_def Let_def
      using False up by (cases ?roll) (simp_all add: tm2_def tm1_def rest_def assms(4) ts [symmetric])
    have ex: "set ex \<subseteq> set (m_timers tm)" "distinct ex"
      using timer_order.distinct_sorted [OF s] by (auto simp: assms(4) due_def)
    have "set ex \<inter> set (m_timers tm2) = {}" "sorted_wrt (before (m_heap tm2)) (m_timers tm2)"
      "\<forall>a. m_cb (m_heap tm2 a) \<noteq> None \<longrightarrow> a \<in> set (m_timers tm2) \<union> set ex"
      using rs assms(1) by (auto simp: tm2_def tm1_def timers_ok_def)
    moreover have f: "m_heap tm2 = m_heap tm" "m_tickled tm2 = m_tickled tm" "m_timers tm2 = rest"
      "m_previous tm2 = now" by (simp_all add: tm2_def tm1_def)
    ultimately obtain tm' where r:
      "expire_loop now ex cbs tm2 = (cbs @ map (\<lambda>a. m_cb (m_heap tm a)) ex, tm')" "timers_ok tm'"
      "set (m_timers tm') = set rest \<union> {a \<in> set ex. m_recurring (m_heap tm a)}"
      "m_heap tm' = (\<lambda>a. if a \<in> set ex then rearm now (m_heap tm a) else m_heap tm a)"
      "m_tickled tm' = m_tickled tm" "m_previous tm' = now"
      using expire_loop_correct [OF ex(2), of tm2 now cbs] unfolding f by blast
    have "set (m_timers tm') = set (m_timers tm) - {a \<in> set ex. \<not> m_recurring (m_heap tm a)}"
      using r(3) rs(1) ex(1) by auto
    then show ?thesis using r eq by simp
  qed
qed

section \<open>Sequences of operations\<close>

datatype 'f tm_op =
    Cancel nat
  | Refresh u64 nat
  | Reset u64 u64 bool nat
  | Add u64 nat u64 "'f callback option" bool
  | AddCondition u64 nat u64 'f nat bool
  | Next u64
  | Expire u64 nat

fun tm_step :: "'f tm_op \<Rightarrow> 'f timer_manager \<Rightarrow> timer_error + 'f timer_manager" where
  "tm_step (Cancel a) tm = bind_res (timer_cancel a tm) (\<lambda>(_, tm'). Inr tm')"
| "tm_step (Refresh now a) tm = bind_res (timer_refresh now a tm) (\<lambda>(_, tm'). Inr tm')"
| "tm_step (Reset now ms from_now a) tm = bind_res (timer_reset now ms from_now a tm) (\<lambda>(_, _, tm'). Inr tm')"
| "tm_step (Add now a ms cb rec) tm = Inr (snd (addTimer now a ms cb rec tm))"
| "tm_step (AddCondition now a ms f w rec) tm = Inr (snd (addConditionTimer now a ms f w rec tm))"
| "tm_step (Next now) tm = Inr (snd (getNextTimer now tm))"
| "tm_step (Expire now na) tm = Inr (snd (listExpiredCb now na [] tm))"

text \<open>A new object is not at the address of one that is in the set.\<close>

fun fresh_address :: "'f tm_op \<Rightarrow> 'f timer_manager \<Rightarrow> bool" where
  "fresh_address (Add now a ms cb rec) tm \<longleftrightarrow> a \<notin> set (m_timers tm)"
| "fresh_address (AddCondition now a ms f w rec) tm \<longleftrightarrow> a \<notin> set (m_timers tm)"
| "fresh_address (Expire now na) tm \<longleftrightarrow> na \<notin> set (m_timers tm)"
| "fresh_address _ tm \<longleftrightarrow> True"

inductive tm_reach :: "'f timer_manager \<Rightarrow> bool" where
  init: "tm_reach (new_TimerManager now)"
| step: "tm_reach tm \<Longrightarrow> fresh_address op tm \<Longrightarrow> tm_step op tm = Inr tm' \<Longrightarrow> tm_reach tm'"

lemma getNextTimer_ok: "timers_ok tm \<Longrightarrow> timers_ok (snd (getNextTimer now tm))"
  by (auto simp: getNextTimer_def timers_ok_def Let_def split: list.split)

lemma listExpiredCb_ok:
  assumes "timers_ok tm" "na \<notin> set (m_timers tm)"
  shows "timers_ok (snd (listExpiredCb now na cbs tm))"
proof (cases "m_timers tm = []")
  case True
  then show ?thesis using assms by (simp add: listExpiredCb_def)
next
  case False
  from listExpiredCb_correct [OF assms False refl, of now cbs] obtain r tm'
    where "listExpiredCb now na cbs tm = (r, tm')" "timers_ok tm'" by blast
  then show ?thesis by simp
qed

lemma tm_step_ok:
  assumes "timers_ok tm" "fresh_address op tm"
  shows "\<exists>tm'. tm_step op tm = Inr tm' \<and> timers_ok tm'"
proof (cases op)
  case (Cancel a)
  then show ?thesis using timer_cancel_ok [OF assms(1), of a] by auto
next
  case (Refresh now a)
  then show ?thesis using timer_refresh_ok [OF assms(1), of now a] by auto
next
  case (Reset now ms from_now a)
  then show ?thesis using timer_reset_ok [OF assms(1), of now ms from_now a] by auto
next
  case (Add now a ms cb rec)
  then show ?thesis using addTimer_ok(1) [OF assms(1), of a now ms cb rec] assms(2) by simp
next
  case (AddCondition now a ms f w rec)
  then show ?thesis using addTimer_ok(1) [OF assms(1), of a now ms _ rec] assms(2)
    by (simp add: addConditionTimer_def)
next
  case (Next now)
  then show ?thesis using getNextTimer_ok [OF assms(1)] by simp
next
  case (Expire now na)
  then show ?thesis using listExpiredCb_ok [OF assms(1)] assms(2) by simp
qed

lemma tm_reach_ok: "tm_reach tm \<Longrightarrow> timers_ok tm"
proof (induction rule: tm_reach.induct)
  case (step tm op tm')
  then show ?case using tm_step_ok [of tm op] by auto
qed (rule timers_ok_new)

section \<open>Properties\<close>

text \<open>
  C18. In every state a manager can reach, whatever the sequence of operations, the set is
  strictly ordered by deadline, every timer that still has a callback is in it, and the next
  operation succeeds: \<open>cancel\<close> never erases \<open>end()\<close>.
\<close>

theorem timer_operations_safe:
  assumes "tm_reach tm" "fresh_address op tm"
  shows "sorted_wrt (before (m_heap tm)) (m_timers tm) \<and>
     (\<forall>a. m_cb (m_heap tm a) \<noteq> None \<longrightarrow> a \<in> set (m_timers tm)) \<and>
     (\<exists>tm'. tm_step op tm = Inr tm' \<and> tm_reach tm')"
proof -
  obtain tm' where "tm_step op tm = Inr tm'" using tm_step_ok [OF tm_reach_ok [OF assms(1)] assms(2)] by blast
  then show ?thesis using tm_reach_ok [OF assms(1)] tm_reach.step [OF assms] by (auto simp: timers_ok_def)
qed

theorem timer_operations_safe_witness:
  "\<exists>tm' :: nat timer_manager. tm_step (Add 100 1 50 (Some (Direct 7)) False) (new_TimerManager 100) = Inr tm' \<and> tm_reach tm'"
  using timer_operations_safe [OF tm_reach.init, of "Add 100 1 50 (Some (Direct (7::nat))) False" 100]
  by (simp add: new_TimerManager_def)

text \<open>
  C29. \<open>listExpiredCb\<close> without a clock rollover hands out exactly the callbacks of the timers
  whose deadline has passed (those due at this very millisecond only when their address is
  below that of the probe), earliest deadline first; recurring ones are re-armed one
  period from now and stay in the set, the others leave it and lose their callback; all
  other timers are untouched.
\<close>

theorem listExpiredCb_spec:
  assumes "tm_reach tm" "na \<notin> set (m_timers tm)" "m_timers tm \<noteq> []"
    "\<not> now < m_previous tm - 3600000"
  shows "\<exists>tm'. listExpiredCb now na cbs tm = (cbs @ map (\<lambda>a. m_cb (m_heap tm a)) (due now na tm), tm') \<and>
     sorted_wrt (before (m_heap tm)) (due now na tm) \<and>
     set (m_timers tm') = set (m_timers tm) - {a \<in> set (due now na tm). \<not> m_recurring (m_heap tm a)} \<and>
     m_heap tm' = (\<lambda>a. if a \<in> set (due now na tm) then rearm now (m_heap tm a) else m_heap tm a)"
proof -
  have ok: "timers_ok tm" using assms(1) by (rule tm_reach_ok)
  then have "sorted_wrt (before (m_heap tm)) (due now na tm)"
    by (simp add: timers_ok_def due_def sorted_wrt_filter)
  then show ?thesis using listExpiredCb_correct [OF ok assms(2,3), of "due now na tm" now cbs] assms(4) by auto
qed

theorem listExpiredCb_spec_witness:
  "\<exists>tm'. listExpiredCb 5000200 9 [] (snd (addTimer 5000100 1 50 (Some (Direct (7::nat))) False (new_TimerManager 5000000)))
     = ([Some (Direct 7)], tm')"
proof -
  let ?tm = "snd (addTimer 5000100 1 50 (Some (Direct (7::nat))) False (new_TimerManager 5000000))"
  have r: "tm_reach ?tm"
    by (rule tm_reach.step [OF tm_reach.init, of "Add 5000100 1 50 (Some (Direct 7)) False"])
       (simp_all add: new_TimerManager_def)
  have t: "m_timers ?tm = [1]" "m_next (m_heap ?tm 1) = 5000150" "m_cb (m_heap ?tm 1) = Some (Direct 7)"
    "m_previous ?tm = 5000000"
    by (simp_all add: addTimer_def new_TimerManager_def oset_insert_def oset_find_def new_Timer_def
        addTimer_locked_def Let_def)
  show ?thesis using listExpiredCb_spec [OF r, of 9 5000200 "[]"] t by (auto simp: due_def)
qed

text \<open>
  \<open>getNextTimer\<close> is the time to the earliest deadline: all ones when there is no timer,
  zero when a deadline has passed, else the distance to the smallest one.
\<close>

theorem getNextTimer_spec:
  assumes "tm_reach tm"
  shows "if m_timers tm = [] then fst (getNextTimer now tm) = - 1
     else \<exists>a \<in> set (m_timers tm). (\<forall>b \<in> set (m_timers tm). m_next (m_heap tm a) \<le> m_next (m_heap tm b)) \<and>
        fst (getNextTimer now tm) = (if m_next (m_heap tm a) \<le> now then 0 else m_next (m_heap tm a) - now)"
proof (cases "m_timers tm")
  case Nil
  then show ?thesis by (simp add: getNextTimer_def)
next
  case (Cons a as)
  have "sorted_wrt (before (m_heap tm)) (a # as)"
    using tm_reach_ok [OF assms] Cons by (simp add: timers_ok_def)
  then have "\<forall>b \<in> set (a # as). m_next (m_heap tm a) \<le> m_next (m_heap tm b)"
    by (auto simp: before_eq)
  then show ?thesis using Cons by (auto simp: getNextTimer_def Let_def)
qed

theorem getNextTimer_spec_witness:
  "fst (getNextTimer 7 (new_TimerManager 3 :: nat timer_manager)) = - 1"
  using getNextTimer_spec [OF tm_reach.init, of 3 7] by (simp add: new_TimerManager_def)

end
