(* ===== verification/Io_Manager.thy ===== *)
theory Io_Manager
  imports Schedulers Timers
begin

text \<open>
  \<open>src/src/async/iomanager.{h,cpp}\<close>: the event table of the IO scheduler, registration,
  deletion and cancelling of events, what the idle fiber does with the events of one
  \<open>epoll_wait\<close> and with expired timers, and how long it waits.

  The kernel's side of epoll is the parameter \<open>ctl\<close> of every operation that calls
  \<open>epoll_ctl\<close> (its result says whether the call failed); what the code relies on is the
  locale \<open>epoll\<close>, and \<open>table_ctl\<close> is the documented behaviour, with failures that may be
  injected at any call. The lemmas of the locale show that the event table, the contexts,
  the counter of pending events and the kernel's interest list stay in step.
\<close>

section \<open>Events\<close>

definition NONE :: u32 where "NONE = 0"
definition READ :: u32 where "READ = 1"
definition WRITE :: u32 where "WRITE = 4"

definition EPOLLIN :: u32 where "EPOLLIN = 1"
definition EPOLLOUT :: u32 where "EPOLLOUT = 4"
definition EPOLLERR :: u32 where "EPOLLERR = 8"
definition EPOLLHUP :: u32 where "EPOLLHUP = 0x10"
definition EPOLLET :: u32 where "EPOLLET = 0x80000000"

datatype epoll_op = CtlAdd | CtlMod | CtlDel

datatype io_error = IoAssert | NullScheduler | BadIndex

text \<open>\<open>ec_scheduler\<close>: whether the pointer to the scheduler is set.\<close>

record 'f EventContext =
  ec_scheduler :: bool
  ec_fiber :: "nat option"
  ec_cb :: "'f option"

record 'f FdContext =
  fx_read :: "'f EventContext"
  fx_write :: "'f EventContext"
  fx_fd :: nat
  m_events :: u32

definition empty_context :: "'f EventContext" where
  "empty_context = \<lparr>ec_scheduler = False, ec_fiber = None, ec_cb = None\<rparr>"

definition new_FdContext :: "nat \<Rightarrow> 'f FdContext" where
  "new_FdContext i = \<lparr>fx_read = empty_context, fx_write = empty_context, fx_fd = i, m_events = NONE\<rparr>"

record ('f, 'k) io_manager =
  io_contexts :: "'f callback FdContext list"
  io_pending :: nat
  io_sched :: "'f callback sched"
  io_timers :: "'f timer_manager"
  io_kernel :: 'k

definition getContext :: "u32 \<Rightarrow> 'f FdContext \<Rightarrow> io_error + 'f EventContext" where
  "getContext ev fx =
     (if ev = READ then Inr (fx_read fx) else if ev = WRITE then Inr (fx_write fx) else Inl IoAssert)"

definition putContext :: "u32 \<Rightarrow> 'f EventContext \<Rightarrow> 'f FdContext \<Rightarrow> 'f FdContext" where
  "putContext ev c fx = (if ev = READ then fx\<lparr>fx_read := c\<rparr> else fx\<lparr>fx_write := c\<rparr>)"

definition resetContext :: "'f EventContext \<Rightarrow> 'f EventContext" where
  "resetContext ctx = ctx\<lparr>ec_scheduler := False, ec_fiber := None, ec_cb := None\<rparr>"

text \<open>\<open>triggerEvent\<close>: the callback or fiber is swapped out of the context into the queue.\<close>

definition triggerEvent :: "u32 \<Rightarrow> 'f FdContext \<Rightarrow> 'f sched \<Rightarrow> io_error + 'f FdContext \<times> 'f sched" where
  "triggerEvent ev fx s =
     (if m_events fx AND ev = 0 then Inl IoAssert
      else
        let fx1 = fx\<lparr>m_events := m_events fx AND NOT ev\<rparr>
        in bind_res (getContext ev fx1) (\<lambda>ctx.
          if \<not> ec_scheduler ctx then Inl NullScheduler
          else if ec_cb ctx \<noteq> None then
            (let (t, cb') = task_swap_cb (ec_cb ctx) (- 1)
             in Inr (putContext ev (ctx\<lparr>ec_cb := cb', ec_scheduler := False\<rparr>) fx1, snd (schedule t s)))
          else
            (let (t, f') = task_swap_fiber (ec_fiber ctx) (- 1)
             in Inr (putContext ev (ctx\<lparr>ec_fiber := f', ec_scheduler := False\<rparr>) fx1, snd (schedule t s)))))"

section \<open>The table\<close>

definition contextResize :: "nat \<Rightarrow> 'f FdContext list \<Rightarrow> 'f FdContext list" where
  "contextResize sz cs = take sz cs @ map new_FdContext [length cs..<sz]"

text \<open>
  The first half of \<open>addEvent\<close>: the lookup under the read lock, and the growth under the
  write lock, which does not look again. \<open>size() > fd\<close> compares unsigned, so a negative
  descriptor asks for a negative size.
\<close>

definition addEvent_found :: "int \<Rightarrow> 'f FdContext list \<Rightarrow> bool" where
  "addEvent_found fd cs \<longleftrightarrow> 0 \<le> fd \<and> nat fd < length cs"

definition addEvent_grow :: "int \<Rightarrow> 'f FdContext list \<Rightarrow> io_error + 'f FdContext list" where
  "addEvent_grow fd cs =
     (if fd < 0 then Inl BadIndex
      else let cs' = contextResize (nat (fd * 3 div 2)) cs
           in if nat fd < length cs' then Inr cs' else Inl BadIndex)"

text \<open>
  The second half, under the lock of the context. \<open>has_sched\<close> says whether the calling thread
  has a scheduler, \<open>cur\<close> is the current fiber and its state. The result is 0 or -1.
\<close>

definition addEvent_locked ::
  "(epoll_op \<Rightarrow> nat \<Rightarrow> u32 \<Rightarrow> 'k \<Rightarrow> bool \<times> 'k) \<Rightarrow> nat \<Rightarrow> u32 \<Rightarrow> 'f callback option \<Rightarrow> bool \<Rightarrow>
   nat \<times> fiber_state \<Rightarrow> ('f, 'k) io_manager \<Rightarrow> io_error + int \<times> ('f, 'k) io_manager" where
  "addEvent_locked ctl fd ev cb has_sched cur io =
     (let fx = io_contexts io ! fd
      in if m_events fx AND ev \<noteq> 0 then Inl IoAssert
         else
           let op = (if m_events fx \<noteq> 0 then CtlMod else CtlAdd);
               (failed, k) = ctl op fd (EPOLLET OR m_events fx OR ev) (io_kernel io);
               io1 = io\<lparr>io_kernel := k\<rparr>
           in if failed then Inr (- 1, io1)
              else
                let fx1 = fx\<lparr>m_events := m_events fx OR ev\<rparr>
                in bind_res (getContext ev fx1) (\<lambda>ctx.
                  if ec_scheduler ctx \<or> ec_fiber ctx \<noteq> None \<or> ec_cb ctx \<noteq> None then Inl IoAssert
                  else if cb = None \<and> snd cur \<noteq> F_EXEC then Inl IoAssert
                  else
                    let ctx' = ctx\<lparr>ec_scheduler := has_sched, ec_cb := cb,
                                   ec_fiber := if cb = None then Some (fst cur) else None\<rparr>
                    in Inr (0, io1\<lparr>io_pending := io_pending io + 1,
                                   io_contexts := (io_contexts io)[fd := putContext ev ctx' fx1]\<rparr>)))"

definition addEvent ::
  "(epoll_op \<Rightarrow> nat \<Rightarrow> u32 \<Rightarrow> 'k \<Rightarrow> bool \<times> 'k) \<Rightarrow> int \<Rightarrow> u32 \<Rightarrow> 'f callback option \<Rightarrow> bool \<Rightarrow>
   nat \<times> fiber_state \<Rightarrow> ('f, 'k) io_manager \<Rightarrow> io_error + int \<times> ('f, 'k) io_manager" where
  "addEvent ctl fd ev cb has_sched cur io =
     (if addEvent_found fd (io_contexts io) then addEvent_locked ctl (nat fd) ev cb has_sched cur io
      else bind_res (addEvent_grow fd (io_contexts io)) (\<lambda>cs.
        addEvent_locked ctl (nat fd) ev cb has_sched cur (io\<lparr>io_contexts := cs\<rparr>)))"

text \<open>\<open>size() <= fd\<close> compares unsigned: a negative descriptor is not found.\<close>

definition delEvent ::
  "(epoll_op \<Rightarrow> nat \<Rightarrow> u32 \<Rightarrow> 'k \<Rightarrow> bool \<times> 'k) \<Rightarrow> int \<Rightarrow> u32 \<Rightarrow> ('f, 'k) io_manager \<Rightarrow>
   io_error + bool \<times> ('f, 'k) io_manager" where
  "delEvent ctl fd ev io =
     (if \<not> addEvent_found fd (io_contexts io) then Inr (False, io)
      else
        let fx = io_contexts io ! nat fd
        in if m_events fx AND ev = 0 then Inr (False, io)
           else
             let new_events = m_events fx AND NOT ev;
                 op = (if new_events \<noteq> 0 then CtlMod else CtlDel);
                 (failed, k) = ctl op (nat fd) (EPOLLET OR new_events) (io_kernel io);
                 io1 = io\<lparr>io_kernel := k\<rparr>
             in if failed then Inr (False, io1)
                else
                  let fx1 = fx\<lparr>m_events := new_events\<rparr>
                  in bind_res (getContext ev fx1) (\<lambda>ctx.
                    Inr (True, io1\<lparr>io_pending := io_pending io - 1,
                           io_contexts := (io_contexts io)[nat fd := putContext ev (resetContext ctx) fx1]\<rparr>)))"

definition cancelEvent ::
  "(epoll_op \<Rightarrow> nat \<Rightarrow> u32 \<Rightarrow> 'k \<Rightarrow> bool \<times> 'k) \<Rightarrow> int \<Rightarrow> u32 \<Rightarrow> ('f, 'k) io_manager \<Rightarrow>
   io_error + bool \<times> ('f, 'k) io_manager" where
  "cancelEvent ctl fd ev io =
     (if \<not> addEvent_found fd (io_contexts io) then Inr (False, io)
      else
        let fx = io_contexts io ! nat fd
        in if m_events fx AND ev = 0 then Inr (False, io)
           else
             let new_events = m_events fx AND NOT ev;
                 op = (if new_events \<noteq> 0 then CtlMod else CtlDel);
                 (failed, k) = ctl op (nat fd) (EPOLLET OR new_events) (io_kernel io);
                 io1 = io\<lparr>io_kernel := k\<rparr>
             in if failed then Inr (False, io1)
                else bind_res (triggerEvent ev fx (io_sched io)) (\<lambda>(fx1, s).
                  Inr (True, io1\<lparr>io_pending := io_pending io - 1, io_sched := s,
                         io_contexts := (io_contexts io)[nat fd := fx1]\<rparr>)))"

text \<open>Trigger an event and count it off, on one context.\<close>

definition trigger_count ::
  "u32 \<Rightarrow> 'f FdContext \<times> nat \<times> 'f sched \<Rightarrow> io_error + 'f FdContext \<times> nat \<times> 'f sched" where
  "trigger_count ev st =
     (case st of (fx, n, s) \<Rightarrow>
        bind_res (triggerEvent ev fx s) (\<lambda>(fx1, s1). Inr (fx1, n - 1, s1)))"

definition cancelAll ::
  "(epoll_op \<Rightarrow> nat \<Rightarrow> u32 \<Rightarrow> 'k \<Rightarrow> bool \<times> 'k) \<Rightarrow> int \<Rightarrow> ('f, 'k) io_manager \<Rightarrow>
   io_error + bool \<times> ('f, 'k) io_manager" where
  "cancelAll ctl fd io =
     (if \<not> addEvent_found fd (io_contexts io) then Inr (False, io)
      else
        let fx = io_contexts io ! nat fd
        in if m_events fx = 0 then Inr (False, io)
           else
             let (failed, k) = ctl CtlDel (nat fd) 0 (io_kernel io);
                 io1 = io\<lparr>io_kernel := k\<rparr>
             in if failed then Inr (False, io1)
                else
                  bind_res (if m_events fx AND READ \<noteq> 0 then trigger_count READ (fx, io_pending io, io_sched io)
                            else Inr (fx, io_pending io, io_sched io)) (\<lambda>st1.
                  bind_res (if m_events (fst st1) AND WRITE \<noteq> 0 then trigger_count WRITE st1 else Inr st1)
                    (\<lambda>(fx2, n2, s2).
                    if m_events fx2 \<noteq> 0 then Inl IoAssert
                    else Inr (True, io1\<lparr>io_pending := n2, io_sched := s2,
                                io_contexts := (io_contexts io)[nat fd := fx2]\<rparr>))))"

section \<open>The idle fiber\<close>

text \<open>What \<open>tickle\<close> does: a byte is written to the pipe only if a thread is idle.\<close>

definition tickle :: "('f, 'k) io_manager \<Rightarrow> bool" where
  "tickle io \<longleftrightarrow> 0 < sc_idle (io_sched io)"

definition io_stopping :: "u64 \<Rightarrow> ('f, 'k) io_manager \<Rightarrow> bool \<times> u64 \<times> ('f, 'k) io_manager" where
  "io_stopping now io =
     (let (timer, tm) = getNextTimer now (io_timers io)
      in (timer = - 1 \<and> io_pending io = 0 \<and> stopping (io_sched io), timer, io\<lparr>io_timers := tm\<rparr>))"

text \<open>
  The timeout of \<open>epoll_wait\<close>. \<open>(int)next_timeout\<close> keeps the low 32 bits and reads them
  signed; a negative timeout waits without limit.
\<close>

definition MAX_TIMEOUT :: int where "MAX_TIMEOUT = 5000"

definition to_int :: "u64 \<Rightarrow> int" where
  "to_int w = sint (ucast w :: u32)"

definition epoll_timeout :: "u64 \<Rightarrow> int" where
  "epoll_timeout next_timeout =
     (let t = (if next_timeout \<noteq> - 1
               then (if MAX_TIMEOUT < to_int next_timeout then word_of_int MAX_TIMEOUT else next_timeout)
               else word_of_int MAX_TIMEOUT)
      in to_int t)"

text \<open>One event of \<open>epoll_wait\<close>: the tickle pipe (whose bytes are drained), or a descriptor.\<close>

datatype io_event = TickleEvent | FdEvent nat u32

definition process_fd_event ::
  "(epoll_op \<Rightarrow> nat \<Rightarrow> u32 \<Rightarrow> 'k \<Rightarrow> bool \<times> 'k) \<Rightarrow> nat \<Rightarrow> u32 \<Rightarrow> ('f, 'k) io_manager \<Rightarrow>
   io_error + ('f, 'k) io_manager" where
  "process_fd_event ctl fd events0 io =
     (let fx = io_contexts io ! fd;
          events = (if events0 AND (EPOLLERR OR EPOLLHUP) \<noteq> 0 then events0 OR (EPOLLIN OR EPOLLOUT) else events0);
          real_events = (if events AND EPOLLIN \<noteq> 0 then READ else NONE) OR
                        (if events AND EPOLLOUT \<noteq> 0 then WRITE else NONE)
      in if m_events fx AND real_events = NONE then Inr io
         else
           let left_events = m_events fx AND NOT real_events;
               op = (if left_events \<noteq> 0 then CtlMod else CtlDel);
               (failed, k) = ctl op (fx_fd fx) (EPOLLET OR left_events) (io_kernel io);
               io1 = io\<lparr>io_kernel := k\<rparr>
           in if failed then Inr io1
              else
                bind_res (if real_events AND READ \<noteq> 0 then trigger_count READ (fx, io_pending io, io_sched io)
                          else Inr (fx, io_pending io, io_sched io)) (\<lambda>st1.
                bind_res (if real_events AND WRITE \<noteq> 0 then trigger_count WRITE st1 else Inr st1)
                  (\<lambda>(fx2, n2, s2).
                  Inr (io1\<lparr>io_pending := n2, io_sched := s2, io_contexts := (io_contexts io)[fd := fx2]\<rparr>))))"

fun process_events ::
  "(epoll_op \<Rightarrow> nat \<Rightarrow> u32 \<Rightarrow> 'k \<Rightarrow> bool \<times> 'k) \<Rightarrow> io_event list \<Rightarrow> ('f, 'k) io_manager \<Rightarrow>
   io_error + ('f, 'k) io_manager" where
  "process_events ctl [] io = Inr io"
| "process_events ctl (TickleEvent # es) io = process_events ctl es io"
| "process_events ctl (FdEvent fd ev # es) io =
     bind_res (process_fd_event ctl fd ev io) (process_events ctl es)"

text \<open>
  One round of \<open>idle\<close> up to the point where it yields: the events are what \<open>epoll_wait\<close>
  returned after its retries on \<open>EINTR\<close>, \<open>now1\<close> and \<open>now2\<close> the clock before and after it,
  \<open>na\<close> the address of the probe timer. The result says whether the fiber ends.
\<close>

definition idle_round ::
  "(epoll_op \<Rightarrow> nat \<Rightarrow> u32 \<Rightarrow> 'k \<Rightarrow> bool \<times> 'k) \<Rightarrow> u64 \<Rightarrow> u64 \<Rightarrow> nat \<Rightarrow> io_event list \<Rightarrow> ('f, 'k) io_manager \<Rightarrow>
   io_error + bool \<times> ('f, 'k) io_manager" where
  "idle_round ctl now1 now2 na es io =
     (let (stop_now, timer, io1) = io_stopping now1 io
      in if stop_now then Inr (True, io1)
         else
           let (cbs, tm) = listExpiredCb now2 na [] (io_timers io1);
               io2 = io1\<lparr>io_timers := tm,
                         io_sched := if cbs \<noteq> [] then snd (schedule_range cbs (io_sched io1)) else io_sched io1\<rparr>
           in bind_res (process_events ctl es io2) (\<lambda>io3. Inr (False, io3)))"

section \<open>What is registered\<close>

definition events_ok :: "u32 \<Rightarrow> bool" where
  "events_ok m \<longleftrightarrow> m = 0 \<or> m = 1 \<or> m = 4 \<or> m = 5"

definition slot_ok :: "bool \<Rightarrow> 'f EventContext \<Rightarrow> bool" where
  "slot_ok registered c \<longleftrightarrow>
     (if registered then ec_scheduler c \<and> (ec_cb c = None \<longleftrightarrow> ec_fiber c \<noteq> None)
      else \<not> ec_scheduler c \<and> ec_cb c = None \<and> ec_fiber c = None)"

definition fx_ok :: "nat \<Rightarrow> 'f FdContext \<Rightarrow> bool" where
  "fx_ok i fx \<longleftrightarrow> fx_fd fx = i \<and> events_ok (m_events fx) \<and>
     slot_ok (m_events fx AND READ \<noteq> 0) (fx_read fx) \<and> slot_ok (m_events fx AND WRITE \<noteq> 0) (fx_write fx)"

definition pend :: "'f FdContext \<Rightarrow> nat" where
  "pend fx = (if m_events fx AND READ \<noteq> 0 then 1 else 0) + (if m_events fx AND WRITE \<noteq> 0 then 1 else 0)"

definition interest_of :: "'f FdContext list \<Rightarrow> nat \<Rightarrow> u32 option" where
  "interest_of cs fd = (if fd < length cs \<and> m_events (cs ! fd) \<noteq> 0 then Some (EPOLLET OR m_events (cs ! fd)) else None)"

definition table_ok :: "'f FdContext list \<Rightarrow> bool" where
  "table_ok cs \<longleftrightarrow> (\<forall>i < length cs. fx_ok i (cs ! i))"

definition io_ok :: "('k \<Rightarrow> nat \<Rightarrow> u32 option) \<Rightarrow> ('f, 'k) io_manager \<Rightarrow> bool" where
  "io_ok interest io \<longleftrightarrow> table_ok (io_contexts io) \<and>
     io_pending io = sum_list (map pend (io_contexts io)) \<and>
     interest (io_kernel io) = interest_of (io_contexts io)"

text \<open>The task that is queued when an event fires.\<close>

definition waiting_task :: "u32 \<Rightarrow> 'f FdContext \<Rightarrow> 'f task" where
  "waiting_task ev fx =
     (let c = (if ev = READ then fx_read fx else fx_write fx)
      in if ec_cb c \<noteq> None then task_of_cb (ec_cb c) (- 1) else task_of_fiber (ec_fiber c) (- 1))"

lemma event_bits [simp]:
  "READ \<noteq> 0" "WRITE \<noteq> 0" "READ \<noteq> WRITE" "WRITE \<noteq> READ"
  by (simp_all add: READ_def WRITE_def)

lemma events_okE:
  assumes "events_ok m"
  obtains "m = 0" | "m = 1" | "m = 4" | "m = 5"
  using assms by (auto simp: events_ok_def)

lemma triggerEvent_correct:
  assumes "fx_ok i fx" "ev = READ \<or> ev = WRITE" "m_events fx AND ev \<noteq> 0"
  shows "\<exists>fx'. triggerEvent ev fx s = Inr (fx', snd (schedule (waiting_task ev fx) s)) \<and> fx_ok i fx' \<and>
     m_events fx' = m_events fx AND NOT ev \<and> pend fx = Suc (pend fx') \<and> task_ok (waiting_task ev fx) \<and>
     (ev = READ \<longrightarrow> fx_write fx' = fx_write fx)"
proof -
  from assms(1) have "events_ok (m_events fx)" by (simp add: fx_ok_def)
  then show ?thesis using assms
    by (elim events_okE disjE)
       (auto simp: fx_ok_def slot_ok_def triggerEvent_def getContext_def putContext_def READ_def WRITE_def
          task_swap_cb_def task_swap_fiber_def waiting_task_def Let_def events_ok_def pend_def
          task_ok_def task_of_cb_def task_of_fiber_def)
qed

lemma pend_le_sum: "i < length cs \<Longrightarrow> pend (cs ! i) \<le> sum_list (map pend cs)"
  using elem_le_sum_list [of i "map pend cs"] by simp

lemma sum_pend_update:
  "i < length cs \<Longrightarrow> sum_list (map pend (cs[i := fx])) = sum_list (map pend cs) - pend (cs ! i) + pend fx"
  using pend_le_sum [of i cs] by (simp add: map_update sum_list_update)

lemma fx_ok_new: "fx_ok i (new_FdContext i)"
  by (simp add: fx_ok_def new_FdContext_def events_ok_def NONE_def slot_ok_def empty_context_def)

lemma table_ok_update: "table_ok cs \<Longrightarrow> fx_ok i fx \<Longrightarrow> table_ok (cs[i := fx])"
  unfolding table_ok_def by (metis length_list_update nth_list_update_eq nth_list_update_neq)

lemma interest_of_update:
  "i < length cs \<Longrightarrow> interest_of (cs[i := fx]) =
     (interest_of cs)(i := if m_events fx \<noteq> 0 then Some (EPOLLET OR m_events fx) else None)"
  by (auto simp: interest_of_def fun_eq_iff nth_list_update)

text \<open>Both events of a context, one after the other, as \<open>cancelAll\<close> and the idle fiber do it.\<close>

lemma trigger_count_ok:
  assumes "fx_ok i fx" "ev = READ \<or> ev = WRITE" "m_events fx AND ev \<noteq> 0"
  shows "\<exists>fx'. trigger_count ev (fx, n, s) = Inr (fx', n - 1, snd (schedule (waiting_task ev fx) s)) \<and>
     fx_ok i fx' \<and> m_events fx' = m_events fx AND NOT ev \<and> pend fx = Suc (pend fx') \<and>
     task_ok (waiting_task ev fx) \<and> (ev = READ \<longrightarrow> fx_write fx' = fx_write fx)"
  using triggerEvent_correct [OF assms, of s] by (auto simp: trigger_count_def)

definition trigger_both :: "bool \<Rightarrow> bool \<Rightarrow> 'f FdContext \<times> nat \<times> 'f sched \<Rightarrow> io_error + 'f FdContext \<times> nat \<times> 'f sched" where
  "trigger_both rd wr st = bind_res (if rd then trigger_count READ st else Inr st)
     (\<lambda>st1. if wr then trigger_count WRITE st1 else Inr st1)"

definition fired :: "u32 \<Rightarrow> 'f FdContext \<Rightarrow> 'f task list" where
  "fired real fx = (if real AND READ \<noteq> 0 then [waiting_task READ fx] else []) @
     (if real AND WRITE \<noteq> 0 then [waiting_task WRITE fx] else [])"

lemma schedule_queue: "task_ok t \<Longrightarrow> sc_queue (snd (schedule t s)) = sc_queue s @ [t]"
  by (simp add: schedule_def)

lemma trigger_both_ok:
  assumes "fx_ok i fx" "events_ok real" "m_events fx AND real = real" "pend fx \<le> n"
  shows "\<exists>fx' n' s'. trigger_both (real AND READ \<noteq> 0) (real AND WRITE \<noteq> 0) (fx, n, s) = Inr (fx', n', s') \<and>
     fx_ok i fx' \<and> m_events fx' = m_events fx AND NOT real \<and> n' = n - pend fx + pend fx' \<and>
     sc_queue s' = sc_queue s @ fired real fx"
  using assms(2)
proof (cases rule: events_okE)
  case 1
  then show ?thesis using assms(1,4) by (auto simp: trigger_both_def fired_def)
next
  case 2
  then have b: "(real AND READ \<noteq> 0) = True" "(real AND WRITE \<noteq> 0) = False" "real = READ"
    by (simp_all add: READ_def WRITE_def)
  from trigger_count_ok [OF assms(1), of READ n s] assms(3) show ?thesis
    using assms(4) unfolding trigger_both_def fired_def b(1,2) by (auto simp: b(3) schedule_queue)
next
  case 3
  then have b: "(real AND READ \<noteq> 0) = False" "(real AND WRITE \<noteq> 0) = True" "real = WRITE"
    by (simp_all add: READ_def WRITE_def)
  from trigger_count_ok [OF assms(1), of WRITE n s] assms(3) show ?thesis
    using assms(4) unfolding trigger_both_def fired_def b(1,2) by (auto simp: b(3) schedule_queue)
next
  case 4
  then have b: "(real AND READ \<noteq> 0) = True" "(real AND WRITE \<noteq> 0) = True" by (simp_all add: READ_def WRITE_def)
  have "events_ok (m_events fx)" using assms(1) by (simp add: fx_ok_def)
  then have m: "m_events fx = 5" using assms(3) 4 by (elim events_okE) auto
  obtain fx1 where 1: "trigger_count READ (fx, n, s) = Inr (fx1, n - 1, snd (schedule (waiting_task READ fx) s))"
    "fx_ok i fx1" "m_events fx1 = 4" "pend fx = Suc (pend fx1)" "task_ok (waiting_task READ fx)" "fx_write fx1 = fx_write fx"
    using trigger_count_ok [OF assms(1), of READ n s] m by (auto simp: READ_def)
  define s1 where "s1 = snd (schedule (waiting_task READ fx) s)"
  obtain fx2 where 2: "trigger_count WRITE (fx1, n - 1, s1) = Inr (fx2, n - 1 - 1, snd (schedule (waiting_task WRITE fx1) s1))"
    "fx_ok i fx2" "m_events fx2 = 0" "pend fx1 = Suc (pend fx2)" "task_ok (waiting_task WRITE fx1)"
    using trigger_count_ok [OF 1(2), of WRITE "n - 1" s1] 1(3) by (auto simp: WRITE_def)
  have "waiting_task WRITE fx1 = waiting_task WRITE fx" using 1(6) by (simp add: waiting_task_def)
  then have "sc_queue (snd (schedule (waiting_task WRITE fx1) s1)) = sc_queue s @ fired real fx"
    using 1(5) 2(5) b by (simp add: schedule_queue s1_def fired_def)
  then show ?thesis using 1 2 b assms(4) m 4 by (auto simp: trigger_both_def s1_def)
qed

lemma trigger_both_bind:
  "bind_res (if rd then trigger_count READ st else Inr st) (\<lambda>st1.
     bind_res (if wr then trigger_count WRITE st1 else Inr st1) k) = bind_res (trigger_both rd wr st) k"
  by (auto simp: trigger_both_def bind_res_def split: sum.splits)

text \<open>\<open>cancelAll\<close> looks at the events again after the first trigger.\<close>

lemma trigger_second:
  assumes "fx_ok i fx"
  shows "bind_res (if m_events fx AND READ \<noteq> 0 then trigger_count READ (fx, n, s) else Inr (fx, n, s)) (\<lambda>st1.
     bind_res (if m_events (fst st1) AND WRITE \<noteq> 0 then trigger_count WRITE st1 else Inr st1) k)
   = bind_res (trigger_both (m_events fx AND READ \<noteq> 0) (m_events fx AND WRITE \<noteq> 0) (fx, n, s)) k"
proof (cases "m_events fx AND READ \<noteq> 0")
  case True
  have "events_ok (m_events fx)" using assms by (simp add: fx_ok_def)
  then have "(m_events fx AND NOT READ) AND WRITE = m_events fx AND WRITE"
    by (elim events_okE) (simp_all add: READ_def WRITE_def)
  with trigger_count_ok [OF assms, of READ n s] True show ?thesis
    by (auto simp: trigger_both_def)
qed (simp add: trigger_both_def)

text \<open>The events of the framework that the bits of \<open>epoll_wait\<close> stand for.\<close>

definition real_of :: "u32 \<Rightarrow> u32" where
  "real_of revents = (if revents AND EPOLLIN \<noteq> 0 then READ else NONE) OR
     (if revents AND EPOLLOUT \<noteq> 0 then WRITE else NONE)"

lemma events_ok_real_of: "events_ok (real_of revents)"
  by (simp add: real_of_def events_ok_def READ_def WRITE_def NONE_def)

lemma process_fd_event_alt:
  assumes "revents AND (EPOLLERR OR EPOLLHUP) = 0"
  shows "process_fd_event ctl fd revents io =
     (let fx = io_contexts io ! fd; r = real_of revents
      in if m_events fx AND r = 0 then Inr io
         else
           let left_events = m_events fx AND NOT r;
               (failed, k) = ctl (if left_events \<noteq> 0 then CtlMod else CtlDel) (fx_fd fx)
                 (EPOLLET OR left_events) (io_kernel io)
           in if failed then Inr (io\<lparr>io_kernel := k\<rparr>)
              else bind_res (trigger_both (r AND READ \<noteq> 0) (r AND WRITE \<noteq> 0) (fx, io_pending io, io_sched io))
                (\<lambda>(fx2, n2, s2).
                  Inr (io\<lparr>io_kernel := k, io_pending := n2, io_sched := s2,
                          io_contexts := (io_contexts io)[fd := fx2]\<rparr>)))"
  unfolding process_fd_event_def real_of_def Let_def assms NONE_def trigger_both_bind by simp

section \<open>The kernel\<close>

locale epoll =
  fixes ctl :: "epoll_op \<Rightarrow> nat \<Rightarrow> u32 \<Rightarrow> 'k \<Rightarrow> bool \<times> 'k"
    and interest :: "'k \<Rightarrow> nat \<Rightarrow> u32 option"
  assumes ctl_failed: "ctl op fd ev k = (True, k') \<Longrightarrow> interest k' = interest k"
    and ctl_add: "ctl CtlAdd fd ev k = (False, k') \<Longrightarrow> interest k' = (interest k)(fd := Some ev)"
    and ctl_mod: "ctl CtlMod fd ev k = (False, k') \<Longrightarrow> interest k' = (interest k)(fd := Some ev)"
    and ctl_del: "ctl CtlDel fd ev k = (False, k') \<Longrightarrow> interest k' = (interest k)(fd := None)"
begin

lemma ctl_left:
  assumes "ctl (if m \<noteq> 0 then CtlMod else CtlDel) fd (EPOLLET OR m) k = (False, k')"
  shows "interest k' = (interest k)(fd := if m \<noteq> 0 then Some (EPOLLET OR m) else None)"
  using assms ctl_mod ctl_del by (auto split: if_splits)

lemma io_ok_replace:
  assumes "io_ok interest io" "fd < length (io_contexts io)" "fx_ok fd fx"
    "interest k = (interest (io_kernel io))(fd := if m_events fx \<noteq> 0 then Some (EPOLLET OR m_events fx) else None)"
    "n = io_pending io - pend (io_contexts io ! fd) + pend fx"
  shows "io_ok interest (io\<lparr>io_kernel := k, io_pending := n, io_contexts := (io_contexts io)[fd := fx]\<rparr>)"
    "io_ok interest (io\<lparr>io_kernel := k, io_pending := n, io_sched := sc, io_contexts := (io_contexts io)[fd := fx]\<rparr>)"
  using assms by (auto simp: io_ok_def table_ok_update interest_of_update sum_pend_update)

lemma io_ok_kernel:
  "io_ok interest io \<Longrightarrow> interest k = interest (io_kernel io) \<Longrightarrow> io_ok interest (io\<lparr>io_kernel := k\<rparr>)"
  by (simp add: io_ok_def)

text \<open>Registration.\<close>

lemma addEvent_locked_ok:
  assumes "io_ok interest io" "fd < length (io_contexts io)" "ev = READ \<or> ev = WRITE"
    "m_events (io_contexts io ! fd) AND ev = 0" "cb = None \<longrightarrow> snd cur = F_EXEC"
  shows "\<exists>r io'. addEvent_locked ctl fd ev cb True cur io = Inr (r, io') \<and> io_ok interest io' \<and>
     io_sched io' = io_sched io \<and> length (io_contexts io') = length (io_contexts io) \<and>
     (r = 0 \<and> io_contexts io' = (io_contexts io)[fd := io_contexts io' ! fd] \<and>
        m_events (io_contexts io' ! fd) = m_events (io_contexts io ! fd) OR ev \<and>
        io_pending io' = io_pending io + 1 \<and>
        waiting_task ev (io_contexts io' ! fd) = (if cb \<noteq> None then task_of_cb cb (- 1) else task_of_fiber (Some (fst cur)) (- 1))
      \<or> r = - 1 \<and> io_contexts io' = io_contexts io \<and> io_pending io' = io_pending io)"
proof -
  let ?fx = "io_contexts io ! fd"
  have fx: "fx_ok fd ?fx" using assms(1,2) by (simp add: io_ok_def table_ok_def)
  obtain failed k where c: "ctl (if m_events ?fx \<noteq> 0 then CtlMod else CtlAdd) fd (EPOLLET OR m_events ?fx OR ev) (io_kernel io) = (failed, k)"
    by fastforce
  show ?thesis
  proof (cases failed)
    case True
    have "interest k = interest (io_kernel io)" using c True by (auto dest: ctl_failed)
    then show ?thesis using True c assms(4) io_ok_kernel [OF assms(1)]
      by (auto simp: addEvent_locked_def Let_def)
  next
    case False
    obtain ctx where ctx: "getContext ev (?fx\<lparr>m_events := m_events ?fx OR ev\<rparr>) = Inr ctx" "\<not> ec_scheduler ctx" "ec_cb ctx = None" "ec_fiber ctx = None"
      using fx assms(3,4) by (auto simp: fx_ok_def slot_ok_def getContext_def)
    define ctx' where "ctx' = ctx\<lparr>ec_scheduler := True, ec_cb := cb, ec_fiber := if cb = None then Some (fst cur) else None\<rparr>"
    define fx' where "fx' = putContext ev ctx' (?fx\<lparr>m_events := m_events ?fx OR ev\<rparr>)"
    have ev: "m_events fx' = m_events ?fx OR ev" by (simp add: fx'_def putContext_def)
    have "events_ok (m_events ?fx)" using fx by (simp add: fx_ok_def)
    then have fx': "fx_ok fd fx'" "m_events fx' \<noteq> 0" "pend fx' = Suc (pend ?fx)"
      using fx assms(3,4) unfolding fx'_def ctx'_def
      by (elim events_okE disjE; simp add: fx_ok_def slot_ok_def putContext_def events_ok_def pend_def READ_def WRITE_def)+
    have wt: "waiting_task ev fx' = (if cb \<noteq> None then task_of_cb cb (- 1) else task_of_fiber (Some (fst cur)) (- 1))"
      using assms(3) by (auto simp: waiting_task_def fx'_def ctx'_def putContext_def Let_def)
    have "interest k = (interest (io_kernel io))(fd := Some (EPOLLET OR m_events fx'))"
      using ctl_mod ctl_add c False by (auto simp: ev or.assoc split: if_splits)
    then have k: "interest k = (interest (io_kernel io))(fd := if m_events fx' \<noteq> 0 then Some (EPOLLET OR m_events fx') else None)"
      using fx'(2) by simp
    have n: "io_pending io + 1 = io_pending io - pend ?fx + pend fx'"
      using fx'(3) pend_le_sum [OF assms(2)] assms(1) by (simp add: io_ok_def)
    have "addEvent_locked ctl fd ev cb True cur io = Inr (0, io\<lparr>io_kernel := k, io_pending := io_pending io + 1,
        io_contexts := (io_contexts io)[fd := fx']\<rparr>)"
      using c False assms(4,5) ctx by (auto simp: addEvent_locked_def Let_def fx'_def ctx'_def)
    then show ?thesis using io_ok_replace(1) [OF assms(1,2) fx'(1) k n] assms(2) ev wt by auto
  qed
qed

lemma addEvent_grow_ok:
  assumes "io_ok interest io" "32 \<le> length (io_contexts io)" "0 \<le> fd" "\<not> addEvent_found fd (io_contexts io)"
  shows "\<exists>cs. addEvent_grow fd (io_contexts io) = Inr cs \<and> io_ok interest (io\<lparr>io_contexts := cs\<rparr>) \<and>
     nat fd < length cs \<and> length (io_contexts io) \<le> length cs \<and> m_events (cs ! nat fd) = 0"
proof -
  let ?cs = "io_contexts io"
  have fd: "int (length ?cs) \<le> fd" using assms(3,4) by (auto simp: addEvent_found_def)
  define n where "n = nat (fd * 3 div 2)"
  have n: "length ?cs \<le> n" "nat fd < n" using fd assms(2) by (auto simp: n_def)
  define cs where "cs = contextResize n ?cs"
  have cs: "cs = ?cs @ map new_FdContext [length ?cs..<n]" using n by (simp add: cs_def contextResize_def)
  have nth: "cs ! i = (if i < length ?cs then ?cs ! i else new_FdContext i)" if "i < n" for i
    using that n by (auto simp: cs nth_append)
  have "addEvent_grow fd ?cs = Inr cs" using n assms(3) by (simp add: addEvent_grow_def Let_def cs_def n_def contextResize_def)
  moreover have "table_ok cs"
    using assms(1) n nth fx_ok_new unfolding io_ok_def table_ok_def by (auto simp: cs)
  moreover have "interest_of cs = interest_of ?cs"
    using n by (auto simp: interest_of_def fun_eq_iff cs nth_append new_FdContext_def NONE_def)
  moreover have "sum_list (map pend cs) = sum_list (map pend ?cs)"
    by (simp add: cs pend_def new_FdContext_def NONE_def)
  ultimately show ?thesis using assms(1) n fd nth [of "nat fd"]
    by (intro exI [of _ cs]) (auto simp: io_ok_def cs new_FdContext_def NONE_def nth_append)
qed

text \<open>Deletion and cancelling: both take the event out; cancelling queues what waited for it.\<close>

lemma fx_ok_reset:
  assumes "fx_ok i fx" "ev = READ \<or> ev = WRITE" "m_events fx AND ev \<noteq> 0"
  shows "\<exists>ctx. getContext ev (fx\<lparr>m_events := m_events fx AND NOT ev\<rparr>) = Inr ctx \<and>
     fx_ok i (putContext ev (resetContext ctx) (fx\<lparr>m_events := m_events fx AND NOT ev\<rparr>)) \<and>
     pend fx = Suc (pend (putContext ev (resetContext ctx) (fx\<lparr>m_events := m_events fx AND NOT ev\<rparr>)))"
proof -
  from assms(1) have "events_ok (m_events fx)" by (simp add: fx_ok_def)
  then show ?thesis using assms
    by (elim events_okE disjE)
       (auto simp: fx_ok_def slot_ok_def getContext_def putContext_def resetContext_def READ_def WRITE_def
          events_ok_def pend_def)
qed

lemma delEvent_ok:
  assumes "io_ok interest io" "ev = READ \<or> ev = WRITE"
  shows "\<exists>r io'. length (io_contexts io') = length (io_contexts io) \<and> delEvent ctl fd ev io = Inr (r, io') \<and> io_ok interest io' \<and> io_sched io' = io_sched io \<and>
     (r \<longrightarrow> m_events (io_contexts io' ! nat fd) = m_events (io_contexts io ! nat fd) AND NOT ev)"
proof (cases "addEvent_found fd (io_contexts io) \<and> m_events (io_contexts io ! nat fd) AND ev \<noteq> 0")
  case False
  then show ?thesis using assms(1) by (intro exI [of _ False] exI [of _ io]) (auto simp: delEvent_def Let_def)
next
  case True
  let ?i = "nat fd" and ?fx = "io_contexts io ! nat fd"
  let ?m = "m_events ?fx AND NOT ev"
  have i: "?i < length (io_contexts io)" and reg: "m_events ?fx AND ev \<noteq> 0" and fnd: "addEvent_found fd (io_contexts io)"
    using True by (auto simp: addEvent_found_def)
  have fx: "fx_ok ?i ?fx" using assms(1) i by (simp add: io_ok_def table_ok_def)
  obtain failed k where c: "ctl (if ?m \<noteq> 0 then CtlMod else CtlDel) ?i (EPOLLET OR ?m) (io_kernel io) = (failed, k)"
    by fastforce
  obtain ctx where ctx: "getContext ev (?fx\<lparr>m_events := ?m\<rparr>) = Inr ctx"
    "fx_ok ?i (putContext ev (resetContext ctx) (?fx\<lparr>m_events := ?m\<rparr>))"
    "pend ?fx = Suc (pend (putContext ev (resetContext ctx) (?fx\<lparr>m_events := ?m\<rparr>)))"
    using fx_ok_reset [OF fx assms(2) reg] by blast
  define fx' where "fx' = putContext ev (resetContext ctx) (?fx\<lparr>m_events := ?m\<rparr>)"
  have ev: "m_events fx' = ?m" by (simp add: fx'_def putContext_def)
  show ?thesis
  proof (cases failed)
    case True
    then have "delEvent ctl fd ev io = Inr (False, io\<lparr>io_kernel := k\<rparr>)"
      using c fnd reg by (simp add: delEvent_def Let_def)
    moreover have "interest k = interest (io_kernel io)" using c True by (auto dest: ctl_failed)
    ultimately show ?thesis using io_ok_kernel [OF assms(1)] by auto
  next
    case False
    then have d: "delEvent ctl fd ev io = Inr (True, io\<lparr>io_kernel := k, io_pending := io_pending io - 1,
        io_contexts := (io_contexts io)[?i := fx']\<rparr>)"
      using c fnd reg ctx(1) by (simp add: delEvent_def Let_def fx'_def)
    have k: "interest k = (interest (io_kernel io))(?i := if m_events fx' \<noteq> 0 then Some (EPOLLET OR m_events fx') else None)"
      using ctl_left [of ?m ?i "io_kernel io" k] c False unfolding ev by simp
    have n: "io_pending io - 1 = io_pending io - pend ?fx + pend fx'"
      using ctx(3) pend_le_sum [OF i] assms(1) by (simp add: io_ok_def fx'_def)
    from io_ok_replace(1) [OF assms(1) i _ k n] ctx(2) d i ev show ?thesis
      by (auto simp: fx'_def)
  qed
qed

lemma cancelEvent_ok:
  assumes "io_ok interest io" "ev = READ \<or> ev = WRITE"
  shows "\<exists>r io'. length (io_contexts io') = length (io_contexts io) \<and> cancelEvent ctl fd ev io = Inr (r, io') \<and> io_ok interest io' \<and>
     sc_queue (io_sched io') = sc_queue (io_sched io) @
       (if r then [waiting_task ev (io_contexts io ! nat fd)] else []) \<and>
     (r \<longrightarrow> m_events (io_contexts io' ! nat fd) = m_events (io_contexts io ! nat fd) AND NOT ev)"
proof (cases "addEvent_found fd (io_contexts io) \<and> m_events (io_contexts io ! nat fd) AND ev \<noteq> 0")
  case False
  then show ?thesis using assms(1) by (intro exI [of _ False] exI [of _ io]) (auto simp: cancelEvent_def Let_def)
next
  case True
  let ?i = "nat fd" and ?fx = "io_contexts io ! nat fd"
  let ?m = "m_events ?fx AND NOT ev"
  have i: "?i < length (io_contexts io)" and reg: "m_events ?fx AND ev \<noteq> 0" and fnd: "addEvent_found fd (io_contexts io)"
    using True by (auto simp: addEvent_found_def)
  have fx: "fx_ok ?i ?fx" using assms(1) i by (simp add: io_ok_def table_ok_def)
  obtain failed k where c: "ctl (if ?m \<noteq> 0 then CtlMod else CtlDel) ?i (EPOLLET OR ?m) (io_kernel io) = (failed, k)"
    by fastforce
  show ?thesis
  proof (cases failed)
    case True
    then have "cancelEvent ctl fd ev io = Inr (False, io\<lparr>io_kernel := k\<rparr>)"
      using c fnd reg by (simp add: cancelEvent_def Let_def)
    moreover have "interest k = interest (io_kernel io)" using c True by (auto dest: ctl_failed)
    ultimately show ?thesis using io_ok_kernel [OF assms(1)] by auto
  next
    case False
    obtain fx' where t: "triggerEvent ev ?fx (io_sched io) = Inr (fx', snd (schedule (waiting_task ev ?fx) (io_sched io)))"
      "fx_ok ?i fx'" "m_events fx' = ?m" "pend ?fx = Suc (pend fx')" "task_ok (waiting_task ev ?fx)"
      using triggerEvent_correct [OF fx assms(2) reg] by blast
    have d: "cancelEvent ctl fd ev io = Inr (True, io\<lparr>io_kernel := k, io_pending := io_pending io - 1,
        io_sched := snd (schedule (waiting_task ev ?fx) (io_sched io)), io_contexts := (io_contexts io)[?i := fx']\<rparr>)"
      using False c fnd reg t(1) by (simp add: cancelEvent_def Let_def)
    have k: "interest k = (interest (io_kernel io))(?i := if m_events fx' \<noteq> 0 then Some (EPOLLET OR m_events fx') else None)"
      using ctl_left [of ?m ?i "io_kernel io" k] c False unfolding t(3) by simp
    have n: "io_pending io - 1 = io_pending io - pend ?fx + pend fx'"
      using t(4) pend_le_sum [OF i] assms(1) by (simp add: io_ok_def)
    from io_ok_replace(2) [OF assms(1) i t(2) k n] d i t(3,5) show ?thesis
      by (auto simp: schedule_def)
  qed
qed

text \<open>Cancelling everything on a descriptor.\<close>

lemma cancelAll_ok:
  assumes "io_ok interest io"
  shows "\<exists>r io'. length (io_contexts io') = length (io_contexts io) \<and> cancelAll ctl fd io = Inr (r, io') \<and> io_ok interest io' \<and>
     sc_queue (io_sched io') = sc_queue (io_sched io) @
       (if r then fired (m_events (io_contexts io ! nat fd)) (io_contexts io ! nat fd) else []) \<and>
     (r \<longrightarrow> m_events (io_contexts io' ! nat fd) = 0)"
proof (cases "addEvent_found fd (io_contexts io) \<and> m_events (io_contexts io ! nat fd) \<noteq> 0")
  case False
  then show ?thesis using assms(1) by (intro exI [of _ False] exI [of _ io]) (auto simp: cancelAll_def Let_def)
next
  case True
  let ?i = "nat fd" and ?fx = "io_contexts io ! nat fd"
  have i: "?i < length (io_contexts io)" and reg: "m_events ?fx \<noteq> 0" and fnd: "addEvent_found fd (io_contexts io)"
    using True by (auto simp: addEvent_found_def)
  have fx: "fx_ok ?i ?fx" using assms(1) i by (simp add: io_ok_def table_ok_def)
  have eo: "events_ok (m_events ?fx)" using fx by (simp add: fx_ok_def)
  obtain failed k where c: "ctl CtlDel ?i 0 (io_kernel io) = (failed, k)" by fastforce
  show ?thesis
  proof (cases failed)
    case True
    then have "cancelAll ctl fd io = Inr (False, io\<lparr>io_kernel := k\<rparr>)"
      using c fnd reg by (simp add: cancelAll_def Let_def)
    moreover have "interest k = interest (io_kernel io)" using c True by (auto dest: ctl_failed)
    ultimately show ?thesis using io_ok_kernel [OF assms(1)] by auto
  next
    case False
    have pn: "pend ?fx \<le> io_pending io" using pend_le_sum [OF i] assms(1) by (simp add: io_ok_def)
    obtain fx' n' s' where t: "trigger_both (m_events ?fx AND READ \<noteq> 0) (m_events ?fx AND WRITE \<noteq> 0) (?fx, io_pending io, io_sched io)
        = Inr (fx', n', s')" "fx_ok ?i fx'" "m_events fx' = 0" "n' = io_pending io - pend ?fx + pend fx'"
      "sc_queue s' = sc_queue (io_sched io) @ fired (m_events ?fx) ?fx"
      using trigger_both_ok [OF fx eo _ pn, of "io_sched io"] by auto
    have d: "cancelAll ctl fd io = Inr (True, io\<lparr>io_kernel := k, io_pending := n', io_sched := s',
        io_contexts := (io_contexts io)[?i := fx']\<rparr>)"
      using False c fnd reg t(1,3)
      by (simp add: cancelAll_def Let_def trigger_second [OF fx] split del: if_split)
    have k: "interest k = (interest (io_kernel io))(?i := if m_events fx' \<noteq> 0 then Some (EPOLLET OR m_events fx') else None)"
      using c False t(3) by (auto dest: ctl_del)
    from io_ok_replace(2) [OF assms(1) i t(2) k t(4)] d i t(3,5) show ?thesis by auto
  qed
qed

text \<open>An event of \<open>epoll_wait\<close> without error bits, of which everything or nothing is registered.\<close>

lemma process_fd_event_ok:
  assumes "io_ok interest io" "fd < length (io_contexts io)" "revents AND (EPOLLERR OR EPOLLHUP) = 0"
    "m_events (io_contexts io ! fd) AND real_of revents \<in> {0, real_of revents}"
  shows "\<exists>io' b. process_fd_event ctl fd revents io = Inr io' \<and> io_ok interest io' \<and>
     length (io_contexts io') = length (io_contexts io) \<and>
     sc_queue (io_sched io') = sc_queue (io_sched io) @ (if b then fired (real_of revents) (io_contexts io ! fd) else []) \<and>
     (b \<longrightarrow> m_events (io_contexts io' ! fd) = m_events (io_contexts io ! fd) AND NOT (real_of revents))"
proof (cases "m_events (io_contexts io ! fd) AND real_of revents = 0")
  case True
  then have "process_fd_event ctl fd revents io = Inr io"
    unfolding process_fd_event_alt [OF assms(3)] by (simp add: Let_def)
  then show ?thesis using assms(1) by (intro exI [of _ io] exI [of _ False]) simp
next
  case False
  let ?fx = "io_contexts io ! fd" and ?r = "real_of revents"
  let ?m = "m_events ?fx AND NOT ?r"
  have sub: "m_events ?fx AND ?r = ?r" using False assms(4) by simp
  have fx: "fx_ok fd ?fx" using assms(1,2) by (simp add: io_ok_def table_ok_def)
  then have fdx: "fx_fd ?fx = fd" by (simp add: fx_ok_def)
  obtain failed k where c: "ctl (if ?m \<noteq> 0 then CtlMod else CtlDel) fd (EPOLLET OR ?m) (io_kernel io) = (failed, k)"
    by fastforce
  show ?thesis
  proof (cases failed)
    case True
    then have "process_fd_event ctl fd revents io = Inr (io\<lparr>io_kernel := k\<rparr>)"
      using c False fdx unfolding process_fd_event_alt [OF assms(3)] by (simp add: Let_def split del: if_split)
    moreover have "interest k = interest (io_kernel io)" using c True by (auto dest: ctl_failed)
    ultimately show ?thesis using io_ok_kernel [OF assms(1)]
      by (intro exI [of _ "io\<lparr>io_kernel := k\<rparr>"] exI [of _ False]) simp
  next
    case nf: False
    have pn: "pend ?fx \<le> io_pending io" using pend_le_sum [OF assms(2)] assms(1) by (simp add: io_ok_def)
    obtain fx' n' s' where t: "trigger_both (?r AND READ \<noteq> 0) (?r AND WRITE \<noteq> 0) (?fx, io_pending io, io_sched io)
        = Inr (fx', n', s')" "fx_ok fd fx'" "m_events fx' = ?m" "n' = io_pending io - pend ?fx + pend fx'"
      "sc_queue s' = sc_queue (io_sched io) @ fired ?r ?fx"
      using trigger_both_ok [OF fx events_ok_real_of sub pn, of "io_sched io"] by auto
    have d: "process_fd_event ctl fd revents io = Inr (io\<lparr>io_kernel := k, io_pending := n', io_sched := s',
        io_contexts := (io_contexts io)[fd := fx']\<rparr>)"
      using nf c False fdx t(1) unfolding process_fd_event_alt [OF assms(3)]
      by (simp add: Let_def split del: if_split)
    have k: "interest k = (interest (io_kernel io))(fd := if m_events fx' \<noteq> 0 then Some (EPOLLET OR m_events fx') else None)"
      using ctl_left [of ?m fd "io_kernel io" k] c nf unfolding t(3) by simp
    show ?thesis
      using io_ok_replace(2) [OF assms(1,2) t(2) k t(4), of s'] d assms(2) t(3,5)
      by (intro exI [of _ "io\<lparr>io_kernel := k, io_pending := n', io_sched := s', io_contexts := (io_contexts io)[fd := fx']\<rparr>"]
          exI [of _ True]) simp
  qed
qed

end

section \<open>The documented kernel\<close>

text \<open>
  An interest list; adding a descriptor that is on it, or changing or removing one that is
  not, fails, and any call may fail for another reason (\<open>ep_faults\<close>).
\<close>

record epoll_table =
  ep_interest :: "nat \<Rightarrow> u32 option"
  ep_faults :: "bool list"

definition table_ctl :: "epoll_op \<Rightarrow> nat \<Rightarrow> u32 \<Rightarrow> epoll_table \<Rightarrow> bool \<times> epoll_table" where
  "table_ctl op fd ev k =
     (let k1 = k\<lparr>ep_faults := tl (ep_faults k)\<rparr>;
          bad = (op = CtlAdd) = (ep_interest k fd \<noteq> None)
      in if bad \<or> (ep_faults k \<noteq> [] \<and> hd (ep_faults k)) then (True, k1)
         else (False, k1\<lparr>ep_interest := (ep_interest k)(fd := if op = CtlDel then None else Some ev)\<rparr>))"

interpretation kernel: epoll table_ctl ep_interest
  by unfold_locales (auto simp: table_ctl_def Let_def split: if_splits)

section \<open>Reachable states\<close>

definition new_io :: "'f callback sched \<Rightarrow> 'f timer_manager \<Rightarrow> bool list \<Rightarrow> ('f, epoll_table) io_manager" where
  "new_io s tm faults =
     \<lparr>io_contexts = contextResize 32 [], io_pending = 0, io_sched = s, io_timers = tm,
      io_kernel = \<lparr>ep_interest = (\<lambda>_. None), ep_faults = faults\<rparr>\<rparr>"

datatype 'f io_op =
    AddEvent int u32 "'f callback option" nat fiber_state
  | DelEvent int u32
  | CancelEvent int u32
  | CancelAll int
  | Process nat u32

fun io_op_step :: "'f io_op \<Rightarrow> ('f, epoll_table) io_manager \<Rightarrow> io_error + ('f, epoll_table) io_manager" where
  "io_op_step (AddEvent fd ev cb f st) io = bind_res (addEvent table_ctl fd ev cb True (f, st) io) (\<lambda>(_, io'). Inr io')"
| "io_op_step (DelEvent fd ev) io = bind_res (delEvent table_ctl fd ev io) (\<lambda>(_, io'). Inr io')"
| "io_op_step (CancelEvent fd ev) io = bind_res (cancelEvent table_ctl fd ev io) (\<lambda>(_, io'). Inr io')"
| "io_op_step (CancelAll fd) io = bind_res (cancelAll table_ctl fd io) (\<lambda>(_, io'). Inr io')"
| "io_op_step (Process fd revents) io = process_fd_event table_ctl fd revents io"

text \<open>
  What the callers guarantee: descriptors are not negative when adding, an event is added
  only when it is not registered, by an executing fiber or with a callback; and, for
  events, what the kernel reports when nothing went wrong on the descriptor.
\<close>

fun io_allowed :: "'f io_op \<Rightarrow> ('f, epoll_table) io_manager \<Rightarrow> bool" where
  "io_allowed (AddEvent fd ev cb f st) io \<longleftrightarrow> 0 \<le> fd \<and> (ev = READ \<or> ev = WRITE) \<and> (cb = None \<longrightarrow> st = F_EXEC) \<and>
     (nat fd < length (io_contexts io) \<longrightarrow> m_events (io_contexts io ! nat fd) AND ev = 0)"
| "io_allowed (DelEvent fd ev) io \<longleftrightarrow> ev = READ \<or> ev = WRITE"
| "io_allowed (CancelEvent fd ev) io \<longleftrightarrow> ev = READ \<or> ev = WRITE"
| "io_allowed (CancelAll fd) io \<longleftrightarrow> True"
| "io_allowed (Process fd revents) io \<longleftrightarrow> fd < length (io_contexts io) \<and>
     revents AND (EPOLLERR OR EPOLLHUP) = 0 \<and>
     m_events (io_contexts io ! fd) AND real_of revents \<in> {0, real_of revents}"

inductive io_reach :: "('f, epoll_table) io_manager \<Rightarrow> bool" where
  init: "io_reach (new_io s tm faults)"
| step: "io_reach io \<Longrightarrow> io_allowed op io \<Longrightarrow> io_op_step op io = Inr io' \<Longrightarrow> io_reach io'"

inductive_cases io_reachE: "io_reach io"

definition io_inv :: "('f, epoll_table) io_manager \<Rightarrow> bool" where
  "io_inv io \<longleftrightarrow> io_ok ep_interest io \<and> 32 \<le> length (io_contexts io)"

lemma new_contexts:
  "table_ok (map new_FdContext [0..<n])"
  "sum_list (map pend (map new_FdContext [0..<n])) = 0"
  "interest_of (map new_FdContext [0..<n]) = (\<lambda>_. None)"
  using fx_ok_new
  by (auto simp: table_ok_def pend_def interest_of_def fun_eq_iff new_FdContext_def NONE_def)

lemma io_inv_new: "io_inv (new_io s tm faults)"
proof -
  show ?thesis unfolding io_inv_def io_ok_def new_io_def
    by (simp add: new_contexts contextResize_def del: map_map upt_Suc)
qed

lemma io_inv_step:
  assumes "io_inv io" "io_allowed op io"
  shows "\<exists>io'. io_op_step op io = Inr io' \<and> io_inv io'"
proof -
  have ok: "io_ok ep_interest io" and l: "32 \<le> length (io_contexts io)" using assms(1) by (simp_all add: io_inv_def)
  show ?thesis
  proof (cases op)
    case (AddEvent fd ev cb f st)
    then have a: "0 \<le> fd" "ev = READ \<or> ev = WRITE" "cb = None \<longrightarrow> snd (f, st) = F_EXEC" using assms(2) by auto
    show ?thesis
    proof (cases "addEvent_found fd (io_contexts io)")
      case True
      then have "nat fd < length (io_contexts io)" "m_events (io_contexts io ! nat fd) AND ev = 0"
        using assms(2) AddEvent by (auto simp: addEvent_found_def)
      from kernel.addEvent_locked_ok [OF ok this(1) a(2) this(2) a(3)] True l AddEvent
      show ?thesis by (auto simp: addEvent_def io_inv_def)
    next
      case False
      obtain cs where g: "addEvent_grow fd (io_contexts io) = Inr cs" "io_ok ep_interest (io\<lparr>io_contexts := cs\<rparr>)"
        "nat fd < length cs" "length (io_contexts io) \<le> length cs" "m_events (cs ! nat fd) = 0"
        using kernel.addEvent_grow_ok [OF ok l a(1) False] by blast
      from kernel.addEvent_locked_ok [OF g(2) _ a(2) _ a(3), of "nat fd"] g False l AddEvent
      show ?thesis by (auto simp: addEvent_def io_inv_def)
    qed
  next
    case (DelEvent fd ev)
    with assms(2) kernel.delEvent_ok [OF ok, of ev fd] l show ?thesis by (auto simp: io_inv_def)
  next
    case (CancelEvent fd ev)
    with assms(2) kernel.cancelEvent_ok [OF ok, of ev fd] l show ?thesis by (auto simp: io_inv_def)
  next
    case (CancelAll fd)
    with kernel.cancelAll_ok [OF ok, of fd] l show ?thesis by (auto simp: io_inv_def)
  next
    case (Process fd revents)
    with assms(2) kernel.process_fd_event_ok [OF ok, of fd revents] l show ?thesis by (auto simp: io_inv_def)
  qed
qed

lemma set_bit_not_0: "bit (w :: 'a::len word) n \<Longrightarrow> w \<noteq> 0"
  by auto

lemma io_reach_inv: "io_reach io \<Longrightarrow> io_inv io"
proof (induction rule: io_reach.induct)
  case (init s tm faults)
  then show ?case by (rule io_inv_new)
next
  case (step io op io')
  then show ?case using io_inv_step [of io op] by auto
qed

section \<open>Properties\<close>

text \<open>
  C3. In every reachable state, whichever \<open>epoll_ctl\<close> calls failed on the way, each
  context belongs to its descriptor and holds a scheduler and exactly one of a fiber and a
  callback for each registered event and nothing for the others, the number of pending events is the
  number of registered ones, and the kernel's interest list is what is registered; and the
  next operation that its callers are allowed to make does not run into an assertion.
\<close>

theorem io_manager_consistent:
  assumes "io_reach io" "io_allowed op io"
  shows "table_ok (io_contexts io) \<and> io_pending io = sum_list (map pend (io_contexts io)) \<and>
     ep_interest (io_kernel io) = interest_of (io_contexts io) \<and>
     (\<exists>io'. io_op_step op io = Inr io' \<and> io_reach io')"
  using io_reach_inv [OF assms(1)] io_inv_step [OF _ assms(2)] io_reach.step [OF assms]
  by (auto simp: io_inv_def io_ok_def)

text \<open>A fresh manager and a scheduler without tasks.\<close>

definition io0 :: "(nat, epoll_table) io_manager" where
  "io0 = new_io \<lparr>sc_queue = [], sc_active = 0, sc_idle = 1, sc_stopping = False, sc_autoStop = False,
     sc_threadCount = 1, sc_threadIds = [1], sc_rootThread = - 1, sc_rootFiber = None, sc_state = (\<lambda>_. F_INIT)\<rparr>
     (new_TimerManager 0) []"

lemma io0_contexts [simp]: "io_contexts io0 = contextResize 32 []"
  by (simp add: io0_def new_io_def)

lemma io0_reach: "io_reach io0"
  unfolding io0_def by (rule io_reach.init)

theorem io_manager_consistent_witness:
  "\<exists>io'. io_op_step (AddEvent 40 READ (Some (Direct 7)) 0 F_EXEC) io0 = Inr io' \<and> io_reach io'"
  using io_manager_consistent [OF io0_reach, of "AddEvent 40 READ (Some (Direct 7)) 0 F_EXEC"]
  by (simp add: contextResize_def del: upt_Suc)

text \<open>
  When the kernel reports readiness without an error, for registered events only, the
  fibers and callbacks waiting for exactly these events are queued, reader first, unless
  \<open>epoll_ctl\<close> failed, in which case nothing changes but the kernel.
\<close>

theorem process_fd_event_spec:
  assumes "io_reach io" "io_allowed (Process fd revents) io" "m_events (io_contexts io ! fd) AND real_of revents \<noteq> 0"
  shows "\<exists>io'. process_fd_event table_ctl fd revents io = Inr io' \<and>
     (sc_queue (io_sched io') = sc_queue (io_sched io) @ fired (real_of revents) (io_contexts io ! fd) \<and>
        m_events (io_contexts io' ! fd) = m_events (io_contexts io ! fd) AND NOT (real_of revents)
      \<or> sc_queue (io_sched io') = sc_queue (io_sched io))"
  using kernel.process_fd_event_ok [of io fd revents] io_reach_inv [OF assms(1)] assms(2)
  by (fastforce simp: io_inv_def split: if_splits)

text \<open>Descriptor 3 of \<open>io0\<close> waiting for input.\<close>

definition io1 :: "(nat, epoll_table) io_manager" where
  "io1 = io0\<lparr>io_pending := 1,
     io_contexts := (contextResize 32 [])[3 := \<lparr>fx_read = \<lparr>ec_scheduler = True, ec_fiber = None, ec_cb = Some (Direct 7)\<rparr>,
       fx_write = empty_context, fx_fd = 3, m_events = READ\<rparr>],
     io_kernel := \<lparr>ep_interest = (\<lambda>_. None)(3 := Some (EPOLLET OR READ)), ep_faults = []\<rparr>\<rparr>"

lemma contextResize_32: "contextResize 32 [] = map new_FdContext [0..<32]"
  by (simp add: contextResize_def)

lemma io1_step: "io_op_step (AddEvent 3 READ (Some (Direct 7)) 0 F_EXEC) io0 = Inr io1"
  by (simp add: addEvent_def addEvent_found_def addEvent_locked_def io1_def io0_def new_io_def contextResize_32
      new_FdContext_def NONE_def table_ctl_def getContext_def putContext_def empty_context_def Let_def del: upt_Suc)

lemma io1_facts:
  "length (io_contexts io1) = 32" "m_events (io_contexts io1 ! 3) = READ"
  "fst (table_ctl CtlDel 3 EPOLLET (io_kernel io1)) = False"
  by (simp_all add: io1_def contextResize_32 table_ctl_def del: upt_Suc)

lemma io1_reach: "io_reach io1"
  by (rule io_reach.step [OF io0_reach _ io1_step])
     (simp add: contextResize_def new_FdContext_def NONE_def del: upt_Suc)

theorem process_fd_event_spec_witness:
  "\<exists>io'. process_fd_event table_ctl 3 EPOLLIN io1 = Inr io'"
  using process_fd_event_spec [OF io1_reach, of 3 EPOLLIN] io1_facts
  by (auto simp: real_of_def EPOLLIN_def EPOLLOUT_def EPOLLERR_def EPOLLHUP_def READ_def NONE_def)

text \<open>
  A hang-up or error on a descriptor on which only one kind of event is registered
  aborts the process: the idle loop adds both events to what it triggers, registered or
  not, and triggering the one that is not fails its assertion.
\<close>

theorem hangup_aborts:
  assumes "io_reach io" "fd < length (io_contexts io)" "m_events (io_contexts io ! fd) \<in> {READ, WRITE}"
    "revents AND (EPOLLERR OR EPOLLHUP) \<noteq> 0"
    "fst (table_ctl CtlDel fd EPOLLET (io_kernel io)) = False"
  shows "process_fd_event table_ctl fd revents io = Inl IoAssert"
proof -
  let ?fx = "io_contexts io ! fd"
  define m where "m = m_events ?fx"
  have fx: "fx_ok fd ?fx"
    using io_reach_inv [OF assms(1)] assms(2) by (simp add: io_inv_def io_ok_def table_ok_def)
  then have fdx: "fx_fd ?fx = fd" by (simp add: fx_ok_def)
  obtain k where c: "table_ctl CtlDel fd EPOLLET (io_kernel io) = (False, k)"
    using assms(5) by (metis prod.collapse)
  have r1: "(revents OR (EPOLLIN OR EPOLLOUT)) AND EPOLLIN \<noteq> 0"
    by (rule set_bit_not_0 [of _ 0]) (simp add: EPOLLIN_def bit_simps)
  have r2: "(revents OR (EPOLLIN OR EPOLLOUT)) AND EPOLLOUT \<noteq> 0"
    by (rule set_bit_not_0 [of _ 2]) (simp add: EPOLLOUT_def bit_simps)
  note r = r1 r2
  have abort: "trigger_count WRITE (fx, n, s) = Inl IoAssert" if "m_events fx AND WRITE = 0" for fx :: "'a callback FdContext" and n s
    using that by (simp add: trigger_count_def triggerEvent_def)
  from assms(3) show ?thesis
  proof (elim insertE)
    assume m: "m_events ?fx = READ"
    from trigger_count_ok [OF fx, of READ "io_pending io" "io_sched io"] m obtain fx'
      where "trigger_count READ (?fx, io_pending io, io_sched io) = Inr (fx', io_pending io - 1, snd (schedule (waiting_task READ ?fx) (io_sched io)))"
        "m_events fx' = 0" by auto
    then show ?thesis using assms(4) c fdx r m abort [of fx']
      by (simp add: process_fd_event_def Let_def READ_def WRITE_def NONE_def)
  next
    assume m: "m_events ?fx = WRITE"
    then have "trigger_count READ (?fx, io_pending io, io_sched io) = Inl IoAssert"
      by (simp add: trigger_count_def triggerEvent_def READ_def WRITE_def)
    then show ?thesis using assms(4) c fdx r m
      by (simp add: process_fd_event_def Let_def READ_def WRITE_def NONE_def)
  qed simp
qed

theorem hangup_aborts_witness:
  "process_fd_event table_ctl 3 EPOLLHUP io1 = Inl IoAssert"
  using io1_facts by (intro hangup_aborts [OF io1_reach]) (simp_all add: EPOLLHUP_def EPOLLERR_def)

text \<open>
  The wait of the idle fiber: a timer due in less than \<open>2^31\<close> milliseconds (24.8 days) is
  waited for five seconds at most; from \<open>2^31\<close> to \<open>2^32 - 1\<close> the timeout is negative,
  which \<open>epoll_wait\<close> takes for no limit at all.
\<close>

theorem epoll_timeout_spec:
  "(unat t < 2 ^ 31 \<longrightarrow> epoll_timeout t = min (int (unat t)) 5000) \<and>
   (2 ^ 31 \<le> unat t \<and> unat t < 2 ^ 32 \<longrightarrow> epoll_timeout t < 0) \<and>
   epoll_timeout (- 1) = 5000"
proof -
  have i: "to_int w = (if unat w < 2 ^ 31 then int (unat w) else int (unat w) - 2 ^ 32)" if "unat w < 2 ^ 32" for w :: u64
  proof -
    have "take_bit 32 (unat w) = unat w" using that by (intro take_bit_nat_eq_self) simp
    then have "uint (ucast w :: u32) = int (unat w)" by (simp only: unsigned_ucast_eq uint_nat) simp
    then have *: "to_int w = (int (unat w) + 2 ^ 31) mod 2 ^ 32 - 2 ^ 31"
      by (simp add: to_int_def sint_uint signed_take_bit_eq_take_bit_shift take_bit_eq_mod)
    obtain n where n: "unat w = n" by simp
    have "(int n + 2 ^ 31) mod 2 ^ 32 = (if n < 2 ^ 31 then int n + 2 ^ 31 else int n - 2 ^ 31)"
    proof (cases "n < 2 ^ 31")
      case False
      have "(int n + 2 ^ 31) mod 2 ^ 32 = (int n - 2 ^ 31) mod 2 ^ 32"
        using minus_mod_self2 [of "int n + 2 ^ 31" "2 ^ 32"] by simp
      also have "\<dots> = int n - 2 ^ 31" using False that n by (intro mod_pos_pos_trivial) auto
      finally show ?thesis using False by simp
    qed simp
    then show ?thesis unfolding * n by simp
  qed
  have five: "to_int (word_of_int MAX_TIMEOUT) = 5000" using i [of 5000] by (simp add: MAX_TIMEOUT_def)
  have m1: "unat (- 1 :: u64) = 2 ^ 64 - 1" by (simp add: unsigned_minus_1_eq_mask mask_eq_exp_minus_1)
  have "epoll_timeout t = (if unat t < 2 ^ 31 then min (int (unat t)) 5000 else int (unat t) - 2 ^ 32)"
    if "unat t < 2 ^ 32"
  proof -
    have "t \<noteq> - 1" using that m1 by auto
    then have e: "epoll_timeout t = min (to_int t) 5000"
      using five by (auto simp: epoll_timeout_def MAX_TIMEOUT_def min_def)
    obtain n where n: "unat t = n" by simp
    have "to_int t = (if n < 2 ^ 31 then int n else int n - 2 ^ 32)" using i [OF that] by (simp only: n)
    then show ?thesis using that unfolding e n by auto
  qed
  moreover obtain n where n: "unat t = n" by simp
  ultimately have "(n < 2 ^ 31 \<longrightarrow> epoll_timeout t = min (int n) 5000) \<and> (2 ^ 31 \<le> n \<and> n < 2 ^ 32 \<longrightarrow> epoll_timeout t < 0)"
    by auto
  then show ?thesis unfolding n using five by (simp add: epoll_timeout_def)
qed

theorem epoll_timeout_spec_witness:
  "epoll_timeout 100 = 100 \<and> epoll_timeout 0x80000000 < 0"
  using epoll_timeout_spec [where t = 100] epoll_timeout_spec [where t = "0x80000000"] by simp

text \<open>
  Two threads that add events on descriptors beyond the table, both having looked before
  either grew it, can lose each other's contexts: the later one resizes to its own
  descriptor's size, also downwards. Descriptor 100 is in the table of 150 after the first
  growth, and beyond the table of 60 after the second.
\<close>

theorem concurrent_growth_shrinks:
  "\<exists>cs1 cs2. \<not> addEvent_found 100 (io_contexts io0) \<and> \<not> addEvent_found 40 (io_contexts io0) \<and>
     addEvent_grow 100 (io_contexts io0) = Inr cs1 \<and> addEvent_found 100 cs1 \<and>
     addEvent_grow 40 cs1 = Inr cs2 \<and> \<not> addEvent_found 100 cs2"
  by (simp add: addEvent_found_def addEvent_grow_def contextResize_def Let_def del: upt_Suc)

end
