(* ===== verification/Fd_Manager.thy ===== *)
theory Fd_Manager
  imports Fw_Prelude
begin

text \<open>
  \<open>src/src/async/fdmanager.{h,cpp}\<close>: what the hooks know about a file descriptor, and the
  table that maps descriptors to it. A shared pointer is the number of its object in
  \<open>fm_heap\<close>. What \<open>fstat\<close> and \<open>fcntl\<close> report of a descriptor is an argument.

  \<open>get\<close> is two critical sections with the lock dropped between them; they are separate
  definitions, so that interleavings can be written down. The contract of the table, as a
  partial map from descriptors to objects, is the locale \<open>fd_table\<close>.
\<close>

section \<open>Contexts\<close>

record FdCtx =
  fc_isInit :: bool
  fc_isSocket :: bool
  fc_sysNonblock :: bool
  fc_userNonblock :: bool
  fc_isClosed :: bool
  fc_fd :: int
  fc_recvTimeout :: u64
  fc_sendTimeout :: u64

text \<open>
  \<open>init\<close>: \<open>st\<close> is \<open>None\<close> when \<open>fstat\<close> fails, else whether the descriptor is a socket;
  \<open>nonblock\<close> is its \<open>O_NONBLOCK\<close> flag, which the result returns updated.
\<close>

definition FdCtx_init :: "bool option \<Rightarrow> bool \<Rightarrow> FdCtx \<Rightarrow> bool \<times> FdCtx \<times> bool" where
  "FdCtx_init st nonblock c =
     (if fc_isInit c then (True, c, nonblock)
      else
        let c1 = c\<lparr>fc_recvTimeout := - 1, fc_sendTimeout := - 1\<rparr>;
            c2 = (case st of
                    None \<Rightarrow> c1\<lparr>fc_isInit := False, fc_isSocket := False\<rparr>
                  | Some s \<Rightarrow> c1\<lparr>fc_isInit := True, fc_isSocket := s\<rparr>);
            nonblock' = (if fc_isSocket c2 \<and> \<not> nonblock then True else nonblock);
            c3 = (if fc_isSocket c2 then c2\<lparr>fc_sysNonblock := True\<rparr> else c2\<lparr>fc_sysNonblock := False\<rparr>);
            c4 = c3\<lparr>fc_userNonblock := False, fc_isClosed := False\<rparr>
        in (fc_isInit c4, c4, nonblock'))"

definition new_FdCtx :: "bool option \<Rightarrow> bool \<Rightarrow> int \<Rightarrow> FdCtx \<times> bool" where
  "new_FdCtx st nonblock fd =
     (let c = \<lparr>fc_isInit = False, fc_isSocket = False, fc_sysNonblock = False, fc_userNonblock = False,
               fc_isClosed = False, fc_fd = fd, fc_recvTimeout = - 1, fc_sendTimeout = - 1\<rparr>
      in snd (FdCtx_init st nonblock c))"

text \<open>\<open>SO_RCVTIMEO\<close> on the targets of the build; every other type is taken for \<open>SO_SNDTIMEO\<close>.\<close>

definition SO_RCVTIMEO :: int where "SO_RCVTIMEO = 20"
definition SO_SNDTIMEO :: int where "SO_SNDTIMEO = 21"

definition setTimeout :: "int \<Rightarrow> u64 \<Rightarrow> FdCtx \<Rightarrow> FdCtx" where
  "setTimeout ty v c = (if ty = SO_RCVTIMEO then c\<lparr>fc_recvTimeout := v\<rparr> else c\<lparr>fc_sendTimeout := v\<rparr>)"

definition getTimeout :: "int \<Rightarrow> FdCtx \<Rightarrow> u64" where
  "getTimeout ty c = (if ty = SO_RCVTIMEO then fc_recvTimeout c else fc_sendTimeout c)"

section \<open>The table\<close>

datatype fd_error = OutOfBounds

record FdManager =
  fm_heap :: "nat \<Rightarrow> FdCtx"
  fm_next :: nat
  fm_datas :: "nat option list"

text \<open>\<open>std::vector::resize\<close>\<close>

definition vec_resize :: "nat \<Rightarrow> 'a \<Rightarrow> 'a list \<Rightarrow> 'a list" where
  "vec_resize n x xs = take n xs @ replicate (n - length xs) x"

definition new_FdManager :: "(nat \<Rightarrow> FdCtx) \<Rightarrow> FdManager" where
  "new_FdManager h = \<lparr>fm_heap = h, fm_next = 0, fm_datas = vec_resize 64 None []\<rparr>"

text \<open>The first section of \<open>get\<close>; \<open>None\<close> means that it goes on to the second one.\<close>

definition get_lookup :: "int \<Rightarrow> bool \<Rightarrow> FdManager \<Rightarrow> fd_error + nat option option" where
  "get_lookup fd auto_create m =
     (if fd = - 1 then Inr (Some None)
      else if int (length (fm_datas m)) \<le> fd then
        (if \<not> auto_create then Inr (Some None) else Inr None)
      else if fd < 0 then Inl OutOfBounds
      else if fm_datas m ! nat fd \<noteq> None \<or> \<not> auto_create then Inr (Some (fm_datas m ! nat fd))
      else Inr None)"

text \<open>The second one, under the write lock. \<open>fd * 1.5\<close> is converted to an unsigned size.\<close>

definition get_create :: "(int \<Rightarrow> FdCtx) \<Rightarrow> int \<Rightarrow> FdManager \<Rightarrow> nat \<times> FdManager" where
  "get_create mk fd m =
     (let c = fm_next m;
          datas = (if int (length (fm_datas m)) \<le> fd
                   then vec_resize (nat (fd * 3 div 2)) None (fm_datas m) else fm_datas m)
      in (c, m\<lparr>fm_heap := (fm_heap m)(c := mk fd), fm_next := Suc c, fm_datas := datas[nat fd := Some c]\<rparr>))"

definition FdManager_get ::
  "(int \<Rightarrow> FdCtx) \<Rightarrow> int \<Rightarrow> bool \<Rightarrow> FdManager \<Rightarrow> fd_error + nat option \<times> FdManager" where
  "FdManager_get mk fd auto_create m =
     bind_res (get_lookup fd auto_create m) (\<lambda>r.
       case r of
         Some p \<Rightarrow> Inr (p, m)
       | None \<Rightarrow> (let (c, m') = get_create mk fd m in Inr (Some c, m')))"

definition FdManager_del :: "int \<Rightarrow> FdManager \<Rightarrow> fd_error + FdManager" where
  "FdManager_del fd m =
     (if int (length (fm_datas m)) \<le> fd then Inr m
      else if fd < 0 then Inl OutOfBounds
      else Inr (m\<lparr>fm_datas := (fm_datas m)[nat fd := None]\<rparr>))"

text \<open>Mutation through a pointer, as the hooks do it.\<close>

definition update_ctx :: "nat \<Rightarrow> (FdCtx \<Rightarrow> FdCtx) \<Rightarrow> FdManager \<Rightarrow> FdManager" where
  "update_ctx c f m = m\<lparr>fm_heap := (fm_heap m)(c := f (fm_heap m c))\<rparr>"

section \<open>The table as a map\<close>

definition fd_map :: "FdManager \<Rightarrow> nat \<Rightarrow> nat option" where
  "fd_map m fd = (if fd < length (fm_datas m) then fm_datas m ! fd else None)"

text \<open>Objects in use were allocated, and no two descriptors share one.\<close>

definition fdm_ok :: "FdManager \<Rightarrow> bool" where
  "fdm_ok m \<longleftrightarrow> 64 \<le> length (fm_datas m) \<and> (\<forall>fd c. fd_map m fd = Some c \<longrightarrow> c < fm_next m) \<and>
     (\<forall>fd fd' c. fd_map m fd = Some c \<longrightarrow> fd_map m fd' = Some c \<longrightarrow> fd = fd')"

lemma fd_map_resize [simp]:
  "length (fm_datas m) \<le> n \<Longrightarrow> fd_map (m\<lparr>fm_datas := vec_resize n None (fm_datas m)\<rparr>) = fd_map m"
  by (auto simp: fd_map_def vec_resize_def nth_append fun_eq_iff)

lemma length_vec_resize [simp]: "length (vec_resize n x xs) = n"
  by (simp add: vec_resize_def)

lemma get_create_map:
  assumes "64 \<le> length (fm_datas m)" "0 \<le> fd"
  shows "fd_map (snd (get_create mk fd m)) = (fd_map m)(nat fd := Some (fm_next m))"
    and "length (fm_datas m) \<le> length (fm_datas (snd (get_create mk fd m)))"
    and "nat fd < length (fm_datas (snd (get_create mk fd m)))"
  using assms
  by (auto simp: get_create_def Let_def fd_map_def vec_resize_def nth_append nth_list_update fun_eq_iff)

lemma fdm_ok_new [inv_intros]: "fdm_ok (new_FdManager h)"
  by (auto simp: fdm_ok_def new_FdManager_def fd_map_def vec_resize_def)

lemma fdm_ok_create [inv_intros]:
  assumes "fdm_ok m" "0 \<le> fd"
  shows "fdm_ok (snd (get_create mk fd m))"
proof -
  have n: "fm_next (snd (get_create mk fd m)) = Suc (fm_next m)" by (simp add: get_create_def Let_def)
  have l: "64 \<le> length (fm_datas m)" using assms(1) by (simp add: fdm_ok_def)
  show ?thesis using assms(1) get_create_map [OF l assms(2), of mk] n
    unfolding fdm_ok_def by (fastforce split: if_splits simp: less_Suc_eq)
qed

lemma fdm_ok_del [inv_intros]: "fdm_ok m \<Longrightarrow> FdManager_del fd m = Inr m' \<Longrightarrow> fdm_ok m'"
  by (fastforce simp: fdm_ok_def FdManager_del_def fd_map_def nth_list_update split: if_splits)

section \<open>The contract\<close>

text \<open>What the hooks rely on: a lookup that may create, a lookup that does not, a removal.\<close>

locale fd_table =
  fixes ok :: "'s \<Rightarrow> bool"
    and tab :: "'s \<Rightarrow> nat \<Rightarrow> 'c option"
    and get :: "int \<Rightarrow> bool \<Rightarrow> 's \<Rightarrow> 'e + 'c option \<times> 's"
    and del :: "int \<Rightarrow> 's \<Rightarrow> 'e + 's"
  assumes get_present: "ok s \<Longrightarrow> 0 \<le> fd \<Longrightarrow> tab s (nat fd) = Some c \<Longrightarrow> get fd b s = Inr (Some c, s)"
    and get_absent: "ok s \<Longrightarrow> 0 \<le> fd \<Longrightarrow> tab s (nat fd) = None \<Longrightarrow> get fd False s = Inr (None, s)"
    and get_new: "ok s \<Longrightarrow> 0 \<le> fd \<Longrightarrow> tab s (nat fd) = None \<Longrightarrow>
      \<exists>c s'. get fd True s = Inr (Some c, s') \<and> ok s' \<and> tab s' = (tab s)(nat fd := Some c) \<and>
        (\<forall>fd'. tab s fd' \<noteq> Some c)"
    and del_law: "ok s \<Longrightarrow> 0 \<le> fd \<Longrightarrow> \<exists>s'. del fd s = Inr s' \<and> ok s' \<and> tab s' = (tab s)(nat fd := None)"
begin

lemma get_get:
  assumes "ok s" "0 \<le> fd"
  shows "\<exists>c s'. get fd True s = Inr (Some c, s') \<and> ok s' \<and> get fd b s' = Inr (Some c, s') \<and>
     (\<forall>fd'. fd' \<noteq> nat fd \<longrightarrow> tab s' fd' = tab s fd' \<and> (tab s fd' = Some c \<longrightarrow> tab s (nat fd) = Some c))"
proof (cases "tab s (nat fd)")
  case None
  then obtain c s' where c: "get fd True s = Inr (Some c, s')" "ok s'"
    "tab s' = (tab s)(nat fd := Some c)" "\<forall>fd'. tab s fd' \<noteq> Some c"
    using get_new [OF assms] by blast
  then have "get fd b s' = Inr (Some c, s')" using get_present [OF c(2) assms(2)] by simp
  with c show ?thesis by auto
next
  case (Some c)
  then show ?thesis using get_present [OF assms Some] assms by auto
qed

lemma del_get:
  assumes "ok s" "0 \<le> fd"
  shows "\<exists>s'. del fd s = Inr s' \<and> ok s' \<and> get fd False s' = Inr (None, s') \<and>
     (\<forall>fd'. fd' \<noteq> nat fd \<longrightarrow> tab s' fd' = tab s fd')"
  using del_law [OF assms] get_absent [OF _ assms(2)] by fastforce

end

interpretation fdm: fd_table fdm_ok fd_map "FdManager_get mk" FdManager_del for mk
proof
  fix s fd c b assume a: "fdm_ok s" "0 \<le> (fd::int)" "fd_map s (nat fd) = Some c"
  then show "FdManager_get mk fd b s = Inr (Some c, s)"
    by (auto simp: FdManager_get_def get_lookup_def fd_map_def split: if_splits)
next
  fix s and fd :: int assume a: "fdm_ok s" "0 \<le> fd" "fd_map s (nat fd) = None"
  then show "FdManager_get mk fd False s = Inr (None, s)"
    by (auto simp: FdManager_get_def get_lookup_def fd_map_def nat_less_iff split: if_splits)
  have "get_lookup fd True s = Inr None"
    using a by (auto simp: get_lookup_def fd_map_def nat_less_iff split: if_splits)
  then have g: "FdManager_get mk fd True s = Inr (Some (fm_next s), snd (get_create mk fd s))"
    by (simp add: FdManager_get_def get_create_def Let_def)
  have l: "64 \<le> length (fm_datas s)" using a(1) by (simp add: fdm_ok_def)
  have "\<forall>fd'. fd_map s fd' \<noteq> Some (fm_next s)" using a(1) by (auto simp: fdm_ok_def)
  then show "\<exists>c s'. FdManager_get mk fd True s = Inr (Some c, s') \<and> fdm_ok s' \<and>
      fd_map s' = (fd_map s)(nat fd := Some c) \<and> (\<forall>fd'. fd_map s fd' \<noteq> Some c)"
    using g get_create_map(1) [OF l a(2)] fdm_ok_create [OF a(1,2)] by blast
next
  fix s and fd :: int assume a: "fdm_ok s" "0 \<le> fd"
  let ?s = "if int (length (fm_datas s)) \<le> fd then s else s\<lparr>fm_datas := (fm_datas s)[nat fd := None]\<rparr>"
  have d: "FdManager_del fd s = Inr ?s" using a(2) by (simp add: FdManager_del_def)
  have "fd_map ?s = (fd_map s)(nat fd := None)"
    using a(2) by (auto simp: fd_map_def fun_eq_iff nth_list_update)
  then show "\<exists>s'. FdManager_del fd s = Inr s' \<and> fdm_ok s' \<and> fd_map s' = (fd_map s)(nat fd := None)"
    using d fdm_ok_del [OF a(1) d] by blast
qed

section \<open>Properties\<close>

text \<open>
  \<open>get\<close> with \<open>auto_create\<close> on a non-negative descriptor always returns a context: the one
  the table holds, or a new one no other descriptor has; asking again returns the same one,
  and the entries of all other descriptors stay as they are, also when the table grows.
\<close>

theorem FdManager_get_spec:
  assumes "fdm_ok m" "0 \<le> fd"
  shows "\<exists>c m'. FdManager_get mk fd True m = Inr (Some c, m') \<and> fdm_ok m' \<and>
     FdManager_get mk fd auto m' = Inr (Some c, m') \<and>
     (\<forall>fd'. fd' \<noteq> nat fd \<longrightarrow> fd_map m' fd' = fd_map m fd' \<and>
        (fd_map m fd' = Some c \<longrightarrow> fd_map m (nat fd) = Some c))"
  using assms by (rule fdm.get_get)

text \<open>Contexts of descriptors that are sockets.\<close>

definition socket_ctx :: "int \<Rightarrow> FdCtx" where
  "socket_ctx fd = fst (new_FdCtx (Some True) False fd)"

theorem FdManager_get_spec_witness:
  "\<exists>c m'. FdManager_get socket_ctx 200 True (new_FdManager (\<lambda>_. socket_ctx 0)) = Inr (Some c, m') \<and> fdm_ok m' \<and>
     FdManager_get socket_ctx 200 False m' = Inr (Some c, m')"
  using FdManager_get_spec [OF fdm_ok_new, of 200 socket_ctx "\<lambda>_. socket_ctx 0" False] by auto

text \<open>
  Two threads that both look a descriptor up before either creates it end up with two
  different contexts for it, and the table keeps the second: the second section does not
  look again.
\<close>

theorem FdManager_get_race:
  "let m0 = new_FdManager h;
       (c1, m1) = get_create mk 5 m0;
       (c2, m2) = get_create mk 5 m1
   in get_lookup 5 True m0 = Inr None \<and> c1 \<noteq> c2 \<and> fd_map m2 5 = Some c2"
  by (simp add: new_FdManager_def get_create_def get_lookup_def fd_map_def vec_resize_def Let_def)

end
