(* ===== verification/Hooks.thy ===== *)
theory Hooks
  imports Io_Manager Fd_Manager
begin

text \<open>
  \<open>src/src/async/hook.cpp\<close>: the system calls the framework replaces. A hooked read or write
  that would block registers the calling fiber with the IO manager, arms a timer for the
  timeout of the socket and yields; it is therefore a machine of two moves, \<open>IOhook_retry\<close>
  up to the point where the call returns or the fiber is suspended, and \<open>IOhook_resume\<close>
  when the fiber runs again. What the replaced system calls return is an argument: the list
  of the results of the successive calls, each with the \<open>errno\<close> it leaves.

  The kernel's status flags of descriptors (\<open>fcntl\<close>, \<open>ioctl\<close>) are a parameter with the
  documented laws as the locale \<open>status_flags\<close>.
\<close>

section \<open>Constants and state\<close>

definition EINTR :: int where "EINTR = 4"
definition EBADF :: int where "EBADF = 9"
definition EAGAIN :: int where "EAGAIN = 11"
definition ETIMEDOUT :: int where "ETIMEDOUT = 110"
definition EINPROGRESS :: int where "EINPROGRESS = 115"
definition SOL_SOCKET :: int where "SOL_SOCKET = 1"
definition O_NONBLOCK :: u32 where "O_NONBLOCK = 0x800"
definition FIONBIO :: u64 where "FIONBIO = 0x5421"

text \<open>The callbacks the hooks give to timers: the lambda of a timeout, and waking a fiber.\<close>

datatype hook_cb = OnTimeout nat int u32 | WakeFiber nat

datatype hook_error = HookIo io_error | HookTimer timer_error | HookFd fd_error | NoMoreResults

text \<open>
  \<open>hk_tinfo\<close>: the \<open>timer_info\<close> objects, \<open>None\<close> once the last shared pointer is gone, else the
  value of \<open>cancelled\<close>.
\<close>

record 'k hook_world =
  hk_enable :: bool
  hk_io :: "(hook_cb, 'k) io_manager"
  hk_fdm :: FdManager
  hk_tinfo :: "nat \<Rightarrow> int option"
  hk_errno :: int

type_synonym 'k epoll_ctl = "epoll_op \<Rightarrow> nat \<Rightarrow> u32 \<Rightarrow> 'k \<Rightarrow> bool \<times> 'k"

text \<open>What a replaced function returned, and \<open>errno\<close> after it.\<close>

type_synonym sysres = "int \<times> int"

text \<open>\<open>while (n == -1 && errno == EINTR)\<close>\<close>

fun call_fun :: "sysres list \<Rightarrow> (sysres \<times> sysres list) option" where
  "call_fun [] = None"
| "call_fun ((n, e) # rs) = (if n = - 1 \<and> e = EINTR then call_fun rs else Some ((n, e), rs))"

definition set_errno :: "sysres \<Rightarrow> 'k hook_world \<Rightarrow> 'k hook_world" where
  "set_errno r w = (if fst r = - 1 then w\<lparr>hk_errno := snd r\<rparr> else w)"

section \<open>Reading and writing\<close>

text \<open>What a suspended call keeps on its stack; \<open>iw_timer\<close> is the timer it armed.\<close>

record io_wait =
  iw_fd :: int
  iw_event :: u32
  iw_to :: u64
  iw_tinfo :: nat
  iw_timer :: "nat option"

datatype hook_result = Done int | Suspended io_wait

definition lift_io :: "io_error + 'a \<Rightarrow> hook_error + 'a" where
  "lift_io r = (case r of Inl e \<Rightarrow> Inl (HookIo e) | Inr x \<Rightarrow> Inr x)"

definition lift_timer :: "timer_error + 'a \<Rightarrow> hook_error + 'a" where
  "lift_timer r = (case r of Inl e \<Rightarrow> Inl (HookTimer e) | Inr x \<Rightarrow> Inr x)"

definition lift_fd :: "fd_error + 'a \<Rightarrow> hook_error + 'a" where
  "lift_fd r = (case r of Inl e \<Rightarrow> Inl (HookFd e) | Inr x \<Rightarrow> Inr x)"

text \<open>\<open>if (timer) timer->cancel()\<close>\<close>

definition cancel_timer :: "nat option \<Rightarrow> 'k hook_world \<Rightarrow> hook_error + 'k hook_world" where
  "cancel_timer t w =
     (case t of
        None \<Rightarrow> Inr w
      | Some a \<Rightarrow> bind_res (lift_timer (timer_cancel a (io_timers (hk_io w)))) (\<lambda>(_, tm).
          Inr (w\<lparr>hk_io := (hk_io w)\<lparr>io_timers := tm\<rparr>\<rparr>)))"

text \<open>\<open>if (to != -1) timer = iom->addConditionTimer(to, ..., winfo)\<close>, at a fresh address \<open>a\<close>.\<close>

definition arm_timer ::
  "u64 \<Rightarrow> nat \<Rightarrow> u64 \<Rightarrow> nat \<Rightarrow> int \<Rightarrow> u32 \<Rightarrow> 'k hook_world \<Rightarrow> nat option \<times> 'k hook_world" where
  "arm_timer now a to ti fd ev w =
     (if to \<noteq> - 1
      then (Some a, w\<lparr>hk_io := (hk_io w)\<lparr>io_timers :=
             snd (addConditionTimer now a to (OnTimeout ti fd ev) ti False (io_timers (hk_io w)))\<rparr>\<rparr>)
      else (None, w))"

text \<open>
  From \<open>retry\<close> on. \<open>cur\<close> is the running fiber and its state, \<open>ee\<close> the \<open>errno\<close> a failing
  \<open>epoll_ctl\<close> leaves. The \<open>timer_info\<close> dies with the call.
\<close>

definition IOhook_retry ::
  "'k epoll_ctl \<Rightarrow> u64 \<Rightarrow> nat \<Rightarrow> int \<Rightarrow> nat \<times> fiber_state \<Rightarrow> int \<Rightarrow> u32 \<Rightarrow> u64 \<Rightarrow> nat \<Rightarrow> sysres list \<Rightarrow>
   'k hook_world \<Rightarrow> hook_error + hook_result \<times> sysres list \<times> 'k hook_world" where
  "IOhook_retry ctl now a ee cur fd ev to ti rs w =
     (case call_fun rs of
        None \<Rightarrow> Inl NoMoreResults
      | Some (r, rs') \<Rightarrow>
          let w1 = set_errno r w
          in if fst r = - 1 \<and> snd r = EAGAIN then
               (let (timer, w2) = arm_timer now a to ti fd ev w1
                in bind_res (lift_io (addEvent ctl fd ev None True cur (hk_io w2))) (\<lambda>(rt, io).
                  let w3 = w2\<lparr>hk_io := io\<rparr>
                  in if rt \<noteq> 0 then
                       bind_res (cancel_timer timer (w3\<lparr>hk_errno := ee\<rparr>)) (\<lambda>w4.
                         Inr (Done (- 1), rs', w4\<lparr>hk_tinfo := (hk_tinfo w4)(ti := None)\<rparr>))
                     else Inr (Suspended \<lparr>iw_fd = fd, iw_event = ev, iw_to = to, iw_tinfo = ti,
                                          iw_timer = timer\<rparr>, rs', w3)))
             else Inr (Done (fst r), rs', w1\<lparr>hk_tinfo := (hk_tinfo w1)(ti := None)\<rparr>))"

text \<open>After \<open>YieldToHold\<close> has returned.\<close>

definition IOhook_resume ::
  "'k epoll_ctl \<Rightarrow> u64 \<Rightarrow> nat \<Rightarrow> int \<Rightarrow> nat \<times> fiber_state \<Rightarrow> io_wait \<Rightarrow> sysres list \<Rightarrow>
   'k hook_world \<Rightarrow> hook_error + hook_result \<times> sysres list \<times> 'k hook_world" where
  "IOhook_resume ctl now a ee cur iw rs w =
     bind_res (cancel_timer (iw_timer iw) w) (\<lambda>w1.
       case hk_tinfo w1 (iw_tinfo iw) of
         Some c \<Rightarrow>
           if c \<noteq> 0 then
             Inr (Done (- 1), rs, w1\<lparr>hk_errno := c, hk_tinfo := (hk_tinfo w1)(iw_tinfo iw := None)\<rparr>)
           else IOhook_retry ctl now a ee cur (iw_fd iw) (iw_event iw) (iw_to iw) (iw_tinfo iw) rs w1
       | None \<Rightarrow> IOhook_retry ctl now a ee cur (iw_fd iw) (iw_event iw) (iw_to iw) (iw_tinfo iw) rs w1)"

text \<open>The lambda of the timer.\<close>

definition on_timeout ::
  "'k epoll_ctl \<Rightarrow> nat \<Rightarrow> int \<Rightarrow> u32 \<Rightarrow> 'k hook_world \<Rightarrow> hook_error + 'k hook_world" where
  "on_timeout ctl ti fd ev w =
     (case hk_tinfo w ti of
        None \<Rightarrow> Inr w
      | Some c \<Rightarrow>
          if c \<noteq> 0 then Inr w
          else
            let w1 = w\<lparr>hk_tinfo := (hk_tinfo w)(ti := Some ETIMEDOUT)\<rparr>
            in bind_res (lift_io (cancelEvent ctl fd ev (hk_io w1))) (\<lambda>(_, io).
              Inr (w1\<lparr>hk_io := io\<rparr>)))"

text \<open>The original function, called once.\<close>

definition pass_through :: "sysres list \<Rightarrow> 'k hook_world \<Rightarrow> hook_error + hook_result \<times> sysres list \<times> 'k hook_world" where
  "pass_through rs w =
     (case rs of
        [] \<Rightarrow> Inl NoMoreResults
      | r # rs' \<Rightarrow> Inr (Done (fst r), rs', set_errno r w))"

text \<open>\<open>FdMgr::GetInstance()->get(fd)\<close>, which does not create a context.\<close>

definition FdMgr_get :: "int \<Rightarrow> 'k hook_world \<Rightarrow> hook_error + nat option" where
  "FdMgr_get fd w =
     bind_res (lift_fd (get_lookup fd False (hk_fdm w))) (\<lambda>r.
       case r of Some c \<Rightarrow> Inr c | None \<Rightarrow> Inr None)"

definition IOhook ::
  "'k epoll_ctl \<Rightarrow> u64 \<Rightarrow> nat \<Rightarrow> int \<Rightarrow> nat \<times> fiber_state \<Rightarrow> int \<Rightarrow> u32 \<Rightarrow> int \<Rightarrow> nat \<Rightarrow> sysres list \<Rightarrow>
   'k hook_world \<Rightarrow> hook_error + hook_result \<times> sysres list \<times> 'k hook_world" where
  "IOhook ctl now a ee cur fd ev timeout_so ti rs w =
     (if \<not> hk_enable w then pass_through rs w
      else bind_res (FdMgr_get fd w) (\<lambda>c.
        case c of
          None \<Rightarrow> pass_through rs w
        | Some p \<Rightarrow>
            let ctx = fm_heap (hk_fdm w) p
            in if fc_isClosed ctx then Inr (Done (- 1), rs, w\<lparr>hk_errno := EBADF\<rparr>)
               else if \<not> fc_isSocket ctx \<or> fc_userNonblock ctx then pass_through rs w
               else IOhook_retry ctl now a ee cur fd ev (getTimeout timeout_so ctx) ti rs
                      (w\<lparr>hk_tinfo := (hk_tinfo w)(ti := Some 0)\<rparr>)))"

text \<open>The hooked functions and the event and timeout they pass on.\<close>

datatype hooked_call = H_accept | H_read | H_readv | H_recv | H_recvfrom | H_recvmsg
  | H_write | H_writev | H_send | H_sendto | H_sendmsg

fun hooked_event :: "hooked_call \<Rightarrow> u32 \<times> int" where
  "hooked_event H_accept = (READ, SO_RCVTIMEO)"
| "hooked_event H_read = (READ, SO_RCVTIMEO)"
| "hooked_event H_readv = (READ, SO_RCVTIMEO)"
| "hooked_event H_recv = (READ, SO_RCVTIMEO)"
| "hooked_event H_recvfrom = (READ, SO_RCVTIMEO)"
| "hooked_event H_recvmsg = (READ, SO_RCVTIMEO)"
| "hooked_event H_write = (WRITE, SO_SNDTIMEO)"
| "hooked_event H_writev = (WRITE, SO_SNDTIMEO)"
| "hooked_event H_send = (WRITE, SO_SNDTIMEO)"
| "hooked_event H_sendto = (WRITE, SO_SNDTIMEO)"
| "hooked_event H_sendmsg = (WRITE, SO_SNDTIMEO)"

definition hooked ::
  "hooked_call \<Rightarrow> 'k epoll_ctl \<Rightarrow> u64 \<Rightarrow> nat \<Rightarrow> int \<Rightarrow> nat \<times> fiber_state \<Rightarrow> int \<Rightarrow> nat \<Rightarrow> sysres list \<Rightarrow>
   'k hook_world \<Rightarrow> hook_error + hook_result \<times> sysres list \<times> 'k hook_world" where
  "hooked f ctl now a ee cur fd ti rs w =
     IOhook ctl now a ee cur fd (fst (hooked_event f)) (snd (hooked_event f)) ti rs w"

text \<open>What \<open>accept\<close> and \<open>socket\<close> do with a new descriptor; \<open>mk\<close> builds its context.\<close>

definition register_fd :: "(int \<Rightarrow> FdCtx) \<Rightarrow> int \<Rightarrow> 'k hook_world \<Rightarrow> hook_error + 'k hook_world" where
  "register_fd mk fd w =
     bind_res (lift_fd (FdManager_get mk fd True (hk_fdm w))) (\<lambda>(_, m). Inr (w\<lparr>hk_fdm := m\<rparr>))"

definition accept_return :: "(int \<Rightarrow> FdCtx) \<Rightarrow> int \<Rightarrow> 'k hook_world \<Rightarrow> hook_error + int \<times> 'k hook_world" where
  "accept_return mk fd w =
     (if 0 \<le> fd then bind_res (register_fd mk fd w) (\<lambda>w1. Inr (fd, w1)) else Inr (fd, w))"

definition hook_socket :: "(int \<Rightarrow> FdCtx) \<Rightarrow> sysres \<Rightarrow> 'k hook_world \<Rightarrow> hook_error + int \<times> 'k hook_world" where
  "hook_socket mk r w =
     (let w1 = set_errno r w
      in if \<not> hk_enable w then Inr (fst r, w1)
         else if fst r = - 1 then Inr (fst r, w1)
         else bind_res (register_fd mk (fst r) w1) (\<lambda>w2. Inr (fst r, w2)))"

section \<open>Connecting\<close>

text \<open>
  \<open>IOHook_connect\<close> up to its return or suspension, and after it. \<open>so\<close> is what \<open>getsockopt\<close>
  returns, the pending error it stores and the \<open>errno\<close> it leaves.
\<close>

definition connect_finish ::
  "int \<times> int \<times> int \<Rightarrow> 'k hook_world \<Rightarrow> hook_error + hook_result \<times> 'k hook_world" where
  "connect_finish so w =
     (case so of (rc, error, e) \<Rightarrow>
        if rc = - 1 then Inr (Done (- 1), w\<lparr>hk_errno := e\<rparr>)
        else if error = 0 then Inr (Done 0, w)
        else Inr (Done (- 1), w\<lparr>hk_errno := error\<rparr>))"

definition IOHook_connect ::
  "'k epoll_ctl \<Rightarrow> u64 \<Rightarrow> nat \<Rightarrow> nat \<times> fiber_state \<Rightarrow> int \<Rightarrow> u64 \<Rightarrow> nat \<Rightarrow> sysres \<Rightarrow> int \<times> int \<times> int \<Rightarrow>
   'k hook_world \<Rightarrow> hook_error + hook_result \<times> 'k hook_world" where
  "IOHook_connect ctl now a cur fd timeout_ms ti r so w =
     (if \<not> hk_enable w then Inr (Done (fst r), set_errno r w)
      else bind_res (FdMgr_get fd w) (\<lambda>c.
        case c of
          None \<Rightarrow> Inr (Done (- 1), w\<lparr>hk_errno := EBADF\<rparr>)
        | Some p \<Rightarrow>
            let ctx = fm_heap (hk_fdm w) p; w0 = set_errno r w
            in if fc_isClosed ctx then Inr (Done (- 1), w\<lparr>hk_errno := EBADF\<rparr>)
               else if \<not> fc_isSocket ctx then Inr (Done (fst r), w0)
               else if fc_userNonblock ctx then Inr (Done (fst r), w0)
               else if fst r = 0 then Inr (Done 0, w0)
               else if fst r \<noteq> - 1 \<or> snd r \<noteq> EINPROGRESS then Inr (Done (fst r), w0)
               else
                 let w1 = w0\<lparr>hk_tinfo := (hk_tinfo w0)(ti := Some 0)\<rparr>;
                     (timer, w2) = arm_timer now a timeout_ms ti fd WRITE w1
                 in bind_res (lift_io (addEvent ctl fd WRITE None True cur (hk_io w2))) (\<lambda>(rt, io).
                   let w3 = w2\<lparr>hk_io := io\<rparr>
                   in if rt = 0 then
                        Inr (Suspended \<lparr>iw_fd = fd, iw_event = WRITE, iw_to = timeout_ms,
                                        iw_tinfo = ti, iw_timer = timer\<rparr>, w3)
                      else bind_res (cancel_timer timer w3) (\<lambda>w4.
                        connect_finish so (w4\<lparr>hk_tinfo := (hk_tinfo w4)(ti := None)\<rparr>)))))"

definition connect_resume ::
  "io_wait \<Rightarrow> int \<times> int \<times> int \<Rightarrow> 'k hook_world \<Rightarrow> hook_error + hook_result \<times> 'k hook_world" where
  "connect_resume iw so w =
     bind_res (cancel_timer (iw_timer iw) w) (\<lambda>w1.
       let w2 = w1\<lparr>hk_tinfo := (hk_tinfo w1)(iw_tinfo iw := None)\<rparr>
       in case hk_tinfo w1 (iw_tinfo iw) of
            Some c \<Rightarrow> if c \<noteq> 0 then Inr (Done (- 1), w2\<lparr>hk_errno := c\<rparr>) else connect_finish so w2
          | None \<Rightarrow> connect_finish so w2)"

section \<open>Sleeping\<close>

text \<open>
  The milliseconds the three functions hand to \<open>addTimer\<close>: \<open>seconds * 1000\<close> is computed in
  \<open>unsigned int\<close>, and \<open>nanosleep\<close> stores the sum in an \<open>int\<close>, which \<open>addTimer\<close> widens.
\<close>

definition sleep_ms :: "u32 \<Rightarrow> u64" where "sleep_ms seconds = ucast (seconds * 1000)"
definition usleep_ms :: "u32 \<Rightarrow> u64" where "usleep_ms usec = ucast (usec div 1000)"

definition nanosleep_ms :: "int \<Rightarrow> int \<Rightarrow> u64" where
  "nanosleep_ms tv_sec tv_nsec =
     word_of_int (sint (word_of_int (tv_sec * 1000 + tv_nsec div 1000 div 1000) :: u32))"

definition hook_sleep ::
  "u64 \<Rightarrow> nat \<Rightarrow> nat \<Rightarrow> u64 \<Rightarrow> 'k hook_world \<Rightarrow> 'k hook_world" where
  "hook_sleep now a fiber ms w =
     w\<lparr>hk_io := (hk_io w)\<lparr>io_timers :=
       snd (addTimer now a ms (Some (Direct (WakeFiber fiber))) False (io_timers (hk_io w)))\<rparr>\<rparr>"

section \<open>Closing\<close>

text \<open>\<open>iom\<close>: whether the thread has an IO manager.\<close>

definition hook_close ::
  "'k epoll_ctl \<Rightarrow> bool \<Rightarrow> int \<Rightarrow> sysres \<Rightarrow> 'k hook_world \<Rightarrow> hook_error + int \<times> 'k hook_world" where
  "hook_close ctl iom fd r w =
     (if \<not> hk_enable w then Inr (fst r, set_errno r w)
      else bind_res (FdMgr_get fd w) (\<lambda>c.
        case c of
          None \<Rightarrow> Inr (fst r, set_errno r w)
        | Some p \<Rightarrow>
            bind_res (if iom then lift_io (cancelAll ctl fd (hk_io w)) else Inr (False, hk_io w)) (\<lambda>(_, io).
            let m1 = update_ctx p (\<lambda>x. x\<lparr>fc_isClosed := True\<rparr>) (hk_fdm w)
            in bind_res (lift_fd (FdManager_del fd m1)) (\<lambda>m2.
              Inr (fst r, set_errno r (w\<lparr>hk_io := io, hk_fdm := m2\<rparr>))))))"

section \<open>Descriptor flags\<close>

definition F_GETFL :: int where "F_GETFL = 3"
definition F_SETFL :: int where "F_SETFL = 4"

text \<open>Commands whose argument the code fetches and passes on; the others are called without one.\<close>

definition fcntl_with_arg :: "int list" where
  "fcntl_with_arg = [0, 1030, 2, 8, 10, 1024, 1026, 1031, 6, 7, 5, 16, 15]"

text \<open>\<open>fcntl_f fd cmd arg\<close> on the kernel's state \<open>'s\<close>.\<close>

type_synonym 's fcntl_fun = "int \<Rightarrow> int \<Rightarrow> u32 option \<Rightarrow> 's \<Rightarrow> u32 \<times> 's"

definition tracked_socket :: "int \<Rightarrow> 'k hook_world \<Rightarrow> hook_error + nat option" where
  "tracked_socket fd w =
     bind_res (FdMgr_get fd w) (\<lambda>c.
       case c of
         None \<Rightarrow> Inr None
       | Some p \<Rightarrow>
           (let ctx = fm_heap (hk_fdm w) p
            in if fc_isClosed ctx \<or> \<not> fc_isSocket ctx then Inr None else Inr (Some p)))"

definition hook_fcntl ::
  "'s fcntl_fun \<Rightarrow> int \<Rightarrow> int \<Rightarrow> u32 \<Rightarrow> 's \<times> 'k hook_world \<Rightarrow> hook_error + u32 \<times> 's \<times> 'k hook_world" where
  "hook_fcntl fcntl_f fd cmd arg st =
     (case st of (s, w) \<Rightarrow>
        if cmd = F_SETFL then
          bind_res (tracked_socket fd w) (\<lambda>c.
            case c of
              None \<Rightarrow> (let (r, s1) = fcntl_f fd cmd (Some arg) s in Inr (r, s1, w))
            | Some p \<Rightarrow>
                (let m = update_ctx p (\<lambda>x. x\<lparr>fc_userNonblock := arg AND O_NONBLOCK \<noteq> 0\<rparr>) (hk_fdm w);
                     arg' = (if fc_sysNonblock (fm_heap m p) then arg OR O_NONBLOCK
                             else arg AND NOT O_NONBLOCK);
                     (r, s1) = fcntl_f fd cmd (Some arg') s
                 in Inr (r, s1, w\<lparr>hk_fdm := m\<rparr>)))
        else if cmd = F_GETFL then
          (let (r, s1) = fcntl_f fd cmd None s
           in bind_res (tracked_socket fd w) (\<lambda>c.
             case c of
               None \<Rightarrow> Inr (r, s1, w)
             | Some p \<Rightarrow>
                 Inr (if fc_userNonblock (fm_heap (hk_fdm w) p) then r OR O_NONBLOCK
                      else r AND NOT O_NONBLOCK, s1, w)))
        else if cmd \<in> set fcntl_with_arg then
          (let (r, s1) = fcntl_f fd cmd (Some arg) s in Inr (r, s1, w))
        else
          (let (r, s1) = fcntl_f fd cmd None s in Inr (r, s1, w)))"

text \<open>\<open>ioctl(d, request, &value)\<close>\<close>

definition hook_ioctl ::
  "(int \<Rightarrow> u64 \<Rightarrow> int \<Rightarrow> 's \<Rightarrow> int \<times> 's) \<Rightarrow> int \<Rightarrow> u64 \<Rightarrow> int \<Rightarrow> 's \<times> 'k hook_world \<Rightarrow>
   hook_error + int \<times> 's \<times> 'k hook_world" where
  "hook_ioctl ioctl_f d request val st =
     (case st of (s, w) \<Rightarrow>
        if FIONBIO = request then
          bind_res (tracked_socket d w) (\<lambda>c.
            let w1 = (case c of
                        None \<Rightarrow> w
                      | Some p \<Rightarrow> w\<lparr>hk_fdm := update_ctx p (\<lambda>x. x\<lparr>fc_userNonblock := val \<noteq> 0\<rparr>) (hk_fdm w)\<rparr>);
                (r, s1) = ioctl_f d request val s
            in Inr (r, s1, w1))
        else (let (r, s1) = ioctl_f d request val s in Inr (r, s1, w)))"

text \<open>\<open>setsockopt\<close>: only what the framework records; \<open>tv\<close> is the \<open>timeval\<close> behind \<open>optval\<close>.\<close>

definition timeval_ms :: "int \<times> int \<Rightarrow> u64" where
  "timeval_ms tv = word_of_int (fst tv) * 1000 + word_of_int (sgn (snd tv) * (\<bar>snd tv\<bar> div 1000))"

definition hook_setsockopt ::
  "int \<Rightarrow> int \<Rightarrow> int \<Rightarrow> int \<times> int \<Rightarrow> sysres \<Rightarrow> 'k hook_world \<Rightarrow> hook_error + int \<times> 'k hook_world" where
  "hook_setsockopt sockfd level optname tv r w =
     (if \<not> hk_enable w then Inr (fst r, set_errno r w)
      else if level = SOL_SOCKET \<and> (optname = SO_RCVTIMEO \<or> optname = SO_SNDTIMEO) then
        bind_res (FdMgr_get sockfd w) (\<lambda>c.
          Inr (fst r, set_errno r
            (case c of
               None \<Rightarrow> w
             | Some p \<Rightarrow> w\<lparr>hk_fdm := update_ctx p (setTimeout optname (timeval_ms tv)) (hk_fdm w)\<rparr>)))
      else Inr (fst r, set_errno r w))"

section \<open>Waiting\<close>

lemma io_inv_timers [simp]: "io_inv (io\<lparr>io_timers := tm\<rparr>) = io_inv io"
  by (simp add: io_inv_def io_ok_def)

lemma addEvent_timers:
  "addEvent ctl fd ev cb hs cur io = Inr (r, io') \<Longrightarrow> io_timers io' = io_timers io"
  by (auto simp: addEvent_def addEvent_locked_def Let_def bind_res_eq_Inr split: if_splits prod.splits)

lemma cancelEvent_timers:
  "cancelEvent ctl fd ev io = Inr (r, io') \<Longrightarrow> io_timers io' = io_timers io"
  by (auto simp: cancelEvent_def Let_def bind_res_eq_Inr split: if_splits prod.splits)

text \<open>A descriptor on which the event is not registered yet.\<close>

definition free_event :: "int \<Rightarrow> u32 \<Rightarrow> ('f, 'k) io_manager \<Rightarrow> bool" where
  "free_event fd ev io \<longleftrightarrow> 0 \<le> fd \<and> (ev = READ \<or> ev = WRITE) \<and>
     (nat fd < length (io_contexts io) \<longrightarrow> m_events (io_contexts io ! nat fd) AND ev = 0)"

text \<open>Fiber \<open>f\<close> is suspended until the event happens on the descriptor.\<close>

definition waits_for :: "nat \<Rightarrow> int \<Rightarrow> u32 \<Rightarrow> ('f, 'k) io_manager \<Rightarrow> bool" where
  "waits_for f fd ev io \<longleftrightarrow> 0 \<le> fd \<and> (ev = READ \<or> ev = WRITE) \<and> nat fd < length (io_contexts io) \<and>
     m_events (io_contexts io ! nat fd) AND ev \<noteq> 0 \<and>
     waiting_task ev (io_contexts io ! nat fd) = task_of_fiber (Some f) (- 1)"

lemma new_bit: "ev = READ \<or> ev = WRITE \<Longrightarrow> (m OR ev) AND ev \<noteq> 0"
  by (auto simp: READ_def WRITE_def dest: arg_cong [of _ _ "\<lambda>w. bit w 0"] arg_cong [of _ _ "\<lambda>w. bit w 2"]
      simp: bit_simps)

lemma addEvent_fiber:
  assumes "io_inv io" "free_event fd ev io"
  shows "\<exists>r io'. addEvent table_ctl fd ev None True (f, F_EXEC) io = Inr (r, io') \<and> io_inv io' \<and>
     io_timers io' = io_timers io \<and> sc_queue (io_sched io') = sc_queue (io_sched io) \<and>
     (r = 0 \<and> waits_for f fd ev io' \<or> r = - 1 \<and> free_event fd ev io')"
proof -
  have ok: "io_ok ep_interest io" and l: "32 \<le> length (io_contexts io)"
    using assms(1) by (simp_all add: io_inv_def)
  have fd: "0 \<le> fd" "ev = READ \<or> ev = WRITE" using assms(2) by (auto simp: free_event_def)
  obtain cs where cs: "io_ok ep_interest (io\<lparr>io_contexts := cs\<rparr>)" "nat fd < length cs" "32 \<le> length cs"
    "m_events (cs ! nat fd) AND ev = 0"
    "addEvent table_ctl fd ev None True (f, F_EXEC) io =
       addEvent_locked table_ctl (nat fd) ev None True (f, F_EXEC) (io\<lparr>io_contexts := cs\<rparr>)"
  proof (cases "addEvent_found fd (io_contexts io)")
    case True
    show thesis
      by (rule that [of "io_contexts io"])
        (use True assms(2) ok l in \<open>auto simp: addEvent_found_def free_event_def addEvent_def\<close>)
  next
    case False
    obtain cs where "addEvent_grow fd (io_contexts io) = Inr cs" "io_ok ep_interest (io\<lparr>io_contexts := cs\<rparr>)"
      "nat fd < length cs" "length (io_contexts io) \<le> length cs" "m_events (cs ! nat fd) = 0"
      using kernel.addEvent_grow_ok [OF ok l fd(1) False] by blast
    then show thesis using l False by (intro that [of cs]) (auto simp: addEvent_def)
  qed
  have e: "\<exists>r io'. addEvent table_ctl fd ev None True (f, F_EXEC) io = Inr (r, io') \<and> io_ok ep_interest io' \<and>
     io_sched io' = io_sched io \<and> length (io_contexts io') = length cs \<and>
     (r = 0 \<and> m_events (io_contexts io' ! nat fd) = m_events (cs ! nat fd) OR ev \<and>
        waiting_task ev (io_contexts io' ! nat fd) = task_of_fiber (Some f) (- 1)
      \<or> r = - 1 \<and> io_contexts io' = cs)"
    using kernel.addEvent_locked_ok [of "io\<lparr>io_contexts := cs\<rparr>" "nat fd" ev None "(f, F_EXEC)"] cs fd(2)
    by fastforce
  then obtain r io' where "addEvent table_ctl fd ev None True (f, F_EXEC) io = Inr (r, io')"
    "io_ok ep_interest io'" "io_sched io' = io_sched io" "length (io_contexts io') = length cs"
    "r = 0 \<and> m_events (io_contexts io' ! nat fd) = m_events (cs ! nat fd) OR ev \<and>
        waiting_task ev (io_contexts io' ! nat fd) = task_of_fiber (Some f) (- 1)
      \<or> r = - 1 \<and> io_contexts io' = cs" by blast
  then show ?thesis
    using addEvent_timers [of table_ctl fd ev None True "(f, F_EXEC)" io r io'] fd cs(2-4) new_bit [OF fd(2)]
    by (intro exI [of _ r] exI [of _ io']) (auto simp: io_inv_def waits_for_def free_event_def)
qed

lemma timers_same: "\<exists>tm. w = w\<lparr>hk_io := (hk_io w)\<lparr>io_timers := tm\<rparr>\<rparr>"
  by (rule exI [of _ "io_timers (hk_io w)"]) simp

lemma set_errno_sel [simp]:
  "hk_io (set_errno r w) = hk_io w" "hk_tinfo (set_errno r w) = hk_tinfo w"
  "hk_fdm (set_errno r w) = hk_fdm w" "hk_enable (set_errno r w) = hk_enable w"
  by (simp_all add: set_errno_def)

lemma cancel_timer_ok:
  assumes "timers_ok (io_timers (hk_io w))"
  shows "\<exists>w'. cancel_timer t w = Inr w' \<and> timers_ok (io_timers (hk_io w')) \<and>
     (\<exists>tm. w' = w\<lparr>hk_io := (hk_io w)\<lparr>io_timers := tm\<rparr>\<rparr>) \<and>
     set (m_timers (io_timers (hk_io w'))) =
       set (m_timers (io_timers (hk_io w))) -
         (case t of None \<Rightarrow> {} | Some a \<Rightarrow> if m_cb (m_heap (io_timers (hk_io w)) a) \<noteq> None then {a} else {})"
proof (cases t)
  case None
  then show ?thesis using assms timers_same [of w]
    by (intro exI [of _ w]) (simp add: cancel_timer_def)
next
  case (Some a)
  from timer_cancel_ok [OF assms, of a] obtain r tm where
    "timer_cancel a (io_timers (hk_io w)) = Inr (r, tm)" "timers_ok tm"
    "r \<longleftrightarrow> m_cb (m_heap (io_timers (hk_io w)) a) \<noteq> None"
    "set (m_timers tm) = set (m_timers (io_timers (hk_io w))) - (if r then {a} else {})" by blast
  then show ?thesis using Some by (simp add: cancel_timer_def lift_timer_def) blast
qed

lemma arm_timer_ok:
  assumes "timers_ok (io_timers (hk_io w))" "a \<notin> set (m_timers (io_timers (hk_io w)))"
    "arm_timer now a to ti fd ev w = (t, w')"
  shows "timers_ok (io_timers (hk_io w'))" "t = (if to \<noteq> - 1 then Some a else None)"
    "set (m_timers (io_timers (hk_io w'))) =
       set (m_timers (io_timers (hk_io w))) \<union> (if to \<noteq> - 1 then {a} else {})"
    "to \<noteq> - 1 \<Longrightarrow> m_heap (io_timers (hk_io w')) a =
       new_Timer now to (Some (Bound ti (OnTimeout ti fd ev))) False"
    "\<exists>tm. w' = w\<lparr>hk_io := (hk_io w)\<lparr>io_timers := tm\<rparr>\<rparr>"
proof -
  note ad = addTimer_ok [OF assms(1,2), of now to "Some (Bound ti (OnTimeout ti fd ev))" False]
  consider (unarmed) "to = - 1" "t = None" "w' = w"
    | (armed) "to \<noteq> - 1" "t = Some a"
      "w' = w\<lparr>hk_io := (hk_io w)\<lparr>io_timers :=
         snd (addTimer now a to (Some (Bound ti (OnTimeout ti fd ev))) False (io_timers (hk_io w)))\<rparr>\<rparr>"
    using assms(3) by (cases "to = - 1") (simp_all add: arm_timer_def addConditionTimer_def)
  note world = this
  show "timers_ok (io_timers (hk_io w'))" "t = (if to \<noteq> - 1 then Some a else None)"
    by (rule world; simp add: assms(1) ad(1))+
  show "set (m_timers (io_timers (hk_io w'))) =
       set (m_timers (io_timers (hk_io w))) \<union> (if to \<noteq> - 1 then {a} else {})"
    by (rule world) (simp_all add: ad(2))
  show "to \<noteq> - 1 \<Longrightarrow> m_heap (io_timers (hk_io w')) a =
       new_Timer now to (Some (Bound ti (OnTimeout ti fd ev))) False"
    by (rule world) (simp_all add: addTimer_def)
  show "\<exists>tm. w' = w\<lparr>hk_io := (hk_io w)\<lparr>io_timers := tm\<rparr>\<rparr>"
  proof (rule world)
    assume "w' = w"
    then show ?thesis using timers_same [of w] by (rule ssubst)
  qed blast
qed

text \<open>The world is consistent and the descriptor free for the event.\<close>

definition hook_ready :: "nat \<Rightarrow> int \<Rightarrow> u32 \<Rightarrow> epoll_table hook_world \<Rightarrow> bool" where
  "hook_ready a fd ev w \<longleftrightarrow> io_inv (hk_io w) \<and> timers_ok (io_timers (hk_io w)) \<and>
     a \<notin> set (m_timers (io_timers (hk_io w))) \<and> free_event fd ev (hk_io w)"

text \<open>The attempt of a hooked call from the first result that is no interruption on.\<close>

lemma IOhook_retry_run:
  assumes "hook_ready a fd ev w" "call_fun rs = Some (r, rs')"
  shows "\<exists>res w'. IOhook_retry table_ctl now a ee (f, F_EXEC) fd ev to ti rs w = Inr (res, rs', w') \<and>
     io_inv (hk_io w') \<and> timers_ok (io_timers (hk_io w')) \<and>
     sc_queue (io_sched (hk_io w')) = sc_queue (io_sched (hk_io w)) \<and>
     (if r \<noteq> (- 1, EAGAIN) then
        res = Done (fst r) \<and> hk_io w' = hk_io w \<and> (fst r = - 1 \<longrightarrow> hk_errno w' = snd r)
      else
        res = Suspended \<lparr>iw_fd = fd, iw_event = ev, iw_to = to, iw_tinfo = ti,
                iw_timer = (if to \<noteq> - 1 then Some a else None)\<rparr> \<and>
        waits_for f fd ev (hk_io w') \<and> hk_tinfo w' = hk_tinfo w \<and>
        set (m_timers (io_timers (hk_io w'))) =
          set (m_timers (io_timers (hk_io w))) \<union> (if to \<noteq> - 1 then {a} else {}) \<and>
        (to \<noteq> - 1 \<longrightarrow> m_heap (io_timers (hk_io w')) a =
           new_Timer now to (Some (Bound ti (OnTimeout ti fd ev))) False)
      \<or> res = Done (- 1) \<and> hk_errno w' = ee \<and> free_event fd ev (hk_io w') \<and>
        set (m_timers (io_timers (hk_io w'))) = set (m_timers (io_timers (hk_io w))))"
proof (cases "r = (- 1, EAGAIN)")
  case False
  then have nb: "\<not> (fst r = - 1 \<and> snd r = EAGAIN)" by (metis prod.collapse)
  show ?thesis using assms False nb
    unfolding IOhook_retry_def hook_ready_def assms(2) option.case prod.case Let_def if_not_P [OF nb]
    by (auto simp: set_errno_def)
next
  case True
  let ?w1 = "set_errno r w"
  have b: "fst r = - 1 \<and> snd r = EAGAIN" using True by simp
  obtain t w2 where t: "arm_timer now a to ti fd ev ?w1 = (t, w2)" by fastforce
  note ar = arm_timer_ok [OF _ _ t, unfolded set_errno_sel]
  obtain tm where w2: "w2 = ?w1\<lparr>hk_io := (hk_io w)\<lparr>io_timers := tm\<rparr>\<rparr>"
    using ar(5) assms(1) by (auto simp: hook_ready_def)
  have inv: "io_inv (hk_io w2)" "free_event fd ev (hk_io w2)"
    using assms(1) by (auto simp: w2 hook_ready_def free_event_def)
  obtain rt io' where ae: "addEvent table_ctl fd ev None True (f, F_EXEC) (hk_io w2) = Inr (rt, io')"
    "io_inv io'" "io_timers io' = io_timers (hk_io w2)" "sc_queue (io_sched io') = sc_queue (io_sched (hk_io w2))"
    "rt = 0 \<and> waits_for f fd ev io' \<or> rt = - 1 \<and> free_event fd ev io'"
    using addEvent_fiber [OF inv] by blast
  have pre: "timers_ok (io_timers (hk_io w))" "a \<notin> set (m_timers (io_timers (hk_io w)))"
    using assms(1) by (auto simp: hook_ready_def)
  note ar = ar [OF pre]
  have start: "IOhook_retry table_ctl now a ee (f, F_EXEC) fd ev to ti rs w =
      (if rt \<noteq> 0 then bind_res (cancel_timer t (w2\<lparr>hk_io := io', hk_errno := ee\<rparr>)) (\<lambda>w4.
         Inr (Done (- 1), rs', w4\<lparr>hk_tinfo := (hk_tinfo w4)(ti := None)\<rparr>))
       else Inr (Suspended \<lparr>iw_fd = fd, iw_event = ev, iw_to = to, iw_tinfo = ti, iw_timer = t\<rparr>, rs',
              w2\<lparr>hk_io := io'\<rparr>))"
    unfolding IOhook_retry_def assms(2) option.case prod.case Let_def if_P [OF b] t
    by (simp add: ae(1) lift_io_def)
  show ?thesis
  proof (cases "rt = 0")
    case True
    then show ?thesis using start ae ar \<open>r = (- 1, EAGAIN)\<close> by (auto simp: w2)
  next
    case False
    have tok: "timers_ok (io_timers (hk_io (w2\<lparr>hk_io := io', hk_errno := ee\<rparr>)))" using ar(1) ae(3) by simp
    have io3: "hk_io (w2\<lparr>hk_io := io', hk_errno := ee\<rparr>) = io'" by simp
    from cancel_timer_ok [OF tok, of t, unfolded io3 ae(3)] obtain w4 tm' where
      c: "cancel_timer t (w2\<lparr>hk_io := io', hk_errno := ee\<rparr>) = Inr w4" "timers_ok (io_timers (hk_io w4))"
      "w4 = w2\<lparr>hk_errno := ee, hk_io := io'\<lparr>io_timers := tm'\<rparr>\<rparr>"
      "set (m_timers (io_timers (hk_io w4))) = set (m_timers (io_timers (hk_io w2))) -
         (case t of None \<Rightarrow> {} | Some a \<Rightarrow> if m_cb (m_heap (io_timers (hk_io w2)) a) \<noteq> None then {a} else {})"
      by auto
    have "set (m_timers (io_timers (hk_io w4))) = set (m_timers (io_timers (hk_io w)))"
      using c(4) ar(2,3,4) pre(2) by (auto simp: new_Timer_def split: if_splits)
    then show ?thesis using False start c ae(2,4,5) \<open>r = (- 1, EAGAIN)\<close>
      by (auto simp: free_event_def w2)
  qed
qed

text \<open>A descriptor world for concrete runs: an empty IO manager and socket 5.\<close>

definition plain_sched :: "hook_cb callback sched" where
  "plain_sched = \<lparr>sc_queue = [], sc_active = 0, sc_idle = 1, sc_stopping = False, sc_autoStop = False,
     sc_threadCount = 1, sc_threadIds = [1], sc_rootThread = - 1, sc_rootFiber = None, sc_state = (\<lambda>_. F_INIT)\<rparr>"

definition socket_world :: "epoll_table hook_world" where
  "socket_world = \<lparr>hk_enable = True, hk_io = new_io plain_sched (new_TimerManager 0) [],
     hk_fdm = (new_FdManager (\<lambda>_. socket_ctx 5))\<lparr>fm_next := 1,
                 fm_datas := (replicate 64 None)[5 := Some 0]\<rparr>,
     hk_tinfo = (\<lambda>_. Some 0), hk_errno = 0\<rparr>"

lemma socket_world_io: "hk_io socket_world = new_io plain_sched (new_TimerManager 0) []"
  by (simp add: socket_world_def)

lemma socket_world_ready: "hook_ready a 5 READ socket_world"
proof -
  have t: "io_timers (new_io plain_sched (new_TimerManager 0) []) = new_TimerManager 0"
    by (simp add: new_io_def)
  show ?thesis
    unfolding hook_ready_def socket_world_io t using io_inv_new timers_ok_new
    by (auto simp: free_event_def new_TimerManager_def new_io_def contextResize_def new_FdContext_def
        NONE_def simp del: upt_Suc)
qed

section \<open>Timeouts\<close>

lemma cancelEvent_waiting:
  assumes "io_inv io" "ep_faults (io_kernel io) = []" "waits_for f fd ev io"
  shows "\<exists>io'. cancelEvent table_ctl fd ev io = Inr (True, io') \<and> io_inv io' \<and> io_timers io' = io_timers io \<and>
     sc_queue (io_sched io') = sc_queue (io_sched io) @ [task_of_fiber (Some f) (- 1)] \<and>
     free_event fd ev io'"
proof -
  have ok: "io_ok ep_interest io" "32 \<le> length (io_contexts io)" using assms(1) by (simp_all add: io_inv_def)
  have ev: "ev = READ \<or> ev = WRITE" and fd: "0 \<le> fd" "nat fd < length (io_contexts io)"
    and m: "m_events (io_contexts io ! nat fd) AND ev \<noteq> 0" using assms(3) by (auto simp: waits_for_def)
  from kernel.cancelEvent_ok [OF ok(1) ev, of fd] obtain r io' where
    c: "cancelEvent table_ctl fd ev io = Inr (r, io')" "length (io_contexts io') = length (io_contexts io)"
       "io_ok ep_interest io'"
       "sc_queue (io_sched io') = sc_queue (io_sched io) @
          (if r then [waiting_task ev (io_contexts io ! nat fd)] else [])"
       "r \<longrightarrow> m_events (io_contexts io' ! nat fd) = m_events (io_contexts io ! nat fd) AND NOT ev" by blast
  have "ep_interest (io_kernel io) (nat fd) \<noteq> None"
    using ok(1) fd m by (auto simp: io_ok_def interest_of_def)
  then obtain k where "table_ctl (if m_events (io_contexts io ! nat fd) AND NOT ev \<noteq> 0 then CtlMod else CtlDel)
      (nat fd) (EPOLLET OR (m_events (io_contexts io ! nat fd) AND NOT ev)) (io_kernel io) = (False, k)"
    using assms(2)
    by (cases "m_events (io_contexts io ! nat fd) AND NOT ev = 0") (auto simp: table_ctl_def Let_def)
  then have r: "r" using c(1) fd m
    by (auto simp: cancelEvent_def addEvent_found_def Let_def bind_res_eq_Inr)
  have "(m_events (io_contexts io ! nat fd) AND NOT ev) AND ev = 0"
    by (rule bit_word_eqI) (auto simp: bit_simps)
  then show ?thesis using c r assms(3) ok(2) ev fd cancelEvent_timers [OF c(1)]
    by (intro exI [of _ io']) (auto simp: io_inv_def waits_for_def free_event_def)
qed

text \<open>
  C27. The timeout of a suspended call. When the timer fires before the descriptor is ready
  and the kernel does not fail, the timer's callback queues exactly the waiting fiber and
  takes its event out, so that nothing can wake it a second time; when the fiber then
  resumes, the call returns -1 with \<open>ETIMEDOUT\<close>, its timer is gone, the callback run again
  does nothing, and the IO manager and the timers are consistent.
\<close>

theorem IOhook_timeout_spec:
  assumes "io_inv (hk_io w)" "timers_ok (io_timers (hk_io w))" "ep_faults (io_kernel (hk_io w)) = []"
    "waits_for f (iw_fd iw) (iw_event iw) (hk_io w)" "hk_tinfo w (iw_tinfo iw) = Some 0"
  shows "\<exists>w1 w2. on_timeout table_ctl (iw_tinfo iw) (iw_fd iw) (iw_event iw) w = Inr w1 \<and>
     sc_queue (io_sched (hk_io w1)) = sc_queue (io_sched (hk_io w)) @ [task_of_fiber (Some f) (- 1)] \<and>
     free_event (iw_fd iw) (iw_event iw) (hk_io w1) \<and>
     on_timeout table_ctl (iw_tinfo iw) (iw_fd iw) (iw_event iw) w1 = Inr w1 \<and>
     IOhook_resume table_ctl now a ee cur iw rs w1 = Inr (Done (- 1), rs, w2) \<and>
     hk_errno w2 = ETIMEDOUT \<and> io_inv (hk_io w2) \<and> timers_ok (io_timers (hk_io w2)) \<and>
     sc_queue (io_sched (hk_io w2)) = sc_queue (io_sched (hk_io w1)) \<and>
     (\<forall>b. iw_timer iw = Some b \<and> m_cb (m_heap (io_timers (hk_io w)) b) \<noteq> None \<longrightarrow>
        b \<notin> set (m_timers (io_timers (hk_io w2)))) \<and>
     on_timeout table_ctl (iw_tinfo iw) (iw_fd iw) (iw_event iw) w2 = Inr w2"
proof -
  obtain io where c: "cancelEvent table_ctl (iw_fd iw) (iw_event iw) (hk_io w) = Inr (True, io)" "io_inv io"
    "io_timers io = io_timers (hk_io w)" "free_event (iw_fd iw) (iw_event iw) io"
    "sc_queue (io_sched io) = sc_queue (io_sched (hk_io w)) @ [task_of_fiber (Some f) (- 1)]"
    using cancelEvent_waiting [OF assms(1,3,4)] by blast
  define w1 where "w1 = w\<lparr>hk_tinfo := (hk_tinfo w)(iw_tinfo iw := Some ETIMEDOUT), hk_io := io\<rparr>"
  have t: "on_timeout table_ctl (iw_tinfo iw) (iw_fd iw) (iw_event iw) w = Inr w1"
    using assms(5) c(1) by (simp add: on_timeout_def Let_def lift_io_def w1_def)
  have io1: "hk_io w1 = io" by (simp add: w1_def)
  have "timers_ok (io_timers (hk_io w1))" using assms(2) c(3) io1 by simp
  from cancel_timer_ok [OF this, of "iw_timer iw", unfolded io1 c(3)] obtain w' tm where
    x: "cancel_timer (iw_timer iw) w1 = Inr w'" "w' = w1\<lparr>hk_io := io\<lparr>io_timers := tm\<rparr>\<rparr>"
    "timers_ok (io_timers (hk_io w'))"
    "set (m_timers (io_timers (hk_io w'))) = set (m_timers (io_timers (hk_io w))) -
       (case iw_timer iw of None \<Rightarrow> {} | Some a \<Rightarrow> if m_cb (m_heap (io_timers (hk_io w)) a) \<noteq> None then {a} else {})"
    by blast
  define w2 where "w2 = w'\<lparr>hk_errno := ETIMEDOUT, hk_tinfo := (hk_tinfo w')(iw_tinfo iw := None)\<rparr>"
  have "IOhook_resume table_ctl now a ee cur iw rs w1 = Inr (Done (- 1), rs, w2)"
    using x(1,2) by (simp add: IOhook_resume_def w1_def w2_def ETIMEDOUT_def)
  moreover have "on_timeout table_ctl (iw_tinfo iw) (iw_fd iw) (iw_event iw) w1 = Inr w1"
    by (simp add: on_timeout_def w1_def ETIMEDOUT_def)
  moreover have "on_timeout table_ctl (iw_tinfo iw) (iw_fd iw) (iw_event iw) w2 = Inr w2"
    by (simp add: on_timeout_def w2_def)
  ultimately show ?thesis using t c x by (intro exI [of _ w1] exI [of _ w2]) (auto simp: io1 w2_def)
qed

text \<open>Fiber 1 waits to read from socket 5.\<close>

lemma waiting_io:
  "\<exists>io :: (hook_cb, epoll_table) io_manager. io_inv io \<and> waits_for 1 5 READ io \<and> ep_faults (io_kernel io) = [] \<and>
     io_timers io = new_TimerManager 0"
proof -
  let ?io = "hk_io socket_world"
  have "io_inv ?io" "free_event 5 READ ?io"
    using socket_world_ready [of 0] by (simp_all add: hook_ready_def)
  from addEvent_fiber [OF this, of 1] obtain r io where
    a: "addEvent table_ctl 5 READ None True (1, F_EXEC) ?io = Inr (r, io)" "io_inv io"
       "io_timers io = io_timers ?io" "r = 0 \<and> waits_for 1 5 READ io \<or> r = - 1 \<and> free_event 5 READ io"
    by blast
  have "r = 0 \<and> ep_faults (io_kernel io) = []"
    using a(1) by (simp add: socket_world_io new_io_def addEvent_def addEvent_found_def addEvent_locked_def
        contextResize_def new_FdContext_def NONE_def table_ctl_def Let_def getContext_def empty_context_def
        READ_def del: upt_Suc) (auto simp: table_ctl_def)
  then show ?thesis using a by (auto simp: socket_world_io new_io_def)
qed

lemma IOhook_timeout_spec_witness:
  "\<exists>w w1 w2 :: epoll_table hook_world. on_timeout table_ctl 3 5 READ w = Inr w1 \<and>
     IOhook_resume table_ctl 200 8 0 (1, F_EXEC)
       \<lparr>iw_fd = 5, iw_event = READ, iw_to = 50, iw_tinfo = 3, iw_timer = None\<rparr> [] w1 = Inr (Done (- 1), [], w2)"
proof -
  obtain io :: "(hook_cb, epoll_table) io_manager" where io: "io_inv io" "waits_for 1 5 READ io"
    "ep_faults (io_kernel io) = []" "io_timers io = new_TimerManager 0"
    using waiting_io by blast
  define w where "w = socket_world\<lparr>hk_io := io\<rparr>"
  show ?thesis
    using IOhook_timeout_spec [of w 1 "\<lparr>iw_fd = 5, iw_event = READ, iw_to = 50, iw_tinfo = 3, iw_timer = None\<rparr>"
        200 8 0 "(1, F_EXEC)" "[]"] io timers_ok_new [of 0]
    by (simp add: w_def socket_world_def) blast
qed

section \<open>Descriptor flags\<close>

text \<open>What \<open>fcntl\<close> documents of the status flags of a descriptor.\<close>

text \<open>
  The flags that \<open>F_SETFL\<close> can change: \<open>O_APPEND\<close>, \<open>O_NONBLOCK\<close>, \<open>O_ASYNC\<close>, \<open>O_DIRECT\<close> and \<open>O_NOATIME\<close>; it ignores the access
  mode and the creation flags in its argument.
\<close>

definition SETFL_MASK :: u32 where "SETFL_MASK = 0x46C00"

definition set_status :: "u32 \<Rightarrow> u32 \<Rightarrow> u32" where
  "set_status old arg = (old AND NOT SETFL_MASK) OR (arg AND SETFL_MASK)"

locale status_flags =
  fixes fcntl_f :: "'s fcntl_fun"
    and fl :: "'s \<Rightarrow> int \<Rightarrow> u32"
  assumes set_flags: "fcntl_f fd F_SETFL (Some v) s = (r, s') \<Longrightarrow> r = 0 \<Longrightarrow> fl s' = (fl s)(fd := set_status (fl s fd) v)"
    and set_fails: "fcntl_f fd F_SETFL (Some v) s = (r, s') \<Longrightarrow> r \<noteq> 0 \<Longrightarrow> fl s' = fl s"
    and get_flags: "fcntl_f fd F_GETFL None s = (fl s fd, s)"
begin

lemma setfl_tracked:
  assumes "tracked_socket fd w = Inr (Some p)" "fc_sysNonblock (fm_heap (hk_fdm w) p)"
    "hook_fcntl fcntl_f fd F_SETFL arg (s, w) = Inr (0, s', w')"
  shows "fl s' = (fl s)(fd := set_status (fl s fd) (arg OR O_NONBLOCK))"
    and "w' = w\<lparr>hk_fdm := update_ctx p (\<lambda>x. x\<lparr>fc_userNonblock := arg AND O_NONBLOCK \<noteq> 0\<rparr>) (hk_fdm w)\<rparr>"
  using assms by (auto simp: hook_fcntl_def update_ctx_def Let_def split: prod.splits dest: set_flags)

end

text \<open>A table of flags; setting them may fail.\<close>

record flag_table =
  ft_flags :: "int \<Rightarrow> u32"
  ft_faults :: "bool list"

definition table_fcntl :: "flag_table fcntl_fun" where
  "table_fcntl fd cmd arg s =
     (if cmd = F_GETFL then (ft_flags s fd, s)
      else if cmd = F_SETFL then
        (case (arg, ft_faults s) of
           (Some v, []) \<Rightarrow> (0, s\<lparr>ft_flags := (ft_flags s)(fd := set_status (ft_flags s fd) v)\<rparr>)
         | (Some v, b # bs) \<Rightarrow>
             if b then (- 1, s\<lparr>ft_faults := bs\<rparr>)
             else (0, s\<lparr>ft_flags := (ft_flags s)(fd := set_status (ft_flags s fd) v), ft_faults := bs\<rparr>)
         | (None, _) \<Rightarrow> (- 1, s))
      else (0, s))"

definition table_ioctl :: "int \<Rightarrow> u64 \<Rightarrow> int \<Rightarrow> flag_table \<Rightarrow> int \<times> flag_table" where
  "table_ioctl d request val s =
     (if request = FIONBIO
      then (0, s\<lparr>ft_flags := (ft_flags s)(d := if val \<noteq> 0 then ft_flags s d OR O_NONBLOCK
                                                else ft_flags s d AND NOT O_NONBLOCK)\<rparr>)
      else (0, s))"

interpretation flags: status_flags table_fcntl ft_flags
  by unfold_locales
    (auto simp: table_fcntl_def F_SETFL_def F_GETFL_def split: list.splits if_splits)

lemma tracked_update:
  "tracked_socket fd w = Inr (Some p) \<Longrightarrow>
   tracked_socket fd (w\<lparr>hk_fdm := update_ctx p (\<lambda>x. x\<lparr>fc_userNonblock := b\<rparr>) (hk_fdm w)\<rparr>) = Inr (Some p)"
  by (auto simp: tracked_socket_def FdMgr_get_def update_ctx_def get_lookup_def bind_res_eq_Inr lift_fd_def
      split: option.splits sum.splits if_splits)

lemma flags_back: "((arg :: 'a::len word) OR n) AND NOT n = arg AND NOT n" "arg OR n OR n = arg OR n"
  by (rule bit_word_eqI; auto simp: bit_simps)+

lemma bit_NONBLOCK: "bit O_NONBLOCK n \<longleftrightarrow> n = 11"
proof -
  have "O_NONBLOCK = 2 ^ 11" by (simp add: O_NONBLOCK_def)
  moreover have "bit (2 ^ 11 :: u32) n \<longleftrightarrow> n = 11"
    by (simp only: bit_exp_iff possible_bit_word len_num0 len_bit0 len_num1) auto
  ultimately show ?thesis by (simp only:)
qed

lemma nonblock_bit: "w AND O_NONBLOCK \<noteq> 0 \<longleftrightarrow> bit w 11"
proof
  assume "w AND O_NONBLOCK \<noteq> 0"
  then obtain n where "bit (w AND O_NONBLOCK) n" using bit_eq_iff by force
  then show "bit w 11" by (auto simp: bit_and_iff bit_NONBLOCK)
next
  assume "bit w 11"
  then have "bit (w AND O_NONBLOCK) 11" by (simp add: bit_and_iff bit_NONBLOCK)
  then show "w AND O_NONBLOCK \<noteq> 0" by (auto simp del: bit_and_iff)
qed

lemma bit_MASK: "bit SETFL_MASK 11"
  by (simp add: SETFL_MASK_def bit_iff_odd)

lemma nonblock_view:
  "(if arg AND O_NONBLOCK \<noteq> 0 then set_status old (arg OR O_NONBLOCK) OR O_NONBLOCK
    else set_status old (arg OR O_NONBLOCK) AND NOT O_NONBLOCK) = set_status old arg"
  unfolding nonblock_bit set_status_def using bit_MASK
  by (auto intro!: bit_word_eqI simp: bit_and_iff bit_or_iff bit_not_iff bit_NONBLOCK)

lemma nonblock_set: "set_status old (arg OR O_NONBLOCK) = set_status old arg OR O_NONBLOCK"
  unfolding set_status_def using bit_MASK
  by (auto intro!: bit_word_eqI simp: bit_and_iff bit_or_iff bit_not_iff bit_NONBLOCK)

lemma FdMgr_get_update [simp]:
  "FdMgr_get fd (w\<lparr>hk_fdm := update_ctx p g (hk_fdm w)\<rparr>) = FdMgr_get fd w"
  by (simp add: FdMgr_get_def get_lookup_def update_ctx_def)

lemma tracked_socketD:
  assumes "tracked_socket fd w = Inr (Some p)"
  shows "FdMgr_get fd w = Inr (Some p)" "\<not> fc_isClosed (fm_heap (hk_fdm w) p)"
    "fc_isSocket (fm_heap (hk_fdm w) p)"
  using assms by (auto simp: tracked_socket_def bind_res_eq_Inr Let_def split: option.splits if_splits)

text \<open>
  C34. The flags a program sees are those it would have without the framework: on a socket the framework
  tracks, a successful \<open>fcntl(F_SETFL, arg)\<close> followed by \<open>fcntl(F_GETFL)\<close> returns what the replaced \<open>fcntl\<close> would have
  made of the flags, the flags that \<open>F_SETFL\<close> can change as in \<open>arg\<close> and the access mode and the others as
  before, while the kernel's flags of the descriptor have \<open>O_NONBLOCK\<close> set besides, whatever the
  program asked for, and those of every other descriptor are unchanged.
\<close>

theorem fcntl_user_view:
  assumes "tracked_socket fd w = Inr (Some p)" "fc_sysNonblock (fm_heap (hk_fdm w) p)"
    "hook_fcntl table_fcntl fd F_SETFL arg (s, w) = Inr (0, s1, w1)"
  shows "hook_fcntl table_fcntl fd F_GETFL x (s1, w1) =
      Inr ((ft_flags s fd AND NOT SETFL_MASK) OR (arg AND SETFL_MASK), s1, w1)
    \<and> ft_flags s1 = (ft_flags s)(fd := ((ft_flags s fd AND NOT SETFL_MASK) OR (arg AND SETFL_MASK)) OR O_NONBLOCK)
    \<and> (\<forall>s0. table_fcntl fd F_SETFL (Some arg) s = (0, s0) \<longrightarrow>
        hook_fcntl table_fcntl fd F_GETFL x (s1, w1) = Inr (fst (table_fcntl fd F_GETFL None s0), s1, w1))"
proof -
  note set = flags.setfl_tracked [OF assms]
  have u: "fc_userNonblock (fm_heap (hk_fdm w1) p) \<longleftrightarrow> arg AND O_NONBLOCK \<noteq> 0"
    by (simp add: set(2) update_ctx_def)
  have "tracked_socket fd w1 = Inr (Some p)" using tracked_update [OF assms(1)] by (simp add: set(2))
  then have 1: "hook_fcntl table_fcntl fd F_GETFL x (s1, w1) = Inr (set_status (ft_flags s fd) arg, s1, w1)"
    using nonblock_view [of arg "ft_flags s fd"] u flags.get_flags [of fd s1]
    by (simp add: hook_fcntl_def F_GETFL_def F_SETFL_def set(1) split: if_splits)
  have "fst (table_fcntl fd F_GETFL None s0) = set_status (ft_flags s fd) arg"
    if "table_fcntl fd F_SETFL (Some arg) s = (0, s0)" for s0
    using flags.set_flags [OF that refl] flags.get_flags [of fd s0] by simp
  moreover have "ft_flags s1 = (ft_flags s)(fd := set_status (ft_flags s fd) arg OR O_NONBLOCK)"
    using set(1) by (simp only: nonblock_set)
  ultimately show ?thesis using 1 unfolding set_status_def [symmetric] by simp
qed

definition flags0 :: flag_table where "flags0 = \<lparr>ft_flags = (\<lambda>_. 0x802), ft_faults = []\<rparr>"

lemma socket_world_tracked: "tracked_socket 5 socket_world = Inr (Some 0)"
  by (simp add: tracked_socket_def FdMgr_get_def get_lookup_def socket_world_def lift_fd_def
      new_FdManager_def socket_ctx_def new_FdCtx_def FdCtx_init_def Let_def)

lemma fcntl_user_view_witness:
  "case hook_fcntl table_fcntl 5 F_SETFL 0x400 (flags0, socket_world) of
     Inr (r, s, w) \<Rightarrow> hook_fcntl table_fcntl 5 F_GETFL 0 (s, w) = Inr (0x402, s, w)
   | Inl e \<Rightarrow> False"
proof -
  have s: "fc_sysNonblock (fm_heap (hk_fdm socket_world) 0)"
    by (simp add: socket_world_def new_FdManager_def socket_ctx_def new_FdCtx_def FdCtx_init_def Let_def)
  obtain s1 w1 where "hook_fcntl table_fcntl 5 F_SETFL 0x400 (flags0, socket_world) = Inr (0, s1, w1)"
    using socket_world_tracked
    by (simp add: hook_fcntl_def table_fcntl_def flags0_def Let_def F_GETFL_def F_SETFL_def)
  with fcntl_user_view [OF socket_world_tracked s this, of 0] show ?thesis by (simp add: flags0_def SETFL_MASK_def)
qed

section \<open>A hooked call\<close>

text \<open>Interrupted calls, and the call after them.\<close>

lemma call_fun_interrupted: "r \<noteq> (- 1, EINTR) \<Longrightarrow> call_fun (replicate k (- 1, EINTR) @ r # rs) = Some (r, rs)"
  by (induction k; cases r) auto

text \<open>
  C26. A hooked read or write of a tracked socket that the program has left blocking. However often the call is
  interrupted, it is repeated until it gives another result, which is looked at alone: if it is not "would block" it is
  returned as it is and leaves the IO manager alone; "would block" either suspends the fiber, and then
  exactly this fiber waits for the event and a timer with the deadline now + timeout is armed if and
  only if the socket has a timeout, the receive timeout for \<open>SO_RCVTIMEO\<close> and else the send timeout;
  or, when the kernel refuses the registration, returns -1 with no timer and no event left behind. The IO
  manager and the timers stay consistent in every case.
\<close>

theorem IOhook_retry_spec:
  assumes "hk_enable w" "tracked_socket fd w = Inr (Some p)" "\<not> fc_userNonblock (fm_heap (hk_fdm w) p)"
    "hook_ready a fd ev w" "r \<noteq> (- 1, EINTR)"
    "to = (if so = SO_RCVTIMEO then fc_recvTimeout (fm_heap (hk_fdm w) p) else fc_sendTimeout (fm_heap (hk_fdm w) p))"
  shows "\<exists>res w'. IOhook table_ctl now a ee (f, F_EXEC) fd ev so ti (replicate k (- 1, EINTR) @ r # rs) w = Inr (res, rs, w') \<and>
     io_inv (hk_io w') \<and> timers_ok (io_timers (hk_io w')) \<and>
     sc_queue (io_sched (hk_io w')) = sc_queue (io_sched (hk_io w)) \<and>
     (if r \<noteq> (- 1, EAGAIN) then
        res = Done (fst r) \<and> hk_io w' = hk_io w \<and> (fst r = - 1 \<longrightarrow> hk_errno w' = snd r)
      else
        res = Suspended \<lparr>iw_fd = fd, iw_event = ev, iw_to = to, iw_tinfo = ti,
                iw_timer = (if to \<noteq> - 1 then Some a else None)\<rparr> \<and>
        waits_for f fd ev (hk_io w') \<and> hk_tinfo w' = (hk_tinfo w)(ti := Some 0) \<and>
        set (m_timers (io_timers (hk_io w'))) =
          set (m_timers (io_timers (hk_io w))) \<union> (if to \<noteq> - 1 then {a} else {}) \<and>
        (to \<noteq> - 1 \<longrightarrow> m_heap (io_timers (hk_io w')) a =
           new_Timer now to (Some (Bound ti (OnTimeout ti fd ev))) False)
      \<or> res = Done (- 1) \<and> hk_errno w' = ee \<and> free_event fd ev (hk_io w') \<and>
        set (m_timers (io_timers (hk_io w'))) = set (m_timers (io_timers (hk_io w))))"
proof -
  let ?w0 = "w\<lparr>hk_tinfo := (hk_tinfo w)(ti := Some 0)\<rparr>" and ?rs = "replicate k (- 1, EINTR) @ r # rs"
  have t: "getTimeout so (fm_heap (hk_fdm w) p) = to" by (simp add: getTimeout_def assms(6))
  have e: "IOhook table_ctl now a ee (f, F_EXEC) fd ev so ti ?rs w =
      IOhook_retry table_ctl now a ee (f, F_EXEC) fd ev to ti ?rs ?w0"
    using assms(1,3) tracked_socketD [OF assms(2)] t by (simp add: IOhook_def Let_def)
  have h: "hook_ready a fd ev ?w0" using assms(4) by (simp add: hook_ready_def)
  have sel: "hk_io ?w0 = hk_io w" "hk_tinfo ?w0 = (hk_tinfo w)(ti := Some 0)" by simp_all
  show ?thesis unfolding e
    using IOhook_retry_run [OF h call_fun_interrupted [OF assms(5)], of now ee f to ti k rs, unfolded sel] .
qed

lemma IOhook_retry_spec_witness:
  "\<exists>res w'. IOhook table_ctl 100 7 0 (1, F_EXEC) 5 READ SO_RCVTIMEO 3 [(- 1, EINTR), (- 1, EINTR), (12, 0)] socket_world
     = Inr (res, [], w') \<and> res = Done 12"
proof -
  have u: "\<not> fc_userNonblock (fm_heap (hk_fdm socket_world) 0)" and e: "hk_enable socket_world"
    by (simp_all add: socket_world_def new_FdManager_def socket_ctx_def new_FdCtx_def FdCtx_init_def Let_def)
  have r: "(12, 0) \<noteq> (- 1 :: int, EINTR)" by simp
  show ?thesis
    using IOhook_retry_spec [OF e socket_world_tracked u socket_world_ready r refl, of 100 7 0 1 SO_RCVTIMEO 3 2 "[]"]
    by (auto simp: numeral_2_eq_2)
qed

section \<open>Flags and timeouts that go wrong\<close>

text \<open>
  \<open>ioctl(FIONBIO)\<close> with value 0 makes a tracked socket really blocking: the request is
  passed on unchanged, so the kernel's \<open>O_NONBLOCK\<close> is cleared although the framework still
  records the descriptor as non-blocking underneath, and a later hooked read or write is not
  passed through but calls the now blocking function and stops the whole thread. \<open>fcntl\<close>
  with the same intent keeps the kernel's flag.
\<close>

theorem ioctl_clears_kernel_flag:
  assumes "tracked_socket fd w = Inr (Some p)" "fc_sysNonblock (fm_heap (hk_fdm w) p)"
  shows "\<exists>s1 w1. hook_ioctl table_ioctl fd FIONBIO 0 (s, w) = Inr (0, s1, w1)
    \<and> ft_flags s1 fd AND O_NONBLOCK = 0
    \<and> fc_sysNonblock (fm_heap (hk_fdm w1) p) \<and> \<not> fc_userNonblock (fm_heap (hk_fdm w1) p)
    \<and> (hk_enable w \<longrightarrow> (\<forall>r rs. \<not> (fst r = - 1 \<and> snd r \<in> {EINTR, EAGAIN}) \<longrightarrow>
         (\<exists>w2. IOhook ctl now a ee cur fd ev so ti (r # rs) w1 = Inr (Done (fst r), rs, w2))))"
proof -
  define w1 where "w1 = w\<lparr>hk_fdm := update_ctx p (\<lambda>x. x\<lparr>fc_userNonblock := False\<rparr>) (hk_fdm w)\<rparr>"
  have i: "hook_ioctl table_ioctl fd FIONBIO 0 (s, w) =
      Inr (0, s\<lparr>ft_flags := (ft_flags s)(fd := ft_flags s fd AND NOT O_NONBLOCK)\<rparr>, w1)"
    using assms(1) by (simp add: hook_ioctl_def table_ioctl_def Let_def w1_def)
  have t: "tracked_socket fd w1 = Inr (Some p)" using tracked_update [OF assms(1)] by (simp add: w1_def)
  have c: "FdMgr_get fd w1 = Inr (Some p)" "\<not> fc_isClosed (fm_heap (hk_fdm w1) p)"
    "fc_isSocket (fm_heap (hk_fdm w1) p)"
    using tracked_socketD [OF t] by auto
  have u: "\<not> fc_userNonblock (fm_heap (hk_fdm w1) p)" "fc_sysNonblock (fm_heap (hk_fdm w1) p)"
    using assms(2) by (simp_all add: w1_def update_ctx_def)
  have "(ft_flags s fd AND NOT O_NONBLOCK) AND O_NONBLOCK = 0"
    by (rule bit_word_eqI) (auto simp: bit_simps)
  moreover have "\<exists>w2. IOhook ctl now a ee cur fd ev so ti (r # rs) w1 = Inr (Done (fst r), rs, w2)"
    if "hk_enable w" "\<not> (fst r = - 1 \<and> snd r \<in> {EINTR, EAGAIN})" for r rs
  proof -
    obtain n e where r: "r = (n, e)" by (cases r)
    have "hk_enable w1" using that(1) by (simp add: w1_def)
    then show ?thesis using that(2) c u
      by (auto simp: IOhook_def IOhook_retry_def Let_def r)
  qed
  ultimately show ?thesis using i u by auto
qed

lemma ioctl_clears_kernel_flag_witness:
  "\<exists>s1 w1. hook_ioctl table_ioctl 5 FIONBIO 0 (flags0, socket_world) = Inr (0, s1, w1)
    \<and> ft_flags s1 5 AND O_NONBLOCK = 0"
proof -
  have s: "fc_sysNonblock (fm_heap (hk_fdm socket_world) 0)"
    by (simp add: socket_world_def new_FdManager_def socket_ctx_def new_FdCtx_def FdCtx_init_def Let_def)
  show ?thesis using ioctl_clears_kernel_flag [OF socket_world_tracked s, of flags0] by blast
qed

text \<open>
  A zero timeout, which for \<open>setsockopt(SO_RCVTIMEO)\<close> means to wait without limit, is
  recorded as 0 ms: the next hooked receive that would block arms a timer that is due at
  once, so it fails with \<open>ETIMEDOUT\<close> where the replaced call waits. The timeout is recorded
  for its direction only.
\<close>

theorem zero_timeout_is_immediate:
  assumes "hk_enable w" "tracked_socket fd w = Inr (Some p)" "\<not> fc_userNonblock (fm_heap (hk_fdm w) p)"
    "hook_ready a fd READ w"
  shows "\<exists>w1. hook_setsockopt fd SOL_SOCKET SO_RCVTIMEO (0, 0) (0, 0) w = Inr (0, w1)
    \<and> fc_sendTimeout (fm_heap (hk_fdm w1) p) = fc_sendTimeout (fm_heap (hk_fdm w) p)
    \<and> (\<exists>res w2. hooked H_recv table_ctl now a ee (f, F_EXEC) fd ti ((- 1, EAGAIN) # rs) w1 = Inr (res, rs, w2)
        \<and> (res = Done (- 1) \<and> hk_errno w2 = ee
           \<or> m_next (m_heap (io_timers (hk_io w2)) a) = now \<and> a \<in> set (m_timers (io_timers (hk_io w2)))))"
proof -
  define w1 where "w1 = w\<lparr>hk_fdm := update_ctx p (setTimeout SO_RCVTIMEO 0) (hk_fdm w)\<rparr>"
  have c: "FdMgr_get fd w = Inr (Some p)" "\<not> fc_isClosed (fm_heap (hk_fdm w) p)"
    "fc_isSocket (fm_heap (hk_fdm w) p)"
    using tracked_socketD [OF assms(2)] by auto
  have s: "hook_setsockopt fd SOL_SOCKET SO_RCVTIMEO (0, 0) (0, 0) w = Inr (0, w1)"
    using assms(1) c(1) by (simp add: hook_setsockopt_def set_errno_def w1_def timeval_ms_def)
  have g: "FdMgr_get fd w1 = Inr (Some p)"
    using c(1) by (simp add: w1_def)
  let ?w0 = "w1\<lparr>hk_tinfo := (hk_tinfo w1)(ti := Some 0)\<rparr>"
  have h: "hooked H_recv table_ctl now a ee (f, F_EXEC) fd ti ((- 1, EAGAIN) # rs) w1 =
      IOhook_retry table_ctl now a ee (f, F_EXEC) fd READ 0 ti ((- 1, EAGAIN) # rs) ?w0"
    using assms(1,3) c g
    by (simp add: hooked_def IOhook_def Let_def w1_def update_ctx_def setTimeout_def getTimeout_def)
  have r: "hook_ready a fd READ ?w0" using assms(4) by (simp add: hook_ready_def w1_def)
  have "call_fun ((- 1, EAGAIN) # rs) = Some ((- 1, EAGAIN), rs)" by (simp add: EAGAIN_def EINTR_def)
  from IOhook_retry_run [OF r this, of now ee f 0 ti] obtain res w2 where
    "IOhook_retry table_ctl now a ee (f, F_EXEC) fd READ 0 ti ((- 1, EAGAIN) # rs) ?w0 = Inr (res, rs, w2)"
    "res = Done (- 1) \<and> hk_errno w2 = ee \<or>
     (m_heap (io_timers (hk_io w2)) a = new_Timer now 0 (Some (Bound ti (OnTimeout ti fd READ))) False
      \<and> a \<in> set (m_timers (io_timers (hk_io w2))))"
    by auto
  then show ?thesis using s h
    by (intro exI [of _ w1] conjI)
      (auto simp: w1_def update_ctx_def setTimeout_def new_Timer_def)
qed

lemma zero_timeout_is_immediate_witness:
  "\<exists>w1. hook_setsockopt 5 SOL_SOCKET SO_RCVTIMEO (0, 0) (0, 0) socket_world = Inr (0, w1)"
proof -
  have "hk_enable socket_world" "\<not> fc_userNonblock (fm_heap (hk_fdm socket_world) 0)"
    by (simp_all add: socket_world_def new_FdManager_def socket_ctx_def new_FdCtx_def FdCtx_init_def Let_def)
  from zero_timeout_is_immediate [OF this(1) socket_world_tracked this(2) socket_world_ready]
  show ?thesis by blast
qed

section \<open>Closing and sleeping\<close>

text \<open>
  \<open>close\<close> of a tracked descriptor forgets it: whatever waited for it is queued and no
  event stays registered unless \<open>epoll_ctl\<close> failed, the context is marked closed and out of
  the table, so that a later hooked call on the number is passed to the original function,
  and the other descriptors keep their contexts. The original \<open>close\<close> is called once, with
  its result returned.
\<close>

theorem hook_close_spec:
  assumes "hk_enable w" "FdMgr_get fd w = Inr (Some p)" "0 \<le> fd" "io_inv (hk_io w)" "fdm_ok (hk_fdm w)"
  shows "\<exists>w1 b. hook_close table_ctl True fd r w = Inr (fst r, w1) \<and> io_inv (hk_io w1) \<and> fdm_ok (hk_fdm w1)
    \<and> fc_isClosed (fm_heap (hk_fdm w1) p) \<and> FdMgr_get fd w1 = Inr None
    \<and> (\<forall>g. g \<noteq> nat fd \<longrightarrow> fd_map (hk_fdm w1) g = fd_map (hk_fdm w) g)
    \<and> IOhook ctl now a ee cur fd ev so ti (x # rs) w1 = Inr (Done (fst x), rs, set_errno x w1)
    \<and> (b \<longrightarrow> m_events (io_contexts (hk_io w1) ! nat fd) = 0
         \<and> sc_queue (io_sched (hk_io w1)) = sc_queue (io_sched (hk_io w)) @
             fired (m_events (io_contexts (hk_io w) ! nat fd)) (io_contexts (hk_io w) ! nat fd))
    \<and> (\<not> b \<longrightarrow> sc_queue (io_sched (hk_io w1)) = sc_queue (io_sched (hk_io w)))"
proof -
  have ok: "io_ok ep_interest (hk_io w)" "32 \<le> length (io_contexts (hk_io w))"
    using assms(4) by (simp_all add: io_inv_def)
  from kernel.cancelAll_ok [OF ok(1), of fd] obtain b io where
    c: "cancelAll table_ctl fd (hk_io w) = Inr (b, io)" "length (io_contexts io) = length (io_contexts (hk_io w))"
       "io_ok ep_interest io"
       "sc_queue (io_sched io) = sc_queue (io_sched (hk_io w)) @
          (if b then fired (m_events (io_contexts (hk_io w) ! nat fd)) (io_contexts (hk_io w) ! nat fd) else [])"
       "b \<longrightarrow> m_events (io_contexts io ! nat fd) = 0" by blast
  have len: "nat fd < length (fm_datas (hk_fdm w))" "fm_datas (hk_fdm w) ! nat fd = Some p"
    using assms(2,3) by (auto simp: FdMgr_get_def get_lookup_def bind_res_eq_Inr lift_fd_def
        split: sum.splits option.splits if_splits)
  define m where "m = (update_ctx p (\<lambda>x. x\<lparr>fc_isClosed := True\<rparr>) (hk_fdm w))
    \<lparr>fm_datas := (fm_datas (hk_fdm w))[nat fd := None]\<rparr>"
  have d: "FdManager_del fd (update_ctx p (\<lambda>x. x\<lparr>fc_isClosed := True\<rparr>) (hk_fdm w)) = Inr m"
    using len assms(3) by (auto simp: FdManager_del_def update_ctx_def m_def)
  define w1 where "w1 = set_errno r (w\<lparr>hk_io := io, hk_fdm := m\<rparr>)"
  have cl: "hook_close table_ctl True fd r w = Inr (fst r, w1)"
    using assms(1,2) c(1) d by (simp add: hook_close_def lift_io_def lift_fd_def w1_def)
  have map: "fd_map m = (fd_map (hk_fdm w))(nat fd := None)"
    using len by (auto simp: fd_map_def m_def update_ctx_def fun_eq_iff nth_list_update)
  have m: "fdm_ok m" using assms(5) map
    by (auto simp: fdm_ok_def m_def update_ctx_def split: if_splits)
  have g: "FdMgr_get fd w1 = Inr None"
    using len assms(3) by (auto simp: FdMgr_get_def w1_def get_lookup_def m_def update_ctx_def lift_fd_def)
  have "hk_enable w1" using assms(1) by (simp add: w1_def)
  then have "IOhook ctl now a ee cur fd ev so ti (x # rs) w1 = Inr (Done (fst x), rs, set_errno x w1)"
    using g by (simp add: IOhook_def pass_through_def)
  then show ?thesis using cl c g m map ok(2)
    by (intro exI [of _ w1] exI [of _ b]) (auto simp: w1_def m_def update_ctx_def io_inv_def)
qed

lemma hook_close_spec_witness:
  "\<exists>w1. hook_close table_ctl True 5 (0, 0) socket_world = Inr (0, w1) \<and> FdMgr_get 5 w1 = Inr None"
proof -
  have "hk_enable socket_world" by (simp add: socket_world_def)
  moreover have "fdm_ok (hk_fdm socket_world)"
    by (auto simp: fdm_ok_def fd_map_def socket_world_def nth_list_update split: if_splits)
  moreover have "io_inv (hk_io socket_world)" using socket_world_ready [of 0] by (simp add: hook_ready_def)
  ultimately show ?thesis
    using hook_close_spec [of socket_world 5 0 "(0, 0)" undefined] tracked_socketD(1) [OF socket_world_tracked]
    by fastforce
qed

lemma nanosleep_small:
  assumes "0 \<le> sec" "0 \<le> ns" "sec * 1000 + ns div 1000000 < 2 ^ 31"
  shows "int (unat (nanosleep_ms sec ns)) = sec * 1000 + ns div 1000000"
proof -
  let ?m = "sec * 1000 + ns div 1000000"
  have m: "0 \<le> ?m" "?m < 2 ^ 31" using assms by (simp_all add: pos_imp_zdiv_nonneg_iff)
  have d: "ns div 1000 div 1000 = ns div 1000000" using zdiv_zmult2_eq [of 1000 ns 1000] by simp
  have "sint (word_of_int ?m :: u32) = ?m"
    unfolding signed_of_int using m by (simp add: signed_take_bit_int_eq_self)
  then have "nanosleep_ms sec ns = word_of_int ?m" unfolding nanosleep_ms_def d by (simp only:)
  then have "uint (nanosleep_ms sec ns) = take_bit 64 ?m" by (simp only: unsigned_of_int) simp
  then show ?thesis using m by (simp add: take_bit_int_eq_self)
qed

text \<open>
  How long the sleeping functions really sleep. \<open>sleep\<close> arms a timer of
  \<open>1000 * seconds\<close> ms reduced modulo 2^32, which is the time asked for exactly up to 4294967
  seconds and shorter for everything above; \<open>usleep\<close> rounds down to whole milliseconds, so
  anything below 1000 microseconds does not sleep at all; \<open>nanosleep\<close> is exact up to
  2^31 - 1 ms and, just above, asks for a timer of about 2^64 ms.
\<close>

theorem sleep_bounds:
  "unat (sleep_ms s) = 1000 * unat s mod 2 ^ 32
   \<and> (unat (sleep_ms s) = 1000 * unat s \<longleftrightarrow> unat s \<le> 4294967)
   \<and> unat (usleep_ms u) = unat u div 1000
   \<and> (0 \<le> sec \<and> 0 \<le> ns \<and> sec * 1000 + ns div 1000000 < 2 ^ 31 \<longrightarrow>
        int (unat (nanosleep_ms sec ns)) = sec * 1000 + ns div 1000000)
   \<and> nanosleep_ms 2147484 0 = - 2147483296"
proof -
  have "unat (sleep_ms s) = 1000 * unat s mod 2 ^ 32"
    by (simp add: sleep_ms_def unsigned_ucast_eq unat_word_ariths mult.commute take_bit_nat_eq_self)
  moreover have "unat s < 2 ^ 32" using unsigned_less [of s, where ?'a = nat] by simp
  moreover have "unat (usleep_ms u) = unat u div 1000"
  proof -
    have "unat u < 2 ^ 32" using unsigned_less [of u, where ?'a = nat] by simp
    then have "unat u div 1000 < 2 ^ 64" by simp
    then show ?thesis
      by (simp add: usleep_ms_def unsigned_ucast_eq unat_div take_bit_nat_eq_self)
  qed
  ultimately show ?thesis using nanosleep_small [of sec ns] by (auto simp: nanosleep_ms_def [of 2147484])
qed

lemma sleep_bounds_witness: "unat (sleep_ms 5000000) = 705032704 \<and> unat (usleep_ms 999) = 0"
  using sleep_bounds [of 5000000 999 0 0] by simp

end
