(* ===== verification/Ip_Address.thy ===== *)
theory Ip_Address
  imports C_Strings Endians
begin

text \<open>
  \<open>src/src/socket/ipaddress.h\<close> and \<open>ipaddress.cpp\<close>: the address classes, their memory
  layout (what \<open>getAddr()\<close> points to), comparison, printing, ports, the prefix operations,
  name resolution and interface enumeration. \<open>getaddrinfo\<close>, \<open>getifaddrs\<close> and \<open>inet_pton\<close>
  are parameters. Undefined behaviour and exceptions are \<open>Inl\<close> values.
\<close>

section \<open>Data\<close>

datatype addr_error =
    NULL_ADDRESS      \<comment> \<open>a null pointer is dereferenced\<close>
  | OUT_OF_BOUNDS     \<comment> \<open>an array or structure is read or written past its end\<close>
  | SHIFT_TOO_WIDE    \<comment> \<open>a shift by the width of the type\<close>
  | PATH_TOO_LONG     \<comment> \<open>\<open>std::logic_error("path too long")\<close>\<close>

definition AF_UNSPEC :: u16 where "AF_UNSPEC = 0"
definition AF_UNIX :: u16 where "AF_UNIX = 1"
definition AF_INET :: u16 where "AF_INET = 2"
definition AF_INET6 :: u16 where "AF_INET6 = 10"

record sockaddr_in =
  sin_family :: u16
  sin_port :: u16
  s_addr :: u32
  sin_zero :: "u8 list"

record sockaddr_in6 =
  sin6_family :: u16
  sin6_port :: u16
  sin6_flowinfo :: u32
  s6_addr :: "u8 list"
  sin6_scope_id :: u32

record sockaddr_un =
  sun_family :: u16
  sun_path :: "string"

record sockaddr_any =
  sa_family :: u16
  sa_data :: "u8 list"

datatype Address =
    IPv4Address sockaddr_in
  | IPv6Address sockaddr_in6
  | UnixAddress sockaddr_un u32
  | UnknownAddress sockaddr_any

text \<open>The structures have the sizes their C declarations give them.\<close>

fun layout_ok :: "Address \<Rightarrow> bool" where
  "layout_ok (IPv4Address a) = (length (sin_zero a) = 8)"
| "layout_ok (IPv6Address a) = (length (s6_addr a) = 16)"
| "layout_ok (UnixAddress a l) = (length (sun_path a) = 108 \<and> unat l \<le> 110)"
| "layout_ok (UnknownAddress a) = (length (sa_data a) = 14)"

section \<open>Memory\<close>

definition bytes_of_string :: "string \<Rightarrow> u8 list" where
  "bytes_of_string s = map (\<lambda>c. of_char c) s"

fun getAddr :: "Address \<Rightarrow> u8 list" where
  "getAddr (IPv4Address a) =
     to_bytes 2 (sin_family a) @ to_bytes 2 (sin_port a) @ to_bytes 4 (s_addr a) @ sin_zero a"
| "getAddr (IPv6Address a) =
     to_bytes 2 (sin6_family a) @ to_bytes 2 (sin6_port a) @ to_bytes 4 (sin6_flowinfo a) @
     s6_addr a @ to_bytes 4 (sin6_scope_id a)"
| "getAddr (UnixAddress a l) = to_bytes 2 (sun_family a) @ bytes_of_string (sun_path a)"
| "getAddr (UnknownAddress a) = to_bytes 2 (sa_family a) @ sa_data a"

fun getAddrLen :: "Address \<Rightarrow> u32" where
  "getAddrLen (IPv4Address a) = 16"
| "getAddrLen (IPv6Address a) = 28"
| "getAddrLen (UnixAddress a l) = l"
| "getAddrLen (UnknownAddress a) = 16"

definition getFamily :: "Address \<Rightarrow> int" where
  "getFamily a = uint (of_bytes (take 2 (getAddr a)) :: u16)"

section \<open>Comparison\<close>

fun memcmp :: "u8 list \<Rightarrow> u8 list \<Rightarrow> nat \<Rightarrow> int" where
  "memcmp (x # xs) (y # ys) (Suc n) =
     (if x < y then - 1 else if y < x then 1 else memcmp xs ys n)"
| "memcmp _ _ _ = 0"

definition Address_less :: "Address \<Rightarrow> Address \<Rightarrow> bool" where
  "Address_less a b =
     (let minlen = min (getAddrLen a) (getAddrLen b);
          result = memcmp (getAddr a) (getAddr b) (unat minlen)
      in if result < 0 then True
         else if 0 < result then False
         else if getAddrLen a < getAddrLen b then True
         else False)"

definition Address_eq :: "Address \<Rightarrow> Address \<Rightarrow> bool" where
  "Address_eq a b \<longleftrightarrow>
     getAddrLen a = getAddrLen b \<and> memcmp (getAddr a) (getAddr b) (unat (getAddrLen a)) = 0"

definition Address_neq :: "Address \<Rightarrow> Address \<Rightarrow> bool" where
  "Address_neq a b \<longleftrightarrow> \<not> Address_eq a b"

section \<open>Masks and bit counts\<close>

definition CreateMask_32 :: "u32 \<Rightarrow> addr_error + u32" where
  "CreateMask_32 bits =
     (if unat bits < 32 then Inr (NOT (push_bit (unat bits) (NOT 0))) else Inl SHIFT_TOO_WIDE)"

text \<open>For \<open>uint8_t\<close> the operand is promoted to a 32 bit \<open>int\<close> before it is shifted.\<close>

definition CreateMask_8 :: "u32 \<Rightarrow> u8" where
  "CreateMask_8 bits = ucast (NOT (push_bit (unat bits) (NOT (ucast (0 :: u8) :: u32))))"

lemma less_sub_one: "v \<noteq> 0 \<Longrightarrow> unat (v AND (v - 1) :: 'a::len word) < unat v"
proof -
  assume v: "v \<noteq> 0"
  have "v AND (v - 1) \<le> v - 1" by (rule word_and_le1)
  also have "v - 1 < v" using v by (simp add: word_less_nat_alt unat_minus_one unat_gt_0)
  finally show ?thesis by (simp add: word_less_nat_alt)
qed

function CountBytes_loop :: "'a::len word \<Rightarrow> u32 \<Rightarrow> u32" where
  "CountBytes_loop v result =
     (if v = 0 then result else CountBytes_loop (v AND (v - 1)) (result + 1))"
  by pat_completeness auto
termination by (relation "measure (\<lambda>(v, r). unat v)") (auto simp: less_sub_one)

declare CountBytes_loop.simps [simp del]

definition CountBytes :: "'a::len word \<Rightarrow> u32" where
  "CountBytes v = CountBytes_loop v 0"

section \<open>IPv4\<close>

definition new_IPv4 :: "u32 \<Rightarrow> u16 \<Rightarrow> sockaddr_in" where
  "new_IPv4 addr port =
     \<lparr>sin_family = AF_INET, sin_port = byteswapOnLittleEndian_16 port,
      s_addr = byteswapOnLittleEndian_32 addr, sin_zero = replicate 8 0\<rparr>"

definition IPv4_insert :: "sockaddr_in \<Rightarrow> string" where
  "IPv4_insert a =
     (let v = byteswapOnLittleEndian_32 (s_addr a)
      in dec (unat (drop_bit 24 v AND 0xff)) @ ''.'' @ dec (unat (drop_bit 16 v AND 0xff)) @ ''.'' @
         dec (unat (drop_bit 8 v AND 0xff)) @ ''.'' @ dec (unat (v AND 0xff)) @ '':'' @
         dec (unat (byteswapOnLittleEndian_16 (sin_port a))))"

definition IPv4_broadcastAddress :: "sockaddr_in \<Rightarrow> u32 \<Rightarrow> addr_error + sockaddr_in option" where
  "IPv4_broadcastAddress a prefix_len =
     (if 32 < prefix_len then Inr None
      else bind_res (CreateMask_32 prefix_len) (\<lambda>mk.
        Inr (Some (a\<lparr>s_addr := s_addr a OR byteswapOnLittleEndian_32 (NOT mk)\<rparr>))))"

definition IPv4_networkAddress :: "sockaddr_in \<Rightarrow> u32 \<Rightarrow> addr_error + sockaddr_in option" where
  "IPv4_networkAddress a prefix_len =
     (if 32 < prefix_len then Inr None
      else bind_res (CreateMask_32 prefix_len) (\<lambda>mk.
        Inr (Some (a\<lparr>s_addr := s_addr a AND byteswapOnLittleEndian_32 mk\<rparr>))))"

definition IPv4_subnetMask :: "u32 \<Rightarrow> addr_error + sockaddr_in" where
  "IPv4_subnetMask prefix_len =
     bind_res (CreateMask_32 prefix_len) (\<lambda>mk.
       Inr \<lparr>sin_family = AF_INET, sin_port = 0, s_addr = byteswapOnLittleEndian_32 mk,
            sin_zero = replicate 8 0\<rparr>)"

definition IPv4_getPort :: "sockaddr_in \<Rightarrow> u16" where
  "IPv4_getPort a = byteswapOnLittleEndian_16 (sin_port a)"

definition IPv4_setPort :: "u16 \<Rightarrow> sockaddr_in \<Rightarrow> sockaddr_in" where
  "IPv4_setPort v a = a\<lparr>sin_port := byteswapOnLittleEndian_16 v\<rparr>"

text \<open>\<open>inet_pton\<close> returns 1 and the parsed address, 0 or a negative number.\<close>

definition IPv4_Create :: "(u16 \<Rightarrow> string \<Rightarrow> int \<times> u8 list) \<Rightarrow> string \<Rightarrow> u16 \<Rightarrow> sockaddr_in option" where
  "IPv4_Create inet_pton address port =
     (let rt = (new_IPv4 0 0)\<lparr>sin_port := byteswapOnLittleEndian_16 port\<rparr>;
          (result, parsed) = inet_pton AF_INET (c_str address)
      in if result \<le> 0 then None
         else Some (rt\<lparr>s_addr := of_bytes parsed\<rparr>))"

section \<open>IPv6\<close>

definition new_IPv6_any :: sockaddr_in6 where
  "new_IPv6_any =
     \<lparr>sin6_family = AF_INET6, sin6_port = 0, sin6_flowinfo = 0, s6_addr = replicate 16 0,
      sin6_scope_id = 0\<rparr>"

definition new_IPv6 :: "u8 list \<Rightarrow> u16 \<Rightarrow> sockaddr_in6" where
  "new_IPv6 addr port =
     new_IPv6_any\<lparr>sin6_port := byteswapOnLittleEndian_16 port, s6_addr := addr\<rparr>"

text \<open>\<open>((uint16_t* )s6_addr)[i]\<close>\<close>

definition addr16 :: "sockaddr_in6 \<Rightarrow> nat \<Rightarrow> u16" where
  "addr16 a i = of_bytes (take 2 (drop (2 * i) (s6_addr a)))"

fun IPv6_groups :: "sockaddr_in6 \<Rightarrow> nat list \<Rightarrow> bool \<Rightarrow> string \<Rightarrow> string \<times> bool" where
  "IPv6_groups a [] used_zeros os = (os, used_zeros)"
| "IPv6_groups a (i # js) used_zeros os =
     (if addr16 a i = 0 \<and> \<not> used_zeros then IPv6_groups a js used_zeros os
      else
        let (os1, used1) =
              (if i \<noteq> 0 \<and> addr16 a (i - 1) = 0 \<and> \<not> used_zeros then (os @ '':'', True)
               else (os, used_zeros));
            os2 = (if i \<noteq> 0 then os1 @ '':'' else os1)
        in IPv6_groups a js used1 (os2 @ hex (unat (byteswapOnLittleEndian_16 (addr16 a i)))))"

definition IPv6_insert :: "sockaddr_in6 \<Rightarrow> string" where
  "IPv6_insert a =
     (let (os, used_zeros) = IPv6_groups a [0..<8] False ''['';
          os' = (if \<not> used_zeros \<and> addr16 a 7 = 0 then os @ ''::'' else os)
      in os' @ '']:'' @ dec (unat (byteswapOnLittleEndian_16 (sin6_port a))))"

definition IPv6_broadcastAddress :: "sockaddr_in6 \<Rightarrow> u32 \<Rightarrow> addr_error + sockaddr_in6" where
  "IPv6_broadcastAddress a prefix_len =
     (let k = unat (prefix_len div 8); bs = s6_addr a
      in if 16 \<le> k then Inl OUT_OF_BOUNDS
         else Inr (a\<lparr>s6_addr :=
           take k bs @ (bs ! k OR NOT (CreateMask_8 (prefix_len mod 8))) # replicate (15 - k) 0xff\<rparr>))"

definition IPv6_networkAddress :: "sockaddr_in6 \<Rightarrow> u32 \<Rightarrow> addr_error + sockaddr_in6" where
  "IPv6_networkAddress a prefix_len =
     (let k = unat (prefix_len div 8); bs = s6_addr a
      in if 16 \<le> k then Inl OUT_OF_BOUNDS
         else Inr (a\<lparr>s6_addr := bs[k := bs ! k AND CreateMask_8 (prefix_len mod 8)]\<rparr>))"

definition IPv6_subnetMask :: "u32 \<Rightarrow> addr_error + sockaddr_in6" where
  "IPv6_subnetMask prefix_len =
     (let k = unat (prefix_len div 8)
      in if 16 \<le> k then Inl OUT_OF_BOUNDS
         else Inr (new_IPv6_any\<lparr>s6_addr :=
           replicate k 0xff @ CreateMask_8 (prefix_len mod 8) # replicate (15 - k) 0\<rparr>))"

definition IPv6_getPort :: "sockaddr_in6 \<Rightarrow> u16" where
  "IPv6_getPort a = byteswapOnLittleEndian_16 (sin6_port a)"

definition IPv6_setPort :: "u16 \<Rightarrow> sockaddr_in6 \<Rightarrow> sockaddr_in6" where
  "IPv6_setPort v a = a\<lparr>sin6_port := byteswapOnLittleEndian_16 v\<rparr>"

definition IPv6_Create :: "(u16 \<Rightarrow> string \<Rightarrow> int \<times> u8 list) \<Rightarrow> string \<Rightarrow> u16 \<Rightarrow> sockaddr_in6 option" where
  "IPv6_Create inet_pton address port =
     (let rt = new_IPv6_any\<lparr>sin6_port := byteswapOnLittleEndian_16 port\<rparr>;
          (result, parsed) = inet_pton AF_INET6 (c_str address)
      in if result < 0 then None
         else Some (if result = 0 then rt else rt\<lparr>s6_addr := parsed\<rparr>))"

section \<open>Unix and unknown addresses\<close>

definition new_Unix_any :: Address where
  "new_Unix_any =
     UnixAddress \<lparr>sun_family = AF_UNIX, sun_path = replicate 108 (CHR 0x00)\<rparr> (2 + (108 - 1))"

definition new_Unix :: "string \<Rightarrow> addr_error + Address" where
  "new_Unix path =
     (let m_length = word_of_nat (length path + 1) :: u32;
          m_length = (if path \<noteq> [] \<and> path ! 0 = CHR 0x00 then m_length - 1 else m_length)
      in if 108 < m_length then Inl PATH_TOO_LONG
         else Inr (UnixAddress
           \<lparr>sun_family = AF_UNIX,
            sun_path = overwrite 0 (take (unat m_length) (path @ [CHR 0x00]))
                         (replicate 108 (CHR 0x00))\<rparr>
           (m_length + 2)))"

definition setAddrLen :: "u32 \<Rightarrow> sockaddr_un \<times> u32 \<Rightarrow> sockaddr_un \<times> u32" where
  "setAddrLen v a = (fst a, v)"

definition Unix_insert :: "sockaddr_un \<Rightarrow> u32 \<Rightarrow> string" where
  "Unix_insert a m_length =
     (if 2 < m_length \<and> sun_path a ! 0 = CHR 0x00
      then CHR 0x5C # CHR ''0'' # take (unat (m_length - 2 - 1)) (drop 1 (sun_path a))
      else c_str (sun_path a))"

definition new_Unknown :: "int \<Rightarrow> Address" where
  "new_Unknown family =
     UnknownAddress \<lparr>sa_family = word_of_int family, sa_data = replicate 14 0\<rparr>"

definition Unknown_insert :: "sockaddr_any \<Rightarrow> string" where
  "Unknown_insert a = ''[UnknownAddress family='' @ dec (unat (sa_family a)) @ '']''"

fun toString_addr :: "Address \<Rightarrow> string" where
  "toString_addr (IPv4Address a) = IPv4_insert a"
| "toString_addr (IPv6Address a) = IPv6_insert a"
| "toString_addr (UnixAddress a l) = Unix_insert a l"
| "toString_addr (UnknownAddress a) = Unknown_insert a"

section \<open>Creation from a socket address\<close>

text \<open>The pointed-to memory is a byte list; a cast that reads past its end is a failure.\<close>

definition read_in :: "u8 list \<Rightarrow> sockaddr_in" where
  "read_in m = \<lparr>sin_family = of_bytes (take 2 m), sin_port = of_bytes (take 2 (drop 2 m)),
     s_addr = of_bytes (take 4 (drop 4 m)), sin_zero = take 8 (drop 8 m)\<rparr>"

definition read_in6 :: "u8 list \<Rightarrow> sockaddr_in6" where
  "read_in6 m = \<lparr>sin6_family = of_bytes (take 2 m), sin6_port = of_bytes (take 2 (drop 2 m)),
     sin6_flowinfo = of_bytes (take 4 (drop 4 m)), s6_addr = take 16 (drop 8 m),
     sin6_scope_id = of_bytes (take 4 (drop 24 m))\<rparr>"

definition read_any :: "u8 list \<Rightarrow> sockaddr_any" where
  "read_any m = \<lparr>sa_family = of_bytes (take 2 m), sa_data = take 14 (drop 2 m)\<rparr>"

definition Address_Create :: "u8 list option \<Rightarrow> addr_error + Address option" where
  "Address_Create addr =
     (case addr of
        None \<Rightarrow> Inr None
      | Some m \<Rightarrow>
          let need = (\<lambda>n r. if length m < n then Inl OUT_OF_BOUNDS else Inr (Some r));
              family = of_bytes (take 2 m) :: u16
          in if length m < 2 then Inl OUT_OF_BOUNDS
             else if family = AF_INET then need 16 (IPv4Address (read_in m))
             else if family = AF_INET6 then need 28 (IPv6Address (read_in6 m))
             else need 16 (UnknownAddress (read_any m)))"

section \<open>Name resolution\<close>

definition IsWithinBounds :: "nat \<Rightarrow> nat \<Rightarrow> nat \<Rightarrow> bool" where
  "IsWithinBounds ptr start stop \<longleftrightarrow> start \<le> ptr \<and> ptr < stop"

text \<open>
  The splitting of \<open>host\<close> into \<open>node\<close> and \<open>service\<close>. A service is an index into \<open>host\<close>,
  as the pointer in the code is; \<open>None\<close> is the early \<open>return false\<close>.
\<close>

definition bracket_part :: "string \<Rightarrow> (string \<times> nat option) option" where
  "bracket_part host =
     (if host \<noteq> [] \<and> host ! 0 = CHR ''['' then
        (case mem_chr host 1 (CHR '']'') (length host - 1) of
           None \<Rightarrow> Some ([], None)
         | Some endipv6 \<Rightarrow>
             let node = take (endipv6 - 1) (drop 1 host)
             in if (host @ [CHR 0x00]) ! (endipv6 + 1) = CHR '':'' then
                  (if IsWithinBounds (endipv6 + 2) 0 (length host)
                   then Some (node, Some (endipv6 + 2)) else None)
                else Some (node, None))
      else Some ([], None))"

definition colon_part :: "string \<Rightarrow> string \<times> nat option \<Rightarrow> (string \<times> nat option) option" where
  "colon_part host ns =
     (if fst ns = [] then
        (case mem_chr host 0 (CHR '':'') (length host) of
           None \<Rightarrow> Some ([], None)
         | Some service \<Rightarrow>
             if IsWithinBounds (service + 1) 0 (length host) then
               (if mem_chr host (service + 1) (CHR '':'') (length host - service - 1) = None
                then Some (take service host, Some (service + 1))
                else Some ([], Some service))
             else None)
      else Some ns)"

definition split_host :: "string \<Rightarrow> (string \<times> string option) option" where
  "split_host host =
     (case bracket_part host of
        None \<Rightarrow> None
      | Some ns \<Rightarrow>
          (case colon_part host ns of
             None \<Rightarrow> None
           | Some (node, service) \<Rightarrow>
               Some (c_str (if node = [] then host else node),
                     map_option (\<lambda>i. c_str (drop i host)) service)))"

text \<open>
  \<open>getaddrinfo\<close>: an error code or the addresses of the result list.
\<close>

type_synonym getaddrinfo =
  "string \<Rightarrow> string option \<Rightarrow> int \<Rightarrow> int \<Rightarrow> int \<Rightarrow> int \<Rightarrow> int + u8 list option list"

definition AI_NUMERICHOST :: int where "AI_NUMERICHOST = 4"

fun create_all :: "u8 list option list \<Rightarrow> addr_error + Address option list" where
  "create_all [] = Inr []"
| "create_all (m # ms) =
     bind_res (Address_Create m) (\<lambda>a. bind_res (create_all ms) (\<lambda>addrs. Inr (a # addrs)))"

definition Lookup ::
  "getaddrinfo \<Rightarrow> string \<Rightarrow> int \<Rightarrow> int \<Rightarrow> int \<Rightarrow> addr_error + Address option list option" where
  "Lookup gai host family type protocol =
     (case split_host host of
        None \<Rightarrow> Inr None
      | Some (node, service) \<Rightarrow>
          (case gai node service 0 family type protocol of
             Inl error \<Rightarrow> Inr None
           | Inr results \<Rightarrow> bind_res (create_all results) (\<lambda>addrs. Inr (Some addrs))))"

definition LookupAny ::
  "getaddrinfo \<Rightarrow> string \<Rightarrow> int \<Rightarrow> int \<Rightarrow> int \<Rightarrow> addr_error + Address option" where
  "LookupAny gai host family type protocol =
     bind_res (Lookup gai host family type protocol) (\<lambda>r.
       case r of
         None \<Rightarrow> Inr None
       | Some [] \<Rightarrow> Inl OUT_OF_BOUNDS
       | Some (a # _) \<Rightarrow> Inr a)"

fun as_IPAddress :: "Address option \<Rightarrow> Address option" where
  "as_IPAddress (Some (IPv4Address a)) = Some (IPv4Address a)"
| "as_IPAddress (Some (IPv6Address a)) = Some (IPv6Address a)"
| "as_IPAddress _ = None"

fun first_IPAddress :: "Address option list \<Rightarrow> Address option" where
  "first_IPAddress [] = None"
| "first_IPAddress (i # is) =
     (case as_IPAddress i of Some v \<Rightarrow> Some v | None \<Rightarrow> first_IPAddress is)"

definition LookupAnyIPAddress ::
  "getaddrinfo \<Rightarrow> string \<Rightarrow> int \<Rightarrow> int \<Rightarrow> int \<Rightarrow> addr_error + Address option" where
  "LookupAnyIPAddress gai host family type protocol =
     bind_res (Lookup gai host family type protocol) (\<lambda>r.
       case r of None \<Rightarrow> Inr None | Some addrs \<Rightarrow> Inr (first_IPAddress addrs))"

fun setPort :: "u16 \<Rightarrow> Address \<Rightarrow> Address" where
  "setPort v (IPv4Address a) = IPv4Address (IPv4_setPort v a)"
| "setPort v (IPv6Address a) = IPv6Address (IPv6_setPort v a)"
| "setPort v a = a"

definition IPAddress_Create :: "getaddrinfo \<Rightarrow> string \<Rightarrow> u16 \<Rightarrow> addr_error + Address option" where
  "IPAddress_Create gai address port =
     (case gai (c_str address) None AI_NUMERICHOST (uint AF_UNSPEC) 0 0 of
        Inl error \<Rightarrow> Inr None
      | Inr [] \<Rightarrow> Inl NULL_ADDRESS
      | Inr (m # _) \<Rightarrow>
          bind_res (Address_Create m) (\<lambda>a. Inr (map_option (setPort port) (as_IPAddress a))))"

section \<open>Interfaces\<close>

record ifaddr =
  ifa_name :: string
  ifa_addr :: "u8 list option"
  ifa_netmask :: "u8 list option"

definition interface_entry ::
  "int \<Rightarrow> ifaddr \<Rightarrow> addr_error + (Address option \<times> u32) option" where
  "interface_entry family i =
     (case ifa_addr i of
        None \<Rightarrow> Inl NULL_ADDRESS
      | Some m \<Rightarrow>
          let f = of_bytes (take 2 m) :: u16
          in if family \<noteq> uint AF_UNSPEC \<and> family \<noteq> uint f then Inr None
             else if f = AF_INET then
               bind_res (Address_Create (ifa_addr i)) (\<lambda>addr.
                 case ifa_netmask i of
                   None \<Rightarrow> Inl NULL_ADDRESS
                 | Some nm \<Rightarrow> Inr (Some (addr, CountBytes (s_addr (read_in nm)))))
             else if f = AF_INET6 then
               bind_res (Address_Create (ifa_addr i)) (\<lambda>addr.
                 case ifa_netmask i of
                   None \<Rightarrow> Inl NULL_ADDRESS
                 | Some nm \<Rightarrow>
                     Inr (Some (addr, foldl (\<lambda>n b. n + CountBytes b) 0 (s6_addr (read_in6 nm)))))
             else Inr (Some (None, NOT 0)))"

fun interface_loop ::
  "int \<Rightarrow> ifaddr list \<Rightarrow> (string \<times> Address option \<times> u32) list \<Rightarrow>
   addr_error + (string \<times> Address option \<times> u32) list" where
  "interface_loop family [] result = Inr result"
| "interface_loop family (i # is) result =
     bind_res (interface_entry family i) (\<lambda>e.
       interface_loop family is
         (case e of
            Some (Some a, n) \<Rightarrow> mm_insert str_less (ifa_name i) (Some a, n) result
          | _ \<Rightarrow> result))"

text \<open>\<open>getifaddrs\<close> fails or yields the interface list.\<close>

definition GetInterfaceAddresses ::
  "ifaddr list option \<Rightarrow> int \<Rightarrow> (string \<times> Address option \<times> u32) list \<Rightarrow>
   addr_error + (string \<times> Address option \<times> u32) list option" where
  "GetInterfaceAddresses getifaddrs family result =
     (case getifaddrs of
        None \<Rightarrow> Inr None
      | Some is \<Rightarrow> bind_res (interface_loop family is result) (\<lambda>r. Inr (Some r)))"

definition GetInterfaceAddresses_named ::
  "ifaddr list option \<Rightarrow> string \<Rightarrow> int \<Rightarrow> addr_error + (Address option \<times> u32) list option" where
  "GetInterfaceAddresses_named getifaddrs iface family =
     (if iface = [] \<or> iface = ''*'' then
        Inr (Some (if family = uint AF_INET6 \<or> family = uint AF_UNSPEC
                   then [(Some (IPv6Address new_IPv6_any), 0)] else []))
      else
        bind_res (GetInterfaceAddresses getifaddrs family []) (\<lambda>r.
          case r of
            None \<Rightarrow> Inr None
          | Some results \<Rightarrow> Inr (Some (map snd (mm_equal_range str_less iface results)))))"

section \<open>Order\<close>

fun bytes_less :: "u8 list \<Rightarrow> u8 list \<Rightarrow> bool" where
  "bytes_less xs [] = False"
| "bytes_less [] (y # ys) = True"
| "bytes_less (x # xs) (y # ys) = (x < y \<or> (x = y \<and> bytes_less xs ys))"

lemma bytes_less_asym: "bytes_less xs ys \<Longrightarrow> \<not> bytes_less ys xs"
  by (induction xs ys rule: bytes_less.induct) auto

lemma bytes_less_negtrans: "bytes_less xs ys \<Longrightarrow> bytes_less xs zs \<or> bytes_less zs ys"
proof (induction xs ys arbitrary: zs rule: bytes_less.induct)
  case (3 x xs y ys)
  then show ?case by (cases zs) auto
qed (auto elim: bytes_less.elims)

lemma bytes_less_total: "bytes_less xs ys \<or> bytes_less ys xs \<or> xs = ys"
proof (induction xs ys rule: bytes_less.induct)
  case (1 xs)
  then show ?case by (cases xs) auto
qed auto

interpretation address_order: strict_weak_order bytes_less
  by unfold_locales (fact bytes_less_asym, fact bytes_less_negtrans)

text \<open>The part of the memory that the comparison looks at.\<close>

definition used_bytes :: "Address \<Rightarrow> u8 list" where
  "used_bytes a = take (unat (getAddrLen a)) (getAddr a)"

lemma length_used: "layout_ok a \<Longrightarrow> length (used_bytes a) = unat (getAddrLen a)"
  by (cases a) (auto simp: used_bytes_def bytes_of_string_def)

lemma memcmp_less:
  "m \<le> length xs \<Longrightarrow> n \<le> length ys \<Longrightarrow>
   (memcmp xs ys (min m n) < 0 \<or> (memcmp xs ys (min m n) = 0 \<and> m < n)) =
   bytes_less (take m xs) (take n ys)"
proof (induction xs arbitrary: ys m n)
  case Nil
  then show ?case by (cases ys; cases n) auto
next
  case (Cons x xs)
  show ?case
  proof (cases "m = 0 \<or> n = 0")
    case True
    then show ?thesis using Cons.prems by (cases ys; cases m; cases n) auto
  next
    case False
    then obtain m' n' y ys' where "m = Suc m'" "n = Suc n'" "ys = y # ys'"
      using Cons.prems by (cases m; cases n; cases ys) auto
    then show ?thesis using Cons.IH [of m' n' ys'] Cons.prems by (auto simp: not_less)
  qed
qed

lemma memcmp_eq:
  "n \<le> length xs \<Longrightarrow> n \<le> length ys \<Longrightarrow> memcmp xs ys n = 0 \<longleftrightarrow> take n xs = take n ys"
  by (induction xs ys n rule: memcmp.induct) (auto simp: not_less)

lemma Address_less_bytes:
  assumes "layout_ok a" "layout_ok b"
  shows "Address_less a b \<longleftrightarrow> bytes_less (used_bytes a) (used_bytes b)"
proof -
  have l: "unat (getAddrLen c) \<le> length (getAddr c)" if "layout_ok c" for c
    using that by (cases c) (auto simp: bytes_of_string_def)
  have "unat (min (getAddrLen a) (getAddrLen b)) = min (unat (getAddrLen a)) (unat (getAddrLen b))"
    by (simp add: min_def word_le_nat_alt)
  then show ?thesis
    unfolding used_bytes_def
    by (subst memcmp_less [symmetric])
      (use l assms in \<open>auto simp: Address_less_def Let_def word_less_nat_alt\<close>)
qed

lemma Address_eq_bytes:
  assumes "layout_ok a" "layout_ok b"
  shows "Address_eq a b \<longleftrightarrow> used_bytes a = used_bytes b"
proof -
  have l: "unat (getAddrLen c) \<le> length (getAddr c)" if "layout_ok c" for c
    using that by (cases c) (auto simp: bytes_of_string_def)
  have "Address_eq a b" if "used_bytes a = used_bytes b"
    using that l [OF assms(1)] l [OF assms(2)] length_used [OF assms(1)] length_used [OF assms(2)]
    by (metis Address_eq_def memcmp_eq used_bytes_def word_unat_eq_iff)
  moreover have "used_bytes a = used_bytes b" if "Address_eq a b"
    using that l [OF assms(1)] l [OF assms(2)]
    by (auto simp: Address_eq_def used_bytes_def memcmp_eq)
  ultimately show ?thesis by blast
qed

text \<open>
  The comparison operators of \<open>Address\<close> are a strict total order and an equality that
  agree: of two addresses exactly one of \<open>a < b\<close>, \<open>b < a\<close>, \<open>a == b\<close> holds, whatever their
  families, \<open><\<close> is transitive, and equal addresses can replace each other in comparisons.
  This is what \<open>std::map\<close> and \<open>std::set\<close> demand of a key.
\<close>

theorem Address_order_total:
  assumes "layout_ok a" "layout_ok b" "layout_ok c"
  shows "(Address_less a b \<or> Address_less b a) = Address_neq a b
    \<and> \<not> (Address_less a b \<and> Address_less b a)
    \<and> (Address_less a b \<and> Address_less b c \<longrightarrow> Address_less a c)
    \<and> (Address_eq a b \<longrightarrow> Address_less a c = Address_less b c \<and> Address_less c a = Address_less c b)"
  unfolding Address_neq_def
  using assms bytes_less_total [of "used_bytes a" "used_bytes b"]
  by (simp add: Address_less_bytes Address_eq_bytes)
    (metis address_order.asym address_order.irrefl address_order.trans)

lemma Address_order_total_witness:
  "(Address_less (IPv4Address (new_IPv4 1 80)) (new_Unknown 2)
      \<or> Address_less (new_Unknown 2) (IPv4Address (new_IPv4 1 80)))
    = Address_neq (IPv4Address (new_IPv4 1 80)) (new_Unknown 2)"
  using Address_order_total [of "IPv4Address (new_IPv4 1 80)" "new_Unknown 2" new_Unix_any]
  by (simp add: new_IPv4_def new_Unknown_def new_Unix_any_def)

section \<open>Round trips\<close>

definition ip_ok :: "Address \<Rightarrow> bool" where
  "ip_ok a \<longleftrightarrow> layout_ok a \<and>
     (case a of IPv4Address b \<Rightarrow> sin_family b = AF_INET
      | IPv6Address b \<Rightarrow> sin6_family b = AF_INET6 | _ \<Rightarrow> False)"

lemma of_bytes_16 [simp]: "of_bytes (to_bytes 2 w) = (w :: u16)"
  by (rule of_to_bytes) simp

lemma of_bytes_32 [simp]: "of_bytes (to_bytes 4 w) = (w :: u32)"
  by (rule of_to_bytes) simp

lemma byteswap_16_twice [simp]: "byteswapOnLittleEndian_16 (byteswapOnLittleEndian_16 v) = v"
  by (simp add: byteswapOnLittleEndian_16_def)

lemma byteswap_32_twice [simp]: "byteswapOnLittleEndian_32 (byteswapOnLittleEndian_32 v) = v"
  by (simp add: byteswapOnLittleEndian_32_def)

lemma setPort_ip_ok: "ip_ok a \<Longrightarrow> ip_ok (setPort p a)"
  by (cases a) (auto simp: ip_ok_def IPv4_setPort_def IPv6_setPort_def)

lemma Create_getAddr: "ip_ok a \<Longrightarrow> Address_Create (Some (getAddr a)) = Inr (Some a)"
  by (cases a)
    (auto simp: ip_ok_def Address_Create_def read_in_def read_in6_def Let_def AF_INET_def AF_INET6_def)

fun getPort :: "Address \<Rightarrow> u16 option" where
  "getPort (IPv4Address a) = Some (IPv4_getPort a)"
| "getPort (IPv6Address a) = Some (IPv6_getPort a)"
| "getPort _ = None"

text \<open>
  An internet address that travels through the kernel as raw memory comes back as it
  was: \<open>Address::Create\<close> on the bytes of \<open>getAddr()\<close> rebuilds the object, with the port
  that \<open>setPort\<close> stored, and the bytes carry the port most significant byte first.
\<close>

theorem address_roundtrip:
  assumes "ip_ok a"
  shows "Address_Create (Some (getAddr (setPort p a))) = Inr (Some (setPort p a))
    \<and> getPort (setPort p a) = Some p
    \<and> take 2 (drop 2 (getAddr (setPort p a))) = rev (to_bytes 2 p)
    \<and> getFamily (setPort p a) = getFamily a"
proof -
  have s: "to_bytes 2 (byteswapOnLittleEndian_16 p) = rev (to_bytes 2 p)"
    by (simp add: byteswapOnLittleEndian_16_def THIS_BYTE_ORDER_def THIS_LITTLE_ENDIAN_def
        THIS_BIG_ENDIAN_def to_bytes_bswap_16)
  show ?thesis
    using Create_getAddr [OF setPort_ip_ok [OF assms, of p]] assms s
    by (cases a) (auto simp: ip_ok_def getFamily_def IPv4_setPort_def IPv6_setPort_def
        IPv4_getPort_def IPv6_getPort_def)
qed

lemma address_roundtrip_witness:
  "getPort (setPort 8080 (IPv6Address new_IPv6_any)) = Some 8080"
  using address_roundtrip [of "IPv6Address new_IPv6_any" 8080]
  by (simp add: ip_ok_def new_IPv6_any_def)

section \<open>Prefix operations\<close>

lemma to_bytes_and: "to_bytes n (a AND b) = map2 (AND) (to_bytes n a) (to_bytes n b)"
  by (rule nth_equalityI) (simp_all add: drop_bit_and unsigned_and_eq)

lemma to_bytes_or: "to_bytes n (a OR b) = map2 (OR) (to_bytes n a) (to_bytes n b)"
  by (rule nth_equalityI) (simp_all add: drop_bit_or unsigned_or_eq)

lemma byteswap_32_bytes:
  "to_bytes 4 (byteswapOnLittleEndian_32 v) = rev (to_bytes 4 v)"
  by (simp add: byteswapOnLittleEndian_32_def THIS_BYTE_ORDER_def THIS_LITTLE_ENDIAN_def
      THIS_BIG_ENDIAN_def to_bytes_bswap_32)

lemma byteswap_32_and:
  "byteswapOnLittleEndian_32 (a AND b) = byteswapOnLittleEndian_32 a AND byteswapOnLittleEndian_32 b"
  by (rule to_bytes_inj [of 4]) (simp_all add: byteswap_32_bytes to_bytes_and rev_map zip_rev)

lemma byteswap_32_or:
  "byteswapOnLittleEndian_32 (a OR b) = byteswapOnLittleEndian_32 a OR byteswapOnLittleEndian_32 b"
  by (rule to_bytes_inj [of 4]) (simp_all add: byteswap_32_bytes to_bytes_or rev_map zip_rev)

lemma CreateMask_32_mask: "n < 32 \<Longrightarrow> CreateMask_32 (word_of_nat n) = Inr (mask n)"
  by (auto simp: CreateMask_32_def unat_of_nat intro!: bit_word_eqI simp: bit_simps)

text \<open>The address in host order, as a caller of the constructor writes it.\<close>

definition host_order :: "sockaddr_in \<Rightarrow> u32" where
  "host_order a = byteswapOnLittleEndian_32 (s_addr a)"

definition netmask :: "nat \<Rightarrow> u32" where
  "netmask n = NOT (mask (32 - n))"

lemma mask_not_netmask: "0 < n \<Longrightarrow> n < 32 \<Longrightarrow> (mask n :: u32) \<noteq> netmask n"
proof
  assume n: "0 < n" "n < 32" and eq: "(mask n :: u32) = netmask n"
  have "bit (mask n :: u32) 31 = bit (netmask n) 31" using eq by simp
  then show False using n by (simp add: netmask_def bit_simps)
qed

text \<open>
  The prefix operations of IPv4 addresses take the mask from the wrong end. For every
  prefix length strictly between 0 and 32 the subnet mask has the low \<open>n\<close> bits set and not
  the high ones (a \<open>/24\<close> mask prints as 0.255.255.255), the network address keeps the low
  \<open>n\<close> bits and the broadcast address sets the high ones, so the mask is never the netmask of
  the prefix; for prefix 32 all three shift a 32 bit value by 32.
\<close>

theorem IPv4_prefix_wrong_end:
  assumes "0 < n" "n < 32"
  shows "(\<exists>s. IPv4_subnetMask (word_of_nat n) = Inr s \<and> host_order s = mask n
             \<and> host_order s \<noteq> netmask n)
    \<and> (\<exists>b. IPv4_networkAddress a (word_of_nat n) = Inr (Some b)
             \<and> host_order b = host_order a AND mask n)
    \<and> (\<exists>b. IPv4_broadcastAddress a (word_of_nat n) = Inr (Some b)
             \<and> host_order b = host_order a OR NOT (mask n))
    \<and> IPv4_subnetMask 32 = Inl SHIFT_TOO_WIDE
    \<and> IPv4_networkAddress a 32 = Inl SHIFT_TOO_WIDE
    \<and> IPv4_broadcastAddress a 32 = Inl SHIFT_TOO_WIDE"
proof -
  have le: "\<not> (32 :: u32) < word_of_nat n"
    using assms(2) by (simp add: word_less_nat_alt unat_of_nat)
  have k: "CreateMask_32 (word_of_nat n) = Inr (mask n)"
    using assms(2) by (rule CreateMask_32_mask)
  have w: "CreateMask_32 32 = Inl SHIFT_TOO_WIDE" by (simp add: CreateMask_32_def)
  show ?thesis
    using assms le
    by (simp add: IPv4_subnetMask_def IPv4_networkAddress_def IPv4_broadcastAddress_def
        host_order_def k w byteswap_32_and byteswap_32_or mask_not_netmask)
qed

lemma IPv4_prefix_wrong_end_witness:
  "\<exists>s. IPv4_subnetMask 24 = Inr s \<and> host_order s = mask 24"
  using IPv4_prefix_wrong_end [of 24] by simp blast

text \<open>
  An IPv4 address prints as its four bytes in decimal, most significant first, then a
  colon and the port, and both can be read back from the text: \<open>getPort\<close> returns the port
  the constructor was given.
\<close>

theorem IPv4_text:
  "IPv4_insert (new_IPv4 addr port) =
     dec (unat (drop_bit 24 addr)) @ ''.'' @
     dec (unat (drop_bit 16 addr) mod 256) @ ''.'' @
     dec (unat (drop_bit 8 addr) mod 256) @ ''.'' @
     dec (unat addr mod 256) @ '':'' @ dec (unat port)
   \<and> IPv4_getPort (new_IPv4 addr port) = port
   \<and> IPv4_getPort (IPv4_setPort q (new_IPv4 addr port)) = q
   \<and> host_order (new_IPv4 addr port) = addr"
proof -
  have m: "unat (v AND 0xff) = unat v mod 256" for v :: u32
    using take_bit_eq_mask [of 8 "unat v"]
    by (simp add: unsigned_and_eq take_bit_eq_mod mask_eq_exp_minus_1)
  have t: "unat (drop_bit 24 addr) < 256" 
    using unsigned_less [of addr, where ?'a = nat]
    by (simp add: drop_bit_eq_div unat_div less_mult_imp_div_less)
  show ?thesis using t unfolding host_order_def
    by (simp add: IPv4_insert_def new_IPv4_def IPv4_getPort_def IPv4_setPort_def m Let_def)
qed

section \<open>Splitting a host\<close>

lemma split_plain:
  assumes "CHR '':'' \<notin> set host" "host = [] \<or> host ! 0 \<noteq> CHR ''[''"
  shows "split_host host = Some (c_str host, None)"
proof -
  have "mem_chr host 0 (CHR '':'') (length host) = None" using assms by (simp add: mem_chr_None)
  then show ?thesis using assms by (auto simp: split_host_def bracket_part_def colon_part_def)
qed

lemma colon_hit: "CHR '':'' \<notin> set node \<Longrightarrow>
   mem_chr (node @ CHR '':'' # s) 0 (CHR '':'') (Suc (length node + length s)) = Some (length node)"
  using mem_chr_hit [of "CHR '':''" node _ "[]" 0 s] by simp

lemma split_named:
  assumes "node \<noteq> []" "node ! 0 \<noteq> CHR ''[''" "CHR '':'' \<notin> set node" "CHR '':'' \<notin> set service"
    "service \<noteq> []"
  shows "split_host (node @ '':'' @ service) = Some (c_str node, Some (c_str service))"
proof -
  have "mem_chr (node @ CHR '':'' # service) (Suc (length node)) (CHR '':'') (length service) = None"
    using assms(4) by (simp add: mem_chr_None)
  then show ?thesis using assms colon_hit [OF assms(3), of service]
    by (auto simp: split_host_def bracket_part_def colon_part_def IsWithinBounds_def nth_append)
qed

lemma split_no_service:
  assumes "node ! 0 \<noteq> CHR ''['' \<or> node = []" "CHR '':'' \<notin> set node"
  shows "split_host (node @ '':'') = None"
  using assms colon_hit [OF assms(2), of "[]"]
  by (auto simp: split_host_def bracket_part_def colon_part_def IsWithinBounds_def nth_append)

lemma split_bracket:
  assumes "v6 \<noteq> []" "CHR '']'' \<notin> set v6" "service \<noteq> []"
  shows "split_host (''['' @ v6 @ '']:'' @ service) = Some (c_str v6, Some (c_str service))"
    and "split_host (''['' @ v6 @ '']'') = Some (c_str v6, None)"
proof -
  have "mem_chr ([CHR ''[''] @ v6 @ CHR '']'' # s) 1 (CHR '']'') (Suc (length v6 + length s))
      = Some (1 + length v6)" for s
    using assms(2) by (intro mem_chr_hit) auto
  then have h: "mem_chr (CHR ''['' # v6 @ CHR '']'' # s) (Suc 0) (CHR '']'')
      (Suc (length v6 + length s)) = Some (Suc (length v6))" for s by simp
  show "split_host (''['' @ v6 @ '']:'' @ service) = Some (c_str v6, Some (c_str service))"
    using assms h [of "CHR '':'' # service"]
    by (simp add: split_host_def bracket_part_def colon_part_def IsWithinBounds_def nth_append)
  show "split_host (''['' @ v6 @ '']'') = Some (c_str v6, None)"
    using assms h [of "[]"]
    by (simp add: split_host_def bracket_part_def colon_part_def IsWithinBounds_def nth_append)
qed

lemma split_bare_v6:
  assumes "CHR '':'' \<notin> set a" "a = [] \<or> a ! 0 \<noteq> CHR ''[''" "CHR '':'' \<in> set b"
  shows "split_host (a @ '':'' @ b) = Some (c_str (a @ '':'' @ b), Some ('':'' @ c_str b))"
proof -
  have "b \<noteq> []" using assms(3) by auto
  moreover have "mem_chr (a @ CHR '':'' # b) (Suc (length a)) (CHR '':'') (length b) \<noteq> None"
    using assms(3) by (simp add: mem_chr_None)
  ultimately show ?thesis using assms colon_hit [OF assms(1), of b]
    by (auto simp: split_host_def bracket_part_def colon_part_def IsWithinBounds_def nth_append
        c_str_def)
qed

text \<open>
  How \<open>Lookup\<close> splits its \<open>host\<close> argument. A name without colon is the node and has no
  service; \<open>name:service\<close> and \<open>[v6]:service\<close> are split at the colon; a trailing colon makes
  \<open>Lookup\<close> return false without resolving. A bare IPv6 address, with two or more colons and
  no brackets, is not recognised as such: it is passed as the node, but together with the
  service string that starts at its first colon.
\<close>

theorem Lookup_split:
  assumes "node \<noteq> []" "node ! 0 \<noteq> CHR ''[''" "CHR '':'' \<notin> set node"
    "service \<noteq> []" "CHR '':'' \<notin> set service" "v6 \<noteq> []" "CHR '']'' \<notin> set v6"
    "CHR '':'' \<in> set rest"
  shows "split_host node = Some (c_str node, None)
    \<and> split_host (node @ '':'' @ service) = Some (c_str node, Some (c_str service))
    \<and> split_host (''['' @ v6 @ '']:'' @ service) = Some (c_str v6, Some (c_str service))
    \<and> split_host (''['' @ v6 @ '']'') = Some (c_str v6, None)
    \<and> Lookup gai (node @ '':'') family type protocol = Inr None
    \<and> split_host (node @ '':'' @ rest) = Some (c_str (node @ '':'' @ rest), Some ('':'' @ c_str rest))"
  using assms split_no_service [of node]
  by (simp add: split_plain split_named [simplified] split_bracket [simplified]
      split_bare_v6 [simplified] Lookup_def)

lemma Lookup_split_witness:
  "split_host ''localhost:80'' = Some (''localhost'', Some ''80'')
   \<and> split_host ''[::1]:80'' = Some (''::1'', Some ''80'')
   \<and> split_host ''fe80:::1'' = Some (''fe80:::1'', Some '':::1'')"
  using Lookup_split [of "''localhost''" "''80''" "''::1''" "''::1''" "\<lambda>_ _ _ _ _ _. Inr []" 0 0 0]
    Lookup_split [of "''fe80''" "''80''" "''::1''" "''::1''" "\<lambda>_ _ _ _ _ _. Inr []" 0 0 0]
  by (simp add: c_str_def)

section \<open>Counting bits\<close>

fun ones :: "nat \<Rightarrow> nat" where
  "ones n = (if n = 0 then 0 else n mod 2 + ones (n div 2))"

declare ones.simps [simp del]

lemma ones_zero [simp]: "ones 0 = 0"
  by (simp add: ones.simps)

lemma ones_double [simp]: "ones (2 * n) = ones n" "ones (Suc (2 * n)) = Suc (ones n)"
  by (subst ones.simps, simp)+

lemma ones_clear_lowest: "0 < n \<Longrightarrow> Suc (ones (n AND (n - 1))) = ones n"
proof (induction n rule: nat_bit_induct)
  case (even n)
  have "2 * n AND (2 * n - 1) = 2 * (n AND (n - 1))"
  proof -
    have "(2 * n - 1) div 2 = n - 1" "odd (2 * n - 1)" using even by auto
    then show ?thesis by (subst and_rec) simp
  qed
  then show ?case using even by simp
next
  case (odd n)
  have "Suc (2 * n) AND (2 * n) = 2 * n"
    by (subst and_rec) simp
  then show ?case by simp
qed simp

lemma CountBytes_loop_ones: "CountBytes_loop v r = r + word_of_nat (ones (unat v))"
proof (induction v r rule: CountBytes_loop.induct)
  case (1 v r)
  show ?case
  proof (cases "v = 0")
    case True
    then show ?thesis by (simp add: CountBytes_loop.simps)
  next
    case False
    then have "ones (unat v) = Suc (ones (unat (v AND (v - 1))))"
      using ones_clear_lowest [of "unat v"] by (simp add: unsigned_and_eq unat_minus_one unat_gt_0)
    then show ?thesis using 1 False by (subst CountBytes_loop.simps) simp
  qed
qed

text \<open>
  \<open>CountBytes\<close>, which clears the lowest set bit until none is left, returns after as
  many steps as there are bits set: its result is the number of ones of the value.
\<close>

theorem CountBytes_ones: "CountBytes v = word_of_nat (ones (unat v))"
  by (simp add: CountBytes_def CountBytes_loop_ones)

end
