(* ===== verification/Async_Sockets.thy ===== *)
theory Async_Sockets
  imports Hooks Ip_Address
begin

text \<open>
  \<open>src/src/socket/async_socket.{h,cpp}\<close>: the socket object over the hooked system calls.
  What a system call returns is an argument of the operation that makes it; the calls an
  operation makes are returned as a list, so that statements about the order and number of
  calls (which descriptors are opened and closed) can be made. Timeouts go through the
  hooked \<open>setsockopt\<close> and the descriptor table of the theory \<open>Hooks\<close>. Logging is left out.
\<close>

section \<open>State and system calls\<close>

definition SOCK_STREAM :: int where "SOCK_STREAM = 1"
definition SOCK_DGRAM :: int where "SOCK_DGRAM = 2"
definition IPPROTO_TCP :: int where "IPPROTO_TCP = 6"
definition TCP_NODELAY :: int where "TCP_NODELAY = 1"
definition SO_REUSEADDR :: int where "SO_REUSEADDR = 2"

record Socket =
  sk_sock :: int
  sk_family :: int
  sk_type :: int
  sk_protocol :: int
  sk_isConnected :: bool
  sk_localAddress :: "Address option"
  sk_remoteAddress :: "Address option"

datatype sys_call =
    Sys_socket int int int
  | Sys_setsockopt int int int int
  | Sys_bind int "u8 list" u32
  | Sys_listen int int
  | Sys_accept int
  | Sys_connect int "u8 list" u32 "u64 option"
  | Sys_getpeername int
  | Sys_getsockname int
  | Sys_close int

text \<open>What \<open>getsockname\<close> and \<open>getpeername\<close> return: status, bytes stored, new length.\<close>

type_synonym name_result = "int \<times> u8 list \<times> u32"

definition new_Socket :: "int \<Rightarrow> int \<Rightarrow> int \<Rightarrow> Socket" where
  "new_Socket family type protocol =
     \<lparr>sk_sock = - 1, sk_family = family, sk_type = type, sk_protocol = protocol,
      sk_isConnected = False, sk_localAddress = None, sk_remoteAddress = None\<rparr>"

definition isValid :: "Socket \<Rightarrow> bool" where
  "isValid s \<longleftrightarrow> sk_sock s \<noteq> - 1"

definition initSock :: "Socket \<Rightarrow> sys_call list" where
  "initSock s =
     Sys_setsockopt (sk_sock s) SOL_SOCKET SO_REUSEADDR 1 #
     (if sk_type s = SOCK_STREAM then [Sys_setsockopt (sk_sock s) IPPROTO_TCP TCP_NODELAY 1] else [])"

definition newSock :: "int \<Rightarrow> Socket \<Rightarrow> Socket \<times> sys_call list" where
  "newSock fd s =
     (let s1 = s\<lparr>sk_sock := fd\<rparr>
      in (s1, Sys_socket (sk_family s) (sk_type s) (sk_protocol s) #
              (if sk_sock s1 \<noteq> - 1 then initSock s1 else [])))"

section \<open>Addresses\<close>

definition string_of_bytes :: "u8 list \<Rightarrow> string" where
  "string_of_bytes bs = map (\<lambda>b. char_of (unat b)) bs"

text \<open>The object the address functions let the kernel write to.\<close>

definition blank_address :: "int \<Rightarrow> Address" where
  "blank_address family =
     (if family = uint AF_INET then IPv4Address (new_IPv4 0 0)
      else if family = uint AF_INET6 then IPv6Address new_IPv6_any
      else if family = uint AF_UNIX then new_Unix_any
      else new_Unknown family)"

text \<open>The kernel stores bytes at the start of the object, within the length it was given.\<close>

definition fill_address :: "u8 list \<Rightarrow> Address \<Rightarrow> Address" where
  "fill_address bs a =
     (let m = overwrite 0 (take (unat (getAddrLen a)) bs) (getAddr a)
      in case a of
           IPv4Address b \<Rightarrow> IPv4Address (read_in m)
         | IPv6Address b \<Rightarrow> IPv6Address (read_in6 m)
         | UnixAddress b l \<Rightarrow>
             UnixAddress \<lparr>sun_family = of_bytes (take 2 m), sun_path = string_of_bytes (drop 2 m)\<rparr> l
         | UnknownAddress b \<Rightarrow> UnknownAddress (read_any m))"

text \<open>\<open>setAddrLen\<close> on the result of the downcast.\<close>

fun with_len :: "u32 \<Rightarrow> Address \<Rightarrow> Address" where
  "with_len l (UnixAddress a l') = (let (a1, l1) = setAddrLen l (a, l') in UnixAddress a1 l1)"
| "with_len l a = a"

definition named_address :: "int \<Rightarrow> name_result \<Rightarrow> Address" where
  "named_address family nr =
     (case nr of (rc, bs, addrlen) \<Rightarrow>
        let result = fill_address bs (blank_address family)
        in if family = uint AF_UNIX then with_len addrlen result else result)"

definition getRemoteAddress :: "name_result \<Rightarrow> Socket \<Rightarrow> Address \<times> Socket \<times> sys_call list" where
  "getRemoteAddress nr s =
     (case sk_remoteAddress s of
        Some a \<Rightarrow> (a, s, [])
      | None \<Rightarrow>
          if fst nr \<noteq> 0 then (new_Unknown (sk_family s), s, [Sys_getpeername (sk_sock s)])
          else let a = named_address (sk_family s) nr
               in (a, s\<lparr>sk_remoteAddress := Some a\<rparr>, [Sys_getpeername (sk_sock s)]))"

definition getLocalAddress :: "name_result \<Rightarrow> Socket \<Rightarrow> Address \<times> Socket \<times> sys_call list" where
  "getLocalAddress nr s =
     (case sk_localAddress s of
        Some a \<Rightarrow> (a, s, [])
      | None \<Rightarrow>
          if fst nr \<noteq> 0 then (new_Unknown (sk_family s), s, [Sys_getsockname (sk_sock s)])
          else let a = named_address (sk_family s) nr
               in (a, s\<lparr>sk_localAddress := Some a\<rparr>, [Sys_getsockname (sk_sock s)]))"

section \<open>Options\<close>

text \<open>The \<open>timeval\<close> the two setters build from milliseconds.\<close>

definition timeout_tv :: "int \<Rightarrow> int \<times> int" where
  "timeout_tv v = (to_i32 (tdiv v 1000), to_i32 (tmod v 1000 * 1000))"

definition setSendTimeout :: "int \<Rightarrow> sysres \<Rightarrow> Socket \<Rightarrow> 'k hook_world \<Rightarrow> hook_error + bool \<times> 'k hook_world" where
  "setSendTimeout v r s w =
     bind_res (hook_setsockopt (sk_sock s) SOL_SOCKET SO_SNDTIMEO (timeout_tv v) r w)
       (\<lambda>(rc, w1). Inr (rc = 0, w1))"

definition setRecvTimeout :: "int \<Rightarrow> sysres \<Rightarrow> Socket \<Rightarrow> 'k hook_world \<Rightarrow> hook_error + bool \<times> 'k hook_world" where
  "setRecvTimeout v r s w =
     bind_res (hook_setsockopt (sk_sock s) SOL_SOCKET SO_RCVTIMEO (timeout_tv v) r w)
       (\<lambda>(rc, w1). Inr (rc = 0, w1))"

definition getSendTimeout :: "Socket \<Rightarrow> 'k hook_world \<Rightarrow> hook_error + int" where
  "getSendTimeout s w =
     bind_res (FdMgr_get (sk_sock s) w) (\<lambda>c.
       Inr (case c of Some p \<Rightarrow> sint (getTimeout SO_SNDTIMEO (fm_heap (hk_fdm w) p)) | None \<Rightarrow> - 1))"

definition getRecvTimeout :: "Socket \<Rightarrow> 'k hook_world \<Rightarrow> hook_error + int" where
  "getRecvTimeout s w =
     bind_res (FdMgr_get (sk_sock s) w) (\<lambda>c.
       Inr (case c of Some p \<Rightarrow> sint (getTimeout SO_RCVTIMEO (fm_heap (hk_fdm w) p)) | None \<Rightarrow> - 1))"

text \<open>\<open>getError\<close>: the result of \<open>getsockopt\<close>, the value it stored and \<open>errno\<close>.\<close>

definition getError :: "int \<times> int \<times> int \<Rightarrow> int" where
  "getError r = (case r of (rt, error, e) \<Rightarrow> if rt \<noteq> 0 then e else error)"

section \<open>Connection\<close>

definition Socket_close :: "Socket \<Rightarrow> bool \<times> Socket \<times> sys_call list" where
  "Socket_close s =
     (if \<not> sk_isConnected s \<and> sk_sock s = - 1 then (True, s, [])
      else
        let s1 = s\<lparr>sk_isConnected := False\<rparr>
        in if sk_sock s1 \<noteq> - 1 then (False, s1\<lparr>sk_sock := - 1\<rparr>, [Sys_close (sk_sock s1)])
           else (False, s1, []))"

text \<open>\<open>init\<close>: \<open>tracked\<close> is whether the table has an open socket context for the number.\<close>

definition Socket_init ::
  "bool \<Rightarrow> int \<Rightarrow> name_result \<Rightarrow> name_result \<Rightarrow> Socket \<Rightarrow> bool \<times> Socket \<times> sys_call list" where
  "Socket_init tracked sock loc rem s =
     (if tracked then
        let s1 = s\<lparr>sk_sock := sock, sk_isConnected := True\<rparr>;
            c1 = initSock s1;
            (_, s2, c2) = getLocalAddress loc s1;
            (_, s3, c3) = getRemoteAddress rem s2
        in (True, s3, c1 @ c2 @ c3)
      else (False, s, []))"

definition Socket_accept ::
  "int \<Rightarrow> bool \<Rightarrow> name_result \<Rightarrow> name_result \<Rightarrow> Socket \<Rightarrow> Socket option \<times> sys_call list" where
  "Socket_accept newsock tracked loc rem s =
     (let sock = new_Socket (sk_family s) (sk_type s) (sk_protocol s)
      in if newsock = - 1 then (None, [Sys_accept (sk_sock s)])
         else
           let (ok, sock1, cs) = Socket_init tracked newsock loc rem sock
           in (if ok then Some sock1 else None, Sys_accept (sk_sock s) # cs))"

text \<open>\<open>if (!isValid()) newSock()\<close>, with the descriptor \<open>socket\<close> returns.\<close>

definition ensure_sock :: "int \<Rightarrow> Socket \<Rightarrow> Socket \<times> sys_call list" where
  "ensure_sock fd s = (if \<not> isValid s then newSock fd s else (s, []))"

definition Socket_bind ::
  "int \<Rightarrow> int \<Rightarrow> name_result \<Rightarrow> Address \<Rightarrow> Socket \<Rightarrow> bool \<times> Socket \<times> sys_call list" where
  "Socket_bind fd rc loc addr s =
     (let (s1, c1) = ensure_sock fd s
      in if \<not> isValid s1 then (False, s1, c1)
         else if getFamily addr \<noteq> sk_family s1 then (False, s1, c1)
         else
           let c2 = c1 @ [Sys_bind (sk_sock s1) (getAddr addr) (getAddrLen addr)]
           in if rc \<noteq> 0 then (False, s1, c2)
              else let (_, s2, c3) = getLocalAddress loc s1 in (True, s2, c2 @ c3))"

definition Socket_listen :: "int \<Rightarrow> int \<Rightarrow> Socket \<Rightarrow> bool \<times> sys_call list" where
  "Socket_listen backlog rc s =
     (if \<not> isValid s then (False, [])
      else (rc = 0, [Sys_listen (sk_sock s) backlog]))"

definition Socket_connect ::
  "int \<Rightarrow> int \<Rightarrow> name_result \<Rightarrow> name_result \<Rightarrow> Address \<Rightarrow> u64 \<Rightarrow> Socket \<Rightarrow> bool \<times> Socket \<times> sys_call list" where
  "Socket_connect fd rc loc rem addr timeout_ms s =
     (let (s1, c1) = ensure_sock fd s
      in if \<not> isValid s1 then (False, s1, c1)
         else if getFamily addr \<noteq> sk_family s1 then (False, s1, c1)
         else
           let c2 = c1 @ [Sys_connect (sk_sock s1) (getAddr addr) (getAddrLen addr)
                            (if timeout_ms = - 1 then None else Some timeout_ms)]
           in if rc \<noteq> 0 then
                (let (_, s2, c3) = Socket_close s1 in (False, s2, c2 @ c3))
              else
                let s2 = s1\<lparr>sk_isConnected := True\<rparr>;
                    (_, s3, c3) = getRemoteAddress rem s2;
                    (_, s4, c4) = getLocalAddress loc s3
                in (True, s4, c2 @ c3 @ c4))"

section \<open>Transfer\<close>

text \<open>
  The transfer functions pass their arguments on and truncate the result to \<open>int\<close>; \<open>r\<close> is
  what the system call returns when it is made.
\<close>

definition Socket_send :: "int \<Rightarrow> Socket \<Rightarrow> int" where
  "Socket_send r s = (if sk_isConnected s then to_i32 r else - 1)"

definition Socket_sendTo :: "int \<Rightarrow> Socket \<Rightarrow> int" where
  "Socket_sendTo r s = to_i32 r"

definition Socket_recv :: "int \<Rightarrow> Socket \<Rightarrow> int" where
  "Socket_recv r s = (if sk_isConnected s then to_i32 r else - 1)"

definition Socket_recvFrom :: "int \<Rightarrow> Socket \<Rightarrow> int" where
  "Socket_recvFrom r s = (if sk_isConnected s then to_i32 r else - 1)"

text \<open>\<open>cancelRead\<close>, \<open>cancelWrite\<close>, \<open>cancelAccept\<close>, \<open>cancelAll\<close>\<close>

definition cancelRead where "cancelRead ctl s io = cancelEvent ctl (sk_sock s) READ io"
definition cancelWrite where "cancelWrite ctl s io = cancelEvent ctl (sk_sock s) WRITE io"
definition cancelAccept where "cancelAccept ctl s io = cancelEvent ctl (sk_sock s) READ io"
definition Socket_cancelAll where "Socket_cancelAll ctl s io = cancelAll ctl (sk_sock s) io"

section \<open>Text\<close>

definition Socket_toString :: "Socket \<Rightarrow> string" where
  "Socket_toString s =
     ''[Socket sock='' @ int_str (sk_sock s) @
     '' is_connected='' @ (if sk_isConnected s then ''1'' else ''0'') @
     '' family='' @ int_str (sk_family s) @ '' type='' @ int_str (sk_type s) @
     '' protocol='' @ int_str (sk_protocol s) @
     (case sk_localAddress s of None \<Rightarrow> [] | Some a \<Rightarrow> '' local_address='' @ toString_addr a) @
     (case sk_remoteAddress s of None \<Rightarrow> [] | Some a \<Rightarrow> '' remote_address='' @ toString_addr a) @
     '']''"

section \<open>Factories\<close>

definition CreateTCP :: "Address \<Rightarrow> Socket" where
  "CreateTCP a = new_Socket (getFamily a) SOCK_STREAM 0"

definition CreateUDP :: "Address \<Rightarrow> Socket" where
  "CreateUDP a = new_Socket (getFamily a) SOCK_DGRAM 0"

definition CreateTCPSocket :: Socket where "CreateTCPSocket = new_Socket (uint AF_INET) SOCK_STREAM 0"
definition CreateUDPSocket :: Socket where "CreateUDPSocket = new_Socket (uint AF_INET) SOCK_DGRAM 0"
definition CreateUnixStreamSocket :: Socket where
  "CreateUnixStreamSocket = new_Socket (uint AF_UNIX) SOCK_STREAM 0"
definition CreateUnixDgramSocket :: Socket where
  "CreateUnixDgramSocket = new_Socket (uint AF_UNIX) SOCK_DGRAM 0"

section \<open>Descriptors are neither leaked nor closed twice\<close>

text \<open>The operations a program applies to one socket, with what the kernel answers.\<close>

datatype socket_op =
    Bind int int name_result Address
  | Listen int int
  | Connect int int name_result name_result Address u64
  | Close
  | AskRemote name_result
  | AskLocal name_result

text \<open>The state with the calls made so far.\<close>

fun socket_step :: "socket_op \<Rightarrow> Socket \<times> sys_call list \<Rightarrow> Socket \<times> sys_call list" where
  "socket_step (Bind fd rc loc addr) (s, log) = (let (_, s1, cs) = Socket_bind fd rc loc addr s in (s1, log @ cs))"
| "socket_step (Listen backlog rc) (s, log) = (let (_, cs) = Socket_listen backlog rc s in (s, log @ cs))"
| "socket_step (Connect fd rc loc rem addr to) (s, log) =
     (let (_, s1, cs) = Socket_connect fd rc loc rem addr to s in (s1, log @ cs))"
| "socket_step Close (s, log) = (let (_, s1, cs) = Socket_close s in (s1, log @ cs))"
| "socket_step (AskRemote nr) (s, log) = (let (_, s1, cs) = getRemoteAddress nr s in (s1, log @ cs))"
| "socket_step (AskLocal nr) (s, log) = (let (_, s1, cs) = getLocalAddress nr s in (s1, log @ cs))"

text \<open>The descriptor a step gets from \<open>socket\<close>, if any, and the ones closed in a log.\<close>

fun opens :: "socket_op \<Rightarrow> Socket \<Rightarrow> int list" where
  "opens (Bind fd rc loc addr) s = (if isValid s \<or> fd = - 1 then [] else [fd])"
| "opens (Connect fd rc loc rem addr to) s = (if isValid s \<or> fd = - 1 then [] else [fd])"
| "opens _ s = []"

fun closed_in :: "sys_call list \<Rightarrow> int list" where
  "closed_in [] = []"
| "closed_in (Sys_close fd # cs) = fd # closed_in cs"
| "closed_in (_ # cs) = closed_in cs"

inductive socket_run :: "Socket \<Rightarrow> int list \<Rightarrow> Socket \<Rightarrow> sys_call list \<Rightarrow> bool" for s0 where
  start: "socket_run s0 [] s0 []"
| step: "socket_run s0 os s log \<Longrightarrow> socket_step op (s, log) = (s', log') \<Longrightarrow>
    socket_run s0 (os @ opens op s) s' log'"

inductive_cases socket_runE: "socket_run s0 os s log"

definition socket_ok :: "int list \<Rightarrow> Socket \<Rightarrow> sys_call list \<Rightarrow> bool" where
  "socket_ok os s log \<longleftrightarrow> (sk_isConnected s \<longrightarrow> isValid s) \<and>
     os = closed_in log @ (if isValid s then [sk_sock s] else [])"

lemma closed_in_append [simp]: "closed_in (xs @ ys) = closed_in xs @ closed_in ys"
  by (induction xs rule: closed_in.induct) auto

lemma address_calls [simp]:
  "closed_in (snd (snd (getRemoteAddress nr s))) = []" "closed_in (snd (snd (getLocalAddress nr s))) = []"
  "sk_sock (fst (snd (getRemoteAddress nr s))) = sk_sock s" "sk_sock (fst (snd (getLocalAddress nr s))) = sk_sock s"
  "sk_isConnected (fst (snd (getRemoteAddress nr s))) = sk_isConnected s"
  "sk_isConnected (fst (snd (getLocalAddress nr s))) = sk_isConnected s"
  by (auto simp: getRemoteAddress_def getLocalAddress_def Let_def split: option.splits)

lemma initSock_closed [simp]: "closed_in (initSock s) = []"
  by (simp add: initSock_def)

lemma ensure_sock_simps [simp]:
  "closed_in (snd (ensure_sock fd s)) = []"
  "sk_sock (fst (ensure_sock fd s)) = (if isValid s then sk_sock s else fd)"
  "sk_isConnected (fst (ensure_sock fd s)) = sk_isConnected s"
  "sk_family (fst (ensure_sock fd s)) = sk_family s"
  by (auto simp: ensure_sock_def newSock_def isValid_def Let_def)

lemma socket_ok_step:
  assumes "socket_ok os s log" "socket_step op (s, log) = (s', log')"
  shows "socket_ok (os @ opens op s) s' log'"
  using assms
  by (cases op)
    (auto simp: socket_ok_def Socket_bind_def Socket_connect_def Socket_close_def Socket_listen_def
      isValid_def Let_def case_prod_unfold split: if_splits)

section \<open>Properties\<close>

lemma socket_run_ok: "socket_run (new_Socket f t p) os s log \<Longrightarrow> socket_ok os s log"
proof (induction rule: socket_run.induct)
  case start
  show ?case by (simp add: socket_ok_def new_Socket_def isValid_def)
next
  case (step os s log op s' log')
  then show ?case using socket_ok_step by blast
qed

text \<open>
  C35. Descriptors are neither leaked nor closed twice: after any sequence of \<open>bind\<close>,
  \<open>listen\<close>, \<open>connect\<close>, \<open>close\<close> and address queries on a new socket, with any answers of the
  kernel, a connected socket holds a descriptor, and when the destructor closes the socket
  the descriptors closed are exactly the ones \<open>socket\<close> returned, in that order.
\<close>

theorem socket_descriptor_balance:
  assumes "socket_run (new_Socket f t p) os s log"
  shows "(sk_isConnected s \<longrightarrow> isValid s) \<and> closed_in (log @ snd (snd (Socket_close s))) = os"
  using socket_run_ok [OF assms]
  by (auto simp: socket_ok_def Socket_close_def isValid_def Let_def)

lemma socket_descriptor_balance_witness:
  "\<exists>s log. closed_in (log @ snd (snd (Socket_close s))) = [7, 8] \<and> isValid s"
proof -
  let ?s0 = "new_Socket 2 1 0"
  let ?a = "IPv4Address (new_IPv4 0 80)"
  obtain s1 l1 where 1: "socket_step (Connect 7 (- 1) (0, [], 0) (0, [], 0) ?a (- 1)) (?s0, []) = (s1, l1)"
    by (metis surj_pair)
  obtain s2 l2 where 2: "socket_step (Connect 8 0 (0, [], 0) (0, [], 0) ?a 500) (s1, l1) = (s2, l2)"
    by (metis surj_pair)
  note d = Socket_connect_def ensure_sock_def isValid_def new_Socket_def Let_def case_prod_unfold getFamily_def
    new_IPv4_def newSock_def Socket_close_def AF_INET_def
  have s1: "sk_sock s1 = - 1" "sk_family s1 = 2" using 1 by (auto simp: d)
  have r: "socket_run ?s0 (([] @ opens (Connect 7 (- 1) (0, [], 0) (0, [], 0) ?a (- 1)) ?s0) @
      opens (Connect 8 0 (0, [], 0) (0, [], 0) ?a 500) s1) s2 l2"
    by (rule socket_run.step [OF socket_run.step [OF socket_run.start 1] 2])
  have o: "([] @ opens (Connect 7 (- 1) (0, [], 0) (0, [], 0) ?a (- 1)) ?s0) @
      opens (Connect 8 0 (0, [], 0) (0, [], 0) ?a 500) s1 = [7, 8]"
    using s1 by (simp add: isValid_def new_Socket_def)
  have "closed_in (l2 @ snd (snd (Socket_close s2))) = [7, 8]"
    using socket_descriptor_balance [OF r] o by simp
  moreover have "isValid s2" using 2 s1 by (auto simp: Socket_connect_def Let_def case_prod_unfold isValid_def split: if_splits)
  ultimately show ?thesis by blast
qed

text \<open>A socket keeps the addresses it has learnt, whatever happens to its descriptor.\<close>

lemma address_kept:
  "sk_remoteAddress s = Some a \<Longrightarrow> sk_remoteAddress (fst (socket_step op (s, log))) = Some a"
  by (cases op) (auto simp: Socket_bind_def Socket_connect_def Socket_close_def Socket_listen_def
      ensure_sock_def newSock_def getRemoteAddress_def getLocalAddress_def Let_def case_prod_unfold
      split: option.splits)

lemma address_kept_fold:
  "sk_remoteAddress s = Some a \<Longrightarrow> sk_remoteAddress (fst (fold socket_step ops (s, log))) = Some a"
proof (induction ops arbitrary: s log)
  case (Cons op ops)
  obtain s1 l1 where e: "socket_step op (s, log) = (s1, l1)" by (metis surj_pair)
  with address_kept [OF Cons.prems, of op log] show ?case by (simp add: Cons.IH)
qed simp

text \<open>
  The cached peer address outlives the connection: once a socket has learnt its peer,
  \<open>getRemoteAddress\<close> returns that address after any further operations, also when the socket
  was closed and connected to another peer, and the kernel is not asked again.
\<close>

theorem stale_remote_address:
  assumes "sk_remoteAddress s = Some a"
  shows "getRemoteAddress nr (fst (fold socket_step ops (s, log))) =
    (a, fst (fold socket_step ops (s, log)), [])"
  using address_kept_fold [OF assms] by (simp add: getRemoteAddress_def)

lemma stale_remote_address_witness:
  "let s = (new_Socket 2 1 0)\<lparr>sk_sock := 7, sk_isConnected := True, sk_remoteAddress := Some (IPv4Address (new_IPv4 1 80))\<rparr>;
       s2 = fst (fold socket_step [Close, Connect 8 0 (0, [], 0) (0, [], 0) (IPv4Address (new_IPv4 2 80)) (- 1)] (s, []))
   in getRemoteAddress (0, [], 0) s2 = (IPv4Address (new_IPv4 1 80), s2, [])"
  unfolding Let_def by (rule stale_remote_address) simp

definition no_connect :: "socket_op \<Rightarrow> bool" where
  "no_connect op = (case op of Connect _ _ _ _ _ _ \<Rightarrow> False | _ \<Rightarrow> True)"

text \<open>
  \<open>recvFrom\<close> demands a connected socket although it is the call for sockets that are
  not: a datagram socket that is bound, but was never connected, never receives anything.
  \<open>sendTo\<close> has no such condition.
\<close>

theorem datagram_receive_fails:
  assumes "list_all no_connect ops"
  shows "Socket_recvFrom r (fst (fold socket_step ops (CreateUDP a, log))) = - 1
    \<and> Socket_sendTo r (fst (fold socket_step ops (CreateUDP a, log))) = to_i32 r"
proof -
  have "\<not> sk_isConnected s \<Longrightarrow> \<not> sk_isConnected (fst (fold socket_step ops (s, log)))" for s
    using assms
  proof (induction ops arbitrary: s log)
    case (Cons op ops)
    obtain s1 l1 where e: "socket_step op (s, log) = (s1, l1)" by (metis surj_pair)
    have "\<not> sk_isConnected (fst (socket_step op (s, log)))"
      using Cons.prems by (cases op) (auto simp: no_connect_def Socket_bind_def Socket_close_def
          Socket_listen_def Let_def case_prod_unfold)
    with e Cons show ?case by simp
  qed simp
  moreover have "\<not> sk_isConnected (CreateUDP a)" by (simp add: CreateUDP_def new_Socket_def)
  ultimately show ?thesis by (simp add: Socket_recvFrom_def Socket_sendTo_def)
qed

lemma datagram_receive_fails_witness:
  "Socket_recvFrom 12 (fst (fold socket_step [Bind 5 0 (0, [], 0) (IPv4Address (new_IPv4 0 53))]
     (CreateUDP (IPv4Address (new_IPv4 0 53)), []))) = - 1"
  by (rule datagram_receive_fails [THEN conjunct1]) (simp add: no_connect_def)

lemma timeval_of_timeout:
  assumes "\<bar>v\<bar> < 2 ^ 31 * 1000"
  shows "timeval_ms (timeout_tv v) = word_of_int v"
proof -
  have m: "\<bar>tmod v 1000\<bar> < 1000" by (rule tmod_bound) simp
  have d: "\<bar>tdiv v 1000\<bar> < 2 ^ 31"
    using assms by (cases "v = 0") (auto simp: tdiv_def abs_mult abs_sgn_eq)
  have "to_i32 (tdiv v 1000) = tdiv v 1000" using d by (intro to_i32_id) auto
  moreover have "to_i32 (tmod v 1000 * 1000) = tmod v 1000 * 1000" using m by (intro to_i32_id) auto
  moreover have "sgn (tmod v 1000 * 1000) * (\<bar>tmod v 1000 * 1000\<bar> div 1000) = tmod v 1000"
    by (simp add: abs_mult sgn_mult sgn_mult_abs)
  moreover have "(word_of_int (tdiv v 1000) * 1000 + word_of_int (tmod v 1000) :: u64) =
      word_of_int (1000 * tdiv v 1000 + tmod v 1000)" by simp
  ultimately show ?thesis by (simp add: timeval_ms_def timeout_tv_def tdiv_tmod del: of_int_add)
qed

lemma FdMgr_get_errno [simp]: "FdMgr_get fd (w\<lparr>hk_errno := e\<rparr>) = FdMgr_get fd w"
  by (simp add: FdMgr_get_def)

lemma timeouts_recorded:
  assumes "hk_enable w" "FdMgr_get (sk_sock s) w = Inr (Some p)" "\<bar>v\<bar> < 2 ^ 31 * 1000"
  shows "\<exists>w1 w2. setRecvTimeout v r s w = Inr (fst r = 0, w1) \<and> getRecvTimeout s w1 = Inr v
     \<and> getSendTimeout s w1 = getSendTimeout s w
     \<and> setSendTimeout v r s w = Inr (fst r = 0, w2) \<and> getSendTimeout s w2 = Inr v
     \<and> getRecvTimeout s w2 = getRecvTimeout s w"
proof -
  have v: "sint (word_of_int v :: u64) = v"
    using to_i64_id [of v] assms(3) by (simp add: to_i64_def)
  define w' where "w' opt = set_errno r (w\<lparr>hk_fdm := update_ctx p (setTimeout opt (word_of_int v)) (hk_fdm w)\<rparr>)" for opt
  have s: "hook_setsockopt (sk_sock s) SOL_SOCKET opt (timeout_tv v) r w = Inr (fst r, w' opt)"
    if "opt = SO_RCVTIMEO \<or> opt = SO_SNDTIMEO" for opt
    using that assms(1,2) by (simp add: hook_setsockopt_def timeval_of_timeout [OF assms(3)] w'_def)
  have g: "FdMgr_get (sk_sock s) (w' opt) = Inr (Some p)" for opt
    using assms(2) by (simp add: w'_def set_errno_def)
  show ?thesis
    using s [of SO_RCVTIMEO] s [of SO_SNDTIMEO] g assms(2) v
    by (simp add: setRecvTimeout_def setSendTimeout_def getRecvTimeout_def getSendTimeout_def)
       (simp add: w'_def set_errno_def update_ctx_def setTimeout_def getTimeout_def SO_RCVTIMEO_def SO_SNDTIMEO_def)
qed

text \<open>
  A timeout set on a tracked socket is the one it reports, for every number of
  milliseconds whose seconds fit an \<open>int\<close>, negative ones (no timeout) included; the timeout
  of the other direction is not touched.
\<close>

theorem timeout_roundtrip:
  assumes "hk_enable w" "FdMgr_get (sk_sock s) w = Inr (Some p)" "\<bar>v\<bar> < 2 ^ 31 * 1000"
  shows "\<exists>w1 w2. setRecvTimeout v r s w = Inr (fst r = 0, w1) \<and> getRecvTimeout s w1 = Inr v
     \<and> getSendTimeout s w1 = getSendTimeout s w
     \<and> setSendTimeout v r s w = Inr (fst r = 0, w2) \<and> getSendTimeout s w2 = Inr v
     \<and> getRecvTimeout s w2 = getRecvTimeout s w"
  using timeouts_recorded [OF assms] .

lemma timeout_roundtrip_witness:
  "\<exists>w1. setRecvTimeout 1500 (0, 0) ((new_Socket 2 1 0)\<lparr>sk_sock := 5\<rparr>) socket_world = Inr (True, w1)
    \<and> getRecvTimeout ((new_Socket 2 1 0)\<lparr>sk_sock := 5\<rparr>) w1 = Inr 1500"
proof -
  have "hk_enable socket_world" by (simp add: socket_world_def)
  moreover have "FdMgr_get (sk_sock ((new_Socket 2 1 0)\<lparr>sk_sock := 5\<rparr>)) socket_world = Inr (Some 0)"
    using tracked_socketD [OF socket_world_tracked] by simp
  ultimately show ?thesis using timeout_roundtrip [of socket_world _ 0 1500 "(0, 0)"] by force
qed

end
