(* ===== verification/Tcp_Server.thy ===== *)
theory Tcp_Server
  imports Async_Sockets "HOL-Library.Multiset"
begin

text \<open>
  \<open>src/src/stream/tcpserver.{h,cpp}\<close>: a server that listens on several addresses. The socket
  objects live in the heap \<open>ts_heap\<close> and are known by their index, because \<open>m_socks\<close> and the
  accepting fibers share them; a socket object that neither holds any more is destroyed,
  which closes it. The tasks handed to the two workers are kept in order; \<open>startAccept\<close>
  is a loop whose rounds are steps, since \<open>accept\<close> may suspend the fiber between them. What
  the kernel answers is an argument.
\<close>

section \<open>State\<close>

definition SOMAXCONN :: int where "SOMAXCONN = 4096"

datatype tcp_task = StartAccept nat | StopTask | HandleClient Socket

record TcpServer =
  ts_heap :: "Socket list"
  ts_socks :: "nat list"
  ts_held :: "nat list"
  ts_accept_queue :: "tcp_task list"
  ts_client_queue :: "tcp_task list"
  ts_readTimeout :: u64
  ts_name :: string
  ts_isStop :: bool
  ts_log :: "sys_call list"

text \<open>\<open>timeout\<close> is the value of \<open>tcp_server.read_timeout\<close>, by default 120000.\<close>

definition new_TcpServer :: "u64 \<Rightarrow> TcpServer" where
  "new_TcpServer timeout =
     \<lparr>ts_heap = [], ts_socks = [], ts_held = [], ts_accept_queue = [], ts_client_queue = [],
      ts_readTimeout = timeout, ts_name = ''MyServer/1.0.0'', ts_isStop = True, ts_log = []\<rparr>"

text \<open>\<open>close\<close> of the socket object \<open>i\<close>\<close>

definition close_sock :: "nat \<Rightarrow> TcpServer \<Rightarrow> TcpServer" where
  "close_sock i st =
     (let (_, s, cs) = Socket_close (ts_heap st ! i)
      in st\<lparr>ts_heap := (ts_heap st)[i := s], ts_log := ts_log st @ cs\<rparr>)"

text \<open>\<open>m_socks.clear()\<close>: objects no accepting fiber holds are destroyed.\<close>

definition clear_socks :: "TcpServer \<Rightarrow> TcpServer" where
  "clear_socks st =
     (fold (\<lambda>i s. if i \<in> set (ts_held s) then s else close_sock i s) (ts_socks st) st)\<lparr>ts_socks := []\<rparr>"

definition destroy_server :: "TcpServer \<Rightarrow> TcpServer" where
  "destroy_server st = clear_socks (fold close_sock (ts_socks st) st)"

section \<open>Binding\<close>

text \<open>An address with what \<open>socket\<close>, \<open>bind\<close>, \<open>getsockname\<close> and \<open>listen\<close> answer for it.\<close>

type_synonym bind_answer = "Address \<times> int \<times> int \<times> name_result \<times> int"

definition bind_one :: "bind_answer \<Rightarrow> TcpServer \<times> Address list \<Rightarrow> TcpServer \<times> Address list" where
  "bind_one a sf =
     (case a of (addr, fd, rc, loc, lrc) \<Rightarrow> case sf of (st, failed) \<Rightarrow>
        let (ok, sock, cs) = Socket_bind fd rc loc addr (CreateTCP addr)
        in if \<not> ok then
             (let (_, _, cl) = Socket_close sock
              in (st\<lparr>ts_log := ts_log st @ cs @ cl\<rparr>, failed @ [addr]))
           else
             let (ok2, cs2) = Socket_listen SOMAXCONN lrc sock
             in if \<not> ok2 then
                  (let (_, _, cl) = Socket_close sock
                   in (st\<lparr>ts_log := ts_log st @ cs @ cs2 @ cl\<rparr>, failed @ [addr]))
                else
                  (st\<lparr>ts_heap := ts_heap st @ [sock], ts_socks := ts_socks st @ [length (ts_heap st)],
                      ts_log := ts_log st @ cs @ cs2\<rparr>, failed))"

definition TcpServer_bind ::
  "bind_answer list \<Rightarrow> Address list \<Rightarrow> TcpServer \<Rightarrow> bool \<times> Address list \<times> TcpServer" where
  "TcpServer_bind addrs failed0 st =
     (let (st1, failed) = fold bind_one addrs (st, failed0)
      in if failed \<noteq> [] then (False, failed, clear_socks st1) else (True, failed, st1))"

definition TcpServer_bind1 :: "bind_answer \<Rightarrow> TcpServer \<Rightarrow> bool \<times> TcpServer" where
  "TcpServer_bind1 a st = (let (ok, _, st1) = TcpServer_bind [a] [] st in (ok, st1))"

section \<open>Starting and stopping\<close>

definition TcpServer_start :: "TcpServer \<Rightarrow> bool \<times> TcpServer" where
  "TcpServer_start st =
     (if \<not> ts_isStop st then (True, st)
      else (True, st\<lparr>ts_isStop := False, ts_held := ts_held st @ ts_socks st,
                     ts_accept_queue := ts_accept_queue st @ map StartAccept (ts_socks st)\<rparr>))"

definition TcpServer_stop :: "TcpServer \<Rightarrow> TcpServer" where
  "TcpServer_stop st =
     st\<lparr>ts_isStop := True, ts_accept_queue := ts_accept_queue st @ [StopTask]\<rparr>"

text \<open>The lambda of \<open>stop\<close>, run later by the accepting worker.\<close>

fun stop_loop ::
  "'k epoll_ctl \<Rightarrow> nat list \<Rightarrow> TcpServer \<times> 'k hook_world \<Rightarrow> hook_error + TcpServer \<times> 'k hook_world" where
  "stop_loop ctl [] (st, w) = Inr (st, w)"
| "stop_loop ctl (i # socks) (st, w) =
     bind_res (lift_io (Socket_cancelAll ctl (ts_heap st ! i) (hk_io w))) (\<lambda>(_, io).
       stop_loop ctl socks (close_sock i st, w\<lparr>hk_io := io\<rparr>))"

definition run_stop ::
  "'k epoll_ctl \<Rightarrow> TcpServer \<times> 'k hook_world \<Rightarrow> hook_error + TcpServer \<times> 'k hook_world" where
  "run_stop ctl sw =
     bind_res (stop_loop ctl (ts_socks (fst sw)) sw) (\<lambda>(st, w). Inr (clear_socks st, w))"

section \<open>Accepting\<close>

text \<open>
  One round of \<open>startAccept\<close> on the socket object \<open>i\<close>: the flag is tested, the hooked
  \<open>accept\<close> registers a new descriptor, the client gets the read timeout and is handed to the
  other worker. \<open>ans\<close> is the descriptor and the two names, \<open>r\<close> the result of \<open>setsockopt\<close>.
  The result says whether the loop goes on.
\<close>

definition accept_round ::
  "(int \<Rightarrow> FdCtx) \<Rightarrow> int \<times> name_result \<times> name_result \<Rightarrow> sysres \<Rightarrow> nat \<Rightarrow>
   TcpServer \<times> 'k hook_world \<Rightarrow> hook_error + bool \<times> TcpServer \<times> 'k hook_world" where
  "accept_round mk ans r i sw =
     (case sw of (st, w) \<Rightarrow> case ans of (newsock, loc, rem) \<Rightarrow>
        if ts_isStop st then Inr (False, st\<lparr>ts_held := remove1 i (ts_held st)\<rparr>, w)
        else
          bind_res (accept_return mk newsock w) (\<lambda>(fd, w1).
          bind_res (if fd = - 1 then Inr None else tracked_socket fd w1) (\<lambda>c.
            let (client, cs) = Socket_accept fd (c \<noteq> None) loc rem (ts_heap st ! i);
                st1 = st\<lparr>ts_log := ts_log st @ cs\<rparr>
            in case client of
                 None \<Rightarrow> Inr (True, st1, w1)
               | Some cl \<Rightarrow>
                   bind_res (setRecvTimeout (sint (ts_readTimeout st)) r cl w1) (\<lambda>(_, w2).
                     Inr (True, st1\<lparr>ts_client_queue := ts_client_queue st1 @ [HandleClient cl]\<rparr>, w2)))))"

text \<open>The loop over the answers of the kernel; \<open>False\<close> is the return of the fiber.\<close>

fun startAccept ::
  "(int \<Rightarrow> FdCtx) \<Rightarrow> ((int \<times> name_result \<times> name_result) \<times> sysres) list \<Rightarrow> nat \<Rightarrow>
   TcpServer \<times> 'k hook_world \<Rightarrow> hook_error + bool \<times> TcpServer \<times> 'k hook_world" where
  "startAccept mk [] i (st, w) = Inr (True, st, w)"
| "startAccept mk ((ans, r) # answers) i (st, w) =
     bind_res (accept_round mk ans r i (st, w)) (\<lambda>(go_on, st1, w1).
       if go_on then startAccept mk answers i (st1, w1) else Inr (False, st1, w1))"

section \<open>Properties\<close>

lemma close_sock_frame [simp]:
  "ts_socks (close_sock i st) = ts_socks st" "ts_held (close_sock i st) = ts_held st"
  "ts_isStop (close_sock i st) = ts_isStop st" "length (ts_heap (close_sock i st)) = length (ts_heap st)"
  "j \<noteq> i \<Longrightarrow> ts_heap (close_sock i st) ! j = ts_heap st ! j"
  by (auto simp: close_sock_def Let_def split: prod.splits)

lemma close_sock_closes:
  assumes "i < length (ts_heap st)"
  shows "\<not> isValid (ts_heap (close_sock i st) ! i)"
    "isValid (ts_heap st ! i) \<Longrightarrow> ts_log (close_sock i st) = ts_log st @ [Sys_close (sk_sock (ts_heap st ! i))]"
  using assms by (auto simp: close_sock_def Socket_close_def isValid_def Let_def split: prod.splits if_splits)

text \<open>The new sockets of a server, their descriptors, and what a failed address costs.\<close>

definition answer_ok :: "bind_answer \<Rightarrow> bool" where
  "answer_ok a = (case a of (addr, fd, rc, loc, lrc) \<Rightarrow> fd \<noteq> - 1 \<and> rc = 0 \<and> lrc = 0)"

definition opened_by :: "bind_answer \<Rightarrow> int list" where
  "opened_by a = (case a of (addr, fd, rc, loc, lrc) \<Rightarrow> if fd = - 1 then [] else [fd])"

definition open_fds :: "TcpServer \<Rightarrow> int list" where
  "open_fds st = map (\<lambda>i. sk_sock (ts_heap st ! i)) (ts_socks st)"

definition socks_ok :: "TcpServer \<Rightarrow> bool" where
  "socks_ok st \<longleftrightarrow> distinct (ts_socks st) \<and>
     (\<forall>i \<in> set (ts_socks st). i < length (ts_heap st) \<and> isValid (ts_heap st ! i))"

lemma close_sock_again:
  "i < length (ts_heap st) \<Longrightarrow> close_sock i (close_sock i st) = close_sock i st"
  by (auto simp: close_sock_def Socket_close_def Let_def split: prod.splits if_splits)

lemma clear_fold:
  assumes "distinct is" "\<forall>i \<in> set is. i < length (ts_heap st) \<and> isValid (ts_heap st ! i)"
  shows "let st' = fold (\<lambda>i s. if i \<in> set (ts_held s) then s else close_sock i s) is st in
    ts_log st' = ts_log st @ map (\<lambda>i. Sys_close (sk_sock (ts_heap st ! i))) (filter (\<lambda>i. i \<notin> set (ts_held st)) is)
    \<and> ts_held st' = ts_held st \<and> ts_isStop st' = ts_isStop st \<and> length (ts_heap st') = length (ts_heap st)
    \<and> (\<forall>j. j \<notin> set is \<longrightarrow> ts_heap st' ! j = ts_heap st ! j)"
  using assms
proof (induction "is" arbitrary: st)
  case (Cons i "is")
  show ?case
  proof (cases "i \<in> set (ts_held st)")
    case True
    then show ?thesis using Cons by (simp add: Let_def)
  next
    case False
    let ?s = "close_sock i st"
    have h: "ts_heap ?s ! j = ts_heap st ! j" if "j \<in> set is" for j
      using Cons.prems(1) that by (intro close_sock_frame(5)) auto
    then have ok: "\<forall>j \<in> set is. j < length (ts_heap ?s) \<and> isValid (ts_heap ?s ! j)"
      using Cons.prems(2) by simp
    have d: "distinct is" using Cons.prems(1) by simp
    have l: "ts_log ?s = ts_log st @ [Sys_close (sk_sock (ts_heap st ! i))]"
      using close_sock_closes(2) Cons.prems(2) by simp
    have "map (\<lambda>i. Sys_close (sk_sock (ts_heap ?s ! i))) (filter (\<lambda>i. i \<notin> set (ts_held st)) is)
      = map (\<lambda>i. Sys_close (sk_sock (ts_heap st ! i))) (filter (\<lambda>i. i \<notin> set (ts_held st)) is)"
      using h by simp
    then show ?thesis using Cons.IH [OF d ok] l False by (simp add: Let_def)
  qed
qed (simp add: Let_def)

lemma closed_in_closes: "closed_in (map (\<lambda>i. Sys_close (f i)) xs) = map f xs"
  by (induction xs) auto

lemma clear_socks_ok:
  assumes "socks_ok st" "ts_held st = []"
  shows "closed_in (ts_log (clear_socks st)) = closed_in (ts_log st) @ open_fds st
    \<and> ts_socks (clear_socks st) = []"
  using clear_fold [of "ts_socks st" st] assms
  by (simp add: socks_ok_def clear_socks_def Let_def open_fds_def closed_in_closes)

lemma bind_calls:
  assumes "Socket_bind fd rc loc addr (CreateTCP addr) = (ok, sock, cs)"
  shows "closed_in cs = []" "ok \<longleftrightarrow> fd \<noteq> - 1 \<and> rc = 0" "sk_sock sock = fd" "\<not> sk_isConnected sock"
  using assms
  by (auto simp: Socket_bind_def CreateTCP_def ensure_sock_def newSock_def new_Socket_def isValid_def Let_def
      case_prod_unfold split: if_splits)

lemma bind_one_ok:
  assumes "answer_ok a"
  shows "\<exists>sock cs. bind_one a (st, failed) = (st\<lparr>ts_heap := ts_heap st @ [sock],
      ts_socks := ts_socks st @ [length (ts_heap st)], ts_log := ts_log st @ cs\<rparr>, failed)
    \<and> closed_in cs = [] \<and> opened_by a = [sk_sock sock] \<and> isValid sock"
proof -
  obtain addr fd rc loc lrc where a: "a = (addr, fd, rc, loc, lrc)" by (cases a)
  obtain ok sock cs where b: "Socket_bind fd rc loc addr (CreateTCP addr) = (ok, sock, cs)" by (metis surj_pair)
  note c = bind_calls [OF b]
  have "ok" "isValid sock" using c assms a by (auto simp: answer_ok_def isValid_def)
  then show ?thesis using c assms a b
    by (intro exI [of _ sock] exI [of _ "cs @ [Sys_listen (sk_sock sock) SOMAXCONN]"])
      (auto simp: bind_one_def answer_ok_def opened_by_def Socket_listen_def)
qed

lemma bind_one_bad:
  assumes "\<not> answer_ok a"
  shows "\<exists>cs. bind_one a (st, failed) = (st\<lparr>ts_log := ts_log st @ cs\<rparr>, failed @ [fst a])
    \<and> closed_in cs = opened_by a"
proof -
  obtain addr fd rc loc lrc where a: "a = (addr, fd, rc, loc, lrc)" by (cases a)
  obtain ok sock cs where b: "Socket_bind fd rc loc addr (CreateTCP addr) = (ok, sock, cs)" by (metis surj_pair)
  note c = bind_calls [OF b]
  obtain b1 s1 cl where cl: "Socket_close sock = (b1, s1, cl)" by (metis surj_pair)
  have o: "closed_in cl = opened_by a"
    using c cl a by (auto simp: Socket_close_def opened_by_def Let_def split: if_splits)
  show ?thesis
  proof (cases ok)
    case False
    then have "bind_one a (st, failed) = (st\<lparr>ts_log := ts_log st @ cs @ cl\<rparr>, failed @ [fst a])"
      using a b cl by (simp add: bind_one_def)
    then show ?thesis using c(1) o by (intro exI [of _ "cs @ cl"]) simp
  next
    case True
    then have v: "isValid sock" "lrc \<noteq> 0" using c assms a by (auto simp: answer_ok_def isValid_def)
    then have "bind_one a (st, failed) =
        (st\<lparr>ts_log := ts_log st @ cs @ [Sys_listen (sk_sock sock) SOMAXCONN] @ cl\<rparr>, failed @ [fst a])"
      using True a b cl by (simp add: bind_one_def Socket_listen_def)
    then show ?thesis using c(1) o
      by (intro exI [of _ "cs @ [Sys_listen (sk_sock sock) SOMAXCONN] @ cl"]) simp
  qed
qed

text \<open>What binding a list of addresses does to a server that has not been started.\<close>

definition balanced_from :: "TcpServer \<Rightarrow> int list \<Rightarrow> TcpServer \<Rightarrow> bool" where
  "balanced_from st fds st' \<longleftrightarrow>
     mset (closed_in (ts_log st')) + mset (open_fds st') =
       mset (closed_in (ts_log st)) + mset (open_fds st) + mset fds"

lemma bind_fold:
  assumes "socks_ok st" "ts_held st = []"
  shows "let (st', failed') = fold bind_one addrs (st, failed) in
    socks_ok st' \<and> ts_held st' = [] \<and> failed' = failed @ map fst (filter (\<lambda>a. \<not> answer_ok a) addrs)
    \<and> open_fds st' = open_fds st @ concat (map opened_by (filter answer_ok addrs))
    \<and> balanced_from st (concat (map opened_by addrs)) st'"
  using assms
proof (induction addrs arbitrary: st failed)
  case Nil
  then show ?case by (simp add: balanced_from_def)
next
  case (Cons a addrs)
  show ?case
  proof (cases "answer_ok a")
    case True
    obtain sock cs where b: "bind_one a (st, failed) = (st\<lparr>ts_heap := ts_heap st @ [sock],
      ts_socks := ts_socks st @ [length (ts_heap st)], ts_log := ts_log st @ cs\<rparr>, failed)"
      "closed_in cs = []" "opened_by a = [sk_sock sock]" "isValid sock"
      using bind_one_ok [OF True] by blast
    let ?s = "st\<lparr>ts_heap := ts_heap st @ [sock],
      ts_socks := ts_socks st @ [length (ts_heap st)], ts_log := ts_log st @ cs\<rparr>"
    have o: "open_fds ?s = open_fds st @ [sk_sock sock]"
      using Cons.prems(1) by (auto simp: open_fds_def socks_ok_def nth_append)
    have "socks_ok ?s" "ts_held ?s = []"
      using Cons.prems b(4) by (auto simp: socks_ok_def nth_append)
    from Cons.IH [OF this, of failed] show ?thesis
      using True b(1-3) o by (auto simp: balanced_from_def case_prod_unfold)
  next
    case False
    obtain cs where b: "bind_one a (st, failed) = (st\<lparr>ts_log := ts_log st @ cs\<rparr>, failed @ [fst a])"
      "closed_in cs = opened_by a" using bind_one_bad [OF False] by blast
    let ?s = "st\<lparr>ts_log := ts_log st @ cs\<rparr>"
    have o: "open_fds ?s = open_fds st" by (simp add: open_fds_def)
    have "socks_ok ?s" "ts_held ?s = []" using Cons.prems by (auto simp: socks_ok_def)
    from Cons.IH [OF this, of "failed @ [fst a]"] show ?thesis
      using False b o by (auto simp: balanced_from_def case_prod_unfold Let_def ac_simps)
  qed
qed

text \<open>
  Binding is all or nothing, on a server that was not started: it succeeds when every
  address could be bound and listened on, and then the sockets listen in the order of the
  addresses; otherwise the failed addresses are reported in order and the server listens
  nowhere, also not on what earlier calls had bound. In every case each descriptor that was open
  or opened is either kept by the server or closed once.
\<close>

theorem tcp_bind_spec:
  assumes "socks_ok st" "ts_held st = []" "TcpServer_bind addrs [] st = (ok, failed, st')"
  shows "(ok \<longleftrightarrow> list_all answer_ok addrs)
    \<and> failed = map fst (filter (\<lambda>a. \<not> answer_ok a) addrs) \<and> socks_ok st'
    \<and> open_fds st' = (if ok then open_fds st @ concat (map opened_by addrs) else [])
    \<and> balanced_from st (concat (map opened_by addrs)) st'"
proof -
  obtain st1 f1 where f: "fold bind_one addrs (st, []) = (st1, f1)" by (metis surj_pair)
  note b = bind_fold [OF assms(1,2), of addrs "[]", unfolded f, simplified]
  have e: "f1 = [] \<longleftrightarrow> list_all answer_ok addrs" using b by (auto simp: filter_empty_conv list_all_iff)
  have t: "filter answer_ok addrs = addrs" if "list_all answer_ok addrs"
    using that by (simp add: list_all_iff)
  show ?thesis
  proof (cases "f1 = []")
    case True
    then show ?thesis using assms(3) f b e t by (auto simp: TcpServer_bind_def)
  next
    case False
    have c: "closed_in (ts_log (clear_socks st1)) = closed_in (ts_log st1) @ open_fds st1"
      "ts_socks (clear_socks st1) = []" using clear_socks_ok b by auto
    have o: "open_fds (clear_socks st1) = []" "socks_ok (clear_socks st1)"
      using c(2) by (simp_all add: open_fds_def socks_ok_def)
    have r: "ok = False" "failed = f1" "st' = clear_socks st1"
      using assms(3) f False by (auto simp: TcpServer_bind_def)
    have "balanced_from st (concat (map opened_by addrs)) st'"
    proof -
      have "mset (closed_in (ts_log st1)) + mset (open_fds st1) =
        mset (closed_in (ts_log st)) + mset (open_fds st) + mset (concat (map opened_by addrs))"
        using b unfolding balanced_from_def by blast
      then show ?thesis unfolding balanced_from_def r(3) o(1) c(1) mset_append by simp
    qed
    then show ?thesis using r b e False o by simp
  qed
qed

lemma tcp_bind_spec_witness:
  "\<exists>st'. TcpServer_bind [(IPv4Address (new_IPv4 0 80), 5, 0, (0, [], 0), 0), (IPv4Address (new_IPv4 0 81), 6, - 1, (0, [], 0), 0)]
     [] (new_TcpServer 120000) = (False, [IPv4Address (new_IPv4 0 81)], st') \<and> mset (closed_in (ts_log st')) = {#5, 6#}"
proof -
  let ?as = "[(IPv4Address (new_IPv4 0 80), 5, 0, (0, [], 0), 0), (IPv4Address (new_IPv4 0 81), 6, - 1, (0, [], 0), 0)] :: bind_answer list"
  obtain ok failed st' where t: "TcpServer_bind ?as [] (new_TcpServer 120000) = (ok, failed, st')" by (metis surj_pair)
  have "socks_ok (new_TcpServer 120000)" "ts_held (new_TcpServer 120000) = []"
    by (simp_all add: socks_ok_def new_TcpServer_def)
  from tcp_bind_spec [OF this t] t show ?thesis
    by (auto simp: answer_ok_def opened_by_def balanced_from_def new_TcpServer_def open_fds_def add_mset_commute)
qed

lemma stop_loop_ok:
  assumes "io_inv (hk_io w)" "distinct is" "\<forall>i \<in> set is. i < length (ts_heap st) \<and> isValid (ts_heap st ! i)"
  shows "\<exists>st' w'. stop_loop table_ctl is (st, w) = Inr (st', w') \<and> io_inv (hk_io w')
    \<and> ts_log st' = ts_log st @ map (\<lambda>i. Sys_close (sk_sock (ts_heap st ! i))) is
    \<and> ts_socks st' = ts_socks st \<and> ts_held st' = ts_held st \<and> ts_isStop st' = ts_isStop st
    \<and> length (ts_heap st') = length (ts_heap st)
    \<and> (\<forall>i \<in> set is. sk_sock (ts_heap st' ! i) = - 1 \<and> \<not> sk_isConnected (ts_heap st' ! i))
    \<and> (\<forall>j. j \<notin> set is \<longrightarrow> ts_heap st' ! j = ts_heap st ! j)
    \<and> hk_fdm w' = hk_fdm w \<and> hk_enable w' = hk_enable w"
  using assms
proof (induction "is" arbitrary: st w)
  case (Cons i "is")
  have ok: "io_ok ep_interest (hk_io w)" "32 \<le> length (io_contexts (hk_io w))"
    using Cons.prems(1) by (simp_all add: io_inv_def)
  from kernel.cancelAll_ok [OF ok(1), of "sk_sock (ts_heap st ! i)"] obtain b io where
    c: "cancelAll table_ctl (sk_sock (ts_heap st ! i)) (hk_io w) = Inr (b, io)"
       "length (io_contexts io) = length (io_contexts (hk_io w))" "io_ok ep_interest io" by blast
  let ?s = "close_sock i st" and ?w = "w\<lparr>hk_io := io\<rparr>"
  have inv: "io_inv (hk_io ?w)" using c ok(2) by (simp add: io_inv_def)
  have d: "distinct is" "i \<notin> set is" "i < length (ts_heap st)" "isValid (ts_heap st ! i)" using Cons.prems by auto
  have h: "ts_heap ?s ! j = ts_heap st ! j" if "j \<in> set is" for j
    using d(2) that by (intro close_sock_frame(5)) auto
  then have "\<forall>j \<in> set is. j < length (ts_heap ?s) \<and> isValid (ts_heap ?s ! j)" using Cons.prems(3) by simp
  from Cons.IH [OF inv d(1) this] obtain st' w' where
    r: "stop_loop table_ctl is (?s, ?w) = Inr (st', w')" "io_inv (hk_io w')"
    "ts_log st' = ts_log ?s @ map (\<lambda>i. Sys_close (sk_sock (ts_heap ?s ! i))) is"
    "ts_socks st' = ts_socks ?s" "ts_held st' = ts_held ?s" "ts_isStop st' = ts_isStop ?s"
    "length (ts_heap st') = length (ts_heap ?s)"
    "\<forall>i \<in> set is. sk_sock (ts_heap st' ! i) = - 1 \<and> \<not> sk_isConnected (ts_heap st' ! i)"
    "\<forall>j. j \<notin> set is \<longrightarrow> ts_heap st' ! j = ts_heap ?s ! j" "hk_fdm w' = hk_fdm ?w" "hk_enable w' = hk_enable ?w"
    by blast
  have i: "sk_sock (ts_heap ?s ! i) = - 1 \<and> \<not> sk_isConnected (ts_heap ?s ! i)"
    using d(3) by (auto simp: close_sock_def Socket_close_def Let_def split: prod.splits if_splits)
  have l: "ts_log ?s = ts_log st @ [Sys_close (sk_sock (ts_heap st ! i))]"
    using close_sock_closes(2) d(3,4) by simp
  have "stop_loop table_ctl (i # is) (st, w) = Inr (st', w')"
    using c(1) r(1) by (simp add: Socket_cancelAll_def lift_io_def)
  moreover have "ts_log st' = ts_log st @ map (\<lambda>i. Sys_close (sk_sock (ts_heap st ! i))) (i # is)"
    using r(3) l h by simp
  moreover have "\<forall>j. j \<notin> set (i # is) \<longrightarrow> ts_heap st' ! j = ts_heap st ! j" using r(9) by simp
  moreover have "\<forall>j \<in> set (i # is). sk_sock (ts_heap st' ! j) = - 1 \<and> \<not> sk_isConnected (ts_heap st' ! j)"
    using r(8,9) i d(2) by auto
  ultimately show ?case using r(2,4-7,10,11) by (intro exI [of _ st'] exI [of _ w']) simp
qed simp

lemma close_all_closed:
  assumes "\<forall>i \<in> set is. sk_sock (ts_heap st ! i) = - 1 \<and> \<not> sk_isConnected (ts_heap st ! i)"
  shows "fold (\<lambda>i s. if i \<in> set (ts_held s) then s else close_sock i s) is st = st"
proof -
  have "close_sock i st = st" if "i \<in> set is" for i
    using assms that by (simp add: close_sock_def Socket_close_def)
  then show ?thesis by (induction "is") auto
qed

text \<open>
  The task that \<open>stop\<close> queues closes every listening socket, once, in order, whatever
  the IO manager had registered for them, and forgets them; the invariant of the IO manager
  is kept. A server that is started again before the task has run is left listening
  nowhere with the flag down: every later round of its accepting fibers fails at once on
  the closed socket, and none of them ever returns.
\<close>

theorem tcp_stop_spec:
  assumes "socks_ok st" "io_inv (hk_io w)"
  shows "\<exists>st' w'. run_stop table_ctl (snd (TcpServer_start (TcpServer_stop st)), w) = Inr (st', w')
    \<and> io_inv (hk_io w') \<and> ts_socks st' = [] \<and> \<not> ts_isStop st'
    \<and> ts_log st' = ts_log st @ map (\<lambda>i. Sys_close (sk_sock (ts_heap st ! i))) (ts_socks st)
    \<and> (\<forall>i \<in> set (ts_socks st). \<forall>n. startAccept mk (replicate n ((- 1, loc, rem), r)) i (st', w') =
         Inr (True, st'\<lparr>ts_log := ts_log st' @ replicate n (Sys_accept (- 1))\<rparr>, w'))"
proof -
  let ?st = "snd (TcpServer_start (TcpServer_stop st))"
  have s: "ts_socks ?st = ts_socks st" "ts_heap ?st = ts_heap st" "ts_log ?st = ts_log st" "\<not> ts_isStop ?st"
    by (simp_all add: TcpServer_start_def TcpServer_stop_def)
  have "distinct (ts_socks st)" "\<forall>i \<in> set (ts_socks st). i < length (ts_heap ?st) \<and> isValid (ts_heap ?st ! i)"
    using assms(1) s by (simp_all add: socks_ok_def)
  from stop_loop_ok [OF assms(2) this] obtain st1 w1 where r: "stop_loop table_ctl (ts_socks st) (?st, w) = Inr (st1, w1)"
    "io_inv (hk_io w1)" "ts_log st1 = ts_log st @ map (\<lambda>i. Sys_close (sk_sock (ts_heap st ! i))) (ts_socks st)"
    "ts_socks st1 = ts_socks st" "ts_isStop st1 = ts_isStop ?st"
    "\<forall>i \<in> set (ts_socks st). sk_sock (ts_heap st1 ! i) = - 1 \<and> \<not> sk_isConnected (ts_heap st1 ! i)"
    unfolding s by blast
  define st' where "st' = st1\<lparr>ts_socks := []\<rparr>"
  have run: "run_stop table_ctl (?st, w) = Inr (st', w1)"
    using r(1,4,6) s(1) by (simp add: run_stop_def clear_socks_def close_all_closed st'_def)
  have spin: "startAccept mk (replicate n ((- 1, loc, rem), r)) i (st'\<lparr>ts_log := l\<rparr>, w1) =
      Inr (True, st'\<lparr>ts_log := l @ replicate n (Sys_accept (- 1))\<rparr>, w1)" if i: "i \<in> set (ts_socks st)" for i n l
  proof (induction n arbitrary: l)
    case (Suc n)
    have "accept_round mk (- 1, loc, rem) r i (st'\<lparr>ts_log := l\<rparr>, w1) =
      Inr (True, st'\<lparr>ts_log := l @ [Sys_accept (- 1)]\<rparr>, w1)"
      using i r(5,6) s(4) by (simp add: accept_round_def accept_return_def Socket_accept_def st'_def)
    then show ?case using Suc [of "l @ [Sys_accept (- 1)]"] by simp
  qed simp
  have e: "st'\<lparr>ts_log := ts_log st'\<rparr> = st'" by simp
  show ?thesis using run r(2,3,5) s(4) spin [of _ _ "ts_log st'", unfolded e]
    by (intro exI [of _ st'] exI [of _ w1]) (simp add: st'_def)
qed

lemma tcp_stop_spec_witness:
  "\<exists>st' w'. run_stop table_ctl (snd (TcpServer_start (TcpServer_stop
      ((new_TcpServer 5)\<lparr>ts_heap := [(new_Socket 2 1 0)\<lparr>sk_sock := 9\<rparr>], ts_socks := [0]\<rparr>))), socket_world) = Inr (st', w')
    \<and> ts_log st' = [Sys_close 9] \<and> \<not> ts_isStop st'"
proof -
  let ?st = "(new_TcpServer 5)\<lparr>ts_heap := [(new_Socket 2 1 0)\<lparr>sk_sock := 9\<rparr>], ts_socks := [0]\<rparr>"
  have "socks_ok ?st" by (simp add: socks_ok_def isValid_def)
  moreover have "io_inv (hk_io socket_world)" using socket_world_ready [of 0] by (simp add: hook_ready_def)
  ultimately show ?thesis using tcp_stop_spec [of ?st socket_world undefined undefined undefined undefined]
    by (force simp: new_TcpServer_def)
qed

text \<open>
  Every connection that is accepted and tracked is handed to the worker exactly once, in
  the order of acceptance, and the socket the worker gets reports the configured read
  timeout; what the server listens on is not changed.
\<close>

theorem accepted_client_has_timeout:
  assumes "\<not> ts_isStop st" "hk_enable w1" "accept_return mk newsock w = Inr (fd, w1)" "fd \<noteq> - 1"
    "tracked_socket fd w1 = Inr (Some p)" "\<bar>sint (ts_readTimeout st)\<bar> < 2 ^ 31 * 1000"
  shows "\<exists>client st' w'. accept_round mk (newsock, loc, rem) r i (st, w) = Inr (True, st', w')
    \<and> ts_client_queue st' = ts_client_queue st @ [HandleClient client] \<and> ts_socks st' = ts_socks st
    \<and> sk_sock client = fd \<and> sk_isConnected client
    \<and> getRecvTimeout client w' = Inr (sint (ts_readTimeout st))"
proof -
  obtain client cs where c: "Socket_accept fd True loc rem (ts_heap st ! i) = (Some client, cs)"
    "sk_sock client = fd" "sk_isConnected client"
    using assms(4) by (auto simp: Socket_accept_def Socket_init_def Let_def case_prod_unfold)
  have "FdMgr_get (sk_sock client) w1 = Inr (Some p)" using tracked_socketD(1) [OF assms(5)] c(2) by simp
  from timeouts_recorded [OF assms(2) this assms(6), of r] obtain w2 where
    t: "setRecvTimeout (sint (ts_readTimeout st)) r client w1 = Inr (fst r = 0, w2)"
       "getRecvTimeout client w2 = Inr (sint (ts_readTimeout st))" by blast
  have "accept_round mk (newsock, loc, rem) r i (st, w) =
    Inr (True, st\<lparr>ts_log := ts_log st @ cs, ts_client_queue := ts_client_queue st @ [HandleClient client]\<rparr>, w2)"
    using assms(1,3-5) c(1) t(1) by (simp add: accept_round_def)
  then show ?thesis using c t(2) by simp
qed

lemma accepted_client_has_timeout_witness:
  "\<exists>client st' w'. accept_round socket_ctx (5, (0, [], 0), (0, [], 0)) (0, 0) 0 (new_TcpServer 120000\<lparr>ts_isStop := False\<rparr>, socket_world)
     = Inr (True, st', w') \<and> ts_client_queue st' = [HandleClient client] \<and> getRecvTimeout client w' = Inr 120000"
proof -
  have e: "hk_enable socket_world" by (simp add: socket_world_def)
  have a: "accept_return socket_ctx 5 socket_world = Inr (5, socket_world)"
    by (simp add: accept_return_def register_fd_def FdManager_get_def get_lookup_def lift_fd_def socket_world_def
        new_FdManager_def)
  show ?thesis
    using accepted_client_has_timeout [OF _ e a _ socket_world_tracked, of "new_TcpServer 120000\<lparr>ts_isStop := False\<rparr>"
        "(0, [], 0)" "(0, [], 0)" "(0, 0)" 0]
    by (fastforce simp: new_TcpServer_def)
qed

end
