(* ===== verification/Ragel.thy ===== *)
theory Ragel
  imports Fw_Prelude
begin

text \<open>
  The table driven state machines that Ragel generated for the three parsers of the
  framework (\<open>src/src/HTTP/httprequest_parser.cpp\<close>, \<open>httprespond_parser.cpp\<close>, \<open>uri.cpp\<close>). The
  three files hold the same interpreter over their own arrays, which are the fields of a
  record here; the arrays themselves are in \<open>Request_Tables\<close>, \<open>Respond_Tables\<close> and
  \<open>Uri_Tables\<close>. The interpreter finds a transition by two binary searches; the lemmas show
  that for a state with ordered keys (\<open>row_ok\<close>) they stay inside the arrays and find what a
  linear scan finds.
\<close>

section \<open>Evaluating arrays\<close>

text \<open>
  The arrays are evaluated by rewriting with the rules of \<open>ragel_eval\<close> alone, which keeps the
  many lookups fast. Indices are split into digits of base 16.
\<close>

named_theorems ragel_eval

lemma nth_num [ragel_eval]: "(x # xs) ! numeral v = xs ! pred_numeral v"
  by (simp add: numeral_eq_Suc)

lemma div16_numeral [ragel_eval]:
  "numeral Num.One div 16 = (0 :: nat)"
  "numeral (num.Bit0 Num.One) div 16 = (0 :: nat)"
  "numeral (num.Bit1 Num.One) div 16 = (0 :: nat)"
  "numeral (num.Bit0 (num.Bit0 Num.One)) div 16 = (0 :: nat)"
  "numeral (num.Bit1 (num.Bit0 Num.One)) div 16 = (0 :: nat)"
  "numeral (num.Bit0 (num.Bit1 Num.One)) div 16 = (0 :: nat)"
  "numeral (num.Bit1 (num.Bit1 Num.One)) div 16 = (0 :: nat)"
  "numeral (num.Bit0 (num.Bit0 (num.Bit0 Num.One))) div 16 = (0 :: nat)"
  "numeral (num.Bit1 (num.Bit0 (num.Bit0 Num.One))) div 16 = (0 :: nat)"
  "numeral (num.Bit0 (num.Bit1 (num.Bit0 Num.One))) div 16 = (0 :: nat)"
  "numeral (num.Bit1 (num.Bit1 (num.Bit0 Num.One))) div 16 = (0 :: nat)"
  "numeral (num.Bit0 (num.Bit0 (num.Bit1 Num.One))) div 16 = (0 :: nat)"
  "numeral (num.Bit1 (num.Bit0 (num.Bit1 Num.One))) div 16 = (0 :: nat)"
  "numeral (num.Bit0 (num.Bit1 (num.Bit1 Num.One))) div 16 = (0 :: nat)"
  "numeral (num.Bit1 (num.Bit1 (num.Bit1 Num.One))) div 16 = (0 :: nat)"
  "numeral (num.Bit0 (num.Bit0 (num.Bit0 (num.Bit0 k)))) div 16 = (numeral k :: nat)"
  "numeral (num.Bit1 (num.Bit0 (num.Bit0 (num.Bit0 k)))) div 16 = (numeral k :: nat)"
  "numeral (num.Bit0 (num.Bit1 (num.Bit0 (num.Bit0 k)))) div 16 = (numeral k :: nat)"
  "numeral (num.Bit1 (num.Bit1 (num.Bit0 (num.Bit0 k)))) div 16 = (numeral k :: nat)"
  "numeral (num.Bit0 (num.Bit0 (num.Bit1 (num.Bit0 k)))) div 16 = (numeral k :: nat)"
  "numeral (num.Bit1 (num.Bit0 (num.Bit1 (num.Bit0 k)))) div 16 = (numeral k :: nat)"
  "numeral (num.Bit0 (num.Bit1 (num.Bit1 (num.Bit0 k)))) div 16 = (numeral k :: nat)"
  "numeral (num.Bit1 (num.Bit1 (num.Bit1 (num.Bit0 k)))) div 16 = (numeral k :: nat)"
  "numeral (num.Bit0 (num.Bit0 (num.Bit0 (num.Bit1 k)))) div 16 = (numeral k :: nat)"
  "numeral (num.Bit1 (num.Bit0 (num.Bit0 (num.Bit1 k)))) div 16 = (numeral k :: nat)"
  "numeral (num.Bit0 (num.Bit1 (num.Bit0 (num.Bit1 k)))) div 16 = (numeral k :: nat)"
  "numeral (num.Bit1 (num.Bit1 (num.Bit0 (num.Bit1 k)))) div 16 = (numeral k :: nat)"
  "numeral (num.Bit0 (num.Bit0 (num.Bit1 (num.Bit1 k)))) div 16 = (numeral k :: nat)"
  "numeral (num.Bit1 (num.Bit0 (num.Bit1 (num.Bit1 k)))) div 16 = (numeral k :: nat)"
  "numeral (num.Bit0 (num.Bit1 (num.Bit1 (num.Bit1 k)))) div 16 = (numeral k :: nat)"
  "numeral (num.Bit1 (num.Bit1 (num.Bit1 (num.Bit1 k)))) div 16 = (numeral k :: nat)"
  by simp_all

lemma mod16_numeral [ragel_eval]:
  "numeral Num.One mod 16 = (1 :: nat)"
  "numeral (num.Bit0 Num.One) mod 16 = (2 :: nat)"
  "numeral (num.Bit1 Num.One) mod 16 = (3 :: nat)"
  "numeral (num.Bit0 (num.Bit0 Num.One)) mod 16 = (4 :: nat)"
  "numeral (num.Bit1 (num.Bit0 Num.One)) mod 16 = (5 :: nat)"
  "numeral (num.Bit0 (num.Bit1 Num.One)) mod 16 = (6 :: nat)"
  "numeral (num.Bit1 (num.Bit1 Num.One)) mod 16 = (7 :: nat)"
  "numeral (num.Bit0 (num.Bit0 (num.Bit0 Num.One))) mod 16 = (8 :: nat)"
  "numeral (num.Bit1 (num.Bit0 (num.Bit0 Num.One))) mod 16 = (9 :: nat)"
  "numeral (num.Bit0 (num.Bit1 (num.Bit0 Num.One))) mod 16 = (10 :: nat)"
  "numeral (num.Bit1 (num.Bit1 (num.Bit0 Num.One))) mod 16 = (11 :: nat)"
  "numeral (num.Bit0 (num.Bit0 (num.Bit1 Num.One))) mod 16 = (12 :: nat)"
  "numeral (num.Bit1 (num.Bit0 (num.Bit1 Num.One))) mod 16 = (13 :: nat)"
  "numeral (num.Bit0 (num.Bit1 (num.Bit1 Num.One))) mod 16 = (14 :: nat)"
  "numeral (num.Bit1 (num.Bit1 (num.Bit1 Num.One))) mod 16 = (15 :: nat)"
  "numeral (num.Bit0 (num.Bit0 (num.Bit0 (num.Bit0 k)))) mod 16 = (0 :: nat)"
  "numeral (num.Bit1 (num.Bit0 (num.Bit0 (num.Bit0 k)))) mod 16 = (1 :: nat)"
  "numeral (num.Bit0 (num.Bit1 (num.Bit0 (num.Bit0 k)))) mod 16 = (2 :: nat)"
  "numeral (num.Bit1 (num.Bit1 (num.Bit0 (num.Bit0 k)))) mod 16 = (3 :: nat)"
  "numeral (num.Bit0 (num.Bit0 (num.Bit1 (num.Bit0 k)))) mod 16 = (4 :: nat)"
  "numeral (num.Bit1 (num.Bit0 (num.Bit1 (num.Bit0 k)))) mod 16 = (5 :: nat)"
  "numeral (num.Bit0 (num.Bit1 (num.Bit1 (num.Bit0 k)))) mod 16 = (6 :: nat)"
  "numeral (num.Bit1 (num.Bit1 (num.Bit1 (num.Bit0 k)))) mod 16 = (7 :: nat)"
  "numeral (num.Bit0 (num.Bit0 (num.Bit0 (num.Bit1 k)))) mod 16 = (8 :: nat)"
  "numeral (num.Bit1 (num.Bit0 (num.Bit0 (num.Bit1 k)))) mod 16 = (9 :: nat)"
  "numeral (num.Bit0 (num.Bit1 (num.Bit0 (num.Bit1 k)))) mod 16 = (10 :: nat)"
  "numeral (num.Bit1 (num.Bit1 (num.Bit0 (num.Bit1 k)))) mod 16 = (11 :: nat)"
  "numeral (num.Bit0 (num.Bit0 (num.Bit1 (num.Bit1 k)))) mod 16 = (12 :: nat)"
  "numeral (num.Bit1 (num.Bit0 (num.Bit1 (num.Bit1 k)))) mod 16 = (13 :: nat)"
  "numeral (num.Bit0 (num.Bit1 (num.Bit1 (num.Bit1 k)))) mod 16 = (14 :: nat)"
  "numeral (num.Bit1 (num.Bit1 (num.Bit1 (num.Bit1 k)))) mod 16 = (15 :: nat)"
  by simp_all

lemma small_digits [ragel_eval]:
  "(0 :: nat) div 16 = 0" "(0 :: nat) mod 16 = 0" "Suc 0 div 16 = 0" "Suc 0 mod 16 = Suc 0"
  "n * Suc 0 = n" "Suc 0 * n = n" "Suc (Suc 0) = 2" "Suc m + n = Suc (m + n)"
  by simp_all

lemmas evaluation [ragel_eval] =
  nth_Cons_0 nth_Cons_Suc One_nat_def numeral_One Suc_numeral add_Suc_right
  arith_simps rel_simps pred_numeral_simps pred_numeral_inc numeral_plus_one one_plus_numeral nat_1_add_1
  add_0_left add_0_right mult_zero_left mult_zero_right mult_1_left mult_1_right
  list.pred_inject list.set ball_simps simp_thms fst_conv snd_conv if_True if_False sorted_wrt.simps

section \<open>Tables\<close>

text \<open>
  An array is a function of the index; \<open>rg_states\<close>, \<open>rg_nkeys\<close>, \<open>rg_ninds\<close>, \<open>rg_ntrans\<close> and
  \<open>rg_nacts\<close> are the numbers of entries of the arrays per state and of the arrays \<open>trans_keys\<close>,
  \<open>indicies\<close>, \<open>trans_targs\<close> and \<open>actions\<close>. \<open>rg_conds\<close> says whether there are conditions.
\<close>

record ragel =
  rg_actions :: "nat \<Rightarrow> nat"
  rg_cond_offsets :: "nat \<Rightarrow> nat"
  rg_cond_lengths :: "nat \<Rightarrow> nat"
  rg_cond_keys :: "nat \<Rightarrow> int"
  rg_cond_spaces :: "nat \<Rightarrow> nat"
  rg_key_offsets :: "nat \<Rightarrow> nat"
  rg_trans_keys :: "nat \<Rightarrow> int"
  rg_single_lengths :: "nat \<Rightarrow> nat"
  rg_range_lengths :: "nat \<Rightarrow> nat"
  rg_index_offsets :: "nat \<Rightarrow> nat"
  rg_indicies :: "nat \<Rightarrow> nat"
  rg_trans_targs :: "nat \<Rightarrow> nat"
  rg_trans_actions :: "nat \<Rightarrow> nat"
  rg_eof_actions :: "nat \<Rightarrow> nat"
  rg_conds :: bool
  rg_states :: nat
  rg_nkeys :: nat
  rg_ninds :: nat
  rg_ntrans :: nat
  rg_nacts :: nat
  rg_ncond_keys :: nat
  rg_ncond_spaces :: nat

section \<open>Binary search\<close>

text \<open>The pointers \<open>_lower\<close>, \<open>_mid\<close> and \<open>_upper\<close> are offsets from \<open>_keys\<close>.\<close>

function search_single :: "(nat \<Rightarrow> int) \<Rightarrow> int \<Rightarrow> int \<Rightarrow> int \<Rightarrow> nat option" where
  "search_single key c lower upper =
     (if upper < lower then None
      else
        let mid = lower + (upper - lower) div 2
        in if c < key (nat mid) then search_single key c lower (mid - 1)
           else if key (nat mid) < c then search_single key c (mid + 1) upper
           else Some (nat mid))"
  by pat_completeness auto
termination by (relation "measure (\<lambda>(key, c, lower, upper). nat (upper - lower + 1))") auto

declare search_single.simps [simp del]

text \<open>\<open>((_upper-_lower) >> 1) & ~1\<close> on a non-negative distance\<close>

function search_range :: "(nat \<Rightarrow> int) \<Rightarrow> int \<Rightarrow> int \<Rightarrow> int \<Rightarrow> nat option" where
  "search_range key c lower upper =
     (if upper < lower then None
      else
        let mid = lower + 2 * ((upper - lower) div 2 div 2)
        in if c < key (nat mid) then search_range key c lower (mid - 2)
           else if key (nat (mid + 1)) < c then search_range key c (mid + 2) upper
           else Some (nat mid))"
  by pat_completeness auto
termination by (relation "measure (\<lambda>(key, c, lower, upper). nat (upper - lower + 1))") auto

declare search_range.simps [simp del]

section \<open>One step\<close>

text \<open>Consecutive entries of an array.\<close>

fun slice :: "(nat \<Rightarrow> 'a) \<Rightarrow> nat \<Rightarrow> nat \<Rightarrow> 'a list" where
  "slice f i 0 = []"
| "slice f i (Suc n) = f i # slice f (Suc i) n"

lemma slice_numeral [ragel_eval]: "slice f i (numeral v) = f i # slice f (Suc i) (pred_numeral v)"
  by (simp add: numeral_eq_Suc)

lemma slice_map: "slice f i n = map (\<lambda>k. f (i + k)) [0..<n]"
proof (induction n arbitrary: i)
  case (Suc n)
  have "[0..<Suc n] = 0 # map Suc [0..<n]" by (simp only: map_Suc_upt) (simp add: upt_conv_Cons)
  then have "map (\<lambda>k. f (i + k)) [0..<Suc n] = f i # map (\<lambda>k. f (Suc i + k)) [0..<n]"
    by (simp only: list.map map_map) simp
  then show ?case using Suc by (simp only: slice.simps)
qed simp

text \<open>The widening of the characters whose meaning depends on a condition.\<close>

definition widen :: "ragel \<Rightarrow> bool \<Rightarrow> nat \<Rightarrow> int \<Rightarrow> int" where
  "widen T cond cs c =
     (let klen = rg_cond_lengths T cs; keys = rg_cond_offsets T cs * 2
      in if 0 < klen then
           (case search_range (\<lambda>k. rg_cond_keys T (keys + k)) c 0 (int klen * 2 - 2) of
              None \<Rightarrow> c
            | Some mid \<Rightarrow>
                if rg_cond_spaces T (rg_cond_offsets T cs + mid div 2) = 0
                then 128 + (c - - 128) + (if cond then 256 else 0) else c)
         else c)"

definition find_trans :: "ragel \<Rightarrow> nat \<Rightarrow> int \<Rightarrow> nat" where
  "find_trans T cs c =
     (let keys = rg_key_offsets T cs; trans = rg_index_offsets T cs; klen = rg_single_lengths T cs;
          single = (if 0 < klen then search_single (\<lambda>k. rg_trans_keys T (keys + k)) c 0 (int klen - 1) else None)
      in case single of
           Some mid \<Rightarrow> trans + mid
         | None \<Rightarrow>
             let keys = keys + klen; trans = trans + klen; klen = rg_range_lengths T cs;
                 rng = (if 0 < klen then search_range (\<lambda>k. rg_trans_keys T (keys + k)) c 0 (int klen * 2 - 2) else None)
             in case rng of
                  Some mid \<Rightarrow> trans + mid div 2
                | None \<Rightarrow> trans + klen)"

text \<open>The numbers of the actions that start at an offset of the action array; 0 is no action.\<close>

definition actions_at :: "ragel \<Rightarrow> nat \<Rightarrow> nat list" where
  "actions_at T a = (if a = 0 then [] else slice (rg_actions T) (a + 1) (rg_actions T a))"

definition step :: "ragel \<Rightarrow> bool \<Rightarrow> nat \<Rightarrow> int \<Rightarrow> nat \<times> nat list" where
  "step T cond cs c =
     (let t = rg_indicies T (find_trans T cs (if rg_conds T then widen T cond cs c else c))
      in (rg_trans_targs T t, actions_at T (rg_trans_actions T t)))"

section \<open>Running\<close>

text \<open>
  An action gets its number, the index of the current character and the parser; its result says
  whether it leaves the loop (\<open>goto _out\<close>). An action may fail, which ends the program.
\<close>

type_synonym ('e, 's) action = "nat \<Rightarrow> nat \<Rightarrow> 's \<Rightarrow> 'e + bool \<times> 's"

fun run_actions :: "('e, 's) action \<Rightarrow> nat list \<Rightarrow> nat \<Rightarrow> 's \<Rightarrow> 'e + bool \<times> 's" where
  "run_actions act [] p st = Inr (False, st)"
| "run_actions act (a # as) p st =
     (case act a p st of
        Inl e \<Rightarrow> Inl e
      | Inr (out, st1) \<Rightarrow> if out then Inr (True, st1) else run_actions act as p st1)"

text \<open>From \<open>_resume\<close> on; the result is \<open>cs\<close>, \<open>p\<close> and the parser at \<open>_out\<close>.\<close>

fun resume ::
  "ragel \<Rightarrow> bool \<Rightarrow> ('e, 's) action \<Rightarrow> nat \<Rightarrow> nat \<Rightarrow> int list \<Rightarrow> 's \<Rightarrow> 'e + nat \<times> nat \<times> 's" where
  "resume T cond act cs p [] st = Inr (cs, p, st)"
| "resume T cond act cs p (c # cs_in) st =
     (case step T cond cs c of (cs1, as) \<Rightarrow>
        case run_actions act as p st of
          Inl e \<Rightarrow> Inl e
        | Inr (out, st1) \<Rightarrow>
            if out then Inr (cs1, p + 1, st1)
            else if cs1 = 0 then Inr (cs1, p, st1)
            else resume T cond act cs1 (p + 1) cs_in st1)"

definition run :: "ragel \<Rightarrow> bool \<Rightarrow> ('e, 's) action \<Rightarrow> nat \<Rightarrow> int list \<Rightarrow> 's \<Rightarrow> 'e + nat \<times> nat \<times> 's" where
  "run T cond act cs inp st =
     (if inp = [] then Inr (cs, 0, st) else if cs = 0 then Inr (cs, 0, st)
      else resume T cond act cs 0 inp st)"

text \<open>A \<open>char\<close> is signed.\<close>

definition schar :: "char \<Rightarrow> int" where
  "schar c = (let n = int (of_char c) in if n < 128 then n else n - 256)"

section \<open>Rows\<close>

text \<open>The entries of a state, and the scan through them that the searches stand for.\<close>

fun pairs :: "'a list \<Rightarrow> ('a \<times> 'a) list" where
  "pairs (x # y # zs) = (x, y) # pairs zs"
| "pairs _ = []"

fun scan :: "int \<Rightarrow> int list \<Rightarrow> (int \<times> int) list \<Rightarrow> nat list \<Rightarrow> nat" where
  "scan c (k # ks) rs (t # ts) = (if c = k then t else scan c ks rs ts)"
| "scan c [] ((lo, hi) # rs) (t # ts) = (if lo \<le> c \<and> c \<le> hi then t else scan c [] rs ts)"
| "scan c [] [] (t # ts) = t"
| "scan c _ _ _ = 0"

definition singles :: "ragel \<Rightarrow> nat \<Rightarrow> int list" where
  "singles T cs = slice (rg_trans_keys T) (rg_key_offsets T cs) (rg_single_lengths T cs)"

definition ranges :: "ragel \<Rightarrow> nat \<Rightarrow> (int \<times> int) list" where
  "ranges T cs = pairs (slice (rg_trans_keys T) (rg_key_offsets T cs + rg_single_lengths T cs)
     (2 * rg_range_lengths T cs))"

definition targets :: "ragel \<Rightarrow> nat \<Rightarrow> nat list" where
  "targets T cs = slice (rg_indicies T) (rg_index_offsets T cs) (rg_single_lengths T cs + rg_range_lengths T cs + 1)"

definition range_list_ok :: "(int \<times> int) list \<Rightarrow> bool" where
  "range_list_ok rs \<longleftrightarrow> sorted_wrt (\<lambda>a b. snd a < fst b) rs \<and> list_all (\<lambda>r. fst r \<le> snd r) rs"

text \<open>A state whose keys are in order, inside the arrays.\<close>

definition row_ok :: "ragel \<Rightarrow> nat \<Rightarrow> bool" where
  "row_ok T cs \<longleftrightarrow>
     sorted_wrt (<) (singles T cs) \<and> range_list_ok (ranges T cs) \<and>
     rg_key_offsets T cs + rg_single_lengths T cs + 2 * rg_range_lengths T cs \<le> rg_nkeys T \<and>
     rg_index_offsets T cs + rg_single_lengths T cs + rg_range_lengths T cs + 1 \<le> rg_ninds T"

section \<open>The searches\<close>

lemma search_single_sound:
  "search_single key c l u = Some k \<Longrightarrow> 0 \<le> l \<Longrightarrow> l \<le> int k \<and> int k \<le> u \<and> key k = c"
proof (induction key c l u rule: search_single.induct)
  case (1 key c l u)
  let ?m = "l + (u - l) div 2"
  have n: "\<not> u < l" using "1.prems"(1) by (auto simp: search_single.simps [of key c l u])
  have m: "l \<le> ?m" "?m \<le> u" "0 \<le> ?m" using n "1.prems"(2) by auto
  show ?case
  proof (cases "c < key (nat ?m)")
    case True
    then show ?thesis using "1.IH"(1) [OF n refl True] "1.prems" n m
      by (auto simp: search_single.simps [of key c l u] Let_def)
  next
    case F: False
    show ?thesis
    proof (cases "key (nat ?m) < c")
      case True
      then show ?thesis using "1.IH"(2) [OF n refl F True] "1.prems" n F m
        by (auto simp: search_single.simps [of key c l u] Let_def)
    next
      case False
      then have "k = nat ?m" using "1.prems"(1) n F by (simp add: search_single.simps [of key c l u] Let_def)
      then show ?thesis using m F False by simp
    qed
  qed
qed

lemma search_single_complete:
  "search_single key c l u = None \<Longrightarrow> 0 \<le> l \<Longrightarrow>
   \<forall>i j. l \<le> int i \<longrightarrow> i < j \<longrightarrow> int j \<le> u \<longrightarrow> key i < key j \<Longrightarrow>
   l \<le> int k \<Longrightarrow> int k \<le> u \<Longrightarrow> key k \<noteq> c"
proof (induction key c l u rule: search_single.induct)
  case (1 key c l u)
  let ?m = "l + (u - l) div 2"
  have n: "\<not> u < l" using "1.prems"(4,5) by simp
  have m: "l \<le> ?m" "?m \<le> u" "0 \<le> ?m" using n "1.prems"(2) by auto
  then have im: "int (nat ?m) = ?m" by simp
  show ?case
  proof (cases "c < key (nat ?m)")
    case T: True
    show ?thesis
    proof (cases "int k \<le> ?m - 1")
      case True
      have "search_single key c l (?m - 1) = None"
        using "1.prems"(1) n T by (simp add: search_single.simps [of key c l u] Let_def)
      moreover have "\<forall>i j. l \<le> int i \<longrightarrow> i < j \<longrightarrow> int j \<le> ?m - 1 \<longrightarrow> key i < key j"
        using "1.prems"(3) m(2) by simp
      ultimately show ?thesis using "1.IH"(1) [OF n refl T _ "1.prems"(2) _ "1.prems"(4) True] by blast
    next
      case False
      then have "nat ?m = k \<or> nat ?m < k" using m by linarith
      then have "key (nat ?m) \<le> key k" using "1.prems"(3,5) m im by (auto intro: less_imp_le)
      then show ?thesis using T by simp
    qed
  next
    case F: False
    show ?thesis
    proof (cases "key (nat ?m) < c")
      case T: True
      show ?thesis
      proof (cases "?m + 1 \<le> int k")
        case True
        have "search_single key c (?m + 1) u = None"
          using "1.prems"(1) n F T by (simp add: search_single.simps [of key c l u] Let_def)
        moreover have "\<forall>i j. ?m + 1 \<le> int i \<longrightarrow> i < j \<longrightarrow> int j \<le> u \<longrightarrow> key i < key j"
          using "1.prems"(3) m(1) by simp
        ultimately show ?thesis using "1.IH"(2) [OF n refl F T _ _ _ True "1.prems"(5)] m(3) by simp
      next
        case False
        then have "nat ?m = k \<or> k < nat ?m" using m by linarith
        then have "key k \<le> key (nat ?m)" using "1.prems"(3,4) m im by (auto intro: less_imp_le)
        then show ?thesis using T by simp
      qed
    next
      case False
      then show ?thesis using "1.prems"(1) n F by (simp add: search_single.simps [of key c l u] Let_def)
    qed
  qed
qed

text \<open>The distance halved and rounded to an even number stays in the interval.\<close>

lemma half_even:
  fixes d :: int
  assumes "0 \<le> d"
  shows "0 \<le> 2 * (d div 2 div 2)" "2 * (d div 2 div 2) \<le> d"
  using assms by auto

lemma search_range_sound:
  "search_range key c l u = Some k \<Longrightarrow> 0 \<le> l \<Longrightarrow>
   l \<le> int k \<and> int k \<le> u \<and> even (int k - l) \<and> key k \<le> c \<and> c \<le> key (k + 1)"
proof (induction key c l u rule: search_range.induct)
  case (1 key c l u)
  define m where "m = l + 2 * ((u - l) div 2 div 2)"
  have n: "\<not> u < l" using "1.prems"(1) by (auto simp: search_range.simps [of key c l u])
  have m: "l \<le> m" "m \<le> u" "even (m - l)"
    using n half_even [of "u - l"] unfolding m_def by simp_all
  then have m0: "0 \<le> m" using "1.prems"(2) by linarith
  have s: "nat (m + 1) = nat m + 1" "int (nat m) = m" using m0 by simp_all
  have eq: "search_range key c l u =
    (if c < key (nat m) then search_range key c l (m - 2)
     else if key (nat (m + 1)) < c then search_range key c (m + 2) u else Some (nat m))"
    using n by (simp add: search_range.simps [of key c l u] Let_def m_def)
  show ?case
  proof (cases "c < key (nat m)")
    case True
    then have r: "search_range key c l (m - 2) = Some k" using "1.prems"(1) eq by simp
    from "1.IH"(1) [OF n m_def True r "1.prems"(2)] m(2) show ?thesis by auto
  next
    case F: False
    show ?thesis
    proof (cases "key (nat (m + 1)) < c")
      case True
      then have r: "search_range key c (m + 2) u = Some k" using "1.prems"(1) eq F by simp
      have p: "0 \<le> m + 2" using m0 by simp
      from "1.IH"(2) [OF n m_def F True r p] m(1,3) show ?thesis by auto
    next
      case False
      then have k: "k = nat m" using "1.prems"(1) eq F by simp
      show ?thesis unfolding k s using m F False s by auto
    qed
  qed
qed

lemma search_range_complete:
  "search_range key c l u = None \<Longrightarrow> 0 \<le> l \<Longrightarrow>
   \<forall>i j. l \<le> int i \<longrightarrow> i < j \<longrightarrow> int j \<le> u \<longrightarrow> even (int i - l) \<longrightarrow> even (int j - l) \<longrightarrow> key (i + 1) < key j \<Longrightarrow>
   \<forall>i. l \<le> int i \<longrightarrow> int i \<le> u \<longrightarrow> even (int i - l) \<longrightarrow> key i \<le> key (i + 1) \<Longrightarrow>
   l \<le> int k \<Longrightarrow> int k \<le> u \<Longrightarrow> even (int k - l) \<Longrightarrow> \<not> (key k \<le> c \<and> c \<le> key (k + 1))"
proof (induction key c l u rule: search_range.induct)
  case (1 key c l u)
  define m where "m = l + 2 * ((u - l) div 2 div 2)"
  have n: "\<not> u < l" using "1.prems"(5,6) by simp
  have m: "l \<le> m" "m \<le> u" "even (m - l)"
    using n half_even [of "u - l"] unfolding m_def by simp_all
  then have m0: "0 \<le> m" using "1.prems"(2) by linarith
  note m = m(1,2) m0 m(3)
  have eq: "search_range key c l u =
    (if c < key (nat m) then search_range key c l (m - 2)
     else if key (nat (m + 1)) < c then search_range key c (m + 2) u else Some (nat m))"
    using n by (simp add: search_range.simps [of key c l u] Let_def m_def)
  note IH1 = "1.IH"(1) [OF n m_def] and IH2 = "1.IH"(2) [OF n m_def]
  have im: "int (nat m) = m" using m0 by simp
  have s: "nat (m + 1) = nat m + 1" using m(3) by simp
  have el: "even (int i - (m + 2)) \<longleftrightarrow> even (int i - l)" for i using m(4) by auto
  have mk: "key (nat m) \<le> key (nat m + 1)" using "1.prems"(4) [rule_format, of "nat m"] m im by simp
  have kk: "key k \<le> key (k + 1)" using "1.prems"(4-7) by blast
  show ?case
  proof (cases "c < key (nat m)")
    case T: True
    show ?thesis
    proof (cases "int k < m")
      case True
      then have k2: "int k \<le> m - 2" using m(4) "1.prems"(7) by presburger
      have "search_range key c l (m - 2) = None"
        using "1.prems"(1) n T by (simp add: eq)
      moreover have "\<forall>i j. l \<le> int i \<longrightarrow> i < j \<longrightarrow> int j \<le> m - 2 \<longrightarrow> even (int i - l) \<longrightarrow> even (int j - l) \<longrightarrow> key (i + 1) < key j"
        using "1.prems"(3) m(2) by auto
      moreover have "\<forall>i. l \<le> int i \<longrightarrow> int i \<le> m - 2 \<longrightarrow> even (int i - l) \<longrightarrow> key i \<le> key (i + 1)"
        using "1.prems"(4) m(2) by auto
      ultimately show ?thesis
        using IH1 [OF T _ "1.prems"(2) _ _ "1.prems"(5) k2 "1.prems"(7)] by blast
    next
      case False
      then have "nat m = k \<or> nat m < k" using m by linarith
      then show ?thesis
      proof
        assume "nat m < k"
        then have "key (nat m + 1) < key k"
          using "1.prems"(3) [rule_format, of "nat m" k] "1.prems"(6,7) m im by simp
        then show ?thesis using T mk by auto
      qed (use T in auto)
    qed
  next
    case F: False
    show ?thesis
    proof (cases "key (nat (m + 1)) < c")
      case T: True
      show ?thesis
      proof (cases "m < int k")
        case True
        then have k2: "m + 2 \<le> int k" using m(4) "1.prems"(7) by presburger
        have r: "search_range key c (m + 2) u = None"
          using "1.prems"(1) n F T by (simp add: eq)
        have p: "0 \<le> m + 2" using m(3) by simp
        have a: "\<forall>i j. m + 2 \<le> int i \<longrightarrow> i < j \<longrightarrow> int j \<le> u \<longrightarrow> even (int i - (m + 2)) \<longrightarrow> even (int j - (m + 2)) \<longrightarrow> key (i + 1) < key j"
          using "1.prems"(3) m(1) unfolding el by auto
        have b: "\<forall>i. m + 2 \<le> int i \<longrightarrow> int i \<le> u \<longrightarrow> even (int i - (m + 2)) \<longrightarrow> key i \<le> key (i + 1)"
          using "1.prems"(4) m(1) unfolding el by auto
        have e: "even (int k - (m + 2))" using "1.prems"(7) unfolding el .
        show ?thesis by (rule IH2 [OF F T r p a b k2 "1.prems"(6) e])
      next
        case False
        then have "nat m = k \<or> k < nat m" using m by linarith
        then show ?thesis
        proof
          assume "k < nat m"
          then have "key (k + 1) < key (nat m)"
            using "1.prems"(3) [rule_format, of k "nat m"] "1.prems"(5,7) m im by simp
          then show ?thesis using T s mk by auto
        qed (use T s in auto)
      qed
    next
      case False
      then show ?thesis using "1.prems"(1) n F by (simp add: eq)
    qed
  qed
qed

section \<open>Rows and scans\<close>

lemma pairs_nth: "j < length xs div 2 \<Longrightarrow> pairs xs ! j = (xs ! (2 * j), xs ! (2 * j + 1))"
proof (induction xs arbitrary: j rule: pairs.induct)
  case (1 x y zs)
  then show ?case by (cases j) auto
qed auto

lemma length_pairs: "length (pairs xs) = length xs div 2"
  by (induction xs rule: pairs.induct) auto

lemma scan_none: "c \<notin> set ks \<Longrightarrow> length ks \<le> length ts \<Longrightarrow> scan c ks rs ts = scan c [] rs (drop (length ks) ts)"
proof (induction ks arbitrary: ts)
  case (Cons k ks)
  then show ?case by (cases ts) auto
qed simp

lemma scan_single:
  "j < length ks \<Longrightarrow> length ks \<le> length ts \<Longrightarrow> sorted_wrt (<) ks \<Longrightarrow> scan (ks ! j) ks rs ts = ts ! j"
proof (induction ks arbitrary: ts j)
  case (Cons k ks)
  obtain t ts' where ts: "ts = t # ts'" using Cons.prems(2) by (cases ts) auto
  show ?case
  proof (cases j)
    case (Suc j')
    have ne: "ks ! j' \<noteq> k" using Cons.prems(1,3) Suc by auto
    have "scan (ks ! j') ks rs ts' = ts' ! j'" using Cons.prems Suc ts by (intro Cons.IH) auto
    then show ?thesis using ne ts Suc by simp
  qed (simp add: ts)
qed simp

lemma scan_range_none:
  "\<forall>r \<in> set rs. \<not> (fst r \<le> c \<and> c \<le> snd r) \<Longrightarrow> length rs < length ts \<Longrightarrow> scan c [] rs ts = ts ! length rs"
proof (induction rs arbitrary: ts)
  case Nil
  then show ?case by (cases ts) auto
next
  case (Cons r rs)
  obtain t ts' where "ts = t # ts'" using Cons.prems(2) by (cases ts) auto
  then show ?case using Cons by (cases r) auto
qed

lemma scan_range:
  "j < length rs \<Longrightarrow> length rs < length ts \<Longrightarrow> range_list_ok rs \<Longrightarrow> fst (rs ! j) \<le> c \<Longrightarrow> c \<le> snd (rs ! j) \<Longrightarrow>
   scan c [] rs ts = ts ! j"
proof (induction rs arbitrary: ts j)
  case (Cons r rs)
  obtain t ts' where ts: "ts = t # ts'" using Cons.prems(2) by (cases ts) auto
  show ?case
  proof (cases j)
    case 0
    then show ?thesis using Cons.prems ts by (cases r) auto
  next
    case (Suc j')
    then have "snd r < fst (rs ! j')" using Cons.prems(1,3) by (auto simp: range_list_ok_def)
    moreover have "range_list_ok rs" using Cons.prems(3) by (simp add: range_list_ok_def)
    ultimately show ?thesis using Cons ts Suc by (cases r) auto
  qed
qed simp

text \<open>The search of the interpreter finds the entry that the scan finds, inside the array.\<close>

lemma find_trans_scan:
  assumes "row_ok T cs"
  shows "find_trans T cs c < rg_ninds T"
    "rg_indicies T (find_trans T cs c) = scan c (singles T cs) (ranges T cs) (targets T cs)"
proof -
  define ko io s r where "ko = rg_key_offsets T cs" "io = rg_index_offsets T cs"
    "s = rg_single_lengths T cs" "r = rg_range_lengths T cs"
  note d = this
  define K where "K = rg_trans_keys T"
  have len: "ko + s + 2 * r \<le> rg_nkeys T" "io + s + r + 1 \<le> rg_ninds T"
    and srt: "sorted_wrt (<) (singles T cs)" "range_list_ok (ranges T cs)"
    using assms by (simp_all add: row_ok_def d K_def)
  have ks: "length (singles T cs) = s" "\<And>i. i < s \<Longrightarrow> singles T cs ! i = K (ko + i)"
    by (simp_all add: singles_def slice_map d K_def)
  have rs: "length (ranges T cs) = r" "\<And>i. i < r \<Longrightarrow> ranges T cs ! i = (K (ko + s + 2 * i), K (ko + s + (2 * i + 1)))"
    by (simp_all add: ranges_def slice_map d K_def length_pairs pairs_nth del: upt_Suc)
  have ts: "length (targets T cs) = s + r + 1" "\<And>i. i < s + r + 1 \<Longrightarrow> targets T cs ! i = rg_indicies T (io + i)"
    by (simp_all add: targets_def slice_map d del: upt_Suc)
  define single where "single = (if 0 < s then search_single (\<lambda>k. K (ko + k)) c 0 (int s - 1) else None)"
  define rng where "rng = (if 0 < r then search_range (\<lambda>k. K (ko + s + k)) c 0 (int r * 2 - 2) else None)"
  have ft: "find_trans T cs c = (case single of Some mid \<Rightarrow> io + mid
      | None \<Rightarrow> (case rng of Some mid \<Rightarrow> io + s + mid div 2 | None \<Rightarrow> io + s + r))"
    unfolding find_trans_def Let_def single_def rng_def K_def d ..
  have goal: "find_trans T cs c < rg_ninds T \<and>
      rg_indicies T (find_trans T cs c) = scan c (singles T cs) (ranges T cs) (targets T cs)"
  proof (cases single)
    case (Some mid)
    then have m: "mid < s" "K (ko + mid) = c"
      using search_single_sound [of "\<lambda>k. K (ko + k)" c 0 "int s - 1" mid] by (auto simp: single_def split: if_splits)
    then have "scan c (singles T cs) (ranges T cs) (targets T cs) = targets T cs ! mid"
      using scan_single [of mid "singles T cs" "targets T cs"] ks ts(1) srt(1) by simp
    then show ?thesis using Some m len(2) ts(2) by (simp add: ft)
  next
    case None
    have mono: "K (ko + i) < K (ko + j)" if "i < j" "j < s" for i j
      using sorted_wrt_nth_less [OF srt(1) that(1)] that ks by simp
    have "c \<notin> set (singles T cs)"
    proof
      assume "c \<in> set (singles T cs)"
      then obtain i where i: "i < s" "K (ko + i) = c" using ks by (auto simp: in_set_conv_nth)
      then have "search_single (\<lambda>k. K (ko + k)) c 0 (int s - 1) = None" using None by (simp add: single_def)
      from search_single_complete [OF this, of i] i mono show False by auto
    qed
    then have sc: "scan c (singles T cs) (ranges T cs) (targets T cs) = scan c [] (ranges T cs) (drop s (targets T cs))"
      using scan_none [of c "singles T cs" "targets T cs"] ks(1) ts(1) by simp
    have ro: "range_list_ok (ranges T cs)" by (rule srt(2))
    show ?thesis
    proof (cases rng)
      case (Some mid)
      then have m0: "int mid \<le> int r * 2 - 2" "even mid" "K (ko + s + mid) \<le> c" "c \<le> K (ko + s + (mid + 1))"
        using search_range_sound [of "\<lambda>k. K (ko + s + k)" c 0 "int r * 2 - 2" mid]
        by (auto simp: rng_def split: if_splits)
      define j where "j = mid div 2"
      have m: "mid = 2 * j" "j < r" using m0(1,2) by (auto simp: j_def)
      have "scan c [] (ranges T cs) (drop s (targets T cs)) = drop s (targets T cs) ! j"
        using m m0 rs ro ts(1) by (intro scan_range) auto
      then show ?thesis using None Some m ts len(2) sc by (simp add: ft add.assoc)
    next
      case none: None
      have "\<not> (fst p \<le> c \<and> c \<le> snd p)" if p: "p \<in> set (ranges T cs)" for p
      proof -
        obtain i where i: "i < r" "p = (K (ko + s + 2 * i), K (ko + s + (2 * i + 1)))"
          using p rs by (auto simp: in_set_conv_nth)
        have s0: "search_range (\<lambda>k. K (ko + s + k)) c 0 (int r * 2 - 2) = None"
          using none i(1) by (simp add: rng_def)
        have le: "K (ko + s + k) \<le> K (ko + s + (k + 1))" if "even k" "int k \<le> int r * 2 - 2" for k
        proof -
          obtain q where q0: "k = 2 * q" using \<open>even k\<close> by (elim evenE) blast
          with \<open>int k \<le> int r * 2 - 2\<close> have q: "k = 2 * q" "q < r" by auto
          then show ?thesis using srt(2) rs by (auto simp: range_list_ok_def list_all_length)
        qed
        have lt: "K (ko + s + (k + 1)) < K (ko + s + k')"
          if e: "even k" "even k'" "k < k'" "int k' \<le> int r * 2 - 2" for k k'
        proof -
          obtain q q' where q: "k = 2 * q" "k' = 2 * q'" using e(1,2) by (auto elim!: evenE)
          then have "q < q'" "q' < r" using e(3,4) by auto
          then show ?thesis using q srt(2) rs sorted_wrt_nth_less [of "\<lambda>a b. snd a < fst b" "ranges T cs" q q']
            by (auto simp: range_list_ok_def)
        qed
        have "\<not> (K (ko + s + 2 * i) \<le> c \<and> c \<le> K (ko + s + (2 * i + 1)))"
          using search_range_complete [OF s0, of "2 * i"] le lt i(1) by auto
        then show ?thesis using i(2) by simp
      qed
      then have "scan c [] (ranges T cs) (drop s (targets T cs)) = drop s (targets T cs) ! r"
        using scan_range_none [of "ranges T cs" c "drop s (targets T cs)"] rs(1) ts(1) by auto
      then show ?thesis using None none ts len(2) sc by (simp add: ft add.assoc)
    qed
  qed
  then show "find_trans T cs c < rg_ninds T"
    "rg_indicies T (find_trans T cs c) = scan c (singles T cs) (ranges T cs) (targets T cs)" by auto
qed

text \<open>All states from 1 to \<open>n\<close>.\<close>

fun rows_ok :: "ragel \<Rightarrow> nat \<Rightarrow> bool" where
  "rows_ok T 0 \<longleftrightarrow> True"
| "rows_ok T (Suc n) \<longleftrightarrow> row_ok T (Suc n) \<and> rows_ok T n"

lemma rows_ok_numeral [ragel_eval]: "rows_ok T (numeral v) \<longleftrightarrow> row_ok T (numeral v) \<and> rows_ok T (pred_numeral v)"
  by (simp add: numeral_eq_Suc)

lemma rows_okD: "rows_ok T n \<Longrightarrow> 0 < cs \<Longrightarrow> cs \<le> n \<Longrightarrow> row_ok T cs"
  by (induction n) (auto simp: le_Suc_eq)

text \<open>The entries of an array below \<open>n\<close> satisfy a condition.\<close>

fun all_entries :: "('a \<Rightarrow> bool) \<Rightarrow> (nat \<Rightarrow> 'a) \<Rightarrow> nat \<Rightarrow> bool" where
  "all_entries P f 0 \<longleftrightarrow> True"
| "all_entries P f (Suc n) \<longleftrightarrow> P (f n) \<and> all_entries P f n"

lemma all_entries_numeral [ragel_eval]:
  "all_entries P f (numeral v) \<longleftrightarrow> P (f (pred_numeral v)) \<and> all_entries P f (pred_numeral v)"
  by (simp add: numeral_eq_Suc)

lemma all_entriesD: "all_entries P f n \<Longrightarrow> i < n \<Longrightarrow> P (f i)"
  by (induction n) (auto simp: less_Suc_eq)

text \<open>The actions that start at an offset lie in the action array.\<close>

definition acts_inside :: "ragel \<Rightarrow> nat \<Rightarrow> bool" where
  "acts_inside T a \<longleftrightarrow> a < rg_nacts T \<and> (a = 0 \<or> a + rg_actions T a < rg_nacts T)"

text \<open>The conditions of a state lie in their two arrays.\<close>

definition cond_row_ok :: "ragel \<Rightarrow> nat \<Rightarrow> bool" where
  "cond_row_ok T cs \<longleftrightarrow>
     rg_cond_offsets T cs * 2 + rg_cond_lengths T cs * 2 \<le> rg_ncond_keys T \<and> rg_cond_offsets T cs + rg_cond_lengths T cs \<le> rg_ncond_spaces T"

definition tables_ok :: "ragel \<Rightarrow> bool" where
  "tables_ok T \<longleftrightarrow> rows_ok T (rg_states T - 1) \<and>
     all_entries (\<lambda>t. t < rg_ntrans T) (rg_indicies T) (rg_ninds T) \<and>
     all_entries (\<lambda>s. s < rg_states T) (rg_trans_targs T) (rg_ntrans T) \<and>
     all_entries (acts_inside T) (rg_trans_actions T) (rg_ntrans T)"

lemma tables_ok_row: "tables_ok T \<Longrightarrow> 0 < cs \<Longrightarrow> cs < rg_states T \<Longrightarrow> row_ok T cs"
  by (auto simp: tables_ok_def intro: rows_okD)

lemmas all_entries_eval [ragel_eval] = all_entries.simps acts_inside_def

declare ragel.simps [ragel_eval] slice.simps [ragel_eval] pairs.simps [ragel_eval] rows_ok.simps [ragel_eval]

lemmas row_eval [ragel_eval] = singles_def ranges_def targets_def range_list_ok_def row_ok_def

text \<open>A step from a state with a good row.\<close>

lemma step_scan:
  assumes "row_ok T cs"
  shows "step T cond cs c =
     (let t = scan (if rg_conds T then widen T cond cs c else c) (singles T cs) (ranges T cs) (targets T cs)
      in (rg_trans_targs T t, actions_at T (rg_trans_actions T t)))"
  using find_trans_scan(2) [OF assms] by (simp add: step_def)

text \<open>A step of checked tables stays inside all arrays and leads to a state.\<close>

lemma step_inside:
  fixes cond c
  assumes "tables_ok T" "0 < cs" "cs < rg_states T"
  defines "i \<equiv> find_trans T cs (if rg_conds T then widen T cond cs c else c)"
  shows "i < rg_ninds T" "rg_indicies T i < rg_ntrans T" "fst (step T cond cs c) < rg_states T"
    "acts_inside T (rg_trans_actions T (rg_indicies T i))"
proof -
  show i: "i < rg_ninds T"
    unfolding i_def by (rule find_trans_scan(1) [OF tables_ok_row [OF assms(1-3)]])
  have a: "all_entries (\<lambda>t. t < rg_ntrans T) (rg_indicies T) (rg_ninds T)"
    "all_entries (\<lambda>s. s < rg_states T) (rg_trans_targs T) (rg_ntrans T)"
    "all_entries (acts_inside T) (rg_trans_actions T) (rg_ntrans T)"
    using assms(1) by (simp_all add: tables_ok_def)
  show t: "rg_indicies T i < rg_ntrans T" by (rule all_entriesD [OF a(1) i])
  show "fst (step T cond cs c) < rg_states T"
    using all_entriesD [OF a(2) t] by (cases "rg_conds T") (simp_all add: step_def i_def Let_def)
  show "acts_inside T (rg_trans_actions T (rg_indicies T i))" by (rule all_entriesD [OF a(3) t])
qed

section \<open>Runs\<close>

text \<open>The row of a state with the states and actions its entries lead to.\<close>

fun pick :: "int \<Rightarrow> int list \<Rightarrow> (int \<times> int) list \<Rightarrow> 'a list \<Rightarrow> 'a \<Rightarrow> 'a" where
  "pick c (k # ks) rs (t # ts) d = (if c = k then t else pick c ks rs ts d)"
| "pick c [] ((lo, hi) # rs) (t # ts) d = (if lo \<le> c \<and> c \<le> hi then t else pick c [] rs ts d)"
| "pick c [] [] (t # ts) d = t"
| "pick c _ _ _ d = d"

lemma scan_pick: "f (scan c ks rs ts) = pick c ks rs (map f ts) (f 0)"
  by (induction c ks rs ts rule: scan.induct) auto

definition entry :: "ragel \<Rightarrow> nat \<Rightarrow> nat \<times> nat list" where
  "entry T t = (rg_trans_targs T t, actions_at T (rg_trans_actions T t))"

definition entries :: "ragel \<Rightarrow> nat \<Rightarrow> (nat \<times> nat list) list" where
  "entries T cs = map (entry T) (targets T cs)"

lemma step_pick:
  assumes "row_ok T cs"
  shows "step T cond cs c =
     pick (if rg_conds T then widen T cond cs c else c) (singles T cs) (ranges T cs) (entries T cs) (entry T 0)"
  unfolding step_scan [OF assms] entries_def scan_pick [of "entry T", symmetric] by (simp add: entry_def Let_def)

declare list.map [ragel_eval] 

lemmas entry_eval [ragel_eval] = entries_def entry_def actions_at_def prod.inject list.inject zero_neq_numeral numeral_neq_zero

text \<open>One character, and a text whose characters keep the state.\<close>

lemma resume_one:
  "step T cond cs c = (cs1, as) \<Longrightarrow> run_actions act as p st = Inr (False, st1) \<Longrightarrow> cs1 \<noteq> 0 \<Longrightarrow>
   resume T cond act cs p (c # ys) st = resume T cond act cs1 (p + 1) ys st1"
  by simp

lemma resume_move:
  "step T cond cs c = (cs1, []) \<Longrightarrow> cs1 \<noteq> 0 \<Longrightarrow>
   resume T cond act cs p (c # ys) st = resume T cond act cs1 (p + 1) ys st"
  by simp

lemma resume_stay:
  "(\<And>c. c \<in> set xs \<Longrightarrow> step T cond cs c = (cs, [])) \<Longrightarrow> cs \<noteq> 0 \<Longrightarrow>
   resume T cond act cs p (xs @ ys) st = resume T cond act cs (p + length xs) ys st"
  by (induction xs arbitrary: p) simp_all

text \<open>A run ends in a state and inside the text.\<close>

lemma resume_state:
  assumes "tables_ok T" "0 < cs" "cs < rg_states T" "resume T cond act cs p inp st = Inr (cs1, p1, st1)"
  shows "cs1 < rg_states T \<and> p \<le> p1 \<and> p1 \<le> p + length inp"
  using assms
proof (induction T cond act cs p inp st rule: resume.induct)
  case (2 T cond act cs p c inp st)
  obtain cs2 as where s: "step T cond cs c = (cs2, as)" by (cases "step T cond cs c")
  then have cs2: "cs2 < rg_states T" using step_inside(3) [OF "2.prems"(1-3), of cond c] by simp
  obtain out st2 where a: "run_actions act as p st = Inr (out, st2)"
    using "2.prems"(4) s by (auto split: sum.splits)
  show ?case
  proof (cases "out \<or> cs2 = 0")
    case True
    then show ?thesis using "2.prems"(4) s a cs2 by (auto split: if_splits)
  next
    case False
    then show ?thesis using "2.IH" [OF s [symmetric] a refl _ _ "2.prems"(1) _ cs2] "2.prems"(4) s a by auto
  qed
qed auto

text \<open>What every action keeps, a run keeps.\<close>

lemma run_actions_preserve:
  assumes "\<And>a p st out st1. act a p st = Inr (out, st1) \<Longrightarrow> P st \<Longrightarrow> P st1"
  shows "run_actions act as p st = Inr (out, st1) \<Longrightarrow> P st \<Longrightarrow> P st1"
  by (induction as arbitrary: st) (auto split: sum.splits if_splits dest: assms)

lemma resume_preserve:
  assumes "\<And>a p st out st1. act a p st = Inr (out, st1) \<Longrightarrow> P st \<Longrightarrow> P st1"
  shows "resume T cond act cs p inp st = Inr (cs1, p1, st1) \<Longrightarrow> P st \<Longrightarrow> P st1"
proof (induction inp arbitrary: cs p st)
  case (Cons c inp)
  obtain cs2 as where s: "step T cond cs c = (cs2, as)" by (cases "step T cond cs c")
  obtain out st2 where a: "run_actions act as p st = Inr (out, st2)"
    using Cons.prems(1) s by (auto split: sum.splits)
  have "P st2" using run_actions_preserve [of act P, OF _ a Cons.prems(2)] assms by blast
  then show ?case using Cons.prems(1) Cons.IH [of cs2 "p + 1" st2] s a by (auto split: if_splits)
qed simp

lemma schar_of_char:
  obtains n where "(of_char c :: nat) = n" "n < 256" "schar c = (if n < 128 then int n else int n - 256)"
  using of_char_mod_256 [of c, where ?'a = nat] mod_less_divisor [of 256 "of_char c :: nat"]
  by (auto simp: schar_def Let_def)

lemma schar_range: "- 128 \<le> schar c" "schar c \<le> 127"
  by (rule schar_of_char [of c]; simp)+

lemma schar_inj: "schar c = schar d \<longleftrightarrow> c = d"
proof
  assume e: "schar c = schar d"
  obtain m where m: "(of_char c :: nat) = m" "m < 256" "schar c = (if m < 128 then int m else int m - 256)"
    by (rule schar_of_char)
  obtain n where n: "(of_char d :: nat) = n" "n < 256" "schar d = (if n < 128 then int n else int n - 256)"
    by (rule schar_of_char)
  have "m = n" using e m(2,3) n(2,3) by (auto split: if_splits)
  then have "(of_char c :: nat) = of_char d" using m(1) n(1) by simp
  then show "c = d" by (simp add: of_char_eq_iff)
qed simp

section \<open>Walking\<close>

text \<open>What is left of a run over the text \<open>b\<close> when the interpreter is in state \<open>cs\<close> at offset \<open>p\<close>.\<close>

definition goes ::
  "ragel \<Rightarrow> bool \<Rightarrow> ('e, 's) action \<Rightarrow> string \<Rightarrow> nat \<Rightarrow> nat \<Rightarrow> 's \<Rightarrow> 'e + nat \<times> nat \<times> 's" where
  "goes T cond act b cs p st = resume T cond act cs p (map schar (drop p b)) st"

text \<open>The state after a text on which no action happens.\<close>

fun walk :: "ragel \<Rightarrow> bool \<Rightarrow> nat \<Rightarrow> string \<Rightarrow> nat option" where
  "walk T cond cs [] = Some cs"
| "walk T cond cs (c # xs) =
     (case step T cond cs (schar c) of
        (cs1, []) \<Rightarrow> if cs1 = 0 then None else walk T cond cs1 xs
      | _ \<Rightarrow> None)"

lemma drop_next: "drop p b = xs @ ys \<Longrightarrow> drop (p + length xs) b = ys"
  by (metis add.commute append_eq_conv_conj drop_drop)

lemma drop_bound: "drop p b = xs @ ys \<Longrightarrow> xs \<noteq> [] \<Longrightarrow> p + length xs + length ys = length b"
proof (cases "p \<le> length b")
  case True
  assume "drop p b = xs @ ys"
  from arg_cong [OF this, of length] True show ?thesis by simp
qed simp

lemma goes_move:
  assumes "drop p b = c # ys" "step T cond cs (schar c) = (cs1, as)"
    "run_actions act as p st = Inr (False, st1)" "cs1 \<noteq> 0"
  shows "goes T cond act b cs p st = goes T cond act b cs1 (p + 1) st1"
  using assms drop_next [of p b "[c]" ys] by (simp add: goes_def)

lemma goes_walk:
  "drop p b = xs @ ys \<Longrightarrow> walk T cond cs xs = Some cs1 \<Longrightarrow>
   goes T cond act b cs p st = goes T cond act b cs1 (p + length xs) st"
proof (induction xs arbitrary: cs p)
  case (Cons c xs)
  then obtain cs2 where s: "step T cond cs (schar c) = (cs2, [])" "cs2 \<noteq> 0" "walk T cond cs2 xs = Some cs1"
    by (auto split: prod.splits list.splits if_splits)
  have d: "drop (p + 1) b = xs @ ys" using drop_next [of p b "[c]" "xs @ ys"] Cons.prems(1) by simp
  have "goes T cond act b cs p st = goes T cond act b cs2 (p + 1) st"
    using Cons.prems(1) s(1,2) by (intro goes_move) auto
  then show ?case using Cons.IH [OF d s(3)] by simp
qed simp

lemma walk_append:
  "walk T cond cs (xs @ ys) = (case walk T cond cs xs of None \<Rightarrow> None | Some cs1 \<Rightarrow> walk T cond cs1 ys)"
  by (induction xs arbitrary: cs) (auto split: prod.splits list.splits)

lemma walk_stay: "(\<And>c. c \<in> set xs \<Longrightarrow> step T cond cs (schar c) = (cs, [])) \<Longrightarrow> cs \<noteq> 0 \<Longrightarrow> walk T cond cs xs = Some cs"
  by (induction xs) auto

end
