(* ===== verification/Ragel_Checked.thy ===== *)
theory Ragel_Checked
  imports Ragel
begin

text \<open>
  The interpreter of \<open>Ragel\<close> again, with every read of an array checked against its number of entries. On
  tables that pass \<open>arrays_ok\<close> no check fails and it computes the same.
\<close>

section \<open>Checked reads\<close>

datatype array_error = OutOfBounds

definition fetch :: "(nat \<Rightarrow> 'a) \<Rightarrow> nat \<Rightarrow> int \<Rightarrow> array_error + 'a" where
  "fetch f n i = (if 0 \<le> i \<and> i < int n then Inr (f (nat i)) else Inl OutOfBounds)"

fun fetch_slice :: "(nat \<Rightarrow> 'a) \<Rightarrow> nat \<Rightarrow> nat \<Rightarrow> nat \<Rightarrow> array_error + 'a list" where
  "fetch_slice f n i 0 = Inr []"
| "fetch_slice f n i (Suc k) = bind_res (fetch f n (int i)) (\<lambda>x. bind_res (fetch_slice f n (Suc i) k) (\<lambda>xs. Inr (x # xs)))"

lemma fetch_ok [simp]: "i < n \<Longrightarrow> fetch f n (int i) = Inr (f i)"
  by (simp add: fetch_def)

lemma fetch_slice_ok: "i + k \<le> n \<Longrightarrow> fetch_slice f n i k = Inr (slice f i k)"
  by (induction k arbitrary: i) simp_all

section \<open>The checked interpreter\<close>

text \<open>The searches get the read of a key; a range has its second key read only when the first does not decide.\<close>

function search_single_chk :: "(int \<Rightarrow> array_error + int) \<Rightarrow> int \<Rightarrow> int \<Rightarrow> int \<Rightarrow> array_error + nat option" where
  "search_single_chk key c lower upper =
     (if upper < lower then Inr None
      else
        let mid = lower + (upper - lower) div 2
        in case key mid of
             Inl e \<Rightarrow> Inl e
           | Inr k \<Rightarrow>
               if c < k then search_single_chk key c lower (mid - 1)
               else if k < c then search_single_chk key c (mid + 1) upper
               else Inr (Some (nat mid)))"
  by pat_completeness auto
termination by (relation "measure (\<lambda>(key, c, lower, upper). nat (upper - lower + 1))") auto

declare search_single_chk.simps [simp del]

function search_range_chk :: "(int \<Rightarrow> array_error + int) \<Rightarrow> int \<Rightarrow> int \<Rightarrow> int \<Rightarrow> array_error + nat option" where
  "search_range_chk key c lower upper =
     (if upper < lower then Inr None
      else
        let mid = lower + 2 * ((upper - lower) div 2 div 2)
        in case key mid of
             Inl e \<Rightarrow> Inl e
           | Inr k \<Rightarrow>
               if c < k then search_range_chk key c lower (mid - 2)
               else case key (mid + 1) of
                      Inl e \<Rightarrow> Inl e
                    | Inr k1 \<Rightarrow> if k1 < c then search_range_chk key c (mid + 2) upper else Inr (Some (nat mid)))"
  by pat_completeness auto
termination by (relation "measure (\<lambda>(key, c, lower, upper). nat (upper - lower + 1))") auto

declare search_range_chk.simps [simp del]

definition widen_chk :: "ragel \<Rightarrow> bool \<Rightarrow> nat \<Rightarrow> int \<Rightarrow> array_error + int" where
  "widen_chk T cond cs c =
     bind_res (fetch (rg_cond_lengths T) (rg_states T) (int cs)) (\<lambda>klen.
     bind_res (fetch (rg_cond_offsets T) (rg_states T) (int cs)) (\<lambda>off.
       if 0 < klen then
         bind_res (search_range_chk (\<lambda>k. fetch (rg_cond_keys T) (rg_ncond_keys T) (int (off * 2) + k)) c 0 (int klen * 2 - 2)) (\<lambda>r.
           case r of
             None \<Rightarrow> Inr c
           | Some mid \<Rightarrow>
               bind_res (fetch (rg_cond_spaces T) (rg_ncond_spaces T) (int (off + mid div 2))) (\<lambda>sp.
                 Inr (if sp = 0 then 128 + (c - - 128) + (if cond then 256 else 0) else c)))
       else Inr c))"

definition find_trans_chk :: "ragel \<Rightarrow> nat \<Rightarrow> int \<Rightarrow> array_error + nat" where
  "find_trans_chk T cs c =
     bind_res (fetch (rg_key_offsets T) (rg_states T) (int cs)) (\<lambda>keys.
     bind_res (fetch (rg_index_offsets T) (rg_states T) (int cs)) (\<lambda>trans.
     bind_res (fetch (rg_single_lengths T) (rg_states T) (int cs)) (\<lambda>klen.
     bind_res (if 0 < klen
               then search_single_chk (\<lambda>k. fetch (rg_trans_keys T) (rg_nkeys T) (int keys + k)) c 0 (int klen - 1)
               else Inr None) (\<lambda>single.
       case single of
         Some mid \<Rightarrow> Inr (trans + mid)
       | None \<Rightarrow>
           bind_res (fetch (rg_range_lengths T) (rg_states T) (int cs)) (\<lambda>rlen.
           bind_res (if 0 < rlen
                     then search_range_chk (\<lambda>k. fetch (rg_trans_keys T) (rg_nkeys T) (int (keys + klen) + k)) c 0 (int rlen * 2 - 2)
                     else Inr None) (\<lambda>rng.
             case rng of
               Some mid \<Rightarrow> Inr (trans + klen + mid div 2)
             | None \<Rightarrow> Inr (trans + klen + rlen)))))))"

definition actions_at_chk :: "ragel \<Rightarrow> nat \<Rightarrow> array_error + nat list" where
  "actions_at_chk T a =
     (if a = 0 then Inr []
      else bind_res (fetch (rg_actions T) (rg_nacts T) (int a)) (fetch_slice (rg_actions T) (rg_nacts T) (a + 1)))"

definition step_chk :: "ragel \<Rightarrow> bool \<Rightarrow> nat \<Rightarrow> int \<Rightarrow> array_error + nat \<times> nat list" where
  "step_chk T cond cs c =
     bind_res (if rg_conds T then widen_chk T cond cs c else Inr c) (\<lambda>w.
     bind_res (find_trans_chk T cs w) (\<lambda>i.
     bind_res (fetch (rg_indicies T) (rg_ninds T) (int i)) (\<lambda>t.
     bind_res (fetch (rg_trans_targs T) (rg_ntrans T) (int t)) (\<lambda>cs1.
     bind_res (fetch (rg_trans_actions T) (rg_ntrans T) (int t)) (\<lambda>a.
     bind_res (actions_at_chk T a) (\<lambda>as. Inr (cs1, as)))))))"

text \<open>A run: a failed check, or what the run gives.\<close>

fun resume_chk ::
  "ragel \<Rightarrow> bool \<Rightarrow> ('e, 's) action \<Rightarrow> nat \<Rightarrow> nat \<Rightarrow> int list \<Rightarrow> 's \<Rightarrow> array_error + ('e + nat \<times> nat \<times> 's)" where
  "resume_chk T cond act cs p [] st = Inr (Inr (cs, p, st))"
| "resume_chk T cond act cs p (c # cs_in) st =
     (case step_chk T cond cs c of
        Inl e \<Rightarrow> Inl e
      | Inr (cs1, as) \<Rightarrow>
          (case run_actions act as p st of
             Inl e \<Rightarrow> Inr (Inl e)
           | Inr (out, st1) \<Rightarrow>
               if out then Inr (Inr (cs1, p + 1, st1))
               else if cs1 = 0 then Inr (Inr (cs1, p, st1))
               else resume_chk T cond act cs1 (p + 1) cs_in st1))"

definition run_chk :: "ragel \<Rightarrow> bool \<Rightarrow> ('e, 's) action \<Rightarrow> nat \<Rightarrow> int list \<Rightarrow> 's \<Rightarrow> array_error + ('e + nat \<times> nat \<times> 's)" where
  "run_chk T cond act cs inp st =
     (if inp = [] then Inr (Inr (cs, 0, st)) else if cs = 0 then Inr (Inr (cs, 0, st))
      else resume_chk T cond act cs 0 inp st)"

text \<open>The actions at the end of the text.\<close>

definition eof_chk :: "ragel \<Rightarrow> nat \<Rightarrow> array_error + nat list" where
  "eof_chk T cs = bind_res (fetch (rg_eof_actions T) (rg_states T) (int cs)) (actions_at_chk T)"

section \<open>No check fails\<close>

definition arrays_ok :: "ragel \<Rightarrow> bool" where
  "arrays_ok T \<longleftrightarrow> tables_ok T \<and> (rg_conds T \<longrightarrow> all_entries (cond_row_ok T) (\<lambda>cs. cs) (rg_states T))
     \<and> all_entries (acts_inside T) (rg_eof_actions T) (rg_states T)"

lemma search_single_chk_ok:
  "0 \<le> l \<Longrightarrow> (\<And>k. l \<le> int k \<Longrightarrow> int k \<le> u \<Longrightarrow> rd (int k) = Inr (key k)) \<Longrightarrow>
   search_single_chk rd c l u = Inr (search_single key c l u)"
proof (induction rd c l u rule: search_single_chk.induct)
  case (1 rd c l u)
  define m where "m = l + (u - l) div 2"
  show ?case
  proof (cases "u < l")
    case False
    then have m: "l \<le> m" "m \<le> u" "0 \<le> m" using "1.prems"(1) by (auto simp: m_def)
    then have k: "rd m = Inr (key (nat m))" using "1.prems"(2) [of "nat m"] by simp
    have lo: "search_single_chk rd c l (m - 1) = Inr (search_single key c l (m - 1))" if "c < key (nat m)"
      using "1.IH"(1) [OF False m_def k that] "1.prems" m by simp
    have hi: "search_single_chk rd c (m + 1) u = Inr (search_single key c (m + 1) u)" if "\<not> c < key (nat m)" "key (nat m) < c"
      using "1.IH"(2) [OF False m_def k that] "1.prems" m by simp
    show ?thesis
      using False k lo hi unfolding search_single_chk.simps [of rd c l u] search_single.simps [of key c l u] Let_def m_def [symmetric] by simp
  qed (simp add: search_single_chk.simps [of rd c l u] search_single.simps [of key c l u])
qed

lemma search_range_chk_ok:
  "0 \<le> l \<Longrightarrow> (\<And>k. l \<le> int k \<Longrightarrow> int k \<le> u + 1 \<Longrightarrow> rd (int k) = Inr (key k)) \<Longrightarrow>
   search_range_chk rd c l u = Inr (search_range key c l u)"
proof (induction rd c l u rule: search_range_chk.induct)
  case (1 rd c l u)
  define m where "m = l + 2 * ((u - l) div 2 div 2)"
  show ?case
  proof (cases "u < l")
    case False
    then have m: "l \<le> m" "m \<le> u" "0 \<le> m" using "1.prems"(1) by (auto simp: m_def)
    have k: "rd m = Inr (key (nat m))" "rd (m + 1) = Inr (key (nat (m + 1)))"
      using m "1.prems"(2) [of "nat m"] "1.prems"(2) [of "nat (m + 1)"] by simp_all
    have lo: "search_range_chk rd c l (m - 2) = Inr (search_range key c l (m - 2))" if "c < key (nat m)"
      using "1.IH"(1) [OF False m_def k(1) that] "1.prems" m by simp
    have hi: "search_range_chk rd c (m + 2) u = Inr (search_range key c (m + 2) u)" if "\<not> c < key (nat m)" "key (nat (m + 1)) < c"
      using "1.IH"(2) [OF False m_def k(1) that(1) k(2) that(2)] "1.prems" m by simp
    show ?thesis
      using False k lo hi unfolding search_range_chk.simps [of rd c l u] search_range.simps [of key c l u] Let_def m_def [symmetric] by simp
  qed (simp add: search_range_chk.simps [of rd c l u] search_range.simps [of key c l u])
qed

lemma fetch_add: "i + k < n \<Longrightarrow> fetch f n (int i + int k) = Inr (f (i + k))"
  using fetch_ok [of "i + k" n f] by simp

lemma widen_chk_ok:
  assumes "cond_row_ok T cs" "cs < rg_states T"
  shows "widen_chk T cond cs c = Inr (widen T cond cs c)"
proof -
  define l where "l = rg_cond_lengths T cs"
  define off where "off = rg_cond_offsets T cs"
  define key where "key = (\<lambda>k. rg_cond_keys T (off * 2 + k))"
  have b: "off * 2 + l * 2 \<le> rg_ncond_keys T" "off + l \<le> rg_ncond_spaces T" using assms(1) by (simp_all add: cond_row_ok_def l_def off_def)
  have s: "search_range_chk (\<lambda>k. fetch (rg_cond_keys T) (rg_ncond_keys T) (int (off * 2) + k)) c 0 (int l * 2 - 2)
      = Inr (search_range key c 0 (int l * 2 - 2))"
    by (rule search_range_chk_ok, simp) (unfold key_def, rule fetch_add, use b(1) in linarith)
  have i: "mid div 2 < l" if "search_range key c 0 (int l * 2 - 2) = Some mid" for mid
    using search_range_sound [OF that] by presburger
  show ?thesis
  proof (cases "0 < l")
    case True
    show ?thesis
    proof (cases "search_range key c 0 (int l * 2 - 2)")
      case None
      then show ?thesis using True assms(2) s unfolding widen_chk_def widen_def by (simp add: l_def off_def key_def)
    next
      case (Some mid)
      have f: "fetch (rg_cond_spaces T) (rg_ncond_spaces T) (int (off + mid div 2)) = Inr (rg_cond_spaces T (off + mid div 2))"
        using i [OF Some] b(2) by (intro fetch_ok) linarith
      show ?thesis using True Some assms(2) s f unfolding widen_chk_def widen_def by (simp add: l_def off_def key_def)
    qed
  qed (simp add: widen_chk_def widen_def l_def assms(2))
qed

lemma find_trans_chk_ok:
  assumes "row_ok T cs" "cs < rg_states T"
  shows "find_trans_chk T cs c = Inr (find_trans T cs c)"
proof -
  define ko where "ko = rg_key_offsets T cs"
  define n where "n = rg_single_lengths T cs"
  define r where "r = rg_range_lengths T cs"
  have b: "ko + n + 2 * r \<le> rg_nkeys T" using assms(1) by (simp add: row_ok_def ko_def n_def r_def)
  define single where "single = (if 0 < n then search_single (\<lambda>k. rg_trans_keys T (ko + k)) c 0 (int n - 1) else None)"
  define rng where "rng = (if 0 < r then search_range (\<lambda>k. rg_trans_keys T (ko + n + k)) c 0 (int r * 2 - 2) else None)"
  have "search_single_chk (\<lambda>k. fetch (rg_trans_keys T) (rg_nkeys T) (int ko + k)) c 0 (int n - 1)
      = Inr (search_single (\<lambda>k. rg_trans_keys T (ko + k)) c 0 (int n - 1))"
    by (rule search_single_chk_ok, simp, rule fetch_add, use b in linarith)
  then have s: "(if 0 < n then search_single_chk (\<lambda>k. fetch (rg_trans_keys T) (rg_nkeys T) (int ko + k)) c 0 (int n - 1) else Inr None)
      = Inr single" by (simp add: single_def)
  have "search_range_chk (\<lambda>k. fetch (rg_trans_keys T) (rg_nkeys T) (int (ko + n) + k)) c 0 (int r * 2 - 2)
      = Inr (search_range (\<lambda>k. rg_trans_keys T (ko + n + k)) c 0 (int r * 2 - 2))"
    by (rule search_range_chk_ok, simp, rule fetch_add, use b in linarith)
  then have t: "(if 0 < r then search_range_chk (\<lambda>k. fetch (rg_trans_keys T) (rg_nkeys T) (int (ko + n) + k)) c 0 (int r * 2 - 2) else Inr None)
      = Inr rng" by (simp add: rng_def del: of_nat_add)
  have "find_trans T cs c = (case single of Some mid \<Rightarrow> rg_index_offsets T cs + mid
      | None \<Rightarrow> (case rng of Some mid \<Rightarrow> rg_index_offsets T cs + n + mid div 2 | None \<Rightarrow> rg_index_offsets T cs + n + r))"
    unfolding find_trans_def Let_def single_def rng_def ko_def n_def r_def ..
  then show ?thesis
    unfolding find_trans_chk_def fetch_ok [OF assms(2)] bind_res_Inr ko_def [symmetric] n_def [symmetric] r_def [symmetric] s t
    by (simp split: option.splits)
qed

lemma actions_at_chk_ok: "acts_inside T a \<Longrightarrow> actions_at_chk T a = Inr (actions_at T a)"
  by (auto simp: acts_inside_def actions_at_chk_def actions_at_def fetch_slice_ok)

lemma step_chk_ok:
  assumes "arrays_ok T" "0 < cs" "cs < rg_states T"
  shows "step_chk T cond cs c = Inr (step T cond cs c)"
proof -
  have ok: "tables_ok T" using assms(1) by (simp add: arrays_ok_def)
  define w where "w = (if rg_conds T then widen T cond cs c else c)"
  define i where "i = find_trans T cs w"
  have "rg_conds T \<Longrightarrow> cond_row_ok T cs" using assms(1,3) by (auto simp: arrays_ok_def dest: all_entriesD)
  then have 1: "(if rg_conds T then widen_chk T cond cs c else Inr c) = Inr w" using assms(3) by (simp add: w_def widen_chk_ok)
  have 2: "find_trans_chk T cs w = Inr i" unfolding i_def by (rule find_trans_chk_ok [OF tables_ok_row [OF ok assms(2,3)] assms(3)])
  have 3: "i < rg_ninds T" "rg_indicies T i < rg_ntrans T" "acts_inside T (rg_trans_actions T (rg_indicies T i))"
    using step_inside(1,2,4) [OF ok assms(2,3), of cond c] by (simp_all add: i_def w_def)
  show ?thesis
    unfolding step_chk_def 1 bind_res_Inr 2
    using 3 by (simp add: actions_at_chk_ok step_def Let_def i_def w_def)
qed

lemma resume_chk_ok:
  "arrays_ok T \<Longrightarrow> 0 < cs \<Longrightarrow> cs < rg_states T \<Longrightarrow> resume_chk T cond act cs p inp st = Inr (resume T cond act cs p inp st)"
proof (induction inp arbitrary: cs p st)
  case (Cons c inp)
  have ok: "tables_ok T" using Cons.prems(1) by (simp add: arrays_ok_def)
  obtain cs1 as where s: "step T cond cs c = (cs1, as)" by (cases "step T cond cs c")
  have n: "cs1 < rg_states T" using step_inside(3) [OF ok Cons.prems(2,3), of cond c] s by simp
  show ?case using Cons.IH [OF Cons.prems(1) _ n] step_chk_ok [OF Cons.prems, of cond c] s by (auto split: sum.splits)
qed simp

lemma run_chk_ok: "arrays_ok T \<Longrightarrow> 0 < cs \<Longrightarrow> cs < rg_states T \<Longrightarrow> run_chk T cond act cs inp st = Inr (run T cond act cs inp st)"
  by (simp add: run_chk_def run_def resume_chk_ok)

lemma eof_chk_ok: "arrays_ok T \<Longrightarrow> cs < rg_states T \<Longrightarrow> eof_chk T cs = Inr (actions_at T (rg_eof_actions T cs))"
  using all_entriesD [of "acts_inside T" "rg_eof_actions T" "rg_states T" cs] by (simp add: arrays_ok_def eof_chk_def actions_at_chk_ok)

end
