(* ===== verification/Request_Tables.thy ===== *)
theory Request_Tables
  imports Ragel
begin

text \<open>
  The arrays of \<open>src/src/HTTP/httprequest_parser.cpp\<close>, as functions of the index. A long array is cut into
  pieces of 256 entries, each a list of lines of 16.
\<close>

definition req_actions :: "nat \<Rightarrow> nat" where
  "req_actions i = [[0, 1, 0, 1, 1, 1, 2, 1, 3, 1, 4, 1, 5, 1, 7, 1],
    [8, 1, 10, 1, 11, 1, 12, 2, 0, 7, 2, 0, 11, 2, 1, 12],
    [2, 3, 4, 2, 9, 6, 2, 11, 6, 2, 13, 12, 2, 14, 12, 3],
    [0, 11, 6, 3, 8, 9, 6]] ! (i div 16) ! (i mod 16)"

definition req_cond_offsets_0 :: "nat \<Rightarrow> nat \<Rightarrow> nat" where
  "req_cond_offsets_0 a b = [[0, 0, 0, 0, 3, 3, 3, 3, 3, 3, 3, 3, 3, 3, 3, 3],
    [3, 3, 3, 3, 6, 9, 12, 12, 12, 12, 12, 15, 15, 15, 18, 21],
    [21, 21, 24, 27, 30, 30, 30, 33, 36, 36, 36, 39, 42, 42, 42, 42],
    [42, 42, 42, 42, 42, 42, 42, 42, 42, 42, 42, 42, 42, 42, 42, 42],
    [42, 42, 42, 42, 42, 42, 42, 42, 42, 42, 42, 42, 42, 42, 42, 42],
    [42, 42, 42, 42, 42, 42, 42, 42, 42, 42, 42, 42, 42, 42, 42, 42],
    [42, 42, 42, 42, 42, 42, 42, 42, 42, 42, 42, 42, 42, 42, 42, 42],
    [42, 42, 42, 42, 42, 42, 42, 42, 42, 42, 42, 42, 42, 42, 42, 42],
    [42, 42, 42, 42, 42, 42, 42, 42, 42, 42, 42, 42, 42, 42, 42, 42],
    [42, 42, 42, 42, 42, 42, 42, 42, 42, 42, 42, 42, 42, 42, 42, 42],
    [42, 42, 42, 42, 42, 42, 42, 42, 42, 42, 42, 42, 45, 48, 51, 54],
    [54, 54, 54, 54, 54, 54, 54, 54, 54, 54, 54, 54, 54, 54, 54, 54],
    [54, 54, 54, 54, 54, 54, 54, 57, 57, 57, 57, 60, 60, 60, 63, 63],
    [63, 66, 69, 72, 72, 72, 75, 78, 78, 78, 81, 84, 84, 84, 84, 84],
    [84, 84, 84, 84, 84, 84, 84, 84, 84, 84, 84, 84, 84, 84, 84, 84],
    [84, 84, 84, 84, 84, 84, 84, 84, 84, 84, 84, 84, 84, 84, 84, 84]] ! a ! b"

definition req_cond_offsets_1 :: "nat \<Rightarrow> nat \<Rightarrow> nat" where
  "req_cond_offsets_1 a b = [[84, 84, 84, 84, 84, 84, 84, 84, 84, 84, 84, 84, 84, 84, 84, 84],
    [84, 84, 84, 84, 84, 84, 84, 84, 84, 84, 84, 84, 84, 84, 84, 84],
    [84, 84, 84, 84, 84, 84, 84, 84, 84, 84, 84, 84, 84, 84, 84, 84],
    [84, 84, 84, 84, 84, 84, 84, 84, 84, 84, 84, 84, 84, 84, 84, 84],
    [84, 84, 84, 84, 84, 84, 84, 84, 84, 84, 84, 84, 84, 84, 84, 84],
    [84, 84, 84, 84, 84, 84, 84, 84, 84, 84, 84, 87, 90, 90]] ! a ! b"

definition req_cond_offsets :: "nat \<Rightarrow> nat" where
  "req_cond_offsets i = ([req_cond_offsets_0, req_cond_offsets_1] ! (i div 16 div 16)) (i div 16 mod 16) (i mod 16)"

definition req_cond_lengths_0 :: "nat \<Rightarrow> nat \<Rightarrow> nat" where
  "req_cond_lengths_0 a b = [[0, 0, 0, 3, 0, 0, 0, 0, 0, 0, 0, 0, 0, 0, 0, 0],
    [0, 0, 0, 3, 3, 3, 0, 0, 0, 0, 3, 0, 0, 3, 3, 0],
    [0, 3, 3, 3, 0, 0, 3, 3, 0, 0, 3, 3, 0, 0, 0, 0],
    [0, 0, 0, 0, 0, 0, 0, 0, 0, 0, 0, 0, 0, 0, 0, 0],
    [0, 0, 0, 0, 0, 0, 0, 0, 0, 0, 0, 0, 0, 0, 0, 0],
    [0, 0, 0, 0, 0, 0, 0, 0, 0, 0, 0, 0, 0, 0, 0, 0],
    [0, 0, 0, 0, 0, 0, 0, 0, 0, 0, 0, 0, 0, 0, 0, 0],
    [0, 0, 0, 0, 0, 0, 0, 0, 0, 0, 0, 0, 0, 0, 0, 0],
    [0, 0, 0, 0, 0, 0, 0, 0, 0, 0, 0, 0, 0, 0, 0, 0],
    [0, 0, 0, 0, 0, 0, 0, 0, 0, 0, 0, 0, 0, 0, 0, 0],
    [0, 0, 0, 0, 0, 0, 0, 0, 0, 0, 0, 3, 3, 3, 3, 0],
    [0, 0, 0, 0, 0, 0, 0, 0, 0, 0, 0, 0, 0, 0, 0, 0],
    [0, 0, 0, 0, 0, 0, 3, 0, 0, 0, 3, 0, 0, 3, 0, 0],
    [3, 3, 3, 0, 0, 3, 3, 0, 0, 3, 3, 0, 0, 0, 0, 0],
    [0, 0, 0, 0, 0, 0, 0, 0, 0, 0, 0, 0, 0, 0, 0, 0],
    [0, 0, 0, 0, 0, 0, 0, 0, 0, 0, 0, 0, 0, 0, 0, 0]] ! a ! b"

definition req_cond_lengths_1 :: "nat \<Rightarrow> nat \<Rightarrow> nat" where
  "req_cond_lengths_1 a b = [[0, 0, 0, 0, 0, 0, 0, 0, 0, 0, 0, 0, 0, 0, 0, 0],
    [0, 0, 0, 0, 0, 0, 0, 0, 0, 0, 0, 0, 0, 0, 0, 0],
    [0, 0, 0, 0, 0, 0, 0, 0, 0, 0, 0, 0, 0, 0, 0, 0],
    [0, 0, 0, 0, 0, 0, 0, 0, 0, 0, 0, 0, 0, 0, 0, 0],
    [0, 0, 0, 0, 0, 0, 0, 0, 0, 0, 0, 0, 0, 0, 0, 0],
    [0, 0, 0, 0, 0, 0, 0, 0, 0, 0, 3, 3, 0, 0]] ! a ! b"

definition req_cond_lengths :: "nat \<Rightarrow> nat" where
  "req_cond_lengths i = ([req_cond_lengths_0, req_cond_lengths_1] ! (i div 16 div 16)) (i div 16 mod 16) (i mod 16)"

definition req_cond_keys :: "nat \<Rightarrow> int" where
  "req_cond_keys i = [[94, 94, 123, 123, 125, 125, 94, 94, 123, 123, 125, 125, 94, 94, 123, 123],
    [125, 125, 94, 94, 123, 123, 125, 125, 94, 94, 123, 123, 125, 125, 94, 94],
    [123, 123, 125, 125, 94, 94, 123, 123, 125, 125, 94, 94, 123, 123, 125, 125],
    [94, 94, 123, 123, 125, 125, 94, 94, 123, 123, 125, 125, 94, 94, 123, 123],
    [125, 125, 94, 94, 123, 123, 125, 125, 94, 94, 123, 123, 125, 125, 94, 94],
    [123, 123, 125, 125, 94, 94, 123, 123, 125, 125, 94, 94, 123, 123, 125, 125],
    [94, 94, 123, 123, 125, 125, 94, 94, 123, 123, 125, 125, 94, 94, 123, 123],
    [125, 125, 94, 94, 123, 123, 125, 125, 94, 94, 123, 123, 125, 125, 94, 94],
    [123, 123, 125, 125, 94, 94, 123, 123, 125, 125, 94, 94, 123, 123, 125, 125],
    [94, 94, 123, 123, 125, 125, 94, 94, 123, 123, 125, 125, 94, 94, 123, 123],
    [125, 125, 94, 94, 123, 123, 125, 125, 94, 94, 123, 123, 125, 125, 94, 94],
    [123, 123, 125, 125, 0]] ! (i div 16) ! (i mod 16)"

definition req_cond_spaces :: "nat \<Rightarrow> nat" where
  "req_cond_spaces i = [[0, 0, 0, 0, 0, 0, 0, 0, 0, 0, 0, 0, 0, 0, 0, 0],
    [0, 0, 0, 0, 0, 0, 0, 0, 0, 0, 0, 0, 0, 0, 0, 0],
    [0, 0, 0, 0, 0, 0, 0, 0, 0, 0, 0, 0, 0, 0, 0, 0],
    [0, 0, 0, 0, 0, 0, 0, 0, 0, 0, 0, 0, 0, 0, 0, 0],
    [0, 0, 0, 0, 0, 0, 0, 0, 0, 0, 0, 0, 0, 0, 0, 0],
    [0, 0, 0, 0, 0, 0, 0, 0, 0, 0, 0]] ! (i div 16) ! (i mod 16)"

definition req_key_offsets_0 :: "nat \<Rightarrow> nat \<Rightarrow> nat" where
  "req_key_offsets_0 a b = [[0, 0, 6, 11, 31, 32, 33, 34, 35, 36, 37, 38, 40, 42, 63, 83],
    [89, 93, 94, 115, 134, 151, 168, 174, 180, 186, 192, 211, 217, 223, 241, 259],
    [265, 271, 291, 312, 332, 338, 344, 367, 384, 390, 396, 416, 435, 441, 447, 453],
    [462, 468, 475, 482, 489, 490, 498, 506, 510, 511, 515, 516, 520, 521, 526, 529],
    [532, 535, 537, 538, 541, 544, 547, 549, 550, 553, 556, 559, 561, 562, 569, 576],
    [577, 583, 590, 597, 604, 612, 620, 628, 638, 645, 653, 660, 667, 674, 681, 682],
    [689, 696, 703, 710, 711, 718, 725, 732, 739, 740, 747, 754, 761, 768, 769, 776],
    [783, 790, 797, 798, 805, 812, 819, 826, 827, 834, 841, 848, 855, 856, 863, 874],
    [883, 891, 899, 901, 909, 918, 926, 934, 936, 945, 954, 963, 974, 982, 991, 999],
    [1008, 1017, 1026, 1037, 1045, 1054, 1062, 1072, 1082, 1090, 1097, 1104, 1105, 1113, 1121, 1129],
    [1139, 1146, 1154, 1161, 1169, 1171, 1172, 1173, 1174, 1185, 1191, 1198, 1214, 1231, 1255, 1275],
    [1280, 1285, 1290, 1295, 1300, 1305, 1310, 1315, 1320, 1325, 1330, 1335, 1340, 1345, 1350, 1355],
    [1360, 1365, 1366, 1374, 1385, 1386, 1388, 1405, 1406, 1407, 1409, 1426, 1432, 1438, 1455, 1461],
    [1467, 1485, 1504, 1522, 1528, 1534, 1555, 1572, 1578, 1584, 1602, 1619, 1625, 1631, 1635, 1644],
    [1650, 1657, 1664, 1671, 1672, 1680, 1688, 1692, 1693, 1697, 1698, 1702, 1703, 1706, 1709, 1712],
    [1715, 1717, 1718, 1721, 1724, 1727, 1729, 1730, 1733, 1736, 1739, 1741, 1742, 1749, 1756, 1757]] ! a ! b"

definition req_key_offsets_1 :: "nat \<Rightarrow> nat \<Rightarrow> nat" where
  "req_key_offsets_1 a b = [[1763, 1770, 1777, 1784, 1792, 1800, 1808, 1818, 1825, 1833, 1840, 1847, 1854, 1861, 1862, 1869],
    [1876, 1883, 1890, 1891, 1898, 1905, 1912, 1919, 1920, 1927, 1934, 1941, 1948, 1949, 1956, 1963],
    [1970, 1977, 1978, 1985, 1992, 1999, 2006, 2007, 2014, 2021, 2028, 2035, 2036, 2043, 2054, 2063],
    [2071, 2079, 2081, 2089, 2098, 2106, 2114, 2116, 2125, 2134, 2143, 2154, 2162, 2171, 2179, 2188],
    [2197, 2206, 2217, 2225, 2234, 2242, 2252, 2262, 2270, 2277, 2284, 2285, 2293, 2301, 2309, 2319],
    [2326, 2334, 2341, 2349, 2351, 2352, 2353, 2354, 2365, 2371, 2378, 2394, 2411, 2431]] ! a ! b"

definition req_key_offsets :: "nat \<Rightarrow> nat" where
  "req_key_offsets i = ([req_key_offsets_0, req_key_offsets_1] ! (i div 16 div 16)) (i div 16 mod 16) (i mod 16)"

definition req_trans_keys_0 :: "nat \<Rightarrow> nat \<Rightarrow> int" where
  "req_trans_keys_0 a b = [[60, 64, 48, 57, 65, 90, 32, 48, 57, 65, 90, 32, 33, 35, 37, 47],
    [59, 61, 63, 64, 95, 126, 606, 635, 637, 36, 57, 65, 90, 97, 122, 72],
    [84, 84, 80, 47, 49, 46, 48, 49, 10, 13, 10, 13, 33, 124, 126, 1],
    [8, 11, 31, 35, 39, 42, 43, 45, 46, 48, 57, 65, 90, 94, 122, 33],
    [58, 124, 126, 1, 8, 10, 31, 35, 39, 42, 43, 45, 46, 48, 57, 65],
    [90, 94, 122, 0, 9, 10, 13, 32, 127, 0, 10, 13, 127, 10, 10, 33],
    [58, 124, 126, 1, 8, 11, 31, 35, 39, 42, 43, 45, 46, 48, 57, 65],
    [90, 94, 122, 32, 33, 35, 37, 47, 59, 61, 63, 95, 126, 606, 635, 637],
    [36, 57, 64, 90, 97, 122, 32, 33, 37, 61, 95, 126, 606, 635, 637, - 128],
    [- 1, 36, 59, 63, 90, 97, 122, 32, 33, 37, 61, 95, 126, 606, 635, 637],
    [- 128, - 1, 36, 59, 63, 90, 97, 122, 48, 57, 65, 70, 97, 102, 48, 57],
    [65, 70, 97, 102, 48, 57, 65, 70, 97, 102, 48, 57, 65, 70, 97, 102],
    [32, 33, 35, 37, 61, 63, 95, 126, 606, 635, 637, - 128, - 1, 36, 59, 64],
    [90, 97, 122, 48, 57, 65, 70, 97, 102, 48, 57, 65, 70, 97, 102, 32],
    [33, 35, 37, 61, 95, 126, 606, 635, 637, - 128, - 1, 36, 59, 63, 90, 97],
    [122, 32, 33, 35, 37, 61, 95, 126, 606, 635, 637, - 128, - 1, 36, 59, 63]] ! a ! b"

definition req_trans_keys_1 :: "nat \<Rightarrow> nat \<Rightarrow> int" where
  "req_trans_keys_1 a b = [[90, 97, 122, 48, 57, 65, 70, 97, 102, 48, 57, 65, 70, 97, 102, 32],
    [33, 35, 37, 47, 61, 63, 95, 126, 606, 635, 637, - 128, - 1, 36, 59, 64],
    [90, 97, 122, 32, 33, 35, 37, 47, 58, 61, 63, 64, 91, 95, 126, 606],
    [635, 637, 36, 59, 65, 90, 97, 122, 32, 33, 35, 37, 47, 58, 61, 63],
    [64, 95, 126, 606, 635, 637, 36, 59, 65, 90, 97, 122, 48, 57, 65, 70],
    [97, 102, 48, 57, 65, 70, 97, 102, 32, 33, 35, 37, 47, 61, 63, 64],
    [95, 126, 606, 635, 637, 36, 46, 48, 57, 58, 59, 65, 90, 97, 122, 33],
    [37, 61, 64, 95, 126, 606, 635, 637, 36, 46, 48, 59, 65, 90, 97, 122],
    [48, 57, 65, 70, 97, 102, 48, 57, 65, 70, 97, 102, 32, 33, 35, 37],
    [47, 58, 61, 63, 91, 95, 126, 606, 635, 637, 36, 59, 65, 90, 97, 122],
    [32, 33, 35, 37, 47, 58, 61, 63, 95, 126, 606, 635, 637, 36, 59, 65],
    [90, 97, 122, 48, 57, 65, 70, 97, 102, 48, 57, 65, 70, 97, 102, 32],
    [35, 47, 63, 48, 57, 6, 58, 118, 48, 57, 65, 70, 97, 102, 48, 57],
    [65, 70, 97, 102, 58, 48, 57, 65, 70, 97, 102, 58, 48, 57, 65, 70],
    [97, 102, 58, 48, 57, 65, 70, 97, 102, 58, 49, 50, 48, 57, 65, 70],
    [97, 102, 46, 58, 48, 57, 65, 70, 97, 102, 49, 50, 48, 57, 46, 49]] ! a ! b"

definition req_trans_keys_2 :: "nat \<Rightarrow> nat \<Rightarrow> int" where
  "req_trans_keys_2 a b = [[50, 48, 57, 46, 49, 50, 48, 57, 93, 32, 35, 47, 58, 63, 93, 48],
    [57, 93, 48, 57, 48, 53, 93, 48, 57, 48, 46, 48, 57, 46, 48, 57],
    [46, 48, 53, 48, 57, 48, 46, 48, 57, 46, 48, 57, 46, 48, 53, 48],
    [57, 48, 58, 48, 57, 65, 70, 97, 102, 58, 48, 57, 65, 70, 97, 102],
    [58, 48, 57, 65, 70, 97, 102, 93, 48, 57, 65, 70, 97, 102, 93, 48],
    [57, 65, 70, 97, 102, 93, 48, 57, 65, 70, 97, 102, 46, 58, 48, 57],
    [65, 70, 97, 102, 46, 58, 48, 57, 65, 70, 97, 102, 46, 58, 48, 57],
    [65, 70, 97, 102, 46, 48, 53, 58, 49, 57, 65, 70, 97, 102, 58, 48],
    [57, 65, 70, 97, 102, 48, 58, 49, 57, 65, 70, 97, 102, 58, 48, 57],
    [65, 70, 97, 102, 58, 48, 57, 65, 70, 97, 102, 58, 48, 57, 65, 70],
    [97, 102, 58, 48, 57, 65, 70, 97, 102, 58, 58, 48, 57, 65, 70, 97],
    [102, 58, 48, 57, 65, 70, 97, 102, 58, 48, 57, 65, 70, 97, 102, 58],
    [48, 57, 65, 70, 97, 102, 58, 58, 48, 57, 65, 70, 97, 102, 58, 48],
    [57, 65, 70, 97, 102, 58, 48, 57, 65, 70, 97, 102, 58, 48, 57, 65],
    [70, 97, 102, 58, 58, 48, 57, 65, 70, 97, 102, 58, 48, 57, 65, 70],
    [97, 102, 58, 48, 57, 65, 70, 97, 102, 58, 48, 57, 65, 70, 97, 102]] ! a ! b"

definition req_trans_keys_3 :: "nat \<Rightarrow> nat \<Rightarrow> int" where
  "req_trans_keys_3 a b = [[58, 58, 48, 57, 65, 70, 97, 102, 58, 48, 57, 65, 70, 97, 102, 58],
    [48, 57, 65, 70, 97, 102, 58, 48, 57, 65, 70, 97, 102, 58, 58, 48],
    [57, 65, 70, 97, 102, 58, 48, 57, 65, 70, 97, 102, 58, 48, 57, 65],
    [70, 97, 102, 58, 48, 57, 65, 70, 97, 102, 58, 58, 48, 57, 65, 70],
    [97, 102, 58, 48, 57, 65, 70, 97, 102, 58, 48, 57, 65, 70, 97, 102],
    [58, 48, 57, 65, 70, 97, 102, 58, 58, 48, 57, 65, 70, 97, 102, 49],
    [50, 93, 2, 3, 48, 57, 65, 70, 97, 102, 46, 58, 93, 48, 57, 65],
    [70, 97, 102, 58, 93, 48, 57, 65, 70, 97, 102, 58, 93, 48, 57, 65],
    [70, 97, 102, 58, 93, 49, 50, 48, 57, 65, 70, 97, 102, 46, 58, 93],
    [48, 57, 65, 70, 97, 102, 58, 93, 48, 57, 65, 70, 97, 102, 58, 93],
    [48, 57, 65, 70, 97, 102, 58, 93, 46, 58, 93, 48, 57, 65, 70, 97],
    [102, 46, 58, 93, 48, 57, 65, 70, 97, 102, 46, 58, 93, 48, 57, 65],
    [70, 97, 102, 46, 48, 53, 58, 93, 49, 57, 65, 70, 97, 102, 58, 93],
    [48, 57, 65, 70, 97, 102, 48, 58, 93, 49, 57, 65, 70, 97, 102, 58],
    [93, 48, 57, 65, 70, 97, 102, 46, 58, 93, 48, 57, 65, 70, 97, 102],
    [46, 58, 93, 48, 57, 65, 70, 97, 102, 46, 58, 93, 48, 57, 65, 70]] ! a ! b"

definition req_trans_keys_4 :: "nat \<Rightarrow> nat \<Rightarrow> int" where
  "req_trans_keys_4 a b = [[97, 102, 46, 48, 53, 58, 93, 49, 57, 65, 70, 97, 102, 58, 93, 48],
    [57, 65, 70, 97, 102, 48, 58, 93, 49, 57, 65, 70, 97, 102, 58, 93],
    [48, 57, 65, 70, 97, 102, 49, 50, 2, 3, 48, 57, 65, 70, 97, 102],
    [49, 50, 2, 3, 48, 57, 65, 70, 97, 102, 46, 58, 48, 57, 65, 70],
    [97, 102, 58, 48, 57, 65, 70, 97, 102, 58, 48, 57, 65, 70, 97, 102],
    [58, 46, 58, 48, 57, 65, 70, 97, 102, 46, 58, 48, 57, 65, 70, 97],
    [102, 46, 58, 48, 57, 65, 70, 97, 102, 46, 48, 53, 58, 49, 57, 65],
    [70, 97, 102, 58, 48, 57, 65, 70, 97, 102, 48, 58, 49, 57, 65, 70],
    [97, 102, 58, 48, 57, 65, 70, 97, 102, 2, 3, 48, 57, 65, 70, 97],
    [102, 2, 3, 3, 4, 58, 49, 50, 93, 2, 5, 48, 57, 65, 70, 97],
    [102, 48, 57, 65, 70, 97, 102, 46, 48, 57, 65, 70, 97, 102, 33, 36],
    [61, 95, 126, 606, 635, 637, 38, 46, 48, 59, 65, 90, 97, 122, 33, 36],
    [61, 93, 95, 126, 606, 635, 637, 38, 46, 48, 59, 65, 90, 97, 122, 32],
    [33, 35, 37, 43, 47, 58, 59, 61, 63, 64, 95, 126, 606, 635, 637, 36],
    [44, 45, 57, 65, 90, 97, 122, 32, 33, 35, 37, 47, 61, 63, 95, 126],
    [606, 635, 637, - 128, - 1, 36, 59, 64, 90, 97, 122, 32, 48, 57, 65, 90]] ! a ! b"

definition req_trans_keys_5 :: "nat \<Rightarrow> nat \<Rightarrow> int" where
  "req_trans_keys_5 a b = [[32, 48, 57, 65, 90, 32, 48, 57, 65, 90, 32, 48, 57, 65, 90, 32],
    [48, 57, 65, 90, 32, 48, 57, 65, 90, 32, 48, 57, 65, 90, 32, 48],
    [57, 65, 90, 32, 48, 57, 65, 90, 32, 48, 57, 65, 90, 32, 48, 57],
    [65, 90, 32, 48, 57, 65, 90, 32, 48, 57, 65, 90, 32, 48, 57, 65],
    [90, 32, 48, 57, 65, 90, 32, 48, 57, 65, 90, 32, 48, 57, 65, 90],
    [32, 48, 57, 65, 90, 32, 45, 46, 48, 57, 65, 90, 97, 122, 32, 47],
    [62, 9, 13, 45, 57, 65, 90, 97, 122, 62, 0, 62, 32, 33, 37, 47],
    [59, 61, 95, 126, 606, 635, 637, 36, 57, 64, 90, 97, 122, 123, 125, 0],
    [125, 32, 33, 37, 47, 59, 61, 95, 126, 606, 635, 637, 36, 57, 64, 90],
    [97, 122, 48, 57, 65, 70, 97, 102, 48, 57, 65, 70, 97, 102, 32, 33],
    [37, 61, 95, 126, 606, 635, 637, - 128, - 1, 36, 59, 64, 90, 97, 122, 48],
    [57, 65, 70, 97, 102, 48, 57, 65, 70, 97, 102, 32, 33, 37, 47, 61],
    [95, 126, 606, 635, 637, - 128, - 1, 36, 59, 64, 90, 97, 122, 32, 33, 37],
    [47, 58, 61, 64, 91, 95, 126, 606, 635, 637, 36, 59, 65, 90, 97, 122],
    [32, 33, 37, 47, 58, 61, 64, 95, 126, 606, 635, 637, 36, 59, 65, 90],
    [97, 122, 48, 57, 65, 70, 97, 102, 48, 57, 65, 70, 97, 102, 32, 33]] ! a ! b"

definition req_trans_keys_6 :: "nat \<Rightarrow> nat \<Rightarrow> int" where
  "req_trans_keys_6 a b = [[37, 47, 61, 64, 95, 126, 606, 635, 637, 36, 46, 48, 57, 58, 59, 65],
    [90, 97, 122, 33, 37, 61, 64, 95, 126, 606, 635, 637, 36, 46, 48, 59],
    [65, 90, 97, 122, 48, 57, 65, 70, 97, 102, 48, 57, 65, 70, 97, 102],
    [32, 33, 37, 47, 58, 61, 91, 95, 126, 606, 635, 637, 36, 59, 65, 90],
    [97, 122, 32, 33, 37, 47, 58, 61, 95, 126, 606, 635, 637, 36, 59, 65],
    [90, 97, 122, 48, 57, 65, 70, 97, 102, 48, 57, 65, 70, 97, 102, 32],
    [47, 48, 57, 6, 58, 118, 48, 57, 65, 70, 97, 102, 48, 57, 65, 70],
    [97, 102, 58, 48, 57, 65, 70, 97, 102, 58, 48, 57, 65, 70, 97, 102],
    [58, 48, 57, 65, 70, 97, 102, 58, 49, 50, 48, 57, 65, 70, 97, 102],
    [46, 58, 48, 57, 65, 70, 97, 102, 49, 50, 48, 57, 46, 49, 50, 48],
    [57, 46, 49, 50, 48, 57, 93, 32, 47, 58, 93, 48, 57, 93, 48, 57],
    [48, 53, 93, 48, 57, 48, 46, 48, 57, 46, 48, 57, 46, 48, 53, 48],
    [57, 48, 46, 48, 57, 46, 48, 57, 46, 48, 53, 48, 57, 48, 58, 48],
    [57, 65, 70, 97, 102, 58, 48, 57, 65, 70, 97, 102, 58, 48, 57, 65],
    [70, 97, 102, 93, 48, 57, 65, 70, 97, 102, 93, 48, 57, 65, 70, 97],
    [102, 93, 48, 57, 65, 70, 97, 102, 46, 58, 48, 57, 65, 70, 97, 102]] ! a ! b"

definition req_trans_keys_7 :: "nat \<Rightarrow> nat \<Rightarrow> int" where
  "req_trans_keys_7 a b = [[46, 58, 48, 57, 65, 70, 97, 102, 46, 58, 48, 57, 65, 70, 97, 102],
    [46, 48, 53, 58, 49, 57, 65, 70, 97, 102, 58, 48, 57, 65, 70, 97],
    [102, 48, 58, 49, 57, 65, 70, 97, 102, 58, 48, 57, 65, 70, 97, 102],
    [58, 48, 57, 65, 70, 97, 102, 58, 48, 57, 65, 70, 97, 102, 58, 48],
    [57, 65, 70, 97, 102, 58, 58, 48, 57, 65, 70, 97, 102, 58, 48, 57],
    [65, 70, 97, 102, 58, 48, 57, 65, 70, 97, 102, 58, 48, 57, 65, 70],
    [97, 102, 58, 58, 48, 57, 65, 70, 97, 102, 58, 48, 57, 65, 70, 97],
    [102, 58, 48, 57, 65, 70, 97, 102, 58, 48, 57, 65, 70, 97, 102, 58],
    [58, 48, 57, 65, 70, 97, 102, 58, 48, 57, 65, 70, 97, 102, 58, 48],
    [57, 65, 70, 97, 102, 58, 48, 57, 65, 70, 97, 102, 58, 58, 48, 57],
    [65, 70, 97, 102, 58, 48, 57, 65, 70, 97, 102, 58, 48, 57, 65, 70],
    [97, 102, 58, 48, 57, 65, 70, 97, 102, 58, 58, 48, 57, 65, 70, 97],
    [102, 58, 48, 57, 65, 70, 97, 102, 58, 48, 57, 65, 70, 97, 102, 58],
    [48, 57, 65, 70, 97, 102, 58, 58, 48, 57, 65, 70, 97, 102, 58, 48],
    [57, 65, 70, 97, 102, 58, 48, 57, 65, 70, 97, 102, 58, 48, 57, 65],
    [70, 97, 102, 58, 58, 48, 57, 65, 70, 97, 102, 49, 50, 93, 2, 3]] ! a ! b"

definition req_trans_keys_8 :: "nat \<Rightarrow> nat \<Rightarrow> int" where
  "req_trans_keys_8 a b = [[48, 57, 65, 70, 97, 102, 46, 58, 93, 48, 57, 65, 70, 97, 102, 58],
    [93, 48, 57, 65, 70, 97, 102, 58, 93, 48, 57, 65, 70, 97, 102, 58],
    [93, 49, 50, 48, 57, 65, 70, 97, 102, 46, 58, 93, 48, 57, 65, 70],
    [97, 102, 58, 93, 48, 57, 65, 70, 97, 102, 58, 93, 48, 57, 65, 70],
    [97, 102, 58, 93, 46, 58, 93, 48, 57, 65, 70, 97, 102, 46, 58, 93],
    [48, 57, 65, 70, 97, 102, 46, 58, 93, 48, 57, 65, 70, 97, 102, 46],
    [48, 53, 58, 93, 49, 57, 65, 70, 97, 102, 58, 93, 48, 57, 65, 70],
    [97, 102, 48, 58, 93, 49, 57, 65, 70, 97, 102, 58, 93, 48, 57, 65],
    [70, 97, 102, 46, 58, 93, 48, 57, 65, 70, 97, 102, 46, 58, 93, 48],
    [57, 65, 70, 97, 102, 46, 58, 93, 48, 57, 65, 70, 97, 102, 46, 48],
    [53, 58, 93, 49, 57, 65, 70, 97, 102, 58, 93, 48, 57, 65, 70, 97],
    [102, 48, 58, 93, 49, 57, 65, 70, 97, 102, 58, 93, 48, 57, 65, 70],
    [97, 102, 49, 50, 2, 3, 48, 57, 65, 70, 97, 102, 49, 50, 2, 3],
    [48, 57, 65, 70, 97, 102, 46, 58, 48, 57, 65, 70, 97, 102, 58, 48],
    [57, 65, 70, 97, 102, 58, 48, 57, 65, 70, 97, 102, 58, 46, 58, 48],
    [57, 65, 70, 97, 102, 46, 58, 48, 57, 65, 70, 97, 102, 46, 58, 48]] ! a ! b"

definition req_trans_keys_9 :: "nat \<Rightarrow> nat \<Rightarrow> int" where
  "req_trans_keys_9 a b = [[57, 65, 70, 97, 102, 46, 48, 53, 58, 49, 57, 65, 70, 97, 102, 58],
    [48, 57, 65, 70, 97, 102, 48, 58, 49, 57, 65, 70, 97, 102, 58, 48],
    [57, 65, 70, 97, 102, 2, 3, 48, 57, 65, 70, 97, 102, 2, 3, 3],
    [4, 58, 49, 50, 93, 2, 5, 48, 57, 65, 70, 97, 102, 48, 57, 65],
    [70, 97, 102, 46, 48, 57, 65, 70, 97, 102, 33, 36, 61, 95, 126, 606],
    [635, 637, 38, 46, 48, 59, 65, 90, 97, 122, 33, 36, 61, 93, 95, 126],
    [606, 635, 637, 38, 46, 48, 59, 65, 90, 97, 122, 33, 58, 124, 126, 1],
    [8, 10, 31, 35, 39, 42, 43, 45, 46, 48, 57, 65, 90, 94, 122, 0]] ! a ! b"

definition req_trans_keys :: "nat \<Rightarrow> int" where
  "req_trans_keys i = ([req_trans_keys_0, req_trans_keys_1, req_trans_keys_2, req_trans_keys_3,
    req_trans_keys_4, req_trans_keys_5, req_trans_keys_6, req_trans_keys_7,
    req_trans_keys_8, req_trans_keys_9] ! (i div 16 div 16)) (i div 16 mod 16) (i mod 16)"

definition req_single_lengths_0 :: "nat \<Rightarrow> nat \<Rightarrow> nat" where
  "req_single_lengths_0 a b = [[0, 2, 1, 14, 1, 1, 1, 1, 1, 1, 1, 0, 2, 5, 4, 6],
    [4, 1, 5, 13, 9, 9, 0, 0, 0, 0, 11, 0, 0, 10, 10, 0],
    [0, 12, 15, 14, 0, 0, 13, 9, 0, 0, 14, 13, 0, 0, 4, 3],
    [0, 1, 1, 1, 1, 2, 2, 2, 1, 2, 1, 2, 1, 5, 1, 1],
    [3, 0, 1, 1, 1, 3, 0, 1, 1, 1, 3, 0, 1, 1, 1, 1],
    [0, 1, 1, 1, 2, 2, 2, 4, 1, 2, 1, 1, 1, 1, 1, 1],
    [1, 1, 1, 1, 1, 1, 1, 1, 1, 1, 1, 1, 1, 1, 1, 1],
    [1, 1, 1, 1, 1, 1, 1, 1, 1, 1, 1, 1, 1, 1, 3, 3],
    [2, 2, 2, 2, 3, 2, 2, 2, 3, 3, 3, 5, 2, 3, 2, 3],
    [3, 3, 5, 2, 3, 2, 2, 2, 2, 1, 1, 1, 2, 2, 2, 4],
    [1, 2, 1, 0, 0, 1, 1, 1, 3, 0, 1, 8, 9, 16, 12, 1],
    [1, 1, 1, 1, 1, 1, 1, 1, 1, 1, 1, 1, 1, 1, 1, 1],
    [1, 1, 0, 3, 1, 2, 11, 1, 1, 2, 11, 0, 0, 9, 0, 0],
    [10, 13, 12, 0, 0, 11, 9, 0, 0, 12, 11, 0, 0, 2, 3, 0],
    [1, 1, 1, 1, 2, 2, 2, 1, 2, 1, 2, 1, 3, 1, 1, 3],
    [0, 1, 1, 1, 3, 0, 1, 1, 1, 3, 0, 1, 1, 1, 1, 0]] ! a ! b"

definition req_single_lengths_1 :: "nat \<Rightarrow> nat \<Rightarrow> nat" where
  "req_single_lengths_1 a b = [[1, 1, 1, 2, 2, 2, 4, 1, 2, 1, 1, 1, 1, 1, 1, 1],
    [1, 1, 1, 1, 1, 1, 1, 1, 1, 1, 1, 1, 1, 1, 1, 1],
    [1, 1, 1, 1, 1, 1, 1, 1, 1, 1, 1, 1, 1, 3, 3, 2],
    [2, 2, 2, 3, 2, 2, 2, 3, 3, 3, 5, 2, 3, 2, 3, 3],
    [3, 5, 2, 3, 2, 2, 2, 2, 1, 1, 1, 2, 2, 2, 4, 1],
    [2, 1, 0, 0, 1, 1, 1, 3, 0, 1, 8, 9, 4, 0]] ! a ! b"

definition req_single_lengths :: "nat \<Rightarrow> nat" where
  "req_single_lengths i = ([req_single_lengths_0, req_single_lengths_1] ! (i div 16 div 16)) (i div 16 mod 16) (i mod 16)"

definition req_range_lengths_0 :: "nat \<Rightarrow> nat \<Rightarrow> nat" where
  "req_range_lengths_0 a b = [[0, 2, 2, 3, 0, 0, 0, 0, 0, 0, 0, 1, 0, 8, 8, 0],
    [0, 0, 8, 3, 4, 4, 3, 3, 3, 3, 4, 3, 3, 4, 4, 3],
    [3, 4, 3, 3, 3, 3, 5, 4, 3, 3, 3, 3, 3, 3, 1, 3],
    [3, 3, 3, 3, 0, 3, 3, 1, 0, 1, 0, 1, 0, 0, 1, 1],
    [0, 1, 0, 1, 1, 0, 1, 0, 1, 1, 0, 1, 0, 3, 3, 0],
    [3, 3, 3, 3, 3, 3, 3, 3, 3, 3, 3, 3, 3, 3, 0, 3],
    [3, 3, 3, 0, 3, 3, 3, 3, 0, 3, 3, 3, 3, 0, 3, 3],
    [3, 3, 0, 3, 3, 3, 3, 0, 3, 3, 3, 3, 0, 3, 4, 3],
    [3, 3, 0, 3, 3, 3, 3, 0, 3, 3, 3, 3, 3, 3, 3, 3],
    [3, 3, 3, 3, 3, 3, 4, 4, 3, 3, 3, 0, 3, 3, 3, 3],
    [3, 3, 3, 4, 1, 0, 0, 0, 4, 3, 3, 4, 4, 4, 4, 2],
    [2, 2, 2, 2, 2, 2, 2, 2, 2, 2, 2, 2, 2, 2, 2, 2],
    [2, 0, 4, 4, 0, 0, 3, 0, 0, 0, 3, 3, 3, 4, 3, 3],
    [4, 3, 3, 3, 3, 5, 4, 3, 3, 3, 3, 3, 3, 1, 3, 3],
    [3, 3, 3, 0, 3, 3, 1, 0, 1, 0, 1, 0, 0, 1, 1, 0],
    [1, 0, 1, 1, 0, 1, 0, 1, 1, 0, 1, 0, 3, 3, 0, 3]] ! a ! b"

definition req_range_lengths_1 :: "nat \<Rightarrow> nat \<Rightarrow> nat" where
  "req_range_lengths_1 a b = [[3, 3, 3, 3, 3, 3, 3, 3, 3, 3, 3, 3, 3, 0, 3, 3],
    [3, 3, 0, 3, 3, 3, 3, 0, 3, 3, 3, 3, 0, 3, 3, 3],
    [3, 0, 3, 3, 3, 3, 0, 3, 3, 3, 3, 0, 3, 4, 3, 3],
    [3, 0, 3, 3, 3, 3, 0, 3, 3, 3, 3, 3, 3, 3, 3, 3],
    [3, 3, 3, 3, 3, 4, 4, 3, 3, 3, 0, 3, 3, 3, 3, 3],
    [3, 3, 4, 1, 0, 0, 0, 4, 3, 3, 4, 4, 8, 0]] ! a ! b"

definition req_range_lengths :: "nat \<Rightarrow> nat" where
  "req_range_lengths i = ([req_range_lengths_0, req_range_lengths_1] ! (i div 16 div 16)) (i div 16 mod 16) (i mod 16)"

definition req_index_offsets_0 :: "nat \<Rightarrow> nat \<Rightarrow> nat" where
  "req_index_offsets_0 a b = [[0, 0, 5, 9, 27, 29, 31, 33, 35, 37, 39, 41, 43, 46, 60, 73],
    [80, 85, 87, 101, 118, 132, 146, 150, 154, 158, 162, 178, 182, 186, 201, 216],
    [220, 224, 241, 260, 278, 282, 286, 305, 319, 323, 327, 345, 362, 366, 370, 376],
    [383, 387, 392, 397, 402, 404, 410, 416, 420, 422, 426, 428, 432, 434, 440, 443],
    [446, 450, 452, 454, 457, 460, 464, 466, 468, 471, 474, 478, 480, 482, 487, 492],
    [494, 498, 503, 508, 513, 519, 525, 531, 539, 544, 550, 555, 560, 565, 570, 572],
    [577, 582, 587, 592, 594, 599, 604, 609, 614, 616, 621, 626, 631, 636, 638, 643],
    [648, 653, 658, 660, 665, 670, 675, 680, 682, 687, 692, 697, 702, 704, 709, 717],
    [724, 730, 736, 739, 745, 752, 758, 764, 767, 774, 781, 788, 797, 803, 810, 816],
    [823, 830, 837, 846, 852, 859, 865, 872, 879, 885, 890, 895, 897, 903, 909, 915],
    [923, 928, 934, 939, 944, 946, 948, 950, 952, 960, 964, 969, 982, 996, 1017, 1034],
    [1038, 1042, 1046, 1050, 1054, 1058, 1062, 1066, 1070, 1074, 1078, 1082, 1086, 1090, 1094, 1098],
    [1102, 1106, 1108, 1113, 1121, 1123, 1126, 1141, 1143, 1145, 1148, 1163, 1167, 1171, 1185, 1189],
    [1193, 1208, 1225, 1241, 1245, 1249, 1266, 1280, 1284, 1288, 1304, 1319, 1323, 1327, 1331, 1338],
    [1342, 1347, 1352, 1357, 1359, 1365, 1371, 1375, 1377, 1381, 1383, 1387, 1389, 1393, 1396, 1399],
    [1403, 1405, 1407, 1410, 1413, 1417, 1419, 1421, 1424, 1427, 1431, 1433, 1435, 1440, 1445, 1447]] ! a ! b"

definition req_index_offsets_1 :: "nat \<Rightarrow> nat \<Rightarrow> nat" where
  "req_index_offsets_1 a b = [[1451, 1456, 1461, 1466, 1472, 1478, 1484, 1492, 1497, 1503, 1508, 1513, 1518, 1523, 1525, 1530],
    [1535, 1540, 1545, 1547, 1552, 1557, 1562, 1567, 1569, 1574, 1579, 1584, 1589, 1591, 1596, 1601],
    [1606, 1611, 1613, 1618, 1623, 1628, 1633, 1635, 1640, 1645, 1650, 1655, 1657, 1662, 1670, 1677],
    [1683, 1689, 1692, 1698, 1705, 1711, 1717, 1720, 1727, 1734, 1741, 1750, 1756, 1763, 1769, 1776],
    [1783, 1790, 1799, 1805, 1812, 1818, 1825, 1832, 1838, 1843, 1848, 1850, 1856, 1862, 1868, 1876],
    [1881, 1887, 1892, 1897, 1899, 1901, 1903, 1905, 1913, 1917, 1922, 1935, 1949, 1962]] ! a ! b"

definition req_index_offsets :: "nat \<Rightarrow> nat" where
  "req_index_offsets i = ([req_index_offsets_0, req_index_offsets_1] ! (i div 16 div 16)) (i div 16 mod 16) (i mod 16)"

definition req_indicies_0 :: "nat \<Rightarrow> nat \<Rightarrow> nat" where
  "req_indicies_0 a b = [[2, 3, 0, 0, 1, 4, 5, 5, 1, 6, 7, 8, 9, 10, 7, 7],
    [11, 7, 7, 7, 7, 7, 7, 7, 12, 12, 1, 13, 1, 14, 1, 15],
    [1, 16, 1, 17, 1, 18, 1, 19, 1, 20, 1, 21, 22, 1, 24, 25],
    [23, 23, 23, 23, 23, 23, 23, 23, 23, 23, 23, 1, 26, 27, 26, 26],
    [26, 26, 26, 26, 26, 26, 26, 26, 1, 1, 29, 30, 31, 29, 1, 28],
    [1, 33, 34, 1, 32, 35, 1, 36, 26, 27, 26, 26, 26, 26, 26, 26],
    [26, 26, 26, 26, 1, 37, 38, 39, 40, 41, 38, 38, 42, 38, 38, 38],
    [38, 38, 38, 38, 38, 1, 44, 43, 45, 43, 43, 43, 43, 43, 43, 43],
    [43, 43, 43, 1, 47, 46, 48, 46, 46, 46, 46, 46, 46, 46, 46, 46],
    [46, 1, 49, 49, 49, 1, 46, 46, 46, 1, 50, 50, 50, 1, 38, 38],
    [38, 1, 37, 41, 39, 51, 41, 42, 41, 41, 41, 41, 41, 41, 41, 41],
    [41, 1, 52, 52, 52, 1, 41, 41, 41, 1, 54, 53, 55, 56, 53, 53],
    [53, 53, 53, 53, 53, 53, 53, 53, 1, 58, 57, 59, 60, 57, 57, 57],
    [57, 57, 57, 57, 57, 57, 57, 1, 61, 61, 61, 1, 57, 57, 57, 1],
    [37, 41, 39, 51, 62, 41, 42, 41, 41, 41, 41, 41, 41, 41, 41, 41],
    [1, 37, 63, 39, 64, 41, 65, 63, 42, 66, 67, 63, 63, 63, 63, 63]] ! a ! b"

definition req_indicies_1 :: "nat \<Rightarrow> nat \<Rightarrow> nat" where
  "req_indicies_1 a b = [[63, 63, 63, 1, 37, 63, 39, 64, 41, 65, 63, 42, 66, 63, 63, 63],
    [63, 63, 63, 63, 63, 1, 68, 68, 68, 1, 63, 63, 63, 1, 37, 69],
    [39, 70, 41, 69, 42, 66, 69, 69, 69, 69, 69, 69, 65, 69, 69, 69],
    [1, 69, 70, 69, 66, 69, 69, 69, 69, 69, 69, 69, 69, 69, 1, 71],
    [71, 71, 1, 69, 69, 69, 1, 37, 72, 39, 73, 41, 74, 72, 42, 67],
    [72, 72, 72, 72, 72, 72, 72, 72, 1, 37, 72, 39, 73, 41, 74, 72],
    [42, 72, 72, 72, 72, 72, 72, 72, 72, 1, 75, 75, 75, 1, 72, 72],
    [72, 1, 37, 39, 41, 42, 74, 1, 76, 78, 79, 77, 77, 77, 1, 80],
    [80, 80, 1, 82, 81, 81, 81, 1, 82, 83, 83, 83, 1, 82, 84, 84],
    [84, 1, 82, 1, 86, 87, 85, 88, 88, 1, 89, 91, 90, 90, 90, 1],
    [93, 94, 92, 1, 95, 1, 97, 98, 96, 1, 99, 1, 101, 102, 100, 1],
    [103, 1, 37, 39, 41, 74, 42, 1, 103, 104, 1, 103, 100, 1, 105, 106],
    [103, 1, 100, 1, 100, 1, 99, 107, 1, 99, 96, 1, 99, 108, 109, 1],
    [96, 1, 96, 1, 95, 110, 1, 95, 92, 1, 95, 111, 112, 1, 92, 1],
    [92, 1, 91, 113, 113, 113, 1, 91, 114, 114, 114, 1, 91, 1, 115, 115],
    [115, 1, 103, 116, 116, 116, 1, 103, 117, 117, 117, 1, 103, 100, 100, 100]] ! a ! b"

definition req_indicies_2 :: "nat \<Rightarrow> nat \<Rightarrow> nat" where
  "req_indicies_2 a b = [[1, 89, 91, 118, 90, 90, 1, 89, 91, 119, 113, 113, 1, 89, 91, 114],
    [114, 114, 1, 89, 120, 121, 91, 90, 90, 90, 1, 91, 119, 113, 113, 1],
    [119, 91, 113, 113, 113, 1, 91, 90, 90, 90, 1, 123, 122, 122, 122, 1],
    [123, 124, 124, 124, 1, 123, 125, 125, 125, 1, 123, 1, 127, 126, 126, 126],
    [1, 129, 128, 128, 128, 1, 129, 130, 130, 130, 1, 129, 131, 131, 131, 1],
    [129, 1, 133, 132, 132, 132, 1, 135, 134, 134, 134, 1, 135, 136, 136, 136],
    [1, 135, 137, 137, 137, 1, 135, 1, 139, 138, 138, 138, 1, 141, 140, 140],
    [140, 1, 141, 142, 142, 142, 1, 141, 143, 143, 143, 1, 141, 1, 145, 144],
    [144, 144, 1, 147, 146, 146, 146, 1, 147, 148, 148, 148, 1, 147, 149, 149],
    [149, 1, 147, 1, 151, 150, 150, 150, 1, 153, 152, 152, 152, 1, 153, 154],
    [154, 154, 1, 153, 155, 155, 155, 1, 153, 1, 157, 156, 156, 156, 1, 159],
    [158, 158, 158, 1, 159, 160, 160, 160, 1, 159, 161, 161, 161, 1, 159, 1],
    [162, 156, 156, 156, 1, 164, 165, 103, 76, 163, 166, 166, 1, 89, 168, 103],
    [167, 167, 167, 1, 168, 103, 169, 169, 169, 1, 168, 103, 170, 170, 170, 1],
    [168, 103, 1, 172, 173, 171, 174, 174, 1, 89, 91, 103, 175, 175, 175, 1],
    [91, 103, 176, 176, 176, 1, 91, 103, 177, 177, 177, 1, 91, 103, 1, 89]] ! a ! b"

definition req_indicies_3 :: "nat \<Rightarrow> nat \<Rightarrow> nat" where
  "req_indicies_3 a b = [[91, 103, 178, 175, 175, 1, 89, 91, 103, 179, 176, 176, 1, 89, 91, 103],
    [177, 177, 177, 1, 89, 180, 181, 91, 103, 175, 175, 175, 1, 91, 103, 179],
    [176, 176, 1, 179, 91, 103, 176, 176, 176, 1, 91, 103, 175, 175, 175, 1],
    [89, 168, 103, 182, 167, 167, 1, 89, 168, 103, 183, 169, 169, 1, 89, 168],
    [103, 170, 170, 170, 1, 89, 184, 185, 168, 103, 167, 167, 167, 1, 168, 103],
    [183, 169, 169, 1, 183, 168, 103, 169, 169, 169, 1, 168, 103, 167, 167, 167],
    [1, 164, 165, 76, 163, 166, 166, 1, 187, 188, 76, 186, 189, 189, 1, 89],
    [168, 190, 190, 190, 1, 168, 191, 191, 191, 1, 168, 192, 192, 192, 1, 168],
    [1, 89, 168, 193, 190, 190, 1, 89, 168, 194, 191, 191, 1, 89, 168, 192],
    [192, 192, 1, 89, 195, 196, 168, 190, 190, 190, 1, 168, 194, 191, 191, 1],
    [194, 168, 191, 191, 191, 1, 168, 190, 190, 190, 1, 76, 80, 80, 80, 1],
    [76, 1, 76, 1, 76, 1, 197, 1, 164, 165, 103, 76, 163, 166, 166, 1],
    [198, 198, 198, 1, 199, 198, 198, 198, 1, 200, 200, 200, 200, 200, 200, 200],
    [200, 200, 200, 200, 200, 1, 200, 200, 200, 103, 200, 200, 200, 200, 200, 200],
    [200, 200, 200, 1, 37, 38, 39, 40, 201, 41, 202, 38, 38, 42, 38, 38],
    [38, 38, 38, 38, 38, 201, 201, 201, 1, 6, 203, 8, 204, 10, 203, 11]] ! a ! b"

definition req_indicies_4 :: "nat \<Rightarrow> nat \<Rightarrow> nat" where
  "req_indicies_4 a b = [[203, 203, 203, 203, 203, 203, 203, 203, 203, 1, 4, 205, 205, 1, 4, 206],
    [206, 1, 4, 207, 207, 1, 4, 208, 208, 1, 4, 209, 209, 1, 4, 210],
    [210, 1, 4, 211, 211, 1, 4, 212, 212, 1, 4, 213, 213, 1, 4, 214],
    [214, 1, 4, 215, 215, 1, 4, 216, 216, 1, 4, 217, 217, 1, 4, 218],
    [218, 1, 4, 219, 219, 1, 4, 220, 220, 1, 4, 221, 221, 1, 4, 222],
    [222, 1, 4, 1, 223, 223, 223, 223, 1, 224, 224, 224, 224, 223, 223, 223],
    [1, 226, 225, 227, 226, 225, 228, 229, 230, 231, 229, 229, 229, 229, 229, 229],
    [229, 229, 229, 229, 1, 232, 1, 234, 233, 235, 234, 233, 228, 229, 230, 236],
    [229, 229, 229, 229, 229, 229, 229, 229, 229, 229, 1, 237, 237, 237, 1, 229],
    [229, 229, 1, 228, 236, 238, 236, 236, 236, 236, 236, 236, 236, 236, 236, 236],
    [1, 239, 239, 239, 1, 236, 236, 236, 1, 228, 236, 238, 240, 236, 236, 236],
    [236, 236, 236, 236, 236, 236, 236, 1, 228, 241, 242, 236, 243, 241, 244, 245],
    [241, 241, 241, 241, 241, 241, 241, 241, 1, 228, 241, 242, 236, 243, 241, 244],
    [241, 241, 241, 241, 241, 241, 241, 241, 1, 246, 246, 246, 1, 241, 241, 241],
    [1, 228, 247, 248, 236, 247, 244, 247, 247, 247, 247, 247, 247, 243, 247, 247],
    [247, 1, 247, 248, 247, 244, 247, 247, 247, 247, 247, 247, 247, 247, 247, 1]] ! a ! b"

definition req_indicies_5 :: "nat \<Rightarrow> nat \<Rightarrow> nat" where
  "req_indicies_5 a b = [[249, 249, 249, 1, 247, 247, 247, 1, 228, 250, 251, 236, 252, 250, 245, 250],
    [250, 250, 250, 250, 250, 250, 250, 1, 228, 250, 251, 236, 252, 250, 250, 250],
    [250, 250, 250, 250, 250, 250, 1, 253, 253, 253, 1, 250, 250, 250, 1, 228],
    [236, 252, 1, 254, 256, 257, 255, 255, 255, 1, 258, 258, 258, 1, 260, 259],
    [259, 259, 1, 260, 261, 261, 261, 1, 260, 262, 262, 262, 1, 260, 1, 264],
    [265, 263, 266, 266, 1, 267, 269, 268, 268, 268, 1, 271, 272, 270, 1, 273],
    [1, 275, 276, 274, 1, 277, 1, 279, 280, 278, 1, 281, 1, 228, 236, 252],
    [1, 281, 282, 1, 281, 278, 1, 283, 284, 281, 1, 278, 1, 278, 1, 277],
    [285, 1, 277, 274, 1, 277, 286, 287, 1, 274, 1, 274, 1, 273, 288, 1],
    [273, 270, 1, 273, 289, 290, 1, 270, 1, 270, 1, 269, 291, 291, 291, 1],
    [269, 292, 292, 292, 1, 269, 1, 293, 293, 293, 1, 281, 294, 294, 294, 1],
    [281, 295, 295, 295, 1, 281, 278, 278, 278, 1, 267, 269, 296, 268, 268, 1],
    [267, 269, 297, 291, 291, 1, 267, 269, 292, 292, 292, 1, 267, 298, 299, 269],
    [268, 268, 268, 1, 269, 297, 291, 291, 1, 297, 269, 291, 291, 291, 1, 269],
    [268, 268, 268, 1, 301, 300, 300, 300, 1, 301, 302, 302, 302, 1, 301, 303],
    [303, 303, 1, 301, 1, 305, 304, 304, 304, 1, 307, 306, 306, 306, 1, 307]] ! a ! b"

definition req_indicies_6 :: "nat \<Rightarrow> nat \<Rightarrow> nat" where
  "req_indicies_6 a b = [[308, 308, 308, 1, 307, 309, 309, 309, 1, 307, 1, 311, 310, 310, 310, 1],
    [313, 312, 312, 312, 1, 313, 314, 314, 314, 1, 313, 315, 315, 315, 1, 313],
    [1, 317, 316, 316, 316, 1, 319, 318, 318, 318, 1, 319, 320, 320, 320, 1],
    [319, 321, 321, 321, 1, 319, 1, 323, 322, 322, 322, 1, 325, 324, 324, 324],
    [1, 325, 326, 326, 326, 1, 325, 327, 327, 327, 1, 325, 1, 329, 328, 328],
    [328, 1, 331, 330, 330, 330, 1, 331, 332, 332, 332, 1, 331, 333, 333, 333],
    [1, 331, 1, 335, 334, 334, 334, 1, 337, 336, 336, 336, 1, 337, 338, 338],
    [338, 1, 337, 339, 339, 339, 1, 337, 1, 340, 334, 334, 334, 1, 342, 343],
    [281, 254, 341, 344, 344, 1, 267, 346, 281, 345, 345, 345, 1, 346, 281, 347],
    [347, 347, 1, 346, 281, 348, 348, 348, 1, 346, 281, 1, 350, 351, 349, 352],
    [352, 1, 267, 269, 281, 353, 353, 353, 1, 269, 281, 354, 354, 354, 1, 269],
    [281, 355, 355, 355, 1, 269, 281, 1, 267, 269, 281, 356, 353, 353, 1, 267],
    [269, 281, 357, 354, 354, 1, 267, 269, 281, 355, 355, 355, 1, 267, 358, 359],
    [269, 281, 353, 353, 353, 1, 269, 281, 357, 354, 354, 1, 357, 269, 281, 354],
    [354, 354, 1, 269, 281, 353, 353, 353, 1, 267, 346, 281, 360, 345, 345, 1],
    [267, 346, 281, 361, 347, 347, 1, 267, 346, 281, 348, 348, 348, 1, 267, 362]] ! a ! b"

definition req_indicies_7 :: "nat \<Rightarrow> nat \<Rightarrow> nat" where
  "req_indicies_7 a b = [[363, 346, 281, 345, 345, 345, 1, 346, 281, 361, 347, 347, 1, 361, 346, 281],
    [347, 347, 347, 1, 346, 281, 345, 345, 345, 1, 342, 343, 254, 341, 344, 344],
    [1, 365, 366, 254, 364, 367, 367, 1, 267, 346, 368, 368, 368, 1, 346, 369],
    [369, 369, 1, 346, 370, 370, 370, 1, 346, 1, 267, 346, 371, 368, 368, 1],
    [267, 346, 372, 369, 369, 1, 267, 346, 370, 370, 370, 1, 267, 373, 374, 346],
    [368, 368, 368, 1, 346, 372, 369, 369, 1, 372, 346, 369, 369, 369, 1, 346],
    [368, 368, 368, 1, 254, 258, 258, 258, 1, 254, 1, 254, 1, 254, 1, 375],
    [1, 342, 343, 281, 254, 341, 344, 344, 1, 376, 376, 376, 1, 377, 376, 376],
    [376, 1, 378, 378, 378, 378, 378, 378, 378, 378, 378, 378, 378, 378, 1, 378],
    [378, 378, 281, 378, 378, 378, 378, 378, 378, 378, 378, 378, 1, 26, 27, 26],
    [26, 26, 26, 26, 26, 26, 26, 26, 26, 1, 1, 0]] ! a ! b"

definition req_indicies :: "nat \<Rightarrow> nat" where
  "req_indicies i = ([req_indicies_0, req_indicies_1, req_indicies_2, req_indicies_3,
    req_indicies_4, req_indicies_5, req_indicies_6, req_indicies_7] ! (i div 16 div 16)) (i div 16 mod 16) (i mod 16)"

definition req_trans_targs_0 :: "nat \<Rightarrow> nat \<Rightarrow> nat" where
  "req_trans_targs_0 a b = [[2, 0, 194, 198, 3, 175, 4, 19, 20, 24, 33, 29, 173, 5, 6, 7],
    [8, 9, 10, 11, 12, 13, 17, 14, 348, 18, 14, 15, 16, 15, 13, 17],
    [16, 13, 17, 13, 348, 4, 19, 20, 24, 26, 29, 21, 4, 22, 21, 4],
    [22, 23, 25, 27, 28, 30, 4, 20, 31, 30, 4, 20, 31, 32, 34, 35],
    [36, 38, 42, 47, 37, 39, 40, 41, 43, 44, 46, 45, 48, 91, 167, 169],
    [49, 50, 53, 51, 52, 54, 84, 87, 90, 55, 77, 80, 56, 72, 74, 57],
    [58, 67, 69, 59, 60, 62, 64, 61, 63, 65, 66, 68, 70, 71, 73, 75],
    [76, 78, 79, 81, 82, 83, 85, 86, 88, 89, 92, 95, 93, 94, 96, 166],
    [97, 100, 98, 99, 101, 165, 102, 105, 103, 104, 106, 164, 107, 110, 108, 109],
    [111, 163, 112, 115, 113, 114, 116, 151, 117, 120, 118, 119, 121, 150, 122, 125],
    [123, 124, 126, 127, 143, 146, 149, 128, 131, 129, 130, 132, 136, 139, 142, 133],
    [134, 135, 137, 138, 140, 141, 144, 145, 147, 148, 152, 156, 159, 162, 153, 154],
    [155, 157, 158, 160, 161, 168, 170, 171, 172, 173, 174, 26, 27, 176, 177, 178],
    [179, 180, 181, 182, 183, 184, 185, 186, 187, 188, 189, 190, 191, 192, 193, 195],
    [196, 196, 197, 349, 199, 202, 203, 208, 200, 200, 201, 349, 205, 204, 206, 207],
    [209, 210, 211, 213, 217, 222, 212, 214, 215, 216, 218, 219, 221, 220, 223, 266]] ! a ! b"

definition req_trans_targs_1 :: "nat \<Rightarrow> nat \<Rightarrow> nat" where
  "req_trans_targs_1 a b = [[342, 344, 224, 225, 228, 226, 227, 229, 259, 262, 265, 230, 252, 255, 231, 247],
    [249, 232, 233, 242, 244, 234, 235, 237, 239, 236, 238, 240, 241, 243, 245, 246],
    [248, 250, 251, 253, 254, 256, 257, 258, 260, 261, 263, 264, 267, 270, 268, 269],
    [271, 341, 272, 275, 273, 274, 276, 340, 277, 280, 278, 279, 281, 339, 282, 285],
    [283, 284, 286, 338, 287, 290, 288, 289, 291, 326, 292, 295, 293, 294, 296, 325],
    [297, 300, 298, 299, 301, 302, 318, 321, 324, 303, 306, 304, 305, 307, 311, 314],
    [317, 308, 309, 310, 312, 313, 315, 316, 319, 320, 322, 323, 327, 331, 334, 337],
    [328, 329, 330, 332, 333, 335, 336, 343, 345, 346, 347]] ! a ! b"

definition req_trans_targs :: "nat \<Rightarrow> nat" where
  "req_trans_targs i = ([req_trans_targs_0, req_trans_targs_1] ! (i div 16 div 16)) (i div 16 mod 16) (i mod 16)"

definition req_trans_actions_0 :: "nat \<Rightarrow> nat \<Rightarrow> nat" where
  "req_trans_actions_0 a b = [[1, 0, 1, 1, 11, 0, 47, 1, 47, 1, 1, 26, 1, 1, 0, 0],
    [0, 0, 0, 0, 0, 17, 17, 3, 29, 3, 0, 5, 7, 7, 32, 32],
    [0, 9, 9, 0, 21, 38, 0, 38, 0, 0, 19, 1, 23, 1, 0, 13],
    [0, 0, 0, 0, 0, 15, 51, 51, 15, 0, 35, 35, 0, 0, 0, 0],
    [0, 0, 0, 0, 0, 0, 0, 0, 0, 0, 0, 0, 0, 0, 0, 0],
    [0, 0, 0, 0, 0, 0, 0, 0, 0, 0, 0, 0, 0, 0, 0, 0],
    [0, 0, 0, 0, 0, 0, 0, 0, 0, 0, 0, 0, 0, 0, 0, 0],
    [0, 0, 0, 0, 0, 0, 0, 0, 0, 0, 0, 0, 0, 0, 0, 0],
    [0, 0, 0, 0, 0, 0, 0, 0, 0, 0, 0, 0, 0, 0, 0, 0],
    [0, 0, 0, 0, 0, 0, 0, 0, 0, 0, 0, 0, 0, 0, 0, 0],
    [0, 0, 0, 0, 0, 0, 0, 0, 0, 0, 0, 0, 0, 0, 0, 0],
    [0, 0, 0, 0, 0, 0, 0, 0, 0, 0, 0, 0, 0, 0, 0, 0],
    [0, 0, 0, 0, 0, 0, 0, 0, 0, 0, 0, 1, 1, 0, 0, 0],
    [0, 0, 0, 0, 0, 0, 0, 0, 0, 0, 0, 0, 0, 0, 0, 0],
    [19, 0, 0, 41, 19, 0, 0, 0, 1, 0, 0, 44, 0, 0, 0, 0],
    [0, 0, 0, 0, 0, 0, 0, 0, 0, 0, 0, 0, 0, 0, 0, 0]] ! a ! b"

definition req_trans_actions_1 :: "nat \<Rightarrow> nat \<Rightarrow> nat" where
  "req_trans_actions_1 a b = [[0, 0, 0, 0, 0, 0, 0, 0, 0, 0, 0, 0, 0, 0, 0, 0],
    [0, 0, 0, 0, 0, 0, 0, 0, 0, 0, 0, 0, 0, 0, 0, 0],
    [0, 0, 0, 0, 0, 0, 0, 0, 0, 0, 0, 0, 0, 0, 0, 0],
    [0, 0, 0, 0, 0, 0, 0, 0, 0, 0, 0, 0, 0, 0, 0, 0],
    [0, 0, 0, 0, 0, 0, 0, 0, 0, 0, 0, 0, 0, 0, 0, 0],
    [0, 0, 0, 0, 0, 0, 0, 0, 0, 0, 0, 0, 0, 0, 0, 0],
    [0, 0, 0, 0, 0, 0, 0, 0, 0, 0, 0, 0, 0, 0, 0, 0],
    [0, 0, 0, 0, 0, 0, 0, 0, 0, 0, 0]] ! a ! b"

definition req_trans_actions :: "nat \<Rightarrow> nat" where
  "req_trans_actions i = ([req_trans_actions_0, req_trans_actions_1] ! (i div 16 div 16)) (i div 16 mod 16) (i mod 16)"

definition req_machine :: ragel where
  "req_machine = \<lparr>rg_actions = req_actions,
     rg_cond_offsets = req_cond_offsets,
     rg_cond_lengths = req_cond_lengths,
     rg_cond_keys = req_cond_keys,
     rg_cond_spaces = req_cond_spaces,
     rg_key_offsets = req_key_offsets,
     rg_trans_keys = req_trans_keys,
     rg_single_lengths = req_single_lengths,
     rg_range_lengths = req_range_lengths,
     rg_index_offsets = req_index_offsets,
     rg_indicies = req_indicies,
     rg_trans_targs = req_trans_targs,
     rg_trans_actions = req_trans_actions,
     rg_eof_actions = (\<lambda>_. 0),
     rg_conds = True, rg_states = 350, rg_nkeys = 2432, rg_ninds = 1964, rg_ntrans = 379, rg_nacts = 55,
     rg_ncond_keys = 181, rg_ncond_spaces = 91\<rparr>"

lemmas req_tables =
  req_actions_def req_cond_offsets_0_def req_cond_offsets_1_def req_cond_offsets_def
  req_cond_lengths_0_def req_cond_lengths_1_def req_cond_lengths_def req_cond_keys_def
  req_cond_spaces_def req_key_offsets_0_def req_key_offsets_1_def req_key_offsets_def
  req_trans_keys_0_def req_trans_keys_1_def req_trans_keys_2_def req_trans_keys_3_def
  req_trans_keys_4_def req_trans_keys_5_def req_trans_keys_6_def req_trans_keys_7_def
  req_trans_keys_8_def req_trans_keys_9_def req_trans_keys_def req_single_lengths_0_def
  req_single_lengths_1_def req_single_lengths_def req_range_lengths_0_def req_range_lengths_1_def
  req_range_lengths_def req_index_offsets_0_def req_index_offsets_1_def req_index_offsets_def
  req_indicies_0_def req_indicies_1_def req_indicies_2_def req_indicies_3_def
  req_indicies_4_def req_indicies_5_def req_indicies_6_def req_indicies_7_def
  req_indicies_def req_trans_targs_0_def req_trans_targs_1_def req_trans_targs_def
  req_trans_actions_0_def req_trans_actions_1_def req_trans_actions_def

text \<open>Every state has ordered keys inside the arrays, every entry refers to an entry.\<close>

lemma req_rows_ok: "rows_ok req_machine 349"
  by (simp only: ragel_eval req_machine_def req_tables)

lemma req_conds_ok: "all_entries (cond_row_ok req_machine) (\<lambda>cs. cs) 350"
  by (simp only: ragel_eval req_machine_def req_tables cond_row_ok_def)

lemma req_tables_ok: "tables_ok req_machine"
proof -
  have "all_entries (\<lambda>t. t < 379) req_indicies 1964" "all_entries (\<lambda>s. s < 350) req_trans_targs 379"
    "all_entries (acts_inside req_machine) req_trans_actions 379"
    by (simp_all only: ragel_eval req_machine_def req_tables)
  then show ?thesis using req_rows_ok by (simp add: tables_ok_def req_machine_def)
qed

end
