(* ===== verification/Machines.thy ===== *)
theory Machines
  imports Ragel_Checked Request_Tables Respond_Tables Uri_Tables
begin

text \<open>
  What holds for all three generated state machines, the request parser, the response parser and
  the URI parser: their tables are consistent, so no read of an array is outside it, a step finds
  the entry that a linear scan of the state's keys finds, and a run stays in the states.
\<close>

definition machines :: "ragel set" where
  "machines = {req_machine, rsp_machine, uri_machine}"

lemma machines_ok: "T \<in> machines \<Longrightarrow> tables_ok T"
  using req_tables_ok rsp_tables_ok uri_tables_ok by (auto simp: machines_def)

lemma machines_arrays: "T \<in> machines \<Longrightarrow> arrays_ok T"
proof -
  assume m: "T \<in> machines"
  have zero: "acts_inside U 0 \<Longrightarrow> all_entries (acts_inside U) (\<lambda>_. 0) n" for U n by (induction n) simp_all
  have "acts_inside req_machine 0" "acts_inside rsp_machine 0" by (simp_all add: acts_inside_def req_machine_def rsp_machine_def)
  then have "all_entries (acts_inside req_machine) (rg_eof_actions req_machine) n" "all_entries (acts_inside rsp_machine) (rg_eof_actions rsp_machine) n" for n
    using zero [of req_machine] zero [of rsp_machine] by (simp_all add: req_machine_def rsp_machine_def)
  moreover have "all_entries (acts_inside uri_machine) (rg_eof_actions uri_machine) (rg_states uri_machine)"
    using uri_eofs_ok by (simp add: uri_machine_def)
  moreover have "all_entries (cond_row_ok req_machine) (\<lambda>cs. cs) (rg_states req_machine)" using req_conds_ok by (simp add: req_machine_def)
  moreover have "\<not> rg_conds rsp_machine" "\<not> rg_conds uri_machine" by (simp_all add: rsp_machine_def uri_machine_def)
  ultimately show ?thesis using m machines_ok [OF m] unfolding arrays_ok_def machines_def by blast
qed

text \<open>
  C20. The two binary searches of the generated interpreter do what a linear scan over the keys
  of the state does: for all three machines, every state and every character the transition is
  the one of the first single key that equals the character, else of the first range that
  contains it, else the default entry.
\<close>

theorem interpreter_equals_scan:
  assumes "T \<in> machines" "0 < cs" "cs < rg_states T"
  shows "step T cond cs c =
     pick (if rg_conds T then widen T cond cs c else c) (singles T cs) (ranges T cs) (entries T cs) (entry T 0)"
  by (rule step_pick [OF tables_ok_row [OF machines_ok [OF assms(1)] assms(2,3)]])

theorem interpreter_equals_scan_witness:
  "step rsp_machine False 1 72 = pick 72 (singles rsp_machine 1) (ranges rsp_machine 1) (entries rsp_machine 1) (entry rsp_machine 0)"
proof -
  have n: "rg_states rsp_machine = 124" "\<not> rg_conds rsp_machine" by (simp_all add: rsp_machine_def)
  show ?thesis using interpreter_equals_scan [of rsp_machine 1 False 72] n by (simp add: machines_def)
qed

text \<open>
  C32. The generated interpreter never reads outside its arrays: for the three machines and every state, the interpreter in
  which each read (conditions with their keys and spaces, keys, lengths, offsets, indices, targets, actions, and
  the actions at the end of the text) is checked against the number of entries of the array fails no
  check and computes the same step, and the same whole run, whatever the actions do. A step leads to a state again, and
  a run ends in a state and not behind the end of the text.
\<close>

theorem interpreter_types:
  assumes "T \<in> machines" "0 < cs" "cs < rg_states T"
  shows "step_chk T cond cs c = Inr (step T cond cs c) \<and> fst (step T cond cs c) < rg_states T
    \<and> run_chk T cond act cs inp st = Inr (run T cond act cs inp st)
    \<and> (\<forall>cs1 p1 st1. run T cond act cs inp st = Inr (cs1, p1, st1) \<longrightarrow>
        cs1 < rg_states T \<and> p1 \<le> length inp \<and> eof_chk T cs1 = Inr (actions_at T (rg_eof_actions T cs1)))"
proof -
  note ar = machines_arrays [OF assms(1)] and ok = machines_ok [OF assms(1)]
  show ?thesis
  proof (intro conjI allI impI)
    show "step_chk T cond cs c = Inr (step T cond cs c)" by (rule step_chk_ok [OF ar assms(2,3)])
    show "fst (step T cond cs c) < rg_states T" by (rule step_inside(3) [OF ok assms(2,3)])
    show "run_chk T cond act cs inp st = Inr (run T cond act cs inp st)" by (rule run_chk_ok [OF ar assms(2,3)])
    fix cs1 p1 st1
    assume "run T cond act cs inp st = Inr (cs1, p1, st1)"
    then show "cs1 < rg_states T" "p1 \<le> length inp"
      using assms(3) resume_state [OF ok assms(2,3), of cond act 0 inp st cs1 p1 st1] by (auto simp: run_def split: if_splits)
    then show "eof_chk T cs1 = Inr (actions_at T (rg_eof_actions T cs1))" by (intro eof_chk_ok [OF ar])
  qed
qed

theorem interpreter_types_witness:
  "step_chk req_machine True 3 94 = Inr (step req_machine True 3 94) \<and> fst (step uri_machine False 451 47) < 561"
proof -
  have n: "rg_states uri_machine = 561" "rg_states req_machine = 350" by (simp_all add: uri_machine_def req_machine_def)
  have m: "uri_machine \<in> machines" "req_machine \<in> machines" by (simp_all add: machines_def)
  have p: "0 < (451 :: nat)" "451 < rg_states uri_machine" "0 < (3 :: nat)" "3 < rg_states req_machine" by (simp_all add: n)
  have "fst (step uri_machine False 451 47) < rg_states uri_machine"
    using interpreter_types [OF m(1) p(1,2), of False 47 "\<lambda>_ _ st. Inr (False, st)" "[]" "()"] by blast
  moreover have "step_chk req_machine True 3 94 = Inr (step req_machine True 3 94)"
    using interpreter_types [OF m(2) p(3,4), of True 94 "\<lambda>_ _ st. Inr (False, st)" "[]" "()"] by blast
  ultimately show ?thesis unfolding n by blast
qed

end
