(* ===== verification/Http_Parsers.thy ===== *)
theory Http_Parsers
  imports Http_Model Request_Tables Respond_Tables
begin

text \<open>
  \<open>src/src/HTTP/http_parser.{h,cpp}\<close> with the parts of \<open>httprequest_parser.cpp\<close> and
  \<open>httprespond_parser.cpp\<close> around the generated interpreter: the C structs, the actions of the
  grammar, the entry functions with their assertions, the callbacks that fill a message, and the
  two parser classes. A buffer is the list of its \<open>len\<close> valid bytes; the \<open>char*\<close> members of the
  struct are offsets into it. A \<open>std::string\<close> made from bytes that do not lie in the buffer and a failed assertion
  end the run.
\<close>

section \<open>Library functions\<close>

datatype parse_error = AssertFailed | OutOfBuffer

definition ch_in :: "char \<Rightarrow> char \<Rightarrow> char \<Rightarrow> bool" where
  "ch_in lo hi c \<longleftrightarrow> of_char lo \<le> (of_char c :: nat) \<and> (of_char c :: nat) \<le> of_char hi"

definition digit_of :: "char \<Rightarrow> nat option" where
  "digit_of c =
     (if ch_in (CHR ''0'') (CHR ''9'') c then Some (of_char c - 48)
      else if ch_in (CHR ''a'') (CHR ''z'') c then Some (of_char c - 87)
      else if ch_in (CHR ''A'') (CHR ''Z'') c then Some (of_char c - 55) else None)"

definition base_digit :: "nat \<Rightarrow> char \<Rightarrow> bool" where
  "base_digit base c \<longleftrightarrow> (case digit_of c of None \<Rightarrow> False | Some d \<Rightarrow> d < base)"

definition is_space :: "char \<Rightarrow> bool" where
  "is_space c \<longleftrightarrow> c = CHR '' '' \<or> ch_in (CHR 0x09) (CHR 0x0D) c"

definition digits_val :: "nat \<Rightarrow> string \<Rightarrow> nat" where
  "digits_val base s = foldl (\<lambda>v c. v * base + the (digit_of c)) 0 s"

text \<open>\<open>strtol(s, NULL, base)\<close> for the bases 10 and 16, and \<open>atoi\<close>; a \<open>long\<close> has 64 bits.\<close>

definition strtol :: "string \<Rightarrow> nat \<Rightarrow> int" where
  "strtol s base =
     (let s1 = dropWhile is_space s;
          (neg, s2) = (case s1 of c # r \<Rightarrow> if c = CHR ''-'' then (True, r) else if c = CHR ''+'' then (False, r) else (False, s1)
                       | [] \<Rightarrow> (False, []));
          s3 = (case s2 of
                  z # x # d # r \<Rightarrow>
                    if base = 16 \<and> z = CHR ''0'' \<and> (x = CHR ''x'' \<or> x = CHR ''X'') \<and> base_digit 16 d then d # r else s2
                | _ \<Rightarrow> s2);
          v = int (digits_val base (takeWhile (base_digit base) s3))
      in if neg then max (- (2 ^ 63)) (- v) else min (2 ^ 63 - 1) v)"

definition atoi :: "string \<Rightarrow> int" where
  "atoi s = to_i32 (strtol s 10)"

text \<open>\<open>strncmp(a, b, n) == 0\<close>\<close>

definition strncmp_eq :: "string \<Rightarrow> string \<Rightarrow> nat \<Rightarrow> bool" where
  "strncmp_eq a b n \<longleftrightarrow> take n (c_str a) = take n (c_str b)"

text \<open>\<open>std::string(buffer + at, n)\<close>; \<open>n\<close> is a \<open>size_t\<close>.\<close>

definition std_string :: "string \<Rightarrow> nat \<Rightarrow> nat \<Rightarrow> parse_error + string" where
  "std_string buffer at n =
     (if at + n \<le> length buffer then Inr (take n (drop at buffer)) else Inl OutOfBuffer)"

section \<open>Requests: struct and callbacks\<close>

text \<open>
  The members of \<open>http_parser\<close> and of the \<open>HttpRequestParser\<close> around it. \<open>http_parser_init\<close> does
  not set \<open>uri_relaxed\<close> and \<open>query_start\<close>; what they hold is an argument of the constructor.
\<close>

record request_parser =
  hp_cs :: nat
  hp_body_start :: nat
  hp_content_len :: int
  hp_nread :: nat
  hp_mark :: nat
  hp_field_start :: nat
  hp_field_len :: nat
  hp_query_start :: nat
  hp_xml_sent :: bool
  hp_json_sent :: bool
  hp_uri_relaxed :: bool
  hp_data :: HttpRequest
  hp_error :: int

definition http_parser_start :: nat where "http_parser_start = 1"
definition http_parser_first_final :: nat where "http_parser_first_final = 348"

definition new_HttpRequestParser :: "bool \<Rightarrow> nat \<Rightarrow> request_parser" where
  "new_HttpRequestParser relaxed query_start =
     \<lparr>hp_cs = http_parser_start, hp_body_start = 0, hp_content_len = 0, hp_nread = 0, hp_mark = 0,
      hp_field_start = 0, hp_field_len = 0, hp_query_start = query_start, hp_xml_sent = False,
      hp_json_sent = False, hp_uri_relaxed = relaxed, hp_data = new_HttpRequest 0x11 True, hp_error = 0\<rparr>"

definition http_parser_has_error :: "request_parser \<Rightarrow> bool" where
  "http_parser_has_error rp \<longleftrightarrow> hp_cs rp = 0"

definition http_parser_is_finished :: "request_parser \<Rightarrow> bool" where
  "http_parser_is_finished rp \<longleftrightarrow> http_parser_first_final \<le> hp_cs rp"

definition http_parser_finish :: "request_parser \<Rightarrow> int" where
  "http_parser_finish rp =
     (if http_parser_has_error rp then - 1 else if http_parser_is_finished rp then 1 else 0)"

text \<open>The callbacks; \<open>at\<close> is an offset into the buffer.\<close>

definition on_request_method :: "string \<Rightarrow> nat \<Rightarrow> nat \<Rightarrow> request_parser \<Rightarrow> parse_error + request_parser" where
  "on_request_method buffer at n rp =
     (let m = CharsToHttpMethod (drop at buffer)
      in if m = INVALID_METHOD then bind_res (std_string buffer at n) (\<lambda>_. Inr (rp\<lparr>hp_error := 1000\<rparr>))
         else Inr (rp\<lparr>hp_data := (hp_data rp)\<lparr>m_method := m\<rparr>\<rparr>))"

definition on_request_fragment :: "string \<Rightarrow> nat \<Rightarrow> nat \<Rightarrow> request_parser \<Rightarrow> parse_error + request_parser" where
  "on_request_fragment buffer at n rp =
     bind_res (std_string buffer at n) (\<lambda>s. Inr (rp\<lparr>hp_data := (hp_data rp)\<lparr>m_fragment := s\<rparr>\<rparr>))"

definition on_request_path :: "string \<Rightarrow> nat \<Rightarrow> nat \<Rightarrow> request_parser \<Rightarrow> parse_error + request_parser" where
  "on_request_path buffer at n rp =
     bind_res (std_string buffer at n) (\<lambda>s. Inr (rp\<lparr>hp_data := (hp_data rp)\<lparr>m_path := s\<rparr>\<rparr>))"

definition on_request_query :: "string \<Rightarrow> nat \<Rightarrow> nat \<Rightarrow> request_parser \<Rightarrow> parse_error + request_parser" where
  "on_request_query buffer at n rp =
     bind_res (std_string buffer at n) (\<lambda>s. Inr (rp\<lparr>hp_data := (hp_data rp)\<lparr>m_query := s\<rparr>\<rparr>))"

definition on_request_version :: "string \<Rightarrow> nat \<Rightarrow> nat \<Rightarrow> request_parser \<Rightarrow> parse_error + request_parser" where
  "on_request_version buffer at n rp =
     (if strncmp_eq (drop at buffer) ''HTTP/1.1'' n then Inr (rp\<lparr>hp_data := (hp_data rp)\<lparr>m_version := 0x11\<rparr>\<rparr>)
      else if strncmp_eq (drop at buffer) ''HTTP/1.0'' n then Inr (rp\<lparr>hp_data := (hp_data rp)\<lparr>m_version := 0x10\<rparr>\<rparr>)
      else bind_res (std_string buffer at n) (\<lambda>_. Inr (rp\<lparr>hp_error := 1001\<rparr>)))"

definition on_request_http_field ::
  "string \<Rightarrow> nat \<Rightarrow> nat \<Rightarrow> nat \<Rightarrow> nat \<Rightarrow> request_parser \<Rightarrow> parse_error + request_parser" where
  "on_request_http_field buffer field flen value vlen rp =
     (if flen = 0 then Inr rp
      else bind_res (std_string buffer field flen) (\<lambda>f.
           bind_res (std_string buffer value vlen) (\<lambda>v.
             Inr (rp\<lparr>hp_data := setHeader f v (hp_data rp)\<rparr>))))"

section \<open>Requests: actions and execution\<close>

text \<open>\<open>LEN(AT, FPC)\<close> is computed in \<open>size_t\<close>.\<close>

definition request_action :: "string \<Rightarrow> (parse_error, request_parser) action" where
  "request_action buffer a p rp =
     (let go = (\<lambda>r. bind_res r (\<lambda>rp1. Inr (False, rp1)));
          len_mark = usub64 p (hp_mark rp)
      in if a = 0 then Inr (False, rp\<lparr>hp_mark := p\<rparr>)
         else if a = 1 then Inr (False, rp\<lparr>hp_field_start := p\<rparr>)
         else if a = 2 then Inr (False, rp\<lparr>hp_field_len := usub64 p (hp_field_start rp)\<rparr>)
         else if a = 3 then Inr (False, rp\<lparr>hp_mark := p\<rparr>)
         else if a = 4 then go (on_request_http_field buffer (hp_field_start rp) (hp_field_len rp) (hp_mark rp) len_mark rp)
         else if a = 5 then go (on_request_method buffer (hp_mark rp) len_mark rp)
         else if a = 6 then Inr (False, rp)
         else if a = 7 then go (on_request_fragment buffer (hp_mark rp) len_mark rp)
         else if a = 8 then Inr (False, rp\<lparr>hp_query_start := p\<rparr>)
         else if a = 9 then go (on_request_query buffer (hp_query_start rp) (usub64 p (hp_query_start rp)) rp)
         else if a = 10 then go (on_request_version buffer (hp_mark rp) len_mark rp)
         else if a = 11 then go (on_request_path buffer (hp_mark rp) len_mark rp)
         else if a = 12 then
           Inr (True,
             if hp_xml_sent rp \<or> hp_json_sent rp then
               rp\<lparr>hp_body_start := hp_mark rp, hp_content_len := to_i32 (int (usub64 p (hp_mark rp) + 1))\<rparr>
             else rp\<lparr>hp_body_start := p + 1\<rparr>)
         else if a = 13 then Inr (False, rp\<lparr>hp_xml_sent := True\<rparr>)
         else if a = 14 then Inr (False, rp\<lparr>hp_json_sent := True\<rparr>)
         else Inr (False, rp))"

definition http_parser_execute :: "string \<Rightarrow> request_parser \<Rightarrow> parse_error + nat \<times> request_parser" where
  "http_parser_execute buffer rp =
     (if length buffer = 0 then Inr (0, rp)
      else if int (length buffer) \<noteq> to_i32 (int (length buffer)) then Inl AssertFailed
      else
        case run req_machine (hp_uri_relaxed rp) (request_action buffer) (hp_cs rp) (map schar buffer) rp of
          Inl e \<Rightarrow> Inl e
        | Inr (cs, p, rp1) \<Rightarrow>
            let rp2 = (if http_parser_has_error rp1 then rp1 else rp1\<lparr>hp_cs := cs\<rparr>);
                rp3 = rp2\<lparr>hp_nread := hp_nread rp2 + p\<rparr>; len = length buffer
            in if hp_nread rp3 \<le> len \<and> hp_body_start rp3 \<le> len \<and> hp_mark rp3 < len \<and>
                  hp_field_len rp3 \<le> len \<and> hp_field_start rp3 < len
               then Inr (hp_nread rp3, rp3) else Inl AssertFailed)"

text \<open>\<open>HttpRequestParser::execute\<close> also moves what is left of the buffer to its start.\<close>

definition HttpRequestParser_execute ::
  "string \<Rightarrow> request_parser \<Rightarrow> parse_error + nat \<times> string \<times> request_parser" where
  "HttpRequestParser_execute data rp =
     bind_res (http_parser_execute data rp) (\<lambda>(offset, rp1). Inr (offset, drop offset data, rp1))"

definition HttpRequestParser_isFinished :: "request_parser \<Rightarrow> int" where
  "HttpRequestParser_isFinished rp = http_parser_finish rp"

definition HttpRequestParser_hasError :: "request_parser \<Rightarrow> bool" where
  "HttpRequestParser_hasError rp \<longleftrightarrow> hp_error rp \<noteq> 0 \<or> http_parser_has_error rp"

definition HttpRequestParser_getContentLength :: "(string \<Rightarrow> u64 option) \<Rightarrow> request_parser \<Rightarrow> u64" where
  "HttpRequestParser_getContentLength cast rp = getHeaderAs cast ''content-length'' 0 (hp_data rp)"

section \<open>Responses: struct and callbacks\<close>

record response_parser =
  cp_cs :: nat
  cp_body_start :: nat
  cp_content_len :: int
  cp_status :: int
  cp_chunked :: bool
  cp_chunks_done :: bool
  cp_close :: bool
  cp_nread :: nat
  cp_mark :: nat
  cp_field_start :: nat
  cp_field_len :: nat
  cp_data :: HttpResponse
  cp_error :: int

definition httpclient_parser_start :: nat where "httpclient_parser_start = 1"
definition httpclient_parser_first_final :: nat where "httpclient_parser_first_final = 120"

definition httpclient_parser_init :: "response_parser \<Rightarrow> response_parser" where
  "httpclient_parser_init cp =
     cp\<lparr>cp_cs := httpclient_parser_start, cp_body_start := 0, cp_content_len := - 1, cp_chunked := False,
        cp_chunks_done := False, cp_mark := 0, cp_nread := 0, cp_field_len := 0, cp_field_start := 0,
        cp_close := False\<rparr>"

text \<open>\<open>status\<close> is not initialised either.\<close>

definition new_HttpResponseParser :: "int \<Rightarrow> response_parser" where
  "new_HttpResponseParser status =
     httpclient_parser_init
       \<lparr>cp_cs = 0, cp_body_start = 0, cp_content_len = 0, cp_status = status, cp_chunked = False,
        cp_chunks_done = False, cp_close = False, cp_nread = 0, cp_mark = 0, cp_field_start = 0, cp_field_len = 0,
        cp_data = new_HttpResponse 0x11 True, cp_error = 0\<rparr>"

definition httpclient_parser_has_error :: "response_parser \<Rightarrow> bool" where
  "httpclient_parser_has_error cp \<longleftrightarrow> cp_cs cp = 0"

definition httpclient_parser_is_finished :: "response_parser \<Rightarrow> bool" where
  "httpclient_parser_is_finished cp \<longleftrightarrow> cp_cs cp = httpclient_parser_first_final"

definition httpclient_parser_finish :: "response_parser \<Rightarrow> int" where
  "httpclient_parser_finish cp =
     (if httpclient_parser_has_error cp then - 1 else if httpclient_parser_is_finished cp then 1 else 0)"

definition on_response_reason :: "string \<Rightarrow> nat \<Rightarrow> nat \<Rightarrow> response_parser \<Rightarrow> parse_error + response_parser" where
  "on_response_reason buffer at n cp =
     bind_res (std_string buffer at n) (\<lambda>s. Inr (cp\<lparr>cp_data := (cp_data cp)\<lparr>r_reason := s\<rparr>\<rparr>))"

definition on_response_status :: "string \<Rightarrow> nat \<Rightarrow> nat \<Rightarrow> response_parser \<Rightarrow> parse_error + response_parser" where
  "on_response_status buffer at n cp =
     Inr (cp\<lparr>cp_data := (cp_data cp)\<lparr>r_status := atoi (drop at buffer)\<rparr>\<rparr>)"

definition on_response_version :: "string \<Rightarrow> nat \<Rightarrow> nat \<Rightarrow> response_parser \<Rightarrow> parse_error + response_parser" where
  "on_response_version buffer at n cp =
     (if strncmp_eq (drop at buffer) ''HTTP/1.1'' n then Inr (cp\<lparr>cp_data := (cp_data cp)\<lparr>r_version := 0x11\<rparr>\<rparr>)
      else if strncmp_eq (drop at buffer) ''HTTP/1.0'' n then Inr (cp\<lparr>cp_data := (cp_data cp)\<lparr>r_version := 0x10\<rparr>\<rparr>)
      else bind_res (std_string buffer at n) (\<lambda>_. Inr (cp\<lparr>cp_error := 1001\<rparr>)))"

definition on_response_http_field ::
  "string \<Rightarrow> nat \<Rightarrow> nat \<Rightarrow> nat \<Rightarrow> nat \<Rightarrow> response_parser \<Rightarrow> parse_error + response_parser" where
  "on_response_http_field buffer field flen value vlen cp =
     (if flen = 0 then Inr cp
      else bind_res (std_string buffer field flen) (\<lambda>f.
           bind_res (std_string buffer value vlen) (\<lambda>v.
             Inr (cp\<lparr>cp_data := response_setHeader f v (cp_data cp)\<rparr>))))"

section \<open>Responses: actions and execution\<close>

definition response_action :: "string \<Rightarrow> (parse_error, response_parser) action" where
  "response_action buffer a p cp =
     (let go = (\<lambda>r. bind_res r (\<lambda>cp1. Inr (False, cp1)));
          len_mark = usub64 p (cp_mark cp); mark = drop (cp_mark cp) buffer
      in if a = 0 then Inr (False, cp\<lparr>cp_mark := p\<rparr>)
         else if a = 1 then Inr (False, cp\<lparr>cp_field_start := p\<rparr>)
         else if a = 2 then Inr (False, cp\<lparr>cp_field_len := usub64 p (cp_field_start cp)\<rparr>)
         else if a = 3 then Inr (False, cp\<lparr>cp_mark := p\<rparr>)
         else if a = 4 then Inr (False, cp\<lparr>cp_content_len := to_i32 (strtol mark 10)\<rparr>)
         else if a = 5 then Inr (False, cp\<lparr>cp_close := True\<rparr>)
         else if a = 6 then go (on_response_http_field buffer (cp_field_start cp) (cp_field_len cp) (cp_mark cp) len_mark cp)
         else if a = 7 then go (on_response_reason buffer (cp_mark cp) len_mark cp)
         else if a = 8 then go (on_response_status buffer (cp_mark cp) len_mark (cp\<lparr>cp_status := to_i32 (strtol mark 10)\<rparr>))
         else if a = 9 then go (on_response_version buffer (cp_mark cp) len_mark cp)
         else if a = 10 then
           (let n = to_i32 (strtol mark 16)
            in Inr (False, cp\<lparr>cp_chunked := True, cp_content_len := n, cp_chunks_done := n \<le> 0\<rparr>))
         else if a = 11 then Inr (False, cp\<lparr>cp_chunked := True\<rparr>)
         else if a = 12 then Inr (True, cp\<lparr>cp_body_start := p + 1\<rparr>)
         else Inr (False, cp))"

text \<open>
  The result is \<open>-1\<close> when one of the three checks at the end fails. The caller has put a NUL
  behind the buffer, as the first assertion demands.
\<close>

definition httpclient_parser_execute :: "string \<Rightarrow> response_parser \<Rightarrow> parse_error + int \<times> response_parser" where
  "httpclient_parser_execute buffer cp0 =
     (let cp = cp0\<lparr>cp_nread := 0, cp_mark := 0, cp_field_len := 0, cp_field_start := 0\<rparr>
      in if int (length buffer) \<noteq> to_i32 (int (length buffer)) then Inl AssertFailed
         else case run rsp_machine False (response_action buffer) (cp_cs cp) (map schar buffer) cp of
           Inl e \<Rightarrow> Inl e
         | Inr (cs, p, cp1) \<Rightarrow>
             let cp2 = cp1\<lparr>cp_cs := cs, cp_nread := cp_nread cp1 + p\<rparr>; len = length buffer
             in if cp_nread cp2 \<le> len \<and> cp_body_start cp2 \<le> len then
                  Inr (if cp_mark cp2 < len \<and> cp_field_len cp2 \<le> len \<and> cp_field_start cp2 < len
                       then int (cp_nread cp2) else - 1, cp2)
                else Inl AssertFailed)"

text \<open>
  \<open>HttpResponseParser::execute\<close>: the \<open>int\<close> is returned as a \<open>size_t\<close>; moving from \<open>data - 1\<close> is
  \<open>OutOfBuffer\<close>.
\<close>

definition HttpResponseParser_execute ::
  "string \<Rightarrow> bool \<Rightarrow> response_parser \<Rightarrow> parse_error + nat \<times> string \<times> response_parser" where
  "HttpResponseParser_execute data chunk cp =
     bind_res (httpclient_parser_execute data (if chunk then httpclient_parser_init cp else cp)) (\<lambda>(offset, cp1).
       if offset < 0 then Inl OutOfBuffer
       else Inr (nat offset, drop (nat offset) data, cp1))"

definition HttpResponseParser_isFinished :: "response_parser \<Rightarrow> int" where
  "HttpResponseParser_isFinished cp = httpclient_parser_finish cp"

definition HttpResponseParser_hasError :: "response_parser \<Rightarrow> bool" where
  "HttpResponseParser_hasError cp \<longleftrightarrow> cp_error cp \<noteq> 0 \<or> httpclient_parser_has_error cp"

definition HttpResponseParser_getContentLength :: "(string \<Rightarrow> u64 option) \<Rightarrow> response_parser \<Rightarrow> u64" where
  "HttpResponseParser_getContentLength cast cp = getAs cast (r_headers (cp_data cp)) ''content-length'' 0"

end
