(* ===== verification/Request_Rows.thy ===== *)
theory Request_Rows
  imports Http_Parsers
begin

text \<open>
  The rows of the request machine that a well formed request passes, read out of the tables of
  \<open>Request_Tables\<close>, and the steps of the machine on the character classes of the grammar
  (\<open>src/src/HTTP/httprequest_parser.cpp\<close>).
\<close>

section \<open>Rows of the request machine\<close>

text \<open>The characters whose meaning depends on \<open>uri_relaxed\<close> are the caret and the braces.\<close>

definition cond_row :: "nat \<Rightarrow> bool" where
  "cond_row cs \<longleftrightarrow> (if req_cond_lengths cs = 0 then True else
     req_cond_lengths cs = 3 \<and> slice req_cond_keys (req_cond_offsets cs * 2) 6 = [94, 94, 123, 123, 125, 125])"

lemma req_cond_rows: "all_entries cond_row (\<lambda>i. i) 350"
  by (simp only: ragel_eval cond_row_def req_tables)

definition plain :: "int \<Rightarrow> bool" where
  "plain c \<longleftrightarrow> c \<noteq> 94 \<and> c \<noteq> 123 \<and> c \<noteq> 125"

lemma req_widen:
  assumes "cs < 350" "plain c"
  shows "widen req_machine cond cs c = c"
proof -
  have r: "cond_row cs" using all_entriesD [OF req_cond_rows assms(1)] .
  let ?key = "\<lambda>k. req_cond_keys (req_cond_offsets cs * 2 + k)"
  show ?thesis
  proof (cases "req_cond_lengths cs = 0")
    case True
    then show ?thesis by (simp add: widen_def req_machine_def)
  next
    case False
    then have l: "req_cond_lengths cs = 3"
      and s: "slice req_cond_keys (req_cond_offsets cs * 2) 6 = [94, 94, 123, 123, 125, 125]"
      using r by (simp_all add: cond_row_def)
    have k: "?key 0 = 94" "?key 1 = 94" "?key 2 = 123" "?key 3 = 123" "?key 4 = 125" "?key 5 = 125"
      using s by (simp_all add: slice_numeral add.commute eval_nat_numeral)
    have "search_range ?key c 0 4 = None"
    proof (rule ccontr)
      assume "search_range ?key c 0 4 \<noteq> None"
      then obtain m where "search_range ?key c 0 4 = Some m" by blast
      from search_range_sound [OF this]
      have m: "m \<le> 4" "even m" "?key m \<le> c" "c \<le> ?key (m + 1)" by auto
      then have "m = 0 \<or> m = 2 \<or> m = 4" by presburger
      then show False using m k assms(2) by (auto simp: plain_def add.commute eval_nat_numeral)
    qed
    then show ?thesis using l by (simp add: widen_def req_machine_def)
  qed
qed

lemma req_row:
  assumes "singles req_machine cs = ks" "ranges req_machine cs = rs" "entries req_machine cs = ts"
    "0 < cs" "cs < 350" "plain c \<or> req_cond_lengths cs = 0"
  shows "step req_machine cond cs c = pick c ks rs ts (entry req_machine 0)"
proof -
  have row: "row_ok req_machine cs"
    by (rule tables_ok_row [OF req_tables_ok assms(4)]) (use assms(5) in \<open>simp add: req_machine_def\<close>)
  have "widen req_machine cond cs c = c"
    using assms(6)
  proof
    assume "plain c"
    then show ?thesis by (rule req_widen [OF assms(5)])
  qed (simp add: widen_def req_machine_def)
  then show ?thesis using step_pick [OF row] assms(1-3) by (simp add: req_machine_def)
qed

lemmas req_eval = ragel_eval req_machine_def req_tables nat.distinct

lemma req_step_1: "step req_machine cond 1 c =
     pick c [60, 64] [(48, 57), (65, 90)] [(194, [0]), (198, [0]), (2, [0]), (2, [0]), (0, [])] (entry
     req_machine 0)"
  by (rule req_row; simp only: req_eval)

lemma req_step_2: "step req_machine cond 2 c =
     pick c [32] [(48, 57), (65, 90)] [(3, [5]), (175, []), (175, []), (0, [])] (entry req_machine 0)"
  by (rule req_row; simp only: req_eval)

lemma req_step_175: "step req_machine cond 175 c =
     pick c [32] [(48, 57), (65, 90)] [(3, [5]), (176, []), (176, []), (0, [])] (entry req_machine 0)"
  by (rule req_row; simp only: req_eval)

lemma req_step_176: "step req_machine cond 176 c =
     pick c [32] [(48, 57), (65, 90)] [(3, [5]), (177, []), (177, []), (0, [])] (entry req_machine 0)"
  by (rule req_row; simp only: req_eval)

lemma req_step_177: "step req_machine cond 177 c =
     pick c [32] [(48, 57), (65, 90)] [(3, [5]), (178, []), (178, []), (0, [])] (entry req_machine 0)"
  by (rule req_row; simp only: req_eval)

lemma req_step_178: "step req_machine cond 178 c =
     pick c [32] [(48, 57), (65, 90)] [(3, [5]), (179, []), (179, []), (0, [])] (entry req_machine 0)"
  by (rule req_row; simp only: req_eval)

lemma req_step_179: "step req_machine cond 179 c =
     pick c [32] [(48, 57), (65, 90)] [(3, [5]), (180, []), (180, []), (0, [])] (entry req_machine 0)"
  by (rule req_row; simp only: req_eval)

lemma req_step_180: "step req_machine cond 180 c =
     pick c [32] [(48, 57), (65, 90)] [(3, [5]), (181, []), (181, []), (0, [])] (entry req_machine 0)"
  by (rule req_row; simp only: req_eval)

lemma req_step_181: "step req_machine cond 181 c =
     pick c [32] [(48, 57), (65, 90)] [(3, [5]), (182, []), (182, []), (0, [])] (entry req_machine 0)"
  by (rule req_row; simp only: req_eval)

lemma req_step_182: "step req_machine cond 182 c =
     pick c [32] [(48, 57), (65, 90)] [(3, [5]), (183, []), (183, []), (0, [])] (entry req_machine 0)"
  by (rule req_row; simp only: req_eval)

lemma req_step_183: "step req_machine cond 183 c =
     pick c [32] [(48, 57), (65, 90)] [(3, [5]), (184, []), (184, []), (0, [])] (entry req_machine 0)"
  by (rule req_row; simp only: req_eval)

lemma req_step_184: "step req_machine cond 184 c =
     pick c [32] [(48, 57), (65, 90)] [(3, [5]), (185, []), (185, []), (0, [])] (entry req_machine 0)"
  by (rule req_row; simp only: req_eval)

lemma req_step_185: "step req_machine cond 185 c =
     pick c [32] [(48, 57), (65, 90)] [(3, [5]), (186, []), (186, []), (0, [])] (entry req_machine 0)"
  by (rule req_row; simp only: req_eval)

lemma req_step_3: "plain c \<Longrightarrow> step req_machine cond 3 c =
     pick c [32, 33, 35, 37, 47, 59, 61, 63, 64, 95, 126, 606, 635, 637] [(36, 57), (65, 90), (97, 122)] [(4,
     [0, 11, 6]), (19, [0]), (20, [0, 11, 6]), (24, [0]), (33, [0]), (19, [0]), (19, [0]), (29, [0, 11]), (19,
     [0]), (19, [0]), (19, [0]), (19, [0]), (19, [0]), (19, [0]), (19, [0]), (173, [0]), (173, [0]), (0, [])]
     (entry req_machine 0)"
  by (rule req_row; simp only: req_eval)

lemma req_step_33: "plain c \<Longrightarrow> step req_machine cond 33 c =
     pick c [32, 33, 35, 37, 47, 61, 63, 95, 126, 606, 635, 637] [(- 128, - 1), (36, 59), (64, 90), (97, 122)]
     [(4, [11, 6]), (26, []), (20, [11, 6]), (27, []), (34, []), (26, []), (29, [11]), (26, []), (26, []),
     (26, []), (26, []), (26, []), (26, []), (26, []), (26, []), (26, []), (0, [])] (entry req_machine 0)"
  by (rule req_row; simp only: req_eval)

lemma req_step_26: "plain c \<Longrightarrow> step req_machine cond 26 c =
     pick c [32, 33, 35, 37, 61, 63, 95, 126, 606, 635, 637] [(- 128, - 1), (36, 59), (64, 90), (97, 122)]
     [(4, [11, 6]), (26, []), (20, [11, 6]), (27, []), (26, []), (29, [11]), (26, []), (26, []), (26, []),
     (26, []), (26, []), (26, []), (26, []), (26, []), (26, []), (0, [])] (entry req_machine 0)"
  by (rule req_row; simp only: req_eval)

lemma req_step_27: "step req_machine cond 27 c =
     pick c [] [(48, 57), (65, 70), (97, 102)] [(28, []), (28, []), (28, []), (0, [])] (entry req_machine 0)"
  by (rule req_row; simp only: req_eval)

lemma req_step_28: "step req_machine cond 28 c =
     pick c [] [(48, 57), (65, 70), (97, 102)] [(26, []), (26, []), (26, []), (0, [])] (entry req_machine 0)"
  by (rule req_row; simp only: req_eval)

lemma req_step_29: "plain c \<Longrightarrow> step req_machine cond 29 c =
     pick c [32, 33, 35, 37, 61, 95, 126, 606, 635, 637] [(- 128, - 1), (36, 59), (63, 90), (97, 122)] [(4,
     [8, 9, 6]), (30, [8]), (20, [8, 9, 6]), (31, [8]), (30, [8]), (30, [8]), (30, [8]), (30, [8]), (30, [8]),
     (30, [8]), (30, [8]), (30, [8]), (30, [8]), (30, [8]), (0, [])] (entry req_machine 0)"
  by (rule req_row; simp only: req_eval)

lemma req_step_30: "plain c \<Longrightarrow> step req_machine cond 30 c =
     pick c [32, 33, 35, 37, 61, 95, 126, 606, 635, 637] [(- 128, - 1), (36, 59), (63, 90), (97, 122)] [(4,
     [9, 6]), (30, []), (20, [9, 6]), (31, []), (30, []), (30, []), (30, []), (30, []), (30, []), (30, []),
     (30, []), (30, []), (30, []), (30, []), (0, [])] (entry req_machine 0)"
  by (rule req_row; simp only: req_eval)

lemma req_step_31: "step req_machine cond 31 c =
     pick c [] [(48, 57), (65, 70), (97, 102)] [(32, []), (32, []), (32, []), (0, [])] (entry req_machine 0)"
  by (rule req_row; simp only: req_eval)

lemma req_step_32: "step req_machine cond 32 c =
     pick c [] [(48, 57), (65, 70), (97, 102)] [(30, []), (30, []), (30, []), (0, [])] (entry req_machine 0)"
  by (rule req_row; simp only: req_eval)

lemma req_step_20: "plain c \<Longrightarrow> step req_machine cond 20 c =
     pick c [32, 33, 37, 61, 95, 126, 606, 635, 637] [(- 128, - 1), (36, 59), (63, 90), (97, 122)] [(4, [0,
     7]), (21, [0]), (22, [0]), (21, [0]), (21, [0]), (21, [0]), (21, [0]), (21, [0]), (21, [0]), (21, [0]),
     (21, [0]), (21, [0]), (21, [0]), (0, [])] (entry req_machine 0)"
  by (rule req_row; simp only: req_eval)

lemma req_step_21: "plain c \<Longrightarrow> step req_machine cond 21 c =
     pick c [32, 33, 37, 61, 95, 126, 606, 635, 637] [(- 128, - 1), (36, 59), (63, 90), (97, 122)] [(4, [7]),
     (21, []), (22, []), (21, []), (21, []), (21, []), (21, []), (21, []), (21, []), (21, []), (21, []), (21,
     []), (21, []), (0, [])] (entry req_machine 0)"
  by (rule req_row; simp only: req_eval)

lemma req_step_22: "step req_machine cond 22 c =
     pick c [] [(48, 57), (65, 70), (97, 102)] [(23, []), (23, []), (23, []), (0, [])] (entry req_machine 0)"
  by (rule req_row; simp only: req_eval)

lemma req_step_23: "step req_machine cond 23 c =
     pick c [] [(48, 57), (65, 70), (97, 102)] [(21, []), (21, []), (21, []), (0, [])] (entry req_machine 0)"
  by (rule req_row; simp only: req_eval)

lemma req_step_4: "step req_machine cond 4 c =
     pick c [72] [] [(5, [0]), (0, [])] (entry req_machine 0)"
  by (rule req_row; simp only: req_eval)

lemma req_step_5: "step req_machine cond 5 c =
     pick c [84] [] [(6, []), (0, [])] (entry req_machine 0)"
  by (rule req_row; simp only: req_eval)

lemma req_step_6: "step req_machine cond 6 c =
     pick c [84] [] [(7, []), (0, [])] (entry req_machine 0)"
  by (rule req_row; simp only: req_eval)

lemma req_step_7: "step req_machine cond 7 c =
     pick c [80] [] [(8, []), (0, [])] (entry req_machine 0)"
  by (rule req_row; simp only: req_eval)

lemma req_step_8: "step req_machine cond 8 c =
     pick c [47] [] [(9, []), (0, [])] (entry req_machine 0)"
  by (rule req_row; simp only: req_eval)

lemma req_step_9: "step req_machine cond 9 c =
     pick c [49] [] [(10, []), (0, [])] (entry req_machine 0)"
  by (rule req_row; simp only: req_eval)

lemma req_step_10: "step req_machine cond 10 c =
     pick c [46] [] [(11, []), (0, [])] (entry req_machine 0)"
  by (rule req_row; simp only: req_eval)

lemma req_step_11: "step req_machine cond 11 c =
     pick c [] [(48, 49)] [(12, []), (0, [])] (entry req_machine 0)"
  by (rule req_row; simp only: req_eval)

lemma req_step_12: "step req_machine cond 12 c =
     pick c [10, 13] [] [(13, [10]), (17, [10]), (0, [])] (entry req_machine 0)"
  by (rule req_row; simp only: req_eval)

lemma req_step_17: "step req_machine cond 17 c =
     pick c [10] [] [(13, []), (0, [])] (entry req_machine 0)"
  by (rule req_row; simp only: req_eval)

lemma req_step_13: "step req_machine cond 13 c =
     pick c [10, 13, 33, 124, 126] [(1, 8), (11, 31), (35, 39), (42, 43), (45, 46), (48, 57), (65, 90), (94,
     122)] [(348, [1, 12]), (18, [1]), (14, [1]), (14, [1]), (14, [1]), (14, [1]), (14, [1]), (14, [1]), (14,
     [1]), (14, [1]), (14, [1]), (14, [1]), (14, [1]), (0, [])] (entry req_machine 0)"
  by (rule req_row; simp only: req_eval)

lemma req_step_14: "step req_machine cond 14 c =
     pick c [33, 58, 124, 126] [(1, 8), (10, 31), (35, 39), (42, 43), (45, 46), (48, 57), (65, 90), (94, 122)]
     [(14, []), (15, [2]), (14, []), (14, []), (14, []), (14, []), (14, []), (14, []), (14, []), (14, []),
     (14, []), (14, []), (0, [])] (entry req_machine 0)"
  by (rule req_row; simp only: req_eval)

lemma req_step_15: "step req_machine cond 15 c =
     pick c [0, 9, 10, 13, 32, 127] [] [(0, []), (15, [3]), (13, [3, 4]), (17, [3, 4]), (15, [3]), (0, []),
     (16, [3])] (entry req_machine 0)"
  by (rule req_row; simp only: req_eval)

lemma req_step_16: "step req_machine cond 16 c =
     pick c [0, 10, 13, 127] [] [(0, []), (13, [4]), (17, [4]), (0, []), (16, [])] (entry req_machine 0)"
  by (rule req_row; simp only: req_eval)

lemma req_step_18: "step req_machine cond 18 c =
     pick c [10, 33, 58, 124, 126] [(1, 8), (11, 31), (35, 39), (42, 43), (45, 46), (48, 57), (65, 90), (94,
     122)] [(348, [12]), (14, []), (15, [2]), (14, []), (14, []), (14, []), (14, []), (14, []), (14, []), (14,
     []), (14, []), (14, []), (14, []), (0, [])] (entry req_machine 0)"
  by (rule req_row; simp only: req_eval)

section \<open>Walking through the machine\<close>

abbreviation req_goes :: "bool \<Rightarrow> string \<Rightarrow> nat \<Rightarrow> nat \<Rightarrow> request_parser \<Rightarrow> parse_error + nat \<times> nat \<times> request_parser" where
  "req_goes cond b \<equiv> goes req_machine cond (request_action b) b"

abbreviation req_walk :: "bool \<Rightarrow> nat \<Rightarrow> string \<Rightarrow> nat option" where
  "req_walk \<equiv> walk req_machine"

section \<open>Texts of a request\<close>

definition upper_char :: "char \<Rightarrow> bool" where
  "upper_char c \<longleftrightarrow> 65 \<le> schar c \<and> schar c \<le> 90"

definition hex_char :: "char \<Rightarrow> bool" where
  "hex_char c \<longleftrightarrow> 48 \<le> schar c \<and> schar c \<le> 57 \<or> 65 \<le> schar c \<and> schar c \<le> 70 \<or> 97 \<le> schar c \<and> schar c \<le> 102"

text \<open>A character of a path; a query and a fragment may also contain question marks.\<close>

definition uri_char :: "bool \<Rightarrow> char \<Rightarrow> bool" where
  "uri_char q c \<longleftrightarrow> (let n = schar c in
     n < 0 \<or> n = 33 \<or> n = 36 \<or> 38 \<le> n \<and> n \<le> 59 \<or> n = 61 \<or> q \<and> n = 63 \<or> 64 \<le> n \<and> n \<le> 90 \<or>
     n = 95 \<or> 97 \<le> n \<and> n \<le> 122 \<or> n = 126)"

text \<open>A percent sign starts an escape of two hexadecimal digits.\<close>

fun uri_text :: "bool \<Rightarrow> string \<Rightarrow> bool" where
  "uri_text q [] \<longleftrightarrow> True"
| "uri_text q (c # s) \<longleftrightarrow>
     (if c = CHR ''%'' then (case s of h # l # r \<Rightarrow> hex_char h \<and> hex_char l \<and> uri_text q r | _ \<Rightarrow> False)
      else uri_char q c \<and> uri_text q s)"

definition token_char :: "char \<Rightarrow> bool" where
  "token_char c \<longleftrightarrow> (let n = schar c in
     n = 33 \<or> 35 \<le> n \<and> n \<le> 39 \<or> n = 42 \<or> n = 43 \<or> n = 45 \<or> n = 46 \<or> 48 \<le> n \<and> n \<le> 57 \<or>
     65 \<le> n \<and> n \<le> 90 \<or> 94 \<le> n \<and> n \<le> 122 \<or> n = 124 \<or> n = 126)"

definition value_char :: "char \<Rightarrow> bool" where
  "value_char c \<longleftrightarrow> c \<notin> {CHR 0x00, CHR 0x0A, CHR 0x0D, CHR 0x7F}"

lemma schar_eqs:
  "schar c = 0 \<longleftrightarrow> c = CHR 0x00" "schar c = 10 \<longleftrightarrow> c = CHR 0x0A" "schar c = 13 \<longleftrightarrow> c = CHR 0x0D"
  "schar c = 127 \<longleftrightarrow> c = CHR 0x7F" "schar c = 9 \<longleftrightarrow> c = CHR 0x09" "schar c = 32 \<longleftrightarrow> c = CHR '' ''"
  "schar c = 37 \<longleftrightarrow> c = CHR ''%''"
  using schar_inj [of c "CHR 0x00"] schar_inj [of c "CHR 0x0A"] schar_inj [of c "CHR 0x0D"]
    schar_inj [of c "CHR 0x7F"] schar_inj [of c "CHR 0x09"] schar_inj [of c "CHR '' ''"]
    schar_inj [of c "CHR ''%''"]
  by (simp_all add: schar_def)

section \<open>Steps on classes of characters\<close>

lemma plain_classes:
  "upper_char c \<Longrightarrow> plain (schar c)" "hex_char c \<Longrightarrow> plain (schar c)" "uri_char q c \<Longrightarrow> plain (schar c)"
  by (auto simp: upper_char_def hex_char_def uri_char_def plain_def Let_def)

lemma step_upper:
  assumes "upper_char c"
  shows "step req_machine cond 1 (schar c) = (2, [0])"
    "step req_machine cond 2 (schar c) = (175, [])"
    "step req_machine cond 175 (schar c) = (176, [])"
    "step req_machine cond 176 (schar c) = (177, [])"
    "step req_machine cond 177 (schar c) = (178, [])"
    "step req_machine cond 178 (schar c) = (179, [])"
    "step req_machine cond 179 (schar c) = (180, [])"
    "step req_machine cond 180 (schar c) = (181, [])"
    "step req_machine cond 181 (schar c) = (182, [])"
    "step req_machine cond 182 (schar c) = (183, [])"
    "step req_machine cond 183 (schar c) = (184, [])"
  using assms plain_classes(1) [OF assms]
  by (simp_all add: req_step_1 req_step_2 req_step_175 req_step_176 req_step_177 req_step_178
      req_step_179 req_step_180 req_step_181 req_step_182 req_step_183 upper_char_def del: One_nat_def)

lemma step_uri:
  assumes "uri_char False c"
  shows "step req_machine cond 26 (schar c) = (26, [])"
    "c \<noteq> CHR ''/'' \<Longrightarrow> step req_machine cond 33 (schar c) = (26, [])"
proof -
  note p = plain_classes(3) [OF assms]
  show "step req_machine cond 26 (schar c) = (26, [])"
    using assms schar_range [of c] unfolding req_step_26 [OF p] uri_char_def Let_def by (elim disjE; simp)
  assume "c \<noteq> CHR ''/''"
  then have "schar c \<noteq> 47" using schar_inj [of c "CHR ''/''"] by (simp add: schar_def)
  then show "step req_machine cond 33 (schar c) = (26, [])"
    using assms schar_range [of c] unfolding req_step_33 [OF p] uri_char_def Let_def by (elim disjE; simp)
qed

lemma step_uri_query:
  assumes "uri_char True c"
  shows "step req_machine cond 29 (schar c) = (30, [8])" "step req_machine cond 30 (schar c) = (30, [])"
    "step req_machine cond 20 (schar c) = (21, [0])" "step req_machine cond 21 (schar c) = (21, [])"
  using assms schar_range [of c]
  unfolding req_step_29 [OF plain_classes(3) [OF assms]] req_step_30 [OF plain_classes(3) [OF assms]]
    req_step_20 [OF plain_classes(3) [OF assms]] req_step_21 [OF plain_classes(3) [OF assms]] uri_char_def Let_def
  by (elim disjE; simp)+

lemma step_percent:
  "step req_machine cond 26 (schar (CHR ''%'')) = (27, [])" "step req_machine cond 33 (schar (CHR ''%'')) = (27, [])"
  "step req_machine cond 29 (schar (CHR ''%'')) = (31, [8])" "step req_machine cond 30 (schar (CHR ''%'')) = (31, [])"
  "step req_machine cond 20 (schar (CHR ''%'')) = (22, [0])" "step req_machine cond 21 (schar (CHR ''%'')) = (22, [])"
  by (simp_all add: schar_def plain_def req_step_26 req_step_33 req_step_29 req_step_30 req_step_20 req_step_21)

lemma step_hex:
  assumes "hex_char c"
  shows "step req_machine cond 27 (schar c) = (28, [])" "step req_machine cond 28 (schar c) = (26, [])"
    "step req_machine cond 31 (schar c) = (32, [])" "step req_machine cond 32 (schar c) = (30, [])"
    "step req_machine cond 22 (schar c) = (23, [])" "step req_machine cond 23 (schar c) = (21, [])"
  using assms plain_classes(2) [OF assms]
  by (auto simp: req_step_27 req_step_28 req_step_31 req_step_32 req_step_22 req_step_23 hex_char_def)

lemma step_token:
  assumes "token_char c"
  shows "step req_machine cond 13 (schar c) = (14, [1])" "step req_machine cond 14 (schar c) = (14, [])"
  using assms
  unfolding req_step_13 req_step_14 token_char_def Let_def
  by (elim disjE; simp)+

lemma step_value:
  assumes "value_char c"
  shows "step req_machine cond 16 (schar c) = (16, [])"
    "c \<noteq> CHR 0x09 \<Longrightarrow> c \<noteq> CHR '' '' \<Longrightarrow> step req_machine cond 15 (schar c) = (16, [3])"
  using assms by (simp_all add: req_step_16 req_step_15 value_char_def schar_eqs)

section \<open>Numbers\<close>

lemma digit_of_dec: "C_Strings.is_digit c \<Longrightarrow> digit_of c = Some (digit_val c)"
  by (auto simp: C_Strings.is_digit_def digit_of_def ch_in_def digit_val_def)

lemma dec_base: "list_all (base_digit 10) (dec n)"
  using dec_digits [of _ n] by (fastforce simp: list_all_iff base_digit_def digit_of_dec C_Strings.is_digit_def digit_val_def)

lemma digits_val_dec: "digits_val 10 (dec n) = n"
proof -
  have "digits_val 10 xs = num_val 10 xs" if "\<forall>c \<in> set xs. C_Strings.is_digit c" for xs
    using that by (induction xs rule: rev_induct) (simp_all add: digits_val_def num_val_def digit_of_dec)
  then show ?thesis using dec_digits [of _ n] by simp
qed

lemma base_digit_plain:
  assumes "base_digit base c"
  shows "\<not> is_space c" "c \<noteq> CHR ''-''" "c \<noteq> CHR ''+''" "base \<le> 16 \<Longrightarrow> c \<noteq> CHR ''x'' \<and> c \<noteq> CHR ''X''"
  using assms by (auto simp: base_digit_def digit_of_def is_space_def ch_in_def split: if_splits)

text \<open>\<open>strtol\<close> reads the digits up to the first other character.\<close>

lemma strtol_digits:
  assumes "xs \<noteq> []" "list_all (base_digit base) xs" "base \<le> 16" "rest = [] \<or> hd rest \<notin> {CHR ''x'', CHR ''X''} \<and> \<not> base_digit base (hd rest)"
    "digits_val base xs < 2 ^ 63"
  shows "strtol (xs @ rest) base = int (digits_val base xs)"
proof -
  obtain c cs where d: "xs = c # cs" "base_digit base c" using assms(1,2) by (cases xs) auto
  note ns = base_digit_plain [OF d(2)]
  have tw: "takeWhile (base_digit base) (xs @ rest) = xs"
    using assms(2,4) by (cases rest) (auto simp: list_all_iff takeWhile_append2)
  have b: "(case c # cs @ rest of z # x # e # r \<Rightarrow>
      if base = 16 \<and> z = CHR ''0'' \<and> (x = CHR ''x'' \<or> x = CHR ''X'') \<and> base_digit 16 e then e # r else c # cs @ rest
      | _ \<Rightarrow> c # cs @ rest) = c # cs @ rest"
  proof (cases cs)
    case Nil
    then show ?thesis using assms(4) by (auto split: list.splits)
  next
    case (Cons x r)
    then have "base_digit base x" using assms(2) d(1) by simp
    then show ?thesis using Cons base_digit_plain(4) [of base x] assms(3) by (simp split: list.splits)
  qed
  show ?thesis using ns(1-3) tw assms(5) b unfolding strtol_def Let_def d(1) by simp
qed

lemma atoi_dec:
  assumes "n < 2 ^ 31" "rest = [] \<or> hd rest \<notin> {CHR ''x'', CHR ''X''} \<and> \<not> base_digit 10 (hd rest)"
  shows "atoi (dec n @ rest) = int n"
  using strtol_digits [OF dec_not_Nil dec_base _ assms(2), of n] assms(1) digits_val_dec [of n]
  by (simp add: atoi_def to_i32_id)

end
