(* ===== verification/Uri_Model.thy ===== *)
theory Uri_Model
  imports Machines Request_Rows Ip_Address
begin

text \<open>
  \<open>src/src/HTTP/uri.{h,cpp}\<close>: URI objects with their default ports, the text form, and
  \<open>Uri::CreateUri\<close>, the actions of the generated parser over the tables of \<open>Uri_Tables\<close> with the
  pointer \<open>mark\<close> that they set and clear.
\<close>

section \<open>Uri objects\<close>

record Uri =
  u_scheme :: string
  u_userinfo :: string
  u_host :: string
  u_path :: string
  u_query :: string
  u_fragment :: string
  u_port :: int

definition new_Uri :: Uri where
  "new_Uri = \<lparr>u_scheme = [], u_userinfo = [], u_host = [], u_path = [], u_query = [], u_fragment = [], u_port = 0\<rparr>"

definition isDefaultPort :: "Uri \<Rightarrow> bool" where
  "isDefaultPort u =
     (if u_port u = 0 then True
      else if u_scheme u = ''http'' then u_port u = 80
      else if u_scheme u = ''https'' then u_port u = 443
      else False)"

definition uri_getPath :: "Uri \<Rightarrow> string" where
  "uri_getPath u = (if u_path u = [] then ''/'' else u_path u)"

definition uri_getPort :: "Uri \<Rightarrow> int" where
  "uri_getPort u =
     (if u_port u \<noteq> 0 then u_port u
      else if u_scheme u = ''http'' then 80
      else if u_scheme u = ''https'' then 443
      else u_port u)"

definition uri_dump :: "Uri \<Rightarrow> string" where
  "uri_dump u =
     u_scheme u @ ''://'' @ u_userinfo u @ (if u_userinfo u = [] then [] else ''@'') @ u_host u @
     (if isDefaultPort u then [] else '':'' @ int_str (u_port u)) @ uri_getPath u @
     (if u_query u = [] then [] else ''?'') @ u_query u @
     (if u_fragment u = [] then [] else ''#'') @ u_fragment u"

text \<open>The port is passed as a \<open>uint16_t\<close>.\<close>

definition createAddressFromUri :: "getaddrinfo \<Rightarrow> Uri \<Rightarrow> addr_error + Address option" where
  "createAddressFromUri gai u =
     bind_res (LookupAnyIPAddress gai (u_host u) (uint AF_INET) 0 0) (\<lambda>a.
       Inr (map_option (setPort (word_of_int (uri_getPort u))) a))"

section \<open>Parsing\<close>

text \<open>
  The local variables of \<open>CreateUri\<close>: the object and the pointer \<open>mark\<close>, \<open>None\<close> for \<open>NULL\<close>, else
  the offset in the text. A \<open>std::string\<close> built from a null pointer throws
  \<open>std::logic_error\<close>; \<open>atoi(NULL)\<close> is undefined.
\<close>

datatype uri_error = NullString | NullAtoi

record uri_state =
  us_uri :: Uri
  us_mark :: "nat option"

definition from_mark :: "string \<Rightarrow> nat \<Rightarrow> uri_state \<Rightarrow> (string \<Rightarrow> Uri \<Rightarrow> Uri) \<Rightarrow> uri_error + uri_state" where
  "from_mark s p st setter =
     (case us_mark st of
        None \<Rightarrow> Inl NullString
      | Some m \<Rightarrow> Inr (st\<lparr>us_uri := setter (take (p - m) (drop m s)) (us_uri st), us_mark := None\<rparr>))"

definition uri_action :: "string \<Rightarrow> (uri_error, uri_state) action" where
  "uri_action s a p st =
     (let go = (\<lambda>r. bind_res r (\<lambda>st1. Inr (False, st1)))
      in if a = 0 then Inr (False, st\<lparr>us_mark := Some p\<rparr>)
         else if a = 1 then Inr (False, st\<lparr>us_mark := Some p\<rparr>)
         else if a = 2 then go (from_mark s p st (\<lambda>v u. u\<lparr>u_scheme := v\<rparr>))
         else if a = 3 then
           (if us_mark st = Some p then Inr (False, st\<lparr>us_mark := None\<rparr>)
            else case us_mark st of
              None \<Rightarrow> Inl NullAtoi
            | Some m \<Rightarrow> Inr (False, st\<lparr>us_uri := (us_uri st)\<lparr>u_port := atoi (drop m s)\<rparr>, us_mark := None\<rparr>))
         else if a = 4 then
           (if us_mark st = None then Inr (False, st)
            else go (from_mark s p st (\<lambda>v u. u\<lparr>u_userinfo := v\<rparr>)))
         else if a = 5 then
           (case us_mark st of
              None \<Rightarrow> Inr (False, st)
            | Some m \<Rightarrow> Inr (False, st\<lparr>us_uri := (us_uri st)\<lparr>u_host := take (p - m) (drop m s)\<rparr>\<rparr>))
         else if a = 6 then go (from_mark s p st (\<lambda>v u. u\<lparr>u_path := v\<rparr>))
         else if a = 7 then go (from_mark s p st (\<lambda>v u. u\<lparr>u_query := v\<rparr>))
         else if a = 8 then go (from_mark s p st (\<lambda>v u. u\<lparr>u_fragment := v\<rparr>))
         else Inr (False, st))"

definition uri_parser_start :: nat where "uri_parser_start = 451"
definition uri_parser_first_final :: nat where "uri_parser_first_final = 451"

text \<open>At the end of the text the actions of the last state are run.\<close>

definition uri_eof :: "string \<Rightarrow> nat \<times> nat \<times> uri_state \<Rightarrow> uri_error + nat \<times> uri_state" where
  "uri_eof s r =
     (case r of (cs, p, st) \<Rightarrow>
        if p = length s then
          bind_res (run_actions (uri_action s) (actions_at uri_machine (rg_eof_actions uri_machine cs)) p st)
            (\<lambda>(out, st1). Inr (cs, st1))
        else Inr (cs, st))"

definition CreateUri :: "string \<Rightarrow> uri_error + Uri option" where
  "CreateUri s =
     bind_res (run uri_machine False (uri_action s) uri_parser_start (map schar s) \<lparr>us_uri = new_Uri, us_mark = None\<rparr>) (\<lambda>r.
     bind_res (uri_eof s r) (\<lambda>(cs, st).
       if cs = 0 then Inr None
       else if uri_parser_first_final \<le> cs then Inr (Some (us_uri st))
       else Inr None))"

end
