(* ===== verification/Uri_Rows.thy ===== *)
theory Uri_Rows
  imports Uri_Model
begin

text \<open>
  The steps of the URI machine in the states that a URI with an authority passes: the rows of the tables,
  and the same by classes of characters. The texts of a registered name and the 19 states in which the machine reads
  one, watching for an IPv4 address, are at the end.
\<close>

section \<open>Rows of the URI machine\<close>

lemma uri_row:
  assumes "singles uri_machine cs = ks" "ranges uri_machine cs = rs" "entries uri_machine cs = ts" "0 < cs" "cs < 561"
  shows "step uri_machine False cs c = pick c ks rs ts (entry uri_machine 0)"
proof -
  have row: "row_ok uri_machine cs"
    by (rule tables_ok_row [OF uri_tables_ok assms(4)]) (use assms(5) in \<open>simp add: uri_machine_def\<close>)
  have "\<not> rg_conds uri_machine" by (simp add: uri_machine_def)
  then show ?thesis using step_pick [OF row] assms(1-3) by simp
qed

lemmas uri_eval = ragel_eval uri_machine_def uri_tables nat.distinct

lemma uri_step_451: "step uri_machine False 451 c =
     pick c [34, 35, 37, 47, 58, 60, 62, 63, 96, 127] [(0, 32), (65, 90), (91, 94), (97, 122), (123, 125)]
     [(0, []), (453, []), (3, []), (458, []), (0, []), (0, []), (0, []), (456, []), (0, []), (0, []), (0, []),
     (508, [0]), (0, []), (508, [0]), (0, []), (452, [])] (entry uri_machine 0)"
  by (rule uri_row; simp only: uri_eval)

lemma uri_step_508: "step uri_machine False 508 c =
     pick c [34, 35, 37, 43, 47, 58, 60, 62, 63, 96, 127] [(0, 32), (45, 57), (65, 90), (91, 94), (97, 122),
     (123, 125)] [(0, []), (453, []), (3, []), (508, []), (455, []), (509, [2]), (0, []), (0, []), (456, []),
     (0, []), (0, []), (0, []), (508, []), (508, []), (0, []), (508, []), (0, []), (452, [])] (entry
     uri_machine 0)"
  by (rule uri_row; simp only: uri_eval)

lemma uri_step_509: "step uri_machine False 509 c =
     pick c [34, 35, 37, 47, 60, 62, 63, 96, 127] [(0, 32), (91, 94), (123, 125)] [(0, []), (453, []), (5,
     []), (510, []), (0, []), (0, []), (456, []), (0, []), (0, []), (0, []), (0, []), (0, []), (455, [])]
     (entry uri_machine 0)"
  by (rule uri_row; simp only: uri_eval)

lemma uri_step_510: "step uri_machine False 510 c =
     pick c [34, 35, 37, 47, 60, 62, 63, 96, 127] [(0, 32), (91, 94), (123, 125)] [(0, []), (453, []), (5,
     []), (511, []), (0, []), (0, []), (456, []), (0, []), (0, []), (0, []), (0, []), (0, []), (455, [])]
     (entry uri_machine 0)"
  by (rule uri_row; simp only: uri_eval)

lemma uri_step_511: "step uri_machine False 511 c =
     pick c [2, 33, 35, 37, 47, 48, 49, 50, 58, 59, 61, 63, 64, 91, 95, 126] [(36, 46), (51, 57), (65, 90),
     (97, 122)] [(229, [1]), (520, [1]), (453, [1, 5, 6]), (253, [1]), (513, [1, 5]), (543, [1]), (557, [1]),
     (559, [1]), (521, [1, 5]), (520, [1]), (520, [1]), (456, [1, 5, 6]), (522, [1, 4]), (260, [1]), (520,
     [1]), (520, [1]), (520, [1]), (558, [1]), (520, [1]), (520, [1]), (0, [])] (entry uri_machine 0)"
  by (rule uri_row; simp only: uri_eval)

lemma uri_step_520: "step uri_machine False 520 c =
     pick c [33, 35, 37, 47, 58, 61, 63, 64, 95, 126] [(36, 59), (65, 90), (97, 122)] [(520, []), (453, [5, 1,
     6]), (253, []), (513, [5, 1]), (521, [5]), (520, []), (456, [5, 1, 6]), (522, [4]), (520, []), (520, []),
     (520, []), (520, []), (520, []), (0, [])] (entry uri_machine 0)"
  by (rule uri_row; simp only: uri_eval)

lemma uri_step_521: "step uri_machine False 521 c =
     pick c [33, 35, 37, 47, 61, 63, 64, 95, 126] [(36, 46), (48, 57), (58, 59), (65, 90), (97, 122)] [(255,
     []), (453, [1, 3, 6]), (256, []), (513, [1, 3]), (255, []), (456, [1, 3, 6]), (522, [4]), (255, []),
     (255, []), (255, []), (542, [1]), (255, []), (255, []), (255, []), (0, [])] (entry uri_machine 0)"
  by (rule uri_row; simp only: uri_eval)

lemma uri_step_522: "step uri_machine False 522 c =
     pick c [2, 33, 35, 37, 47, 48, 49, 50, 58, 59, 61, 63, 91, 95, 126] [(36, 46), (51, 57), (65, 90), (97,
     122)] [(229, [1]), (523, [1]), (453, [1, 5, 6]), (258, [1]), (513, [1, 5]), (524, [1]), (538, [1]), (540,
     [1]), (514, [1, 5]), (523, [1]), (523, [1]), (456, [1, 5, 6]), (260, [1]), (523, [1]), (523, [1]), (523,
     [1]), (539, [1]), (523, [1]), (523, [1]), (0, [])] (entry uri_machine 0)"
  by (rule uri_row; simp only: uri_eval)

lemma uri_step_523: "step uri_machine False 523 c =
     pick c [33, 35, 37, 47, 58, 61, 63, 95, 126] [(36, 59), (65, 90), (97, 122)] [(523, []), (453, [5, 1,
     6]), (258, []), (513, [5, 1]), (514, [5]), (523, []), (456, [5, 1, 6]), (523, []), (523, []), (523, []),
     (523, []), (523, []), (0, [])] (entry uri_machine 0)"
  by (rule uri_row; simp only: uri_eval)

lemma uri_step_514: "step uri_machine False 514 c =
     pick c [35, 47, 63] [(48, 57)] [(453, [1, 3, 6]), (513, [1, 3]), (456, [1, 3, 6]), (515, [1]), (0, [])]
     (entry uri_machine 0)"
  by (rule uri_row; simp only: uri_eval)

lemma uri_step_515: "step uri_machine False 515 c =
     pick c [35, 47, 63] [(48, 57)] [(453, [3, 1, 6]), (513, [3, 1]), (456, [3, 1, 6]), (515, []), (0, [])]
     (entry uri_machine 0)"
  by (rule uri_row; simp only: uri_eval)

lemma uri_step_542: "step uri_machine False 542 c =
     pick c [33, 35, 37, 47, 61, 63, 64, 95, 126] [(36, 46), (48, 57), (58, 59), (65, 90), (97, 122)] [(255,
     []), (453, [3, 1, 6]), (256, []), (513, [3, 1]), (255, []), (456, [3, 1, 6]), (522, [4]), (255, []),
     (255, []), (255, []), (542, []), (255, []), (255, []), (255, []), (0, [])] (entry uri_machine 0)"
  by (rule uri_row; simp only: uri_eval)

lemma uri_step_513: "step uri_machine False 513 c =
     pick c [34, 35, 37, 60, 62, 63, 96, 127] [(0, 32), (91, 94), (123, 125)] [(0, []), (453, [6]), (243, []),
     (0, []), (0, []), (456, [6]), (0, []), (0, []), (0, []), (0, []), (0, []), (513, [])] (entry uri_machine
     0)"
  by (rule uri_row; simp only: uri_eval)

lemma uri_step_243: "step uri_machine False 243 c =
     pick c [] [(48, 57), (65, 70), (97, 102)] [(244, []), (244, []), (244, []), (0, [])] (entry uri_machine
     0)"
  by (rule uri_row; simp only: uri_eval)

lemma uri_step_244: "step uri_machine False 244 c =
     pick c [] [(48, 57), (65, 70), (97, 102)] [(513, []), (513, []), (513, []), (0, [])] (entry uri_machine
     0)"
  by (rule uri_row; simp only: uri_eval)

lemma uri_step_456: "step uri_machine False 456 c =
     pick c [34, 35, 37, 60, 62, 96, 127] [(0, 32), (91, 94), (123, 125)] [(0, []), (453, [0, 7]), (7, [0]),
     (0, []), (0, []), (0, []), (0, []), (0, []), (0, []), (0, []), (457, [0])] (entry uri_machine 0)"
  by (rule uri_row; simp only: uri_eval)

lemma uri_step_457: "step uri_machine False 457 c =
     pick c [34, 35, 37, 60, 62, 96, 127] [(0, 32), (91, 94), (123, 125)] [(0, []), (453, [7]), (7, []), (0,
     []), (0, []), (0, []), (0, []), (0, []), (0, []), (0, []), (457, [])] (entry uri_machine 0)"
  by (rule uri_row; simp only: uri_eval)

lemma uri_step_453: "step uri_machine False 453 c =
     pick c [37, 60, 62, 96, 127] [(0, 32), (34, 35), (91, 94), (123, 125)] [(1, [0]), (0, []), (0, []), (0,
     []), (0, []), (0, []), (0, []), (0, []), (0, []), (454, [0])] (entry uri_machine 0)"
  by (rule uri_row; simp only: uri_eval)

lemma uri_step_454: "step uri_machine False 454 c =
     pick c [37, 60, 62, 96, 127] [(0, 32), (34, 35), (91, 94), (123, 125)] [(1, []), (0, []), (0, []), (0,
     []), (0, []), (0, []), (0, []), (0, []), (0, []), (454, [])] (entry uri_machine 0)"
  by (rule uri_row; simp only: uri_eval)

lemma uri_step_7: "step uri_machine False 7 c =
     pick c [] [(48, 57), (65, 70), (97, 102)] [(8, []), (8, []), (8, []), (0, [])] (entry uri_machine 0)"
  by (rule uri_row; simp only: uri_eval)

lemma uri_step_8: "step uri_machine False 8 c =
     pick c [] [(48, 57), (65, 70), (97, 102)] [(457, []), (457, []), (457, []), (0, [])] (entry uri_machine
     0)"
  by (rule uri_row; simp only: uri_eval)

lemma uri_step_1: "step uri_machine False 1 c =
     pick c [] [(48, 57), (65, 70), (97, 102)] [(2, []), (2, []), (2, []), (0, [])] (entry uri_machine 0)"
  by (rule uri_row; simp only: uri_eval)

lemma uri_step_2: "step uri_machine False 2 c =
     pick c [] [(48, 57), (65, 70), (97, 102)] [(454, []), (454, []), (454, []), (0, [])] (entry uri_machine
     0)"
  by (rule uri_row; simp only: uri_eval)

lemma uri_step_253: "step uri_machine False 253 c =
     pick c [] [(48, 57), (65, 70), (97, 102)] [(254, []), (254, []), (254, []), (0, [])] (entry uri_machine
     0)"
  by (rule uri_row; simp only: uri_eval)

lemma uri_step_254: "step uri_machine False 254 c =
     pick c [] [(48, 57), (65, 70), (97, 102)] [(520, []), (520, []), (520, []), (0, [])] (entry uri_machine
     0)"
  by (rule uri_row; simp only: uri_eval)

lemma uri_step_255: "step uri_machine False 255 c =
     pick c [33, 37, 61, 64, 95, 126] [(36, 46), (48, 59), (65, 90), (97, 122)] [(255, []), (256, []), (255,
     []), (522, [4]), (255, []), (255, []), (255, []), (255, []), (255, []), (255, []), (0, [])] (entry
     uri_machine 0)"
  by (rule uri_row; simp only: uri_eval)

lemma uri_step_256: "step uri_machine False 256 c =
     pick c [] [(48, 57), (65, 70), (97, 102)] [(257, []), (257, []), (257, []), (0, [])] (entry uri_machine
     0)"
  by (rule uri_row; simp only: uri_eval)

lemma uri_step_257: "step uri_machine False 257 c =
     pick c [] [(48, 57), (65, 70), (97, 102)] [(255, []), (255, []), (255, []), (0, [])] (entry uri_machine
     0)"
  by (rule uri_row; simp only: uri_eval)

lemma uri_step_258: "step uri_machine False 258 c =
     pick c [] [(48, 57), (65, 70), (97, 102)] [(259, []), (259, []), (259, []), (0, [])] (entry uri_machine
     0)"
  by (rule uri_row; simp only: uri_eval)

lemma uri_step_259: "step uri_machine False 259 c =
     pick c [] [(48, 57), (65, 70), (97, 102)] [(523, []), (523, []), (523, []), (0, [])] (entry uri_machine
     0)"
  by (rule uri_row; simp only: uri_eval)

lemma uri_step_543: "step uri_machine False 543 c =
     pick c [33, 35, 37, 46, 47, 58, 61, 63, 64, 95, 126] [(36, 59), (65, 90), (97, 122)] [(520, []), (453,
     [5, 1, 6]), (253, []), (544, []), (513, [5, 1]), (521, [5]), (520, []), (456, [5, 1, 6]), (522, [4]),
     (520, []), (520, []), (520, []), (520, []), (520, []), (0, [])] (entry uri_machine 0)"
  by (rule uri_row; simp only: uri_eval)

lemma uri_step_544: "step uri_machine False 544 c =
     pick c [2, 33, 35, 37, 47, 48, 49, 50, 58, 59, 61, 63, 64, 95, 126] [(36, 46), (51, 57), (65, 90), (97,
     122)] [(233, []), (520, []), (453, [5, 1, 6]), (253, []), (513, [5, 1]), (545, []), (553, []), (555, []),
     (521, [5]), (520, []), (520, []), (456, [5, 1, 6]), (522, [4]), (520, []), (520, []), (520, []), (554,
     []), (520, []), (520, []), (0, [])] (entry uri_machine 0)"
  by (rule uri_row; simp only: uri_eval)

lemma uri_step_545: "step uri_machine False 545 c =
     pick c [33, 35, 37, 46, 47, 58, 61, 63, 64, 95, 126] [(36, 59), (65, 90), (97, 122)] [(520, []), (453,
     [5, 1, 6]), (253, []), (546, []), (513, [5, 1]), (521, [5]), (520, []), (456, [5, 1, 6]), (522, [4]),
     (520, []), (520, []), (520, []), (520, []), (520, []), (0, [])] (entry uri_machine 0)"
  by (rule uri_row; simp only: uri_eval)

lemma uri_step_546: "step uri_machine False 546 c =
     pick c [2, 33, 35, 37, 47, 48, 49, 50, 58, 59, 61, 63, 64, 95, 126] [(36, 46), (51, 57), (65, 90), (97,
     122)] [(237, []), (520, []), (453, [5, 1, 6]), (253, []), (513, [5, 1]), (547, []), (549, []), (551, []),
     (521, [5]), (520, []), (520, []), (456, [5, 1, 6]), (522, [4]), (520, []), (520, []), (520, []), (550,
     []), (520, []), (520, []), (0, [])] (entry uri_machine 0)"
  by (rule uri_row; simp only: uri_eval)

lemma uri_step_547: "step uri_machine False 547 c =
     pick c [33, 35, 37, 46, 47, 58, 61, 63, 64, 95, 126] [(36, 59), (65, 90), (97, 122)] [(520, []), (453,
     [5, 1, 6]), (253, []), (548, []), (513, [5, 1]), (521, [5]), (520, []), (456, [5, 1, 6]), (522, [4]),
     (520, []), (520, []), (520, []), (520, []), (520, []), (0, [])] (entry uri_machine 0)"
  by (rule uri_row; simp only: uri_eval)

lemma uri_step_548: "step uri_machine False 548 c =
     pick c [2, 33, 35, 37, 47, 58, 61, 63, 64, 95, 126] [(36, 59), (65, 90), (97, 122)] [(241, []), (520,
     []), (453, [5, 1, 6]), (253, []), (513, [5, 1]), (521, [5]), (520, []), (456, [5, 1, 6]), (522, [4]),
     (520, []), (520, []), (520, []), (520, []), (520, []), (0, [])] (entry uri_machine 0)"
  by (rule uri_row; simp only: uri_eval)

lemma uri_step_549: "step uri_machine False 549 c =
     pick c [33, 35, 37, 46, 47, 58, 59, 61, 63, 64, 95, 126] [(36, 45), (48, 57), (65, 90), (97, 122)] [(520,
     []), (453, [5, 1, 6]), (253, []), (548, []), (513, [5, 1]), (521, [5]), (520, []), (520, []), (456, [5,
     1, 6]), (522, [4]), (520, []), (520, []), (520, []), (550, []), (520, []), (520, []), (0, [])] (entry
     uri_machine 0)"
  by (rule uri_row; simp only: uri_eval)

lemma uri_step_550: "step uri_machine False 550 c =
     pick c [33, 35, 37, 46, 47, 58, 59, 61, 63, 64, 95, 126] [(36, 45), (48, 57), (65, 90), (97, 122)] [(520,
     []), (453, [5, 1, 6]), (253, []), (548, []), (513, [5, 1]), (521, [5]), (520, []), (520, []), (456, [5,
     1, 6]), (522, [4]), (520, []), (520, []), (520, []), (547, []), (520, []), (520, []), (0, [])] (entry
     uri_machine 0)"
  by (rule uri_row; simp only: uri_eval)

lemma uri_step_551: "step uri_machine False 551 c =
     pick c [33, 35, 37, 46, 47, 53, 58, 59, 61, 63, 64, 95, 126] [(36, 45), (48, 57), (65, 90), (97, 122)]
     [(520, []), (453, [5, 1, 6]), (253, []), (548, []), (513, [5, 1]), (552, []), (521, [5]), (520, []),
     (520, []), (456, [5, 1, 6]), (522, [4]), (520, []), (520, []), (520, []), (547, []), (520, []), (520,
     []), (0, [])] (entry uri_machine 0)"
  by (rule uri_row; simp only: uri_eval)

lemma uri_step_552: "step uri_machine False 552 c =
     pick c [33, 35, 37, 46, 47, 58, 61, 63, 64, 95, 126] [(36, 45), (48, 53), (54, 59), (65, 90), (97, 122)]
     [(520, []), (453, [5, 1, 6]), (253, []), (548, []), (513, [5, 1]), (521, [5]), (520, []), (456, [5, 1,
     6]), (522, [4]), (520, []), (520, []), (520, []), (547, []), (520, []), (520, []), (520, []), (0, [])]
     (entry uri_machine 0)"
  by (rule uri_row; simp only: uri_eval)

lemma uri_step_553: "step uri_machine False 553 c =
     pick c [33, 35, 37, 46, 47, 58, 59, 61, 63, 64, 95, 126] [(36, 45), (48, 57), (65, 90), (97, 122)] [(520,
     []), (453, [5, 1, 6]), (253, []), (546, []), (513, [5, 1]), (521, [5]), (520, []), (520, []), (456, [5,
     1, 6]), (522, [4]), (520, []), (520, []), (520, []), (554, []), (520, []), (520, []), (0, [])] (entry
     uri_machine 0)"
  by (rule uri_row; simp only: uri_eval)

lemma uri_step_554: "step uri_machine False 554 c =
     pick c [33, 35, 37, 46, 47, 58, 59, 61, 63, 64, 95, 126] [(36, 45), (48, 57), (65, 90), (97, 122)] [(520,
     []), (453, [5, 1, 6]), (253, []), (546, []), (513, [5, 1]), (521, [5]), (520, []), (520, []), (456, [5,
     1, 6]), (522, [4]), (520, []), (520, []), (520, []), (545, []), (520, []), (520, []), (0, [])] (entry
     uri_machine 0)"
  by (rule uri_row; simp only: uri_eval)

lemma uri_step_555: "step uri_machine False 555 c =
     pick c [33, 35, 37, 46, 47, 53, 58, 59, 61, 63, 64, 95, 126] [(36, 45), (48, 57), (65, 90), (97, 122)]
     [(520, []), (453, [5, 1, 6]), (253, []), (546, []), (513, [5, 1]), (556, []), (521, [5]), (520, []),
     (520, []), (456, [5, 1, 6]), (522, [4]), (520, []), (520, []), (520, []), (545, []), (520, []), (520,
     []), (0, [])] (entry uri_machine 0)"
  by (rule uri_row; simp only: uri_eval)

lemma uri_step_556: "step uri_machine False 556 c =
     pick c [33, 35, 37, 46, 47, 58, 61, 63, 64, 95, 126] [(36, 45), (48, 53), (54, 59), (65, 90), (97, 122)]
     [(520, []), (453, [5, 1, 6]), (253, []), (546, []), (513, [5, 1]), (521, [5]), (520, []), (456, [5, 1,
     6]), (522, [4]), (520, []), (520, []), (520, []), (545, []), (520, []), (520, []), (520, []), (0, [])]
     (entry uri_machine 0)"
  by (rule uri_row; simp only: uri_eval)

lemma uri_step_557: "step uri_machine False 557 c =
     pick c [33, 35, 37, 46, 47, 58, 59, 61, 63, 64, 95, 126] [(36, 45), (48, 57), (65, 90), (97, 122)] [(520,
     []), (453, [5, 1, 6]), (253, []), (544, []), (513, [5, 1]), (521, [5]), (520, []), (520, []), (456, [5,
     1, 6]), (522, [4]), (520, []), (520, []), (520, []), (558, []), (520, []), (520, []), (0, [])] (entry
     uri_machine 0)"
  by (rule uri_row; simp only: uri_eval)

lemma uri_step_558: "step uri_machine False 558 c =
     pick c [33, 35, 37, 46, 47, 58, 59, 61, 63, 64, 95, 126] [(36, 45), (48, 57), (65, 90), (97, 122)] [(520,
     []), (453, [5, 1, 6]), (253, []), (544, []), (513, [5, 1]), (521, [5]), (520, []), (520, []), (456, [5,
     1, 6]), (522, [4]), (520, []), (520, []), (520, []), (543, []), (520, []), (520, []), (0, [])] (entry
     uri_machine 0)"
  by (rule uri_row; simp only: uri_eval)

lemma uri_step_559: "step uri_machine False 559 c =
     pick c [33, 35, 37, 46, 47, 53, 58, 59, 61, 63, 64, 95, 126] [(36, 45), (48, 57), (65, 90), (97, 122)]
     [(520, []), (453, [5, 1, 6]), (253, []), (544, []), (513, [5, 1]), (560, []), (521, [5]), (520, []),
     (520, []), (456, [5, 1, 6]), (522, [4]), (520, []), (520, []), (520, []), (543, []), (520, []), (520,
     []), (0, [])] (entry uri_machine 0)"
  by (rule uri_row; simp only: uri_eval)

lemma uri_step_560: "step uri_machine False 560 c =
     pick c [33, 35, 37, 46, 47, 58, 61, 63, 64, 95, 126] [(36, 45), (48, 53), (54, 59), (65, 90), (97, 122)]
     [(520, []), (453, [5, 1, 6]), (253, []), (544, []), (513, [5, 1]), (521, [5]), (520, []), (456, [5, 1,
     6]), (522, [4]), (520, []), (520, []), (520, []), (543, []), (520, []), (520, []), (520, []), (0, [])]
     (entry uri_machine 0)"
  by (rule uri_row; simp only: uri_eval)

lemma uri_step_524: "step uri_machine False 524 c =
     pick c [33, 35, 37, 46, 47, 58, 61, 63, 95, 126] [(36, 59), (65, 90), (97, 122)] [(523, []), (453, [5, 1,
     6]), (258, []), (525, []), (513, [5, 1]), (514, [5]), (523, []), (456, [5, 1, 6]), (523, []), (523, []),
     (523, []), (523, []), (523, []), (0, [])] (entry uri_machine 0)"
  by (rule uri_row; simp only: uri_eval)

lemma uri_step_525: "step uri_machine False 525 c =
     pick c [2, 33, 35, 37, 47, 48, 49, 50, 58, 59, 61, 63, 95, 126] [(36, 46), (51, 57), (65, 90), (97, 122)]
     [(233, []), (523, []), (453, [5, 1, 6]), (258, []), (513, [5, 1]), (526, []), (534, []), (536, []), (514,
     [5]), (523, []), (523, []), (456, [5, 1, 6]), (523, []), (523, []), (523, []), (535, []), (523, []),
     (523, []), (0, [])] (entry uri_machine 0)"
  by (rule uri_row; simp only: uri_eval)

lemma uri_step_526: "step uri_machine False 526 c =
     pick c [33, 35, 37, 46, 47, 58, 61, 63, 95, 126] [(36, 59), (65, 90), (97, 122)] [(523, []), (453, [5, 1,
     6]), (258, []), (527, []), (513, [5, 1]), (514, [5]), (523, []), (456, [5, 1, 6]), (523, []), (523, []),
     (523, []), (523, []), (523, []), (0, [])] (entry uri_machine 0)"
  by (rule uri_row; simp only: uri_eval)

lemma uri_step_527: "step uri_machine False 527 c =
     pick c [2, 33, 35, 37, 47, 48, 49, 50, 58, 59, 61, 63, 95, 126] [(36, 46), (51, 57), (65, 90), (97, 122)]
     [(237, []), (523, []), (453, [5, 1, 6]), (258, []), (513, [5, 1]), (528, []), (530, []), (532, []), (514,
     [5]), (523, []), (523, []), (456, [5, 1, 6]), (523, []), (523, []), (523, []), (531, []), (523, []),
     (523, []), (0, [])] (entry uri_machine 0)"
  by (rule uri_row; simp only: uri_eval)

lemma uri_step_528: "step uri_machine False 528 c =
     pick c [33, 35, 37, 46, 47, 58, 61, 63, 95, 126] [(36, 59), (65, 90), (97, 122)] [(523, []), (453, [5, 1,
     6]), (258, []), (529, []), (513, [5, 1]), (514, [5]), (523, []), (456, [5, 1, 6]), (523, []), (523, []),
     (523, []), (523, []), (523, []), (0, [])] (entry uri_machine 0)"
  by (rule uri_row; simp only: uri_eval)

lemma uri_step_529: "step uri_machine False 529 c =
     pick c [2, 33, 35, 37, 47, 58, 61, 63, 95, 126] [(36, 59), (65, 90), (97, 122)] [(241, []), (523, []),
     (453, [5, 1, 6]), (258, []), (513, [5, 1]), (514, [5]), (523, []), (456, [5, 1, 6]), (523, []), (523,
     []), (523, []), (523, []), (523, []), (0, [])] (entry uri_machine 0)"
  by (rule uri_row; simp only: uri_eval)

lemma uri_step_530: "step uri_machine False 530 c =
     pick c [33, 35, 37, 46, 47, 58, 59, 61, 63, 95, 126] [(36, 45), (48, 57), (65, 90), (97, 122)] [(523,
     []), (453, [5, 1, 6]), (258, []), (529, []), (513, [5, 1]), (514, [5]), (523, []), (523, []), (456, [5,
     1, 6]), (523, []), (523, []), (523, []), (531, []), (523, []), (523, []), (0, [])] (entry uri_machine 0)"
  by (rule uri_row; simp only: uri_eval)

lemma uri_step_531: "step uri_machine False 531 c =
     pick c [33, 35, 37, 46, 47, 58, 59, 61, 63, 95, 126] [(36, 45), (48, 57), (65, 90), (97, 122)] [(523,
     []), (453, [5, 1, 6]), (258, []), (529, []), (513, [5, 1]), (514, [5]), (523, []), (523, []), (456, [5,
     1, 6]), (523, []), (523, []), (523, []), (528, []), (523, []), (523, []), (0, [])] (entry uri_machine 0)"
  by (rule uri_row; simp only: uri_eval)

lemma uri_step_532: "step uri_machine False 532 c =
     pick c [33, 35, 37, 46, 47, 53, 58, 59, 61, 63, 95, 126] [(36, 45), (48, 57), (65, 90), (97, 122)] [(523,
     []), (453, [5, 1, 6]), (258, []), (529, []), (513, [5, 1]), (533, []), (514, [5]), (523, []), (523, []),
     (456, [5, 1, 6]), (523, []), (523, []), (523, []), (528, []), (523, []), (523, []), (0, [])] (entry
     uri_machine 0)"
  by (rule uri_row; simp only: uri_eval)

lemma uri_step_533: "step uri_machine False 533 c =
     pick c [33, 35, 37, 46, 47, 58, 61, 63, 95, 126] [(36, 45), (48, 53), (54, 59), (65, 90), (97, 122)]
     [(523, []), (453, [5, 1, 6]), (258, []), (529, []), (513, [5, 1]), (514, [5]), (523, []), (456, [5, 1,
     6]), (523, []), (523, []), (523, []), (528, []), (523, []), (523, []), (523, []), (0, [])] (entry
     uri_machine 0)"
  by (rule uri_row; simp only: uri_eval)

lemma uri_step_534: "step uri_machine False 534 c =
     pick c [33, 35, 37, 46, 47, 58, 59, 61, 63, 95, 126] [(36, 45), (48, 57), (65, 90), (97, 122)] [(523,
     []), (453, [5, 1, 6]), (258, []), (527, []), (513, [5, 1]), (514, [5]), (523, []), (523, []), (456, [5,
     1, 6]), (523, []), (523, []), (523, []), (535, []), (523, []), (523, []), (0, [])] (entry uri_machine 0)"
  by (rule uri_row; simp only: uri_eval)

lemma uri_step_535: "step uri_machine False 535 c =
     pick c [33, 35, 37, 46, 47, 58, 59, 61, 63, 95, 126] [(36, 45), (48, 57), (65, 90), (97, 122)] [(523,
     []), (453, [5, 1, 6]), (258, []), (527, []), (513, [5, 1]), (514, [5]), (523, []), (523, []), (456, [5,
     1, 6]), (523, []), (523, []), (523, []), (526, []), (523, []), (523, []), (0, [])] (entry uri_machine 0)"
  by (rule uri_row; simp only: uri_eval)

lemma uri_step_536: "step uri_machine False 536 c =
     pick c [33, 35, 37, 46, 47, 53, 58, 59, 61, 63, 95, 126] [(36, 45), (48, 57), (65, 90), (97, 122)] [(523,
     []), (453, [5, 1, 6]), (258, []), (527, []), (513, [5, 1]), (537, []), (514, [5]), (523, []), (523, []),
     (456, [5, 1, 6]), (523, []), (523, []), (523, []), (526, []), (523, []), (523, []), (0, [])] (entry
     uri_machine 0)"
  by (rule uri_row; simp only: uri_eval)

lemma uri_step_537: "step uri_machine False 537 c =
     pick c [33, 35, 37, 46, 47, 58, 61, 63, 95, 126] [(36, 45), (48, 53), (54, 59), (65, 90), (97, 122)]
     [(523, []), (453, [5, 1, 6]), (258, []), (527, []), (513, [5, 1]), (514, [5]), (523, []), (456, [5, 1,
     6]), (523, []), (523, []), (523, []), (526, []), (523, []), (523, []), (523, []), (0, [])] (entry
     uri_machine 0)"
  by (rule uri_row; simp only: uri_eval)

lemma uri_step_538: "step uri_machine False 538 c =
     pick c [33, 35, 37, 46, 47, 58, 59, 61, 63, 95, 126] [(36, 45), (48, 57), (65, 90), (97, 122)] [(523,
     []), (453, [5, 1, 6]), (258, []), (525, []), (513, [5, 1]), (514, [5]), (523, []), (523, []), (456, [5,
     1, 6]), (523, []), (523, []), (523, []), (539, []), (523, []), (523, []), (0, [])] (entry uri_machine 0)"
  by (rule uri_row; simp only: uri_eval)

lemma uri_step_539: "step uri_machine False 539 c =
     pick c [33, 35, 37, 46, 47, 58, 59, 61, 63, 95, 126] [(36, 45), (48, 57), (65, 90), (97, 122)] [(523,
     []), (453, [5, 1, 6]), (258, []), (525, []), (513, [5, 1]), (514, [5]), (523, []), (523, []), (456, [5,
     1, 6]), (523, []), (523, []), (523, []), (524, []), (523, []), (523, []), (0, [])] (entry uri_machine 0)"
  by (rule uri_row; simp only: uri_eval)

lemma uri_step_540: "step uri_machine False 540 c =
     pick c [33, 35, 37, 46, 47, 53, 58, 59, 61, 63, 95, 126] [(36, 45), (48, 57), (65, 90), (97, 122)] [(523,
     []), (453, [5, 1, 6]), (258, []), (525, []), (513, [5, 1]), (541, []), (514, [5]), (523, []), (523, []),
     (456, [5, 1, 6]), (523, []), (523, []), (523, []), (524, []), (523, []), (523, []), (0, [])] (entry
     uri_machine 0)"
  by (rule uri_row; simp only: uri_eval)

lemma uri_step_541: "step uri_machine False 541 c =
     pick c [33, 35, 37, 46, 47, 58, 61, 63, 95, 126] [(36, 45), (48, 53), (54, 59), (65, 90), (97, 122)]
     [(523, []), (453, [5, 1, 6]), (258, []), (525, []), (513, [5, 1]), (514, [5]), (523, []), (456, [5, 1,
     6]), (523, []), (523, []), (523, []), (524, []), (523, []), (523, []), (523, []), (0, [])] (entry
     uri_machine 0)"
  by (rule uri_row; simp only: uri_eval)

lemma uri_eof_rows:
  "actions_at uri_machine (rg_eof_actions uri_machine 513) = [6]"
  "actions_at uri_machine (rg_eof_actions uri_machine 457) = [7]"
  "actions_at uri_machine (rg_eof_actions uri_machine 454) = [8]"
  by (simp_all only: uri_eval)

section \<open>Steps on classes of characters\<close>

definition alpha :: "char \<Rightarrow> bool" where
  "alpha c \<longleftrightarrow> 65 \<le> schar c \<and> schar c \<le> 90 \<or> 97 \<le> schar c \<and> schar c \<le> 122"

definition scheme_char :: "char \<Rightarrow> bool" where
  "scheme_char c \<longleftrightarrow> alpha c \<or> 48 \<le> schar c \<and> schar c \<le> 57 \<or> schar c = 43 \<or> schar c = 45 \<or> schar c = 46"

definition number_char :: "char \<Rightarrow> bool" where
  "number_char c \<longleftrightarrow> 48 \<le> schar c \<and> schar c \<le> 57"

abbreviation ustep :: "nat \<Rightarrow> char \<Rightarrow> nat \<times> nat list" where
  "ustep cs c \<equiv> step uri_machine False cs (schar c)"

lemma ustep_alpha:
  assumes "alpha c"
  shows "ustep 451 c = (508, [0])"
  using assms unfolding uri_step_451 alpha_def by (elim disjE; simp)

lemma ustep_scheme:
  assumes "scheme_char c"
  shows "ustep 508 c = (508, [])"
  using assms unfolding uri_step_508 scheme_char_def alpha_def by (elim disjE; simp)

lemma ustep_number:
  assumes "number_char c"
  shows "ustep 521 c = (542, [1])" "ustep 542 c = (542, [])" "ustep 514 c = (515, [1])" "ustep 515 c = (515, [])"
  using assms unfolding uri_step_521 uri_step_542 uri_step_514 uri_step_515 number_char_def by simp_all

lemma ustep_uri:
  "uri_char False c \<Longrightarrow> ustep 513 c = (513, [])"
  "uri_char True c \<Longrightarrow> ustep 456 c = (457, [0])" "uri_char True c \<Longrightarrow> ustep 457 c = (457, [])"
  "uri_char True c \<Longrightarrow> ustep 453 c = (454, [0])" "uri_char True c \<Longrightarrow> ustep 454 c = (454, [])"
  using schar_range [of c] unfolding uri_step_513 uri_step_456 uri_step_457 uri_step_453 uri_step_454 uri_char_def Let_def
  by (elim disjE; simp)+

lemma ustep_hex:
  assumes "hex_char c"
  shows "ustep 243 c = (244, [])" "ustep 244 c = (513, [])" "ustep 7 c = (8, [])" "ustep 8 c = (457, [])"
    "ustep 1 c = (2, [])" "ustep 2 c = (454, [])"
  using assms unfolding uri_step_243 uri_step_244 uri_step_7 uri_step_8 uri_step_1 uri_step_2 hex_char_def
  by (elim disjE; simp)+

lemma ustep_special:
  "ustep 508 (CHR '':'') = (509, [2])" "ustep 509 (CHR ''/'') = (510, [])" "ustep 510 (CHR ''/'') = (511, [])"
  "ustep 542 (CHR ''/'') = (513, [3, 1])" "ustep 515 (CHR ''/'') = (513, [3, 1])"
  "ustep 521 (CHR ''/'') = (513, [1, 3])" "ustep 514 (CHR ''/'') = (513, [1, 3])"
  "ustep 513 (CHR ''?'') = (456, [6])" "ustep 513 (CHR ''#'') = (453, [6])" "ustep 457 (CHR ''#'') = (453, [7])"
  "ustep 513 (CHR ''%'') = (243, [])" "ustep 456 (CHR ''%'') = (7, [0])" "ustep 457 (CHR ''%'') = (7, [])"
  "ustep 453 (CHR ''%'') = (1, [0])" "ustep 454 (CHR ''%'') = (1, [])"
  by (simp_all add: schar_def uri_step_508 uri_step_509 uri_step_510 uri_step_542
      uri_step_515 uri_step_521 uri_step_514 uri_step_513 uri_step_456 uri_step_457 uri_step_453 uri_step_454)

abbreviation uwalk :: "nat \<Rightarrow> string \<Rightarrow> nat option" where
  "uwalk \<equiv> walk uri_machine False"

lemma uwalk_uri:
  "uri_text False xs \<Longrightarrow> uwalk 513 xs = Some 513"
  "uri_text True xs \<Longrightarrow> uwalk 457 xs = Some 457"
  "uri_text True xs \<Longrightarrow> uwalk 454 xs = Some 454"
proof -
  have "(q \<longrightarrow> uri_text q xs \<longrightarrow> uwalk 457 xs = Some 457 \<and> uwalk 454 xs = Some 454) \<and>
     (\<not> q \<longrightarrow> uri_text q xs \<longrightarrow> uwalk 513 xs = Some 513)" for q
    by (induction q xs rule: uri_text.induct)
      (auto simp: ustep_special ustep_hex ustep_uri simp del: One_nat_def split: list.splits)
  from this [of True] this [of False] show
  "uri_text False xs \<Longrightarrow> uwalk 513 xs = Some 513"
  "uri_text True xs \<Longrightarrow> uwalk 457 xs = Some 457"
  "uri_text True xs \<Longrightarrow> uwalk 454 xs = Some 454" by blast+
qed

section \<open>The states inside a user name or host\<close>

text \<open>
  The characters of a registered name: \<open>unreserved\<close> and \<open>sub_delims\<close> of the grammar. While the
  machine reads one it also watches for the four numbers of an IPv4 address, so that it may be in one
  of 19 states before the user info is known to end or not, and in one of 19 others after it.
\<close>

definition reg_char :: "char \<Rightarrow> bool" where
  "reg_char c \<longleftrightarrow> (let n = schar c in
     n = 33 \<or> n = 36 \<or> 38 \<le> n \<and> n \<le> 46 \<or> 48 \<le> n \<and> n \<le> 57 \<or> n = 59 \<or> n = 61 \<or> 65 \<le> n \<and> n \<le> 90 \<or> n = 95 \<or>
     97 \<le> n \<and> n \<le> 122 \<or> n = 126)"

fun reg_text :: "string \<Rightarrow> bool" where
  "reg_text [] \<longleftrightarrow> True"
| "reg_text (c # s) \<longleftrightarrow>
     (if c = CHR ''%'' then (case s of h # l # r \<Rightarrow> hex_char h \<and> hex_char l \<and> reg_text r | _ \<Rightarrow> False)
      else reg_char c \<and> reg_text s)"

definition host_states :: "bool \<Rightarrow> nat list" where
  "host_states u = (if u then [523..<542] else 520 # [543..<561])"

definition host_next :: "bool \<Rightarrow> nat \<times> nat list \<Rightarrow> bool" where
  "host_next u t \<longleftrightarrow> snd t = [] \<and> fst t \<in> set (host_states u)"

lemma host_states_list:
  "host_states False = [520, 543, 544, 545, 546, 547, 548, 549, 550, 551, 552, 553, 554, 555, 556, 557, 558, 559, 560]"
  "host_states True = [523, 524, 525, 526, 527, 528, 529, 530, 531, 532, 533, 534, 535, 536, 537, 538, 539, 540, 541]"
  by (simp_all add: host_states_def upt_rec_numeral)

lemma host_rows_520:
  assumes "reg_char c"
  shows "host_next False (ustep 520 c)"
    "host_next False (ustep 543 c)"
    "host_next False (ustep 544 c)"
    "host_next False (ustep 545 c)"
    "host_next False (ustep 546 c)"
  using assms unfolding uri_step_520 uri_step_543 uri_step_544 uri_step_545 uri_step_546
    host_next_def host_states_list reg_char_def Let_def
  by (elim disjE; simp)+

lemma host_rows_547:
  assumes "reg_char c"
  shows "host_next False (ustep 547 c)"
    "host_next False (ustep 548 c)"
    "host_next False (ustep 549 c)"
    "host_next False (ustep 550 c)"
    "host_next False (ustep 551 c)"
  using assms unfolding uri_step_547 uri_step_548 uri_step_549 uri_step_550 uri_step_551
    host_next_def host_states_list reg_char_def Let_def
  by (elim disjE; simp)+

lemma host_rows_552:
  assumes "reg_char c"
  shows "host_next False (ustep 552 c)"
    "host_next False (ustep 553 c)"
    "host_next False (ustep 554 c)"
    "host_next False (ustep 555 c)"
    "host_next False (ustep 556 c)"
  using assms unfolding uri_step_552 uri_step_553 uri_step_554 uri_step_555 uri_step_556
    host_next_def host_states_list reg_char_def Let_def
  by (elim disjE; simp)+

lemma host_rows_557:
  assumes "reg_char c"
  shows "host_next False (ustep 557 c)"
    "host_next False (ustep 558 c)"
    "host_next False (ustep 559 c)"
    "host_next False (ustep 560 c)"
  using assms unfolding uri_step_557 uri_step_558 uri_step_559 uri_step_560
    host_next_def host_states_list reg_char_def Let_def
  by (elim disjE; simp)+

lemma host_rows_False: "reg_char c \<Longrightarrow> list_all (\<lambda>s. host_next False (ustep s c)) (host_states False)"
  by (simp only: host_states_list list.pred_inject simp_thms host_rows_520 host_rows_547 host_rows_552 host_rows_557)

lemma host_specials_False:
  "list_all (\<lambda>s. ustep s (CHR ''%'') = (253, [])) (host_states False)"
  "list_all (\<lambda>s. ustep s (CHR ''/'') = (513, [5, 1])) (host_states False)"
  "list_all (\<lambda>s. ustep s (CHR '':'') = (521, [5])) (host_states False)"
  "list_all (\<lambda>s. ustep s (CHR ''@'') = (522, [4])) (host_states False)"
  by (simp_all add: host_states_list schar_def
    uri_step_520 uri_step_543 uri_step_544 uri_step_545 uri_step_546 uri_step_547 uri_step_548 uri_step_549
    uri_step_550 uri_step_551 uri_step_552 uri_step_553 uri_step_554 uri_step_555 uri_step_556 uri_step_557
    uri_step_558 uri_step_559 uri_step_560)

lemma host_rows_523:
  assumes "reg_char c"
  shows "host_next True (ustep 523 c)"
    "host_next True (ustep 524 c)"
    "host_next True (ustep 525 c)"
    "host_next True (ustep 526 c)"
    "host_next True (ustep 527 c)"
  using assms unfolding uri_step_523 uri_step_524 uri_step_525 uri_step_526 uri_step_527
    host_next_def host_states_list reg_char_def Let_def
  by (elim disjE; simp)+

lemma host_rows_528:
  assumes "reg_char c"
  shows "host_next True (ustep 528 c)"
    "host_next True (ustep 529 c)"
    "host_next True (ustep 530 c)"
    "host_next True (ustep 531 c)"
    "host_next True (ustep 532 c)"
  using assms unfolding uri_step_528 uri_step_529 uri_step_530 uri_step_531 uri_step_532
    host_next_def host_states_list reg_char_def Let_def
  by (elim disjE; simp)+

lemma host_rows_533:
  assumes "reg_char c"
  shows "host_next True (ustep 533 c)"
    "host_next True (ustep 534 c)"
    "host_next True (ustep 535 c)"
    "host_next True (ustep 536 c)"
    "host_next True (ustep 537 c)"
  using assms unfolding uri_step_533 uri_step_534 uri_step_535 uri_step_536 uri_step_537
    host_next_def host_states_list reg_char_def Let_def
  by (elim disjE; simp)+

lemma host_rows_538:
  assumes "reg_char c"
  shows "host_next True (ustep 538 c)"
    "host_next True (ustep 539 c)"
    "host_next True (ustep 540 c)"
    "host_next True (ustep 541 c)"
  using assms unfolding uri_step_538 uri_step_539 uri_step_540 uri_step_541
    host_next_def host_states_list reg_char_def Let_def
  by (elim disjE; simp)+

lemma host_rows_True: "reg_char c \<Longrightarrow> list_all (\<lambda>s. host_next True (ustep s c)) (host_states True)"
  by (simp only: host_states_list list.pred_inject simp_thms host_rows_523 host_rows_528 host_rows_533 host_rows_538)

lemma host_specials_True:
  "list_all (\<lambda>s. ustep s (CHR ''%'') = (258, [])) (host_states True)"
  "list_all (\<lambda>s. ustep s (CHR ''/'') = (513, [5, 1])) (host_states True)"
  "list_all (\<lambda>s. ustep s (CHR '':'') = (514, [5])) (host_states True)"
  by (simp_all add: host_states_list schar_def
    uri_step_523 uri_step_524 uri_step_525 uri_step_526 uri_step_527 uri_step_528 uri_step_529 uri_step_530
    uri_step_531 uri_step_532 uri_step_533 uri_step_534 uri_step_535 uri_step_536 uri_step_537 uri_step_538
    uri_step_539 uri_step_540 uri_step_541)

lemma ustep_host:
  assumes "s \<in> set (host_states u)"
  shows "reg_char c \<Longrightarrow> \<exists>t. ustep s c = (t, []) \<and> t \<in> set (host_states u)"
    "ustep s (CHR ''%'') = (if u then 258 else 253, [])" "ustep s (CHR ''/'') = (513, [5, 1])"
    "ustep s (CHR '':'') = (if u then 514 else 521, [5])" "\<not> u \<Longrightarrow> ustep s (CHR ''@'') = (522, [4])"
proof -
  show "\<exists>t. ustep s c = (t, []) \<and> t \<in> set (host_states u)" if "reg_char c"
  proof -
    have "host_next u (ustep s c)" using assms host_rows_False [OF that] host_rows_True [OF that] by (cases u) (auto simp only: list_all_iff)
    then show ?thesis unfolding host_next_def by (cases "ustep s c") simp
  qed
  show "ustep s (CHR ''%'') = (if u then 258 else 253, [])" "ustep s (CHR ''/'') = (513, [5, 1])"
    "ustep s (CHR '':'') = (if u then 514 else 521, [5])"
    using assms host_specials_False host_specials_True by (cases u; simp add: list_all_iff)+
  show "ustep s (CHR ''@'') = (522, [4])" if "\<not> u" using assms host_specials_False(4) that by (simp add: list_all_iff)
qed

text \<open>The first character, and the states after a percent sign and after a colon.\<close>

lemma ustep_first:
  assumes "reg_char c"
  shows "\<exists>t. ustep 511 c = (t, [1]) \<and> t \<in> set (host_states False)" "\<exists>t. ustep 522 c = (t, [1]) \<and> t \<in> set (host_states True)"
proof -
  have "snd (ustep 511 c) = [1] \<and> fst (ustep 511 c) \<in> set (host_states False)" "snd (ustep 522 c) = [1] \<and> fst (ustep 522 c) \<in> set (host_states True)"
    using assms unfolding uri_step_511 uri_step_522 host_states_list reg_char_def Let_def by (elim disjE; simp)+
  then show "\<exists>t. ustep 511 c = (t, [1]) \<and> t \<in> set (host_states False)" "\<exists>t. ustep 522 c = (t, [1]) \<and> t \<in> set (host_states True)"
    by (metis prod.collapse)+
qed

lemma ustep_password:
  "reg_char c \<Longrightarrow> ustep 255 c = (255, [])"
  "reg_char c \<Longrightarrow> \<not> number_char c \<Longrightarrow> ustep 521 c = (255, [])" "reg_char c \<Longrightarrow> \<not> number_char c \<Longrightarrow> ustep 542 c = (255, [])"
  unfolding uri_step_255 uri_step_521 uri_step_542 reg_char_def number_char_def Let_def by (elim disjE; simp)+

lemma ustep_name_hex:
  assumes "hex_char c"
  shows "ustep 253 c = (254, [])" "ustep 254 c = (520, [])" "ustep 256 c = (257, [])" "ustep 257 c = (255, [])" "ustep 258 c = (259, [])"
    "ustep 259 c = (523, [])"
  using assms unfolding uri_step_253 uri_step_254 uri_step_256 uri_step_257 uri_step_258 uri_step_259 hex_char_def
  by (elim disjE; simp)+

lemma ustep_name_special:
  "ustep 511 (CHR ''%'') = (253, [1])" "ustep 511 (CHR ''/'') = (513, [1, 5])" "ustep 511 (CHR '':'') = (521, [1, 5])"
  "ustep 522 (CHR ''%'') = (258, [1])" "ustep 522 (CHR ''/'') = (513, [1, 5])" "ustep 522 (CHR '':'') = (514, [1, 5])"
  "ustep 255 (CHR ''%'') = (256, [])" "ustep 521 (CHR ''%'') = (256, [])" "ustep 542 (CHR ''%'') = (256, [])"
  "ustep 255 (CHR '':'') = (255, [])" "ustep 521 (CHR '':'') = (255, [])" "ustep 542 (CHR '':'') = (255, [])"
  "ustep 255 (CHR ''@'') = (522, [4])" "ustep 521 (CHR ''@'') = (522, [4])" "ustep 542 (CHR ''@'') = (522, [4])"
  by (simp_all add: schar_def uri_step_511 uri_step_522 uri_step_255 uri_step_521 uri_step_542)

end
