(* ===== verification/Uri_Parse.thy ===== *)
theory Uri_Parse
  imports Uri_Rows
begin

text \<open>
  Runs of the URI parser, one lemma
  per part of a URI, and their composition to the round trip through the text form. An empty
  port makes the parser throw, and a user info with a digit behind its colon loses the user name.
\<close>

section \<open>The parts of a URI\<close>

abbreviation ugoes :: "string \<Rightarrow> nat \<Rightarrow> nat \<Rightarrow> uri_state \<Rightarrow> uri_error + nat \<times> nat \<times> uri_state" where
  "ugoes s \<equiv> goes uri_machine False (uri_action s) s"

lemma ugoes_scheme:
  assumes "drop p s = (c # cs) @ ''://'' @ ys" "alpha c" "list_all scheme_char cs"
  shows "ugoes s 451 p st = ugoes s 511 (p + length cs + 4)
    (st\<lparr>us_mark := None, us_uri := (us_uri st)\<lparr>u_scheme := c # cs\<rparr>\<rparr>)"
proof -
  have d1: "drop (p + 1) s = cs @ ''://'' @ ys" using drop_next [of p s "[c]"] assms(1) by simp
  have d2: "drop (p + 1 + length cs) s = CHR '':'' # ''//'' @ ys" using drop_next [OF d1] by simp
  have d3: "drop (p + 1 + length cs + 1) s = ''//'' @ ys" using drop_next [of _ s "[CHR '':'']"] d2 by simp
  have "ugoes s 451 p st = ugoes s 508 (p + 1) (st\<lparr>us_mark := Some p\<rparr>)"
    using assms(1) ustep_alpha [OF assms(2)] by (intro goes_move) (auto simp: uri_action_def)
  also have "\<dots> = ugoes s 508 (p + 1 + length cs) (st\<lparr>us_mark := Some p\<rparr>)"
    using assms(3) by (intro goes_walk [OF d1] walk_stay) (auto simp: ustep_scheme list_all_iff)
  also have "\<dots> = ugoes s 509 (p + 1 + length cs + 1) (st\<lparr>us_mark := None, us_uri := (us_uri st)\<lparr>u_scheme := c # cs\<rparr>\<rparr>)"
    using assms(1) by (intro goes_move [OF d2]) (auto simp: ustep_special uri_action_def from_mark_def)
  also have "\<dots> = ugoes s 511 (p + 1 + length cs + 1 + length ''//'')
      (st\<lparr>us_mark := None, us_uri := (us_uri st)\<lparr>u_scheme := c # cs\<rparr>\<rparr>)"
    by (rule goes_walk [OF d3]) (simp add: ustep_special)
  finally show ?thesis by (simp add: eval_nat_numeral)
qed

text \<open>A registered name, a host or the user name.\<close>

lemma host_states_pos: "s \<in> set (host_states u) \<Longrightarrow> s \<noteq> 0" "520 \<in> set (host_states False)" "523 \<in> set (host_states True)"
  by (auto simp: host_states_def split: if_splits)

lemma uwalk_reg: "reg_text xs \<Longrightarrow> s \<in> set (host_states u) \<Longrightarrow> \<exists>t. uwalk s xs = Some t \<and> t \<in> set (host_states u)"
proof (induction xs arbitrary: s rule: reg_text.induct)
  case (2 c xs)
  show ?case
  proof (cases "c = CHR ''%''")
    case True
    then obtain h l r where x: "xs = h # l # r" "hex_char h" "hex_char l" "reg_text r" using "2.prems"(1) by (auto split: list.splits)
    have "if u then uwalk s (c # xs) = uwalk 523 r else uwalk s (c # xs) = uwalk 520 r"
      using x(1-3) True ustep_host(2) [OF "2.prems"(2)] by (simp add: ustep_name_hex)
    then show ?thesis using "2.IH"(1) [OF True x(1) refl x(4)] host_states_pos(2,3) by (cases u) simp_all
  next
    case False
    obtain t where t: "ustep s c = (t, [])" "t \<in> set (host_states u)"
      using "2.prems"(1) False ustep_host(1) [OF "2.prems"(2), of c] by (simp del: walk.simps) blast
    show ?thesis using "2.IH"(2) [OF False _ t(2)] "2.prems"(1) False t host_states_pos(1) [OF t(2)] by simp
  qed
qed simp

definition name_start :: "bool \<Rightarrow> nat" where "name_start u = (if u then 522 else 511)"

lemma ugoes_name:
  assumes "reg_text xs" "xs \<noteq> []" "drop p s = xs @ ys"
  shows "\<exists>t \<in> set (host_states u). ugoes s (name_start u) p st = ugoes s t (p + length xs) (st\<lparr>us_mark := Some p\<rparr>)"
proof -
  obtain c cs where x: "xs = c # cs" using assms(2) by (cases xs) auto
  have d1: "drop (p + 1) s = cs @ ys" using drop_next [of p s "[c]"] assms(3) x by simp
  obtain a t where a: "ustep (name_start u) c = (a, [1])" "a \<noteq> 0" "uwalk a cs = Some t" "t \<in> set (host_states u)"
  proof (cases "c = CHR ''%''")
    case True
    then obtain h l r where y: "cs = h # l # r" "hex_char h" "hex_char l" "reg_text r" using assms(1) x by (auto split: list.splits)
    obtain t where t: "uwalk (if u then 523 else 520) r = Some t" "t \<in> set (host_states u)"
      using uwalk_reg [OF y(4)] host_states_pos(2,3) by (cases u) auto
    show ?thesis using t y True by (intro that [of "if u then 258 else 253" t]; cases u) (simp_all add: name_start_def ustep_name_special ustep_name_hex)
  next
    case False
    then have c: "reg_char c" "reg_text cs" using assms(1) x by simp_all
    obtain a where a: "ustep (name_start u) c = (a, [1])" "a \<in> set (host_states u)"
      using ustep_first [OF c(1)] by (cases u) (auto simp: name_start_def)
    then show ?thesis using that uwalk_reg [OF c(2) a(2)] host_states_pos(1) [OF a(2)] by blast
  qed
  have "ugoes s (name_start u) p st = ugoes s a (p + 1) (st\<lparr>us_mark := Some p\<rparr>)"
    using assms(3) x a(1,2) by (intro goes_move) (auto simp: uri_action_def)
  also have "\<dots> = ugoes s t (p + 1 + length cs) (st\<lparr>us_mark := Some p\<rparr>)" by (rule goes_walk [OF d1 a(3)])
  finally show ?thesis using a(4) x by auto
qed


text \<open>A host or a user name with a colon behind it.\<close>

definition port_state :: "bool \<Rightarrow> nat" where "port_state u = (if u then 514 else 521)"

lemma ugoes_host_colon:
  assumes "reg_text xs" "drop p s = xs @ CHR '':'' # ys"
  shows "ugoes s (name_start u) p st = ugoes s (port_state u) (p + length xs + 1)
    (st\<lparr>us_mark := Some p, us_uri := (us_uri st)\<lparr>u_host := xs\<rparr>\<rparr>)"
proof (cases "xs = []")
  case True
  have d: "drop p s = CHR '':'' # ys" using assms(2) True by simp
  have "ugoes s (name_start u) p st = ugoes s (port_state u) (p + 1) (st\<lparr>us_mark := Some p, us_uri := (us_uri st)\<lparr>u_host := []\<rparr>\<rparr>)"
    by (intro goes_move [OF d, where as = "[1, 5]"]) (auto simp: ustep_name_special name_start_def port_state_def uri_action_def)
  then show ?thesis using True by simp
next
  case False
  obtain t where t: "t \<in> set (host_states u)" "ugoes s (name_start u) p st = ugoes s t (p + length xs) (st\<lparr>us_mark := Some p\<rparr>)"
    using ugoes_name [OF assms(1) False assms(2)] by blast
  have d: "drop (p + length xs) s = CHR '':'' # ys" by (rule drop_next [OF assms(2)])
  have "ugoes s t (p + length xs) (st\<lparr>us_mark := Some p\<rparr>) = ugoes s (port_state u) (p + length xs + 1)
    (st\<lparr>us_mark := Some p, us_uri := (us_uri st)\<lparr>u_host := xs\<rparr>\<rparr>)"
    using assms(2) by (intro goes_move [OF d, where as = "[5]"]) (auto simp: ustep_host(4) [OF t(1)] uri_action_def port_state_def)
  then show ?thesis using t(2) by simp
qed

section \<open>User information\<close>

text \<open>
  The user information: a name as above, in which colons are allowed too. What \<open>CreateUri\<close> keeps of it:
  a digit right after the first colon could start a port, and the mark moves to it.
\<close>

fun user_text :: "string \<Rightarrow> bool" where
  "user_text [] \<longleftrightarrow> True"
| "user_text (c # s) \<longleftrightarrow>
     (if c = CHR ''%'' then (case s of h # l # r \<Rightarrow> hex_char h \<and> hex_char l \<and> user_text r | _ \<Rightarrow> False)
      else (c = CHR '':'' \<or> reg_char c) \<and> user_text s)"

definition kept_userinfo :: "string \<Rightarrow> string" where
  "kept_userinfo xs =
     (case dropWhile (\<lambda>c. c \<noteq> CHR '':'') xs of
        _ # c # cs \<Rightarrow> if number_char c then c # cs else xs
      | _ \<Rightarrow> xs)"

lemma char_classes:
  "hex_char c \<Longrightarrow> c \<noteq> CHR '':''" "\<not> reg_char (CHR '':'')" "number_char c \<Longrightarrow> reg_char c" "\<not> number_char (CHR '':'')" "\<not> number_char (CHR ''%'')"
  by (auto simp: hex_char_def reg_char_def number_char_def schar_def Let_def)

lemma user_split:
  "user_text xs \<Longrightarrow> reg_text (takeWhile (\<lambda>c. c \<noteq> CHR '':'') xs) \<and> (\<forall>c cs. dropWhile (\<lambda>c. c \<noteq> CHR '':'') xs = c # cs \<longrightarrow> user_text cs)"
proof (induction xs rule: user_text.induct)
  case (2 c xs)
  show ?case
  proof (cases "c = CHR ''%''")
    case True
    then obtain h l r where x: "xs = h # l # r" "hex_char h" "hex_char l" "user_text r" using "2.prems" by (auto split: list.splits)
    have "h \<noteq> CHR '':''" "l \<noteq> CHR '':''" using x(2,3) char_classes(1) by blast+
    then show ?thesis using "2.IH"(1) [OF True x(1) refl x(4)] x(1-3) True by simp
  next
    case False
    then have c: "c = CHR '':'' \<or> reg_char c" "user_text xs" using "2.prems" by simp_all
    then show ?thesis using "2.IH"(2) [OF False c(2)] False by (cases "c = CHR '':''") simp_all
  qed
qed simp

lemma uwalk_user:
  "user_text xs \<Longrightarrow> q = 255 \<or> q = 542 \<Longrightarrow> uwalk q xs = Some 255 \<or> uwalk q xs = Some 542"
proof (induction xs arbitrary: q rule: user_text.induct)
  case (2 c xs)
  show ?case
  proof (cases "c = CHR ''%''")
    case True
    then obtain h l r where x: "xs = h # l # r" "hex_char h" "hex_char l" "user_text r" using "2.prems"(1) by (auto split: list.splits)
    have "uwalk q (c # xs) = uwalk 255 r" using x(1-3) True "2.prems"(2) by (auto simp: ustep_name_special ustep_name_hex)
    then show ?thesis using "2.IH"(1) [OF True x(1) refl x(4), of 255] by simp
  next
    case False
    then have c: "c = CHR '':'' \<or> reg_char c" "user_text xs" using "2.prems"(1) by simp_all
    obtain t where t: "ustep q c = (t, [])" "t = 255 \<or> t = 542"
    proof (cases "c = CHR '':'' \<or> \<not> number_char c")
      case True
      then have "ustep q c = (255, [])"
        using c(1) "2.prems"(2) ustep_name_special(10,12) ustep_password(1,3) [of c] by blast
      then show ?thesis by (intro that [of 255]) simp_all
    next
      case num: False
      then have n: "reg_char c" "number_char c" using c(1) by auto
      have "ustep q c = (q, [])" using "2.prems"(2) ustep_password(1) [OF n(1)] ustep_number(2) [OF n(2)] by auto
      then show ?thesis using "2.prems"(2) that by blast
    qed
    have "uwalk q (c # xs) = uwalk t xs" using t by auto
    then show ?thesis using "2.IH"(2) [OF False c(2) t(2)] by simp
  qed
qed simp

lemma ugoes_password:
  assumes "user_text y" "drop p s = y @ CHR ''@'' # ys" "us_mark st = Some m"
  shows "ugoes s 521 p st = ugoes s 522 (p + length y + 1) (st\<lparr>us_mark := None,
    us_uri := (us_uri st)\<lparr>u_userinfo := (if y \<noteq> [] \<and> number_char (hd y) then y else take (p + length y - m) (drop m s))\<rparr>\<rparr>)"
proof -
  have d: "drop (p + length y) s = CHR ''@'' # ys" by (rule drop_next [OF assms(2)])
  have last: "ugoes s q (p + length y) st1 = ugoes s 522 (p + length y + 1)
      (st1\<lparr>us_mark := None, us_uri := (us_uri st1)\<lparr>u_userinfo := take (p + length y - k) (drop k s)\<rparr>\<rparr>)"
    if "q = 255 \<or> q = 521 \<or> q = 542" "us_mark st1 = Some k" for q st1 k
    using that by (intro goes_move [OF d, where as = "[4]"]) (auto simp: ustep_name_special uri_action_def from_mark_def)
  show ?thesis
  proof (cases y)
    case Nil
    then show ?thesis using last [of 521 st m] assms(3) by simp
  next
    case (Cons c cs)
    have d1: "drop (p + 1) s = cs @ CHR ''@'' # ys" using drop_next [of p s "[c]"] assms(2) Cons by simp
    show ?thesis
    proof (cases "number_char c")
      case True
      then have u: "user_text cs" using assms(1) Cons char_classes(5) by (auto split: if_splits)
      obtain q where q: "uwalk 542 cs = Some q" "q = 255 \<or> q = 521 \<or> q = 542" using uwalk_user [OF u, of 542] by auto
      have "ugoes s 521 p st = ugoes s 542 (p + 1) (st\<lparr>us_mark := Some p\<rparr>)"
        using assms(2) Cons ustep_number(1) [OF True] by (intro goes_move) (auto simp: uri_action_def)
      also have "\<dots> = ugoes s q (p + length y) (st\<lparr>us_mark := Some p\<rparr>)" using goes_walk [OF d1 q(1)] Cons by simp
      also note last [OF q(2), of "st\<lparr>us_mark := Some p\<rparr>" p]
      finally show ?thesis using assms(2) Cons True by simp
    next
      case False
      have "\<exists>q. uwalk 521 y = Some q \<and> (q = 255 \<or> q = 521 \<or> q = 542)"
      proof (cases "c = CHR ''%''")
        case True
        then obtain h l r where x: "cs = h # l # r" "hex_char h" "hex_char l" "user_text r" using assms(1) Cons by (auto split: list.splits)
        then show ?thesis using uwalk_user [OF x(4), of 255] Cons True by (auto simp: ustep_name_special ustep_name_hex)
      next
        case no: False
        then have "ustep 521 c = (255, [])" "user_text cs" using assms(1) Cons False by (auto simp: ustep_name_special ustep_password split: if_splits)
        then show ?thesis using uwalk_user [of cs 255] Cons by auto
      qed
      then obtain q where q: "uwalk 521 y = Some q" "q = 255 \<or> q = 521 \<or> q = 542" by blast
      have "ugoes s 521 p st = ugoes s q (p + length y) st" by (rule goes_walk [OF assms(2) q(1)])
      also note last [OF q(2) assms(3)]
      finally show ?thesis using Cons False by simp
    qed
  qed
qed

lemma ugoes_userinfo:
  assumes "user_text xs" "xs \<noteq> []" "drop p s = xs @ CHR ''@'' # ys"
  shows "\<exists>h. ugoes s 511 p st = ugoes s 522 (p + length xs + 1)
    (st\<lparr>us_mark := None, us_uri := (us_uri st)\<lparr>u_host := h, u_userinfo := kept_userinfo xs\<rparr>\<rparr>)"
proof (cases "dropWhile (\<lambda>c. c \<noteq> CHR '':'') xs")
  case Nil
  then have n: "takeWhile (\<lambda>c. c \<noteq> CHR '':'') xs = xs" by (metis append_Nil2 takeWhile_dropWhile_id)
  have r: "reg_text xs" using user_split [OF assms(1)] n by simp
  obtain t where t: "t \<in> set (host_states False)" "ugoes s 511 p st = ugoes s t (p + length xs) (st\<lparr>us_mark := Some p\<rparr>)"
    using ugoes_name [OF r assms(2,3), of False st] by (auto simp: name_start_def)
  have d: "drop (p + length xs) s = CHR ''@'' # ys" by (rule drop_next [OF assms(3)])
  have "ugoes s t (p + length xs) (st\<lparr>us_mark := Some p\<rparr>) = ugoes s 522 (p + length xs + 1)
    (st\<lparr>us_mark := None, us_uri := (us_uri st)\<lparr>u_userinfo := xs\<rparr>\<rparr>)"
    using assms(3) by (intro goes_move [OF d, where as = "[4]"]) (auto simp: ustep_host(5) [OF t(1)] uri_action_def from_mark_def)
  moreover have "kept_userinfo xs = xs" by (simp only: kept_userinfo_def Nil list.case)
  ultimately show ?thesis using t(2) by (intro exI [of _ "u_host (us_uri st)"]) simp
next
  case (Cons k y)
  define n where "n = takeWhile (\<lambda>c. c \<noteq> CHR '':'') xs"
  have k: "k = CHR '':''" using Cons hd_dropWhile [of "\<lambda>c. c \<noteq> CHR '':''" xs] by auto
  have x: "xs = n @ CHR '':'' # y" using takeWhile_dropWhile_id [of "\<lambda>c. c \<noteq> CHR '':''" xs] Cons k by (simp add: n_def)
  have r: "reg_text n" "user_text y" using user_split [OF assms(1)] Cons by (simp_all add: n_def)
  have d1: "drop p s = n @ CHR '':'' # y @ CHR ''@'' # ys" using assms(3) x by simp
  define p1 where "p1 = p + length n + 1"
  define st1 where "st1 = st\<lparr>us_mark := Some p, us_uri := (us_uri st)\<lparr>u_host := n\<rparr>\<rparr>"
  have d2: "drop p1 s = y @ CHR ''@'' # ys" using drop_next [of p s "n @ '':''"] d1 by (simp add: p1_def)
  have "ugoes s 511 p st = ugoes s 521 p1 st1"
    using ugoes_host_colon [OF r(1) d1, of False st] by (simp add: name_start_def port_state_def p1_def st1_def)
  also have "\<dots> = ugoes s 522 (p1 + length y + 1) (st1\<lparr>us_mark := None,
    us_uri := (us_uri st1)\<lparr>u_userinfo := (if y \<noteq> [] \<and> number_char (hd y) then y else take (p1 + length y - p) (drop p s))\<rparr>\<rparr>)"
    by (rule ugoes_password [OF r(2) d2]) (simp add: st1_def)
  also have "p1 + length y = p + length xs" by (simp add: p1_def x)
  also have "take (p + length xs - p) (drop p s) = xs" using assms(3) by simp
  also have "(if y \<noteq> [] \<and> number_char (hd y) then y else xs) = kept_userinfo xs"
    by (cases y) (simp_all add: kept_userinfo_def Cons)
  finally show ?thesis by (intro exI [of _ n]) (simp add: st1_def)
qed

section \<open>Numbers\<close>


section \<open>Port, path, query and fragment\<close>






definition finish_uri :: "string \<Rightarrow> nat \<Rightarrow> nat \<Rightarrow> uri_state \<Rightarrow> uri_error + nat \<times> uri_state" where
  "finish_uri s cs p st = bind_res (ugoes s cs p st) (uri_eof s)"

lemma finish_end:
  assumes "p = length s"
  shows "finish_uri s cs p st = bind_res (run_actions (uri_action s) (actions_at uri_machine (rg_eof_actions uri_machine cs)) p st)
    (\<lambda>(out, st1). Inr (cs, st1))"
  using assms by (simp add: finish_uri_def goes_def uri_eof_def)


text \<open>The query and the fragment, after what precedes them is saved.\<close>

definition tail_ok :: "Uri \<Rightarrow> bool" where
  "tail_ok u \<longleftrightarrow> uri_text True (u_query u) \<and> uri_text True (u_fragment u)"



section \<open>Whole texts\<close>

definition scheme_ok :: "string \<Rightarrow> bool" where
  "scheme_ok s \<longleftrightarrow> (case s of [] \<Rightarrow> False | c # cs \<Rightarrow> alpha c \<and> list_all scheme_char cs)"

definition uri_wf :: "Uri \<Rightarrow> bool" where
  "uri_wf u \<longleftrightarrow> scheme_ok (u_scheme u) \<and> user_text (u_userinfo u) \<and> reg_text (u_host u) \<and>
     (case u_path u of [] \<Rightarrow> True | c # cs \<Rightarrow> c = CHR ''/'' \<and> uri_text False cs) \<and> tail_ok u \<and>
     0 \<le> u_port u \<and> u_port u < 2 ^ 31"

lemma CreateUri_goes:
  assumes "s \<noteq> []" "finish_uri s 451 0 \<lparr>us_uri = new_Uri, us_mark = None\<rparr> = r"
  shows "CreateUri s = bind_res r (\<lambda>(cs, st).
     if cs = 0 then Inr None else if 451 \<le> cs then Inr (Some (us_uri st)) else Inr None)"
  using assms(1) assms(2) [symmetric]
  by (auto simp: CreateUri_def finish_uri_def run_def goes_def uri_parser_start_def uri_parser_first_final_def
      bind_res_def split: sum.splits)

lemma finish_to: "ugoes s cs p st = ugoes s cs1 p1 st1 \<Longrightarrow> finish_uri s cs p st = finish_uri s cs1 p1 st1"
  by (simp add: finish_uri_def)

lemma parse_authority:
  assumes "uri_wf u" "s = u_scheme u @ ''://'' @ u_userinfo u @ (if u_userinfo u = [] then [] else ''@'') @ u_host u @ ys"
  shows "\<exists>p v h. finish_uri s 451 0 \<lparr>us_uri = new_Uri, us_mark = None\<rparr> =
      finish_uri s (name_start v) p
       \<lparr>us_uri = new_Uri\<lparr>u_scheme := u_scheme u, u_host := h, u_userinfo := kept_userinfo (u_userinfo u)\<rparr>, us_mark = None\<rparr> \<and>
      drop p s = u_host u @ ys"
proof -
  obtain c cs where sc: "u_scheme u = c # cs" "alpha c" "list_all scheme_char cs"
    using assms(1) by (auto simp: uri_wf_def scheme_ok_def split: list.splits)
  define p where "p = 0 + length cs + 4"
  define z where "z = u_userinfo u @ (if u_userinfo u = [] then [] else ''@'') @ u_host u @ ys"
  have d0: "drop 0 s = (c # cs) @ ''://'' @ z" using assms(2) sc(1) by (simp add: z_def)
  have d1: "drop p s = z" using drop_next [of 0 s "(c # cs) @ ''://''" z] d0 by (simp add: p_def eval_nat_numeral)
  have 1: "finish_uri s 451 0 \<lparr>us_uri = new_Uri, us_mark = None\<rparr> =
      finish_uri s 511 p \<lparr>us_uri = new_Uri\<lparr>u_scheme := u_scheme u\<rparr>, us_mark = None\<rparr>"
    using ugoes_scheme [OF d0 sc(2,3), of "\<lparr>us_uri = new_Uri, us_mark = None\<rparr>"] sc(1)
    by (simp add: finish_uri_def p_def)
  show ?thesis
  proof (cases "u_userinfo u = []")
    case True
    have "new_Uri\<lparr>u_scheme := u_scheme u, u_host := [], u_userinfo := kept_userinfo []\<rparr> = new_Uri\<lparr>u_scheme := u_scheme u\<rparr>"
      by (simp add: new_Uri_def kept_userinfo_def)
    then show ?thesis using 1 d1 True by (intro exI [of _ p] exI [of _ False] exI [of _ "[]"]) (simp add: z_def name_start_def)
  next
    case False
    define q where "q = p + length (u_userinfo u) + 1"
    have n: "user_text (u_userinfo u)" using assms(1) by (simp add: uri_wf_def)
    have d2: "drop p s = u_userinfo u @ CHR ''@'' # u_host u @ ys" using d1 False by (simp add: z_def)
    have "drop q s = u_host u @ ys" using drop_next [of p s "u_userinfo u @ ''@''"] d2 by (simp add: q_def)
    moreover obtain h where "finish_uri s 511 p \<lparr>us_uri = new_Uri\<lparr>u_scheme := u_scheme u\<rparr>, us_mark = None\<rparr> =
        finish_uri s 522 q \<lparr>us_uri = new_Uri\<lparr>u_scheme := u_scheme u, u_host := h, u_userinfo := kept_userinfo (u_userinfo u)\<rparr>, us_mark = None\<rparr>"
      using ugoes_userinfo [OF n False d2, of "\<lparr>us_uri = new_Uri\<lparr>u_scheme := u_scheme u\<rparr>, us_mark = None\<rparr>"]
      by (auto simp: finish_uri_def q_def)
    ultimately show ?thesis using 1 by (intro exI [of _ q] exI [of _ True] exI [of _ h]) (simp add: name_start_def)
  qed
qed






text \<open>
  A URI with a colon but no digits behind the host, as in \<open>http://h:/x\<close>, which RFC 3986
  and the grammar allow, is not parsed: saving the empty port clears the mark of the path that
  the same transition has just set, and saving the path then builds a \<open>std::string\<close> from a null
  pointer, an exception that nothing in \<open>CreateUri\<close> catches.
\<close>

theorem empty_port_throws:
  assumes "scheme_ok sch" "reg_text host" "uri_text False rest"
  shows "CreateUri (sch @ ''://'' @ host @ '':/'' @ rest) = Inl NullString"
proof -
  define s where "s = sch @ ''://'' @ host @ '':/'' @ rest"
  define u where "u = new_Uri\<lparr>u_scheme := sch, u_host := host\<rparr>"
  have wf: "uri_wf u" using assms(1,2) by (simp add: uri_wf_def u_def new_Uri_def tail_ok_def)
  have "s = u_scheme u @ ''://'' @ u_userinfo u @ (if u_userinfo u = [] then [] else ''@'') @ u_host u @ '':/'' @ rest"
    by (simp add: s_def u_def new_Uri_def)
  from parse_authority [OF wf this] obtain p v U where
    1: "finish_uri s 451 0 \<lparr>us_uri = new_Uri, us_mark = None\<rparr> = finish_uri s (name_start v) p \<lparr>us_uri = U, us_mark = None\<rparr>"
    and d: "drop p s = host @ CHR '':'' # CHR ''/'' # rest" by (auto simp: u_def)
  define p1 where "p1 = p + length host + 1"
  have d1: "drop p1 s = CHR ''/'' # rest" using drop_next [of p s "host @ '':''"] d by (simp add: p1_def)
  have d2: "drop (p1 + 1) s = rest @ []" using drop_next [of p1 s "[CHR ''/'']"] d1 by simp
  have l: "p1 + 1 + length rest = length s" using drop_bound [of p1 s "CHR ''/'' # rest" "[]"] d1 by simp
  have 2: "ugoes s (name_start v) p st = ugoes s 513 (p1 + 1) (st\<lparr>us_mark := None, us_uri := (us_uri st)\<lparr>u_host := host\<rparr>\<rparr>)" for st
  proof -
    have "ugoes s (name_start v) p st = ugoes s (port_state v) p1 (st\<lparr>us_mark := Some p, us_uri := (us_uri st)\<lparr>u_host := host\<rparr>\<rparr>)"
      using ugoes_host_colon [OF assms(2) d] by (simp add: p1_def)
    also have "\<dots> = ugoes s 513 (p1 + 1) (st\<lparr>us_mark := None, us_uri := (us_uri st)\<lparr>u_host := host\<rparr>\<rparr>)"
      by (intro goes_move [OF d1, where as = "[1, 3]"]) (auto simp: ustep_special uri_action_def port_state_def)
    finally show ?thesis .
  qed
  have 3: "ugoes s 513 (p1 + 1) st = ugoes s 513 (length s) st" for st
    using goes_walk [OF d2 uwalk_uri(1) [OF assms(3)], of "uri_action s" st] l by simp
  have "finish_uri s (name_start v) p \<lparr>us_uri = U, us_mark = None\<rparr> =
      finish_uri s 513 (length s) \<lparr>us_uri = U\<lparr>u_host := host\<rparr>, us_mark = None\<rparr>"
    by (rule finish_to) (unfold 2 3, simp)
  also have "\<dots> = Inl NullString"
    unfolding finish_end [OF refl] uri_eof_rows by (simp add: uri_action_def from_mark_def)
  finally have "finish_uri s (name_start v) p \<lparr>us_uri = U, us_mark = None\<rparr> = Inl NullString" .
  moreover have "s \<noteq> []" by (simp add: s_def)
  ultimately show ?thesis using CreateUri_goes [of s] 1 unfolding s_def [symmetric] by simp
qed

theorem empty_port_throws_witness:
  "CreateUri ''http://h:/x'' = Inl NullString"
  using empty_port_throws [of "''http''" "''h''" "''x''"]
  by (simp add: scheme_ok_def alpha_def scheme_char_def reg_char_def uri_char_def schar_def)

end
