(* ===== verification/Streams.thy ===== *)
theory Streams
  imports Byte_Io Async_Sockets
begin

text \<open>
  \<open>src/src/stream/stream.{h,cpp}\<close>: the fixed size loops of the base class over any \<open>read\<close>
  and \<open>write\<close>, and the socket stream, which hands the blocks of a byte array to the
  scatter/gather calls. A loop runs with fuel, one unit for each call it makes; running out
  of it (\<open>None\<close>) means that the loop has not returned yet.
\<close>

section \<open>Fixed size loops\<close>

text \<open>
  \<open>rd offset left\<close> is the call of the loop on the rest of the buffer. Its \<open>int\<close> result is
  stored in a \<open>size_t\<close>, so \<open>len <= 0\<close> is \<open>len = 0\<close>, and the return value is converted back.
\<close>

fun fix_loop ::
  "nat \<Rightarrow> (u64 \<Rightarrow> u64 \<Rightarrow> 'b \<Rightarrow> 'e + int \<times> 'b) \<Rightarrow> u64 \<Rightarrow> u64 \<Rightarrow> u64 \<Rightarrow> 'b \<Rightarrow> 'e + int option \<times> 'b" where
  "fix_loop fuel rd sz offset left st =
     (if left = 0 then Inr (Some (to_i32 (uint sz)), st)
      else case fuel of
          0 \<Rightarrow> Inr (None, st)
        | Suc fuel' \<Rightarrow>
            (case rd offset left st of
               Inl e \<Rightarrow> Inl e
             | Inr (r, st1) \<Rightarrow>
                 let len = word_of_int r
                 in if len \<le> 0 then Inr (Some (to_i32 (uint len)), st1)
                    else fix_loop fuel' rd sz (offset + len) (left - len) st1))"

declare fix_loop.simps [simp del]

definition readFixSize ::
  "nat \<Rightarrow> (u64 \<Rightarrow> u64 \<Rightarrow> 'b \<Rightarrow> 'e + int \<times> 'b) \<Rightarrow> u64 \<Rightarrow> 'b \<Rightarrow> 'e + int option \<times> 'b" where
  "readFixSize fuel rd sz st = fix_loop fuel rd sz 0 sz st"

definition writeFixSize ::
  "nat \<Rightarrow> (u64 \<Rightarrow> u64 \<Rightarrow> 'b \<Rightarrow> 'e + int \<times> 'b) \<Rightarrow> u64 \<Rightarrow> 'b \<Rightarrow> 'e + int option \<times> 'b" where
  "writeFixSize fuel wr sz st = fix_loop fuel wr sz 0 sz st"

text \<open>The byte array versions keep no offset: the array has its position.\<close>

definition readFixSize_ba ::
  "nat \<Rightarrow> (u64 \<Rightarrow> 'b \<Rightarrow> 'e + int \<times> 'b) \<Rightarrow> u64 \<Rightarrow> 'b \<Rightarrow> 'e + int option \<times> 'b" where
  "readFixSize_ba fuel rd sz st = fix_loop fuel (\<lambda>_. rd) sz 0 sz st"

definition writeFixSize_ba ::
  "nat \<Rightarrow> (u64 \<Rightarrow> 'b \<Rightarrow> 'e + int \<times> 'b) \<Rightarrow> u64 \<Rightarrow> 'b \<Rightarrow> 'e + int option \<times> 'b" where
  "writeFixSize_ba fuel wr sz st = fix_loop fuel (\<lambda>_. wr) sz 0 sz st"

section \<open>Socket streams\<close>

record SocketStream =
  m_socket :: "Socket option"
  m_owner :: bool

definition new_SocketStream :: "Socket option \<Rightarrow> bool \<Rightarrow> SocketStream" where
  "new_SocketStream sock owner = \<lparr>m_socket = sock, m_owner = owner\<rparr>"

definition stream_isConnected :: "SocketStream \<Rightarrow> bool" where
  "stream_isConnected ss = (case m_socket ss of None \<Rightarrow> False | Some s \<Rightarrow> sk_isConnected s)"

definition stream_close :: "SocketStream \<Rightarrow> SocketStream \<times> sys_call list" where
  "stream_close ss =
     (case m_socket ss of
        None \<Rightarrow> (ss, [])
      | Some s \<Rightarrow> (let (_, s1, cs) = Socket_close s in (ss\<lparr>m_socket := Some s1\<rparr>, cs)))"

text \<open>The destructor.\<close>

definition stream_destroy :: "SocketStream \<Rightarrow> SocketStream \<times> sys_call list" where
  "stream_destroy ss = (if m_owner ss \<and> m_socket ss \<noteq> None then stream_close ss else (ss, []))"

text \<open>What \<open>recv\<close> and \<open>send\<close> on a plain buffer return; \<open>r\<close> is the result of the call.\<close>

definition stream_read :: "SocketStream \<Rightarrow> int \<Rightarrow> int" where
  "stream_read ss r =
     (if \<not> stream_isConnected ss then - 1
      else case m_socket ss of None \<Rightarrow> - 1 | Some s \<Rightarrow> Socket_recv r s)"

definition stream_write :: "SocketStream \<Rightarrow> int \<Rightarrow> int" where
  "stream_write ss r =
     (if \<not> stream_isConnected ss then - 1
      else case m_socket ss of None \<Rightarrow> - 1 | Some s \<Rightarrow> Socket_send r s)"

text \<open>\<open>recvmsg\<close> stores the bytes it received in the buffers, in order.\<close>

fun scatter :: "iovec list \<Rightarrow> cell list \<Rightarrow> ByteArray \<Rightarrow> ByteArray" where
  "scatter [] ds ba = ba"
| "scatter ((c, off, n) # iovs) ds ba = scatter iovs (drop n ds) (put_block c off (take n ds) ba)"

text \<open>
  The byte array versions. \<open>&iovs[0]\<close> of an empty vector refers to no object. The received
  bytes are \<open>Some\<close>, a failed call is \<open>None\<close>; for \<open>send\<close> the argument is the number of bytes
  taken, and the model returns those bytes too.
\<close>

definition stream_read_ba ::
  "SocketStream \<Rightarrow> nat \<Rightarrow> cell list option \<Rightarrow> ByteArray \<Rightarrow> ba_error + int \<times> ByteArray" where
  "stream_read_ba ss sz data ba =
     (if \<not> stream_isConnected ss then Inr (- 1, ba)
      else bind_res (getWriteBuffers [] sz ba) (\<lambda>(_, iovs, ba1).
        if iovs = [] then Inl NullDeref
        else
          let r = (case data of None \<Rightarrow> - 1 | Some ds \<Rightarrow> int (length ds));
              rt = stream_read ss r;
              ba2 = (case data of None \<Rightarrow> ba1 | Some ds \<Rightarrow> scatter iovs ds ba1)
          in if 0 < rt then bind_res (setPosition (m_position ba2 + nat rt) ba2) (\<lambda>ba3. Inr (rt, ba3))
             else Inr (rt, ba2)))"

definition stream_write_ba ::
  "SocketStream \<Rightarrow> nat \<Rightarrow> nat option \<Rightarrow> ByteArray \<Rightarrow> ba_error + int \<times> cell list \<times> ByteArray" where
  "stream_write_ba ss sz taken ba =
     (if \<not> stream_isConnected ss then Inr (- 1, [], ba)
      else bind_res (getReadBuffers [] sz ba) (\<lambda>(_, iovs).
        if iovs = [] then Inl NullDeref
        else
          let r = (case taken of None \<Rightarrow> - 1 | Some k \<Rightarrow> int k);
              rt = stream_write ss r;
              wire = (case taken of None \<Rightarrow> [] | Some k \<Rightarrow> take k (gather ba iovs))
          in if 0 < rt then bind_res (setPosition (m_position ba + nat rt) ba) (\<lambda>ba1. Inr (rt, wire, ba1))
             else Inr (rt, wire, ba)))"

section \<open>Scattered bytes\<close>

lemma scatter_correct:
  assumes "nodes_ok ba" "inside ba iovs" "span (m_baseSize ba) iovs = [s..<s + n]"
    "length ds \<le> n" "s + n \<le> m_capacity ba"
  shows "nodes_ok (scatter iovs ds ba) \<and> flat (scatter iovs ds ba) = overwrite s ds (flat ba)
     \<and> m_position (scatter iovs ds ba) = m_position ba \<and> m_size (scatter iovs ds ba) = m_size ba
     \<and> m_capacity (scatter iovs ds ba) = m_capacity ba \<and> m_baseSize (scatter iovs ds ba) = m_baseSize ba
     \<and> m_cur (scatter iovs ds ba) = m_cur ba"
  using assms
proof (induction iovs arbitrary: ds ba s n)
  case Nil
  from arg_cong [OF Nil(3), of length] have "n = 0" by simp
  then show ?case using Nil by simp
next
  case (Cons x iovs)
  obtain c off m where x: "x = (c, off, m)" by (cases x)
  let ?ba = "put_block c off (take m ds) ba"
  have c: "c < length (m_nodes ba)" "off + m \<le> m_baseSize ba"
    using Cons.prems(1,2) nodes_okD(4) [OF Cons.prems(1)] x by (auto simp: inside_def)
  have room: "off + length (take m ds) \<le> m_baseSize ba" using c by simp
  note ok = put_block_ok [OF Cons.prems(1) c(1) room]
  have len: "length (nd_ptr (m_nodes ?ba ! j)) = length (nd_ptr (m_nodes ba ! j))" if "j < length (m_nodes ba)" for j
    using nodes_okD(4) [OF ok(1), of j] nodes_okD(4) [OF Cons.prems(1), of j] that by simp
  have ins: "inside ?ba iovs" using Cons.prems(2) x len by (auto simp: inside_def)
  have sp: "[m_baseSize ba * c + off..<m_baseSize ba * c + off + m] @ span (m_baseSize ba) iovs = [s..<s + n]"
    using Cons.prems(3) x by (simp add: span_def)
  show ?case
  proof (cases "m = 0")
    case True
    then show ?thesis using Cons.IH [OF ok(1) ins _ Cons.prems(4), of s] sp Cons.prems(5) ok(2) x by simp
  next
    case False
    have n0: "0 < n" using arg_cong [OF sp, of length] False by simp
    then have s: "m_baseSize ba * c + off = s"
      using arg_cong [OF sp, of hd] False by (simp add: hd_append)
    have mn: "m \<le> n" using arg_cong [OF sp, of length] by simp
    have "[s..<s + n] = [s..<s + m] @ [s + m..<s + m + (n - m)]" using upt_append_split [OF mn] by simp
    then have rest: "span (m_baseSize ?ba) iovs = [s + m..<s + m + (n - m)]" using sp s by simp
    have ih: "nodes_ok (scatter iovs (drop m ds) ?ba)
      \<and> flat (scatter iovs (drop m ds) ?ba) = overwrite (s + m) (drop m ds) (flat ?ba)
      \<and> m_position (scatter iovs (drop m ds) ?ba) = m_position ?ba \<and> m_size (scatter iovs (drop m ds) ?ba) = m_size ?ba
      \<and> m_capacity (scatter iovs (drop m ds) ?ba) = m_capacity ?ba
      \<and> m_baseSize (scatter iovs (drop m ds) ?ba) = m_baseSize ?ba \<and> m_cur (scatter iovs (drop m ds) ?ba) = m_cur ?ba"
      using Cons.IH [OF ok(1) ins rest, of "drop m ds"] Cons.prems(4,5) mn by simp
    have "overwrite (s + m) (drop m ds) (overwrite s (take m ds) (flat ba)) = overwrite s ds (flat ba)"
    proof (cases "length ds \<le> m")
      case False
      then show ?thesis
        using overwrite_split [of s "take m ds" "drop m ds" "flat ba"] Cons.prems(4,5) length_flat [OF Cons.prems(1)]
        by simp
    qed simp
    then show ?thesis using ih ok(2) s x by simp
  qed
qed

lemma span_inside:
  assumes "nodes_ok ba" "inside ba iovs" "x \<in> set (span (m_baseSize ba) iovs)"
  shows "x < m_capacity ba"
proof -
  obtain c off n where c: "(c, off, n) \<in> set iovs" "x < m_baseSize ba * c + off + n"
    using assms(3) by (auto simp: span_def)
  then have "c < length (m_nodes ba)" "off + n \<le> m_baseSize ba"
    using assms(2) nodes_okD(4) [OF assms(1), of c] by (auto simp: inside_def)
  then have "m_baseSize ba * c + off + n \<le> m_baseSize ba * length (m_nodes ba)"
    using mult_le_mono2 [of "Suc c" "length (m_nodes ba)" "m_baseSize ba"] by simp
  then show ?thesis using c(2) nodes_okD(6) [OF assms(1)] by simp
qed

section \<open>Properties\<close>

lemma fix_loop_returns:
  assumes "\<And>off l st. 0 < l \<Longrightarrow> P off l st \<Longrightarrow>
      \<exists>r st'. rd off l st = Inr (r, st') \<and> 0 < r \<and> r \<le> uint l \<and> P (off + word_of_int r) (l - word_of_int r) st'"
  shows "P off l st \<Longrightarrow> unat l \<le> fuel \<Longrightarrow>
    \<exists>st'. fix_loop fuel rd sz off l st = Inr (Some (to_i32 (uint sz)), st') \<and> P (off + l) 0 st'"
proof (induction fuel arbitrary: off l st)
  case 0
  then have "l = 0" by (simp add: unat_eq_0)
  then show ?case using "0.prems"(1) by (simp add: fix_loop.simps [of 0])
next
  case (Suc fuel)
  show ?case
  proof (cases "l = 0")
    case True
    then show ?thesis using Suc.prems(1) by (simp add: fix_loop.simps [of "Suc fuel"])
  next
    case False
    then have l0: "0 < l" by (simp add: word_gt_0)
    obtain r st1 where r: "rd off l st = Inr (r, st1)" "0 < r" "r \<le> uint l"
      "P (off + word_of_int r) (l - word_of_int r) st1"
      using assms [OF l0 Suc.prems(1)] by blast
    have u: "uint (word_of_int r :: u64) = r"
      using r(2,3) uint_lt2p [of l] by (simp add: uint_word_of_int)
    then have le: "(word_of_int r :: u64) \<le> l" using r(3) by (simp add: word_le_def)
    have n0: "(word_of_int r :: u64) \<noteq> 0"
    proof
      assume "(word_of_int r :: u64) = 0"
      then have "uint (word_of_int r :: u64) = 0" by simp
      with u r(2) show False by simp
    qed
    have "unat (l - word_of_int r) \<le> fuel"
      using Suc.prems(2) le u r(2) n0 unat_sub [OF le] unat_eq_0 [of "word_of_int r :: u64"]
      by (simp; linarith)
    from Suc.IH [OF r(4) this] obtain st' where
      "fix_loop fuel rd sz (off + word_of_int r) (l - word_of_int r) st1 = Inr (Some (to_i32 (uint sz)), st')"
      "P (off + l) 0 st'" by auto
    then show ?thesis using r(1) n0 False by (simp add: fix_loop.simps [of "Suc fuel"] Let_def)
  qed
qed

text \<open>
  C37. A fixed size transfer over a stream that keeps delivering returns: when every call
  transfers at least one and at most the bytes asked for, \<open>n\<close> rounds are enough for \<open>n\<close>
  bytes, the loop returns the size it was given, and the pieces lie one after the other.
\<close>

theorem readFixSize_returns:
  assumes "\<And>off l log. 0 < l \<Longrightarrow> \<exists>r. rd off l log = Inr (r, log @ [(off, r)]) \<and> 0 < r \<and> r \<le> uint l"
    "unat sz \<le> fuel"
  shows "\<exists>log. readFixSize fuel rd sz [] = Inr (Some (to_i32 (uint sz)), log)
    \<and> (\<forall>i < length log. fst (log ! i) = word_of_int (sum_list (map snd (take i log))))
    \<and> (word_of_int (sum_list (map snd log)) :: u64) = sz"
proof -
  define P where "P = (\<lambda>(off::u64) (l::u64) (log :: (u64 \<times> int) list). off = word_of_int (sum_list (map snd log))
    \<and> (\<forall>i < length log. fst (log ! i) = word_of_int (sum_list (map snd (take i log)))))"
  have step: "\<exists>r log'. rd off l log = Inr (r, log') \<and> 0 < r \<and> r \<le> uint l
      \<and> P (off + word_of_int r) (l - word_of_int r) log'" if l: "0 < l" "P off l log" for off l log
  proof -
    obtain r where r: "rd off l log = Inr (r, log @ [(off, r)])" "0 < r" "r \<le> uint l"
      using assms(1) [OF l(1)] by blast
    have "off + word_of_int r = word_of_int (sum_list (map snd (log @ [(off, r)])))"
      using l(2) by (simp add: P_def)
    moreover have "fst ((log @ [(off, r)]) ! i) = word_of_int (sum_list (map snd (take i (log @ [(off, r)]))))"
      if "i < length (log @ [(off, r)])" for i
      using that l(2) by (cases "i = length log") (simp_all add: P_def nth_append)
    ultimately have "P (off + word_of_int r) (l - word_of_int r) (log @ [(off, r)])" by (simp add: P_def)
    with r show ?thesis by blast
  qed
  have "P 0 sz []" by (simp add: P_def)
  from fix_loop_returns [of P rd, OF step this assms(2)] obtain log where
    "fix_loop fuel rd sz 0 sz [] = Inr (Some (to_i32 (uint sz)), log)" "P (0 + sz) 0 log" by blast
  then show ?thesis by (intro exI [of _ log]) (simp add: readFixSize_def P_def)
qed

lemma readFixSize_returns_witness:
  "\<exists>log. readFixSize 5 (\<lambda>off l log. Inr (1, log @ [(off, 1)]) :: unit + int \<times> (u64 \<times> int) list) 5 [] = Inr (Some 5, log)"
proof -
  have "(1 :: int) \<le> uint l" if "0 < l" for l :: u64
    using that by (simp add: word_less_def)
  then show ?thesis
    using readFixSize_returns [of "\<lambda>off l log. Inr (1, log @ [(off, 1)]) :: unit + int \<times> (u64 \<times> int) list" 5 5]
    by (auto simp: to_i32_id)
qed

text \<open>
  A failing stream makes the loop run on: the \<open>-1\<close> of a failed call becomes the largest
  \<open>size_t\<close>, which is not \<open><= 0\<close>, so the loop calls again with one byte more to read, one
  byte before the last address, and after \<open>k\<close> failures with \<open>length + k\<close> bytes at offset \<open>-k\<close>:
  \<open>k\<close> bytes before the buffer. It does not return within \<open>2 ^ 64 - length\<close> calls.
\<close>

theorem fix_loop_ignores_errors:
  assumes "0 < sz" "unat sz + fuel < 2 ^ 64"
  shows "readFixSize fuel (\<lambda>off l log. Inr (- 1, log @ [(off, l)])) sz log =
    (Inr (None, log @ map (\<lambda>k. (- of_nat k, sz + of_nat k)) [0..<fuel]) :: 'e + _)"
proof -
  let ?rd = "\<lambda>off l log. Inr (- 1, log @ [(off, l)]) :: 'e + int \<times> (u64 \<times> u64) list"
  have "k + fuel \<le> n \<Longrightarrow> unat sz + n < 2 ^ 64 \<Longrightarrow> fix_loop fuel ?rd sz (- of_nat k) (sz + of_nat k) log =
      Inr (None, log @ map (\<lambda>k. (- of_nat k, sz + of_nat k)) [k..<k + fuel])" for k n log
  proof (induction fuel arbitrary: k log)
    case (Suc fuel)
    have k: "k < 2 ^ 64" "unat sz + k < 2 ^ 64" using Suc.prems by auto
    have "unat (sz + of_nat k) = unat sz + k"
      using k by (simp add: unat_word_ariths unat_of_nat)
    then have nz: "sz + of_nat k \<noteq> 0"
      using assms(1) by (metis add_is_0 unat_0 unat_gt_0 less_numeral_extra(3) word_neq_0_conv)
    have step: "(- of_nat k :: u64) + - 1 = - of_nat (Suc k)" "sz + of_nat k - - 1 = sz + of_nat (Suc k)"
      by simp_all
    have "fix_loop fuel ?rd sz (- of_nat (Suc k)) (sz + of_nat (Suc k)) (log @ [(- of_nat k, sz + of_nat k)]) =
      Inr (None, (log @ [(- of_nat k, sz + of_nat k)]) @
        map (\<lambda>k. (- of_nat k, sz + of_nat k)) [Suc k..<Suc k + fuel])"
      using Suc.IH [of "Suc k"] Suc.prems by simp
    moreover have "[k..<k + Suc fuel] = k # [Suc k..<Suc k + fuel]" by (simp add: upt_rec)
    moreover have "fix_loop (Suc fuel) ?rd sz (- of_nat k) (sz + of_nat k) log =
      fix_loop fuel ?rd sz (- of_nat k + - 1) (sz + of_nat k - - 1) (log @ [(- of_nat k, sz + of_nat k)])"
      using nz by (simp add: fix_loop.simps [of "Suc fuel"])
    ultimately show ?case unfolding step by simp
  next
    case 0
    have "unat (sz + of_nat k) = unat sz + k"
      using 0 by (simp add: unat_word_ariths unat_of_nat)
    then have "sz + of_nat k \<noteq> 0"
      using assms(1) by (metis add_is_0 unat_0 unat_gt_0 less_numeral_extra(3) word_neq_0_conv)
    then show ?case by (simp add: fix_loop.simps [of 0])
  qed
  from this [of 0 fuel log] assms(2) show ?thesis by (simp add: readFixSize_def)
qed

lemma fix_loop_ignores_errors_witness:
  "readFixSize 3 (\<lambda>off l log. Inr (- 1, log @ [(off, l)])) 10 [] =
    (Inr (None, [(0, 10), (- 1, 11), (- 2, 12)]) :: unit + _)"
proof -
  have "(0 :: u64) < 10" "unat (10 :: u64) + 3 < 2 ^ 64" by simp_all
  from fix_loop_ignores_errors [OF this, of "[]"] show ?thesis by (simp add: upt_rec)
qed

text \<open>
  A socket stream moves bytes between arrays: when the peers are connected, \<open>n\<close> bytes
  are offered and the kernel takes \<open>k\<close> of them, \<open>0 < k\<close>, then the writer's position moves by
  \<open>k\<close>, and the reader, asking for at least \<open>k\<close> bytes, has the same \<open>k\<close> bytes stored at its position, its
  position and size moved by what it received and its other bytes unchanged. Both arrays stay well-formed.
\<close>

theorem stream_transfer:
  assumes "wf src" "wf dst" "stream_isConnected a" "stream_isConnected b"
    "0 < k" "k \<le> min n (m_size src - m_position src)" "k \<le> m" "k < 2 ^ 31"
  shows "\<exists>wire src' dst' j. stream_write_ba a n (Some k) src = Inr (int k, wire, src')
    \<and> stream_read_ba b m (Some wire) dst = Inr (int k, dst')
    \<and> wire = take k (drop (m_position src) (flat src))
    \<and> wf src' \<and> flat src' = flat src \<and> m_position src' = m_position src + k \<and> m_size src' = m_size src
    \<and> wf dst' \<and> m_position dst' = m_position dst + k \<and> m_size dst' = max (m_size dst) (m_position dst + k)
    \<and> flat dst' = overwrite (m_position dst) wire (flat dst @ replicate j None)"
proof -
  let ?n = "min n (m_size src - m_position src)"
  have w: "stream_write a (int k) = int k" "stream_read b (int k) = int k"
    using assms(3,4,8) to_i32_id [of "int k"]
    by (auto simp: stream_write_def stream_read_def stream_isConnected_def Socket_send_def Socket_recv_def
        split: option.splits)
  note ok = blocks_okD [OF wfD [OF assms(1)]]
  obtain iovs where i: "getReadBuffers [] n src = Inr (?n, iovs)" "inside src iovs"
    "gather src iovs = take ?n (drop (m_position src) (flat src))"
    using getReadBuffers_gather [OF assms(1), of n] by blast
  have n: "0 < n" "k \<le> ?n" using assms(5,6) by auto
  have "iovs \<noteq> []"
  proof
    assume "iovs = []"
    then have "take ?n (drop (m_position src) (flat src)) = []" using i(3) by (simp add: gather_def)
    then show False using n assms(5) ok length_flat [OF ok(1)] by simp
  qed
  moreover
  have ps: "m_position src + k \<le> m_size src" using assms(5,6) unfolding min_less_iff_conj min.bounded_iff by arith
  obtain src' where s: "setPosition (m_position src + k) src = Inr src'" "wf src'" "flat src' = flat src"
    "m_position src' = m_position src + k" "m_size src' = m_size src"
    using setPosition_correct [OF ok(1,3), of "m_position src + k"] ok(2,3) ps by auto
  define wire where "wire = take k (drop (m_position src) (flat src))"
  have g: "take k (gather src iovs) = wire" unfolding i(3) wire_def using n(2) by (simp add: min_def)
  have lw: "length wire = k" using ok ps length_flat [OF ok(1)] by (simp add: wire_def)
  ultimately have wr: "stream_write_ba a n (Some k) src = Inr (int k, wire, src')"
    using assms(3,5) i(1) w(1) s(1) g by (simp add: stream_write_ba_def)
  have m0: "0 < m" using assms(5,7) by simp
  obtain jovs dst1 j where b: "getWriteBuffers [] m dst = Inr (m, jovs, dst1)" "wf dst1"
    "flat dst1 = flat dst @ replicate (j * m_baseSize dst) None" "m_position dst1 = m_position dst"
    "m_size dst1 = m_size dst" "inside dst1 jovs"
    "span (m_baseSize dst1) jovs = [m_position dst..<m_position dst + m]"
    using getWriteBuffers_correct [OF assms(2) m0] by blast
  note ok1 = blocks_okD [OF wfD [OF b(2)]]
  have "jovs \<noteq> []" using arg_cong [OF b(7), of length] m0 by auto
  moreover have "m_position dst + m - 1 \<in> set (span (m_baseSize dst1) jovs)" using b(7) m0 by simp
  then have room: "m_position dst + m \<le> m_capacity dst1"
    using span_inside [OF ok1(1) b(6)] m0 by fastforce
  have lk: "length wire \<le> m" using lw assms(7) by simp
  note sc = scatter_correct [OF ok1(1) b(6,7) lk room]
  let ?d = "scatter jovs wire dst1"
  have "m_size ?d \<le> m_capacity ?d" "m_position dst + k \<le> m_capacity ?d"
    using sc ok1(3) room assms(7) by simp_all
  from setPosition_correct [OF _ this] sc obtain dst' where d: "setPosition (m_position dst + k) ?d = Inr dst'"
    "wf dst'" "flat dst' = flat ?d" "m_position dst' = m_position dst + k"
    "m_size dst' = max (m_size dst) (m_position dst + k)"
    using b(5) by auto
  ultimately have "stream_read_ba b m (Some wire) dst = Inr (int k, dst')"
    using assms(4,5) b(1,4) w(2) lw sc by (simp add: stream_read_ba_def)
  moreover have "flat dst' = overwrite (m_position dst) wire (flat dst @ replicate (j * m_baseSize dst) None)"
    using d(3) sc b(3) by simp
  ultimately show ?thesis using wr wire_def s(2-5) d(2,4,5) by blast
qed

lemma stream_transfer_witness:
  "\<exists>src wire src' dst'. ByteArray_write (map Some [1, 2, 3]) (new_ByteArray 8) = Inr src \<and>
     stream_write_ba (new_SocketStream (Some ((new_Socket 2 1 0)\<lparr>sk_isConnected := True\<rparr>)) True) 3 (Some 2)
       (src\<lparr>m_position := 0\<rparr>) = Inr (2, wire, src') \<and> wire = [Some 1, Some 2]
     \<and> stream_read_ba (new_SocketStream (Some ((new_Socket 2 1 0)\<lparr>sk_isConnected := True\<rparr>)) True) 5
         (Some wire) (new_ByteArray 1) = Inr (2, dst')"
proof -
  let ?ss = "new_SocketStream (Some ((new_Socket 2 1 0)\<lparr>sk_isConnected := True\<rparr>)) True"
  define src where "src = (new_ByteArray 8)\<lparr>m_nodes := [\<lparr>nd_ptr = map Some [1, 2, 3] @ replicate 5 None, nd_size = 8\<rparr>],
    m_size := 3, m_position := 3\<rparr>"
  have c: "stream_isConnected ?ss" by (simp add: stream_isConnected_def new_SocketStream_def)
  have w: "ByteArray_write (map Some [1, 2, 3]) (new_ByteArray 8) = Inr src"
    unfolding src_def by code_simp
  have "wf (src\<lparr>m_position := 0\<rparr>)"
    by (simp add: src_def wf_def blocks_ok_def nodes_ok_def cur_exact_def new_ByteArray_def)
  from stream_transfer [OF this wf_new_ByteArray [of 1] c c, of 2 3 5] w show ?thesis
    by (fastforce simp: src_def new_ByteArray_def flat_def)
qed

end
