(* ===== verification/Servlets.thy ===== *)
theory Servlets
  imports Http_Model
begin

text \<open>
  \<open>src/src/servlet/servlet.{h,cpp}\<close>: the servlets and their dispatcher. A servlet is known to
  the dispatcher by a pointer of the type \<open>'p\<close>, which may be null (\<open>None\<close>); the virtual
  \<open>handle\<close> of what it points to is the parameter \<open>vcall\<close>. The shell pattern match
  \<open>fnmatch(pattern, string, 0)\<close> is a parameter too: true when it returns 0. The readers and
  writers of the dispatcher exclude each other by its lock, so each is one step.
\<close>

section \<open>State\<close>

record 'p ServletDispatch =
  m_datas :: "string \<Rightarrow> 'p option option"
  m_fuzzy :: "(string \<times> 'p option) list"
  m_default :: "'p option"

definition new_ServletDispatch :: "'p \<Rightarrow> 'p ServletDispatch" where
  "new_ServletDispatch default_servlet =
     \<lparr>m_datas = (\<lambda>_. None), m_fuzzy = [], m_default = Some default_servlet\<rparr>"

section \<open>Registration\<close>

definition addMatchedServlet :: "string \<Rightarrow> 'p option \<Rightarrow> 'p ServletDispatch \<Rightarrow> 'p ServletDispatch" where
  "addMatchedServlet uri slt d = d\<lparr>m_datas := (m_datas d)(uri := Some slt)\<rparr>"

definition delMatchedServlet :: "string \<Rightarrow> 'p ServletDispatch \<Rightarrow> 'p ServletDispatch" where
  "delMatchedServlet uri d = d\<lparr>m_datas := (m_datas d)(uri := None)\<rparr>"

text \<open>The search loops erase the first entry they find and stop.\<close>

fun fuzzy_erase :: "string \<Rightarrow> (string \<times> 'a) list \<Rightarrow> (string \<times> 'a) list" where
  "fuzzy_erase uri [] = []"
| "fuzzy_erase uri (it # fs) = (if fst it = uri then fs else it # fuzzy_erase uri fs)"

definition addFuzzyServlet :: "string \<Rightarrow> 'p option \<Rightarrow> 'p ServletDispatch \<Rightarrow> 'p ServletDispatch" where
  "addFuzzyServlet uri slt d = d\<lparr>m_fuzzy := fuzzy_erase uri (m_fuzzy d) @ [(uri, slt)]\<rparr>"

definition delFuzzyServlet :: "string \<Rightarrow> 'p ServletDispatch \<Rightarrow> 'p ServletDispatch" where
  "delFuzzyServlet uri d = d\<lparr>m_fuzzy := fuzzy_erase uri (m_fuzzy d)\<rparr>"

definition setDefault :: "'p option \<Rightarrow> 'p ServletDispatch \<Rightarrow> 'p ServletDispatch" where
  "setDefault v d = d\<lparr>m_default := v\<rparr>"

section \<open>Lookup\<close>

definition getMatchedServlet :: "string \<Rightarrow> 'p ServletDispatch \<Rightarrow> 'p option" where
  "getMatchedServlet uri d = (case m_datas d uri of None \<Rightarrow> None | Some slt \<Rightarrow> slt)"

fun fuzzy_find :: "(string \<Rightarrow> bool) \<Rightarrow> (string \<times> 'a) list \<Rightarrow> 'a option" where
  "fuzzy_find P [] = None"
| "fuzzy_find P (it # fs) = (if P (fst it) then Some (snd it) else fuzzy_find P fs)"

definition getFuzzyServlet :: "string \<Rightarrow> 'p ServletDispatch \<Rightarrow> 'p option" where
  "getFuzzyServlet uri d =
     (case fuzzy_find (\<lambda>u. u = uri) (m_fuzzy d) of None \<Rightarrow> None | Some slt \<Rightarrow> slt)"

definition getServlet :: "(string \<Rightarrow> string \<Rightarrow> bool) \<Rightarrow> string \<Rightarrow> 'p ServletDispatch \<Rightarrow> 'p option" where
  "getServlet fnmatch uri d =
     (case m_datas d uri of
        Some slt \<Rightarrow> slt
      | None \<Rightarrow>
          (case fuzzy_find (\<lambda>u. fnmatch (c_str u) (c_str uri)) (m_fuzzy d) of
             Some slt \<Rightarrow> slt
           | None \<Rightarrow> m_default d))"

section \<open>Handling\<close>

text \<open>A handler reads the request, changes the response and the session, and returns a number.\<close>

type_synonym 's handler = "HttpRequest \<Rightarrow> HttpResponse \<times> 's \<Rightarrow> int \<times> HttpResponse \<times> 's"

definition FunctionServlet_handle :: "'s handler \<Rightarrow> 's handler" where
  "FunctionServlet_handle m_cb request rs = m_cb request rs"

definition ServletDispatch_handle ::
  "(string \<Rightarrow> string \<Rightarrow> bool) \<Rightarrow> ('p \<Rightarrow> 's handler) \<Rightarrow> 'p ServletDispatch \<Rightarrow> 's handler" where
  "ServletDispatch_handle fnmatch vcall d request rs =
     (case getServlet fnmatch (m_path request) d of
        Some slt \<Rightarrow> (let (_, rs') = vcall slt request rs in (0, rs'))
      | None \<Rightarrow> (0, rs))"

definition RSP_BODY :: string where
  "RSP_BODY = ''<html>'' @
     ''<head><title>404 Not Found</title></head>'' @
     ''<body>'' @
     ''<center><h1>404 Not Found</h1></center>'' @
     ''<hr><center>MyServer/1.0.0</center>'' @
     ''</body>'' @
     ''</html>''"

definition DefaultServlet_handle :: "'s handler" where
  "DefaultServlet_handle request rs =
     (case rs of (response, session) \<Rightarrow>
        let r1 = response\<lparr>r_status := 404\<rparr>;
            r2 = response_setHeader ''Server'' ''MyServer/1.0.0'' r1;
            r3 = response_setHeader ''Content-Type'' ''text/html'' r2
        in (0, r3\<lparr>r_body := RSP_BODY\<rparr>, session))"

section \<open>The reference: what a history of registrations means\<close>

datatype 'p servlet_op =
    AddMatched string "'p option"
  | DelMatched string
  | AddFuzzy string "'p option"
  | DelFuzzy string
  | SetDefault "'p option"

fun servlet_step :: "'p servlet_op \<Rightarrow> 'p ServletDispatch \<Rightarrow> 'p ServletDispatch" where
  "servlet_step (AddMatched u s) d = addMatchedServlet u s d"
| "servlet_step (DelMatched u) d = delMatchedServlet u d"
| "servlet_step (AddFuzzy u s) d = addFuzzyServlet u s d"
| "servlet_step (DelFuzzy u) d = delFuzzyServlet u d"
| "servlet_step (SetDefault s) d = setDefault s d"

fun touches :: "string \<Rightarrow> 'p servlet_op \<Rightarrow> bool" where
  "touches u (AddFuzzy v s) \<longleftrightarrow> u = v"
| "touches u (DelFuzzy v) \<longleftrightarrow> u = v"
| "touches u _ \<longleftrightarrow> False"

definition untouched :: "string \<Rightarrow> 'p servlet_op list \<Rightarrow> bool" where
  "untouched u ops \<longleftrightarrow> list_all (\<lambda>op. \<not> touches u op) ops"

text \<open>The patterns that count are the last registrations, in the order they were made.\<close>

fun live_patterns :: "'p servlet_op list \<Rightarrow> (string \<times> 'p option) list" where
  "live_patterns [] = []"
| "live_patterns (AddFuzzy u s # ops) = (if untouched u ops then [(u, s)] else []) @ live_patterns ops"
| "live_patterns (_ # ops) = live_patterns ops"

fun last_matched :: "string \<Rightarrow> 'p servlet_op list \<Rightarrow> 'p option option \<Rightarrow> 'p option option" where
  "last_matched uri [] acc = acc"
| "last_matched uri (AddMatched u s # ops) acc = last_matched uri ops (if u = uri then Some s else acc)"
| "last_matched uri (DelMatched u # ops) acc = last_matched uri ops (if u = uri then None else acc)"
| "last_matched uri (_ # ops) acc = last_matched uri ops acc"

fun last_default :: "'p servlet_op list \<Rightarrow> 'p option \<Rightarrow> 'p option" where
  "last_default [] acc = acc"
| "last_default (SetDefault s # ops) acc = last_default ops s"
| "last_default (_ # ops) acc = last_default ops acc"

definition resolve :: "(string \<Rightarrow> string \<Rightarrow> bool) \<Rightarrow> string \<Rightarrow> 'p \<Rightarrow> 'p servlet_op list \<Rightarrow> 'p option" where
  "resolve fnmatch uri dflt ops =
     (case last_matched uri ops None of
        Some slt \<Rightarrow> slt
      | None \<Rightarrow>
          (case List.find (\<lambda>(u, _). fnmatch (c_str u) (c_str uri)) (live_patterns ops) of
             Some (_, slt) \<Rightarrow> slt
           | None \<Rightarrow> last_default ops (Some dflt)))"

definition patterns_distinct :: "'p ServletDispatch \<Rightarrow> bool" where
  "patterns_distinct d \<longleftrightarrow> distinct (map fst (m_fuzzy d))"

lemma fuzzy_erase_filter:
  "distinct (map fst fs) \<Longrightarrow> fuzzy_erase uri fs = filter (\<lambda>it. fst it \<noteq> uri) fs"
proof (induction fs)
  case (Cons it fs)
  then have "fst it \<notin> set (map fst fs)" by simp
  then have "filter (\<lambda>x. fst x \<noteq> fst it) fs = fs" by (intro filter_True) (metis image_eqI set_map)
  then show ?case using Cons by auto
qed simp

lemma fuzzy_find_find: "fuzzy_find P fs = map_option snd (List.find (\<lambda>it. P (fst it)) fs)"
  by (induction fs) auto

lemma patterns_distinct_step: "patterns_distinct d \<Longrightarrow> patterns_distinct (servlet_step op d)"
  by (cases op)
     (auto simp: patterns_distinct_def addMatchedServlet_def delMatchedServlet_def addFuzzyServlet_def
        delFuzzyServlet_def setDefault_def fuzzy_erase_filter distinct_map_filter)

lemma fuzzy_fold:
  "patterns_distinct d \<Longrightarrow>
   m_fuzzy (fold servlet_step ops d) = filter (\<lambda>it. untouched (fst it) ops) (m_fuzzy d) @ live_patterns ops"
proof (induction ops arbitrary: d)
  case Nil
  then show ?case by (simp add: untouched_def)
next
  case (Cons op ops)
  have f: "filter (\<lambda>it. untouched (fst it) ops) (fuzzy_erase u fs) =
      filter (\<lambda>it. u \<noteq> fst it \<and> untouched (fst it) ops) fs" if "distinct (map fst fs)" for u and fs :: "(string \<times> 'a option) list"
    using that by (auto simp: fuzzy_erase_filter intro: filter_cong)
  have "distinct (map fst (m_fuzzy d))" using Cons.prems by (simp add: patterns_distinct_def)
  then show ?case
    using Cons.IH [OF patterns_distinct_step [OF Cons.prems, of op]]
    by (cases op) (simp_all add: untouched_def addMatchedServlet_def delMatchedServlet_def addFuzzyServlet_def
        delFuzzyServlet_def setDefault_def f [unfolded untouched_def] eq_commute)
qed

lemma datas_fold: "m_datas (fold servlet_step ops d) uri = last_matched uri ops (m_datas d uri)"
proof (induction ops arbitrary: d)
  case (Cons op ops)
  then show ?case by (cases op)
    (auto simp: addMatchedServlet_def delMatchedServlet_def addFuzzyServlet_def delFuzzyServlet_def setDefault_def)
qed simp

lemma default_fold: "m_default (fold servlet_step ops d) = last_default ops (m_default d)"
proof (induction ops arbitrary: d)
  case (Cons op ops)
  then show ?case by (cases op)
    (auto simp: addMatchedServlet_def delMatchedServlet_def addFuzzyServlet_def delFuzzyServlet_def setDefault_def)
qed simp

section \<open>Properties\<close>

text \<open>
  C36. The dispatcher agrees with the reference on every history of registrations: an exact
  registration of the path wins, the latest one for the path; otherwise the earliest of the
  patterns that match, ordered by their latest registrations; otherwise the default.
\<close>

theorem dispatch_equals_reference:
  "getServlet fnmatch uri (fold servlet_step ops (new_ServletDispatch p)) = resolve fnmatch uri p ops"
proof -
  have "patterns_distinct (new_ServletDispatch p)"
    by (simp add: patterns_distinct_def new_ServletDispatch_def)
  from fuzzy_fold [OF this, of ops] show ?thesis
    by (simp add: getServlet_def resolve_def datas_fold default_fold fuzzy_find_find new_ServletDispatch_def
        case_prod_unfold split: option.splits)
qed

text \<open>
  The dispatcher calls exactly one servlet, or none when a null one was registered, and
  always returns 0. A path nobody serves is answered by the default servlet with status 404;
  with the default set to null the response stays as it was made, by default 200 OK.
\<close>

theorem dispatch_handle_spec:
  assumes "m_datas d (m_path req) = None"
    "\<forall>it \<in> set (m_fuzzy d). \<not> fnmatch (c_str (fst it)) (c_str (m_path req))"
    "m_default d = Some p" "vcall p = DefaultServlet_handle" "map_ok (r_headers rsp)"
  shows "ServletDispatch_handle fnmatch vcall (setDefault None d) req (rsp, s) = (0, rsp, s)
    \<and> (\<exists>rsp'. ServletDispatch_handle fnmatch vcall d req (rsp, s) = (0, rsp', s) \<and> r_status rsp' = 404
        \<and> r_body rsp' = RSP_BODY \<and> response_getHeader ''content-type'' [] rsp' = ''text/html''
        \<and> response_getHeader ''SERVER'' [] rsp' = ''MyServer/1.0.0''
        \<and> (\<forall>k. \<not> casecmp_eq k ''Server'' \<and> \<not> casecmp_eq k ''Content-Type'' \<longrightarrow>
             response_getHeader k v rsp' = response_getHeader k v rsp))"
proof -
  have f: "fuzzy_find (\<lambda>u. fnmatch (c_str u) (c_str (m_path req))) (m_fuzzy d) = None"
    using assms(2) by (induction "m_fuzzy d" rule: rev_induct) (auto simp: fuzzy_find_find find_None_iff)
  then have g: "getServlet fnmatch (m_path req) d = Some p"
    "getServlet fnmatch (m_path req) (setDefault None d) = None"
    using assms(1,3) by (simp_all add: getServlet_def setDefault_def)
  define rsp' where "rsp' = fst (snd (DefaultServlet_handle req (rsp, s)))"
  have h: "DefaultServlet_handle req (rsp, s) = (0, rsp', s)"
    by (simp add: rsp'_def DefaultServlet_handle_def Let_def)
  have c: "casecmp_eq ''content-type'' ''Content-Type''" "casecmp_eq ''SERVER'' ''Server''"
    "\<not> casecmp_eq ''SERVER'' ''Content-Type''" by code_simp+
  have k: "response_getHeader k v rsp' =
      (if casecmp_eq k ''Content-Type'' then ''text/html''
       else if casecmp_eq k ''Server'' then ''MyServer/1.0.0'' else response_getHeader k v rsp)" for k v
    using assms(5) by (simp add: rsp'_def DefaultServlet_handle_def Let_def response_getHeader_def
        response_setHeader_def find_put_case)
  have "r_status rsp' = 404" "r_body rsp' = RSP_BODY"
    by (simp_all add: rsp'_def DefaultServlet_handle_def Let_def response_setHeader_def)
  then show ?thesis using g h k c assms(4) by (simp add: ServletDispatch_handle_def)
qed

lemma dispatch_handle_spec_witness:
  "\<exists>rsp'. ServletDispatch_handle (\<lambda>u v. u = v) (\<lambda>p::nat. DefaultServlet_handle)
     (addFuzzyServlet ''/x'' None (new_ServletDispatch 0)) (new_HttpRequest 0x11 True)
     (new_HttpResponse 0x11 True, ()) = (0, rsp', ()) \<and> r_status rsp' = 404"
proof -
  let ?d = "addFuzzyServlet ''/x'' None (new_ServletDispatch 0) :: nat ServletDispatch"
  have "m_datas ?d (m_path (new_HttpRequest 0x11 True)) = None" "m_default ?d = Some 0"
    "\<forall>it \<in> set (m_fuzzy ?d). \<not> c_str (fst it) = c_str (m_path (new_HttpRequest 0x11 True))"
    "map_ok (r_headers (new_HttpResponse 0x11 True))"
    by (simp_all add: addFuzzyServlet_def new_ServletDispatch_def new_HttpRequest_def new_HttpResponse_def c_str_def)
  then show ?thesis
    using dispatch_handle_spec [of ?d "new_HttpRequest 0x11 True" "\<lambda>u v. u = v" 0 "\<lambda>p. DefaultServlet_handle"
        "new_HttpResponse 0x11 True" "()" "[]"] by blast
qed

end
