(* ===== verification/Request_Parse.thy ===== *)
theory Request_Parse
  imports Request_Rows
begin

text \<open>
  \<open>HttpRequestParser::execute\<close> on the text that \<open>HttpRequest::dump\<close> prints: the run through the
  request line, the header fields and the blank line, one lemma per part of the grammar, and the
  composition. A head that arrives in pieces is refused by an assertion.
\<close>

section \<open>The request line\<close>

lemma std_string_at: "drop p b = xs @ ys \<Longrightarrow> p \<le> length b \<Longrightarrow> std_string b p (length xs) = Inr xs"
proof -
  assume d: "drop p b = xs @ ys" and p: "p \<le> length b"
  have "length b - p = length xs + length ys" using arg_cong [OF d, of length] by simp
  then show ?thesis using d p by (simp add: std_string_def)
qed

lemma len_back: "p + n < 2 ^ 64 \<Longrightarrow> usub64 (p + n) p = n"
  by (simp add: usub64_def)

definition name_state :: "nat \<Rightarrow> nat" where
  "name_state i = (if i = 0 then 2 else 174 + i)"

lemma step_name:
  assumes "upper_char c" "i < 10"
  shows "step req_machine cond (name_state i) (schar c) = (name_state (i + 1), [])"
proof -
  have "i = 0 \<or> i = 1 \<or> i = 2 \<or> i = 3 \<or> i = 4 \<or> i = 5 \<or> i = 6 \<or> i = 7 \<or> i = 8 \<or> i = 9" using assms(2) by presburger
  then show ?thesis by (elim disjE; simp add: name_state_def step_upper [OF assms(1)])
qed

lemma step_name_end:
  assumes "i \<le> 10"
  shows "step req_machine cond (name_state i) (schar (CHR '' '')) = (3, [5])"
proof -
  have "i = 0 \<or> i = 1 \<or> i = 2 \<or> i = 3 \<or> i = 4 \<or> i = 5 \<or> i = 6 \<or> i = 7 \<or> i = 8 \<or> i = 9 \<or> i = 10" using assms by presburger
  then show ?thesis
    by (elim disjE; simp add: name_state_def schar_def req_step_2 req_step_175 req_step_176 req_step_177
        req_step_178 req_step_179 req_step_180 req_step_181 req_step_182 req_step_183 req_step_184)
qed

lemma walk_name:
  "list_all upper_char xs \<Longrightarrow> i + length xs \<le> 10 \<Longrightarrow> req_walk cond (name_state i) xs = Some (name_state (i + length xs))"
proof (induction xs arbitrary: i)
  case (Cons c xs)
  have "name_state (i + 1) \<noteq> 0" by (simp add: name_state_def)
  then show ?case using Cons step_name [of c i cond] by simp
qed simp

lemma method_word:
  assumes "m \<noteq> INVALID_METHOD" "m \<noteq> MSEARCH"
  shows "list_all upper_char (HttpMethodToString m)" "HttpMethodToString m \<noteq> []" "length (HttpMethodToString m) \<le> 11"
    "CharsToHttpMethod (HttpMethodToString m @ rest) = m"
proof -
  have "list_all upper_char (HttpMethodToString m) \<and> HttpMethodToString m \<noteq> [] \<and> length (HttpMethodToString m) \<le> 11"
    using assms by (cases m) (simp_all add: HttpMethodToString_def s_method_string_def HTTP_METHOD_MAP_def upper_char_def schar_def)
  then show "list_all upper_char (HttpMethodToString m)" "HttpMethodToString m \<noteq> []" "length (HttpMethodToString m) \<le> 11"
    by blast+
  show "CharsToHttpMethod (HttpMethodToString m @ rest) = m" using method_names [OF assms(1)] by blast
qed

lemma goes_method:
  assumes "m \<noteq> INVALID_METHOD" "m \<noteq> MSEARCH" "drop p b = HttpMethodToString m @ '' '' @ ys" "length b < 2 ^ 64"
  shows "req_goes cond b 1 p st = req_goes cond b 3 (p + length (HttpMethodToString m) + 1)
    (st\<lparr>hp_mark := p, hp_data := (hp_data st)\<lparr>m_method := m\<rparr>\<rparr>)"
proof -
  obtain c xs where w: "HttpMethodToString m = c # xs" using method_word(2) [OF assms(1,2)] by (cases "HttpMethodToString m") auto
  have u: "upper_char c" "list_all upper_char xs" "length xs \<le> 10" using method_word(1,3) [OF assms(1,2)] w by simp_all
  have len: "p + (length xs + 1) < 2 ^ 64" using drop_bound [of p b "c # xs" "'' '' @ ys"] assms(3,4) w by simp
  have 1: "req_goes cond b 1 p st = req_goes cond b 2 (p + 1) (st\<lparr>hp_mark := p\<rparr>)"
    using assms(3) w step_upper(1) [OF u(1)] by (intro goes_move) (auto simp: request_action_def)
  have d1: "drop (p + 1) b = xs @ '' '' @ ys" using drop_next [of p b "[c]"] assms(3) w by simp
  have 2: "req_goes cond b 2 (p + 1) st1 = req_goes cond b (name_state (length xs)) (p + 1 + length xs) st1" for st1
    using walk_name [OF u(2), of 0] u(3) by (intro goes_walk [OF d1]) (simp add: name_state_def)
  have d2: "drop (p + 1 + length xs) b = CHR '' '' # ys" using drop_next [OF d1] by simp
  have 3: "req_goes cond b (name_state (length xs)) (p + 1 + length xs) (st\<lparr>hp_mark := p\<rparr>) =
    req_goes cond b 3 (p + 1 + length xs + 1) (st\<lparr>hp_mark := p, hp_data := (hp_data st)\<lparr>m_method := m\<rparr>\<rparr>)"
    using step_name_end [OF u(3)] method_word(4) [OF assms(1,2)] assms(1,3)
    by (intro goes_move [OF d2]) (auto simp: request_action_def on_request_method_def Let_def)
  show ?thesis using 1 2 3 w by (simp add: add.assoc)
qed

lemma walk_uri:
  "uri_text False xs \<Longrightarrow> req_walk cond 26 xs = Some 26"
  "uri_text True xs \<Longrightarrow> req_walk cond 30 xs = Some 30"
  "uri_text True xs \<Longrightarrow> req_walk cond 21 xs = Some 21"
proof -
  have "(q \<longrightarrow> uri_text q xs \<longrightarrow> req_walk cond 30 xs = Some 30 \<and> req_walk cond 21 xs = Some 21) \<and>
     (\<not> q \<longrightarrow> uri_text q xs \<longrightarrow> req_walk cond 26 xs = Some 26)" for q
    by (induction q xs rule: uri_text.induct)
      (auto simp: step_percent step_hex step_uri step_uri_query split: list.splits)
  from this [of True] this [of False] show
  "uri_text False xs \<Longrightarrow> req_walk cond 26 xs = Some 26"
  "uri_text True xs \<Longrightarrow> req_walk cond 30 xs = Some 30"
  "uri_text True xs \<Longrightarrow> req_walk cond 21 xs = Some 21" by blast+
qed

lemma walk_path:
  assumes "uri_text False xs" "xs = [] \<or> hd xs \<noteq> CHR ''/''"
  shows "req_walk cond 33 xs = Some (if xs = [] then 33 else 26)"
proof (cases xs)
  case (Cons c cs)
  show ?thesis
  proof (cases "c = CHR ''%''")
    case True
    then obtain h l r where "cs = h # l # r" "hex_char h" "hex_char l" "uri_text False r"
      using assms(1) Cons by (auto split: list.splits)
    then show ?thesis using Cons True by (simp add: step_percent step_hex walk_uri)
  next
    case False
    then show ?thesis using assms Cons by (simp add: step_uri walk_uri)
  qed
qed simp

text \<open>The first character of a query or a fragment starts it.\<close>

lemma goes_uri_start:
  assumes "uri_text True xs" "xs \<noteq> []" "drop p b = xs @ ys"
  shows "req_goes cond b 29 p st = req_goes cond b 30 (p + length xs) (st\<lparr>hp_query_start := p\<rparr>)"
    "req_goes cond b 20 p st = req_goes cond b 21 (p + length xs) (st\<lparr>hp_mark := p\<rparr>)"
proof -
  obtain c cs where x: "xs = c # cs" using assms(2) by (cases xs) auto
  have d: "drop (p + 1) b = cs @ ys" using drop_next [of p b "[c]"] assms(3) x by simp
  define s t :: nat where "s = (if c = CHR ''%'' then 31 else 30)" "t = (if c = CHR ''%'' then 22 else 21)"
  have s: "step req_machine cond 29 (schar c) = (s, [8])" "step req_machine cond 20 (schar c) = (t, [0])"
    using assms(1) x by (auto simp: s_t_def step_percent step_uri_query)
  have w: "req_walk cond s cs = Some 30" "req_walk cond t cs = Some 21"
    using assms(1) x by (auto simp: s_t_def walk_uri step_hex split: list.splits)
  have "req_goes cond b 29 p st = req_goes cond b s (p + 1) (st\<lparr>hp_query_start := p\<rparr>)"
    using assms(3) x s(1) by (intro goes_move) (auto simp: request_action_def s_t_def)
  then show "req_goes cond b 29 p st = req_goes cond b 30 (p + length xs) (st\<lparr>hp_query_start := p\<rparr>)"
    using goes_walk [OF d w(1)] x by simp
  have "req_goes cond b 20 p st = req_goes cond b t (p + 1) (st\<lparr>hp_mark := p\<rparr>)"
    using assms(3) x s(2) by (intro goes_move) (auto simp: request_action_def s_t_def)
  then show "req_goes cond b 20 p st = req_goes cond b 21 (p + length xs) (st\<lparr>hp_mark := p\<rparr>)"
    using goes_walk [OF d w(2)] x by simp
qed

lemma step_delimiters:
  "step req_machine cond 3 (schar (CHR ''/'')) = (33, [0])"
  "step req_machine cond 33 (schar (CHR '' '')) = (4, [11, 6])" "step req_machine cond 26 (schar (CHR '' '')) = (4, [11, 6])"
  "step req_machine cond 33 (schar (CHR ''?'')) = (29, [11])" "step req_machine cond 26 (schar (CHR ''?'')) = (29, [11])"
  "step req_machine cond 33 (schar (CHR ''#'')) = (20, [11, 6])" "step req_machine cond 26 (schar (CHR ''#'')) = (20, [11, 6])"
  "step req_machine cond 30 (schar (CHR '' '')) = (4, [9, 6])" "step req_machine cond 30 (schar (CHR ''#'')) = (20, [9, 6])"
  "step req_machine cond 21 (schar (CHR '' '')) = (4, [7])"
  by (simp_all add: schar_def plain_def req_step_3 req_step_26 req_step_33 req_step_30 req_step_21)

lemma goes_path:
  assumes "uri_text False xs" "xs = [] \<or> hd xs \<noteq> CHR ''/''" "drop p b = CHR ''/'' # xs @ d # ys"
    "d \<in> {CHR '' '', CHR ''?'', CHR ''#''}" "length b < 2 ^ 64"
  shows "req_goes cond b 3 p st = req_goes cond b (if d = CHR '' '' then 4 else if d = CHR ''?'' then 29 else 20) (p + length xs + 2)
    (st\<lparr>hp_mark := p, hp_data := (hp_data st)\<lparr>m_path := CHR ''/'' # xs\<rparr>\<rparr>)"
proof -
  define s :: nat where "s = (if xs = [] then 33 else 26)"
  have len: "p + length xs + 2 \<le> length b" using drop_bound [of p b "CHR ''/'' # xs" "d # ys"] assms(3) by simp
  have 1: "req_goes cond b 3 p st = req_goes cond b 33 (p + 1) (st\<lparr>hp_mark := p\<rparr>)"
    using assms(3) by (intro goes_move) (auto simp: request_action_def step_delimiters)
  have d1: "drop (p + 1) b = xs @ d # ys" using drop_next [of p b "[CHR ''/'']"] assms(3) by simp
  have 2: "req_goes cond b 33 (p + 1) st1 = req_goes cond b s (p + 1 + length xs) st1" for st1
    using walk_path [OF assms(1,2)] by (intro goes_walk [OF d1]) (simp add: s_def)
  have d2: "drop (p + 1 + length xs) b = d # ys" using drop_next [OF d1] by simp
  have u: "std_string b p (Suc (length xs)) = Inr (CHR ''/'' # xs)"
    using std_string_at [of p b "CHR ''/'' # xs" "d # ys"] assms(3) len by simp
  have 3: "req_goes cond b s (p + 1 + length xs) (st\<lparr>hp_mark := p\<rparr>) =
    req_goes cond b (if d = CHR '' '' then 4 else if d = CHR ''?'' then 29 else 20) (p + 1 + length xs + 1)
     (st\<lparr>hp_mark := p, hp_data := (hp_data st)\<lparr>m_path := CHR ''/'' # xs\<rparr>\<rparr>)"
    using assms(4) u by (intro goes_move [OF d2, where as = "if d = CHR ''?'' then [11] else [11, 6]"])
      (auto simp: step_delimiters s_def request_action_def on_request_path_def Let_def)
  show ?thesis using 1 2 3 by simp
qed

lemma goes_query:
  assumes "uri_text True xs" "xs \<noteq> []" "drop p b = xs @ d # ys" "d \<in> {CHR '' '', CHR ''#''}" "length b < 2 ^ 64"
  shows "req_goes cond b 29 p st = req_goes cond b (if d = CHR '' '' then 4 else 20) (p + length xs + 1)
    (st\<lparr>hp_query_start := p, hp_data := (hp_data st)\<lparr>m_query := xs\<rparr>\<rparr>)"
proof -
  have len: "p + length xs + 1 \<le> length b" using drop_bound [of p b xs "d # ys"] assms(2,3) by simp
  have u: "std_string b p (length xs) = Inr xs" using std_string_at [of p b xs "d # ys"] assms(3) len by simp
  have d2: "drop (p + length xs) b = d # ys" using drop_next assms(3) by blast
  have "req_goes cond b 30 (p + length xs) (st\<lparr>hp_query_start := p\<rparr>) =
    req_goes cond b (if d = CHR '' '' then 4 else 20) (p + length xs + 1)
    (st\<lparr>hp_query_start := p, hp_data := (hp_data st)\<lparr>m_query := xs\<rparr>\<rparr>)"
    using assms(4) u by (intro goes_move [OF d2, where as = "[9, 6]"])
      (auto simp: step_delimiters request_action_def on_request_query_def Let_def)
  then show ?thesis using goes_uri_start(1) [OF assms(1-3)] by simp
qed

lemma goes_fragment:
  assumes "uri_text True xs" "xs \<noteq> []" "drop p b = xs @ CHR '' '' # ys" "length b < 2 ^ 64"
  shows "req_goes cond b 20 p st = req_goes cond b 4 (p + length xs + 1)
    (st\<lparr>hp_mark := p, hp_data := (hp_data st)\<lparr>m_fragment := xs\<rparr>\<rparr>)"
proof -
  have len: "p + length xs + 1 \<le> length b" using drop_bound [of p b xs] assms(2,3) by simp
  have u: "std_string b p (length xs) = Inr xs" using std_string_at [of p b xs] assms(3) len by simp
  have d2: "drop (p + length xs) b = CHR '' '' # ys" using drop_next assms(3) by blast
  have "req_goes cond b 21 (p + length xs) (st\<lparr>hp_mark := p\<rparr>) = req_goes cond b 4 (p + length xs + 1)
    (st\<lparr>hp_mark := p, hp_data := (hp_data st)\<lparr>m_fragment := xs\<rparr>\<rparr>)"
    using u by (intro goes_move [OF d2, where as = "[7]"])
      (auto simp: step_delimiters request_action_def on_request_fragment_def Let_def)
  then show ?thesis using goes_uri_start(2) [OF assms(1-3)] by simp
qed

text \<open>Path, query and fragment as a request line has them.\<close>

definition uri_part :: "HttpRequest \<Rightarrow> string" where
  "uri_part r = m_path r @ (if m_query r = [] then [] else CHR ''?'' # m_query r) @
     (if m_fragment r = [] then [] else CHR ''#'' # m_fragment r)"

definition uri_ok :: "HttpRequest \<Rightarrow> bool" where
  "uri_ok r \<longleftrightarrow> (case m_path r of c # xs \<Rightarrow> c = CHR ''/'' \<and> uri_text False xs \<and> (xs = [] \<or> hd xs \<noteq> CHR ''/'') | [] \<Rightarrow> False) \<and>
     uri_text True (m_query r) \<and> uri_text True (m_fragment r)"

lemma keep_empty:
  "m_query d = [] \<Longrightarrow> d\<lparr>m_path := x, m_query := []\<rparr> = d\<lparr>m_path := x\<rparr>"
  "m_fragment d = [] \<Longrightarrow> d\<lparr>m_path := x, m_query := y, m_fragment := []\<rparr> = d\<lparr>m_path := x, m_query := y\<rparr>"
  "hp_query_start st = q \<Longrightarrow> st\<lparr>hp_query_start := q\<rparr> = st"
  by (auto intro!: HttpRequest.equality request_parser.equality)

lemma mark_query: "st\<lparr>hp_query_start := q, hp_mark := m, hp_data := d\<rparr> = st\<lparr>hp_mark := m, hp_query_start := q, hp_data := d\<rparr>"
  by simp

lemma goes_uri:
  assumes "uri_ok r" "drop p b = uri_part r @ CHR '' '' # ys" "length b < 2 ^ 64"
    "m_query (hp_data st) = []" "m_fragment (hp_data st) = []"
  shows "\<exists>m q. req_goes cond b 3 p st = req_goes cond b 4 (p + length (uri_part r) + 1)
    (st\<lparr>hp_mark := m, hp_query_start := q,
        hp_data := (hp_data st)\<lparr>m_path := m_path r, m_query := m_query r, m_fragment := m_fragment r\<rparr>\<rparr>)"
proof -
  obtain xs where path: "m_path r = CHR ''/'' # xs" "uri_text False xs" "xs = [] \<or> hd xs \<noteq> CHR ''/''"
    and t: "uri_text True (m_query r)" "uri_text True (m_fragment r)"
    using assms(1) by (auto simp: uri_ok_def split: list.splits)
  define fs where "fs = (if m_fragment r = [] then [] else CHR ''#'' # m_fragment r) @ CHR '' '' # ys"
  define qs where "qs = (if m_query r = [] then [] else CHR ''?'' # m_query r) @ fs"
  have d0: "drop p b = (CHR ''/'' # xs) @ qs" using assms(2) path(1) by (simp add: uri_part_def qs_def fs_def)
  obtain d z where dz: "qs = d # z" "d \<in> {CHR '' '', CHR ''?'', CHR ''#''}"
    "d = CHR ''?'' \<longleftrightarrow> m_query r \<noteq> []" "d = CHR ''#'' \<longleftrightarrow> m_query r = [] \<and> m_fragment r \<noteq> []"
    by (cases "m_query r = []"; cases "m_fragment r = []") (auto simp: qs_def fs_def)
  define st1 where "st1 = st\<lparr>hp_mark := p, hp_data := (hp_data st)\<lparr>m_path := m_path r\<rparr>\<rparr>"
  have 1: "req_goes cond b 3 p st = req_goes cond b (if d = CHR '' '' then 4 else if d = CHR ''?'' then 29 else 20) (p + length xs + 2) st1"
    using goes_path [OF path(2,3) _ dz(2) assms(3)] d0 dz(1) path(1) by (simp add: st1_def)
  have d1: "drop (p + length xs + 2) b = z"
    using drop_next [of p b "CHR ''/'' # xs @ [d]" z] d0 dz(1) by simp
  define D where "D = (hp_data st)\<lparr>m_path := m_path r, m_query := m_query r\<rparr>"
  define s2 :: nat where "s2 = (if m_fragment r = [] then 4 else 20)"
  obtain q p2 where 2: "req_goes cond b 3 p st = req_goes cond b s2 p2 (st\<lparr>hp_mark := p, hp_query_start := q, hp_data := D\<rparr>)"
    and p2: "drop p2 b = (if m_fragment r = [] then ys else m_fragment r @ CHR '' '' # ys)"
      "m_fragment r = [] \<Longrightarrow> p2 = p + length (uri_part r) + 1"
      "m_fragment r \<noteq> [] \<Longrightarrow> p2 + length (m_fragment r) = p + length (uri_part r)"
  proof (cases "m_query r = []")
    case True
    then have "req_goes cond b 3 p st = req_goes cond b s2 (p + length xs + 2)
        (st\<lparr>hp_mark := p, hp_query_start := hp_query_start st, hp_data := D\<rparr>)"
      using 1 dz(2-4) assms(4) by (auto simp: st1_def D_def s2_def keep_empty)
    moreover have "z = (if m_fragment r = [] then ys else m_fragment r @ CHR '' '' # ys)"
      using dz(1) True by (simp add: qs_def fs_def split: if_splits)
    ultimately show ?thesis using d1 True path(1) by (intro that [of "p + length xs + 2" "hp_query_start st"]) (auto simp: uri_part_def)
  next
    case False
    then have z: "z = m_query r @ fs" using dz(1) by (simp add: qs_def)
    obtain e w where ew: "fs = e # w" "e \<in> {CHR '' '', CHR ''#''}" "e = CHR '' '' \<longleftrightarrow> m_fragment r = []"
      "w = (if m_fragment r = [] then ys else m_fragment r @ CHR '' '' # ys)"
      by (cases "m_fragment r = []") (auto simp: fs_def)
    have "req_goes cond b 3 p st = req_goes cond b 29 (p + length xs + 2) st1" using 1 dz(2,3) False by auto
    also have "\<dots> = req_goes cond b s2 (p + length xs + 2 + length (m_query r) + 1)
        (st1\<lparr>hp_query_start := p + length xs + 2, hp_data := (hp_data st1)\<lparr>m_query := m_query r\<rparr>\<rparr>)"
      using goes_query [OF t(1) False _ ew(2) assms(3)] d1 z ew(1,3) by (auto simp: s2_def)
    finally have "req_goes cond b 3 p st = req_goes cond b s2 (p + length xs + 2 + length (m_query r) + 1)
        (st\<lparr>hp_mark := p, hp_query_start := p + length xs + 2, hp_data := D\<rparr>)" by (simp add: st1_def D_def)
    moreover have "drop (p + length xs + 2 + length (m_query r) + 1) b = w"
      using drop_next [of "p + length xs + 2" b "m_query r @ [e]" w] d1 z ew(1) by simp
    ultimately show ?thesis using ew(4) False path(1)
      by (intro that [of "p + length xs + 2 + length (m_query r) + 1" "p + length xs + 2"]) (auto simp: uri_part_def)
  qed
  show ?thesis
  proof (cases "m_fragment r = []")
    case True
    then show ?thesis using 2 p2(2) assms(5) by (auto simp: s2_def D_def keep_empty)
  next
    case False
    have "req_goes cond b 3 p st = req_goes cond b 20 p2 (st\<lparr>hp_mark := p, hp_query_start := q, hp_data := D\<rparr>)"
      using 2 False by (simp add: s2_def)
    also have "\<dots> = req_goes cond b 4 (p2 + length (m_fragment r) + 1)
        (st\<lparr>hp_mark := p2, hp_query_start := q, hp_data := D\<lparr>m_fragment := m_fragment r\<rparr>\<rparr>)"
      using goes_fragment [OF t(2) False _ assms(3)] p2(1) False by (simp add: mark_query)
    finally show ?thesis using p2(3) False by (auto simp: D_def)
  qed
qed

section \<open>Version, header fields, end of the head\<close>

lemma steps_version:
  "step req_machine cond 4 (schar (CHR ''H'')) = (5, [0])" "req_walk cond 5 ''TTP/1.1'' = Some 12" "req_walk cond 5 ''TTP/1.0'' = Some 12"
  "step req_machine cond 12 (schar (CHR 0x0D)) = (17, [10])" "step req_machine cond 17 (schar (CHR 0x0A)) = (13, [])"
  by (simp_all add: schar_def req_step_4 req_step_5 req_step_6 req_step_7 req_step_8 req_step_9 req_step_10
      req_step_11 req_step_12 req_step_17)

lemma version_text: "v \<in> {0x10, 0x11} \<Longrightarrow> version_str v = (if v = 0x11 then ''1.1'' else ''1.0'')"
  by (elim insertE; simp; code_simp)

lemma version_callback:
  assumes "v \<in> {0x10, 0x11}" "drop p b = ''HTTP/'' @ version_str v @ ys"
  shows "on_request_version b p 8 st = Inr (st\<lparr>hp_data := (hp_data st)\<lparr>m_version := v\<rparr>\<rparr>)"
proof -
  define w where "w = (if v = 0x11 then ''HTTP/1.1'' else ''HTTP/1.0'')"
  have d: "drop p b = w @ ys" using assms(2) version_text [OF assms(1)] by (simp add: w_def)
  have "CHR 0x00 \<notin> set w" "length w = 8" by (simp_all add: w_def)
  then have t: "take 8 (c_str (drop p b)) = w" unfolding d c_str_pre [OF \<open>CHR 0x00 \<notin> set w\<close>] by simp
  have e: "take 8 (c_str ''HTTP/1.1'') = ''HTTP/1.1''" "take 8 (c_str ''HTTP/1.0'') = ''HTTP/1.0''" by simp_all
  have "w = ''HTTP/1.1'' \<and> v = 0x11 \<or> w = ''HTTP/1.0'' \<and> v = 0x10" using assms(1) by (auto simp: w_def)
  then show ?thesis unfolding on_request_version_def strncmp_eq_def t e by (elim disjE; simp)
qed

lemma goes_version:
  assumes "v \<in> {0x10, 0x11}" "drop p b = ''HTTP/'' @ version_str v @ crlf @ ys" "length b < 2 ^ 64"
  shows "req_goes cond b 4 p st = req_goes cond b 13 (p + 10) (st\<lparr>hp_mark := p, hp_data := (hp_data st)\<lparr>m_version := v\<rparr>\<rparr>)"
proof -
  define w where "w = ''TTP/'' @ version_str v"
  have w: "w = (if v = 0x11 then ''TTP/1.1'' else ''TTP/1.0'')" using version_text [OF assms(1)] by (simp add: w_def)
  have d0: "drop p b = CHR ''H'' # w @ crlf @ ys" using assms(2) by (simp add: w_def)
  have len: "p + 10 \<le> length b" using drop_bound [of p b "CHR ''H'' # w @ crlf" ys] d0 w by (simp add: crlf_def split: if_splits)
  have d1: "drop (p + 1) b = w @ crlf @ ys" using drop_next [of p b "[CHR ''H'']"] d0 by simp
  have l7: "length w = 7" using w by simp
  then have d2: "drop (p + 8) b = CHR 0x0D # CHR 0x0A # ys" using drop_next [OF d1] by (simp add: crlf_def ac_simps)
  have d3: "drop (p + 9) b = CHR 0x0A # ys" using drop_next [of "p + 8" b "[CHR 0x0D]"] d2 by (simp add: ac_simps)
  have "req_goes cond b 4 p st = req_goes cond b 5 (p + 1) (st\<lparr>hp_mark := p\<rparr>)"
    using d0 by (intro goes_move) (auto simp: request_action_def steps_version)
  also have "\<dots> = req_goes cond b 12 (p + 8) (st\<lparr>hp_mark := p\<rparr>)"
  proof -
    have "req_walk cond 5 w = Some 12" unfolding w using steps_version(2,3) by simp
    from goes_walk [OF d1 this] show ?thesis by (simp add: l7 ac_simps)
  qed
  also have "\<dots> = req_goes cond b 17 (p + 8 + 1) (st\<lparr>hp_mark := p, hp_data := (hp_data st)\<lparr>m_version := v\<rparr>\<rparr>)"
    using version_callback [OF assms(1,2), of "st\<lparr>hp_mark := p\<rparr>"]
    by (intro goes_move [OF d2, where as = "[10]"]) (simp_all add: request_action_def steps_version)
  also have "\<dots> = req_goes cond b 13 (p + 9 + 1) (st\<lparr>hp_mark := p, hp_data := (hp_data st)\<lparr>m_version := v\<rparr>\<rparr>)"
    using goes_move [OF d3, of req_machine cond 17 13 "[]" "request_action b"] by (simp add: steps_version ac_simps)
  finally show ?thesis by (simp add: ac_simps)
qed

text \<open>A header field that the grammar reads back as it was written.\<close>

definition sendable :: "string \<times> string \<Rightarrow> bool" where
  "sendable f \<longleftrightarrow> fst f \<noteq> [] \<and> list_all token_char (fst f) \<and> list_all value_char (snd f) \<and>
     (snd f = [] \<or> hd (snd f) \<notin> {CHR 0x09, CHR '' ''})"

lemma steps_field:
  "step req_machine cond 14 (schar (CHR '':'')) = (15, [2])" "step req_machine cond 15 (schar (CHR '' '')) = (15, [3])"
  "step req_machine cond 15 (schar (CHR 0x0D)) = (17, [3, 4])" "step req_machine cond 16 (schar (CHR 0x0D)) = (17, [4])"
  "step req_machine cond 13 (schar (CHR 0x0D)) = (18, [1])" "step req_machine cond 18 (schar (CHR 0x0A)) = (348, [12])"
  by (simp_all add: schar_def req_step_13 req_step_14 req_step_15 req_step_16 req_step_18)

lemma goes_field:
  assumes "sendable (k, v)" "drop p b = k @ '': '' @ v @ crlf @ ys" "length b < 2 ^ 64"
  shows "req_goes cond b 13 p st = req_goes cond b 13 (p + length k + length v + 4)
    (st\<lparr>hp_field_start := p, hp_field_len := length k, hp_mark := p + length k + 2, hp_data := setHeader k v (hp_data st)\<rparr>)"
proof -
  obtain c cs where k: "k = c # cs" "token_char c" "list_all token_char cs"
    using assms(1) by (cases k) (auto simp: sendable_def)
  define n where "n = p + length k"
  have d0: "drop p b = k @ CHR '':'' # CHR '' '' # v @ crlf @ ys" using assms(2) by simp
  have len: "n + length v + 4 \<le> length b"
    using drop_bound [of p b "k @ '': '' @ v @ crlf" ys] assms(2) k(1) by (simp add: n_def crlf_def)
  have dn: "drop n b = CHR '':'' # CHR '' '' # v @ crlf @ ys" using drop_next [OF d0] by (simp add: n_def)
  have dv: "drop (n + 2) b = v @ CHR 0x0D # CHR 0x0A # ys" using drop_next [of n b "'': ''"] dn by (simp add: crlf_def)
  have dr: "drop (n + 2 + length v) b = CHR 0x0D # CHR 0x0A # ys" by (rule drop_next [OF dv])
  define s1 s2 s3 where "s1 = st\<lparr>hp_field_start := p\<rparr>" "s2 = s1\<lparr>hp_field_len := length k\<rparr>" "s3 = s2\<lparr>hp_mark := n + 2\<rparr>"
  note s = this
  have "req_goes cond b 13 p st = req_goes cond b 14 (p + 1) s1"
    using d0 k(1) step_token(1) [OF k(2)] by (intro goes_move) (auto simp: request_action_def s)
  also have "\<dots> = req_goes cond b 14 (p + 1 + length cs) s1"
  proof (rule goes_walk)
    show "drop (p + 1) b = cs @ CHR '':'' # CHR '' '' # v @ crlf @ ys" using drop_next [of p b "[c]"] d0 k(1) by simp
    show "req_walk cond 14 cs = Some 14" using k(3) by (intro walk_stay) (auto simp: step_token list_all_iff)
  qed
  also have "\<dots> = req_goes cond b 15 (n + 1) s2"
    using goes_move [OF dn, of req_machine cond 14 15 "[2]" "request_action b" s1 s2] len k(1)
    by (simp add: steps_field request_action_def s n_def)
  also have "\<dots> = req_goes cond b 15 (n + 2) (s2\<lparr>hp_mark := n + 1\<rparr>)"
    using goes_move [of "n + 1" b "CHR '' ''" _ req_machine cond 15 15 "[3]" "request_action b"] drop_next [of n b "[CHR '':'']"] dn
    by (simp add: steps_field request_action_def)
  also have "\<dots> = req_goes cond b 17 (n + 2 + length v + 1) (s3\<lparr>hp_data := setHeader k v (hp_data st)\<rparr>)"
  proof -
    have f: "on_request_http_field b p (length k) (n + 2) (length v) s3 = Inr (s3\<lparr>hp_data := setHeader k v (hp_data st)\<rparr>)"
      using std_string_at [OF d0] std_string_at [OF dv] len k(1) by (simp add: on_request_http_field_def s n_def)
    have cb: "run_actions (request_action b) [4] (n + 2 + length v) s3 = Inr (False, s3\<lparr>hp_data := setHeader k v (hp_data st)\<rparr>)"
      using f by (simp add: request_action_def s)
    show ?thesis
    proof (cases v)
      case Nil
      then show ?thesis
        using goes_move [of "n + 2" b "CHR 0x0D" "CHR 0x0A # ys" req_machine cond 15 17 "[3, 4]" "request_action b" "s2\<lparr>hp_mark := n + 1\<rparr>"] cb dv
        by (simp add: steps_field request_action_def s)
    next
      case (Cons e es)
      then have v: "value_char e" "list_all value_char es" "e \<noteq> CHR 0x09" "e \<noteq> CHR '' ''"
        using assms(1) by (auto simp: sendable_def)
      have "req_goes cond b 15 (n + 2) (s2\<lparr>hp_mark := n + 1\<rparr>) = req_goes cond b 16 (n + 2 + 1) s3"
        using goes_move [of "n + 2" b e _ req_machine cond 15 16 "[3]" "request_action b"] dv Cons v by (simp add: step_value request_action_def s)
      also have "\<dots> = req_goes cond b 16 (n + 2 + 1 + length es) s3"
      proof (rule goes_walk)
        show "drop (n + 2 + 1) b = es @ CHR 0x0D # CHR 0x0A # ys" using drop_next [of "n + 2" b "[e]"] dv Cons by simp
        show "req_walk cond 16 es = Some 16" using v(2) by (intro walk_stay) (auto simp: step_value list_all_iff)
      qed
      also have "\<dots> = req_goes cond b 17 (n + 2 + length v + 1) (s3\<lparr>hp_data := setHeader k v (hp_data st)\<rparr>)"
        using goes_move [OF dr, of req_machine cond 16 17 "[4]" "request_action b" s3, OF _ cb] Cons by (simp add: steps_field)
      finally show ?thesis .
    qed
  qed
  also have "\<dots> = req_goes cond b 13 (n + 2 + length v + 1 + 1) (s3\<lparr>hp_data := setHeader k v (hp_data st)\<rparr>)"
    using goes_move [of "n + 2 + length v + 1" b "CHR 0x0A" ys req_machine cond 17 13 "[]" "request_action b"]
      drop_next [of "n + 2 + length v" b "[CHR 0x0D]"] dr by (simp add: steps_version)
  finally show ?thesis by (simp add: s n_def eval_nat_numeral)
qed

definition set_fields :: "(string \<times> string) list \<Rightarrow> HttpRequest \<Rightarrow> HttpRequest" where
  "set_fields fs r = foldl (\<lambda>r (k, v). setHeader k v r) r fs"

text \<open>Marks that the assertions at the end of \<open>http_parser_execute\<close> accept.\<close>

definition marks_below :: "nat \<Rightarrow> request_parser \<Rightarrow> bool" where
  "marks_below p st \<longleftrightarrow> hp_mark st \<le> p \<and> hp_field_start st \<le> p \<and> hp_field_len st \<le> p"

lemma goes_fields:
  "list_all sendable fs \<Longrightarrow> drop p b = concat (map (\<lambda>f. field_line f @ crlf) fs) @ ys \<Longrightarrow> length b < 2 ^ 64 \<Longrightarrow>
   marks_below p st \<Longrightarrow>
   \<exists>m s l. req_goes cond b 13 p st = req_goes cond b 13 (p + length (concat (map (\<lambda>f. field_line f @ crlf) fs)))
       (st\<lparr>hp_field_start := s, hp_field_len := l, hp_mark := m, hp_data := set_fields fs (hp_data st)\<rparr>) \<and>
     m \<le> p + length (concat (map (\<lambda>f. field_line f @ crlf) fs)) \<and>
     s \<le> p + length (concat (map (\<lambda>f. field_line f @ crlf) fs)) \<and>
     l \<le> p + length (concat (map (\<lambda>f. field_line f @ crlf) fs))"
proof (induction fs arbitrary: p st)
  case Nil
  have "st = st\<lparr>hp_field_start := hp_field_start st, hp_field_len := hp_field_len st, hp_mark := hp_mark st,
    hp_data := set_fields [] (hp_data st)\<rparr>" by (simp add: set_fields_def)
  then show ?case using Nil.prems(4)
    by (intro exI [of _ "hp_mark st"] exI [of _ "hp_field_start st"] exI [of _ "hp_field_len st"]) (simp add: marks_below_def)
next
  case (Cons f fs)
  obtain k v where f: "f = (k, v)" by (cases f)
  define rest where "rest = concat (map (\<lambda>f. field_line f @ crlf) fs)"
  define p1 where "p1 = p + length k + length v + 4"
  have d: "drop p b = k @ '': '' @ v @ crlf @ (rest @ ys)" using Cons.prems(2) f by (simp add: field_line_def rest_def)
  have d1: "drop p1 b = rest @ ys"
    using drop_next [of p b "k @ '': '' @ v @ crlf"] d by (simp add: p1_def crlf_def eval_nat_numeral ac_simps)
  define st1 where "st1 = st\<lparr>hp_field_start := p, hp_field_len := length k, hp_mark := p + length k + 2,
    hp_data := setHeader k v (hp_data st)\<rparr>"
  have 1: "req_goes cond b 13 p st = req_goes cond b 13 p1 st1"
    using goes_field [OF _ d Cons.prems(3)] Cons.prems(1) f by (simp add: p1_def st1_def)
  have m1: "marks_below p1 st1" by (simp add: marks_below_def st1_def p1_def)
  have l: "p + length (concat (map (\<lambda>f. field_line f @ crlf) (f # fs))) = p1 + length rest"
    by (simp add: p1_def rest_def f field_line_def crlf_def)
  obtain m s l where 2: "req_goes cond b 13 p1 st1 = req_goes cond b 13 (p1 + length rest)
       (st1\<lparr>hp_field_start := s, hp_field_len := l, hp_mark := m, hp_data := set_fields fs (hp_data st1)\<rparr>)"
    "m \<le> p1 + length rest" "s \<le> p1 + length rest" "l \<le> p1 + length rest"
    using Cons.IH [of p1 st1] Cons.prems(1,3) d1 m1 f unfolding rest_def by auto
  show ?case unfolding l using 1 2
    by (intro exI [of _ m] exI [of _ s] exI [of _ l]) (simp add: st1_def set_fields_def f)
qed

lemma goes_end:
  assumes "drop p b = crlf @ ys" "\<not> hp_xml_sent st" "\<not> hp_json_sent st"
  shows "req_goes cond b 13 p st = Inr (348, p + 2, st\<lparr>hp_field_start := p, hp_body_start := p + 2\<rparr>)"
proof -
  have "drop (p + 1) b = CHR 0x0A # ys" using drop_next [of p b "[CHR 0x0D]"] assms(1) by (simp add: crlf_def)
  then have "req_goes cond b 18 (p + 1) st1 = Inr (348, p + 2, st1\<lparr>hp_body_start := p + 2\<rparr>)"
    if "\<not> (hp_xml_sent st1 \<or> hp_json_sent st1)" for st1
    using that by (simp add: goes_def steps_field request_action_def)
  moreover have "req_goes cond b 13 p st = req_goes cond b 18 (p + 1) (st\<lparr>hp_field_start := p\<rparr>)"
    using goes_move [of p b "CHR 0x0D" "CHR 0x0A # ys" req_machine cond 13 18 "[1]" "request_action b"] assms(1) by (simp add: steps_field request_action_def crlf_def)
  ultimately show ?thesis using assms(2,3) by simp
qed

section \<open>Parsing a dumped request\<close>

text \<open>Requests whose parts stay inside the grammar.\<close>

definition request_ok :: "HttpRequest \<Rightarrow> bool" where
  "request_ok r \<longleftrightarrow> m_method r \<noteq> INVALID_METHOD \<and> m_method r \<noteq> MSEARCH \<and> uri_ok r \<and> m_version r \<in> {0x10, 0x11} \<and>
     list_all sendable (m_headers r)"

text \<open>The fields a request is sent with, and what the parser makes of its head.\<close>

definition sent_fields :: "HttpRequest \<Rightarrow> (string \<times> string) list" where
  "sent_fields r = connection_field (m_close r) # sent_headers (m_headers r) @ length_field (m_body r)"

definition parsed_request :: "HttpRequest \<Rightarrow> HttpRequest" where
  "parsed_request r = set_fields (sent_fields r)
     ((new_HttpRequest 0x11 True)\<lparr>m_method := m_method r, m_path := m_path r, m_query := m_query r,
       m_fragment := m_fragment r, m_version := m_version r\<rparr>)"

definition request_head :: "HttpRequest \<Rightarrow> string" where
  "request_head r = request_line r @ crlf @ concat (map (\<lambda>f. field_line f @ crlf) (sent_fields r)) @ crlf"

lemma dump_request_head: "dump_request r = request_head r @ m_body r"
  by (simp add: dump_request_def request_head_def sent_fields_def dump_headers_fields dump_body_fields
      dump_connection_field)

lemma request_line_parts:
  "request_line r = HttpMethodToString (m_method r) @ '' '' @ uri_part r @ '' '' @ ''HTTP/'' @ version_str (m_version r)"
  by (simp add: request_line_def uri_part_def)

lemma sent_fields_sendable: "list_all sendable (m_headers r) \<Longrightarrow> list_all sendable (sent_fields r)"
proof -
  assume h: "list_all sendable (m_headers r)"
  have c: "sendable (connection_field close)" for close
    by (simp add: connection_field_def sendable_def token_char_def value_char_def schar_def)
  have "value_char c \<and> c \<noteq> CHR 0x09 \<and> c \<noteq> CHR '' ''" if "c \<in> set (dec n)" for c n
    using dec_digits [OF that] by (auto simp: C_Strings.is_digit_def value_char_def)
  then have "list_all value_char (dec n) \<and> hd (dec n) \<noteq> CHR 0x09 \<and> hd (dec n) \<noteq> CHR '' ''" for n
    using hd_in_set [OF dec_not_Nil [of n]] unfolding list_all_iff by blast
  then have "list_all sendable (length_field body)" for body
    by (simp add: length_field_def sendable_def token_char_def schar_def)
  moreover have "list_all sendable (sent_headers (m_headers r))"
    using h by (auto simp: sent_headers_def list_all_iff)
  ultimately show ?thesis using c by (simp add: sent_fields_def)
qed

lemma request_parse_run:
  assumes "request_ok r" "b = request_head r @ body" "length b < 2 ^ 31"
  shows "\<exists>st. HttpRequestParser_execute b (new_HttpRequestParser relaxed q0) = Inr (length (request_head r), body, st) \<and>
     HttpRequestParser_isFinished st = 1 \<and> \<not> HttpRequestParser_hasError st \<and> hp_data st = parsed_request r \<and>
     hp_body_start st = length (request_head r)"
proof -
  define st0 where "st0 = new_HttpRequestParser relaxed q0"
  define F where "F = concat (map (\<lambda>f. field_line f @ crlf) (sent_fields r))"
  define M where "M = HttpMethodToString (m_method r)"
  define p1 p2 p3 p4 where "p1 = length M + 1" "p2 = p1 + length (uri_part r) + 1" "p3 = p2 + 10" "p4 = p3 + length F"
  note p = this
  have l64: "length b < 2 ^ 64" using assms(3) by simp
  have ok: "m_method r \<noteq> INVALID_METHOD" "m_method r \<noteq> MSEARCH" "uri_ok r" "m_version r \<in> {0x10, 0x11}"
    "list_all sendable (sent_fields r)"
    using assms(1) sent_fields_sendable by (auto simp: request_ok_def)
  have b: "b = M @ '' '' @ uri_part r @ '' '' @ ''HTTP/'' @ version_str (m_version r) @ crlf @ F @ crlf @ body"
    using assms(2) by (simp add: request_head_def request_line_parts F_def M_def)
  have v: "length (version_str (m_version r)) = 3" using version_text [OF ok(4)] by simp
  have lc: "length crlf = 2" by (simp add: crlf_def)
  have head: "length (request_head r) = p4 + 2"
    by (simp add: request_head_def request_line_parts F_def [symmetric] M_def [symmetric] p v lc)
  have d1: "drop p1 b = uri_part r @ CHR '' '' # ''HTTP/'' @ version_str (m_version r) @ crlf @ F @ crlf @ body"
    using drop_next [of 0 b "M @ '' ''"] b by (simp add: p)
  have d2: "drop p2 b = ''HTTP/'' @ version_str (m_version r) @ crlf @ F @ crlf @ body"
    using drop_next [of p1 b "uri_part r @ '' ''"] d1 by (simp add: p)
  have d3: "drop p3 b = F @ crlf @ body"
    using drop_next [of p2 b "''HTTP/'' @ version_str (m_version r) @ crlf"] d2
    by (simp add: p(3) v crlf_def eval_nat_numeral)
  have d4: "drop p4 b = crlf @ body" using drop_next [OF d3] by (simp add: p)
  define r1 where "r1 = (hp_data st0)\<lparr>m_method := m_method r\<rparr>"
  have g1: "req_goes relaxed b 1 0 st0 = req_goes relaxed b 3 p1 (st0\<lparr>hp_mark := 0, hp_data := r1\<rparr>)"
    using goes_method [OF ok(1,2), of 0 b] b l64 by (simp add: M_def [symmetric] p r1_def)
  define r2 where "r2 = r1\<lparr>m_path := m_path r, m_query := m_query r, m_fragment := m_fragment r\<rparr>"
  have e0: "m_query r1 = []" "m_fragment r1 = []" by (simp_all add: r1_def st0_def new_HttpRequestParser_def new_HttpRequest_def)
  obtain m q where g2: "req_goes relaxed b 3 p1 (st0\<lparr>hp_mark := 0, hp_data := r1\<rparr>) =
      req_goes relaxed b 4 p2 (st0\<lparr>hp_mark := m, hp_query_start := q, hp_data := r2\<rparr>)"
    using goes_uri [OF ok(3) d1 l64, of "st0\<lparr>hp_mark := 0, hp_data := r1\<rparr>" relaxed] e0 by (auto simp: p r2_def)
  define r3 where "r3 = r2\<lparr>m_version := m_version r\<rparr>"
  define st3 where "st3 = st0\<lparr>hp_query_start := q, hp_mark := p2, hp_data := r3\<rparr>"
  have g3: "req_goes relaxed b 4 p2 (st0\<lparr>hp_mark := m, hp_query_start := q, hp_data := r2\<rparr>) = req_goes relaxed b 13 p3 st3"
    using goes_version [OF ok(4) d2 l64] by (simp add: p r3_def st3_def mark_query)
  have "marks_below p3 st3" by (simp add: marks_below_def st3_def st0_def new_HttpRequestParser_def p)
  from goes_fields [OF ok(5) d3 [unfolded F_def] l64 this, folded F_def p(4), of relaxed]
  obtain m4 s4 l4 where g4: "req_goes relaxed b 13 p3 st3 = req_goes relaxed b 13 p4
       (st3\<lparr>hp_field_start := s4, hp_field_len := l4, hp_mark := m4, hp_data := set_fields (sent_fields r) r3\<rparr>)"
    and m4: "m4 \<le> p4" "l4 \<le> p4" by (auto simp: st3_def)
  have par: "set_fields (sent_fields r) r3 = parsed_request r"
    by (simp add: parsed_request_def r3_def r2_def r1_def st0_def new_HttpRequestParser_def)
  define st5 where "st5 = st3\<lparr>hp_field_len := l4, hp_mark := m4, hp_data := parsed_request r, hp_field_start := p4,
      hp_body_start := p4 + 2\<rparr>"
  have "req_goes relaxed b 1 0 st0 = Inr (348, p4 + 2, st5)"
    using g1 g2 g3 g4 goes_end [OF d4]
    by (simp add: par st5_def st3_def st0_def new_HttpRequestParser_def)
  then have res: "resume req_machine relaxed (request_action b) 1 0 (map schar b) st0 = Inr (348, p4 + 2, st5)"
    by (simp add: goes_def)
  have bl: "length b = p4 + 2 + length body" "b \<noteq> []" using assms(2) head by auto
  have i32: "to_i32 (int (length b)) = int (length b)" using assms(3) by (intro to_i32_id) simp_all
  have x: "http_parser_execute b st0 = Inr (p4 + 2, st5\<lparr>hp_cs := 348, hp_nread := p4 + 2\<rparr>)"
    using res bl m4 i32
    by (simp add: http_parser_execute_def run_def st5_def st3_def st0_def new_HttpRequestParser_def http_parser_start_def
        http_parser_has_error_def)
  have "drop (p4 + 2) b = body" using assms(2) head by simp
  then show ?thesis
    using x head unfolding st0_def [symmetric]
    by (simp add: HttpRequestParser_execute_def HttpRequestParser_isFinished_def HttpRequestParser_hasError_def
        http_parser_finish_def http_parser_has_error_def http_parser_is_finished_def http_parser_first_final_def
        st5_def st3_def st0_def new_HttpRequestParser_def)
qed

text \<open>
  C6. Parsing what \<open>HttpRequest::dump\<close> printed gives the request back: for every request with a
  method the grammar knows, an absolute path, query and fragment of URI characters, HTTP/1.0 or
  1.1 and header fields of tokens and values, \<open>HttpRequestParser::execute\<close> on the text consumes
  exactly the head, leaves exactly the body in the buffer, is finished without an error, and the
  parsed request has the same method, path, query, fragment and version and the sent header
  fields, set one after the other.
\<close>

theorem request_dump_parse:
  assumes "request_ok r" "length (dump_request r) < 2 ^ 31"
  shows "\<exists>st. HttpRequestParser_execute (dump_request r) (new_HttpRequestParser relaxed q0)
        = Inr (length (request_head r), m_body r, st)
    \<and> HttpRequestParser_isFinished st = 1 \<and> \<not> HttpRequestParser_hasError st
    \<and> hp_data st = parsed_request r \<and> hp_body_start st = length (request_head r)"
  using request_parse_run [OF assms(1) refl, of "m_body r"] assms(2) by (simp add: dump_request_head)

theorem request_dump_parse_witness:
  "\<exists>st. HttpRequestParser_execute
       (dump_request ((new_HttpRequest 0x11 True)\<lparr>m_path := ''/a'', m_query := ''q=1'', m_headers := [(''Host'', ''b'')]\<rparr>))
       (new_HttpRequestParser False 0) = Inr (51, [], st)
     \<and> m_query (hp_data st) = ''q=1''"
proof -
  define r where "r = (new_HttpRequest 0x11 True)\<lparr>m_path := ''/a'', m_query := ''q=1'', m_headers := [(''Host'', ''b'')]\<rparr>"
  have ok: "request_ok r"
    by (simp add: r_def request_ok_def new_HttpRequest_def uri_ok_def uri_char_def sendable_def token_char_def
        value_char_def schar_def)
  have "casecmp_eq ''Host'' ''connection'' = False" by code_simp
  moreover have "version_str 17 = ''1.1''" using version_text [of 17] by simp
  ultimately have h: "length (request_head r) = 51"
    by (simp add: r_def request_head_def request_line_def new_HttpRequest_def HttpMethodToString_def s_method_string_def
        HTTP_METHOD_MAP_def crlf_def sent_fields_def connection_field_def sent_headers_def length_field_def field_line_def)
  have b: "m_body r = []" by (simp add: r_def new_HttpRequest_def)
  have l: "length (dump_request r) < 2 ^ 31" by (simp add: dump_request_head h b)
  have q: "m_query (parsed_request r) = ''q=1''"
    by (simp add: parsed_request_def set_fields_def r_def new_HttpRequest_def sent_fields_def sent_headers_def length_field_def
        connection_field_def setHeader_def split: prod.splits)
  show ?thesis using request_dump_parse [OF ok l, of False 0] q unfolding r_def [symmetric] h b by auto
qed

lemma request_action_nread:
  "request_action b a p st = Inr (out, st1) \<Longrightarrow> hp_nread st1 = hp_nread st"
  by (auto simp: request_action_def Let_def on_request_http_field_def on_request_method_def on_request_fragment_def
      on_request_query_def on_request_version_def on_request_path_def bind_res_def
      split: if_splits sum.splits)

text \<open>
  A request whose head arrives in more than one read: \<open>nread\<close> counts the bytes of all calls,
  but the assertion compares it with the length of the current buffer. After a call that
  consumed \<open>n\<close> bytes every call with a shorter buffer ends the program.
\<close>

theorem split_request_aborts:
  assumes "http_parser_execute b1 rp = Inr (n, rp1)" "b2 \<noteq> []" "length b2 < n"
  shows "\<exists>e. http_parser_execute b2 rp1 = Inl e"
proof (cases "http_parser_execute b2 rp1")
  case (Inr r)
  have n: "hp_nread rp1 = n"
    using assms(1,3) by (auto simp: http_parser_execute_def Let_def split: if_splits sum.splits)
  obtain cs p rp2 where run: "run req_machine (hp_uri_relaxed rp1) (request_action b2) (hp_cs rp1) (map schar b2) rp1 = Inr (cs, p, rp2)"
    and le: "hp_nread rp2 + p \<le> length b2"
    using Inr assms(2) by (auto simp: http_parser_execute_def Let_def split: if_splits sum.splits)
  have "hp_nread rp2 = n"
    using run n resume_preserve [of "request_action b2" "\<lambda>st. hp_nread st = n"] request_action_nread
    by (auto simp: run_def split: if_splits)
  then show ?thesis using le assms(3) by simp
qed simp

theorem split_request_aborts_witness:
  "\<exists>rp1. http_parser_execute ''GE'' (new_HttpRequestParser False 0) = Inr (2, rp1)
     \<and> (\<exists>e. http_parser_execute ''T'' rp1 = Inl e)"
proof -
  have "step req_machine False (Suc 0) 71 = (2, [0])" "step req_machine False 2 69 = (175, [])"
    using step_upper(1) [of "CHR ''G''" False] step_upper(2) [of "CHR ''E''" False]
    by (simp_all add: upper_char_def schar_def)
  then have "\<exists>rp1. http_parser_execute ''GE'' (new_HttpRequestParser False 0) = Inr (2, rp1)"
    by (simp add: http_parser_execute_def run_def new_HttpRequestParser_def http_parser_start_def to_i32_id
        schar_def request_action_def http_parser_has_error_def)
  then obtain rp1 where "http_parser_execute ''GE'' (new_HttpRequestParser False 0) = Inr (2, rp1)" by blast
  then show ?thesis using split_request_aborts [of "''GE''" "new_HttpRequestParser False 0" 2 rp1 "''T''"] by simp
qed

end
