(* ===== verification/Http_Session.thy ===== *)
theory Http_Session
  imports Streams Servlets Request_Parse
begin

text \<open>
  \<open>src/src/HTTP/http_session.{h,cpp}\<close> and \<open>src/src/HTTP/http_server.{h,cpp}\<close>: a connection on
  the server's side, what \<open>recvRequest\<close> reads from it through the request parser, how
  \<open>sendResponse\<close> writes, and the loop that serves a client. What the peer sends is a script of
  pieces. A property of the whole path says that a request in arbitrary pieces is received, handled
  by the servlet and answered completely.
\<close>

section \<open>The connection\<close>

text \<open>
  What the peer sends is a list of pieces, one for each time data becomes readable: \<open>Some\<close> bytes,
  \<open>None\<close> for a failed call (a timeout, a reset), the end of the list for an orderly shutdown.
  \<open>recv\<close> takes at most the bytes asked for and leaves the rest of the piece. What \<open>send\<close> returns is
  scripted too; an empty script takes everything.
\<close>

type_synonym net = "string option list"

record session =
  ss_stream :: SocketStream
  ss_in :: net
  ss_script :: "int list"
  ss_sent :: string
  ss_calls :: "sys_call list"

definition new_HttpSession :: "Socket option \<Rightarrow> net \<Rightarrow> int list \<Rightarrow> session" where
  "new_HttpSession sock net script =
     \<lparr>ss_stream = new_SocketStream sock True, ss_in = net, ss_script = script, ss_sent = [], ss_calls = []\<rparr>"

fun net_take :: "nat \<Rightarrow> net \<Rightarrow> int \<times> string \<times> net" where
  "net_take n [] = (0, [], [])"
| "net_take n (None # ns) = (- 1, [], ns)"
| "net_take n (Some s # ns) =
     (if length s \<le> n then (int (length s), s, ns) else (int n, take n s, Some (drop n s) # ns))"

definition peer_read :: "nat \<Rightarrow> session \<Rightarrow> int \<times> string \<times> session" where
  "peer_read n s =
     (if \<not> stream_isConnected (ss_stream s) then (- 1, [], s)
      else case net_take n (ss_in s) of
        (r, bytes, net) \<Rightarrow> (stream_read (ss_stream s) r, bytes, s\<lparr>ss_in := net\<rparr>))"

definition session_close :: "session \<Rightarrow> session" where
  "session_close s =
     (let (st, cs) = stream_close (ss_stream s) in s\<lparr>ss_stream := st, ss_calls := ss_calls s @ cs\<rparr>)"

datatype http_error = Parser parse_error | Overrun

section \<open>recvRequest\<close>

text \<open>
  The loop for the head. The buffer holds \<open>B\<close> bytes (the setting \<open>http.request.buffer_size\<close>, here
  below \<open>2 ^ 31\<close>, so that the \<open>int\<close> variables do not overflow); \<open>kept\<close> are its first \<open>offset\<close> bytes.
  The result is the rest of the buffer and the parser, or \<open>None\<close> when the session was closed.
\<close>

definition net_measure :: "net \<Rightarrow> nat" where
  "net_measure ns = sum_list (map (\<lambda>x. case x of None \<Rightarrow> 1 | Some s \<Rightarrow> Suc (length s)) ns)"

lemma net_take_measure:
  "net_take n ns = (r, bytes, ns1) \<Longrightarrow> 0 < r \<Longrightarrow> net_measure ns1 < net_measure ns"
  by (induction n ns rule: net_take.induct) (auto simp: net_measure_def split: if_splits)

lemma net_take_range: "net_take n ns = (r, bytes, ns1) \<Longrightarrow> - 1 \<le> r"
  by (induction n ns rule: net_take.induct) (auto split: if_splits)

lemma stream_read_pos: "0 < stream_read ss r \<Longrightarrow> - 1 \<le> r \<Longrightarrow> 0 < r"
proof (rule ccontr)
  assume h: "0 < stream_read ss r" "- 1 \<le> r" "\<not> 0 < r"
  then have "r = - 1 \<or> r = 0" by linarith
  then show False using h(1)
    by (elim disjE) (simp_all add: stream_read_def Socket_recv_def to_i32_id split: if_splits option.splits)
qed

lemma peer_read_measure:
  "peer_read n s = (rt, bytes, s1) \<Longrightarrow> 0 < rt \<Longrightarrow> net_measure (ss_in s1) < net_measure (ss_in s)"
  using stream_read_pos net_take_range net_take_measure
  by (fastforce simp: peer_read_def split: if_splits prod.splits)

function recv_head ::
  "nat \<Rightarrow> string \<Rightarrow> request_parser \<Rightarrow> session \<Rightarrow> http_error + (string \<times> request_parser) option \<times> session" where
  "recv_head B kept rp s =
     (case peer_read (B - length kept) s of (rt, bytes, s1) \<Rightarrow>
        if rt \<le> 0 then Inr (None, session_close s1)
        else
          let data = kept @ bytes
          in case HttpRequestParser_execute data rp of
               Inl e \<Rightarrow> Inl (Parser e)
             | Inr (nparse, rest, rp1) \<Rightarrow>
                 if HttpRequestParser_hasError rp1 then Inr (None, session_close s1)
                 else if length rest = B then Inr (None, session_close s1)
                 else if HttpRequestParser_isFinished rp1 \<noteq> 0 then Inr (Some (rest, rp1), s1)
                 else recv_head B rest rp1 s1)"
  by pat_completeness auto
termination
  by (relation "measure (\<lambda>(B, kept, rp, s). net_measure (ss_in s))") (auto dest!: peer_read_measure [OF sym])

declare recv_head.simps [simp del]

text \<open>
  One call of \<open>readFixSize(&body[len], length)\<close>: the pointer is \<open>base\<close> bytes into the body, the
  offset of the loop is added to it. Bytes that do not fall into the string are an overrun.
\<close>

definition body_read ::
  "nat \<Rightarrow> u64 \<Rightarrow> u64 \<Rightarrow> session \<times> string \<Rightarrow> http_error + int \<times> session \<times> string" where
  "body_read base off left sb =
     (case sb of (s, body) \<Rightarrow>
        case peer_read (unat left) s of (rt, bytes, s1) \<Rightarrow>
          let pos = unat (of_nat base + off)
          in if bytes = [] then Inr (rt, s1, body)
             else if pos + length bytes \<le> length body then Inr (rt, s1, overwrite pos bytes body)
             else Inl Overrun)"

text \<open>
  The body, after the head: \<open>length\<close> is an \<open>int64_t\<close>. The result is \<open>None\<close> while
  \<open>readFixSize\<close> has not returned within the fuel; \<open>Some None\<close> is the null pointer.
\<close>

definition recv_body ::
  "nat \<Rightarrow> int \<Rightarrow> string \<Rightarrow> session \<Rightarrow> http_error + string option option \<times> session" where
  "recv_body fuel clen kept s =
     (let offset = int (length kept);
          (body, len) = (if offset \<le> clen then (kept @ replicate (nat clen - length kept) (CHR 0x00), length kept)
                         else (take (nat clen) kept, nat clen));
          left = clen - offset
      in if 0 < left then
           (case readFixSize fuel (body_read len) (word_of_int left) (s, body) of
              Inl e \<Rightarrow> Inl e
            | Inr (None, s1, _) \<Rightarrow> Inr (None, s1)
            | Inr (Some rt, s1, body1) \<Rightarrow>
                if rt \<le> 0 then Inr (Some None, session_close s1) else Inr (Some (Some body1), s1))
         else Inr (Some (Some body), s))"

definition recvRequest ::
  "nat \<Rightarrow> nat \<Rightarrow> (string \<Rightarrow> u64 option) \<Rightarrow> request_parser \<Rightarrow> session \<Rightarrow> http_error + HttpRequest option option \<times> session" where
  "recvRequest fuel B cast parser s =
     bind_res (recv_head B [] parser s) (\<lambda>(r, s1).
       case r of
         None \<Rightarrow> Inr (Some None, s1)
       | Some (kept, rp) \<Rightarrow>
           let clen = sint (HttpRequestParser_getContentLength cast rp)
           in if 0 < clen then
                bind_res (recv_body fuel clen kept s1) (\<lambda>(b, s2).
                  case b of
                    None \<Rightarrow> Inr (None, s2)
                  | Some None \<Rightarrow> Inr (Some None, s2)
                  | Some (Some body) \<Rightarrow> Inr (Some (Some ((hp_data rp)\<lparr>m_body := body\<rparr>)), s2))
              else Inr (Some (Some (hp_data rp)), s1))"

section \<open>sendResponse\<close>

text \<open>One call of \<open>writeFixSize(data.c_str(), data.size())\<close>.\<close>

definition send_part :: "string \<Rightarrow> u64 \<Rightarrow> u64 \<Rightarrow> session \<Rightarrow> http_error + int \<times> session" where
  "send_part data off left s =
     (let r = (case ss_script s of [] \<Rightarrow> uint left | k # _ \<Rightarrow> min k (uint left));
          rt = stream_write (ss_stream s) r;
          s1 = s\<lparr>ss_script := tl (ss_script s)\<rparr>
      in if \<not> stream_isConnected (ss_stream s) then Inr (rt, s)
         else if r \<le> 0 then Inr (rt, s1)
         else if unat off + nat r \<le> length data
              then Inr (rt, s1\<lparr>ss_sent := ss_sent s @ take (nat r) (drop (unat off) data)\<rparr>)
              else Inl Overrun)"

definition sendResponse :: "nat \<Rightarrow> HttpResponse \<Rightarrow> session \<Rightarrow> http_error + int option \<times> session" where
  "sendResponse fuel rsp s =
     (let data = dump_response rsp in writeFixSize fuel (send_part data) (of_nat (length data)) s)"

section \<open>HttpServer\<close>

record 'p HttpServer =
  sv_keepAlive :: bool
  sv_dispatch :: "'p ServletDispatch"

definition new_HttpServer :: "bool \<Rightarrow> 'p \<Rightarrow> 'p HttpServer" where
  "new_HttpServer keepAlive default_servlet =
     \<lparr>sv_keepAlive = keepAlive, sv_dispatch = new_ServletDispatch default_servlet\<rparr>"

text \<open>
  The loop of \<open>handleClient\<close> with at most \<open>n\<close> rounds; each round makes a parser, of which the
  members that no constructor sets come from \<open>mk\<close>. The result says whether the loop has ended.
\<close>

fun client_loop ::
  "nat \<Rightarrow> nat \<Rightarrow> nat \<Rightarrow> (string \<Rightarrow> u64 option) \<Rightarrow> request_parser \<Rightarrow> (string \<Rightarrow> string \<Rightarrow> bool) \<Rightarrow>
   ('p \<Rightarrow> session handler) \<Rightarrow> 'p HttpServer \<Rightarrow> session \<Rightarrow> http_error + bool \<times> session" where
  "client_loop 0 fuel B cast mk fnmatch vcall sv s = Inr (False, s)"
| "client_loop (Suc n) fuel B cast mk fnmatch vcall sv s =
     bind_res (recvRequest fuel B cast mk s) (\<lambda>(r, s1).
       case r of
         None \<Rightarrow> Inr (False, s1)
       | Some None \<Rightarrow> Inr (True, s1)
       | Some (Some req) \<Rightarrow>
           let rsp = new_HttpResponse (m_version req) (m_close req \<or> \<not> sv_keepAlive sv);
               (_, rsp1, s2) = ServletDispatch_handle fnmatch vcall (sv_dispatch sv) req (rsp, s1)
           in bind_res (sendResponse fuel rsp1 s2) (\<lambda>(w, s3).
                if w = None then Inr (False, s3)
                else if \<not> sv_keepAlive sv \<or> m_close req then Inr (True, s3)
                else client_loop n fuel B cast mk fnmatch vcall sv s3))"

definition HttpServer_handleClient ::
  "nat \<Rightarrow> nat \<Rightarrow> nat \<Rightarrow> (string \<Rightarrow> u64 option) \<Rightarrow> request_parser \<Rightarrow> (string \<Rightarrow> string \<Rightarrow> bool) \<Rightarrow>
   ('p \<Rightarrow> session handler) \<Rightarrow> 'p HttpServer \<Rightarrow> session \<Rightarrow> http_error + bool \<times> session" where
  "HttpServer_handleClient n fuel B cast mk fnmatch vcall sv s =
     bind_res (client_loop n fuel B cast mk fnmatch vcall sv s) (\<lambda>(fin, s1).
       Inr (fin, if fin then session_close s1 else s1))"

section \<open>Header fields of a parsed request\<close>

lemma set_fields_headers:
  "m_headers (set_fields fs r) = foldl (\<lambda>m f. om_put CompareNoCase (fst f) (snd f) m) (m_headers r) fs"
  by (induction fs arbitrary: r) (auto simp: set_fields_def setHeader_def split: prod.splits)

lemma fold_put_ok: "map_ok m \<Longrightarrow> map_ok (foldl (\<lambda>m f. om_put CompareNoCase (fst f) (snd f) m) m fs)"
  by (induction fs arbitrary: m) simp_all

lemma fold_put_other:
  "map_ok m \<Longrightarrow> \<forall>f \<in> set fs. \<not> casecmp_eq j (fst f) \<Longrightarrow>
   om_find CompareNoCase j (foldl (\<lambda>m f. om_put CompareNoCase (fst f) (snd f) m) m fs) = om_find CompareNoCase j m"
  by (induction fs arbitrary: m) (simp_all add: find_put_case)

lemma set_fields_other: "m_body (set_fields fs r) = m_body r" "m_close (set_fields fs r) = m_close r" "m_version (set_fields fs r) = m_version r"
  by (induction fs arbitrary: r) (auto simp: set_fields_def setHeader_def split: prod.splits)

text \<open>No header of the request itself gives a length.\<close>

definition no_length :: "HttpRequest \<Rightarrow> bool" where
  "no_length r \<longleftrightarrow> list_all (\<lambda>f. \<not> casecmp_eq ''content-length'' (fst f)) (m_headers r)"

lemma length_of_fields:
  assumes "\<forall>f \<in> set fs. \<not> casecmp_eq ''content-length'' (fst f)"
  shows "om_find CompareNoCase ''content-length'' (foldl (\<lambda>m f. om_put CompareNoCase (fst f) (snd f) m) [] (fs @ length_field body)) =
    (if body = [] then None else Some (dec (length body)))"
proof -
  have self: "casecmp_eq ''content-length'' ''content-length''" by code_simp
  show ?thesis
    using fold_put_other [OF map_ok_Nil assms] fold_put_ok [OF map_ok_Nil, of fs] self
    by (simp add: length_field_def find_put_case)
qed

lemma parsed_length:
  assumes "no_length r" "cast (dec (length (m_body r))) = Some (of_nat (length (m_body r)))" "hp_data rp = parsed_request r"
  shows "HttpRequestParser_getContentLength cast rp = of_nat (length (m_body r))"
proof -
  define fs where "fs = connection_field (m_close r) # sent_headers (m_headers r)"
  have "\<not> casecmp_eq ''content-length'' ''connection''" by code_simp
  then have o: "\<forall>f \<in> set fs. \<not> casecmp_eq ''content-length'' (fst f)"
    using assms(1) by (auto simp: fs_def connection_field_def no_length_def sent_headers_def list_all_iff)
  have "m_headers (parsed_request r) = foldl (\<lambda>m f. om_put CompareNoCase (fst f) (snd f) m) [] (fs @ length_field (m_body r))"
    by (simp add: parsed_request_def set_fields_headers sent_fields_def fs_def new_HttpRequest_def)
  then show ?thesis using length_of_fields [OF o, of "m_body r"] assms(2,3)
    by (simp add: HttpRequestParser_getContentLength_def getHeaderAs_def getAs_def)
qed

section \<open>Receiving\<close>

lemma connected_read: "stream_isConnected ss \<Longrightarrow> stream_read ss r = to_i32 r"
  by (auto simp: stream_isConnected_def stream_read_def Socket_recv_def split: option.splits)

lemma peer_read_piece:
  assumes "stream_isConnected (ss_stream s)" "ss_in s = Some q # ns" "length q \<le> n" "length q < 2 ^ 31"
  shows "peer_read n s = (int (length q), q, s\<lparr>ss_in := ns\<rparr>)"
  using assms by (simp add: peer_read_def connected_read to_i32_id)

text \<open>A body of which \<open>k\<close> bytes are still missing.\<close>

definition filled :: "string \<Rightarrow> nat \<Rightarrow> string" where
  "filled body k = take (length body - k) body @ replicate k (CHR 0x00)"

lemma filled_step:
  assumes "length q + m = k" "k \<le> length body" "drop (length body - k) body = q @ z"
  shows "overwrite (length body - k) q (filled body k) = filled body m" "drop (length body - m) body = z"
proof -
  define i where "i = length body - k"
  have e: "length body - m = i + length q" "i + k = length body" using assms(1,2) by (simp_all add: i_def)
  have d: "drop i body = q @ z" using assms(3) by (simp add: i_def)
  have "take (i + length q) body = take i body @ q" using d by (simp add: take_add)
  then show "overwrite (length body - k) q (filled body k) = filled body m"
    unfolding filled_def i_def [symmetric] e(1) using e(2) assms(1) by (simp add: overwrite_def)
  show "drop (length body - m) body = z" unfolding e(1) by (rule drop_next [OF d])
qed

lemma body_read_piece:
  assumes "stream_isConnected (ss_stream s)" "ss_in s = Some q # ns" "q \<noteq> []" "length q + m = unat l"
    "unat (of_nat base + off :: u64) = length body - unat l" "unat l \<le> length body" "length body < 2 ^ 31"
    "drop (length body - unat l) body = q @ z"
  shows "body_read base off l (s, filled body (unat l)) = Inr (int (length q), s\<lparr>ss_in := ns\<rparr>, filled body m)"
proof -
  have "peer_read (unat l) s = (int (length q), q, s\<lparr>ss_in := ns\<rparr>)"
    using assms(4,6,7) by (intro peer_read_piece [OF assms(1,2)]) simp_all
  moreover have "length body - unat l + length q \<le> length (filled body (unat l))"
    using assms(4,6) by (simp add: filled_def)
  ultimately show ?thesis using assms(3,5) filled_step(1) [OF assms(4,6,8)] by (simp add: body_read_def)
qed

lemma word_move:
  fixes off l :: u64
  assumes "n \<le> unat l" "unat off + unat l < 2 ^ 31"
  shows "unat (off + word_of_int (int n)) = unat off + n" "unat (l - word_of_int (int n)) = unat l - n"
proof -
  have n: "unat (word_of_int (int n) :: u64) = n" using assms by (simp add: unat_of_nat)
  show "unat (off + word_of_int (int n)) = unat off + n"
    using assms n by (subst unat_word_ariths) simp
  have "word_of_int (int n) \<le> l" using n assms(1) by (simp add: word_le_nat_alt)
  then show "unat (l - word_of_int (int n)) = unat l - n" using n by (simp add: unat_sub)
qed

lemma fix_loop_pieces:
  assumes "stream_isConnected (ss_stream s)" "ss_in s = map Some ps @ ns" "[] \<notin> set ps" "body = b0 @ concat ps"
    "length body < 2 ^ 31" "length body \<le> fuel"
  shows "readFixSize fuel (body_read (length b0)) (of_nat (length (concat ps))) (s, filled body (length (concat ps))) =
    Inr (Some (int (length (concat ps))), s\<lparr>ss_in := ns\<rparr>, body)"
proof -
  define n where "n = length (concat ps)"
  define sz :: u64 where "sz = of_nat n"
  have n: "length body = length b0 + n" using assms(4) by (simp add: n_def)
  have usz: "unat sz = n" "uint sz = int n" using n assms(5) by (simp_all add: sz_def unat_of_nat uint_nat)
  define P where "P = (\<lambda>(off :: u64) (l :: u64) (sb :: session \<times> string). \<exists>qs.
     unat off + unat l = n \<and> [] \<notin> set qs \<and> concat qs = drop (length body - unat l) body \<and>
     sb = (s\<lparr>ss_in := map Some qs @ ns\<rparr>, filled body (unat l)))"
  have step: "\<exists>r sb'. body_read (length b0) off l sb = Inr (r, sb') \<and> 0 < r \<and> r \<le> uint l \<and> P (off + word_of_int r) (l - word_of_int r) sb'"
    if l: "0 < l" "P off l sb" for off l sb
  proof -
    obtain qs where P: "unat off + unat l = n" "[] \<notin> set qs" "concat qs = drop (length body - unat l) body"
      "sb = (s\<lparr>ss_in := map Some qs @ ns\<rparr>, filled body (unat l))"
      using l(2) unfolding P_def by blast
    have ul: "0 < unat l" "unat l \<le> length body" using l(1) P(1) n by (simp_all add: word_less_nat_alt)
    then have lc: "length (concat qs) = unat l" using P(3) by simp
    then obtain q qs' where q: "qs = q # qs'" "q \<noteq> []" using ul(1) P(2) by (cases qs) auto
    define m where "m = unat l - length q"
    have lq: "length q + m = unat l" "length q \<le> unat l" using lc q(1) by (simp_all add: m_def)
    have pos: "unat (of_nat (length b0) + off :: u64) = length body - unat l"
    proof -
      have "unat (of_nat (length b0) :: u64) = length b0" using n assms(5) by (simp add: unat_of_nat)
      moreover have "length b0 + unat off < 2 ^ 64" using P(1) n assms(5) by simp
      ultimately have "unat (of_nat (length b0) + off :: u64) = length b0 + unat off" by (subst unat_word_ariths) simp
      then show ?thesis using P(1) n by linarith
    qed
    have d: "drop (length body - unat l) body = q @ concat qs'" using P(3) q(1) by simp
    have br: "body_read (length b0) off l sb = Inr (int (length q), s\<lparr>ss_in := map Some qs' @ ns\<rparr>, filled body m)"
      using body_read_piece [of "s\<lparr>ss_in := map Some qs @ ns\<rparr>" q "map Some qs' @ ns" m l "length b0" off body "concat qs'"]
        assms(1,5) q lq(1) pos ul(2) d P(4) by simp
    have small: "unat off + unat l < 2 ^ 31" using P(1) n assms(5) by linarith
    have "P (off + word_of_int (int (length q))) (l - word_of_int (int (length q))) (s\<lparr>ss_in := map Some qs' @ ns\<rparr>, filled body m)"
      unfolding P_def word_move [OF lq(2) small] m_def [symmetric]
      using P(1,2) q(1) lq filled_step(2) [OF lq(1) ul(2) d] by (intro exI [of _ qs']) simp
    moreover have "int (length q) \<le> uint l" unfolding uint_nat using lq(2) by (simp only: of_nat_le_iff)
    moreover have "0 < int (length q)" using q(2) by simp
    ultimately show ?thesis using br by blast
  qed
  have "P 0 sz (s, filled body n)"
    unfolding P_def usz using assms(2,3,4) n by (intro exI [of _ ps]) simp
  moreover have "unat sz \<le> fuel" using usz(1) n assms(6) by simp
  ultimately obtain sb where
    r: "fix_loop fuel (body_read (length b0)) sz 0 sz (s, filled body n) = Inr (Some (to_i32 (uint sz)), sb)"
    "P (0 + sz) 0 sb" using fix_loop_returns [of P "body_read (length b0)", OF step] by blast
  from r(2) obtain qs where qs: "[] \<notin> set qs" "concat qs = []" "sb = (s\<lparr>ss_in := map Some qs @ ns\<rparr>, body)"
    unfolding P_def by (auto simp: filled_def)
  then have "qs = []" by (cases qs) auto
  moreover have "to_i32 (uint sz) = int n" using usz(2) n assms(5) by (simp add: to_i32_id)
  ultimately show ?thesis using r(1) qs(3) by (simp add: readFixSize_def n_def [symmetric] sz_def [symmetric])
qed

lemma recv_body_pieces:
  assumes "stream_isConnected (ss_stream s)" "ss_in s = map Some ps @ ns" "[] \<notin> set ps" "body = b0 @ concat ps"
    "length body < 2 ^ 31" "length body \<le> fuel"
  shows "recv_body fuel (int (length body)) b0 s = Inr (Some (Some body), s\<lparr>ss_in := ns\<rparr>)"
proof (cases "ps = []")
  case True
  then have "b0 = body" "s\<lparr>ss_in := ns\<rparr> = s" using assms(2,4) by simp_all
  then show ?thesis by (simp add: recv_body_def)
next
  case False
  define n where "n = length (concat ps)"
  have n: "length body = length b0 + n" "0 < n"
    using False assms(3,4) by (cases ps; auto simp: n_def)+
  have f: "b0 @ replicate (nat (int (length body)) - length b0) (CHR 0x00) = filled body n"
    using assms(4) n(1) by (simp add: filled_def)
  have z: "int (length body) - int (length b0) = int n" using n(1) by simp
  show ?thesis
    using fix_loop_pieces [OF assms] n f by (simp add: recv_body_def z n_def [symmetric])
qed

section \<open>Properties\<close>

lemma recv_head_whole:
  assumes "request_ok r" "stream_isConnected (ss_stream s)" "ss_in s = Some (request_head r @ b0) # ns"
    "length (request_head r @ b0) \<le> B" "B < 2 ^ 31"
  shows "\<exists>rp. recv_head B [] (new_HttpRequestParser relaxed q0) s = Inr (Some (b0, rp), s\<lparr>ss_in := ns\<rparr>) \<and> hp_data rp = parsed_request r"
proof -
  define b where "b = request_head r @ b0"
  have l: "length b < 2 ^ 31" "length b \<le> B" using assms(4,5) by (simp_all add: b_def)
  have h0: "0 < length (request_head r)" by (simp add: request_head_def crlf_def)
  have rd: "peer_read B s = (int (length b), b, s\<lparr>ss_in := ns\<rparr>)"
    using assms(2,3) l by (intro peer_read_piece) (simp_all add: b_def)
  obtain st where st: "HttpRequestParser_execute b (new_HttpRequestParser relaxed q0) = Inr (length (request_head r), b0, st)"
    "HttpRequestParser_isFinished st = 1" "\<not> HttpRequestParser_hasError st" "hp_data st = parsed_request r"
    using request_parse_run [OF assms(1) b_def l(1), of relaxed q0] by blast
  have "0 < length b" "length b0 \<noteq> B" using h0 l(2) by (auto simp: b_def simp del: length_greater_0_conv)
  then show ?thesis using rd st by (subst recv_head.simps) simp
qed

lemma recvRequest_pieces:
  assumes "request_ok r" "no_length r" "cast (dec (length (m_body r))) = Some (of_nat (length (m_body r)))"
    "stream_isConnected (ss_stream s)" "m_body r = b0 @ concat ps" "[] \<notin> set ps"
    "ss_in s = Some (request_head r @ b0) # map Some ps @ ns"
    "length (request_head r @ b0) \<le> B" "B < 2 ^ 31" "length (m_body r) < 2 ^ 31" "length (m_body r) \<le> fuel"
  shows "recvRequest fuel B cast (new_HttpRequestParser relaxed q0) s =
    Inr (Some (Some ((parsed_request r)\<lparr>m_body := m_body r\<rparr>)), s\<lparr>ss_in := ns\<rparr>)"
proof -
  define n where "n = length (m_body r)"
  define s1 where "s1 = s\<lparr>ss_in := map Some ps @ ns\<rparr>"
  obtain rp where rp: "recv_head B [] (new_HttpRequestParser relaxed q0) s = Inr (Some (b0, rp), s1)" "hp_data rp = parsed_request r"
    using recv_head_whole [OF assms(1,4,7,8,9), of relaxed q0] unfolding s1_def by blast
  have len: "sint (HttpRequestParser_getContentLength cast rp) = int n"
    using parsed_length [of r cast rp, OF assms(2,3) rp(2)] assms(10) by (simp add: n_def signed_of_nat signed_take_bit_int_eq_self)
  show ?thesis
  proof (cases "n = 0")
    case True
    then have e: "m_body r = []" "ps = []" using assms(5,6) by (simp_all add: n_def) (cases ps; auto)
    have "m_body (parsed_request r) = []" by (simp add: parsed_request_def set_fields_other new_HttpRequest_def)
    then have "(parsed_request r)\<lparr>m_body := []\<rparr> = parsed_request r" by (intro HttpRequest.equality) simp_all
    then show ?thesis using rp len True e by (simp add: recvRequest_def s1_def)
  next
    case False
    have "recv_body fuel (int n) b0 s1 = Inr (Some (Some (m_body r)), s\<lparr>ss_in := ns\<rparr>)"
      using recv_body_pieces [of s1 ps ns "m_body r" b0 fuel] assms(4,5,6,10,11) by (simp add: n_def s1_def)
    then show ?thesis using rp len False by (simp add: recvRequest_def)
  qed
qed

text \<open>
  A request that arrives in any number of pieces after its head is received completely: when
  the first read returns the head and the beginning \<open>b0\<close> of the body, and the rest of the body
  arrives in arbitrary non-empty pieces, \<open>recvRequest\<close> returns the parsed request with exactly
  the body that the client sent, and takes nothing of what comes behind it.
\<close>

theorem recvRequest_spec:
  assumes "request_ok r" "no_length r" "cast (dec (length (m_body r))) = Some (of_nat (length (m_body r)))"
    "stream_isConnected (ss_stream s)" "m_body r = b0 @ concat ps" "[] \<notin> set ps"
    "ss_in s = Some (request_head r @ b0) # map Some ps @ ns"
    "length (request_head r @ b0) \<le> B" "B < 2 ^ 31" "length (m_body r) < 2 ^ 31" "length (m_body r) \<le> fuel"
  shows "recvRequest fuel B cast (new_HttpRequestParser relaxed q0) s =
    Inr (Some (Some ((parsed_request r)\<lparr>m_body := m_body r\<rparr>)), s\<lparr>ss_in := ns\<rparr>)"
  using recvRequest_pieces [of r cast s b0 ps ns B fuel relaxed q0, OF assms] .

text \<open>The request of the witnesses: \<open>POST / HTTP/1.1\<close> with the body \<open>ab\<close>.\<close>

definition sample_request :: HttpRequest where
  "sample_request = (new_HttpRequest 0x11 True)\<lparr>m_method := POST, m_body := ''ab''\<rparr>"

definition sample_socket :: SocketStream where
  "sample_socket = new_SocketStream (Some ((new_Socket 2 1 0)\<lparr>sk_sock := 5, sk_isConnected := True\<rparr>)) True"

definition sample_cast :: "string \<Rightarrow> u64 option" where
  "sample_cast v = Some (of_nat (digits_val 10 v))"

lemma sample_facts:
  "request_ok sample_request" "no_length sample_request" "m_body sample_request = ''ab''"
  "length (request_head sample_request) \<le> 100" "stream_isConnected sample_socket"
  "sample_cast (dec (Suc (Suc 0))) = Some 2"
proof -
  have d: "dec 2 = ''2''" by (simp add: dec_def num_str.simps digit_def char_of_def bit_Suc_0_iff)
  then have d2: "dec (Suc (Suc 0)) = ''2''" by (simp add: numeral_2_eq_2)
  have v: "version_str 17 = ''1.1''" using version_text [of 17] by simp
  show "request_ok sample_request" "no_length sample_request" "m_body sample_request = ''ab''"
    by (simp_all add: sample_request_def request_ok_def new_HttpRequest_def uri_ok_def no_length_def)
  show "length (request_head sample_request) \<le> 100"
    by (simp add: sample_request_def request_head_def request_line_def new_HttpRequest_def HttpMethodToString_def
        s_method_string_def HTTP_METHOD_MAP_def crlf_def sent_fields_def connection_field_def sent_headers_def
        length_field_def field_line_def d2 v)
  show "stream_isConnected sample_socket"
    by (simp add: sample_socket_def new_SocketStream_def stream_isConnected_def)
  show "sample_cast (dec (Suc (Suc 0))) = Some 2" unfolding d2 by (simp add: sample_cast_def digits_val_def digit_of_def ch_in_def)
qed

definition sample_session :: "net \<Rightarrow> session" where
  "sample_session net = \<lparr>ss_stream = sample_socket, ss_in = net, ss_script = [], ss_sent = [], ss_calls = []\<rparr>"

theorem recvRequest_spec_witness:
  "recvRequest 2 100 sample_cast (new_HttpRequestParser False 0)
     (sample_session [Some (request_head sample_request), Some ''a'', Some ''b'', Some ''GET'']) =
   Inr (Some (Some ((parsed_request sample_request)\<lparr>m_body := ''ab''\<rparr>)), sample_session [Some ''GET''])"
  using recvRequest_spec [of sample_request sample_cast
      "sample_session [Some (request_head sample_request), Some ''a'', Some ''b'', Some ''GET'']" "[]" "[''a'', ''b'']"
      "[Some ''GET'']" 100 2 False 0] sample_facts
  by (simp add: sample_session_def)

lemma overrun_after_timeout:
  assumes "stream_isConnected (ss_stream s)" "ss_in s = None # Some q # ns" "q \<noteq> []" "0 < n" "n < 2 ^ 31" "2 \<le> fuel"
  shows "recv_body fuel (int n) [] s = Inl Overrun"
proof -
  obtain f where f: "fuel = Suc (Suc f)" using assms(6) by (metis Suc_le_D Suc_le_mono numeral_2_eq_2)
  have m1: "unat (- 1 :: u64) = 2 ^ 64 - 1" by (simp add: unsigned_minus_1_eq_mask mask_eq_exp_minus_1)
  define b where "b = replicate n (CHR 0x00)"
  define sz :: u64 where "sz = of_nat n"
  have usz: "unat sz = n" using assms(5) by (simp add: sz_def unat_of_nat)
  have 1: "body_read 0 0 sz (s, b) = Inr (- 1, s\<lparr>ss_in := Some q # ns\<rparr>, b)"
    using assms(1,2) by (simp add: body_read_def peer_read_def connected_read to_i32_id)
  have u: "unat (sz + 1) = Suc n" using usz assms(5) by (simp add: unat_word_ariths)
  have "fst (snd (peer_read (Suc n) (s\<lparr>ss_in := Some q # ns\<rparr>))) \<noteq> []"
    using assms(1,3) by (simp add: peer_read_def)
  moreover have "length b < 2 ^ 64 - 1" using assms(5) by (simp add: b_def)
  ultimately have 2: "body_read 0 (- 1) (sz + 1) (s\<lparr>ss_in := Some q # ns\<rparr>, b) = Inl Overrun"
    using u by (cases "peer_read (Suc n) (s\<lparr>ss_in := Some q # ns\<rparr>)") (simp add: body_read_def m1)
  have "sz \<noteq> 0" "sz + 1 \<noteq> 0" using usz u assms(4) by auto
  then have "fix_loop fuel (body_read 0) sz 0 sz (s, b) = Inl Overrun"
    using 1 2 by (simp add: f fix_loop.simps [of "Suc (Suc f)"] fix_loop.simps [of "Suc f"] m1 word_le_nat_alt)
  then show ?thesis using assms(4) by (simp add: recv_body_def readFixSize_def b_def sz_def)
qed

text \<open>
  C38. A receive timeout in the body corrupts memory: when the client has sent the head of a request
  with a body, the next \<open>recv\<close> fails and later any byte arrives, the loop of \<open>readFixSize\<close> has
  taken the \<open>-1\<close> for a length and the byte is stored one byte before the body string.
\<close>

theorem recv_timeout_overruns:
  assumes "request_ok r" "no_length r" "cast (dec (length (m_body r))) = Some (of_nat (length (m_body r)))"
    "stream_isConnected (ss_stream s)" "m_body r \<noteq> []" "ss_in s = Some (request_head r) # None # Some q # ns" "q \<noteq> []"
    "length (request_head r) \<le> B" "B < 2 ^ 31" "length (m_body r) < 2 ^ 31" "2 \<le> fuel"
  shows "recvRequest fuel B cast (new_HttpRequestParser relaxed q0) s = Inl Overrun"
proof -
  obtain rp where rp: "recv_head B [] (new_HttpRequestParser relaxed q0) s = Inr (Some ([], rp), s\<lparr>ss_in := None # Some q # ns\<rparr>)"
    "hp_data rp = parsed_request r"
    using recv_head_whole [OF assms(1,4), of "[]" "None # Some q # ns" B relaxed q0] assms(6,8,9) by auto
  have "sint (HttpRequestParser_getContentLength cast rp) = int (length (m_body r))"
    using parsed_length [of r cast rp, OF assms(2,3) rp(2)] assms(10) by (simp add: signed_of_nat signed_take_bit_int_eq_self)
  then show ?thesis
    using rp(1) overrun_after_timeout [of "s\<lparr>ss_in := None # Some q # ns\<rparr>" q ns "length (m_body r)" fuel] assms(4,5,7,10,11)
    by (simp add: recvRequest_def)
qed

theorem recv_timeout_overruns_witness:
  "recvRequest 2 100 sample_cast (new_HttpRequestParser False 0)
     (sample_session [Some (request_head sample_request), None, Some ''x'']) = Inl Overrun"
  using recv_timeout_overruns [of sample_request sample_cast
      "sample_session [Some (request_head sample_request), None, Some ''x'']" "''x''" "[]" 100 2 False 0] sample_facts
  by (simp add: sample_session_def)

section \<open>The server\<close>

lemma request_action_close:
  "request_action b a p st = Inr (out, st1) \<Longrightarrow> m_close (hp_data st1) = m_close (hp_data st)"
  by (auto simp: request_action_def Let_def on_request_http_field_def on_request_method_def on_request_fragment_def
      on_request_query_def on_request_version_def on_request_path_def bind_res_def setHeader_def
      split: if_splits sum.splits)

lemma execute_close:
  assumes "HttpRequestParser_execute data rp = Inr (n, rest, rp1)" "m_close (hp_data rp)"
  shows "m_close (hp_data rp1)"
proof (cases "data = []")
  case False
  obtain rp2 where e: "http_parser_execute data rp = Inr (n, rp1)"
    using assms(1) by (auto simp: HttpRequestParser_execute_def bind_res_def split: sum.splits)
  obtain cs p rp3 where run: "run req_machine (hp_uri_relaxed rp) (request_action data) (hp_cs rp) (map schar data) rp = Inr (cs, p, rp3)"
    and d: "hp_data rp1 = hp_data rp3"
    using e False by (auto simp: http_parser_execute_def Let_def split: if_splits sum.splits)
  show ?thesis
    using run assms(2) d resume_preserve [of "request_action data" "\<lambda>st. m_close (hp_data st)"] request_action_close
    by (auto simp: run_def split: if_splits)
qed (use assms in \<open>simp add: HttpRequestParser_execute_def http_parser_execute_def\<close>)

lemma recv_head_close:
  "recv_head B kept rp s = Inr (Some (rest, rp1), s1) \<Longrightarrow> m_close (hp_data rp) \<Longrightarrow> m_close (hp_data rp1)"
proof (induction B kept rp s rule: recv_head.induct)
  case (1 B kept rp s)
  obtain rt bytes s2 where rd: "peer_read (B - length kept) s = (rt, bytes, s2)" by (cases "peer_read (B - length kept) s") auto
  have pos: "\<not> rt \<le> 0" using "1.prems"(1) rd by (subst (asm) recv_head.simps) (auto split: if_splits)
  obtain n rest2 rp2 where x: "HttpRequestParser_execute (kept @ bytes) rp = Inr (n, rest2, rp2)"
    using "1.prems"(1) rd pos by (subst (asm) recv_head.simps) (auto simp: Let_def split: sum.splits)
  note c = execute_close [OF x "1.prems"(2)]
  have again: "recv_head B rest2 rp2 s2 = Inr (Some (rest, rp1), s1) \<Longrightarrow> m_close (hp_data rp1)"
    if "\<not> HttpRequestParser_hasError rp2" "length rest2 \<noteq> B" "\<not> HttpRequestParser_isFinished rp2 \<noteq> 0"
    using "1.IH" [of rt "(bytes, s2)" bytes s2 "kept @ bytes" "(n, rest2, rp2)" n "(rest2, rp2)" rest2 rp2] rd pos x c that by simp
  have "(rest, rp1) = (rest2, rp2) \<or> recv_head B rest2 rp2 s2 = Inr (Some (rest, rp1), s1) \<and>
      \<not> HttpRequestParser_hasError rp2 \<and> length rest2 \<noteq> B \<and> \<not> HttpRequestParser_isFinished rp2 \<noteq> 0"
    using "1.prems"(1) rd pos x unfolding recv_head.simps [of B kept rp s] by (auto simp: Let_def split: if_splits)
  then show ?case using again c by auto
qed

lemma recvRequest_close:
  "recvRequest fuel B cast mk s = Inr (Some (Some req), s1) \<Longrightarrow> m_close (hp_data mk) \<Longrightarrow> m_close req"
  using recv_head_close [of B "[]" mk s]
  by (fastforce simp: recvRequest_def bind_res_def Let_def split: sum.splits option.splits if_splits)

lemma client_loop_once:
  "client_loop (Suc n) fuel B cast (new_HttpRequestParser relaxed q0) fnmatch vcall sv s =
   client_loop 1 fuel B cast (new_HttpRequestParser relaxed q0) fnmatch vcall (sv\<lparr>sv_keepAlive := False\<rparr>) s"
proof -
  have c0: "m_close (hp_data (new_HttpRequestParser relaxed q0))"
    by (simp add: new_HttpRequestParser_def new_HttpRequest_def)
  have c: "m_close req" if "recvRequest fuel B cast (new_HttpRequestParser relaxed q0) s = Inr (Some (Some req), s1)" for req s1
    using recvRequest_close [OF that c0] .
  show ?thesis
    by (cases "recvRequest fuel B cast (new_HttpRequestParser relaxed q0) s")
      (auto simp: bind_res_def Let_def dest!: c split: prod.splits option.splits sum.splits)
qed

text \<open>
  Keep-alive has no effect: no action of the parser changes \<open>close\<close>, which the parser's request
  starts with as true, so the server answers one request and closes, whatever its setting and
  whatever the client asked for.
\<close>

theorem client_served_once:
  "HttpServer_handleClient (Suc n) fuel B cast (new_HttpRequestParser relaxed q0) fnmatch vcall sv s =
   HttpServer_handleClient 1 fuel B cast (new_HttpRequestParser relaxed q0) fnmatch vcall (sv\<lparr>sv_keepAlive := False\<rparr>) s"
  unfolding HttpServer_handleClient_def client_loop_once [of n fuel B cast relaxed q0 fnmatch vcall sv s] ..

lemma send_part_piece:
  assumes "stream_isConnected (ss_stream s)" "0 < l" "unat off + unat l = length data" "length data < 2 ^ 31"
    "\<forall>k \<in> set (ss_script s). 0 < k"
  shows "\<exists>r. 0 < r \<and> r \<le> unat l \<and> send_part data off l s =
    Inr (int r, s\<lparr>ss_script := tl (ss_script s), ss_sent := ss_sent s @ take r (drop (unat off) data)\<rparr>)"
proof -
  define k where "k = (case ss_script s of [] \<Rightarrow> uint l | k # _ \<Rightarrow> min k (uint l))"
  have ul: "0 < uint l" using assms(2) by (simp add: word_less_def)
  have k: "0 < k" "k \<le> uint l" using ul assms(5) by (auto simp: k_def split: list.splits)
  define r where "r = nat k"
  have r: "k = int r" "0 < r" using k(1) by (simp_all add: r_def)
  have rl: "r \<le> unat l" using k(2) unfolding r(1) uint_nat by (simp only: of_nat_le_iff)
  have "r < 2 ^ 31" using rl assms(3,4) by linarith
  then have w: "stream_write (ss_stream s) (int r) = int r"
    using assms(1) by (auto simp: stream_write_def Socket_send_def stream_isConnected_def to_i32_id split: option.splits)
  have "unat off + r \<le> length data" using rl assms(3) by linarith
  then have "send_part data off l s = Inr (int r, s\<lparr>ss_script := tl (ss_script s), ss_sent := ss_sent s @ take r (drop (unat off) data)\<rparr>)"
    using assms(1) r(2) w unfolding send_part_def Let_def k_def [symmetric] r(1) by simp
  then show ?thesis using r(2) rl by blast
qed

lemma send_text:
  assumes "stream_isConnected (ss_stream s)" "\<forall>k \<in> set (ss_script s). 0 < k" "length data < 2 ^ 31" "length data \<le> fuel"
  shows "\<exists>rest. writeFixSize fuel (send_part data) (of_nat (length data)) s = Inr (Some (int (length data)),
      s\<lparr>ss_script := rest, ss_sent := ss_sent s @ data\<rparr>)"
proof -
  define sz :: u64 where "sz = of_nat (length data)"
  have l: "length data < 2 ^ 31" "length data \<le> fuel" using assms(3,4) by simp_all
  then have usz: "unat sz = length data" "uint sz = int (length data)" by (simp_all add: sz_def unat_of_nat uint_nat)
  define P where "P = (\<lambda>(off :: u64) (l :: u64) t. unat off + unat l = length data \<and>
     (\<exists>j. t = s\<lparr>ss_script := drop j (ss_script s), ss_sent := ss_sent s @ take (unat off) data\<rparr>))"
  have step: "\<exists>r t'. send_part data off l t = Inr (r, t') \<and> 0 < r \<and> r \<le> uint l \<and> P (off + word_of_int r) (l - word_of_int r) t'"
    if h: "0 < l" "P off l t" for off l t
  proof -
    obtain j where P: "unat off + unat l = length data"
      "t = s\<lparr>ss_script := drop j (ss_script s), ss_sent := ss_sent s @ take (unat off) data\<rparr>"
      using h(2) unfolding P_def by blast
    have "\<forall>k \<in> set (ss_script t). 0 < k" using assms(2) in_set_dropD [of _ j "ss_script s"] by (auto simp: P(2))
    moreover have "stream_isConnected (ss_stream t)" using assms(1) by (simp add: P(2))
    ultimately obtain r where r: "0 < r" "r \<le> unat l" "send_part data off l t =
      Inr (int r, t\<lparr>ss_script := tl (ss_script t), ss_sent := ss_sent t @ take r (drop (unat off) data)\<rparr>)"
      using send_part_piece [OF _ h(1) P(1) \<open>length data < 2 ^ 31\<close>, of t] by blast
    have small: "unat off + unat l < 2 ^ 31" using P(1) l(1) by linarith
    have "t\<lparr>ss_script := tl (ss_script t), ss_sent := ss_sent t @ take r (drop (unat off) data)\<rparr> =
      s\<lparr>ss_script := drop (Suc j) (ss_script s), ss_sent := ss_sent s @ take (unat off + r) data\<rparr>"
      by (simp add: P(2) drop_Suc tl_drop take_add)
    then have "P (off + word_of_int (int r)) (l - word_of_int (int r)) (t\<lparr>ss_script := tl (ss_script t), ss_sent := ss_sent t @ take r (drop (unat off) data)\<rparr>)"
      unfolding P_def word_move [OF r(2) small] using P(1) r(2) by auto
    moreover have "int r \<le> uint l" unfolding uint_nat using r(2) by (simp only: of_nat_le_iff)
    ultimately show ?thesis using r(1,3) by fastforce
  qed
  have "P 0 sz s" unfolding P_def usz by (simp add: exI [of _ 0])
  moreover have "unat sz \<le> fuel" using usz(1) l(2) by simp
  ultimately obtain t where "fix_loop fuel (send_part data) sz 0 sz s = Inr (Some (to_i32 (uint sz)), t)" "P (0 + sz) 0 t"
    using fix_loop_returns [of P "send_part data", OF step] by blast
  moreover have "to_i32 (uint sz) = int (length data)" using usz(2) l(1) by (simp add: to_i32_id)
  ultimately show ?thesis
    unfolding writeFixSize_def sz_def [symmetric] by (auto simp: P_def usz(1))
qed

text \<open>A send that fails moves the loop one byte back, for as long as it fails.\<close>

lemma send_part_fails:
  assumes "\<not> stream_isConnected (ss_stream s) \<or> (\<exists>es. ss_script s = - 1 # es)"
  shows "send_part data off left s = Inr (- 1, if stream_isConnected (ss_stream s) then s\<lparr>ss_script := tl (ss_script s)\<rparr> else s)"
proof -
  have "min (- 1) (uint left) = - 1" by (rule min_absorb1) (rule order_trans [of _ 0], simp_all)
  then show ?thesis using assms
    by (auto simp: send_part_def Let_def stream_write_def Socket_send_def stream_isConnected_def to_i32_id split: option.splits)
qed

lemma word_grows:
  assumes "left \<noteq> 0" "unat left + Suc fuel < 2 ^ 64"
  shows "left - (- 1) \<noteq> (0 :: u64) \<and> unat (left - (- 1)) = unat left + 1"
proof -
  have "unat (left + 1) = unat left + 1" using assms(2) by (simp add: unat_word_ariths)
  moreover from this have "left + 1 \<noteq> 0" by (metis add_is_0 unat_0 one_neq_zero)
  ultimately show ?thesis by simp
qed

lemma failing_sends:
  assumes "left \<noteq> 0" "unat left + fuel < 2 ^ 64"
    "\<not> stream_isConnected (ss_stream s) \<or> fuel \<le> length (ss_script s) \<and> (\<forall>k \<in> set (take fuel (ss_script s)). k = - 1)"
  shows "fix_loop fuel (send_part data) sz off left s =
    Inr (None, if stream_isConnected (ss_stream s) then s\<lparr>ss_script := drop fuel (ss_script s)\<rparr> else s)"
  using assms
proof (induction fuel arbitrary: off left s)
  case 0
  then show ?case by (simp add: fix_loop.simps)
next
  case (Suc fuel)
  define s1 where "s1 = (if stream_isConnected (ss_stream s) then s\<lparr>ss_script := tl (ss_script s)\<rparr> else s)"
  have sp: "send_part data off left s = Inr (- 1, s1)" unfolding s1_def
    using Suc.prems(3) by (intro send_part_fails) (cases "ss_script s"; auto)
  note g = word_grows [OF Suc.prems(1,2)]
  have "fix_loop fuel (send_part data) sz (off + - 1) (left - (- 1)) s1 =
    Inr (None, if stream_isConnected (ss_stream s1) then s1\<lparr>ss_script := drop fuel (ss_script s1)\<rparr> else s1)"
    using g Suc.prems by (intro Suc.IH) (cases "ss_script s"; auto simp: s1_def)+
  then show ?case using Suc.prems(1) sp
    by (cases "ss_script s") (auto simp: fix_loop.simps [of "Suc fuel"] s1_def)
qed

lemma sends_then_fail:
  assumes "stream_isConnected (ss_stream s)" "ss_script s = ks @ es" "\<forall>k \<in> set ks. 0 < k" "\<forall>k \<in> set es. k = - 1"
    "sum_list ks < int (unat left)" "unat off + unat left = length data" "length data < 2 ^ 31"
    "length ks \<le> fuel" "fuel \<le> length (ks @ es)" "length data + fuel < 2 ^ 64"
  shows "\<exists>s1. fix_loop fuel (send_part data) sz off left s = Inr (None, s1) \<and>
    ss_sent s1 = ss_sent s @ take (nat (sum_list ks)) (drop (unat off) data)"
  using assms
proof (induction ks arbitrary: fuel off left s)
  case Nil
  then have "left \<noteq> 0" by auto
  moreover have "\<forall>k \<in> set (take fuel (ss_script s)). k = - 1" using Nil by (auto dest: in_set_takeD)
  moreover have "unat left + fuel < 2 ^ 64" using Nil by linarith
  ultimately show ?case using failing_sends [of left fuel s data sz off] Nil by simp
next
  case (Cons k ks)
  then obtain fuel' where f: "fuel = Suc fuel'" by (cases fuel) auto
  have k: "0 < k" "0 \<le> sum_list ks" using Cons.prems(3) by (auto intro!: sum_list_nonneg simp: less_imp_le)
  have kl: "k < int (unat left)" using Cons.prems(5) k(2) by simp
  define n where "n = nat k"
  have n: "k = int n" "0 < n" "n < unat left" using k(1) kl by (simp_all add: n_def nat_less_iff)
  define s1 where "s1 = s\<lparr>ss_script := ks @ es, ss_sent := ss_sent s @ take n (drop (unat off) data)\<rparr>"
  have m: "min k (uint left) = k" unfolding uint_nat using kl by (intro min_absorb1) linarith
  have "n < 2 ^ 31" using n(3) Cons.prems(6,7) by linarith
  then have k31: "k < 2 ^ 31" unfolding n(1) by simp
  have w: "stream_write (ss_stream s) k = k"
    using Cons.prems(1) k(1) k31 by (auto simp: stream_write_def Socket_send_def stream_isConnected_def to_i32_id split: option.splits)
  have "unat off + n \<le> length data" using Cons.prems(6) n by simp
  then have sp: "send_part data off left s = Inr (k, s1)"
    using Cons.prems(1,2) k(1) by (simp add: send_part_def Let_def s1_def m w n_def [symmetric])
  have small: "unat off + unat left < 2 ^ 31" using Cons.prems(6,7) by simp
  have wm: "unat (off + word_of_int k) = unat off + n" "unat (left - word_of_int k) = unat left - n"
    "\<not> (word_of_int k :: u64) \<le> 0"
    using word_move [of n left off] n small by (simp_all add: word_le_nat_alt unat_of_nat)
  have "\<exists>s2. fix_loop fuel' (send_part data) sz (off + word_of_int k) (left - word_of_int k) s1 = Inr (None, s2) \<and>
      ss_sent s2 = ss_sent s1 @ take (nat (sum_list ks)) (drop (unat (off + word_of_int k)) data)"
  proof (rule Cons.IH)
    show "stream_isConnected (ss_stream s1)" "ss_script s1 = ks @ es" using Cons.prems(1) by (simp_all add: s1_def)
    show "\<forall>k \<in> set ks. 0 < k" "\<forall>k \<in> set es. k = - 1" "length data < 2 ^ 31" using Cons.prems(3,4,7) by simp_all
    show "sum_list ks < int (unat (left - word_of_int k))" using Cons.prems(5) n(1,3) unfolding wm by simp
    show "unat (off + word_of_int k) + unat (left - word_of_int k) = length data" using Cons.prems(6) n(3) unfolding wm by simp
    show "length ks \<le> fuel'" "fuel' \<le> length (ks @ es)" "length data + fuel' < 2 ^ 64" using Cons.prems(8,9,10) f by simp_all
  qed
  then obtain s2 where 2: "fix_loop fuel' (send_part data) sz (off + word_of_int k) (left - word_of_int k) s1 = Inr (None, s2)"
    "ss_sent s2 = ss_sent s1 @ take (nat (sum_list ks)) (drop (unat off + n) data)" unfolding wm by blast
  have "left \<noteq> 0" using n(3) by auto
  then have "fix_loop fuel (send_part data) sz off left s = Inr (None, s2)"
    using sp wm(3) 2(1) by (simp add: f fix_loop.simps [of "Suc fuel'"])
  moreover have "nat (sum_list (k # ks)) = n + nat (sum_list ks)" using n(1) k(2) by simp
  ultimately show ?case using 2(2) by (simp add: s1_def take_add add.commute)
qed

lemma sendResponse_pieces:
  assumes "stream_isConnected (ss_stream s)" "\<forall>k \<in> set (ss_script s). 0 < k"
    "length (dump_response rsp) < 2 ^ 31" "length (dump_response rsp) \<le> fuel"
  shows "\<exists>rest. sendResponse fuel rsp s = Inr (Some (int (length (dump_response rsp))),
      s\<lparr>ss_script := rest, ss_sent := ss_sent s @ dump_response rsp\<rparr>)"
  using send_text [OF assms] by (simp add: sendResponse_def Let_def)

lemma handleClient_run:
  assumes "request_ok r" "no_length r" "cast (dec (length (m_body r))) = Some (of_nat (length (m_body r)))"
    "stream_isConnected (ss_stream s)" "m_body r = b0 @ concat ps" "[] \<notin> set ps"
    "ss_in s = Some (request_head r @ b0) # map Some ps @ ns"
    "length (request_head r @ b0) \<le> B" "B < 2 ^ 31" "length (m_body r) < 2 ^ 31" "length (m_body r) \<le> fuel"
    and handler: "req = (parsed_request r)\<lparr>m_body := m_body r\<rparr>"
      "ServletDispatch_handle fnmatch vcall (sv_dispatch sv) req (new_HttpResponse (m_version r) True, s\<lparr>ss_in := ns\<rparr>) = (rc, rsp, s2)"
    and sending: "stream_isConnected (ss_stream s2)" "\<forall>k \<in> set (ss_script s2). 0 < k"
      "length (dump_response rsp) < 2 ^ 31" "length (dump_response rsp) \<le> fuel"
  shows "\<exists>rest. HttpServer_handleClient (Suc n) fuel B cast (new_HttpRequestParser relaxed q0) fnmatch vcall sv s =
    Inr (True, session_close (s2\<lparr>ss_script := rest, ss_sent := ss_sent s2 @ dump_response rsp\<rparr>))"
proof -
  have rq: "recvRequest fuel B cast (new_HttpRequestParser relaxed q0) s = Inr (Some (Some req), s\<lparr>ss_in := ns\<rparr>)"
    unfolding handler(1) by (rule recvRequest_pieces) (use assms in simp_all)
  have m: "m_close req" "m_version req = m_version r"
    by (simp_all add: handler(1) parsed_request_def set_fields_other new_HttpRequest_def)
  obtain rest where "sendResponse fuel rsp s2 = Inr (Some (int (length (dump_response rsp))),
      s2\<lparr>ss_script := rest, ss_sent := ss_sent s2 @ dump_response rsp\<rparr>)"
    using sendResponse_pieces [OF sending] by blast
  then show ?thesis using rq m handler(2)
    by (intro exI [of _ rest]) (simp add: HttpServer_handleClient_def bind_res_def Let_def)
qed

text \<open>
  C2. A client is served completely: a request that arrives in any number of pieces after its head is
  dispatched once, with exactly the body that was sent, and what the handler makes of the response
  is sent completely, however few bytes each \<open>send\<close> takes, before the session is closed.
\<close>

theorem handleClient_serves:
  assumes "request_ok r" "no_length r" "cast (dec (length (m_body r))) = Some (of_nat (length (m_body r)))"
    "stream_isConnected (ss_stream s)" "m_body r = b0 @ concat ps" "[] \<notin> set ps"
    "ss_in s = Some (request_head r @ b0) # map Some ps @ ns"
    "length (request_head r @ b0) \<le> B" "B < 2 ^ 31" "length (m_body r) < 2 ^ 31" "length (m_body r) \<le> fuel"
    and handler: "req = (parsed_request r)\<lparr>m_body := m_body r\<rparr>"
      "ServletDispatch_handle fnmatch vcall (sv_dispatch sv) req (new_HttpResponse (m_version r) True, s\<lparr>ss_in := ns\<rparr>) = (rc, rsp, s2)"
    and sending: "stream_isConnected (ss_stream s2)" "\<forall>k \<in> set (ss_script s2). 0 < k"
      "length (dump_response rsp) < 2 ^ 31" "length (dump_response rsp) \<le> fuel"
  shows "\<exists>rest. HttpServer_handleClient (Suc n) fuel B cast (new_HttpRequestParser relaxed q0) fnmatch vcall sv s =
    Inr (True, session_close (s2\<lparr>ss_script := rest, ss_sent := ss_sent s2 @ dump_response rsp\<rparr>))"
  using handleClient_run [of r cast s b0 ps ns B fuel req fnmatch vcall sv rc rsp s2 n relaxed q0, OF assms] .

theorem handleClient_serves_witness:
  "\<exists>rsp rest. HttpServer_handleClient 1 1000 100 sample_cast (new_HttpRequestParser False 0) (\<lambda>u v. u = v)
     (\<lambda>p rq rs. (0, (fst rs)\<lparr>r_body := m_body rq\<rparr>, snd rs)) (new_HttpServer False (0 :: nat))
     (sample_session [Some (request_head sample_request), Some ''a'', Some ''b'']) =
   Inr (True, session_close ((sample_session [])\<lparr>ss_script := rest, ss_sent := dump_response rsp\<rparr>)) \<and> r_body rsp = ''ab''"
proof -
  let ?vcall = "\<lambda>p rq rs. (0, (fst rs)\<lparr>r_body := m_body rq\<rparr>, snd rs)"
  let ?req = "(parsed_request sample_request)\<lparr>m_body := ''ab''\<rparr>"
  let ?s0 = "sample_session [Some (request_head sample_request), Some ''a'', Some ''b'']"
  let ?rsp = "(new_HttpResponse 17 True)\<lparr>r_body := ''ab''\<rparr>"
  have v: "version_str 17 = ''1.1''" using version_text [of 17] by simp
  have d: "dec (Suc (Suc 0)) = ''2''" by (simp add: dec_def num_str.simps digit_def char_of_def bit_Suc_0_iff)
  have d200: "dec 200 = ''200''" by (simp add: dec_def num_str.simps digit_def char_of_def bit_Suc_0_iff)
  have "ServletDispatch_handle (\<lambda>u v. u = v) ?vcall (sv_dispatch (new_HttpServer False (0 :: nat))) ?req
      (new_HttpResponse (m_version sample_request) True, ?s0\<lparr>ss_in := []\<rparr>) = (0, ?rsp, sample_session [])"
    by (simp add: ServletDispatch_handle_def getServlet_def new_HttpServer_def new_ServletDispatch_def
        sample_request_def new_HttpRequest_def sample_session_def)
  moreover have "length (dump_response ?rsp) \<le> 1000"
    by (simp add: dump_response_def status_line_def new_HttpResponse_def dump_connection_def dump_body_def crlf_def v d d200
        HttpStatusToString_def HTTP_STATUS_MAP_def)
  ultimately show ?thesis
    using handleClient_serves [of sample_request sample_cast ?s0 "[]" "[''a'', ''b'']" "[]" 100 1000 ?req "\<lambda>u v. u = v" ?vcall
        "new_HttpServer False (0 :: nat)" 0 ?rsp "sample_session []" 0 False 0] sample_facts
    by (auto simp: sample_session_def)
qed

end
