(* ===== verification/Respond_Rows.thy ===== *)
theory Respond_Rows
  imports Request_Rows
begin

text \<open>
  The rows of the response machine that a status line, header fields and the size line of a chunk
  pass, read out of the tables of \<open>Respond_Tables\<close>, and its steps on classes of characters
  (\<open>src/src/HTTP/httprespond_parser.cpp\<close>). The machine knows three field names; the states that have
  read a prefix of one of them are treated as one region with an invariant.
\<close>

section \<open>Rows of the response machine\<close>

lemma rsp_row:
  assumes "singles rsp_machine cs = ks" "ranges rsp_machine cs = rs" "entries rsp_machine cs = ts" "0 < cs" "cs < 124"
  shows "step rsp_machine False cs c = pick c ks rs ts (entry rsp_machine 0)"
proof -
  have row: "row_ok rsp_machine cs"
    by (rule tables_ok_row [OF rsp_tables_ok assms(4)]) (use assms(5) in \<open>simp add: rsp_machine_def\<close>)
  have "\<not> rg_conds rsp_machine" by (simp add: rsp_machine_def)
  then show ?thesis using step_pick [OF row] assms(1-3) by simp
qed

lemmas rsp_eval = ragel_eval rsp_machine_def rsp_tables nat.distinct

lemma rsp_step_1: "step rsp_machine False 1 c =
     pick c [72] [(48, 57), (65, 70), (97, 102)] [(8, [0]), (2, [0]), (2, [0]), (2, [0]), (0, [])] (entry rsp_machine 0)"
  by (rule rsp_row; simp only: rsp_eval)

lemma rsp_step_2: "step rsp_machine False 2 c =
     pick c [10, 13, 59] [(48, 57), (65, 70), (97, 102)] [(120, [10, 12]), (3, [10]), (4, [10]), (2, []), (2,
     []), (2, []), (0, [])] (entry rsp_machine 0)"
  by (rule rsp_row; simp only: rsp_eval)

lemma rsp_step_3: "step rsp_machine False 3 c =
     pick c [10] [] [(120, [12]), (0, [])] (entry rsp_machine 0)"
  by (rule rsp_row; simp only: rsp_eval)

lemma rsp_step_8: "step rsp_machine False 8 c =
     pick c [84] [] [(9, []), (0, [])] (entry rsp_machine 0)"
  by (rule rsp_row; simp only: rsp_eval)

lemma rsp_step_9: "step rsp_machine False 9 c =
     pick c [84] [] [(10, []), (0, [])] (entry rsp_machine 0)"
  by (rule rsp_row; simp only: rsp_eval)

lemma rsp_step_10: "step rsp_machine False 10 c =
     pick c [80] [] [(11, []), (0, [])] (entry rsp_machine 0)"
  by (rule rsp_row; simp only: rsp_eval)

lemma rsp_step_11: "step rsp_machine False 11 c =
     pick c [47] [] [(12, []), (0, [])] (entry rsp_machine 0)"
  by (rule rsp_row; simp only: rsp_eval)

lemma rsp_step_12: "step rsp_machine False 12 c =
     pick c [] [(48, 57)] [(13, []), (0, [])] (entry rsp_machine 0)"
  by (rule rsp_row; simp only: rsp_eval)

lemma rsp_step_13: "step rsp_machine False 13 c =
     pick c [46] [(48, 57)] [(14, []), (13, []), (0, [])] (entry rsp_machine 0)"
  by (rule rsp_row; simp only: rsp_eval)

lemma rsp_step_14: "step rsp_machine False 14 c =
     pick c [] [(48, 57)] [(15, []), (0, [])] (entry rsp_machine 0)"
  by (rule rsp_row; simp only: rsp_eval)

lemma rsp_step_15: "step rsp_machine False 15 c =
     pick c [32] [(48, 57)] [(16, [9]), (15, []), (0, [])] (entry rsp_machine 0)"
  by (rule rsp_row; simp only: rsp_eval)

lemma rsp_step_16: "step rsp_machine False 16 c =
     pick c [] [(48, 57)] [(17, [0]), (0, [])] (entry rsp_machine 0)"
  by (rule rsp_row; simp only: rsp_eval)

lemma rsp_step_17: "step rsp_machine False 17 c =
     pick c [32] [(48, 57)] [(18, [8]), (17, []), (0, [])] (entry rsp_machine 0)"
  by (rule rsp_row; simp only: rsp_eval)

lemma rsp_step_18: "step rsp_machine False 18 c =
     pick c [10] [] [(0, []), (19, [0])] (entry rsp_machine 0)"
  by (rule rsp_row; simp only: rsp_eval)

lemma rsp_step_19: "step rsp_machine False 19 c =
     pick c [10, 13] [] [(20, [7]), (24, [7]), (19, [])] (entry rsp_machine 0)"
  by (rule rsp_row; simp only: rsp_eval)

lemma rsp_step_20: "step rsp_machine False 20 c =
     pick c [10, 13, 33, 67, 84, 99, 116, 124, 126] [(35, 39), (42, 43), (45, 46), (48, 57), (65, 90), (94,
     122)] [(120, [12]), (3, []), (21, [1]), (25, [1]), (44, [1]), (25, [1]), (44, [1]), (21, [1]), (21, [1]),
     (21, [1]), (21, [1]), (21, [1]), (21, [1]), (21, [1]), (21, [1]), (0, [])] (entry rsp_machine 0)"
  by (rule rsp_row; simp only: rsp_eval)

lemma rsp_step_24: "step rsp_machine False 24 c =
     pick c [10] [] [(20, []), (0, [])] (entry rsp_machine 0)"
  by (rule rsp_row; simp only: rsp_eval)

lemma rsp_step_43: "step rsp_machine False 43 c =
     pick c [10, 13, 33, 67, 84, 99, 116, 124, 126] [(35, 39), (42, 43), (45, 46), (48, 57), (65, 90), (94,
     122)] [(120, [5, 12]), (3, [5]), (21, [5, 1]), (25, [5, 1]), (44, [5, 1]), (25, [5, 1]), (44, [5, 1]),
     (21, [5, 1]), (21, [5, 1]), (21, [5, 1]), (21, [5, 1]), (21, [5, 1]), (21, [5, 1]), (21, [5, 1]), (21,
     [5, 1]), (0, [])] (entry rsp_machine 0)"
  by (rule rsp_row; simp only: rsp_eval)

lemma rsp_step_71: "step rsp_machine False 71 c =
     pick c [10] [] [(20, [11]), (0, [])] (entry rsp_machine 0)"
  by (rule rsp_row; simp only: rsp_eval)

lemma rsp_step_88: "step rsp_machine False 88 c =
     pick c [10] [] [(43, []), (0, [])] (entry rsp_machine 0)"
  by (rule rsp_row; simp only: rsp_eval)

lemma rsp_step_21: "step rsp_machine False 21 c =
     pick c [33, 58, 124, 126] [(35, 39), (42, 43), (45, 46), (48, 57), (65, 90), (94, 122)] [(21, []), (22,
     [2]), (21, []), (21, []), (21, []), (21, []), (21, []), (21, []), (21, []), (21, []), (0, [])] (entry rsp_machine 0)"
  by (rule rsp_row; simp only: rsp_eval)

lemma rsp_step_25: "step rsp_machine False 25 c =
     pick c [33, 58, 79, 111, 124, 126] [(35, 39), (42, 43), (45, 46), (48, 57), (65, 90), (94, 122)] [(21,
     []), (22, [2]), (26, []), (26, []), (21, []), (21, []), (21, []), (21, []), (21, []), (21, []), (21, []),
     (21, []), (0, [])] (entry rsp_machine 0)"
  by (rule rsp_row; simp only: rsp_eval)

lemma rsp_step_26: "step rsp_machine False 26 c =
     pick c [33, 58, 78, 110, 124, 126] [(35, 39), (42, 43), (45, 46), (48, 57), (65, 90), (94, 122)] [(21,
     []), (22, [2]), (27, []), (27, []), (21, []), (21, []), (21, []), (21, []), (21, []), (21, []), (21, []),
     (21, []), (0, [])] (entry rsp_machine 0)"
  by (rule rsp_row; simp only: rsp_eval)

lemma rsp_step_27: "step rsp_machine False 27 c =
     pick c [33, 58, 78, 84, 110, 116, 124, 126] [(35, 39), (42, 43), (45, 46), (48, 57), (65, 90), (94, 122)]
     [(21, []), (22, [2]), (28, []), (101, []), (28, []), (101, []), (21, []), (21, []), (21, []), (21, []),
     (21, []), (21, []), (21, []), (21, []), (0, [])] (entry rsp_machine 0)"
  by (rule rsp_row; simp only: rsp_eval)

lemma rsp_step_28: "step rsp_machine False 28 c =
     pick c [33, 58, 69, 101, 124, 126] [(35, 39), (42, 43), (45, 46), (48, 57), (65, 90), (94, 122)] [(21,
     []), (22, [2]), (29, []), (29, []), (21, []), (21, []), (21, []), (21, []), (21, []), (21, []), (21, []),
     (21, []), (0, [])] (entry rsp_machine 0)"
  by (rule rsp_row; simp only: rsp_eval)

lemma rsp_step_29: "step rsp_machine False 29 c =
     pick c [33, 58, 67, 99, 124, 126] [(35, 39), (42, 43), (45, 46), (48, 57), (65, 90), (94, 122)] [(21,
     []), (22, [2]), (30, []), (30, []), (21, []), (21, []), (21, []), (21, []), (21, []), (21, []), (21, []),
     (21, []), (0, [])] (entry rsp_machine 0)"
  by (rule rsp_row; simp only: rsp_eval)

lemma rsp_step_30: "step rsp_machine False 30 c =
     pick c [33, 58, 84, 116, 124, 126] [(35, 39), (42, 43), (45, 46), (48, 57), (65, 90), (94, 122)] [(21,
     []), (22, [2]), (31, []), (31, []), (21, []), (21, []), (21, []), (21, []), (21, []), (21, []), (21, []),
     (21, []), (0, [])] (entry rsp_machine 0)"
  by (rule rsp_row; simp only: rsp_eval)

lemma rsp_step_31: "step rsp_machine False 31 c =
     pick c [33, 58, 73, 105, 124, 126] [(35, 39), (42, 43), (45, 46), (48, 57), (65, 90), (94, 122)] [(21,
     []), (22, [2]), (32, []), (32, []), (21, []), (21, []), (21, []), (21, []), (21, []), (21, []), (21, []),
     (21, []), (0, [])] (entry rsp_machine 0)"
  by (rule rsp_row; simp only: rsp_eval)

lemma rsp_step_32: "step rsp_machine False 32 c =
     pick c [33, 58, 79, 111, 124, 126] [(35, 39), (42, 43), (45, 46), (48, 57), (65, 90), (94, 122)] [(21,
     []), (22, [2]), (33, []), (33, []), (21, []), (21, []), (21, []), (21, []), (21, []), (21, []), (21, []),
     (21, []), (0, [])] (entry rsp_machine 0)"
  by (rule rsp_row; simp only: rsp_eval)

lemma rsp_step_33: "step rsp_machine False 33 c =
     pick c [33, 58, 78, 110, 124, 126] [(35, 39), (42, 43), (45, 46), (48, 57), (65, 90), (94, 122)] [(21,
     []), (22, [2]), (34, []), (34, []), (21, []), (21, []), (21, []), (21, []), (21, []), (21, []), (21, []),
     (21, []), (0, [])] (entry rsp_machine 0)"
  by (rule rsp_row; simp only: rsp_eval)

lemma rsp_step_34: "step rsp_machine False 34 c =
     pick c [33, 58, 124, 126] [(35, 39), (42, 43), (45, 46), (48, 57), (65, 90), (94, 122)] [(21, []), (35,
     [2]), (21, []), (21, []), (21, []), (21, []), (21, []), (21, []), (21, []), (21, []), (0, [])] (entry rsp_machine 0)"
  by (rule rsp_row; simp only: rsp_eval)

lemma rsp_step_44: "step rsp_machine False 44 c =
     pick c [33, 58, 82, 114, 124, 126] [(35, 39), (42, 43), (45, 46), (48, 57), (65, 90), (94, 122)] [(21,
     []), (22, [2]), (45, []), (45, []), (21, []), (21, []), (21, []), (21, []), (21, []), (21, []), (21, []),
     (21, []), (0, [])] (entry rsp_machine 0)"
  by (rule rsp_row; simp only: rsp_eval)

lemma rsp_step_45: "step rsp_machine False 45 c =
     pick c [33, 58, 65, 97, 124, 126] [(35, 39), (42, 43), (45, 46), (48, 57), (66, 90), (94, 122)] [(21,
     []), (22, [2]), (46, []), (46, []), (21, []), (21, []), (21, []), (21, []), (21, []), (21, []), (21, []),
     (21, []), (0, [])] (entry rsp_machine 0)"
  by (rule rsp_row; simp only: rsp_eval)

lemma rsp_step_46: "step rsp_machine False 46 c =
     pick c [33, 58, 78, 110, 124, 126] [(35, 39), (42, 43), (45, 46), (48, 57), (65, 90), (94, 122)] [(21,
     []), (22, [2]), (47, []), (47, []), (21, []), (21, []), (21, []), (21, []), (21, []), (21, []), (21, []),
     (21, []), (0, [])] (entry rsp_machine 0)"
  by (rule rsp_row; simp only: rsp_eval)

lemma rsp_step_47: "step rsp_machine False 47 c =
     pick c [33, 58, 83, 115, 124, 126] [(35, 39), (42, 43), (45, 46), (48, 57), (65, 90), (94, 122)] [(21,
     []), (22, [2]), (48, []), (48, []), (21, []), (21, []), (21, []), (21, []), (21, []), (21, []), (21, []),
     (21, []), (0, [])] (entry rsp_machine 0)"
  by (rule rsp_row; simp only: rsp_eval)

lemma rsp_step_48: "step rsp_machine False 48 c =
     pick c [33, 58, 70, 102, 124, 126] [(35, 39), (42, 43), (45, 46), (48, 57), (65, 90), (94, 122)] [(21,
     []), (22, [2]), (49, []), (49, []), (21, []), (21, []), (21, []), (21, []), (21, []), (21, []), (21, []),
     (21, []), (0, [])] (entry rsp_machine 0)"
  by (rule rsp_row; simp only: rsp_eval)

lemma rsp_step_49: "step rsp_machine False 49 c =
     pick c [33, 58, 69, 101, 124, 126] [(35, 39), (42, 43), (45, 46), (48, 57), (65, 90), (94, 122)] [(21,
     []), (22, [2]), (50, []), (50, []), (21, []), (21, []), (21, []), (21, []), (21, []), (21, []), (21, []),
     (21, []), (0, [])] (entry rsp_machine 0)"
  by (rule rsp_row; simp only: rsp_eval)

lemma rsp_step_50: "step rsp_machine False 50 c =
     pick c [33, 58, 82, 114, 124, 126] [(35, 39), (42, 43), (45, 46), (48, 57), (65, 90), (94, 122)] [(21,
     []), (22, [2]), (51, []), (51, []), (21, []), (21, []), (21, []), (21, []), (21, []), (21, []), (21, []),
     (21, []), (0, [])] (entry rsp_machine 0)"
  by (rule rsp_row; simp only: rsp_eval)

lemma rsp_step_51: "step rsp_machine False 51 c =
     pick c [33, 45, 46, 58, 124, 126] [(35, 39), (42, 43), (48, 57), (65, 90), (94, 122)] [(21, []), (52,
     []), (21, []), (22, [2]), (21, []), (21, []), (21, []), (21, []), (21, []), (21, []), (21, []), (0, [])]
     (entry rsp_machine 0)"
  by (rule rsp_row; simp only: rsp_eval)

lemma rsp_step_52: "step rsp_machine False 52 c =
     pick c [33, 58, 69, 101, 124, 126] [(35, 39), (42, 43), (45, 46), (48, 57), (65, 90), (94, 122)] [(21,
     []), (22, [2]), (53, []), (53, []), (21, []), (21, []), (21, []), (21, []), (21, []), (21, []), (21, []),
     (21, []), (0, [])] (entry rsp_machine 0)"
  by (rule rsp_row; simp only: rsp_eval)

lemma rsp_step_53: "step rsp_machine False 53 c =
     pick c [33, 58, 78, 110, 124, 126] [(35, 39), (42, 43), (45, 46), (48, 57), (65, 90), (94, 122)] [(21,
     []), (22, [2]), (54, []), (54, []), (21, []), (21, []), (21, []), (21, []), (21, []), (21, []), (21, []),
     (21, []), (0, [])] (entry rsp_machine 0)"
  by (rule rsp_row; simp only: rsp_eval)

lemma rsp_step_54: "step rsp_machine False 54 c =
     pick c [33, 58, 67, 99, 124, 126] [(35, 39), (42, 43), (45, 46), (48, 57), (65, 90), (94, 122)] [(21,
     []), (22, [2]), (55, []), (55, []), (21, []), (21, []), (21, []), (21, []), (21, []), (21, []), (21, []),
     (21, []), (0, [])] (entry rsp_machine 0)"
  by (rule rsp_row; simp only: rsp_eval)

lemma rsp_step_55: "step rsp_machine False 55 c =
     pick c [33, 58, 79, 111, 124, 126] [(35, 39), (42, 43), (45, 46), (48, 57), (65, 90), (94, 122)] [(21,
     []), (22, [2]), (56, []), (56, []), (21, []), (21, []), (21, []), (21, []), (21, []), (21, []), (21, []),
     (21, []), (0, [])] (entry rsp_machine 0)"
  by (rule rsp_row; simp only: rsp_eval)

lemma rsp_step_56: "step rsp_machine False 56 c =
     pick c [33, 58, 68, 100, 124, 126] [(35, 39), (42, 43), (45, 46), (48, 57), (65, 90), (94, 122)] [(21,
     []), (22, [2]), (57, []), (57, []), (21, []), (21, []), (21, []), (21, []), (21, []), (21, []), (21, []),
     (21, []), (0, [])] (entry rsp_machine 0)"
  by (rule rsp_row; simp only: rsp_eval)

lemma rsp_step_57: "step rsp_machine False 57 c =
     pick c [33, 58, 73, 105, 124, 126] [(35, 39), (42, 43), (45, 46), (48, 57), (65, 90), (94, 122)] [(21,
     []), (22, [2]), (58, []), (58, []), (21, []), (21, []), (21, []), (21, []), (21, []), (21, []), (21, []),
     (21, []), (0, [])] (entry rsp_machine 0)"
  by (rule rsp_row; simp only: rsp_eval)

lemma rsp_step_58: "step rsp_machine False 58 c =
     pick c [33, 58, 78, 110, 124, 126] [(35, 39), (42, 43), (45, 46), (48, 57), (65, 90), (94, 122)] [(21,
     []), (22, [2]), (59, []), (59, []), (21, []), (21, []), (21, []), (21, []), (21, []), (21, []), (21, []),
     (21, []), (0, [])] (entry rsp_machine 0)"
  by (rule rsp_row; simp only: rsp_eval)

lemma rsp_step_59: "step rsp_machine False 59 c =
     pick c [33, 58, 71, 103, 124, 126] [(35, 39), (42, 43), (45, 46), (48, 57), (65, 90), (94, 122)] [(21,
     []), (22, [2]), (60, []), (60, []), (21, []), (21, []), (21, []), (21, []), (21, []), (21, []), (21, []),
     (21, []), (0, [])] (entry rsp_machine 0)"
  by (rule rsp_row; simp only: rsp_eval)

lemma rsp_step_60: "step rsp_machine False 60 c =
     pick c [33, 58, 124, 126] [(35, 39), (42, 43), (45, 46), (48, 57), (65, 90), (94, 122)] [(21, []), (61,
     [2]), (21, []), (21, []), (21, []), (21, []), (21, []), (21, []), (21, []), (21, []), (0, [])] (entry rsp_machine 0)"
  by (rule rsp_row; simp only: rsp_eval)

lemma rsp_step_101: "step rsp_machine False 101 c =
     pick c [33, 58, 69, 101, 124, 126] [(35, 39), (42, 43), (45, 46), (48, 57), (65, 90), (94, 122)] [(21,
     []), (22, [2]), (102, []), (102, []), (21, []), (21, []), (21, []), (21, []), (21, []), (21, []), (21,
     []), (21, []), (0, [])] (entry rsp_machine 0)"
  by (rule rsp_row; simp only: rsp_eval)

lemma rsp_step_102: "step rsp_machine False 102 c =
     pick c [33, 58, 78, 110, 124, 126] [(35, 39), (42, 43), (45, 46), (48, 57), (65, 90), (94, 122)] [(21,
     []), (22, [2]), (103, []), (103, []), (21, []), (21, []), (21, []), (21, []), (21, []), (21, []), (21,
     []), (21, []), (0, [])] (entry rsp_machine 0)"
  by (rule rsp_row; simp only: rsp_eval)

lemma rsp_step_103: "step rsp_machine False 103 c =
     pick c [33, 58, 84, 116, 124, 126] [(35, 39), (42, 43), (45, 46), (48, 57), (65, 90), (94, 122)] [(21,
     []), (22, [2]), (104, []), (104, []), (21, []), (21, []), (21, []), (21, []), (21, []), (21, []), (21,
     []), (21, []), (0, [])] (entry rsp_machine 0)"
  by (rule rsp_row; simp only: rsp_eval)

lemma rsp_step_104: "step rsp_machine False 104 c =
     pick c [33, 45, 46, 58, 124, 126] [(35, 39), (42, 43), (48, 57), (65, 90), (94, 122)] [(21, []), (105,
     []), (21, []), (22, [2]), (21, []), (21, []), (21, []), (21, []), (21, []), (21, []), (21, []), (0, [])]
     (entry rsp_machine 0)"
  by (rule rsp_row; simp only: rsp_eval)

lemma rsp_step_105: "step rsp_machine False 105 c =
     pick c [33, 58, 76, 108, 124, 126] [(35, 39), (42, 43), (45, 46), (48, 57), (65, 90), (94, 122)] [(21,
     []), (22, [2]), (106, []), (106, []), (21, []), (21, []), (21, []), (21, []), (21, []), (21, []), (21,
     []), (21, []), (0, [])] (entry rsp_machine 0)"
  by (rule rsp_row; simp only: rsp_eval)

lemma rsp_step_106: "step rsp_machine False 106 c =
     pick c [33, 58, 69, 101, 124, 126] [(35, 39), (42, 43), (45, 46), (48, 57), (65, 90), (94, 122)] [(21,
     []), (22, [2]), (107, []), (107, []), (21, []), (21, []), (21, []), (21, []), (21, []), (21, []), (21,
     []), (21, []), (0, [])] (entry rsp_machine 0)"
  by (rule rsp_row; simp only: rsp_eval)

lemma rsp_step_107: "step rsp_machine False 107 c =
     pick c [33, 58, 78, 110, 124, 126] [(35, 39), (42, 43), (45, 46), (48, 57), (65, 90), (94, 122)] [(21,
     []), (22, [2]), (108, []), (108, []), (21, []), (21, []), (21, []), (21, []), (21, []), (21, []), (21,
     []), (21, []), (0, [])] (entry rsp_machine 0)"
  by (rule rsp_row; simp only: rsp_eval)

lemma rsp_step_108: "step rsp_machine False 108 c =
     pick c [33, 58, 71, 103, 124, 126] [(35, 39), (42, 43), (45, 46), (48, 57), (65, 90), (94, 122)] [(21,
     []), (22, [2]), (109, []), (109, []), (21, []), (21, []), (21, []), (21, []), (21, []), (21, []), (21,
     []), (21, []), (0, [])] (entry rsp_machine 0)"
  by (rule rsp_row; simp only: rsp_eval)

lemma rsp_step_109: "step rsp_machine False 109 c =
     pick c [33, 58, 84, 116, 124, 126] [(35, 39), (42, 43), (45, 46), (48, 57), (65, 90), (94, 122)] [(21,
     []), (22, [2]), (110, []), (110, []), (21, []), (21, []), (21, []), (21, []), (21, []), (21, []), (21,
     []), (21, []), (0, [])] (entry rsp_machine 0)"
  by (rule rsp_row; simp only: rsp_eval)

lemma rsp_step_110: "step rsp_machine False 110 c =
     pick c [33, 58, 72, 104, 124, 126] [(35, 39), (42, 43), (45, 46), (48, 57), (65, 90), (94, 122)] [(21,
     []), (22, [2]), (111, []), (111, []), (21, []), (21, []), (21, []), (21, []), (21, []), (21, []), (21,
     []), (21, []), (0, [])] (entry rsp_machine 0)"
  by (rule rsp_row; simp only: rsp_eval)

lemma rsp_step_111: "step rsp_machine False 111 c =
     pick c [33, 58, 124, 126] [(35, 39), (42, 43), (45, 46), (48, 57), (65, 90), (94, 122)] [(21, []), (112,
     [2]), (21, []), (21, []), (21, []), (21, []), (21, []), (21, []), (21, []), (21, []), (0, [])] (entry rsp_machine 0)"
  by (rule rsp_row; simp only: rsp_eval)

lemma rsp_step_22: "step rsp_machine False 22 c =
     pick c [10, 13, 32] [(9, 12)] [(20, [3, 6]), (24, [3, 6]), (22, [3]), (22, [3]), (23, [3])] (entry rsp_machine 0)"
  by (rule rsp_row; simp only: rsp_eval)

lemma rsp_step_23: "step rsp_machine False 23 c =
     pick c [10, 13] [] [(20, [6]), (24, [6]), (23, [])] (entry rsp_machine 0)"
  by (rule rsp_row; simp only: rsp_eval)

lemma rsp_step_35: "step rsp_machine False 35 c =
     pick c [10, 13, 32, 67, 99] [(9, 12)] [(36, [3, 6]), (95, [3, 6]), (35, [3]), (96, [3]), (96, [3]), (35,
     [3]), (23, [3])] (entry rsp_machine 0)"
  by (rule rsp_row; simp only: rsp_eval)

lemma rsp_step_61: "step rsp_machine False 61 c =
     pick c [10, 13, 32, 67, 99] [(9, 12)] [(62, [3, 6]), (80, [3, 6]), (61, [3]), (81, [3]), (81, [3]), (61,
     [3]), (23, [3])] (entry rsp_machine 0)"
  by (rule rsp_row; simp only: rsp_eval)

lemma rsp_step_81: "step rsp_machine False 81 c =
     pick c [10, 13, 72, 104] [] [(20, [6]), (24, [6]), (82, []), (82, []), (23, [])] (entry rsp_machine 0)"
  by (rule rsp_row; simp only: rsp_eval)

lemma rsp_step_82: "step rsp_machine False 82 c =
     pick c [10, 13, 85, 117] [] [(20, [6]), (24, [6]), (83, []), (83, []), (23, [])] (entry rsp_machine 0)"
  by (rule rsp_row; simp only: rsp_eval)

lemma rsp_step_83: "step rsp_machine False 83 c =
     pick c [10, 13, 78, 110] [] [(20, [6]), (24, [6]), (84, []), (84, []), (23, [])] (entry rsp_machine 0)"
  by (rule rsp_row; simp only: rsp_eval)

lemma rsp_step_84: "step rsp_machine False 84 c =
     pick c [10, 13, 75, 107] [] [(20, [6]), (24, [6]), (85, []), (85, []), (23, [])] (entry rsp_machine 0)"
  by (rule rsp_row; simp only: rsp_eval)

lemma rsp_step_85: "step rsp_machine False 85 c =
     pick c [10, 13, 69, 101] [] [(20, [6]), (24, [6]), (86, []), (86, []), (23, [])] (entry rsp_machine 0)"
  by (rule rsp_row; simp only: rsp_eval)

lemma rsp_step_86: "step rsp_machine False 86 c =
     pick c [10, 13, 68, 100] [] [(20, [6]), (24, [6]), (87, []), (87, []), (23, [])] (entry rsp_machine 0)"
  by (rule rsp_row; simp only: rsp_eval)

lemma rsp_step_87: "step rsp_machine False 87 c =
     pick c [10, 13] [] [(20, [6, 11]), (71, [6]), (23, [])] (entry rsp_machine 0)"
  by (rule rsp_row; simp only: rsp_eval)

lemma rsp_step_96: "step rsp_machine False 96 c =
     pick c [10, 13, 76, 108] [] [(20, [6]), (24, [6]), (97, []), (97, []), (23, [])] (entry rsp_machine 0)"
  by (rule rsp_row; simp only: rsp_eval)

lemma rsp_step_97: "step rsp_machine False 97 c =
     pick c [10, 13, 79, 111] [] [(20, [6]), (24, [6]), (98, []), (98, []), (23, [])] (entry rsp_machine 0)"
  by (rule rsp_row; simp only: rsp_eval)

lemma rsp_step_98: "step rsp_machine False 98 c =
     pick c [10, 13, 83, 115] [] [(20, [6]), (24, [6]), (99, []), (99, []), (23, [])] (entry rsp_machine 0)"
  by (rule rsp_row; simp only: rsp_eval)

lemma rsp_step_99: "step rsp_machine False 99 c =
     pick c [10, 13, 69, 101] [] [(20, [6]), (24, [6]), (100, []), (100, []), (23, [])] (entry rsp_machine 0)"
  by (rule rsp_row; simp only: rsp_eval)

lemma rsp_step_100: "step rsp_machine False 100 c =
     pick c [10, 13] [] [(43, [6]), (88, [6]), (23, [])] (entry rsp_machine 0)"
  by (rule rsp_row; simp only: rsp_eval)

lemma rsp_step_112: "step rsp_machine False 112 c =
     pick c [10, 13, 32] [(9, 12), (48, 57)] [(113, [3, 6]), (118, [3, 6]), (112, [3]), (112, [3]), (119,
     [3]), (23, [3])] (entry rsp_machine 0)"
  by (rule rsp_row; simp only: rsp_eval)

lemma rsp_step_119: "step rsp_machine False 119 c =
     pick c [10, 13] [(48, 57)] [(20, [4, 6]), (24, [4, 6]), (119, []), (23, [])] (entry rsp_machine 0)"
  by (rule rsp_row; simp only: rsp_eval)

lemmas name_rows =
  rsp_step_21 rsp_step_25 rsp_step_26 rsp_step_27 rsp_step_28 rsp_step_29 rsp_step_30 rsp_step_31 rsp_step_32 rsp_step_33 rsp_step_34 rsp_step_44 rsp_step_45 rsp_step_46 rsp_step_47 rsp_step_48 rsp_step_49 rsp_step_50 rsp_step_51 rsp_step_52 rsp_step_53 rsp_step_54 rsp_step_55 rsp_step_56 rsp_step_57 rsp_step_58 rsp_step_59 rsp_step_60 rsp_step_101 rsp_step_102 rsp_step_103 rsp_step_104 rsp_step_105 rsp_step_106 rsp_step_107 rsp_step_108 rsp_step_109 rsp_step_110 rsp_step_111

lemmas value_rows =
  rsp_step_22 rsp_step_23 rsp_step_35 rsp_step_61 rsp_step_81 rsp_step_82 rsp_step_83 rsp_step_84 rsp_step_85 rsp_step_86 rsp_step_87 rsp_step_96 rsp_step_97 rsp_step_98 rsp_step_99 rsp_step_100 rsp_step_112 rsp_step_119

section \<open>Steps on classes of characters\<close>

text \<open>The states inside a field name; the ones from 44 on have read a prefix of \<open>Transfer-Encoding\<close>.\<close>

definition in_name :: "nat \<Rightarrow> bool" where
  "in_name s \<longleftrightarrow> s = 21 \<or> 25 \<le> s \<and> s \<le> 34 \<or> 44 \<le> s \<and> s \<le> 60 \<or> 101 \<le> s \<and> s \<le> 111"

definition te_name :: string where
  "te_name = ''transfer-encoding''"

definition name_inv :: "string \<Rightarrow> nat \<Rightarrow> bool" where
  "name_inv w s \<longleftrightarrow> in_name s \<and> (44 \<le> s \<longrightarrow> s \<le> 60 \<longrightarrow> map lower w = take (s - 43) te_name)"

lemma schar_lower: "schar (lower c) = (if 65 \<le> schar c \<and> schar c \<le> 90 then schar c + 32 else schar c)"
proof (cases "65 \<le> (of_char c :: nat) \<and> (of_char c :: nat) \<le> 90")
  case True
  then have "schar (lower c) = int (of_char c) + 32" "schar c = int (of_char c)"
    by (simp_all add: lower_def schar_def Let_def)
  then show ?thesis using True by simp
next
  case False
  then have l: "lower c = c" by (auto simp: lower_def Let_def)
  obtain n where "(of_char c :: nat) = n" "n < 256" "schar c = (if n < 128 then int n else int n - 256)" by (rule schar_of_char)
  then show ?thesis using False l by auto
qed

lemma lower_is: "lower c = d \<longleftrightarrow> (if 65 \<le> schar c \<and> schar c \<le> 90 then schar c + 32 else schar c) = schar d"
  by (metis schar_inj schar_lower)

lemma lower_letters:
  shows "lower c = CHR ''-'' \<longleftrightarrow> schar c = 45"
    "lower c = CHR ''a'' \<longleftrightarrow> schar c = 65 \<or> schar c = 97"
    "lower c = CHR ''c'' \<longleftrightarrow> schar c = 67 \<or> schar c = 99"
    "lower c = CHR ''d'' \<longleftrightarrow> schar c = 68 \<or> schar c = 100"
    "lower c = CHR ''e'' \<longleftrightarrow> schar c = 69 \<or> schar c = 101"
    "lower c = CHR ''f'' \<longleftrightarrow> schar c = 70 \<or> schar c = 102"
    "lower c = CHR ''g'' \<longleftrightarrow> schar c = 71 \<or> schar c = 103"
    "lower c = CHR ''i'' \<longleftrightarrow> schar c = 73 \<or> schar c = 105"
    "lower c = CHR ''n'' \<longleftrightarrow> schar c = 78 \<or> schar c = 110"
    "lower c = CHR ''o'' \<longleftrightarrow> schar c = 79 \<or> schar c = 111"
    "lower c = CHR ''r'' \<longleftrightarrow> schar c = 82 \<or> schar c = 114"
    "lower c = CHR ''s'' \<longleftrightarrow> schar c = 83 \<or> schar c = 115"
    "lower c = CHR ''t'' \<longleftrightarrow> schar c = 84 \<or> schar c = 116"
proof -
  have s: "schar (CHR ''-'') = 45" "schar (CHR ''a'') = 97" "schar (CHR ''c'') = 99" "schar (CHR ''d'') = 100" "schar (CHR ''e'') = 101" "schar (CHR ''f'') = 102" "schar (CHR ''g'') = 103" "schar (CHR ''i'') = 105" "schar (CHR ''n'') = 110" "schar (CHR ''o'') = 111" "schar (CHR ''r'') = 114" "schar (CHR ''s'') = 115" "schar (CHR ''t'') = 116"
    by (simp_all add: schar_def)
  show "lower c = CHR ''-'' \<longleftrightarrow> schar c = 45"
    "lower c = CHR ''a'' \<longleftrightarrow> schar c = 65 \<or> schar c = 97"
    "lower c = CHR ''c'' \<longleftrightarrow> schar c = 67 \<or> schar c = 99"
    "lower c = CHR ''d'' \<longleftrightarrow> schar c = 68 \<or> schar c = 100"
    "lower c = CHR ''e'' \<longleftrightarrow> schar c = 69 \<or> schar c = 101"
    "lower c = CHR ''f'' \<longleftrightarrow> schar c = 70 \<or> schar c = 102"
    "lower c = CHR ''g'' \<longleftrightarrow> schar c = 71 \<or> schar c = 103"
    "lower c = CHR ''i'' \<longleftrightarrow> schar c = 73 \<or> schar c = 105"
    "lower c = CHR ''n'' \<longleftrightarrow> schar c = 78 \<or> schar c = 110"
    "lower c = CHR ''o'' \<longleftrightarrow> schar c = 79 \<or> schar c = 111"
    "lower c = CHR ''r'' \<longleftrightarrow> schar c = 82 \<or> schar c = 114"
    "lower c = CHR ''s'' \<longleftrightarrow> schar c = 83 \<or> schar c = 115"
    "lower c = CHR ''t'' \<longleftrightarrow> schar c = 84 \<or> schar c = 116"
    unfolding lower_is s by auto
qed

text \<open>The ranges of a name state take every token character that no single key has taken.\<close>

lemma pick_token:
  assumes "token_char c" "schar c \<noteq> 33" "schar c \<noteq> 124" "schar c \<noteq> 126"
  shows "pick (schar c) [] [(35, 39), (42, 43), (45, 46), (48, 57), (65, 90), (94, 122)] [x, x, x, x, x, x, y] d = x"
    "schar c \<noteq> 65 \<Longrightarrow> pick (schar c) [] [(35, 39), (42, 43), (45, 46), (48, 57), (66, 90), (94, 122)] [x, x, x, x, x, x, y] d = x"
    "schar c \<noteq> 45 \<Longrightarrow> schar c \<noteq> 46 \<Longrightarrow>
     pick (schar c) [] [(35, 39), (42, 43), (48, 57), (65, 90), (94, 122)] [x, x, x, x, x, y] d = x"
  using assms unfolding token_char_def Let_def by (elim disjE; simp)+

lemma not_colon: "token_char c \<Longrightarrow> schar c \<noteq> 58 \<and> schar c \<noteq> 10 \<and> schar c \<noteq> 13"
  by (auto simp: token_char_def Let_def)

lemma name_start:
  assumes "token_char c"
  shows "\<exists>t. step rsp_machine False 20 (schar c) = (t, [1]) \<and> step rsp_machine False 43 (schar c) = (t, [5, 1]) \<and> name_inv [c] t"
  using not_colon [OF assms]
  by (simp add: rsp_step_20 rsp_step_43 name_inv_def in_name_def te_name_def lower_letters pick_token [OF assms] del: pick.simps(2))

lemma in_name_cases:
  assumes "in_name s"
  shows "s = 21 \<or> s = 25 \<or> s = 26 \<or> s = 27 \<or> s = 28 \<or> s = 29 \<or> s = 30 \<or> s = 31
    \<or> s = 32 \<or> s = 33 \<or> s = 34 \<or> s = 44 \<or> s = 45 \<or> s = 46 \<or> s = 47 \<or> s =
    48 \<or> s = 49 \<or> s = 50 \<or> s = 51 \<or> s = 52 \<or> s = 53 \<or> s = 54 \<or> s = 55 \<or>
    s = 56 \<or> s = 57 \<or> s = 58 \<or> s = 59 \<or> s = 60 \<or> s = 101 \<or> s = 102 \<or> s = 103
    \<or> s = 104 \<or> s = 105 \<or> s = 106 \<or> s = 107 \<or> s = 108 \<or> s = 109 \<or> s = 110
    \<or> s = 111"
  using assms unfolding in_name_def by presburger

lemma te_move:
  assumes "token_char c" "44 \<le> s" "s < 60"
  shows "step rsp_machine False s (schar c) = (if lower c = te_name ! (s - 43) then (s + 1, []) else (21, []))"
proof -
  have "s = 44 \<or> s = 45 \<or> s = 46 \<or> s = 47 \<or> s = 48 \<or> s = 49 \<or> s = 50 \<or> s = 51
    \<or> s = 52 \<or> s = 53 \<or> s = 54 \<or> s = 55 \<or> s = 56 \<or> s = 57 \<or> s = 58 \<or> s =
    59"
    using assms(2,3) by presburger
  then show ?thesis
    using not_colon [OF assms(1)]
    by (elim disjE; simp add: name_rows te_name_def lower_letters pick_token [OF assms(1)] del: pick.simps(2))
qed

lemma other_move:
  assumes "token_char c" "in_name s" "\<not> (44 \<le> s \<and> s < 60)"
  shows "\<exists>t. step rsp_machine False s (schar c) = (t, []) \<and> in_name t \<and> \<not> (44 \<le> t \<and> t \<le> 60)"
proof -
  have "s = 21 \<or> s = 25 \<or> s = 26 \<or> s = 27 \<or> s = 28 \<or> s = 29 \<or> s = 30 \<or> s = 31
    \<or> s = 32 \<or> s = 33 \<or> s = 34 \<or> s = 60 \<or> s = 101 \<or> s = 102 \<or> s = 103 \<or>
    s = 104 \<or> s = 105 \<or> s = 106 \<or> s = 107 \<or> s = 108 \<or> s = 109 \<or> s = 110 \<or> s
    = 111"
    using assms(2,3) unfolding in_name_def by presburger
  then show ?thesis
    using not_colon [OF assms(1)]
    by (elim disjE; simp add: name_rows in_name_def pick_token [OF assms(1)] del: pick.simps(2))
qed

lemma name_move:
  assumes "token_char c" "name_inv w s"
  shows "\<exists>t. step rsp_machine False s (schar c) = (t, []) \<and> name_inv (w @ [c]) t"
proof (cases "44 \<le> s \<and> s < 60")
  case True
  then have w: "map lower w = take (s - 43) te_name" using assms(2) by (simp add: name_inv_def)
  have "length te_name = 17" by (simp add: te_name_def)
  then have "s - 43 < length te_name" "Suc s - 43 = Suc (s - 43)" using True by linarith+
  then show ?thesis
    using True te_move [OF assms(1), of s] w
    by (cases "lower c = te_name ! (s - 43)") (simp_all add: name_inv_def in_name_def take_Suc_conv_app_nth)
next
  case False
  then show ?thesis using other_move [OF assms(1), of s] assms(2) by (fastforce simp: name_inv_def)
qed

lemma name_colon:
  assumes "in_name s"
  shows "\<exists>t. step rsp_machine False s (schar (CHR '':'')) = (t, [2]) \<and> t \<in> {22, 35, 61, 112} \<and> (t = 61 \<longleftrightarrow> s = 60)"
proof -
  have "schar (CHR '':'') = 58" by (simp add: schar_def)
  then show ?thesis using in_name_cases [OF assms] by (elim disjE; simp add: name_rows)
qed

text \<open>The states inside a field value; the ones from 81 on have read a prefix of \<open>chunked\<close>.\<close>

definition in_value :: "nat \<Rightarrow> bool" where
  "in_value s \<longleftrightarrow> s = 23 \<or> 81 \<le> s \<and> s \<le> 87 \<or> 96 \<le> s \<and> s \<le> 100 \<or> s = 119"

lemma in_value_cases:
  assumes "in_value s"
  shows "s = 23 \<or> s = 81 \<or> s = 82 \<or> s = 83 \<or> s = 84 \<or> s = 85 \<or> s = 86 \<or> s = 87 \<or> s = 96 \<or> s = 97 \<or> s = 98 \<or> s = 99 \<or>
    s = 100 \<or> s = 119"
  using assms unfolding in_value_def by presburger

lemma value_space:
  assumes "t \<in> {22, 35, 61, 112}"
  shows "step rsp_machine False t (schar (CHR '' '')) = (t, [3])"
proof -
  have "schar (CHR '' '') = 32" by (simp add: schar_def)
  then show ?thesis using assms by (elim insertE emptyE) (simp_all add: value_rows)
qed

text \<open>What the machine does not skip in front of a value.\<close>

definition value_start :: "char \<Rightarrow> bool" where
  "value_start c \<longleftrightarrow> value_char c \<and> \<not> (9 \<le> schar c \<and> schar c \<le> 13) \<and> schar c \<noteq> 32"

lemma value_start:
  assumes "value_start c" "t \<in> {22, 35, 61, 112}"
  shows "\<exists>s. step rsp_machine False t (schar c) = (s, [3]) \<and> in_value s \<and> (81 \<le> s \<longrightarrow> s \<le> 87 \<longrightarrow> t = 61)"
  using assms(2) assms(1) unfolding value_start_def
  by (elim insertE emptyE) (auto simp: value_rows in_value_def)

lemma value_move:
  assumes "value_char c" "in_value s"
  shows "\<exists>t. step rsp_machine False s (schar c) = (t, []) \<and> in_value t \<and> (81 \<le> t \<longrightarrow> t \<le> 87 \<longrightarrow> 81 \<le> s \<and> s \<le> 87)"
proof -
  have "schar c \<noteq> 10 \<and> schar c \<noteq> 13" using assms(1) by (simp add: value_char_def schar_eqs)
  then show ?thesis using in_value_cases [OF assms(2)] by (elim disjE; simp add: value_rows in_value_def)
qed

lemma value_end:
  assumes "in_value s"
  shows "\<exists>t as. step rsp_machine False s (schar (CHR 0x0D)) = (t, as) \<and> t \<in> {24, 88, 71} \<and> (t = 71 \<longrightarrow> s = 87) \<and> as \<in> {[6], [4, 6]}"
proof -
  have "schar (CHR 0x0D) = 13" by (simp add: schar_def)
  then show ?thesis using in_value_cases [OF assms] by (elim disjE; simp add: value_rows)
qed

lemma line_end:
  "step rsp_machine False 24 (schar (CHR 0x0A)) = (20, [])" "step rsp_machine False 88 (schar (CHR 0x0A)) = (43, [])"
  "step rsp_machine False 71 (schar (CHR 0x0A)) = (20, [11])" "step rsp_machine False 3 (schar (CHR 0x0A)) = (120, [12])"
  "step rsp_machine False 20 (schar (CHR 0x0D)) = (3, [])" "step rsp_machine False 43 (schar (CHR 0x0D)) = (3, [5])"
  by (simp_all add: schar_def rsp_step_24 rsp_step_88 rsp_step_71 rsp_step_3 rsp_step_20 rsp_step_43)

text \<open>The status line and the size line of a chunk.\<close>

definition digit_char :: "char \<Rightarrow> bool" where
  "digit_char c \<longleftrightarrow> 48 \<le> schar c \<and> schar c \<le> 57"

lemma digit_move:
  assumes "digit_char c"
  shows "step rsp_machine False 16 (schar c) = (17, [0])" "step rsp_machine False 17 (schar c) = (17, [])"
  using assms by (simp_all add: digit_char_def rsp_step_16 rsp_step_17)

lemma hex_move:
  assumes "hex_char c"
  shows "step rsp_machine False 1 (schar c) = (2, [0])" "step rsp_machine False 2 (schar c) = (2, [])"
  using assms by (auto simp: hex_char_def rsp_step_1 rsp_step_2 simp del: One_nat_def)

lemma reason_move:
  assumes "value_char c"
  shows "step rsp_machine False 18 (schar c) = (19, [0])" "step rsp_machine False 19 (schar c) = (19, [])"
  using assms by (simp_all add: value_char_def schar_eqs rsp_step_18 rsp_step_19)

lemma status_steps:
  "step rsp_machine False 1 (schar (CHR ''H'')) = (8, [0])" "step rsp_machine False 8 (schar (CHR ''T'')) = (9, [])"
  "step rsp_machine False 9 (schar (CHR ''T'')) = (10, [])" "step rsp_machine False 10 (schar (CHR ''P'')) = (11, [])"
  "step rsp_machine False 11 (schar (CHR ''/'')) = (12, [])" "step rsp_machine False 12 (schar (CHR ''1'')) = (13, [])"
  "step rsp_machine False 13 (schar (CHR ''.'')) = (14, [])" "step rsp_machine False 14 (schar (CHR ''0'')) = (15, [])"
  "step rsp_machine False 14 (schar (CHR ''1'')) = (15, [])" "step rsp_machine False 15 (schar (CHR '' '')) = (16, [9])"
  "step rsp_machine False 17 (schar (CHR '' '')) = (18, [8])" "step rsp_machine False 19 (schar (CHR 0x0D)) = (24, [7])"
  "step rsp_machine False 2 (schar (CHR 0x0D)) = (3, [10])"
  by (simp_all add: schar_def rsp_step_1 rsp_step_2 rsp_step_8 rsp_step_9 rsp_step_10 rsp_step_11 rsp_step_12 rsp_step_13 rsp_step_14
      rsp_step_15 rsp_step_17 rsp_step_19 del: One_nat_def)

end
