(* ===== verification/Respond_Parse.thy ===== *)
theory Respond_Parse
  imports Respond_Rows Request_Parse
begin

text \<open>
  Runs of the response parser: the status line, the header fields with the three names the
  machine knows, the end of the head and the size line of a chunk, and their composition for the
  text that \<open>HttpResponse::dump\<close> prints (\<open>src/src/HTTP/httprespond_parser.cpp\<close>,
  \<open>src/src/HTTP/http_parser.cpp\<close>).
\<close>

abbreviation rsp_goes :: "string \<Rightarrow> nat \<Rightarrow> nat \<Rightarrow> response_parser \<Rightarrow> parse_error + nat \<times> nat \<times> response_parser" where
  "rsp_goes b \<equiv> goes rsp_machine False (response_action b) b"

abbreviation rsp_walk :: "nat \<Rightarrow> string \<Rightarrow> nat option" where
  "rsp_walk \<equiv> walk rsp_machine False"

section \<open>The status line\<close>

lemma rsp_version_callback:
  assumes "v \<in> {0x10, 0x11}" "drop p b = ''HTTP/'' @ version_str v @ ys"
  shows "on_response_version b p 8 st = Inr (st\<lparr>cp_data := (cp_data st)\<lparr>r_version := v\<rparr>\<rparr>)"
proof -
  define w where "w = (if v = 0x11 then ''HTTP/1.1'' else ''HTTP/1.0'')"
  have d: "drop p b = w @ ys" using assms(2) version_text [OF assms(1)] by (simp add: w_def)
  have "CHR 0x00 \<notin> set w" "length w = 8" by (simp_all add: w_def)
  then have t: "take 8 (c_str (drop p b)) = w" unfolding d c_str_pre [OF \<open>CHR 0x00 \<notin> set w\<close>] by simp
  have e: "take 8 (c_str ''HTTP/1.1'') = ''HTTP/1.1''" "take 8 (c_str ''HTTP/1.0'') = ''HTTP/1.0''" by simp_all
  have "w = ''HTTP/1.1'' \<and> v = 0x11 \<or> w = ''HTTP/1.0'' \<and> v = 0x10" using assms(1) by (auto simp: w_def)
  then show ?thesis unfolding on_response_version_def strncmp_eq_def t e by (elim disjE; simp)
qed

lemma goes_rsp_version:
  assumes "v \<in> {0x10, 0x11}" "drop p b = ''HTTP/'' @ version_str v @ '' '' @ ys" "length b < 2 ^ 64"
  shows "rsp_goes b 1 p st = rsp_goes b 16 (p + 9) (st\<lparr>cp_mark := p, cp_data := (cp_data st)\<lparr>r_version := v\<rparr>\<rparr>)"
proof -
  define w where "w = ''TTP/'' @ version_str v"
  have w: "w = (if v = 0x11 then ''TTP/1.1'' else ''TTP/1.0'')" using version_text [OF assms(1)] by (simp add: w_def)
  have d0: "drop p b = CHR ''H'' # w @ '' '' @ ys" using assms(2) by (simp add: w_def)
  have len: "p + 9 \<le> length b" using drop_bound [of p b "CHR ''H'' # w @ '' ''" ys] d0 w by (simp split: if_splits)
  have d1: "drop (p + 1) b = w @ CHR '' '' # ys" using drop_next [of p b "[CHR ''H'']"] d0 by simp
  have l7: "length w = 7" using w by simp
  then have d2: "drop (p + 8) b = CHR '' '' # ys" using drop_next [OF d1] by (simp add: ac_simps)
  have "rsp_goes b 1 p st = rsp_goes b 8 (p + 1) (st\<lparr>cp_mark := p\<rparr>)"
    using d0 by (intro goes_move) (auto simp: response_action_def status_steps simp del: One_nat_def)
  also have "\<dots> = rsp_goes b 15 (p + 8) (st\<lparr>cp_mark := p\<rparr>)"
  proof -
    have "rsp_walk 8 w = Some 15" unfolding w using status_steps by simp
    from goes_walk [OF d1 this] show ?thesis by (simp add: l7 ac_simps)
  qed
  also have "\<dots> = rsp_goes b 16 (p + 8 + 1) (st\<lparr>cp_mark := p, cp_data := (cp_data st)\<lparr>r_version := v\<rparr>\<rparr>)"
    using rsp_version_callback [OF assms(1,2), of "st\<lparr>cp_mark := p\<rparr>"] len assms(3) len_back [of p 8]
    by (intro goes_move [OF d2, where as = "[9]"]) (simp_all add: response_action_def status_steps)
  finally show ?thesis by (simp add: ac_simps)
qed

lemma dec_digit_chars: "list_all digit_char (dec n)"
proof -
  have "digit_char c" if "C_Strings.is_digit c" for c
    using that schar_of_char [of c] by (auto simp: C_Strings.is_digit_def digit_char_def schar_def Let_def)
  then show ?thesis using dec_digits [of _ n] by (auto simp: list_all_iff)
qed

lemma goes_status:
  assumes "drop p b = dec n @ '' '' @ ys" "n < 2 ^ 31" "length b < 2 ^ 64"
  shows "rsp_goes b 16 p st = rsp_goes b 18 (p + length (dec n) + 1)
    (st\<lparr>cp_mark := p, cp_status := int n, cp_data := (cp_data st)\<lparr>r_status := int n\<rparr>\<rparr>)"
proof -
  obtain c cs where d: "dec n = c # cs" using dec_not_Nil by (cases "dec n") auto
  have c: "digit_char c" "list_all digit_char cs" using dec_digit_chars [of n] by (simp_all add: d)
  have at: "atoi (drop p b) = int n" "to_i32 (strtol (drop p b) 10) = int n"
    using atoi_dec [OF assms(2), of "'' '' @ ys"] assms(1) by (simp_all add: atoi_def base_digit_def digit_of_def ch_in_def)
  have d1: "drop (p + 1) b = cs @ CHR '' '' # ys" using drop_next [of p b "[c]"] assms(1) d by simp
  have d2: "drop (p + 1 + length cs) b = CHR '' '' # ys" by (rule drop_next [OF d1])
  have "rsp_goes b 16 p st = rsp_goes b 17 (p + 1) (st\<lparr>cp_mark := p\<rparr>)"
    using assms(1) d digit_move(1) [OF c(1)] by (intro goes_move) (auto simp: response_action_def)
  also have "\<dots> = rsp_goes b 17 (p + 1 + length cs) (st\<lparr>cp_mark := p\<rparr>)"
    using c(2) by (intro goes_walk [OF d1] walk_stay) (auto simp: digit_move list_all_iff)
  also have "\<dots> = rsp_goes b 18 (p + 1 + length cs + 1) (st\<lparr>cp_mark := p, cp_status := int n, cp_data := (cp_data st)\<lparr>r_status := int n\<rparr>\<rparr>)"
    using at by (intro goes_move [OF d2, where as = "[8]"]) (simp_all add: response_action_def status_steps on_response_status_def)
  finally show ?thesis by (simp add: d)
qed

lemma goes_reason:
  assumes "drop p b = xs @ crlf @ ys" "xs \<noteq> []" "list_all value_char xs" "length b < 2 ^ 64"
  shows "rsp_goes b 18 p st = rsp_goes b 20 (p + length xs + 2) (st\<lparr>cp_mark := p, cp_data := (cp_data st)\<lparr>r_reason := xs\<rparr>\<rparr>)"
proof -
  obtain c cs where d: "xs = c # cs" using assms(2) by (cases xs) auto
  have c: "value_char c" "list_all value_char cs" using assms(3) by (simp_all add: d)
  have len: "p + length xs + 2 \<le> length b" using drop_bound [of p b "xs @ crlf" ys] assms(1) d by (simp add: crlf_def)
  have d1: "drop (p + 1) b = cs @ CHR 0x0D # CHR 0x0A # ys" using drop_next [of p b "[c]"] assms(1) d by (simp add: crlf_def)
  have d2: "drop (p + 1 + length cs) b = CHR 0x0D # CHR 0x0A # ys" by (rule drop_next [OF d1])
  have d3: "drop (p + 1 + length cs + 1) b = CHR 0x0A # ys" using drop_next [of "p + 1 + length cs" b "[CHR 0x0D]"] d2 by simp
  have "rsp_goes b 18 p st = rsp_goes b 19 (p + 1) (st\<lparr>cp_mark := p\<rparr>)"
    using assms(1) d reason_move(1) [OF c(1)] by (intro goes_move) (auto simp: response_action_def)
  also have "\<dots> = rsp_goes b 19 (p + 1 + length cs) (st\<lparr>cp_mark := p\<rparr>)"
    using c(2) by (intro goes_walk [OF d1] walk_stay) (auto simp: reason_move list_all_iff)
  also have "\<dots> = rsp_goes b 24 (p + 1 + length cs + 1) (st\<lparr>cp_mark := p, cp_data := (cp_data st)\<lparr>r_reason := xs\<rparr>\<rparr>)"
    using std_string_at [OF assms(1)] len assms(4) len_back [of p "length xs"] d
    by (intro goes_move [OF d2, where as = "[7]"]) (simp_all add: response_action_def status_steps on_response_reason_def)
  also have "\<dots> = rsp_goes b 20 (p + 1 + length cs + 1 + 1) (st\<lparr>cp_mark := p, cp_data := (cp_data st)\<lparr>r_reason := xs\<rparr>\<rparr>)"
    by (intro goes_move [OF d3, where as = "[]"]) (simp_all add: line_end)
  finally show ?thesis by (simp add: d)
qed

section \<open>Header fields\<close>

lemma walk_names:
  "list_all token_char xs \<Longrightarrow> name_inv w s \<Longrightarrow> \<exists>t. rsp_walk s xs = Some t \<and> name_inv (w @ xs) t"
proof (induction xs arbitrary: w s)
  case (Cons c xs)
  obtain t where t: "step rsp_machine False s (schar c) = (t, [])" "name_inv (w @ [c]) t"
    using name_move [of c w s] Cons.prems by auto
  have "t \<noteq> 0" using t(2) by (auto simp: name_inv_def in_name_def)
  then show ?case using t Cons.IH [of "w @ [c]" t] Cons.prems(1) by simp
qed simp

lemma walk_values:
  "list_all value_char xs \<Longrightarrow> in_value s \<Longrightarrow>
   \<exists>t. rsp_walk s xs = Some t \<and> in_value t \<and> (81 \<le> t \<longrightarrow> t \<le> 87 \<longrightarrow> 81 \<le> s \<and> s \<le> 87)"
proof (induction xs arbitrary: s)
  case (Cons c xs)
  obtain t where t: "step rsp_machine False s (schar c) = (t, [])" "in_value t" "81 \<le> t \<longrightarrow> t \<le> 87 \<longrightarrow> 81 \<le> s \<and> s \<le> 87"
    using value_move [of c s] Cons.prems by auto
  have "t \<noteq> 0" using t(2) by (auto simp: in_value_def)
  then show ?case using t Cons.IH [of t] Cons.prems(1) by auto
qed simp

text \<open>A field that the response grammar reads back as it was written.\<close>

definition replyable :: "string \<times> string \<Rightarrow> bool" where
  "replyable f \<longleftrightarrow> fst f \<noteq> [] \<and> list_all token_char (fst f) \<and> snd f \<noteq> [] \<and> list_all value_char (snd f) \<and> value_start (hd (snd f))"

text \<open>The fields that switch the parser to chunks.\<close>

definition te_field :: "string \<times> string" where
  "te_field = (''Transfer-Encoding'', ''chunked'')"

definition plain_field :: "string \<times> string \<Rightarrow> bool" where
  "plain_field f \<longleftrightarrow> \<not> casecmp_eq (fst f) te_name"

lemma token_no_nul: "list_all token_char k \<Longrightarrow> c_str k = k"
  by (rule c_str_id) (auto simp: list_all_iff token_char_def Let_def schar_def)

lemma te_walks: "rsp_walk 44 ''ransfer-Encoding'' = Some 60" "rsp_walk 81 ''hunked'' = Some 87"
  by (simp_all add: name_rows value_rows schar_def)

text \<open>Up to the value: the field name, the colon and the blank.\<close>

lemma goes_field_name:
  assumes "replyable f" "drop p b = fst f @ CHR '':'' # CHR '' '' # ys" "length b < 2 ^ 64" "L \<in> {20, 43}" "plain_field f \<or> f = te_field"
  shows "\<exists>t cl. rsp_goes b L p st = rsp_goes b t (p + length (fst f) + 2)
      (st\<lparr>cp_field_start := p, cp_close := cl, cp_field_len := length (fst f), cp_mark := p + length (fst f) + 1\<rparr>) \<and>
    t \<in> {22, 35, 61, 112} \<and> (t = 61 \<longleftrightarrow> f = te_field)"
proof -
  define k where "k = fst f"
  have ktok: "list_all token_char k" using assms(1) by (simp add: replyable_def k_def)
  obtain c cs where k: "k = c # cs" "token_char c" "list_all token_char cs"
    using assms(1) by (cases k) (auto simp: replyable_def k_def)
  define n where "n = p + length k"
  have d0: "drop p b = k @ CHR '':'' # CHR '' '' # ys" using assms(2) by (simp add: k_def)
  have len: "n + 2 \<le> length b" using drop_bound [of p b "k @ '': ''" ys] d0 k(1) by (simp add: n_def)
  have d1: "drop (p + 1) b = cs @ CHR '':'' # CHR '' '' # ys" using drop_next [of p b "[c]"] d0 k(1) by simp
  have dn: "drop n b = CHR '':'' # CHR '' '' # ys" using drop_next [OF d0] by (simp add: n_def)
  have ds: "drop (n + 1) b = CHR '' '' # ys" using drop_next [of n b "[CHR '':'']"] dn by simp
  obtain s0 where s0: "step rsp_machine False 20 (schar c) = (s0, [1])" "step rsp_machine False 43 (schar c) = (s0, [5, 1])" "name_inv [c] s0"
    using name_start [OF k(2)] by blast
  have nz: "s0 \<noteq> 0" using s0(3) by (auto simp: name_inv_def in_name_def)
  define cl where "cl = (cp_close st \<or> L = 43)"
  define s1 where "s1 = st\<lparr>cp_field_start := p, cp_close := cl\<rparr>"
  have 1: "rsp_goes b L p st = rsp_goes b s0 (p + 1) s1"
    using assms(4) d0 k(1) s0(1,2) nz goes_move [of p b c _ rsp_machine False L s0 "if L = 20 then [1] else [5, 1]" "response_action b" st s1]
    by (auto simp: response_action_def s1_def cl_def)
  obtain s where s: "rsp_walk s0 cs = Some s" "name_inv k s" using walk_names [OF k(3) s0(3)] k(1) by auto
  obtain t where t: "step rsp_machine False s (schar (CHR '':'')) = (t, [2])" "t \<in> {22, 35, 61, 112}" "t = 61 \<longleftrightarrow> s = 60"
    using name_colon [of s] s(2) by (auto simp: name_inv_def)
  have te: "t = 61 \<longleftrightarrow> f = te_field"
  proof
    assume "t = 61"
    then have "map lower k = te_name" using s(2) t(3) by (simp add: name_inv_def te_name_def)
    moreover have "map lower te_name = te_name" "c_str te_name = te_name" by (simp_all add: te_name_def lower_def)
    ultimately have "\<not> plain_field f" using token_no_nul [OF ktok] by (simp add: plain_field_def casecmp_eq_def k_def)
    then show "f = te_field" using assms(5) by blast
  next
    assume "f = te_field"
    then have "c = CHR ''T''" "cs = ''ransfer-Encoding''" using k(1) by (simp_all add: k_def te_field_def)
    moreover have "step rsp_machine False 20 (schar (CHR ''T'')) = (44, [1])" by (simp add: rsp_step_20 schar_def)
    ultimately have "s0 = 44" "s = 60" using s0(1) s(1) te_walks(1) by simp_all
    then show "t = 61" using t(3) by simp
  qed
  define s2 where "s2 = s1\<lparr>cp_field_len := length k\<rparr>"
  have 2: "rsp_goes b s0 (p + 1) s1 = rsp_goes b s n s1"
    using goes_walk [OF d1 s(1)] k(1) by (simp add: n_def)
  have 3: "rsp_goes b s n s1 = rsp_goes b t (n + 1) s2"
    using goes_move [OF dn t(1), of "response_action b" s1 s2] t(2) len assms(3)
    by (auto simp: response_action_def s1_def s2_def n_def len_back)
  have 4: "rsp_goes b t (n + 1) s2 = rsp_goes b t (n + 2) (s2\<lparr>cp_mark := n + 1\<rparr>)"
    using goes_move [OF ds value_space [OF t(2)], of "response_action b" s2 "s2\<lparr>cp_mark := n + 1\<rparr>"] t(2) by (auto simp: response_action_def)
  show ?thesis
    using 1 2 3 4 t(2) te unfolding k_def [symmetric]
    by (intro exI [of _ t] exI [of _ cl]) (simp add: s1_def s2_def n_def)
qed

text \<open>The value and the end of the line.\<close>

lemma goes_field_value:
  assumes "replyable f" "drop p b = snd f @ crlf @ ys" "length b < 2 ^ 64" "t \<in> {22, 35, 61, 112}" "t = 61 \<longleftrightarrow> f = te_field"
    "drop (cp_field_start st) b = fst f @ zs" "cp_field_start st < length b" "cp_field_len st = length (fst f)"
  shows "\<exists>L' cn. rsp_goes b t p st = rsp_goes b L' (p + length (snd f) + 2)
      (st\<lparr>cp_mark := p, cp_content_len := cn, cp_data := response_setHeader (fst f) (snd f) (cp_data st),
        cp_chunked := (cp_chunked st \<or> f = te_field)\<rparr>) \<and> L' \<in> {20, 43}"
proof -
  define v where "v = snd f"
  obtain e es where v: "v = e # es" "value_start e" "list_all value_char es"
    using assms(1) by (cases v) (auto simp: replyable_def v_def)
  define n where "n = p + length v"
  have d0: "drop p b = v @ CHR 0x0D # CHR 0x0A # ys" using assms(2) by (simp add: v_def crlf_def)
  have len: "n + 2 \<le> length b" using drop_bound [of p b "v @ crlf" ys] d0 v(1) by (simp add: n_def crlf_def)
  have d1: "drop (p + 1) b = es @ CHR 0x0D # CHR 0x0A # ys" using drop_next [of p b "[e]"] d0 v(1) by simp
  have dn: "drop n b = CHR 0x0D # CHR 0x0A # ys" using drop_next [OF d0] by (simp add: n_def)
  have dl: "drop (n + 1) b = CHR 0x0A # ys" using drop_next [of n b "[CHR 0x0D]"] dn by simp
  obtain s0 where s0: "step rsp_machine False t (schar e) = (s0, [3])" "in_value s0" "81 \<le> s0 \<longrightarrow> s0 \<le> 87 \<longrightarrow> t = 61"
    using value_start [OF v(2) assms(4)] by blast
  obtain s where s: "rsp_walk s0 es = Some s" "in_value s" "81 \<le> s \<longrightarrow> s \<le> 87 \<longrightarrow> 81 \<le> s0 \<and> s0 \<le> 87"
    using walk_values [OF v(3) s0(2)] by blast
  obtain r as where r: "step rsp_machine False s (schar (CHR 0x0D)) = (r, as)" "r \<in> {24, 88, 71}" "r = 71 \<longrightarrow> s = 87" "as \<in> {[6], [4, 6]}"
    using value_end [OF s(2)] by blast
  have te: "r = 71 \<longleftrightarrow> f = te_field"
  proof
    assume "r = 71"
    then show "f = te_field" using r(3) s(3) s0(3) assms(5) by simp
  next
    assume h: "f = te_field"
    then have "e = CHR ''c''" "es = ''hunked''" "t = 61" using v(1) assms(5) by (simp_all add: v_def te_field_def)
    moreover have "step rsp_machine False 61 (schar (CHR ''c'')) = (81, [3])" by (simp add: rsp_step_61 schar_def)
    moreover have "step rsp_machine False 87 (schar (CHR 0x0D)) = (71, [6])" by (simp add: rsp_step_87 schar_def)
    ultimately show "r = 71" using s0(1) s(1) r(1) te_walks(2) by simp
  qed
  define s1 where "s1 = st\<lparr>cp_mark := p\<rparr>"
  have nz: "s0 \<noteq> 0" "s \<noteq> 0" using s0(2) s(2) by (auto simp: in_value_def)
  have 1: "rsp_goes b t p st = rsp_goes b s n s1"
    using goes_move [of p b e _ rsp_machine False t s0 "[3]" "response_action b" st s1] goes_walk [OF d1 s(1)] d0 v(1) s0(1) nz
    by (simp add: response_action_def s1_def n_def)
  define cn where "cn = (if as = [6] then cp_content_len st else to_i32 (strtol (drop p b) 10))"
  define s2 where "s2 = s1\<lparr>cp_content_len := cn, cp_data := response_setHeader (fst f) v (cp_data st)\<rparr>"
  have cb: "on_response_http_field b (cp_field_start u) (cp_field_len u) p (length v) u =
      Inr (u\<lparr>cp_data := response_setHeader (fst f) v (cp_data u)\<rparr>)"
    if "cp_field_start u = cp_field_start st" "cp_field_len u = cp_field_len st" for u
  proof -
    have "fst f \<noteq> []" using assms(1) by (simp add: replyable_def)
    then show ?thesis using std_string_at [OF assms(6)] std_string_at [OF d0] len assms(7,8) that
      by (simp add: on_response_http_field_def n_def)
  qed
  have lb: "usub64 n p = length v" using len assms(3) len_back [of p "length v"] by (simp add: n_def)
  have "run_actions (response_action b) as n s1 = Inr (False, s2)"
    using r(4) cb lb by (auto simp: response_action_def s1_def s2_def cn_def)
  then have 2: "rsp_goes b s n s1 = rsp_goes b r (n + 1) s2"
    using goes_move [OF dn r(1)] r(2) by auto
  define L' where "L' = (if r = 88 then 43 else 20 :: nat)"
  have 3: "rsp_goes b r (n + 1) s2 = rsp_goes b L' (n + 2) (s2\<lparr>cp_chunked := (cp_chunked st \<or> f = te_field)\<rparr>)"
  proof -
    have "step rsp_machine False r (schar (CHR 0x0A)) = (L', if r = 71 then [11] else [])"
      using r(2) by (elim insertE emptyE) (simp_all add: line_end L'_def)
    from goes_move [OF dl this, of "response_action b" s2 "s2\<lparr>cp_chunked := (cp_chunked st \<or> f = te_field)\<rparr>"]
    show ?thesis using te by (cases "r = 71") (auto simp: response_action_def L'_def s2_def s1_def)
  qed
  show ?thesis
    using 1 2 3 unfolding v_def [symmetric]
    by (intro exI [of _ L'] exI [of _ cn]) (simp add: s1_def s2_def n_def L'_def)
qed

definition set_response_fields :: "(string \<times> string) list \<Rightarrow> HttpResponse \<Rightarrow> HttpResponse" where
  "set_response_fields fs r = foldl (\<lambda>r (k, v). response_setHeader k v r) r fs"

text \<open>
  The members that the fields change and no later part of the head reads: what remains is the
  data, whether chunks follow, and marks that the checks at the end accept.
\<close>

definition head_state :: "response_parser \<Rightarrow> HttpResponse \<Rightarrow> bool \<Rightarrow> nat \<Rightarrow> response_parser \<Rightarrow> bool" where
  "head_state st d ch q st1 \<longleftrightarrow> cp_data st1 = d \<and> cp_chunked st1 = ch \<and> cp_mark st1 < q \<and> cp_field_start st1 < q \<and> cp_field_len st1 < q \<and>
     cp_nread st1 = cp_nread st \<and> cp_error st1 = cp_error st \<and> cp_body_start st1 = cp_body_start st \<and> cp_cs st1 = cp_cs st \<and>
     cp_chunks_done st1 = cp_chunks_done st"

lemma head_state_trans:
  "head_state st d ch q st1 \<Longrightarrow> head_state st1 d1 ch1 q1 st2 \<Longrightarrow> head_state st d1 ch1 q1 st2"
  by (simp add: head_state_def)

lemma goes_rsp_field:
  assumes "replyable f" "drop p b = field_line f @ crlf @ ys" "length b < 2 ^ 64" "L \<in> {20, 43}" "plain_field f \<or> f = te_field"
  shows "\<exists>L' st1. rsp_goes b L p st = rsp_goes b L' (p + length (field_line f @ crlf)) st1 \<and> L' \<in> {20, 43} \<and>
    head_state st (response_setHeader (fst f) (snd f) (cp_data st)) (cp_chunked st \<or> f = te_field) (p + length (field_line f @ crlf)) st1"
proof -
  define k v where "k = fst f" and "v = snd f"
  have f: "f = (k, v)" by (simp add: k_def v_def)
  define n where "n = p + length k + 2"
  have d0: "drop p b = k @ CHR '':'' # CHR '' '' # v @ crlf @ ys" using assms(2) by (simp add: f field_line_def)
  have dv: "drop n b = v @ crlf @ ys" using drop_next [of p b "k @ '': ''"] d0 by (simp add: n_def)
  have le: "p + length (field_line f @ crlf) = n + length v + 2" by (simp add: f field_line_def n_def crlf_def)
  have len: "n + length v + 2 \<le> length b" using drop_bound [of p b "k @ '': '' @ v @ crlf" ys] d0 by (simp add: n_def crlf_def)
  obtain t cl where t: "t \<in> {22, 35, 61, 112}" "t = 61 \<longleftrightarrow> f = te_field"
    "rsp_goes b L p st = rsp_goes b t n (st\<lparr>cp_field_start := p, cp_close := cl, cp_field_len := length k, cp_mark := p + length k + 1\<rparr>)"
    using goes_field_name [OF assms(1) _ assms(3-5), of p "v @ crlf @ ys" st] d0 by (auto simp: k_def v_def n_def)
  define st0 where "st0 = st\<lparr>cp_field_start := p, cp_close := cl, cp_field_len := length k, cp_mark := p + length k + 1\<rparr>"
  obtain L' cn where 2: "rsp_goes b t n st0 = rsp_goes b L' (n + length v + 2)
      (st0\<lparr>cp_mark := n, cp_content_len := cn, cp_data := response_setHeader k v (cp_data st), cp_chunked := (cp_chunked st \<or> f = te_field)\<rparr>)"
    "L' \<in> {20, 43}"
    using goes_field_value [OF assms(1) _ assms(3) t(1,2), of n ys st0] dv d0 len
    by (auto simp: k_def v_def st0_def n_def)
  show ?thesis unfolding le
    using t(3) 2 len unfolding st0_def [symmetric]
    by (intro exI conjI, simp, simp) (auto simp: head_state_def st0_def n_def f)
qed

lemma goes_rsp_fields:
  "list_all (\<lambda>f. replyable f \<and> (plain_field f \<or> f = te_field)) fs \<Longrightarrow> drop p b = concat (map (\<lambda>f. field_line f @ crlf) fs) @ ys \<Longrightarrow>
   length b < 2 ^ 64 \<Longrightarrow> L \<in> {20, 43} \<Longrightarrow> head_state st0 (cp_data st) (cp_chunked st) p st \<Longrightarrow>
   \<exists>L' st1. rsp_goes b L p st = rsp_goes b L' (p + length (concat (map (\<lambda>f. field_line f @ crlf) fs))) st1 \<and> L' \<in> {20, 43} \<and>
     head_state st0 (set_response_fields fs (cp_data st)) (cp_chunked st \<or> te_field \<in> set fs)
       (p + length (concat (map (\<lambda>f. field_line f @ crlf) fs))) st1"
proof (induction fs arbitrary: p st L)
  case Nil
  then show ?case by (intro exI [of _ L] exI [of _ st]) (simp add: set_response_fields_def)
next
  case (Cons f fs)
  define rest where "rest = concat (map (\<lambda>f. field_line f @ crlf) fs)"
  define p1 where "p1 = p + length (field_line f @ crlf)"
  have d: "drop p b = field_line f @ crlf @ (rest @ ys)" using Cons.prems(2) by (simp add: rest_def)
  have d1: "drop p1 b = rest @ ys" using drop_next [of p b "field_line f @ crlf"] d by (simp add: p1_def)
  obtain L1 st1 where 1: "rsp_goes b L p st = rsp_goes b L1 p1 st1" "L1 \<in> {20, 43}"
    "head_state st (response_setHeader (fst f) (snd f) (cp_data st)) (cp_chunked st \<or> f = te_field) p1 st1"
    using goes_rsp_field [OF _ d Cons.prems(3,4), of st] Cons.prems(1) unfolding p1_def by auto
  note h = head_state_trans [OF Cons.prems(5) 1(3)]
  have e: "cp_data st1 = response_setHeader (fst f) (snd f) (cp_data st)" "cp_chunked st1 = (cp_chunked st \<or> f = te_field)"
    using 1(3) by (simp_all add: head_state_def)
  obtain L2 st2 where 2: "rsp_goes b L1 p1 st1 = rsp_goes b L2 (p1 + length rest) st2" "L2 \<in> {20, 43}"
    "head_state st0 (set_response_fields fs (cp_data st1)) (cp_chunked st1 \<or> te_field \<in> set fs) (p1 + length rest) st2"
    using Cons.IH [of p1 L1 st1] Cons.prems(1,3) d1 1(2) h e unfolding rest_def by auto
  have l: "p + length (concat (map (\<lambda>f. field_line f @ crlf) (f # fs))) = p1 + length rest" by (simp add: p1_def rest_def)
  have s: "set_response_fields (f # fs) (cp_data st) = set_response_fields fs (cp_data st1)"
    by (simp add: set_response_fields_def e split: prod.splits)
  have c: "(cp_chunked st \<or> te_field \<in> set (f # fs)) = (cp_chunked st1 \<or> te_field \<in> set fs)" using e(2) by auto
  show ?case unfolding l s c using 1(1) 2 by (intro exI [of _ L2] exI [of _ st2]) simp
qed

lemma goes_rsp_end:
  assumes "drop p b = crlf @ ys" "L \<in> {20, 43}"
  shows "\<exists>cl. rsp_goes b L p st = Inr (120, p + 2, st\<lparr>cp_close := cl, cp_body_start := p + 2\<rparr>)"
proof -
  have d1: "drop (p + 1) b = CHR 0x0A # ys" using drop_next [of p b "[CHR 0x0D]"] assms(1) by (simp add: crlf_def)
  have e: "rsp_goes b 3 (p + 1) st1 = Inr (120, p + 2, st1\<lparr>cp_body_start := p + 2\<rparr>)" for st1
    using d1 by (simp add: goes_def line_end response_action_def)
  show ?thesis
  proof (cases "L = 20")
    case True
    have "rsp_goes b L p st = rsp_goes b 3 (p + 1) st"
      using goes_move [of p b "CHR 0x0D" "CHR 0x0A # ys" rsp_machine False 20 3 "[]" "response_action b"] assms(1) True
      by (simp add: line_end crlf_def)
    then show ?thesis using e by (intro exI [of _ "cp_close st"]) simp
  next
    case False
    then have "rsp_goes b L p st = rsp_goes b 3 (p + 1) (st\<lparr>cp_close := True\<rparr>)"
      using goes_move [of p b "CHR 0x0D" "CHR 0x0A # ys" rsp_machine False 43 3 "[5]" "response_action b"] assms
      by (simp add: line_end crlf_def response_action_def)
    then show ?thesis using e by (intro exI [of _ True]) simp
  qed
qed

section \<open>Parsing a dumped response\<close>

definition reason_text :: "HttpResponse \<Rightarrow> string" where
  "reason_text p = (if r_reason p = [] then HttpStatusToString (r_status p) else r_reason p)"

text \<open>Responses whose parts stay inside the grammar.\<close>

definition response_ok :: "HttpResponse \<Rightarrow> bool" where
  "response_ok p \<longleftrightarrow> r_version p \<in> {0x10, 0x11} \<and> 0 \<le> r_status p \<and> r_status p < 2 ^ 31 \<and> list_all value_char (r_reason p) \<and>
     list_all (\<lambda>f. replyable f \<and> (plain_field f \<or> f = te_field)) (r_headers p)"

definition response_fields :: "HttpResponse \<Rightarrow> (string \<times> string) list" where
  "response_fields p = sent_headers (r_headers p) @ connection_field (r_close p) # length_field (r_body p)"

definition parsed_response :: "HttpResponse \<Rightarrow> HttpResponse" where
  "parsed_response p = set_response_fields (response_fields p)
     ((new_HttpResponse 0x11 True)\<lparr>r_version := r_version p, r_status := r_status p, r_reason := reason_text p\<rparr>)"

definition response_head :: "HttpResponse \<Rightarrow> string" where
  "response_head p = status_line p @ crlf @ concat (map (\<lambda>f. field_line f @ crlf) (response_fields p)) @ crlf"

lemma dump_response_head: "dump_response p = response_head p @ r_body p"
  by (simp add: dump_response_def response_head_def response_fields_def dump_headers_fields dump_body_fields dump_connection_field)

lemma reason_ok:
  assumes "list_all value_char (r_reason p)"
  shows "reason_text p \<noteq> [] \<and> list_all value_char (reason_text p)"
proof -
  have "list_all (\<lambda>(s, m). m \<noteq> [] \<and> list_all value_char m) HTTP_STATUS_MAP"
    by (simp add: HTTP_STATUS_MAP_def value_char_def)
  then have t: "m \<noteq> [] \<and> list_all value_char m" if "map_of HTTP_STATUS_MAP s = Some m" for s m
    using map_of_SomeD [OF that] by (auto simp: list_all_iff)
  have "HttpStatusToString s \<noteq> [] \<and> list_all value_char (HttpStatusToString s)" for s
    using t by (auto simp: HttpStatusToString_def value_char_def split: option.splits)
  then show ?thesis using assms by (simp add: reason_text_def)
qed

lemma response_fields_ok:
  assumes "response_ok p"
  shows "list_all (\<lambda>f. replyable f \<and> (plain_field f \<or> f = te_field)) (response_fields p)"
    "te_field \<in> set (response_fields p) \<longleftrightarrow> te_field \<in> set (r_headers p)"
proof -
  have c: "replyable (connection_field cl) \<and> plain_field (connection_field cl) \<and> connection_field cl \<noteq> te_field" for cl
    by (simp add: replyable_def connection_field_def plain_field_def te_field_def te_name_def casecmp_eq_def lower_def
        token_char_def value_char_def value_start_def schar_def)
  have d: "list_all value_char (dec n) \<and> value_start (hd (dec n))" for n
  proof -
    have "value_char c \<and> value_start c" if "c \<in> set (dec n)" for c
      using dec_digits [OF that] by (auto simp: C_Strings.is_digit_def value_char_def value_start_def schar_def Let_def)
    then show ?thesis using hd_in_set [OF dec_not_Nil [of n]] unfolding list_all_iff by blast
  qed
  have l: "list_all (\<lambda>f. replyable f \<and> plain_field f \<and> f \<noteq> te_field) (length_field body)" for body
    using d [of "length body"] dec_not_Nil [of "length body"]
    by (simp add: length_field_def replyable_def plain_field_def te_field_def te_name_def casecmp_eq_def lower_def
        token_char_def schar_def)
  define P where "P = (\<lambda>f. replyable f \<and> (plain_field f \<or> f = te_field))"
  have s: "list_all P (sent_headers (r_headers p))"
    using assms by (auto simp: sent_headers_def response_ok_def P_def [symmetric] list_all_iff)
  have lp: "list_all P (length_field (r_body p))" using l [of "r_body p"] by (auto simp: list_all_iff P_def)
  have cp: "P (connection_field (r_close p))" using c by (simp add: P_def)
  show "list_all (\<lambda>f. replyable f \<and> (plain_field f \<or> f = te_field)) (response_fields p)"
    unfolding P_def [symmetric] response_fields_def using s lp cp by simp
  have "\<not> casecmp_eq (fst te_field) ''connection''" by (simp add: te_field_def casecmp_eq_def lower_def)
  then have "te_field \<in> set (sent_headers hs) \<longleftrightarrow> te_field \<in> set hs" for hs by (auto simp: sent_headers_def case_prod_beta)
  then show "te_field \<in> set (response_fields p) \<longleftrightarrow> te_field \<in> set (r_headers p)"
    using c [of "r_close p"] l [of "r_body p"] by (auto simp: response_fields_def list_all_iff)
qed

lemma response_parse_run:
  assumes "response_ok p" "b = response_head p @ rest" "length b < 2 ^ 31"
  shows "\<exists>st. HttpResponseParser_execute b False (new_HttpResponseParser i0) = Inr (length (response_head p), rest, st) \<and>
     HttpResponseParser_isFinished st = 1 \<and> \<not> HttpResponseParser_hasError st \<and> cp_data st = parsed_response p \<and>
     cp_chunked st = (te_field \<in> set (r_headers p)) \<and> cp_error st = 0"
proof -
  define st0 where "st0 = new_HttpResponseParser i0"
  define F where "F = concat (map (\<lambda>f. field_line f @ crlf) (response_fields p))"
  define n where "n = nat (r_status p)"
  define p1 p2 p3 p4 where "p1 = (9 :: nat)" "p2 = p1 + length (dec n) + 1" "p3 = p2 + length (reason_text p) + 2" "p4 = p3 + length F"
  note p = this
  have l64: "length b < 2 ^ 64" using assms(3) by simp
  have ok: "r_version p \<in> {0x10, 0x11}" "n < 2 ^ 31" "r_status p = int n" "list_all value_char (reason_text p)" "reason_text p \<noteq> []"
    using assms(1) reason_ok [of p] by (auto simp: response_ok_def n_def)
  have u: "unat (word_of_int (r_status p) :: u32) = n" using ok(2,3) by (simp add: unat_of_nat)
  have b: "b = ''HTTP/'' @ version_str (r_version p) @ '' '' @ dec n @ '' '' @ reason_text p @ crlf @ F @ crlf @ rest"
    using assms(2) by (simp add: response_head_def status_line_def F_def u reason_text_def)
  have v: "length (version_str (r_version p)) = 3" using version_text [OF ok(1)] by simp
  have lc: "length crlf = 2" by (simp add: crlf_def)
  have head: "length (response_head p) = p4 + 2"
    by (simp add: response_head_def status_line_def F_def [symmetric] u reason_text_def [symmetric] p v lc)
  have d1: "drop p1 b = dec n @ '' '' @ reason_text p @ crlf @ F @ crlf @ rest"
    using drop_next [of 0 b "''HTTP/'' @ version_str (r_version p) @ '' ''"] b by (simp add: p v eval_nat_numeral)
  have d2: "drop p2 b = reason_text p @ crlf @ F @ crlf @ rest"
    using drop_next [of p1 b "dec n @ '' ''"] d1 by (simp add: p)
  have d3: "drop p3 b = F @ crlf @ rest" using drop_next [of p2 b "reason_text p @ crlf"] d2 by (simp add: p lc)
  have d4: "drop p4 b = crlf @ rest" using drop_next [OF d3] by (simp add: p)
  define r1 where "r1 = (cp_data st0)\<lparr>r_version := r_version p\<rparr>"
  define r2 where "r2 = r1\<lparr>r_status := int n\<rparr>"
  define r3 where "r3 = r2\<lparr>r_reason := reason_text p\<rparr>"
  define st3 where "st3 = st0\<lparr>cp_status := int n, cp_mark := p2, cp_data := r3\<rparr>"
  have "rsp_goes b 1 0 st0 = rsp_goes b 16 p1 (st0\<lparr>cp_mark := 0, cp_data := r1\<rparr>)"
    using goes_rsp_version [OF ok(1), of 0 b] b l64 by (simp add: p(1) r1_def del: One_nat_def)
  also have "\<dots> = rsp_goes b 18 p2 (st0\<lparr>cp_mark := p1, cp_status := int n, cp_data := r2\<rparr>)"
    using goes_status [OF d1 ok(2) l64, of "st0\<lparr>cp_mark := 0, cp_data := r1\<rparr>"] by (simp add: p(2) r2_def)
  also have "\<dots> = rsp_goes b 20 p3 st3"
    using goes_reason [OF d2 ok(5,4) l64, of "st0\<lparr>cp_mark := p1, cp_status := int n, cp_data := r2\<rparr>"] by (simp add: p(3) r3_def st3_def)
  finally have g: "rsp_goes b 1 0 st0 = rsp_goes b 20 p3 st3" .
  have "head_state st3 (cp_data st3) (cp_chunked st3) p3 st3"
    by (simp add: head_state_def st3_def st0_def new_HttpResponseParser_def httpclient_parser_init_def p)
  from goes_rsp_fields [OF response_fields_ok(1) [OF assms(1)] d3 [unfolded F_def] l64 _ this, of 20, folded F_def p(4)]
  obtain L st4 where g4: "rsp_goes b 20 p3 st3 = rsp_goes b L p4 st4" "L \<in> {20, 43}"
    "head_state st3 (set_response_fields (response_fields p) r3) (cp_chunked st3 \<or> te_field \<in> set (response_fields p)) p4 st4"
    by (auto simp: st3_def)
  obtain cl where g5: "rsp_goes b L p4 st4 = Inr (120, p4 + 2, st4\<lparr>cp_close := cl, cp_body_start := p4 + 2\<rparr>)"
    using goes_rsp_end [OF d4 g4(2)] by blast
  have par: "set_response_fields (response_fields p) r3 = parsed_response p"
    by (simp add: parsed_response_def r3_def r2_def r1_def st0_def new_HttpResponseParser_def httpclient_parser_init_def ok(3))
  define st5 where "st5 = st4\<lparr>cp_close := cl, cp_body_start := p4 + 2\<rparr>"
  have s5: "cp_data st5 = parsed_response p" "cp_chunked st5 = (te_field \<in> set (r_headers p))" "cp_error st5 = 0" "cp_nread st5 = 0"
    "cp_mark st5 < p4" "cp_field_start st5 < p4" "cp_field_len st5 < p4" "cp_body_start st5 = p4 + 2"
    using g4(3) response_fields_ok(2) [OF assms(1)]
    by (simp_all add: head_state_def par st5_def st3_def st0_def new_HttpResponseParser_def httpclient_parser_init_def)
  have res: "resume rsp_machine False (response_action b) 1 0 (map schar b) st0 = Inr (120, p4 + 2, st5)"
    using g g4(1) g5 by (simp add: goes_def st5_def)
  have bl: "length b = p4 + 2 + length rest" "b \<noteq> []" using assms(2) head by auto
  have i32: "to_i32 (int (length b)) = int (length b)" using assms(3) by (intro to_i32_id) simp_all
  have st00: "st0\<lparr>cp_nread := 0, cp_mark := 0, cp_field_len := 0, cp_field_start := 0\<rparr> = st0" "cp_cs st0 = 1"
    by (simp_all add: st0_def new_HttpResponseParser_def httpclient_parser_init_def httpclient_parser_start_def)
  have x: "httpclient_parser_execute b st0 = Inr (int (p4 + 2), st5\<lparr>cp_cs := 120, cp_nread := p4 + 2\<rparr>)"
    using res bl s5 i32 by (simp add: httpclient_parser_execute_def run_def st00 Let_def del: One_nat_def)
  have "drop (p4 + 2) b = rest" using assms(2) head by simp
  then show ?thesis
    using x head s5 unfolding st0_def [symmetric]
    by (simp add: HttpResponseParser_execute_def HttpResponseParser_isFinished_def HttpResponseParser_hasError_def
        httpclient_parser_finish_def httpclient_parser_has_error_def httpclient_parser_is_finished_def httpclient_parser_first_final_def
        nat_add_distrib)
qed

text \<open>The size line of a chunk, from any state: the parser is reset before each call.\<close>

lemma hex_base: "base_digit 16 c \<longleftrightarrow> hex_char c"
proof -
  obtain n where n: "(of_char c :: nat) = n" "n < 256" "schar c = (if n < 128 then int n else int n - 256)" by (rule schar_of_char)
  show ?thesis using n(2) by (auto simp: n(1,3) base_digit_def digit_of_def ch_in_def hex_char_def)
qed

lemma chunk_line_run:
  assumes "sz \<noteq> []" "list_all (base_digit 16) sz" "digits_val 16 sz < 2 ^ 31" "b = sz @ crlf @ rest" "length b < 2 ^ 31" "cp_error cp = 0"
  shows "\<exists>st. HttpResponseParser_execute b True cp = Inr (length sz + 2, rest, st) \<and>
     HttpResponseParser_isFinished st = 1 \<and> \<not> HttpResponseParser_hasError st \<and> cp_data st = cp_data cp \<and>
     cp_content_len st = int (digits_val 16 sz) \<and> cp_chunks_done st = (digits_val 16 sz = 0) \<and> cp_error st = 0"
proof -
  define st0 where "st0 = httpclient_parser_init cp"
  define n where "n = length sz"
  obtain c cs where d: "sz = c # cs" using assms(1) by (cases sz) auto
  have h: "hex_char c" "list_all hex_char cs" using assms(2) d by (simp_all add: hex_base list_all_iff)
  have d0: "drop 0 b = c # cs @ CHR 0x0D # CHR 0x0A # rest" using assms(4) d by (simp add: crlf_def)
  have d1: "drop (0 + 1) b = cs @ CHR 0x0D # CHR 0x0A # rest" using drop_next [of 0 b "[c]"] d0 by simp
  have d2: "drop n b = CHR 0x0D # CHR 0x0A # rest" using drop_next [OF d1] d by (simp add: n_def)
  have d3: "drop (n + 1) b = CHR 0x0A # rest" using drop_next [of n b "[CHR 0x0D]"] d2 by simp
  have v: "strtol b 16 = int (digits_val 16 sz)"
    using strtol_digits [of sz 16 "crlf @ rest"] assms(1,2,3,4) by (simp add: crlf_def base_digit_def digit_of_def ch_in_def)
  then have v32: "to_i32 (strtol b 16) = int (digits_val 16 sz)" using assms(3) by (simp add: to_i32_id)
  define st1 where "st1 = st0\<lparr>cp_chunked := True, cp_content_len := int (digits_val 16 sz), cp_chunks_done := (digits_val 16 sz = 0)\<rparr>"
  have m0: "cp_mark st0 = 0" "st0\<lparr>cp_mark := 0\<rparr> = st0" by (simp_all add: st0_def httpclient_parser_init_def)
  have "rsp_goes b 1 0 st0 = rsp_goes b 2 (0 + 1) st0"
    using goes_move [OF d0 hex_move(1) [OF h(1)], of "response_action b" st0 st0] m0 by (simp add: response_action_def)
  also have "\<dots> = rsp_goes b 2 (0 + 1 + length cs) st0"
    using h(2) by (intro goes_walk [OF d1] walk_stay) (auto simp: hex_move list_all_iff)
  also have "\<dots> = rsp_goes b 3 (n + 1) st1"
    using goes_move [OF d2, of rsp_machine False 2 3 "[10]" "response_action b" st0 st1] m0 v32 d
    by (simp add: status_steps response_action_def st1_def n_def)
  also have "\<dots> = Inr (120, n + 2, st1\<lparr>cp_body_start := n + 2\<rparr>)"
    using d3 by (simp add: goes_def line_end response_action_def)
  finally have res: "resume rsp_machine False (response_action b) 1 0 (map schar b) st0 = Inr (120, n + 2, st1\<lparr>cp_body_start := n + 2\<rparr>)"
    by (simp add: goes_def)
  have bl: "length b = n + 2 + length rest" "b \<noteq> []" using assms(4) d by (auto simp: n_def crlf_def)
  have i32: "to_i32 (int (length b)) = int (length b)" using assms(5) by (intro to_i32_id) simp_all
  have st00: "st0\<lparr>cp_nread := 0, cp_mark := 0, cp_field_len := 0, cp_field_start := 0\<rparr> = st0" "cp_cs st0 = 1"
    by (simp_all add: st0_def httpclient_parser_init_def httpclient_parser_start_def)
  have x: "httpclient_parser_execute b st0 = Inr (int (n + 2), st1\<lparr>cp_body_start := n + 2, cp_cs := 120, cp_nread := n + 2\<rparr>)"
    using res bl i32
    by (simp add: httpclient_parser_execute_def run_def st00 Let_def st1_def del: One_nat_def)
      (simp add: st0_def httpclient_parser_init_def)
  have "drop (n + 2) b = rest" using assms(4) by (simp add: n_def crlf_def)
  then show ?thesis
    using x assms(6)
    by (simp add: HttpResponseParser_execute_def HttpResponseParser_isFinished_def HttpResponseParser_hasError_def st0_def [symmetric]
        httpclient_parser_finish_def httpclient_parser_has_error_def httpclient_parser_is_finished_def httpclient_parser_first_final_def
        n_def [symmetric] nat_add_distrib st1_def)
      (simp add: st0_def httpclient_parser_init_def)
qed

section \<open>Properties\<close>

text \<open>
  Parsing what \<open>HttpResponse::dump\<close> printed gives the response back: for every response of
  version 1.0 or 1.1 with a non-negative status, a reason and header fields of the grammar,
  \<open>HttpResponseParser::execute\<close> on the text consumes exactly the head, leaves exactly the body, is
  finished without an error, and the parsed response has the same version and status, the printed
  reason and the sent header fields; it expects chunks exactly when such a field was sent.
\<close>

theorem response_dump_parse:
  assumes "response_ok p" "length (dump_response p) < 2 ^ 31"
  shows "\<exists>st. HttpResponseParser_execute (dump_response p) False (new_HttpResponseParser i0)
        = Inr (length (response_head p), r_body p, st)
    \<and> HttpResponseParser_isFinished st = 1 \<and> \<not> HttpResponseParser_hasError st
    \<and> cp_data st = parsed_response p \<and> cp_chunked st = (te_field \<in> set (r_headers p))"
  using response_parse_run [OF assms(1) dump_response_head assms(2), of i0] by blast

theorem response_dump_parse_witness:
  "\<exists>st. HttpResponseParser_execute (dump_response ((new_HttpResponse 0x11 True)\<lparr>r_status := 404, r_headers := [(''Server'', ''x'')]\<rparr>))
       False (new_HttpResponseParser 0) = Inr (56, [], st) \<and> r_status (cp_data st) = 404 \<and> \<not> cp_chunked st"
proof -
  define p where "p = (new_HttpResponse 0x11 True)\<lparr>r_status := 404, r_headers := [(''Server'', ''x'')]\<rparr>"
  have ok: "response_ok p"
    by (simp add: p_def response_ok_def new_HttpResponse_def replyable_def plain_field_def te_name_def casecmp_eq_def lower_def
        token_char_def value_char_def value_start_def schar_def)
  have v: "version_str 17 = ''1.1''" using version_text [of 17] by simp
  have d: "dec 404 = ''404''" by (simp add: dec_def num_str.simps digit_def char_of_def bit_Suc_0_iff)
  have h: "length (response_head p) = 56"
    by (simp add: p_def response_head_def status_line_def new_HttpResponse_def response_fields_def connection_field_def sent_headers_def
        length_field_def field_line_def crlf_def v d HttpStatusToString_def HTTP_STATUS_MAP_def casecmp_eq_def lower_def)
  have b: "r_body p = []" "te_field \<notin> set (r_headers p)" by (simp_all add: p_def new_HttpResponse_def te_field_def)
  have len: "length (dump_response p) < 2 ^ 31" using h b by (simp add: dump_response_head)
  have "r_status (set_response_fields fs r) = r_status r" for fs r
    by (induction fs arbitrary: r) (auto simp: set_response_fields_def response_setHeader_def split: prod.splits)
  then have "r_status (parsed_response p) = 404" by (simp add: parsed_response_def p_def)
  then show ?thesis using response_dump_parse [OF ok len, of 0] h b unfolding p_def [symmetric] by auto
qed

end
