(* ===== verification/Http_Connection.thy ===== *)
theory Http_Connection
  imports Http_Session Respond_Parse Uri_Parse
begin

text \<open>
  The client of \<open>HTTP/http_connection.h\<close> and \<open>http_connection.cpp\<close>: the connection that sends a request
  and receives a response, with a body by length or in chunks, the requests by URL, and the pool of
  idle connections. The parsers, streams, sockets, addresses and URIs are those of their theories.
  The lemmas show what a request carries, that the pool never reuses a connection, and which results
  an exchange can have.
\<close>

section \<open>Connections and results\<close>

text \<open>
  A connection is the stream with its peer, the time it was made and the number of requests it
  served. What a call can end in besides returning is an error value.
\<close>

record HttpConnection =
  hc_session :: session
  hc_createTime :: u64
  hc_request :: u64

definition new_HttpConnection :: "u64 \<Rightarrow> Socket option \<Rightarrow> net \<Rightarrow> int list \<Rightarrow> HttpConnection" where
  "new_HttpConnection now sock net script =
     \<lparr>hc_session = new_HttpSession sock net script, hc_createTime = now, hc_request = 0\<rparr>"

datatype client_error =
    Transfer http_error
  | LengthError
  | LookupError addr_error
  | UriError uri_error
  | HookError hook_error
  | NullSocket

fun lift_error :: "('e \<Rightarrow> client_error) \<Rightarrow> 'e + 'a \<Rightarrow> client_error + 'a" where
  "lift_error f (Inl e) = Inl (f e)"
| "lift_error f (Inr x) = Inr x"

datatype HttpError = OK | INVALID_URL | INVALID_HOST | CONNECT_FAILED | SEND_CLOSE | SEND_ERROR | RECV_TIMEOUT |
  POOL_CONNECT_FAILED | POOL_INVALID_CONNECTION

fun error_code :: "HttpError \<Rightarrow> int" where
  "error_code OK = 0"
| "error_code INVALID_URL = 1"
| "error_code INVALID_HOST = 2"
| "error_code CONNECT_FAILED = 3"
| "error_code SEND_CLOSE = 4"
| "error_code SEND_ERROR = 5"
| "error_code RECV_TIMEOUT = 6"
| "error_code POOL_CONNECT_FAILED = 7"
| "error_code POOL_INVALID_CONNECTION = 8"

record HttpResult =
  res_result :: int
  res_response :: "HttpResponse option"
  res_error :: string

definition make_result :: "HttpError \<Rightarrow> HttpResponse option \<Rightarrow> string \<Rightarrow> HttpResult" where
  "make_result e rsp msg = \<lparr>res_result = error_code e, res_response = rsp, res_error = msg\<rparr>"

definition HttpResult_toString :: "HttpResult \<Rightarrow> string" where
  "HttpResult_toString r =
     ''[HttpResult result='' @ int_str (res_result r) @ '' error='' @ res_error r @ '' response='' @
     (case res_response r of Some p \<Rightarrow> dump_response p | None \<Rightarrow> ''nullptr'') @ '']''"

section \<open>recvResponse\<close>

text \<open>The loop for the head; the buffer has one byte more than the \<open>B\<close> that are read, for the NUL.\<close>

function response_head_loop ::
  "nat \<Rightarrow> string \<Rightarrow> response_parser \<Rightarrow> session \<Rightarrow> http_error + (string \<times> response_parser) option \<times> session" where
  "response_head_loop B kept rp s =
     (case peer_read (B - length kept) s of (rt, bytes, s1) \<Rightarrow>
        if rt \<le> 0 then Inr (None, session_close s1)
        else
          let data = kept @ bytes
          in case HttpResponseParser_execute data False rp of
               Inl e \<Rightarrow> Inl (Parser e)
             | Inr (nparse, rest, rp1) \<Rightarrow>
                 if HttpResponseParser_hasError rp1 then Inr (None, session_close s1)
                 else if length rest = B then Inr (None, session_close s1)
                 else if HttpResponseParser_isFinished rp1 \<noteq> 0 then Inr (Some (rest, rp1), s1)
                 else response_head_loop B rest rp1 s1)"
  by pat_completeness auto
termination
  by (relation "measure (\<lambda>(B, kept, rp, s). net_measure (ss_in s))") (auto dest!: peer_read_measure [OF sym])

declare response_head_loop.simps [simp del]

text \<open>The inner loop for the size line of one chunk: it reads before it parses.\<close>

function chunk_size_loop ::
  "nat \<Rightarrow> string \<Rightarrow> response_parser \<Rightarrow> session \<Rightarrow> http_error + (string \<times> response_parser) option \<times> session" where
  "chunk_size_loop B kept rp s =
     (case peer_read (B - length kept) s of (rt, bytes, s1) \<Rightarrow>
        if rt \<le> 0 then Inr (None, session_close s1)
        else
          let data = kept @ bytes
          in case HttpResponseParser_execute data True rp of
               Inl e \<Rightarrow> Inl (Parser e)
             | Inr (nparse, rest, rp1) \<Rightarrow>
                 if HttpResponseParser_hasError rp1 then Inr (None, session_close s1)
                 else if length rest = B then Inr (None, session_close s1)
                 else if HttpResponseParser_isFinished rp1 = 0 then chunk_size_loop B rest rp1 s1
                 else Inr (Some (rest, rp1), s1))"
  by pat_completeness auto
termination
  by (relation "measure (\<lambda>(B, kept, rp, s). net_measure (ss_in s))") (auto dest!: peer_read_measure [OF sym])

declare chunk_size_loop.simps [simp del]

text \<open>The loop for what is left of a chunk; \<open>None\<close> when a read fails.\<close>

function chunk_rest ::
  "nat \<Rightarrow> int \<Rightarrow> string \<Rightarrow> session \<Rightarrow> string option \<times> session" where
  "chunk_rest B left body s =
     (if 0 < left then
        (case peer_read (if int B < left then B else nat left) s of (rt, bytes, s1) \<Rightarrow>
           if rt \<le> 0 then (None, session_close s1)
           else chunk_rest B (left - rt) (body @ bytes) s1)
      else (Some body, s))"
  by pat_completeness auto
termination
  by (relation "measure (\<lambda>(B, left, body, s). net_measure (ss_in s))") (auto dest!: peer_read_measure [OF sym])

declare chunk_rest.simps [simp del]

text \<open>
  One round for one chunk, after its size line: \<open>len -= 2\<close> on what the buffer holds, then the
  bytes that are there, then the rest. \<open>std::string::append\<close> gets its count as a \<open>size_t\<close>, so a
  negative one throws \<open>std::length_error\<close>. The result is the body and the buffer.
\<close>

definition chunk_data ::
  "nat \<Rightarrow> response_parser \<Rightarrow> string \<Rightarrow> string \<Rightarrow> session \<Rightarrow> client_error + (string \<times> string) option \<times> session" where
  "chunk_data B rp buf body s =
     (let len = int (length buf) - 2; clen = cp_content_len rp
      in if clen \<le> len then
           (if clen < 0 then Inl LengthError
            else Inr (Some (body @ take (nat clen) buf, take (nat (len - clen)) (drop (nat clen) buf)), s))
         else if len < 0 then Inl LengthError
         else case chunk_rest B (clen - len) (body @ take (nat len) buf) s of
                (None, s1) \<Rightarrow> Inr (None, s1)
              | (Some body1, s1) \<Rightarrow> Inr (Some (body1, []), s1))"

lemma chunk_size_measure:
  "chunk_size_loop B k rp s = Inr (Some x, s1) \<Longrightarrow> net_measure (ss_in s1) < net_measure (ss_in s)"
proof (induction B k rp s rule: chunk_size_loop.induct)
  case (1 B k rp s)
  obtain rt bytes s2 where rd: "peer_read (B - length k) s = (rt, bytes, s2)" by (cases "peer_read (B - length k) s") auto
  have pos: "0 < rt" using "1.prems" rd by (subst (asm) chunk_size_loop.simps) (auto split: if_splits)
  note m = peer_read_measure [OF rd pos]
  obtain n rest rp2 where x: "HttpResponseParser_execute (k @ bytes) True rp = Inr (n, rest, rp2)"
    using "1.prems" rd pos by (subst (asm) chunk_size_loop.simps) (auto simp: Let_def split: sum.splits)
  have again: "chunk_size_loop B rest rp2 s2 = Inr (Some x, s1) \<Longrightarrow> net_measure (ss_in s1) < net_measure (ss_in s2)"
    if "\<not> HttpResponseParser_hasError rp2" "length rest \<noteq> B" "HttpResponseParser_isFinished rp2 = 0"
    using "1.IH" [of rt "(bytes, s2)" bytes s2 "k @ bytes" "(n, rest, rp2)" n "(rest, rp2)" rest rp2] rd pos x that by simp
  have "s1 = s2 \<or> chunk_size_loop B rest rp2 s2 = Inr (Some x, s1) \<and>
      \<not> HttpResponseParser_hasError rp2 \<and> length rest \<noteq> B \<and> HttpResponseParser_isFinished rp2 = 0"
    using "1.prems" rd pos x unfolding chunk_size_loop.simps [of B k rp s] by (auto simp: Let_def split: if_splits)
  then show ?case using again m by auto
qed

lemma chunk_rest_measure:
  "chunk_rest B left body s = (Some x, s1) \<Longrightarrow> net_measure (ss_in s1) \<le> net_measure (ss_in s)"
proof (induction B left body s rule: chunk_rest.induct)
  case (1 B left body s)
  obtain rt bytes s2 where rd: "peer_read (if int B < left then B else nat left) s = (rt, bytes, s2)"
    by (cases "peer_read (if int B < left then B else nat left) s") auto
  show ?case
  proof (cases "0 < left")
    case False
    then show ?thesis using "1.prems" by (subst (asm) chunk_rest.simps) simp
  next
    case True
    then have pos: "0 < rt" and r: "chunk_rest B (left - rt) (body @ bytes) s2 = (Some x, s1)"
      using "1.prems" rd unfolding chunk_rest.simps [of B left body s] by (auto split: if_splits)
    have "net_measure (ss_in s1) \<le> net_measure (ss_in s2)"
      using "1.IH" [of rt "(bytes, s2)" bytes s2] True rd pos r by simp
    then show ?thesis using peer_read_measure [OF rd pos] by simp
  qed
qed

lemma chunk_data_measure:
  "chunk_data B rp buf body s = Inr (Some x, s1) \<Longrightarrow> net_measure (ss_in s1) \<le> net_measure (ss_in s)"
  by (auto simp: chunk_data_def Let_def dest: chunk_rest_measure split: if_splits option.splits prod.splits)

text \<open>The loop over all chunks, until the one of size 0.\<close>

function chunk_loop ::
  "nat \<Rightarrow> response_parser \<Rightarrow> string \<Rightarrow> string \<Rightarrow> session \<Rightarrow> client_error + (string \<times> response_parser) option \<times> session" where
  "chunk_loop B rp buf body s =
     (case chunk_size_loop B buf rp s of
        Inl e \<Rightarrow> Inl (Transfer e)
      | Inr (None, s1) \<Rightarrow> Inr (None, s1)
      | Inr (Some (buf1, rp1), s1) \<Rightarrow>
          (case chunk_data B rp1 buf1 body s1 of
             Inl e \<Rightarrow> Inl e
           | Inr (None, s2) \<Rightarrow> Inr (None, s2)
           | Inr (Some (body1, buf2), s2) \<Rightarrow>
               if cp_chunks_done rp1 then Inr (Some (body1, rp1), s2) else chunk_loop B rp1 buf2 body1 s2))"
  by pat_completeness auto
termination
  by (relation "measure (\<lambda>(B, rp, buf, body, s). net_measure (ss_in s))")
    (auto dest!: chunk_size_measure chunk_data_measure)

declare chunk_loop.simps [simp del]

text \<open>
  The whole of \<open>recvResponse\<close>. The result is \<open>None\<close> while \<open>readFixSize\<close> has not returned within
  the fuel; \<open>Some None\<close> is the null pointer.
\<close>

definition recvResponse ::
  "nat \<Rightarrow> nat \<Rightarrow> (string \<Rightarrow> u64 option) \<Rightarrow> response_parser \<Rightarrow> session \<Rightarrow> client_error + HttpResponse option option \<times> session" where
  "recvResponse fuel B cast parser s =
     bind_res (lift_error Transfer (response_head_loop B [] parser s)) (\<lambda>(r, s1).
       case r of
         None \<Rightarrow> Inr (Some None, s1)
       | Some (kept, rp) \<Rightarrow>
           if cp_chunked rp then
             bind_res (chunk_loop B rp kept [] s1) (\<lambda>(b, s2).
               case b of
                 None \<Rightarrow> Inr (Some None, s2)
               | Some (body, rp1) \<Rightarrow> Inr (Some (Some ((cp_data rp1)\<lparr>r_body := body\<rparr>)), s2))
           else
             let clen = sint (HttpResponseParser_getContentLength cast rp)
             in if 0 < clen then
                  bind_res (lift_error Transfer (recv_body fuel clen kept s1)) (\<lambda>(b, s2).
                    case b of
                      None \<Rightarrow> Inr (None, s2)
                    | Some None \<Rightarrow> Inr (Some None, s2)
                    | Some (Some body) \<Rightarrow> Inr (Some (Some ((cp_data rp)\<lparr>r_body := body\<rparr>)), s2))
                else Inr (Some (Some (cp_data rp)), s1))"

definition sendRequest :: "nat \<Rightarrow> HttpRequest \<Rightarrow> session \<Rightarrow> http_error + int option \<times> session" where
  "sendRequest fuel req s =
     (let data = dump_request req in writeFixSize fuel (send_part data) (of_nat (length data)) s)"

section \<open>Requests\<close>

text \<open>
  What the world answers to one request: the resolver, the descriptor and the results of
  \<open>connect\<close> and \<open>setsockopt\<close>, the clock, the script of the peer, \<open>errno\<close> with its text, the
  parser with the members that no constructor sets, \<open>lexical_cast\<close>, the size of the buffer and
  the fuel of the fixed size loops.
\<close>

record conn_env =
  ce_gai :: getaddrinfo
  ce_fd :: int
  ce_rc :: int
  ce_loc :: name_result
  ce_rem :: name_result
  ce_opt :: sysres
  ce_now :: u64
  ce_net :: net
  ce_script :: "int list"
  ce_errno :: int
  ce_strerror :: "int \<Rightarrow> string"
  ce_parser :: response_parser
  ce_cast :: "string \<Rightarrow> u64 option"
  ce_buffer :: nat
  ce_fuel :: nat

text \<open>
  The loop over the headers of the caller, a \<open>std::map\<close> in its order; the flag says whether a
  non-empty host was given.
\<close>

fun copy_headers :: "(string \<times> string) list \<Rightarrow> HttpRequest \<times> bool \<Rightarrow> HttpRequest \<times> bool" where
  "copy_headers [] rh = rh"
| "copy_headers ((k, v) # hs) (req, has_host) =
     (if casecmp_eq k ''connection'' then
        copy_headers hs (if casecmp_eq v ''keep-alive'' then req\<lparr>m_close := False\<rparr> else req, has_host)
      else
        let host = (if \<not> has_host \<and> casecmp_eq k ''host'' then v \<noteq> [] else has_host)
        in copy_headers hs (setHeader k v req, host))"

definition conn_request :: "HttpMethod \<Rightarrow> Uri \<Rightarrow> (string \<times> string) list \<Rightarrow> string \<Rightarrow> HttpRequest" where
  "conn_request method uri headers body =
     (let req = (new_HttpRequest 0x11 True)\<lparr>m_path := uri_getPath uri, m_query := u_query uri, m_fragment := u_fragment uri,
                  m_method := method\<rparr>;
          (req1, has_host) = copy_headers headers (req, False);
          req2 = (if has_host then req1 else setHeader ''Host'' (u_host uri) req1)
      in req2\<lparr>m_body := body\<rparr>)"

text \<open>Sending the request and receiving the response on an open connection.\<close>

definition exchange ::
  "conn_env \<Rightarrow> string \<Rightarrow> u64 \<Rightarrow> HttpRequest \<Rightarrow> session \<Rightarrow> client_error + HttpResult option \<times> session" where
  "exchange env peer timeout_ms req s =
     bind_res (lift_error Transfer (sendRequest (ce_fuel env) req s)) (\<lambda>(w, s1).
       case w of
         None \<Rightarrow> Inr (None, s1)
       | Some rt \<Rightarrow>
           if rt = 0 then Inr (Some (make_result SEND_CLOSE None (''send request closed by peer: '' @ peer)), s1)
           else if rt < 0 then
             Inr (Some (make_result SEND_ERROR None (''send request socket error errno='' @ int_str (ce_errno env) @
               '' errstr='' @ ce_strerror env (ce_errno env))), s1)
           else
             bind_res (recvResponse (ce_fuel env) (ce_buffer env) (ce_cast env) (ce_parser env) s1) (\<lambda>(r, s2).
               case r of
                 None \<Rightarrow> Inr (None, s2)
               | Some None \<Rightarrow> Inr (Some (make_result RECV_TIMEOUT None (''recv response timeout: '' @ peer @
                   '' timeout_ms:'' @ dec (unat timeout_ms))), s2)
               | Some (Some rsp) \<Rightarrow> Inr (Some (make_result OK (Some rsp) ''ok''), s2)))"

text \<open>
  \<open>DoRequest\<close> on a prepared request. The result carries the final session, with what was sent and
  the calls that closed it, when there was one. The objects are destroyed at the end.
\<close>

definition session_destroy :: "session \<Rightarrow> session" where
  "session_destroy s =
     (let (st, cs) = stream_destroy (ss_stream s) in s\<lparr>ss_stream := st, ss_calls := ss_calls s @ cs\<rparr>)"

type_synonym 'k answered = "HttpResult option \<times> session option \<times> sys_call list \<times> 'k hook_world"

definition conn_DoRequest ::
  "conn_env \<Rightarrow> u64 \<Rightarrow> HttpRequest \<Rightarrow> Uri \<Rightarrow> 'k hook_world \<Rightarrow> client_error + 'k answered" where
  "conn_DoRequest env timeout_ms req uri w =
     bind_res (lift_error LookupError (createAddressFromUri (ce_gai env) uri)) (\<lambda>a.
       case a of
         None \<Rightarrow> Inr (Some (make_result INVALID_HOST None (''invalid host: '' @ u_host uri)), None, [], w)
       | Some addr \<Rightarrow>
           let (ok, sock, cs) = Socket_connect (ce_fd env) (ce_rc env) (ce_loc env) (ce_rem env) addr (- 1) (CreateTCP addr)
           in if \<not> ok then
                Inr (Some (make_result CONNECT_FAILED None (''connect fail: '' @ toString_addr addr)), None,
                  cs @ snd (snd (Socket_close sock)), w)
              else
                bind_res (lift_error HookError (setRecvTimeout (sint timeout_ms) (ce_opt env) sock w)) (\<lambda>(_, w1).
                let conn = new_HttpConnection (ce_now env) (Some sock) (ce_net env) (ce_script env)
                in bind_res (exchange env (toString_addr addr) timeout_ms req (hc_session conn)) (\<lambda>(r, s).
                  Inr (r, Some (session_destroy s), cs, w1))))"

definition conn_DoRequest_uri ::
  "conn_env \<Rightarrow> HttpMethod \<Rightarrow> Uri \<Rightarrow> u64 \<Rightarrow> (string \<times> string) list \<Rightarrow> string \<Rightarrow> 'k hook_world \<Rightarrow> client_error + 'k answered" where
  "conn_DoRequest_uri env method uri timeout_ms headers body w =
     conn_DoRequest env timeout_ms (conn_request method uri headers body) uri w"

definition with_url :: "string \<Rightarrow> 'k hook_world \<Rightarrow> (Uri \<Rightarrow> client_error + 'k answered) \<Rightarrow> client_error + 'k answered" where
  "with_url url w f =
     bind_res (lift_error UriError (CreateUri url)) (\<lambda>u.
       case u of
         None \<Rightarrow> Inr (Some (make_result INVALID_URL None (''invalid url: '' @ url)), None, [], w)
       | Some uri \<Rightarrow> f uri)"

definition conn_DoRequest_url ::
  "conn_env \<Rightarrow> HttpMethod \<Rightarrow> string \<Rightarrow> u64 \<Rightarrow> (string \<times> string) list \<Rightarrow> string \<Rightarrow> 'k hook_world \<Rightarrow> client_error + 'k answered" where
  "conn_DoRequest_url env method url timeout_ms headers body w =
     with_url url w (\<lambda>uri. conn_DoRequest_uri env method uri timeout_ms headers body w)"

definition conn_GET_uri where
  "conn_GET_uri env uri timeout_ms headers body w = conn_DoRequest_uri env GET uri timeout_ms headers body w"

definition conn_GET where
  "conn_GET env url timeout_ms headers body w = with_url url w (\<lambda>uri. conn_GET_uri env uri timeout_ms headers body w)"

definition conn_POST_uri where
  "conn_POST_uri env uri timeout_ms headers body w = conn_DoRequest_uri env POST uri timeout_ms headers body w"

definition conn_POST where
  "conn_POST env url timeout_ms headers body w = with_url url w (\<lambda>uri. conn_POST_uri env uri timeout_ms headers body w)"

section \<open>The connection pool\<close>

record HttpConnectionPool =
  pl_host :: string
  pl_vhost :: string
  pl_port :: u32
  pl_maxSize :: u32
  pl_maxAliveTime :: u32
  pl_maxRequest :: u32
  pl_conns :: "HttpConnection list"
  pl_total :: "32 word"
  pl_log :: "sys_call list"

definition new_HttpConnectionPool :: "string \<Rightarrow> string \<Rightarrow> u32 \<Rightarrow> u32 \<Rightarrow> u32 \<Rightarrow> u32 \<Rightarrow> HttpConnectionPool" where
  "new_HttpConnectionPool host vhost port max_size max_alive_time max_request =
     \<lparr>pl_host = host, pl_vhost = vhost, pl_port = port, pl_maxSize = max_size, pl_maxAliveTime = max_alive_time,
      pl_maxRequest = max_request, pl_conns = [], pl_total = 0, pl_log = []\<rparr>"

definition conn_isConnected :: "HttpConnection \<Rightarrow> bool" where
  "conn_isConnected c = stream_isConnected (ss_stream (hc_session c))"

text \<open>The loop over the idle connections: the one taken, the invalid ones and the rest.\<close>

fun take_conn ::
  "u64 \<Rightarrow> u32 \<Rightarrow> HttpConnection list \<Rightarrow> HttpConnection option \<times> HttpConnection list \<times> HttpConnection list" where
  "take_conn now alive [] = (None, [], [])"
| "take_conn now alive (c # cs) =
     (if \<not> conn_isConnected c then (case take_conn now alive cs of (r, dead, rest) \<Rightarrow> (r, c # dead, rest))
      else if hc_createTime c + ucast alive < now then (case take_conn now alive cs of (r, dead, rest) \<Rightarrow> (r, c # dead, rest))
      else (Some c, [], cs))"

definition destroy_calls :: "HttpConnection \<Rightarrow> sys_call list" where
  "destroy_calls c = snd (stream_destroy (ss_stream (hc_session c)))"

text \<open>\<open>created\<close> is the time that the constructor of a new connection reads.\<close>

definition getConnection ::
  "conn_env \<Rightarrow> u64 \<Rightarrow> HttpConnectionPool \<Rightarrow> client_error + HttpConnection option \<times> HttpConnectionPool" where
  "getConnection env created p =
     (case take_conn (ce_now env) (pl_maxAliveTime p) (pl_conns p) of (r, dead, rest) \<Rightarrow>
        let p1 = p\<lparr>pl_conns := rest, pl_total := pl_total p - of_nat (length dead),
                    pl_log := pl_log p @ concat (map destroy_calls dead)\<rparr>
        in case r of
             Some c \<Rightarrow> Inr (Some c, p1)
           | None \<Rightarrow>
               bind_res (lift_error LookupError (LookupAnyIPAddress (ce_gai env) (pl_host p) (uint AF_INET) 0 0)) (\<lambda>a.
                 case a of
                   None \<Rightarrow> Inr (None, p1)
                 | Some a1 \<Rightarrow>
                     let addr = setPort (ucast (pl_port p)) a1;
                         (ok, sock, cs) = Socket_connect (ce_fd env) (ce_rc env) (ce_loc env) (ce_rem env) addr (- 1) (CreateTCP addr)
                     in if \<not> ok then Inr (None, p1\<lparr>pl_log := pl_log p1 @ cs @ snd (snd (Socket_close sock))\<rparr>)
                        else Inr (Some (new_HttpConnection created (Some sock) (ce_net env) (ce_script env)),
                               p1\<lparr>pl_total := pl_total p1 + 1, pl_log := pl_log p1 @ cs\<rparr>)))"

definition ReleasePtr :: "u64 \<Rightarrow> HttpConnection \<Rightarrow> HttpConnectionPool \<Rightarrow> HttpConnectionPool" where
  "ReleasePtr now c p =
     (let c1 = c\<lparr>hc_request := hc_request c + 1\<rparr>
      in if \<not> conn_isConnected c1 \<or> hc_createTime c1 + ucast (pl_maxAliveTime p) \<ge> now \<or> hc_request c1 \<ge> ucast (pl_maxRequest p)
         then p\<lparr>pl_total := pl_total p - 1, pl_log := pl_log p @ destroy_calls c1\<rparr>
         else p\<lparr>pl_conns := pl_conns p @ [c1]\<rparr>)"

definition pool_request :: "HttpConnectionPool \<Rightarrow> HttpMethod \<Rightarrow> string \<Rightarrow> (string \<times> string) list \<Rightarrow> string \<Rightarrow> HttpRequest" where
  "pool_request p method url headers body =
     (let req = (new_HttpRequest 0x11 True)\<lparr>m_path := url, m_method := method, m_close := False\<rparr>;
          (req1, has_host) = copy_headers headers (req, False);
          req2 = (if has_host then req1
                  else if pl_vhost p = [] then setHeader ''Host'' (pl_host p) req1 else setHeader ''Host'' (pl_vhost p) req1)
      in req2\<lparr>m_body := body\<rparr>)"

text \<open>\<open>DoRequest\<close>; the smart pointer gives the connection back at \<open>released\<close>, on every path.\<close>

definition pool_DoRequest ::
  "conn_env \<Rightarrow> u64 \<Rightarrow> u64 \<Rightarrow> u64 \<Rightarrow> HttpRequest \<Rightarrow> HttpConnectionPool \<times> 'k hook_world \<Rightarrow>
   client_error + HttpResult option \<times> HttpConnectionPool \<times> 'k hook_world" where
  "pool_DoRequest env created released timeout_ms req pw =
     (case pw of (p, w) \<Rightarrow>
        bind_res (getConnection env created p) (\<lambda>(c, p1).
          case c of
            None \<Rightarrow> Inr (Some (make_result POOL_CONNECT_FAILED None (''pool host:'' @ pl_host p @ '' port:'' @ dec (unat (pl_port p)))), p1, w)
          | Some conn \<Rightarrow>
              (case m_socket (ss_stream (hc_session conn)) of
                 None \<Rightarrow> Inl NullSocket
               | Some sock \<Rightarrow>
                   bind_res (lift_error HookError (setRecvTimeout (sint timeout_ms) (ce_opt env) sock w)) (\<lambda>(_, w1).
                   bind_res (exchange env (toString_addr (fst (getRemoteAddress (ce_rem env) sock))) timeout_ms req (hc_session conn)) (\<lambda>(r, s).
                     Inr (r, ReleasePtr released (conn\<lparr>hc_session := s\<rparr>) p1, w1))))))"

definition pool_DoRequest_url where
  "pool_DoRequest_url env created released method url timeout_ms headers body pw =
     pool_DoRequest env created released timeout_ms (pool_request (fst pw) method url headers body) pw"

definition uri_target :: "Uri \<Rightarrow> string" where
  "uri_target uri =
     uri_getPath uri @ (if u_query uri = [] then [] else ''?'') @ u_query uri @
     (if u_fragment uri = [] then [] else ''#'') @ u_fragment uri"

definition pool_DoRequest_uri where
  "pool_DoRequest_uri env created released method uri timeout_ms headers body pw =
     pool_DoRequest_url env created released method (uri_target uri) timeout_ms headers body pw"

definition pool_GET where
  "pool_GET env created released url timeout_ms headers body pw =
     pool_DoRequest_url env created released GET url timeout_ms headers body pw"

definition pool_GET_uri where
  "pool_GET_uri env created released uri timeout_ms headers body pw =
     pool_GET env created released (uri_target uri) timeout_ms headers body pw"

definition pool_POST where
  "pool_POST env created released url timeout_ms headers body pw =
     pool_DoRequest_url env created released POST url timeout_ms headers body pw"

definition pool_POST_uri where
  "pool_POST_uri env created released uri timeout_ms headers body pw =
     pool_POST env created released (uri_target uri) timeout_ms headers body pw"

section \<open>The pool gives out new connections only\<close>

text \<open>
  The runs of a pool: any number of connections are given out at once, used in any way, and given
  back in any order, while the clock does not go back. The second component are the connections
  in use, the third is the time.
\<close>

inductive pool_run :: "HttpConnectionPool \<times> HttpConnection list \<times> u64 \<Rightarrow> bool" where
  start: "pool_run (new_HttpConnectionPool host vhost port max_size max_alive max_request, [], t)"
| give: "pool_run (p, bs, t) \<Longrightarrow> t \<le> ce_now env \<Longrightarrow> ce_now env \<le> created \<Longrightarrow>
    getConnection env created p = Inr (Some c, p1) \<Longrightarrow> pool_run (p1, c # bs, created)"
| refuse: "pool_run (p, bs, t) \<Longrightarrow> t \<le> ce_now env \<Longrightarrow> getConnection env created p = Inr (None, p1) \<Longrightarrow> pool_run (p1, bs, ce_now env)"
| work: "pool_run (p, as @ c # bs, t) \<Longrightarrow> pool_run (p, as @ c\<lparr>hc_session := s\<rparr> # bs, t)"
| give_back: "pool_run (p, as @ c # bs, t) \<Longrightarrow> t \<le> now \<Longrightarrow> pool_run (ReleasePtr now c p, as @ bs, now)"

definition expired :: "u64 \<Rightarrow> HttpConnectionPool \<Rightarrow> HttpConnection \<Rightarrow> bool" where
  "expired t p c \<longleftrightarrow> hc_createTime c + ucast (pl_maxAliveTime p) < t"

definition pool_inv :: "HttpConnectionPool \<times> HttpConnection list \<times> u64 \<Rightarrow> bool" where
  "pool_inv st = (case st of (p, bs, t) \<Rightarrow>
     pl_total p = of_nat (length (pl_conns p) + length bs) \<and> (\<forall>c \<in> set (pl_conns p). expired t p c))"

lemma take_conn_expired:
  "\<forall>c \<in> set cs. hc_createTime c + ucast a < now \<Longrightarrow> take_conn now a cs = (None, cs, [])"
  by (induction cs) auto

lemma getConnection_expired:
  assumes "\<forall>c \<in> set (pl_conns p). expired t p c" "t \<le> ce_now env" "getConnection env created p = Inr (r, p1)"
  shows "pl_conns p1 = [] \<and> pl_maxAliveTime p1 = pl_maxAliveTime p
    \<and> pl_total p1 = pl_total p - of_nat (length (pl_conns p)) + (if r = None then 0 else 1)
    \<and> (\<forall>c. r = Some c \<longrightarrow> hc_createTime c = created \<and> hc_request c = 0 \<and> m_socket (ss_stream (hc_session c)) \<noteq> None)"
proof -
  have "take_conn (ce_now env) (pl_maxAliveTime p) (pl_conns p) = (None, pl_conns p, [])"
    using assms(1,2) by (intro take_conn_expired) (auto simp: expired_def)
  then show ?thesis using assms(3)
    by (auto simp: getConnection_def Let_def bind_res_def new_HttpConnection_def new_HttpSession_def new_SocketStream_def
        split: sum.splits option.splits prod.splits if_splits)
qed

lemma pool_run_inv: "pool_run st \<Longrightarrow> pool_inv st"
proof (induction rule: pool_run.induct)
  case start
  then show ?case by (simp add: pool_inv_def new_HttpConnectionPool_def)
next
  case (give p bs t env created c p1)
  then have "pl_total p = of_nat (length (pl_conns p) + length bs)" "\<forall>c \<in> set (pl_conns p). expired t p c"
    by (simp_all add: pool_inv_def)
  then show ?case using getConnection_expired [OF _ give.hyps(2,4)] by (simp add: pool_inv_def)
next
  case (refuse p bs t env created p1)
  then have "pl_total p = of_nat (length (pl_conns p) + length bs)" "\<forall>c \<in> set (pl_conns p). expired t p c"
    by (simp_all add: pool_inv_def)
  then show ?case using getConnection_expired [OF _ refuse.hyps(2,3)] by (simp add: pool_inv_def)
next
  case (work p as c bs t s)
  then show ?case by (simp add: pool_inv_def)
next
  case (give_back p as c bs t now)
  have h: "pl_total p = of_nat (length (pl_conns p) + length (as @ c # bs))" "\<forall>c \<in> set (pl_conns p). expired t p c"
    using give_back.IH by (simp_all add: pool_inv_def)
  then have "\<forall>c \<in> set (pl_conns p). expired now p c" using give_back.hyps(2) by (auto simp: expired_def)
  then show ?case using h(1) by (auto simp: pool_inv_def ReleasePtr_def Let_def expired_def not_le)
qed

text \<open>
  C7. The pool never reuses a connection. \<open>ReleasePtr\<close> keeps a connection exactly when it is older
  than the time for which \<open>getConnection\<close> accepts it, so in every reachable state of the pool, with any
  number of connections in use, \<open>getConnection\<close> throws all idle ones away and gives out nothing or a
  connection made for this call. The count \<open>m_total\<close> is the number of existing connections.
\<close>

theorem pool_never_reuses:
  assumes "pool_run (p, bs, t)" "t \<le> ce_now env" "getConnection env created p = Inr (r, p1)"
  shows "pl_total p = of_nat (length (pl_conns p) + length bs)
    \<and> pl_conns p1 = [] \<and> pl_total p1 = of_nat (length bs + (if r = None then 0 else 1))
    \<and> (\<forall>c. r = Some c \<longrightarrow> hc_createTime c = created \<and> hc_request c = 0 \<and> m_socket (ss_stream (hc_session c)) \<noteq> None)"
  using pool_run_inv [OF assms(1)] getConnection_expired [OF _ assms(2,3)] by (simp add: pool_inv_def)

section \<open>A failed send\<close>

lemma fix_loop_result:
  "fix_loop fuel rd sz off left st = Inr (Some r, st1) \<Longrightarrow> r = to_i32 (uint sz) \<or> r = 0"
proof (induction fuel arbitrary: off left st)
  case 0
  then show ?case by (auto simp: fix_loop.simps [of 0] split: if_splits)
next
  case (Suc fuel)
  then show ?case
    by (subst (asm) (2) fix_loop.simps)
      (auto simp: Let_def to_i32_def split: if_splits sum.splits prod.splits)
qed

lemma lift_error_Inr: "lift_error e r = Inr x \<longleftrightarrow> r = Inr x"
  by (cases r) simp_all

lemma exchange_stuck:
  assumes "sendRequest (ce_fuel env) req s = Inr (None, s1)"
  shows "exchange env peer timeout_ms req s = Inr (None, s1)"
  by (simp add: exchange_def assms)

text \<open>
  C33. \<open>SEND_ERROR\<close> is never the result of a request with a text below 2 GiB: \<open>writeFixSize\<close> takes a
  negative result of \<open>send\<close> for a length and goes on. So the results of an exchange that returns are \<open>OK\<close>, with a
  response, \<open>SEND_CLOSE\<close> and \<open>RECV_TIMEOUT\<close>; and where \<open>SEND_ERROR\<close> is meant, when \<open>send\<close> fails from some point
  on before the whole text is sent, or the connection is closed, the exchange does not return: however many calls it has
  made (the fuel, below \<open>2 ^ 64\<close> less the length of the text), it is still in the loop, and only what was sent
  before the failure is sent.
\<close>

theorem send_error_unreachable:
  assumes "length (dump_request req) < 2 ^ 31"
  shows "(\<forall>res s1. exchange env peer timeout_ms req s = Inr (Some res, s1) \<longrightarrow>
        res_result res \<in> {error_code OK, error_code SEND_CLOSE, error_code RECV_TIMEOUT}
        \<and> (res_result res = error_code OK \<longleftrightarrow> res_response res \<noteq> None))
    \<and> (length (dump_request req) + ce_fuel env < 2 ^ 64 \<longrightarrow>
        (\<forall>ks es. stream_isConnected (ss_stream s) \<and> ss_script s = ks @ es \<and> (\<forall>k \<in> set ks. 0 < k) \<and> (\<forall>k \<in> set es. k = - 1)
           \<and> sum_list ks < int (length (dump_request req)) \<and> length ks \<le> ce_fuel env \<and> ce_fuel env \<le> length (ks @ es) \<longrightarrow>
           (\<exists>s1. exchange env peer timeout_ms req s = Inr (None, s1)
              \<and> ss_sent s1 = ss_sent s @ take (nat (sum_list ks)) (dump_request req)))
        \<and> (\<not> stream_isConnected (ss_stream s) \<longrightarrow> exchange env peer timeout_ms req s = Inr (None, s)))"
proof (intro conjI allI impI)
  define sz :: u64 where "sz = of_nat (length (dump_request req))"
  have n: "unat sz = length (dump_request req)" using assms by (simp add: sz_def unat_of_nat)
  have sr: "sendRequest (ce_fuel env) req s = fix_loop (ce_fuel env) (send_part (dump_request req)) sz 0 sz s"
    by (simp add: sendRequest_def writeFixSize_def sz_def Let_def)
  {
    fix res s1
    assume x: "exchange env peer timeout_ms req s = Inr (Some res, s1)"
    have "uint sz = int (length (dump_request req))" using n by (simp add: uint_nat)
    then have "to_i32 (uint sz) = int (length (dump_request req))" using assms by (simp add: to_i32_id)
    then have w: "0 \<le> rt" if "sendRequest (ce_fuel env) req s = Inr (Some rt, s2)" for rt s2
      using that fix_loop_result unfolding sr by fastforce
    obtain rt s2 where 1: "sendRequest (ce_fuel env) req s = Inr (Some rt, s2)"
      using x by (auto simp: exchange_def bind_res_def lift_error_Inr split: sum.splits option.splits)
    show "res_result res \<in> {error_code OK, error_code SEND_CLOSE, error_code RECV_TIMEOUT}"
      "(res_result res = error_code OK) = (res_response res \<noteq> None)"
      using x 1 w [OF 1]
      by (auto simp: exchange_def bind_res_def make_result_def split: sum.splits option.splits if_splits)
  }
  {
    fix ks es
    assume f: "length (dump_request req) + ce_fuel env < 2 ^ 64" and
      k: "stream_isConnected (ss_stream s) \<and> ss_script s = ks @ es \<and> (\<forall>k \<in> set ks. 0 < k) \<and> (\<forall>k \<in> set es. k = - 1)
        \<and> sum_list ks < int (length (dump_request req)) \<and> length ks \<le> ce_fuel env \<and> ce_fuel env \<le> length (ks @ es)"
    then obtain s1 where "sendRequest (ce_fuel env) req s = Inr (None, s1)"
      "ss_sent s1 = ss_sent s @ take (nat (sum_list ks)) (drop (unat (0 :: u64)) (dump_request req))"
      using sends_then_fail [of s ks es sz 0 "dump_request req" "ce_fuel env" sz] assms n unfolding sr by auto
    then show "\<exists>s1. exchange env peer timeout_ms req s = Inr (None, s1)
        \<and> ss_sent s1 = ss_sent s @ take (nat (sum_list ks)) (dump_request req)"
      using exchange_stuck by auto
  }
  assume f: "length (dump_request req) + ce_fuel env < 2 ^ 64" and c: "\<not> stream_isConnected (ss_stream s)"
  have "length (dump_request req) \<noteq> 0" by (simp add: dump_request_def crlf_def)
  then have "sz \<noteq> 0" using n by (metis unat_0)
  then have "sendRequest (ce_fuel env) req s = Inr (None, s)"
    using failing_sends [of sz "ce_fuel env" s] f c n unfolding sr by simp
  then show "exchange env peer timeout_ms req s = Inr (None, s)" by (rule exchange_stuck)
qed

text \<open>A resolver that knows one IPv4 address, and a world in which everything succeeds.\<close>

definition sample_gai :: getaddrinfo where
  "sample_gai host service flags family type protocol = Inr [Some [2, 0, 0, 80, 127, 0, 0, 1, 0, 0, 0, 0, 0, 0, 0, 0]]"

definition sample_env :: "u64 \<Rightarrow> conn_env" where
  "sample_env now = \<lparr>ce_gai = sample_gai, ce_fd = 7, ce_rc = 0, ce_loc = (- 1, [], 0), ce_rem = (- 1, [], 0), ce_opt = (0, 0), ce_now = now,
     ce_net = [], ce_script = [], ce_errno = 0, ce_strerror = (\<lambda>_. []), ce_parser = new_HttpResponseParser 0, ce_cast = (\<lambda>_. None),
     ce_buffer = 100, ce_fuel = 100\<rparr>"

definition sample_pool :: HttpConnectionPool where
  "sample_pool = new_HttpConnectionPool ''h'' [] 80 1 10 5"

lemma sample_lookup:
  "\<exists>a. LookupAnyIPAddress sample_gai ''h'' family type protocol = Inr (Some (IPv4Address a))"
proof -
  define m :: "u8 list" where "m = [2, 0, 0, 80, 127, 0, 0, 1, 0, 0, 0, 0, 0, 0, 0, 0]"
  have f: "(of_bytes (take 2 m) :: u16) = AF_INET" "length m = 16" by (simp_all add: m_def of_bytes_16 AF_INET_def)
  have "create_all [Some m] = Inr [Some (IPv4Address (read_in m))]"
    using f by (simp add: Address_Create_def Let_def)
  moreover have "split_host ''h'' = Some (c_str ''h'', None)" by (rule split_plain) simp_all
  ultimately show ?thesis by (simp add: LookupAnyIPAddress_def Lookup_def sample_gai_def m_def [symmetric])
qed

lemma sample_connect:
  "\<exists>s cs. Socket_connect 7 0 (- 1, [], 0) (- 1, [], 0) (IPv4Address a) (- 1) (CreateTCP (IPv4Address a)) = (True, s, cs) \<and> sk_isConnected s"
  by (simp add: Socket_connect_def CreateTCP_def ensure_sock_def new_Socket_def isValid_def newSock_def initSock_def getRemoteAddress_def
      getLocalAddress_def Let_def)

lemma sample_get:
  assumes "pl_conns p = [] \<or> (\<forall>c \<in> set (pl_conns p). hc_createTime c + ucast (pl_maxAliveTime p) < now)" "pl_host p = ''h''"
  shows "\<exists>c p1. getConnection (sample_env now) now p = Inr (Some c, p1) \<and> conn_isConnected c \<and> hc_createTime c = now \<and> hc_request c = 0
    \<and> pl_conns p1 = [] \<and> pl_maxAliveTime p1 = pl_maxAliveTime p \<and> pl_maxRequest p1 = pl_maxRequest p \<and> pl_host p1 = ''h''"
proof -
  have t: "take_conn now (pl_maxAliveTime p) (pl_conns p) = (None, pl_conns p, [])"
    using assms(1) by (intro take_conn_expired) auto
  obtain a where a: "LookupAnyIPAddress sample_gai ''h'' (uint AF_INET) 0 0 = Inr (Some (IPv4Address a))" using sample_lookup by blast
  obtain s cs where s: "Socket_connect 7 0 (- 1, [], 0) (- 1, [], 0) (IPv4Address (IPv4_setPort (ucast (pl_port p)) a)) (- 1)
      (CreateTCP (IPv4Address (IPv4_setPort (ucast (pl_port p)) a))) = (True, s, cs)" "sk_isConnected s"
    using sample_connect by blast
  show ?thesis using t a s assms(2)
    by (simp add: getConnection_def sample_env_def Let_def new_HttpConnection_def new_HttpSession_def new_SocketStream_def
        conn_isConnected_def stream_isConnected_def)
qed

theorem pool_never_reuses_witness:
  "\<exists>c p1 p2 c2 p3. getConnection (sample_env 0) 0 sample_pool = Inr (Some c, p1) \<and> p2 = ReleasePtr 20 c p1 \<and> length (pl_conns p2) = 1
    \<and> getConnection (sample_env 20) 20 p2 = Inr (Some c2, p3) \<and> hc_createTime c2 = 20 \<and> hc_request c2 = 0 \<and> pl_conns p3 = [] \<and> pl_total p3 = 1"
proof -
  have p0: "pool_run (sample_pool, [], 0)" unfolding sample_pool_def by (rule pool_run.start)
  have "pl_conns sample_pool = []" "pl_host sample_pool = ''h''" "pl_maxAliveTime sample_pool = 10" "pl_maxRequest sample_pool = 5"
    by (simp_all add: sample_pool_def new_HttpConnectionPool_def)
  then obtain c p1 where 1: "getConnection (sample_env 0) 0 sample_pool = Inr (Some c, p1)" "conn_isConnected c" "hc_createTime c = 0"
      "hc_request c = 0" "pl_conns p1 = []" "pl_maxAliveTime p1 = 10" "pl_maxRequest p1 = 5" "pl_host p1 = ''h''"
    using sample_get [of sample_pool 0] by auto
  define p2 where "p2 = ReleasePtr 20 c p1"
  have n51: "\<not> (5 :: u64) \<le> 1" by (simp add: word_le_nat_alt)
  have p2: "pl_conns p2 = [c\<lparr>hc_request := 1\<rparr>]" "pl_maxAliveTime p2 = 10" "pl_host p2 = ''h''"
    using 1 n51 by (simp_all add: p2_def ReleasePtr_def conn_isConnected_def Let_def)
  obtain c2 p3 where 2: "getConnection (sample_env 20) 20 p2 = Inr (Some c2, p3)" using sample_get [of p2 20] p2 1(3) by auto
  have n: "ce_now (sample_env u) = u" for u by (simp add: sample_env_def)
  have "pool_run (p1, [] @ c # [], 0)" using pool_run.give [OF p0 _ _ 1(1)] n by simp
  then have "pool_run (p2, [], 20)" unfolding p2_def using pool_run.give_back [of p1 "[]" c "[]" 0 20] by simp
  from pool_never_reuses [OF this _ 2] show ?thesis using 1(1) 2 p2(1) n unfolding p2_def by auto
qed

section \<open>The request that is sent\<close>

lemma lower_host:
  "lower CHR ''H'' = CHR ''h''" "lower CHR ''O'' = CHR ''o''" "lower CHR ''S'' = CHR ''s''" "lower CHR ''T'' = CHR ''t''"
  "lower CHR ''K'' = CHR ''k''" "lower CHR ''A'' = CHR ''a''" "lower CHR ''C'' = CHR ''c''" "lower CHR ''I'' = CHR ''i''"
  "lower CHR ''h'' = CHR ''h''" "lower CHR ''o'' = CHR ''o''" "lower CHR ''s'' = CHR ''s''" "lower CHR ''t'' = CHR ''t''"
  "lower CHR ''c'' = CHR ''c''" "lower CHR ''n'' = CHR ''n''" "lower CHR ''e'' = CHR ''e''" "lower CHR ''i'' = CHR ''i''"
  "lower CHR ''k'' = CHR ''k''" "lower CHR ''p'' = CHR ''p''" "lower CHR ''a'' = CHR ''a''" "lower CHR ''l'' = CHR ''l''"
  "lower CHR ''v'' = CHR ''v''" "lower CHR ''y'' = CHR ''y''" "lower CHR ''-'' = CHR ''-''"
  by code_simp+

text \<open>The last header of the caller under a name, connection headers aside.\<close>

definition given :: "string \<Rightarrow> (string \<times> string) list \<Rightarrow> (string \<times> string) option" where
  "given j hs = find (\<lambda>f. casecmp_eq j (fst f)) (rev (filter (\<lambda>f. \<not> casecmp_eq (fst f) ''connection'') hs))"

lemma find_snoc: "find P (xs @ [x]) = (case find P xs of Some y \<Rightarrow> Some y | None \<Rightarrow> if P x then Some x else None)"
  by (induction xs) auto

lemma copy_headers_frame:
  "copy_headers hs (req, hh) = (req1, hh1) \<Longrightarrow> \<exists>x y. req1 = req\<lparr>m_headers := x, m_close := y\<rparr>"
proof (induction hs arbitrary: req hh)
  case Nil
  then show ?case by (intro exI [of _ "m_headers req"] exI [of _ "m_close req"]) simp
next
  case (Cons f hs)
  obtain k v where f: "f = (k, v)" by (cases f)
  obtain q hh2 where q: "copy_headers hs (q, hh2) = (req1, hh1)" "q = req\<lparr>m_headers := m_headers q, m_close := m_close q\<rparr>"
    using Cons.prems by (auto simp: f Let_def setHeader_def split: if_splits)
  obtain x y where "req1 = q\<lparr>m_headers := x, m_close := y\<rparr>" using Cons.IH [OF q(1)] by blast
  also have "\<dots> = req\<lparr>m_headers := x, m_close := y\<rparr>" by (subst q(2)) simp
  finally show ?case by blast
qed

lemma copy_headers_spec:
  assumes "map_ok (m_headers req)"
  shows "copy_headers hs (req, hh) = (req1, hh1) \<Longrightarrow>
    om_find CompareNoCase j (m_headers req1) = (case given j hs of Some f \<Rightarrow> Some (snd f) | None \<Rightarrow> om_find CompareNoCase j (m_headers req))
    \<and> hh1 = (hh \<or> (\<exists>f \<in> set hs. casecmp_eq (fst f) ''host'' \<and> snd f \<noteq> []))
    \<and> m_close req1 = (m_close req \<and> \<not> (\<exists>f \<in> set hs. casecmp_eq (fst f) ''connection'' \<and> casecmp_eq (snd f) ''keep-alive''))
    \<and> map_ok (m_headers req1)"
  using assms
proof (induction hs arbitrary: req hh)
  case Nil
  then show ?case by (simp add: given_def)
next
  case (Cons f hs)
  obtain k v where f: "f = (k, v)" by (cases f)
  have hc: "\<not> casecmp_eq k ''connection''" if "casecmp_eq k ''host''"
  proof -
    have "\<not> casecmp_eq ''host'' ''connection''" by (simp add: casecmp_eq_def lower_host)
    then show ?thesis using that by (auto simp: casecmp_eq_def)
  qed
  show ?case
  proof (cases "casecmp_eq k ''connection''")
    case True
    then have g: "given j (f # hs) = given j hs" by (simp add: given_def f)
    have nh: "\<not> casecmp_eq k ''host''" using hc True by blast
    define q where "q = (if casecmp_eq v ''keep-alive'' then req\<lparr>m_close := False\<rparr> else req)"
    have q: "m_headers q = m_headers req" "m_close q = (m_close req \<and> \<not> casecmp_eq v ''keep-alive'')" by (simp_all add: q_def)
    have "copy_headers hs (q, hh) = (req1, hh1)" using Cons.prems(1) True by (simp add: f q_def)
    from Cons.IH [OF this] show ?thesis using Cons.prems(2) True nh unfolding g q by (auto simp: f q)
  next
    case False
    have g: "given j (f # hs) = (case given j hs of Some y \<Rightarrow> Some y | None \<Rightarrow> if casecmp_eq j k then Some f else None)"
      using False by (cases "given j hs") (simp_all add: given_def f find_snoc)
    define q where "q = setHeader k v req"
    have q: "om_find CompareNoCase j (m_headers q) = (if casecmp_eq j k then Some v else om_find CompareNoCase j (m_headers req))"
      "m_close q = m_close req" "map_ok (m_headers q)"
      using Cons.prems(2) by (simp_all add: q_def setHeader_def find_put_case)
    have c: "copy_headers hs (q, if \<not> hh \<and> casecmp_eq k ''host'' then v \<noteq> [] else hh) = (req1, hh1)"
      using Cons.prems(1) False by (simp add: f q_def Let_def)
    show ?thesis using Cons.IH [OF c q(3)] False unfolding g q by (cases "given j hs") (auto simp: f)
  qed
qed

text \<open>
  C25. What a client sends: the headers of the caller, of several with the same name up to case the
  last one, without the connection headers; \<open>keep-alive\<close> exactly when the caller asked for it (the pool
  always does); and the host of the URI, or of the pool, unless the caller gave a non-empty one.
\<close>

theorem request_headers_spec:
  assumes "r = conn_request method uri hs body \<and> host = u_host uri \<and> close \<and> path = uri_getPath uri
    \<or> r = pool_request p method path hs body \<and> host = (if pl_vhost p = [] then pl_host p else pl_vhost p) \<and> \<not> close"
  shows "m_method r = method \<and> m_path r = path \<and> m_body r = body
    \<and> m_close r = (close \<and> \<not> (\<exists>f \<in> set hs. casecmp_eq (fst f) ''connection'' \<and> casecmp_eq (snd f) ''keep-alive''))
    \<and> getHeader ''Host'' d r = (if \<exists>f \<in> set hs. casecmp_eq (fst f) ''host'' \<and> snd f \<noteq> []
         then (case given ''host'' hs of Some f \<Rightarrow> snd f | None \<Rightarrow> d) else host)
    \<and> (\<not> casecmp_eq j ''host'' \<longrightarrow> getHeader j d r = (case given j hs of Some f \<Rightarrow> snd f | None \<Rightarrow> d))"
proof -
  define req where "req = (new_HttpRequest 0x11 True)\<lparr>m_path := path, m_method := method\<rparr>"
  have m: "map_ok (m_headers q)" "om_find CompareNoCase i (m_headers q) = None"
    if "q = req\<lparr>m_query := x, m_fragment := y, m_close := cl\<rparr>" for q i x y cl
    using that by (simp_all add: req_def new_HttpRequest_def)
  have g: "given ''Host'' hs = given ''host'' hs" by (simp add: given_def casecmp_eq_def lower_host)
  have ce: "casecmp_eq ''Host'' ''Host''" "\<not> casecmp_eq j ''host'' \<Longrightarrow> \<not> casecmp_eq j ''Host''"
    by (simp_all add: casecmp_eq_def lower_host)
  have core: "m_method r1 = method \<and> m_path r1 = path
    \<and> m_close r1 = (cl \<and> \<not> (\<exists>f \<in> set hs. casecmp_eq (fst f) ''connection'' \<and> casecmp_eq (snd f) ''keep-alive''))
    \<and> getHeader ''Host'' d r1 = (if \<exists>f \<in> set hs. casecmp_eq (fst f) ''host'' \<and> snd f \<noteq> []
         then (case given ''host'' hs of Some f \<Rightarrow> snd f | None \<Rightarrow> d) else hst)
    \<and> (\<not> casecmp_eq j ''host'' \<longrightarrow> getHeader j d r1 = (case given j hs of Some f \<Rightarrow> snd f | None \<Rightarrow> d))"
    if c: "copy_headers hs (q, False) = (r0, hh)" and q: "q = req\<lparr>m_query := x, m_fragment := y, m_close := cl\<rparr>"
      and r1: "r1 = (if hh then r0 else setHeader ''Host'' hst r0)" for q r0 hh x y cl hst r1
  proof -
    note s = copy_headers_spec [OF m(1) [OF q] c]
    have s': "om_find CompareNoCase i (m_headers r0) = (case given i hs of Some f \<Rightarrow> Some (snd f) | None \<Rightarrow> None)" for i
      using s [of i] m(2) [OF q] by (auto split: option.splits)
    have r0: "hh = (\<exists>f \<in> set hs. casecmp_eq (fst f) ''host'' \<and> snd f \<noteq> [])" "map_ok (m_headers r0)"
      "m_close r0 = (cl \<and> \<not> (\<exists>f \<in> set hs. casecmp_eq (fst f) ''connection'' \<and> casecmp_eq (snd f) ''keep-alive''))"
      using s [of "''host''"] q by simp_all
    have "m_method r0 = method" "m_path r0 = path" using copy_headers_frame [OF c] by (auto simp: q req_def)
    then show ?thesis using r0 s' [of "''Host''"] s' [of j] ce g
      by (auto simp: r1 getHeader_def setHeader_def find_put_case split: option.splits)
  qed
  from assms show ?thesis
  proof
    assume a: "r = conn_request method uri hs body \<and> host = u_host uri \<and> close \<and> path = uri_getPath uri"
    define q where "q = req\<lparr>m_query := u_query uri, m_fragment := u_fragment uri, m_close := True\<rparr>"
    have q: "q = (new_HttpRequest 0x11 True)\<lparr>m_path := uri_getPath uri, m_query := u_query uri, m_fragment := u_fragment uri, m_method := method\<rparr>"
      using a by (simp add: q_def req_def new_HttpRequest_def)
    obtain r0 hh where c: "copy_headers hs (q, False) = (r0, hh)" by (cases "copy_headers hs (q, False)")
    have "r = (if hh then r0 else setHeader ''Host'' host r0)\<lparr>m_body := body\<rparr>"
      using a c unfolding q by (simp add: conn_request_def Let_def)
    then show ?thesis using core [OF c q_def refl, of host] a by (simp add: getHeader_def)
  next
    assume a: "r = pool_request p method path hs body \<and> host = (if pl_vhost p = [] then pl_host p else pl_vhost p) \<and> \<not> close"
    define q where "q = req\<lparr>m_query := [], m_fragment := [], m_close := False\<rparr>"
    have q: "q = (new_HttpRequest 0x11 True)\<lparr>m_path := path, m_method := method, m_close := False\<rparr>"
      by (simp add: q_def req_def new_HttpRequest_def)
    obtain r0 hh where c: "copy_headers hs (q, False) = (r0, hh)" by (cases "copy_headers hs (q, False)")
    have "r = (if hh then r0 else setHeader ''Host'' host r0)\<lparr>m_body := body\<rparr>"
      using a c unfolding q by (simp add: pool_request_def Let_def)
    then show ?thesis using core [OF c q_def refl, of host] a by (simp add: getHeader_def)
  qed
qed

theorem request_headers_spec_witness:
  "getHeader ''HOST'' [] (pool_request sample_pool GET ''/x'' [(''Host'', []), (''a'', ''b'')] []) = ''h''
   \<and> m_close (conn_request GET (new_Uri\<lparr>u_host := ''u''\<rparr>) [(''Connection'', ''Keep-Alive'')] []) = False"
proof -
  have h: "getHeader ''HOST'' [] r = getHeader ''Host'' [] r" for r
  proof -
    have "casecmp_less ''HOST'' k = casecmp_less ''Host'' k" "casecmp_less k ''HOST'' = casecmp_less k ''Host''" for k
      by (simp_all add: casecmp_less_def lower_host)
    then have "om_find CompareNoCase ''HOST'' m = om_find CompareNoCase ''Host'' m" for m :: HttpMap
      by (induction m) (auto simp: CompareNoCase_def)
    then show ?thesis by (simp add: getHeader_def)
  qed
  show ?thesis
    using request_headers_spec [of "pool_request sample_pool GET ''/x'' [(''Host'', []), (''a'', ''b'')] []" GET "new_Uri"
        "[(''Host'', []), (''a'', ''b'')]" "[]" "''h''" False "''/x''" sample_pool "[]"]
      request_headers_spec [of "conn_request GET (new_Uri\<lparr>u_host := ''u''\<rparr>) [(''Connection'', ''Keep-Alive'')] []" GET
        "new_Uri\<lparr>u_host := ''u''\<rparr>" "[(''Connection'', ''Keep-Alive'')]" "[]" "''u''" True "''/''" sample_pool "[]"]
    unfolding h by (simp add: sample_pool_def new_HttpConnectionPool_def new_Uri_def uri_getPath_def casecmp_eq_def lower_host)
qed

end
