(* ===== verification/Http_Exchange.thy ===== *)
theory Http_Exchange
  imports Http_Connection
begin

text \<open>
  What \<open>HttpConnection::recvResponse\<close> makes of a response that the other side dumped: with a body by
  length, for every cut of the body, and in chunks, for one cut that works and three that do not.
\<close>

section \<open>Receiving a response\<close>

lemma set_response_fields_headers:
  "r_headers (set_response_fields fs r) = foldl (\<lambda>m f. om_put CompareNoCase (fst f) (snd f) m) (r_headers r) fs"
  by (induction fs arbitrary: r) (auto simp: set_response_fields_def response_setHeader_def split: prod.splits)

lemma set_response_fields_other: "r_body (set_response_fields fs r) = r_body r" "r_status (set_response_fields fs r) = r_status r"
  by (induction fs arbitrary: r) (auto simp: set_response_fields_def response_setHeader_def split: prod.splits)

definition no_length_headers :: "HttpMap \<Rightarrow> bool" where
  "no_length_headers hs \<longleftrightarrow> list_all (\<lambda>f. \<not> casecmp_eq ''content-length'' (fst f)) hs"

lemma response_length:
  assumes "no_length_headers (r_headers p)" "cast (dec (length (r_body p))) = Some (of_nat (length (r_body p)))" "cp_data cp = parsed_response p"
  shows "HttpResponseParser_getContentLength cast cp = of_nat (length (r_body p))"
proof -
  have self: "\<not> casecmp_eq ''content-length'' ''connection''" by code_simp
  have o: "\<forall>f \<in> set (sent_headers (r_headers p) @ [connection_field (r_close p)]). \<not> casecmp_eq ''content-length'' (fst f)"
    using assms(1) self by (auto simp: connection_field_def no_length_headers_def sent_headers_def list_all_iff)
  have "response_fields p = (sent_headers (r_headers p) @ [connection_field (r_close p)]) @ length_field (r_body p)"
    by (simp add: response_fields_def)
  then show ?thesis using length_of_fields [OF o, of "r_body p"] assms(2,3)
    by (simp add: HttpResponseParser_getContentLength_def getAs_def parsed_response_def set_response_fields_headers new_HttpResponse_def)
qed

lemma response_head_whole:
  assumes "response_ok p" "stream_isConnected (ss_stream s)" "ss_in s = Some (response_head p @ b0) # ns"
    "length (response_head p @ b0) \<le> B" "B < 2 ^ 31"
  shows "\<exists>rp. response_head_loop B [] (new_HttpResponseParser i0) s = Inr (Some (b0, rp), s\<lparr>ss_in := ns\<rparr>) \<and> cp_data rp = parsed_response p
    \<and> cp_chunked rp = (te_field \<in> set (r_headers p)) \<and> cp_error rp = 0"
proof -
  define b where "b = response_head p @ b0"
  have l: "length b < 2 ^ 31" "length b \<le> B" using assms(4,5) by (simp_all add: b_def)
  have h0: "0 < length (response_head p)" by (simp add: response_head_def crlf_def)
  have rd: "peer_read B s = (int (length b), b, s\<lparr>ss_in := ns\<rparr>)"
    using assms(2,3) l by (intro peer_read_piece) (simp_all add: b_def)
  obtain st where st: "HttpResponseParser_execute b False (new_HttpResponseParser i0) = Inr (length (response_head p), b0, st)"
    "HttpResponseParser_isFinished st = 1" "\<not> HttpResponseParser_hasError st" "cp_data st = parsed_response p"
    "cp_chunked st = (te_field \<in> set (r_headers p))" "cp_error st = 0"
    using response_parse_run [OF assms(1) b_def l(1), of i0] by blast
  have "0 < length b" "length b0 \<noteq> B" using h0 l(2) by (auto simp: b_def simp del: length_greater_0_conv)
  then show ?thesis using rd st by (subst response_head_loop.simps) simp
qed

lemma recvResponse_pieces:
  assumes "response_ok p" "te_field \<notin> set (r_headers p)" "no_length_headers (r_headers p)"
    "cast (dec (length (r_body p))) = Some (of_nat (length (r_body p)))"
    "stream_isConnected (ss_stream s)" "r_body p = b0 @ concat ps" "[] \<notin> set ps"
    "ss_in s = Some (response_head p @ b0) # map Some ps @ ns"
    "length (response_head p @ b0) \<le> B" "B < 2 ^ 31" "length (r_body p) < 2 ^ 31" "length (r_body p) \<le> fuel"
  shows "recvResponse fuel B cast (new_HttpResponseParser i0) s =
    Inr (Some (Some ((parsed_response p)\<lparr>r_body := r_body p\<rparr>)), s\<lparr>ss_in := ns\<rparr>)"
proof -
  define n where "n = length (r_body p)"
  define s1 where "s1 = s\<lparr>ss_in := map Some ps @ ns\<rparr>"
  obtain rp where rp: "response_head_loop B [] (new_HttpResponseParser i0) s = Inr (Some (b0, rp), s1)" "cp_data rp = parsed_response p"
    "\<not> cp_chunked rp"
    using response_head_whole [OF assms(1,5,8,9,10), of i0] assms(2) unfolding s1_def by blast
  have len: "sint (HttpResponseParser_getContentLength cast rp) = int n"
    using response_length [of p cast rp, OF assms(3,4) rp(2)] assms(11) by (simp add: n_def signed_of_nat signed_take_bit_int_eq_self)
  show ?thesis
  proof (cases "n = 0")
    case True
    then have e: "r_body p = []" "ps = []" using assms(6,7) by (simp_all add: n_def) (cases ps; auto)
    have "r_body (parsed_response p) = []" by (simp add: parsed_response_def set_response_fields_other new_HttpResponse_def)
    then have "(parsed_response p)\<lparr>r_body := []\<rparr> = parsed_response p" by (intro HttpResponse.equality) simp_all
    then show ?thesis using rp len True e by (simp add: recvResponse_def s1_def)
  next
    case False
    have "recv_body fuel (int n) b0 s1 = Inr (Some (Some (r_body p)), s\<lparr>ss_in := ns\<rparr>)"
      using recv_body_pieces [of s1 ps ns "r_body p" b0 fuel] assms(5,6,7,11,12) by (simp add: n_def s1_def)
    then show ?thesis using rp len False by (simp add: recvResponse_def)
  qed
qed

lemma exchange_whole:
  assumes "stream_isConnected (ss_stream s)" "\<forall>k \<in> set (ss_script s). 0 < k" "length (dump_request req) < 2 ^ 31"
    "length (dump_request req) \<le> ce_fuel env" "ce_parser env = new_HttpResponseParser i0"
    and p: "response_ok p" "te_field \<notin> set (r_headers p)" "no_length_headers (r_headers p)"
    "ce_cast env (dec (length (r_body p))) = Some (of_nat (length (r_body p)))"
    "r_body p = b0 @ concat ps" "[] \<notin> set ps" "ss_in s = Some (response_head p @ b0) # map Some ps @ ns"
    "length (response_head p @ b0) \<le> ce_buffer env" "ce_buffer env < 2 ^ 31" "length (r_body p) < 2 ^ 31" "length (r_body p) \<le> ce_fuel env"
  shows "\<exists>rest. exchange env peer timeout_ms req s =
    Inr (Some (make_result OK (Some ((parsed_response p)\<lparr>r_body := r_body p\<rparr>)) ''ok''),
      s\<lparr>ss_in := ns, ss_script := rest, ss_sent := ss_sent s @ dump_request req\<rparr>)"
proof -
  obtain rest where w: "sendRequest (ce_fuel env) req s = Inr (Some (int (length (dump_request req))),
      s\<lparr>ss_script := rest, ss_sent := ss_sent s @ dump_request req\<rparr>)"
    using send_text [OF assms(1-4)] by (auto simp: sendRequest_def Let_def)
  define s1 where "s1 = s\<lparr>ss_script := rest, ss_sent := ss_sent s @ dump_request req\<rparr>"
  have r: "recvResponse (ce_fuel env) (ce_buffer env) (ce_cast env) (ce_parser env) s1 =
    Inr (Some (Some ((parsed_response p)\<lparr>r_body := r_body p\<rparr>)), s1\<lparr>ss_in := ns\<rparr>)"
    unfolding assms(5) by (rule recvResponse_pieces) (use p assms(1) in \<open>simp_all add: s1_def\<close>)
  have "0 < length (dump_request req)" by (simp add: dump_request_def request_line_def)
  then show ?thesis using w r
    by (intro exI [of _ rest]) (simp add: exchange_def s1_def)
qed

section \<open>Chunks\<close>

text \<open>A chunk is its size line and its data.\<close>

definition size_ok :: "string \<Rightarrow> nat \<Rightarrow> bool" where
  "size_ok sz n \<longleftrightarrow> sz \<noteq> [] \<and> list_all (base_digit 16) sz \<and> digits_val 16 sz = n \<and> n < 2 ^ 31"

definition chunk_text :: "string \<times> string \<Rightarrow> string" where
  "chunk_text c = fst c @ crlf @ snd c @ crlf"

lemma chunk_size_read:
  assumes "size_ok sz n" "cp_error cp = 0" "stream_isConnected (ss_stream s)" "ss_in s = Some (sz @ crlf @ rest) # ns"
    "length (sz @ crlf @ rest) \<le> B" "B < 2 ^ 31"
  shows "\<exists>cp1. chunk_size_loop B [] cp s = Inr (Some (rest, cp1), s\<lparr>ss_in := ns\<rparr>) \<and> cp_data cp1 = cp_data cp \<and> cp_content_len cp1 = int n
    \<and> cp_chunks_done cp1 = (n = 0) \<and> cp_error cp1 = 0"
proof -
  define b where "b = sz @ crlf @ rest"
  have l: "length b < 2 ^ 31" "length b \<le> B" using assms(5,6) by (simp_all add: b_def)
  have z: "sz \<noteq> []" "list_all (base_digit 16) sz" "digits_val 16 sz = n" "n < 2 ^ 31" using assms(1) by (simp_all add: size_ok_def)
  have rd: "peer_read B s = (int (length b), b, s\<lparr>ss_in := ns\<rparr>)"
    using assms(3,4) l by (intro peer_read_piece) (simp_all add: b_def)
  obtain st where st: "HttpResponseParser_execute b True cp = Inr (length sz + 2, rest, st)"
    "HttpResponseParser_isFinished st = 1" "\<not> HttpResponseParser_hasError st" "cp_data st = cp_data cp"
    "cp_content_len st = int n" "cp_chunks_done st = (n = 0)" "cp_error st = 0"
    using chunk_line_run [OF z(1,2) _ b_def l(1) assms(2)] z(3,4) by auto
  have "0 < length b" "length rest \<noteq> B" using l(2) by (auto simp: b_def crlf_def)
  then show ?thesis using rd st by (subst chunk_size_loop.simps) simp
qed

lemma chunk_loop_pieces:
  "\<forall>c \<in> set cs. size_ok (fst c) (length (snd c)) \<and> snd c \<noteq> [] \<and> length (chunk_text c) \<le> B \<Longrightarrow> size_ok z 0 \<Longrightarrow> length z + 4 \<le> B \<Longrightarrow> B < 2 ^ 31 \<Longrightarrow>
   stream_isConnected (ss_stream s) \<Longrightarrow> ss_in s = map (\<lambda>c. Some (chunk_text c)) cs @ Some (z @ crlf @ crlf) # ns \<Longrightarrow> cp_error cp = 0 \<Longrightarrow>
   \<exists>cp1. chunk_loop B cp [] body s = Inr (Some (body @ concat (map snd cs), cp1), s\<lparr>ss_in := ns\<rparr>) \<and> cp_data cp1 = cp_data cp"
proof (induction cs arbitrary: cp body s)
  case Nil
  then have i: "ss_in s = Some (z @ crlf @ crlf) # ns" by simp
  have l: "length (z @ crlf @ crlf) \<le> B" using Nil.prems(3) by (simp add: crlf_def)
  obtain cp1 where 1: "chunk_size_loop B [] cp s = Inr (Some (crlf, cp1), s\<lparr>ss_in := ns\<rparr>)" "cp_data cp1 = cp_data cp"
    "cp_content_len cp1 = int 0" "cp_chunks_done cp1 = (0 = (0 :: nat))"
    using chunk_size_read [OF Nil.prems(2,7,5) i l Nil.prems(4)] by auto
  have "chunk_data B cp1 crlf body (s\<lparr>ss_in := ns\<rparr>) = Inr (Some (body, []), s\<lparr>ss_in := ns\<rparr>)"
    using 1(3) by (simp add: chunk_data_def crlf_def)
  then show ?case using 1 by (subst chunk_loop.simps) simp
next
  case (Cons c cs)
  obtain sz d where c: "c = (sz, d)" by (cases c)
  define ns1 where "ns1 = map (\<lambda>c. Some (chunk_text c)) cs @ Some (z @ crlf @ crlf) # ns"
  have i: "ss_in s = Some (sz @ crlf @ d @ crlf) # ns1" using Cons.prems(6) by (simp add: c chunk_text_def ns1_def)
  have ok: "size_ok sz (length d)" "d \<noteq> []" "length (sz @ crlf @ d @ crlf) \<le> B" using Cons.prems(1) by (simp_all add: c chunk_text_def)
  obtain cp1 where 1: "chunk_size_loop B [] cp s = Inr (Some (d @ crlf, cp1), s\<lparr>ss_in := ns1\<rparr>)" "cp_data cp1 = cp_data cp"
    "cp_content_len cp1 = int (length d)" "cp_chunks_done cp1 = (length d = 0)" "cp_error cp1 = 0"
    using chunk_size_read [OF ok(1) Cons.prems(7,5) i ok(3) Cons.prems(4)] by blast
  have 2: "chunk_data B cp1 (d @ crlf) body (s\<lparr>ss_in := ns1\<rparr>) = Inr (Some (body @ d, []), s\<lparr>ss_in := ns1\<rparr>)"
    using 1(3) by (simp add: chunk_data_def crlf_def)
  obtain cp2 where 3: "chunk_loop B cp1 [] (body @ d) (s\<lparr>ss_in := ns1\<rparr>) =
      Inr (Some ((body @ d) @ concat (map snd cs), cp2), s\<lparr>ss_in := ns1\<rparr>\<lparr>ss_in := ns\<rparr>)" "cp_data cp2 = cp_data cp1"
    using Cons.IH [of "s\<lparr>ss_in := ns1\<rparr>" cp1 "body @ d"] Cons.prems(1-5) 1(5) by (auto simp: ns1_def)
  show ?case using 1 2 3 ok(2) by (subst chunk_loop.simps) (simp add: c)
qed

text \<open>The head of a chunked response, and what the loop for the chunks starts with.\<close>

lemma recvResponse_chunked:
  assumes "response_ok p" "te_field \<in> set (r_headers p)" "stream_isConnected (ss_stream s)"
    "ss_in s = Some (response_head p @ b0) # ns" "length (response_head p @ b0) \<le> B" "B < 2 ^ 31"
  shows "\<exists>rp. cp_data rp = parsed_response p \<and> cp_error rp = 0 \<and>
    recvResponse fuel B cast (new_HttpResponseParser i0) s =
      bind_res (chunk_loop B rp b0 [] (s\<lparr>ss_in := ns\<rparr>)) (\<lambda>(b, s2).
        case b of
          None \<Rightarrow> Inr (Some None, s2)
        | Some (body, rp1) \<Rightarrow> Inr (Some (Some ((cp_data rp1)\<lparr>r_body := body\<rparr>)), s2))"
proof -
  obtain rp where rp: "response_head_loop B [] (new_HttpResponseParser i0) s = Inr (Some (b0, rp), s\<lparr>ss_in := ns\<rparr>)"
    "cp_data rp = parsed_response p" "cp_chunked rp" "cp_error rp = 0"
    using response_head_whole [OF assms(1,3-6), of i0] assms(2) by blast
  show ?thesis by (intro exI [of _ rp]) (simp add: recvResponse_def rp)
qed

text \<open>
  C12. A chunked response is put together completely when its head and each chunk, with its size line and
  its line end, arrive in a piece of their own: the body is the data of the chunks in order, for any
  number of chunks, and nothing behind the last chunk is taken.
\<close>

theorem chunked_spec:
  assumes "response_ok p" "te_field \<in> set (r_headers p)" "stream_isConnected (ss_stream s)"
    "ss_in s = Some (response_head p) # map (\<lambda>c. Some (chunk_text c)) cs @ Some (z @ crlf @ crlf) # ns"
    "\<forall>c \<in> set cs. size_ok (fst c) (length (snd c)) \<and> snd c \<noteq> [] \<and> length (chunk_text c) \<le> B" "size_ok z 0" "length z + 4 \<le> B"
    "length (response_head p) \<le> B" "B < 2 ^ 31"
  shows "recvResponse fuel B cast (new_HttpResponseParser i0) s =
    Inr (Some (Some ((parsed_response p)\<lparr>r_body := concat (map snd cs)\<rparr>)), s\<lparr>ss_in := ns\<rparr>)"
proof -
  define ns1 where "ns1 = map (\<lambda>c. Some (chunk_text c)) cs @ Some (z @ crlf @ crlf) # ns"
  have i: "ss_in s = Some (response_head p @ []) # ns1" "length (response_head p @ []) \<le> B" using assms(4,8) by (simp_all add: ns1_def)
  obtain rp where rp: "cp_data rp = parsed_response p" "cp_error rp = 0"
    "recvResponse fuel B cast (new_HttpResponseParser i0) s =
      bind_res (chunk_loop B rp [] [] (s\<lparr>ss_in := ns1\<rparr>)) (\<lambda>(b, s2).
        case b of None \<Rightarrow> Inr (Some None, s2) | Some (body, rp1) \<Rightarrow> Inr (Some (Some ((cp_data rp1)\<lparr>r_body := body\<rparr>)), s2))"
    using recvResponse_chunked [OF assms(1-3) i assms(9)] by blast
  obtain cp1 where "chunk_loop B rp [] [] (s\<lparr>ss_in := ns1\<rparr>) = Inr (Some ([] @ concat (map snd cs), cp1), s\<lparr>ss_in := ns1\<rparr>\<lparr>ss_in := ns\<rparr>)"
    "cp_data cp1 = cp_data rp"
    using chunk_loop_pieces [of cs B z "s\<lparr>ss_in := ns1\<rparr>" ns rp "[]"] assms(3,5,6,7,9) rp(2) by (auto simp: ns1_def)
  then show ?thesis using rp by simp
qed

lemma chunk_cut:
  assumes "cp_content_len cp = int (length d)" "2 \<le> m" "m \<le> length d" "stream_isConnected (ss_stream s)"
    "ss_in s = Some (drop m d @ crlf) # ns" "length d < B" "B < 2 ^ 31"
  shows "chunk_data B cp (take m d) body s = Inr (Some (body @ take (m - 2) d @ drop m d @ crlf, []), s\<lparr>ss_in := ns\<rparr>)"
proof -
  define q where "q = drop m d @ crlf"
  define l where "l = length d - m + 2"
  have lq: "length q = l" using assms(3) by (simp add: q_def l_def crlf_def)
  have left: "int (length d) - (int m - 2) = int l" using assms(2,3) by (simp add: l_def of_nat_diff)
  have lb: "l \<le> B" using assms(2,3,6) by (simp add: l_def)
  then have n: "(if int B < int l then B else nat (int l)) = l" by simp
  have "peer_read l s = (int l, q, s\<lparr>ss_in := ns\<rparr>)"
    using peer_read_piece [OF assms(4) assms(5) [folded q_def], of l] lq lb assms(7) by simp
  moreover have "0 < l" by (simp add: l_def)
  moreover have "chunk_rest B 0 bd s2 = (Some bd, s2)" for bd s2 by (subst chunk_rest.simps) simp
  ultimately have r: "chunk_rest B (int l) bd s = (Some (bd @ q), s\<lparr>ss_in := ns\<rparr>)" for bd
    using lb by (subst chunk_rest.simps) (simp add: leD)
  have c: "\<not> int (length d) \<le> int m - 2" "\<not> int m - 2 < 0" "nat (int m - 2) = m - 2" using assms(2,3) by simp_all
  have "length (take m d) = m" "take (m - 2) (take m d) = take (m - 2) d" using assms(3) by (simp_all add: min_def)
  then show ?thesis using r c left by (simp add: chunk_data_def Let_def assms(1) q_def)
qed

lemma chunk_split_run:
  assumes "response_ok p" "te_field \<in> set (r_headers p)" "stream_isConnected (ss_stream s)" "size_ok sz (length d)" "size_ok z 0"
    "length (response_head p @ chunk_text (sz, d)) \<le> B" "length z + 4 \<le> B" "B < 2 ^ 31" "2 \<le> m" "m \<le> length d"
    and i: "ss_in s = [Some (response_head p), Some (sz @ crlf @ take m d), Some (drop m d @ crlf), Some (z @ crlf @ crlf)]"
  shows "recvResponse fuel B cast (new_HttpResponseParser i0) s =
    Inr (Some (Some ((parsed_response p)\<lparr>r_body := take (m - 2) d @ drop m d @ crlf\<rparr>)), s\<lparr>ss_in := []\<rparr>)"
proof -
  have hl: "length (response_head p @ []) \<le> B" "length (sz @ crlf) \<le> B" "length (sz @ crlf @ take m d) \<le> B" "length d < B"
    using assms(6) by (simp_all add: chunk_text_def crlf_def)
  define ns2 where "ns2 = [Some (drop m d @ crlf), Some (z @ crlf @ crlf)]"
  define ns1 where "ns1 = Some (sz @ crlf @ take m d) # ns2"
  have i1: "ss_in s = Some (response_head p @ []) # ns1" using i by (simp add: ns1_def ns2_def)
  obtain rp where rp: "cp_data rp = parsed_response p" "cp_error rp = 0"
    "recvResponse fuel B cast (new_HttpResponseParser i0) s =
      bind_res (chunk_loop B rp [] [] (s\<lparr>ss_in := ns1\<rparr>)) (\<lambda>(b, s2).
        case b of None \<Rightarrow> Inr (Some None, s2) | Some (body, rp1) \<Rightarrow> Inr (Some (Some ((cp_data rp1)\<lparr>r_body := body\<rparr>)), s2))"
    using recvResponse_chunked [OF assms(1-3) i1 hl(1) assms(8)] by blast
  obtain cp1 where 1: "chunk_size_loop B [] rp (s\<lparr>ss_in := ns1\<rparr>) = Inr (Some (take m d, cp1), s\<lparr>ss_in := ns2\<rparr>)"
    "cp_data cp1 = cp_data rp" "cp_content_len cp1 = int (length d)" "cp_chunks_done cp1 = (length d = 0)" "cp_error cp1 = 0"
    using chunk_size_read [OF assms(4) rp(2) _ _ hl(3) assms(8), of "s\<lparr>ss_in := ns1\<rparr>" ns2] assms(3) by (auto simp: ns1_def)
  have 2: "chunk_data B cp1 (take m d) [] (s\<lparr>ss_in := ns2\<rparr>) =
      Inr (Some (take (m - 2) d @ drop m d @ crlf, []), s\<lparr>ss_in := [Some (z @ crlf @ crlf)]\<rparr>)"
    using chunk_cut [OF 1(3) assms(9,10), of "s\<lparr>ss_in := ns2\<rparr>" "[Some (z @ crlf @ crlf)]" B "[]"] assms(3,8) hl(4) by (simp add: ns2_def)
  obtain cp2 where 3: "chunk_loop B cp1 [] (take (m - 2) d @ drop m d @ crlf) (s\<lparr>ss_in := [Some (z @ crlf @ crlf)]\<rparr>) =
      Inr (Some (take (m - 2) d @ drop m d @ crlf, cp2), s\<lparr>ss_in := []\<rparr>)" "cp_data cp2 = cp_data cp1"
    using chunk_loop_pieces [of "[]" B z "s\<lparr>ss_in := [Some (z @ crlf @ crlf)]\<rparr>" "[]" cp1 "take (m - 2) d @ drop m d @ crlf"]
      assms(3,5,7,8) 1(5) by auto
  have "\<not> cp_chunks_done cp1" using 1(4) assms(9,10) by auto
  then have "chunk_loop B rp [] [] (s\<lparr>ss_in := ns1\<rparr>) = Inr (Some (take (m - 2) d @ drop m d @ crlf, cp2), s\<lparr>ss_in := []\<rparr>)"
    using 1(1) 2 3(1) by (subst chunk_loop.simps) simp
  then show ?thesis
    using rp(1,3) 1(2) 3(2) by simp
qed

lemma size_line_alone_run:
  assumes "response_ok p" "te_field \<in> set (r_headers p)" "stream_isConnected (ss_stream s)" "size_ok sz (length d)" "size_ok z 0"
    "length (response_head p @ chunk_text (sz, d)) \<le> B" "length z + 4 \<le> B" "B < 2 ^ 31" "2 \<le> m" "m \<le> length d"
    and i: "ss_in s = Some (response_head p) # Some (sz @ crlf) # ns"
  shows "recvResponse fuel B cast (new_HttpResponseParser i0) s = Inl LengthError"
proof -
  have hl: "length (response_head p @ []) \<le> B" "length (sz @ crlf) \<le> B" "length (sz @ crlf @ take m d) \<le> B" "length d < B"
    using assms(6) by (simp_all add: chunk_text_def crlf_def)
  have i1: "ss_in s = Some (response_head p @ []) # Some (sz @ crlf) # ns" using i by simp
  obtain rp where rp: "cp_error rp = 0"
    "recvResponse fuel B cast (new_HttpResponseParser i0) s =
      bind_res (chunk_loop B rp [] [] (s\<lparr>ss_in := Some (sz @ crlf) # ns\<rparr>)) (\<lambda>(b, s2).
        case b of None \<Rightarrow> Inr (Some None, s2) | Some (body, rp1) \<Rightarrow> Inr (Some (Some ((cp_data rp1)\<lparr>r_body := body\<rparr>)), s2))"
    using recvResponse_chunked [OF assms(1-3) i1 hl(1) assms(8)] by blast
  obtain cp1 where 1: "chunk_size_loop B [] rp (s\<lparr>ss_in := Some (sz @ crlf) # ns\<rparr>) = Inr (Some ([], cp1), s\<lparr>ss_in := ns\<rparr>)"
    "cp_content_len cp1 = int (length d)"
    using chunk_size_read [OF assms(4) rp(1), of "s\<lparr>ss_in := Some (sz @ crlf) # ns\<rparr>" "[]" ns B] assms(3,8) hl(2) by auto
  have "chunk_data B cp1 [] [] s2 = Inl LengthError" for s2 by (simp add: chunk_data_def 1(2))
  then show ?thesis
    using 1(1) rp(2) by (subst (asm) chunk_loop.simps) simp
qed

lemma one_piece_run:
  assumes "response_ok p" "te_field \<in> set (r_headers p)" "stream_isConnected (ss_stream s)"
    "length (response_head p @ cs) \<le> B" "B < 2 ^ 31"
    and i: "ss_in s = Some (response_head p @ cs) # ns" and ns: "ns = [] \<or> hd ns = None"
  shows "\<exists>s1. recvResponse fuel B cast (new_HttpResponseParser i0) s = Inr (Some None, s1)"
proof -
  obtain rp where rp: "recvResponse fuel B cast (new_HttpResponseParser i0) s =
      bind_res (chunk_loop B rp cs [] (s\<lparr>ss_in := ns\<rparr>)) (\<lambda>(b, s2).
        case b of None \<Rightarrow> Inr (Some None, s2) | Some (body, rp1) \<Rightarrow> Inr (Some (Some ((cp_data rp1)\<lparr>r_body := body\<rparr>)), s2))"
    using recvResponse_chunked [OF assms(1-3) i assms(4,5)] by blast
  obtain rt bytes s2 where rd: "peer_read (B - length cs) (s\<lparr>ss_in := ns\<rparr>) = (rt, bytes, s2)" "rt \<le> 0"
    using ns assms(3) by (cases ns) (auto simp: peer_read_def connected_read to_i32_def)
  have "chunk_size_loop B cs rp (s\<lparr>ss_in := ns\<rparr>) = Inr (None, session_close s2)"
    using rd by (subst chunk_size_loop.simps) simp
  then have "chunk_loop B rp cs [] (s\<lparr>ss_in := ns\<rparr>) = Inr (None, session_close s2)"
    by (subst chunk_loop.simps) simp
  then show ?thesis using rp by simp
qed

text \<open>
  C13. The same response with other cuts is damaged. A chunk whose data arrives in two pieces loses two
  bytes at the cut and gets the line end instead; a size line that arrives alone throws
  \<open>std::length_error\<close>; and a response that arrives in one piece is not recognised as complete: the
  loop reads before it looks at what it has, so the end of the connection or a timeout makes it fail.
\<close>

theorem chunk_cuts_damage:
  assumes "response_ok p" "te_field \<in> set (r_headers p)" "stream_isConnected (ss_stream s)" "size_ok sz (length d)" "size_ok z 0"
    "length (response_head p @ chunk_text (sz, d) @ z @ crlf @ crlf) \<le> B" "B < 2 ^ 31" "2 \<le> m" "m \<le> length d"
  shows "(ss_in s = [Some (response_head p), Some (sz @ crlf @ take m d), Some (drop m d @ crlf), Some (z @ crlf @ crlf)] \<longrightarrow>
      recvResponse fuel B cast (new_HttpResponseParser i0) s =
        Inr (Some (Some ((parsed_response p)\<lparr>r_body := take (m - 2) d @ drop m d @ crlf\<rparr>)), s\<lparr>ss_in := []\<rparr>))
    \<and> (ss_in s = Some (response_head p) # Some (sz @ crlf) # ns \<longrightarrow>
      recvResponse fuel B cast (new_HttpResponseParser i0) s = Inl LengthError)
    \<and> (ss_in s = Some (response_head p @ chunk_text (sz, d) @ z @ crlf @ crlf) # ns \<and> (ns = [] \<or> hd ns = None) \<longrightarrow>
      (\<exists>s1. recvResponse fuel B cast (new_HttpResponseParser i0) s = Inr (Some None, s1)))"
proof -
  have l: "length (response_head p @ chunk_text (sz, d)) \<le> B" "length z + 4 \<le> B" using assms(6) by (simp_all add: crlf_def)
  show ?thesis
    using chunk_split_run [OF assms(1-5) l assms(7-9)] size_line_alone_run [OF assms(1-5) l assms(7-9)] one_piece_run [OF assms(1-3,6,7)]
    by blast
qed

section \<open>Samples\<close>

definition sample_chunked :: HttpResponse where
  "sample_chunked = (new_HttpResponse 0x11 True)\<lparr>r_headers := [te_field]\<rparr>"

definition sample_plain :: HttpResponse where
  "sample_plain = new_HttpResponse 0x11 True"

lemma sample_responses:
  "response_ok sample_chunked" "te_field \<in> set (r_headers sample_chunked)" "length (response_head sample_chunked) = 66"
  "response_ok sample_plain" "r_headers sample_plain = []" "r_body sample_plain = []" "length (response_head sample_plain) = 38"
proof -
  have v: "version_str 17 = ''1.1''" using version_text [of 17] by simp
  have d: "dec 200 = ''200''" by (simp add: dec_def num_str.simps digit_def char_of_def bit_Suc_0_iff)
  show "response_ok sample_chunked" "response_ok sample_plain"
    by (simp_all add: sample_chunked_def sample_plain_def response_ok_def new_HttpResponse_def replyable_def te_field_def casecmp_eq_def
        lower_def token_char_def value_char_def value_start_def schar_def)
  show "te_field \<in> set (r_headers sample_chunked)" "r_headers sample_plain = []" "r_body sample_plain = []"
    by (simp_all add: sample_chunked_def sample_plain_def new_HttpResponse_def)
  show "length (response_head sample_chunked) = 66" "length (response_head sample_plain) = 38"
    by (simp_all add: sample_chunked_def sample_plain_def response_head_def status_line_def new_HttpResponse_def response_fields_def
        connection_field_def sent_headers_def length_field_def field_line_def crlf_def v d HttpStatusToString_def HTTP_STATUS_MAP_def
        casecmp_eq_def lower_def te_field_def)
qed

lemma sample_sizes: "size_ok ''2'' (Suc (Suc 0))" "size_ok ''0'' 0"
  by (simp_all add: size_ok_def base_digit_def digits_val_def digit_of_def ch_in_def)

theorem chunked_spec_witness:
  "recvResponse 0 100 (\<lambda>_. None) (new_HttpResponseParser 0) (sample_session
     [Some (response_head sample_chunked), Some (''2'' @ crlf @ ''ab'' @ crlf), Some (''0'' @ crlf @ crlf)]) =
   Inr (Some (Some ((parsed_response sample_chunked)\<lparr>r_body := ''ab''\<rparr>)), sample_session [])"
  using chunked_spec [of sample_chunked "sample_session
     [Some (response_head sample_chunked), Some (''2'' @ crlf @ ''ab'' @ crlf), Some (''0'' @ crlf @ crlf)]" "[(''2'', ''ab'')]"
     "''0''" "[]" 100 0 "\<lambda>_. None" 0] sample_responses sample_sizes sample_facts(5)
  by (simp add: sample_session_def chunk_text_def crlf_def)

theorem chunk_cuts_damage_witness:
  "recvResponse 0 100 (\<lambda>_. None) (new_HttpResponseParser 0) (sample_session
     [Some (response_head sample_chunked), Some (''2'' @ crlf @ ''ab''), Some crlf, Some (''0'' @ crlf @ crlf)]) =
   Inr (Some (Some ((parsed_response sample_chunked)\<lparr>r_body := crlf\<rparr>)), sample_session [])"
  using chunk_cuts_damage [of sample_chunked "sample_session
     [Some (response_head sample_chunked), Some (''2'' @ crlf @ ''ab''), Some crlf, Some (''0'' @ crlf @ crlf)]" "''2''" "''ab''"
     "''0''" 100 2 0 "\<lambda>_. None" 0 "[]"] sample_responses sample_sizes sample_facts(5)
  by (simp add: sample_session_def chunk_text_def crlf_def)

theorem send_error_unreachable_witness:
  "(\<exists>res s1. exchange ((sample_env 0)\<lparr>ce_cast := sample_cast, ce_fuel := 200\<rparr>) [] 5 sample_request
     (sample_session [Some (response_head sample_plain)]) = Inr (Some res, s1) \<and> res_result res = 0 \<and> res_response res \<noteq> None)
   \<and> (\<exists>s1. exchange ((sample_env 0)\<lparr>ce_cast := sample_cast, ce_fuel := 200\<rparr>) [] 5 sample_request
     ((sample_session [])\<lparr>ss_script := 3 # replicate 199 (- 1)\<rparr>) = Inr (None, s1) \<and> ss_sent s1 = take 3 (dump_request sample_request))"
proof -
  let ?env = "(sample_env 0)\<lparr>ce_cast := sample_cast, ce_fuel := 200\<rparr>"
  let ?s = "sample_session [Some (response_head sample_plain)]"
  let ?t = "(sample_session [])\<lparr>ss_script := 3 # replicate 199 (- 1)\<rparr>"
  have d: "length (dump_request sample_request) \<le> 200" using sample_facts(3,4) by (simp add: dump_request_head)
  have z: "dec 0 = ''0''" by (simp add: dec_def num_str.simps digit_def char_of_def bit_Suc_0_iff)
  then have c: "sample_cast (dec 0) = Some 0" unfolding z by (simp add: sample_cast_def digits_val_def digit_of_def ch_in_def)
  obtain s1 where x: "exchange ?env [] 5 sample_request ?s =
      Inr (Some (make_result OK (Some ((parsed_response sample_plain)\<lparr>r_body := r_body sample_plain\<rparr>)) ''ok''), s1)"
    using exchange_whole [of ?s sample_request ?env 0 sample_plain "[]" "[]" "[]" "[]" 5] d c sample_responses(4-7) sample_facts(5)
    by (auto simp: sample_session_def sample_env_def no_length_headers_def)
  have l: "length (dump_request sample_request) < 2 ^ 31" using d by simp
  have f: "length (dump_request sample_request) + ce_fuel ?env < 2 ^ 64" using d by simp
  note spec = send_error_unreachable [OF l, of ?env "[]" 5]
  have "3 < int (length (dump_request sample_request))" by (simp add: dump_request_def crlf_def request_line_def sample_request_def)
  then have "\<exists>s1. exchange ?env [] 5 sample_request ?t = Inr (None, s1)
      \<and> ss_sent s1 = ss_sent ?t @ take (nat (sum_list [3])) (dump_request sample_request)"
    using conjunct1 [OF mp [OF conjunct2 [OF spec [of ?t]] f], rule_format, of "[3]" "replicate 199 (- 1)"] sample_facts(5)
    by (simp add: sample_session_def)
  moreover have "ss_sent ?t = []" by (simp add: sample_session_def)
  ultimately have "\<exists>s1. exchange ?env [] 5 sample_request ?t = Inr (None, s1) \<and> ss_sent s1 = take 3 (dump_request sample_request)" by simp
  then show ?thesis using x conjunct1 [OF spec [of ?s]] by (auto simp: make_result_def)
qed

end
