(* ===== verification/Config_Vars.thy ===== *)
theory Config_Vars
  imports C_Strings
begin

text \<open>
  The configuration of \<open>config/config.h\<close> and \<open>config.cpp\<close>: the casts of containers from and to YAML texts, the variables with
  their listeners, the registry, and loading a tree of settings. The YAML library is an argument, a
  record of its operations. The lemmas show the round trip of the casts, when listeners are called, what a
  lookup returns, and which variables a loaded tree sets.
\<close>

section \<open>The YAML library\<close>

text \<open>
  The operations of yaml-cpp that the code calls are arguments: loading a text, which may throw,
  writing a node to a stream, building nodes, and reading their members.
\<close>

record 'n yaml_api =
  ya_load :: "string \<Rightarrow> string + 'n"
  ya_emit :: "'n \<Rightarrow> string"
  ya_null :: 'n
  ya_string :: "string \<Rightarrow> 'n"
  ya_set :: "string \<Rightarrow> 'n \<Rightarrow> 'n \<Rightarrow> 'n"
  ya_push :: "'n \<Rightarrow> 'n \<Rightarrow> 'n"
  ya_size :: "'n \<Rightarrow> nat"
  ya_at :: "'n \<Rightarrow> nat \<Rightarrow> 'n"
  ya_get :: "'n \<Rightarrow> string \<Rightarrow> 'n option"
  ya_members :: "'n \<Rightarrow> ('n \<times> 'n) list"
  ya_is_map :: "'n \<Rightarrow> bool"
  ya_is_scalar :: "'n \<Rightarrow> bool"
  ya_scalar :: "'n \<Rightarrow> string"
  ya_as_string :: "'n \<Rightarrow> string + string"

definition yaml_items :: "'n yaml_api \<Rightarrow> 'n \<Rightarrow> 'n list" where
  "yaml_items api n = map (ya_at api n) [0..<ya_size api n]"

text \<open>A loop that converts one element after the other and stops at the first exception.\<close>

fun traverse :: "('a \<Rightarrow> 'e + 'b) \<Rightarrow> 'a list \<Rightarrow> 'e + 'b list" where
  "traverse f [] = Inr []"
| "traverse f (x # xs) = bind_res (f x) (\<lambda>y. bind_res (traverse f xs) (\<lambda>ys. Inr (y # ys)))"

lemma traverse_map: "\<forall>x \<in> set xs. f x = Inr (g x) \<Longrightarrow> traverse f xs = Inr (map g xs)"
  by (induction xs) simp_all

section \<open>ConfigCast\<close>

text \<open>The common part of the casts of sequences; \<open>elem\<close> is the cast of the elements.\<close>

definition seq_from :: "'n yaml_api \<Rightarrow> (string \<Rightarrow> string + 'a) \<Rightarrow> string \<Rightarrow> string + 'a list" where
  "seq_from api elem v =
     bind_res (ya_load api v) (\<lambda>node. traverse (\<lambda>n. elem (ya_emit api n)) (yaml_items api node))"

definition seq_to :: "'n yaml_api \<Rightarrow> ('a \<Rightarrow> string + string) \<Rightarrow> 'a list \<Rightarrow> string + string" where
  "seq_to api elem v =
     bind_res (traverse (\<lambda>i. bind_res (elem i) (ya_load api)) v)
       (\<lambda>ns. Inr (ya_emit api (foldl (ya_push api) (ya_null api) ns)))"

definition vector_from :: "'n yaml_api \<Rightarrow> (string \<Rightarrow> string + 'a) \<Rightarrow> string \<Rightarrow> string + 'a list" where
  "vector_from api elem v = seq_from api elem v"

definition vector_to :: "'n yaml_api \<Rightarrow> ('a \<Rightarrow> string + string) \<Rightarrow> 'a list \<Rightarrow> string + string" where
  "vector_to api elem v = seq_to api elem v"

definition list_from :: "'n yaml_api \<Rightarrow> (string \<Rightarrow> string + 'a) \<Rightarrow> string \<Rightarrow> string + 'a list" where
  "list_from api elem v = seq_from api elem v"

definition list_to :: "'n yaml_api \<Rightarrow> ('a \<Rightarrow> string + string) \<Rightarrow> 'a list \<Rightarrow> string + string" where
  "list_to api elem v = seq_to api elem v"

text \<open>
  Sets, as lists in the order \<open>lt\<close>, and unordered sets, whose order of iteration is an argument.
\<close>

definition set_from :: "'n yaml_api \<Rightarrow> ('a \<Rightarrow> 'a \<Rightarrow> bool) \<Rightarrow> (string \<Rightarrow> string + 'a) \<Rightarrow> string \<Rightarrow> string + 'a list" where
  "set_from api lt elem v =
     bind_res (seq_from api elem v) (\<lambda>xs. Inr (foldl (\<lambda>s x. oset_insert lt x s) [] xs))"

definition set_to :: "'n yaml_api \<Rightarrow> ('a \<Rightarrow> string + string) \<Rightarrow> 'a list \<Rightarrow> string + string" where
  "set_to api elem v = seq_to api elem v"

definition uset_from :: "'n yaml_api \<Rightarrow> (string \<Rightarrow> string + 'a) \<Rightarrow> string \<Rightarrow> string + 'a set" where
  "uset_from api elem v = bind_res (seq_from api elem v) (\<lambda>xs. Inr (foldl (\<lambda>s x. insert x s) {} xs))"

definition uset_to :: "'n yaml_api \<Rightarrow> ('a set \<Rightarrow> 'a list) \<Rightarrow> ('a \<Rightarrow> string + string) \<Rightarrow> 'a set \<Rightarrow> string + string" where
  "uset_to api order elem v = seq_to api elem (order v)"

text \<open>Maps; \<open>insert\<close> keeps the value of a key that is there.\<close>

definition pairs_from :: "'n yaml_api \<Rightarrow> (string \<Rightarrow> string + 'a) \<Rightarrow> string \<Rightarrow> string + (string \<times> 'a) list" where
  "pairs_from api elem v =
     bind_res (ya_load api v) (\<lambda>node.
       traverse (\<lambda>(k, n). bind_res (elem (ya_emit api n)) (\<lambda>x. Inr (ya_scalar api k, x))) (ya_members api node))"

definition map_from :: "'n yaml_api \<Rightarrow> (string \<Rightarrow> string + 'a) \<Rightarrow> string \<Rightarrow> string + (string \<times> 'a) list" where
  "map_from api elem v =
     bind_res (pairs_from api elem v) (\<lambda>ps.
       Inr (foldl (\<lambda>m (k, x). if om_find str_less k m = None then om_put str_less k x m else m) [] ps))"

definition map_to :: "'n yaml_api \<Rightarrow> ('a \<Rightarrow> string + string) \<Rightarrow> (string \<times> 'a) list \<Rightarrow> string + string" where
  "map_to api elem v =
     bind_res (traverse (\<lambda>(k, x). bind_res (elem x) (\<lambda>t. bind_res (ya_load api t) (\<lambda>n. Inr (k, n)))) v)
       (\<lambda>ns. Inr (ya_emit api (foldl (\<lambda>node (k, n). ya_set api k n node) (ya_null api) ns)))"

definition umap_from :: "'n yaml_api \<Rightarrow> (string \<Rightarrow> string + 'a) \<Rightarrow> string \<Rightarrow> string + (string \<rightharpoonup> 'a)" where
  "umap_from api elem v =
     bind_res (pairs_from api elem v) (\<lambda>ps.
       Inr (foldl (\<lambda>m (k, x). if m k = None then m(k \<mapsto> x) else m) Map.empty ps))"

definition umap_to ::
  "'n yaml_api \<Rightarrow> ((string \<rightharpoonup> 'a) \<Rightarrow> (string \<times> 'a) list) \<Rightarrow> ('a \<Rightarrow> string + string) \<Rightarrow> (string \<rightharpoonup> 'a) \<Rightarrow> string + string" where
  "umap_to api order elem v = map_to api elem (order v)"

section \<open>Variables\<close>

text \<open>
  A variable with its type, the result of \<open>typeid(T).name()\<close>, its value and its listeners. The
  values of all types are one type; \<open>conv\<close> are the casts from and to texts of each type.
\<close>

record ('v, 'l) ConfigVar =
  cv_name :: string
  cv_description :: string
  cv_type :: string
  cv_val :: 'v
  cv_cbs :: "(u64 \<times> 'l) list"

record 'v cast =
  ca_from :: "string \<Rightarrow> string \<Rightarrow> string + 'v"
  ca_to :: "string \<Rightarrow> 'v \<Rightarrow> string + string"

text \<open>What a listener does to the world; it may throw.\<close>

type_synonym ('l, 'v, 'w) listener_run = "'l \<Rightarrow> 'v \<Rightarrow> 'v \<Rightarrow> 'w \<Rightarrow> string option \<times> 'w"

definition new_ConfigVar :: "string \<Rightarrow> string \<Rightarrow> 'v \<Rightarrow> string \<Rightarrow> ('v, 'l) ConfigVar" where
  "new_ConfigVar ty name default_value description =
     \<lparr>cv_name = map lower name, cv_description = description, cv_type = ty, cv_val = default_value, cv_cbs = []\<rparr>"

definition ConfigVar_toString :: "'v cast \<Rightarrow> ('v, 'l) ConfigVar \<Rightarrow> string" where
  "ConfigVar_toString conv cv = (case ca_to conv (cv_type cv) (cv_val cv) of Inr s \<Rightarrow> s | Inl e \<Rightarrow> [])"

fun run_cbs :: "('l, 'v, 'w) listener_run \<Rightarrow> 'v \<Rightarrow> 'v \<Rightarrow> (u64 \<times> 'l) list \<Rightarrow> 'w \<Rightarrow> string option \<times> 'w" where
  "run_cbs run old new [] w = (None, w)"
| "run_cbs run old new ((i, l) # cbs) w =
     (case run l old new w of (Some e, w1) \<Rightarrow> (Some e, w1) | (None, w1) \<Rightarrow> run_cbs run old new cbs w1)"

definition setValue :: "('l, 'v, 'w) listener_run \<Rightarrow> 'v \<Rightarrow> ('v, 'l) ConfigVar \<Rightarrow> 'w \<Rightarrow> string option \<times> ('v, 'l) ConfigVar \<times> 'w" where
  "setValue run v cv w =
     (if v = cv_val cv then (None, cv, w)
      else case run_cbs run (cv_val cv) v (cv_cbs cv) w of
             (Some e, w1) \<Rightarrow> (Some e, cv, w1)
           | (None, w1) \<Rightarrow> (None, cv\<lparr>cv_val := v\<rparr>, w1))"

text \<open>An exception of the cast or of a listener is caught; the result is \<open>false\<close> in every case.\<close>

definition fromString ::
  "('l, 'v, 'w) listener_run \<Rightarrow> 'v cast \<Rightarrow> string \<Rightarrow> ('v, 'l) ConfigVar \<Rightarrow> 'w \<Rightarrow> bool \<times> ('v, 'l) ConfigVar \<times> 'w" where
  "fromString run conv val cv w =
     (case ca_from conv (cv_type cv) val of
        Inl e \<Rightarrow> (False, cv, w)
      | Inr v \<Rightarrow> (case setValue run v cv w of (e, cv1, w1) \<Rightarrow> (False, cv1, w1)))"

text \<open>The number of the last listener is a static variable of the type of the variable.\<close>

definition addListener :: "'l \<Rightarrow> u64 \<Rightarrow> ('v, 'l) ConfigVar \<Rightarrow> u64 \<times> ('v, 'l) ConfigVar" where
  "addListener cb fun_id cv = (let i = fun_id + 1 in (i, cv\<lparr>cv_cbs := om_put (<) i cb (cv_cbs cv)\<rparr>))"

definition delListener :: "u64 \<Rightarrow> ('v, 'l) ConfigVar \<Rightarrow> ('v, 'l) ConfigVar" where
  "delListener key cv = cv\<lparr>cv_cbs := om_del (<) key (cv_cbs cv)\<rparr>"

definition clearListener :: "('v, 'l) ConfigVar \<Rightarrow> ('v, 'l) ConfigVar" where
  "clearListener cv = cv\<lparr>cv_cbs := []\<rparr>"

definition getListener :: "u64 \<Rightarrow> ('v, 'l) ConfigVar \<Rightarrow> 'l option" where
  "getListener key cv = om_find (<) key (cv_cbs cv)"

section \<open>The registry\<close>

type_synonym ('v, 'l) config = "(string \<times> ('v, 'l) ConfigVar) list"

datatype lookup_result = NOT_FOUND | FOUND | TYPE_WRONG

text \<open>A variable is named by its key; the null pointer is \<open>None\<close>.\<close>

definition Lookup_name :: "string \<Rightarrow> string \<Rightarrow> ('v, 'l) config \<Rightarrow> lookup_result \<times> string option" where
  "Lookup_name ty name cf =
     (case om_find str_less name cf of
        None \<Rightarrow> (NOT_FOUND, None)
      | Some v \<Rightarrow> if cv_type v = ty then (FOUND, Some name) else (TYPE_WRONG, None))"

definition name_chars :: string where
  "name_chars = ''abcdefghijklmnopqrstuvwxyz._0123456789''"

definition valid_name :: "string \<Rightarrow> bool" where
  "valid_name name \<longleftrightarrow> list_all (\<lambda>c. c \<in> set name_chars) name"

datatype config_error = InvalidArgument string

definition Config_Lookup ::
  "string \<Rightarrow> string \<Rightarrow> 'v \<Rightarrow> string \<Rightarrow> ('v, 'l) config \<Rightarrow> config_error + string option \<times> ('v, 'l) config" where
  "Config_Lookup ty name default_value description cf =
     (case Lookup_name ty name cf of
        (NOT_FOUND, _) \<Rightarrow>
          if \<not> valid_name name then Inl (InvalidArgument name)
          else Inr (Some name, om_put str_less name (new_ConfigVar ty name default_value description) cf)
      | (_, v) \<Rightarrow> Inr (v, cf))"

definition LookupBase :: "string \<Rightarrow> ('v, 'l) config \<Rightarrow> ('v, 'l) ConfigVar option" where
  "LookupBase name cf = om_find str_less name cf"

text \<open>
  The members of a node with their dotted names, parents first. The depth of the recursion is
  bounded by the fuel, \<open>None\<close> says that it was not enough; an alias can make a node contain itself.
\<close>

fun ListAllYamlMember :: "'n yaml_api \<Rightarrow> nat \<Rightarrow> string \<Rightarrow> 'n \<Rightarrow> (string \<times> 'n) list option" where
  "ListAllYamlMember api 0 prefix node = None"
| "ListAllYamlMember api (Suc fuel) prefix node =
     (if \<not> valid_name prefix then Some []
      else if ya_is_map api node then
        (case those (map (\<lambda>(k, n). ListAllYamlMember api fuel
                (if prefix = [] then ya_scalar api k else prefix @ ''.'' @ ya_scalar api k) n) (ya_members api node)) of
           None \<Rightarrow> None
         | Some ls \<Rightarrow> Some ((prefix, node) # concat ls))
      else Some [(prefix, node)])"

definition node_text :: "'n yaml_api \<Rightarrow> 'n \<Rightarrow> string" where
  "node_text api n = (if ya_is_scalar api n then ya_scalar api n else ya_emit api n)"

definition load_node ::
  "('l, 'v, 'w) listener_run \<Rightarrow> 'v cast \<Rightarrow> 'n yaml_api \<Rightarrow> string \<times> 'n \<Rightarrow> ('v, 'l) config \<times> 'w \<Rightarrow> ('v, 'l) config \<times> 'w" where
  "load_node run conv api i cw =
     (case (i, cw) of ((key, node), cf, w) \<Rightarrow>
        if key = [] then (cf, w)
        else let key1 = map lower key
             in case LookupBase key1 cf of
                  None \<Rightarrow> (cf, w)
                | Some var \<Rightarrow>
                    (case fromString run conv (node_text api node) var w of
                       (_, var1, w1) \<Rightarrow> (om_put str_less key1 var1 cf, w1)))"

definition LoadFromYaml ::
  "('l, 'v, 'w) listener_run \<Rightarrow> 'v cast \<Rightarrow> 'n yaml_api \<Rightarrow> nat \<Rightarrow> 'n \<Rightarrow> ('v, 'l) config \<times> 'w \<Rightarrow> (('v, 'l) config \<times> 'w) option" where
  "LoadFromYaml run conv api fuel root cw =
     map_option (\<lambda>nodes. fold (load_node run conv api) nodes cw) (ListAllYamlMember api fuel [] root)"

text \<open>\<open>visit\<close> calls its argument for the variables in the order of their names.\<close>

definition visit :: "(('v, 'l) ConfigVar \<Rightarrow> 'w \<Rightarrow> 'w) \<Rightarrow> ('v, 'l) config \<Rightarrow> 'w \<Rightarrow> 'w" where
  "visit cb cf w = fold (\<lambda>(k, v). cb v) cf w"

section \<open>Casts of containers\<close>

text \<open>
  What the casts rely on for a container with the elements \<open>xs\<close>: an element is read back from the text of
  the node that its own text loads to, and a sequence that is written and loaded again has the nodes
  of the elements.
\<close>

definition elements_ok :: "'n yaml_api \<Rightarrow> ('a \<Rightarrow> string + string) \<Rightarrow> (string \<Rightarrow> string + 'a) \<Rightarrow> ('a \<Rightarrow> 'n) \<Rightarrow> 'a list \<Rightarrow> bool" where
  "elements_ok api to_elem from_elem node xs \<longleftrightarrow>
     (\<forall>x \<in> set xs. bind_res (to_elem x) (ya_load api) = Inr (node x) \<and> from_elem (ya_emit api (node x)) = Inr x)
     \<and> (\<exists>n. ya_load api (ya_emit api (foldl (ya_push api) (ya_null api) (map node xs))) = Inr n
        \<and> map (ya_emit api) (yaml_items api n) = map (\<lambda>x. ya_emit api (node x)) xs)"

lemma traverse_emit:
  "map g ns = map h xs \<Longrightarrow> \<forall>x \<in> set xs. f (h x) = Inr x \<Longrightarrow> traverse (\<lambda>n. f (g n)) ns = Inr xs"
proof (induction ns arbitrary: xs)
  case (Cons n ns)
  then obtain x ys where "xs = x # ys" "g n = h x" "map g ns = map h ys" by (cases xs) auto
  then show ?case using Cons.IH [of ys] Cons.prems(2) by simp
qed simp

lemma seq_round:
  assumes "elements_ok api to_elem from_elem node xs"
  shows "bind_res (seq_to api to_elem xs) (seq_from api from_elem) = Inr xs"
proof -
  obtain n where n: "ya_load api (ya_emit api (foldl (ya_push api) (ya_null api) (map node xs))) = Inr n"
    "map (ya_emit api) (yaml_items api n) = map (\<lambda>x. ya_emit api (node x)) xs"
    using assms by (auto simp: elements_ok_def)
  have "traverse (\<lambda>i. bind_res (to_elem i) (ya_load api)) xs = Inr (map node xs)"
    using assms by (intro traverse_map) (simp add: elements_ok_def)
  moreover have "traverse (\<lambda>m. from_elem (ya_emit api m)) (yaml_items api n) = Inr xs"
    using traverse_emit [OF n(2), of from_elem] assms by (simp add: elements_ok_def)
  ultimately show ?thesis using n(1) by (simp add: seq_to_def seq_from_def)
qed

context strict_weak_order
begin

lemma fold_insert: "sorted_wrt lt (ys @ xs) \<Longrightarrow> foldl (\<lambda>s x. oset_insert lt x s) ys xs = ys @ xs"
proof (induction xs arbitrary: ys)
  case (Cons x xs)
  have "\<forall>y \<in> set ys. lt y x" using Cons.prems by (simp add: sorted_wrt_append)
  then have d: "takeWhile (\<lambda>y. lt y x) ys = ys" "dropWhile (\<lambda>y. lt y x) ys = []" by (simp_all add: takeWhile_eq_all_conv dropWhile_eq_Nil_conv)
  have "oset_insert lt x ys = ys @ [x]" by (simp add: oset_insert_def oset_find_def d)
  then show ?case using Cons.IH [of "ys @ [x]"] Cons.prems by simp
qed simp

end

text \<open>
  What a container of the configuration is written to is read back as the same container: vectors and lists in
  their order, and sets in the order of their comparison, whenever the YAML library gives back the
  nodes that were written and the cast of the elements is invertible.
\<close>

theorem config_seq_roundtrip:
  assumes "elements_ok api to_elem from_elem node xs"
  shows "bind_res (vector_to api to_elem xs) (vector_from api from_elem) = Inr xs
    \<and> bind_res (list_to api to_elem xs) (list_from api from_elem) = Inr xs
    \<and> (strict_weak_order lt \<longrightarrow> sorted_wrt lt xs \<longrightarrow> bind_res (set_to api to_elem xs) (set_from api lt from_elem) = Inr xs)"
proof -
  have 1: "bind_res (seq_to api to_elem xs) (seq_from api from_elem) = Inr xs" by (rule seq_round [OF assms])
  then obtain t where t: "seq_to api to_elem xs = Inr t" "seq_from api from_elem t = Inr xs" by (auto simp: bind_res_eq_Inr)
  have "foldl (\<lambda>s x. oset_insert lt x s) [] xs = xs" if "strict_weak_order lt" "sorted_wrt lt xs"
    using strict_weak_order.fold_insert [OF that(1), of "[]" xs] that(2) by simp
  then show ?thesis using 1 t by (simp add: set_to_def set_from_def vector_to_def vector_from_def list_to_def list_from_def)
qed

text \<open>A library whose nodes are sequences of digits, for the witness.\<close>

definition digit_yaml :: "string yaml_api" where
  "digit_yaml = \<lparr>ya_load = (\<lambda>s. Inr (filter (\<lambda>c. c \<noteq> CHR '','') s)), ya_emit = (\<lambda>n. concat (map (\<lambda>c. [c, CHR '','']) n)), ya_null = [],
     ya_string = (\<lambda>s. s), ya_set = (\<lambda>k m n. n @ m), ya_push = (\<lambda>n m. n @ m), ya_size = length, ya_at = (\<lambda>n i. [n ! i]),
     ya_get = (\<lambda>n k. None), ya_members = (\<lambda>n. []), ya_is_map = (\<lambda>n. False), ya_is_scalar = (\<lambda>n. True), ya_scalar = (\<lambda>n. n),
     ya_as_string = Inr\<rparr>"

theorem config_seq_roundtrip_witness:
  "bind_res (vector_to digit_yaml (\<lambda>c. Inr [c]) ''231'') (vector_from digit_yaml (\<lambda>t. Inr (hd t))) = Inr ''231''
   \<and> bind_res (set_to digit_yaml (\<lambda>c. Inr [c]) ''123'') (set_from digit_yaml (<) (\<lambda>t. Inr (hd t))) = Inr ''123''"
proof -
  have o: "strict_weak_order ((<) :: char \<Rightarrow> char \<Rightarrow> bool)" by unfold_locales auto
  have e: "elements_ok digit_yaml (\<lambda>c. Inr [c]) (\<lambda>t. Inr (hd t)) (\<lambda>c. [c]) xs" if "xs \<in> {''231'', ''123''}" for xs
    using that by (auto simp: elements_ok_def digit_yaml_def yaml_items_def)
  have s: "sorted_wrt (<) ''123''" by (simp add: less_char_def)
  show ?thesis using config_seq_roundtrip [OF e, of "''231''"] config_seq_roundtrip [OF e, of "''123''" "(<)"] o s by simp
qed

section \<open>Variables\<close>

lemma run_cbs_ok:
  "\<forall>l \<in> snd ` set cbs. \<forall>w. fst (run l old new w) = None \<Longrightarrow>
   run_cbs run old new cbs w = (None, fold (\<lambda>(i, l) w. snd (run l old new w)) cbs w)"
proof (induction cbs arbitrary: w)
  case (Cons c cbs)
  obtain i l where c: "c = (i, l)" by (cases c)
  have "fst (run l old new w) = None" using Cons.prems by (auto simp: c)
  then show ?case using Cons by (cases "run l old new w") (simp add: c)
qed simp

lemma run_cbs_append:
  "\<forall>l \<in> snd ` set before. \<forall>w. fst (run l old new w) = None \<Longrightarrow>
   run_cbs run old new (before @ cbs) w = run_cbs run old new cbs (fold (\<lambda>(i, l) w. snd (run l old new w)) before w)"
proof (induction before arbitrary: w)
  case (Cons c bs)
  obtain i l where c: "c = (i, l)" by (cases c)
  have "fst (run l old new w) = None" using Cons.prems by (auto simp: c)
  then show ?case using Cons by (cases "run l old new w") (simp add: c)
qed simp

text \<open>
  C22. Setting a variable to the value that it has calls no listener. Setting it to another value calls every listener
  once with the old and the new value, in the order of their numbers, and then stores the value;
  a listener that throws keeps the old value and the listeners after it are not called.
  \<open>fromString\<close> answers false whether or not the value was set.
\<close>

theorem setValue_spec:
  shows "setValue run (cv_val cv) cv w = (None, cv, w)
    \<and> (v \<noteq> cv_val cv \<and> (\<forall>l \<in> snd ` set (cv_cbs cv). \<forall>w. fst (run l (cv_val cv) v w) = None) \<longrightarrow>
       setValue run v cv w = (None, cv\<lparr>cv_val := v\<rparr>, fold (\<lambda>(i, l) w. snd (run l (cv_val cv) v w)) (cv_cbs cv) w))
    \<and> (v \<noteq> cv_val cv \<and> cv_cbs cv = before @ (i, l) # after \<and> (\<forall>l \<in> snd ` set before. \<forall>w. fst (run l (cv_val cv) v w) = None)
         \<and> run l (cv_val cv) v (fold (\<lambda>(i, l) w. snd (run l (cv_val cv) v w)) before w) = (Some e, w1) \<longrightarrow>
       setValue run v cv w = (Some e, cv, w1))
    \<and> fst (fromString run conv val cv w) = False"
proof -
  have "fst (fromString run conv val cv w) = False" by (simp add: fromString_def split: sum.splits prod.splits)
  then show ?thesis by (auto simp: setValue_def run_cbs_ok run_cbs_append)
qed

theorem setValue_spec_witness:
  "setValue (\<lambda>l old new w. (if l = 9 then Some ''x'' else None, w @ [(l, old, new)])) 5
     ((new_ConfigVar ''int'' ''n'' (4 :: int) [])\<lparr>cv_cbs := [(1, 7), (2, 8 :: nat)]\<rparr>) [] =
   (None, (new_ConfigVar ''int'' ''n'' 5 [])\<lparr>cv_cbs := [(1, 7), (2, 8)]\<rparr>, [(7, 4, 5), (8, 4, 5)])"
  using setValue_spec [of "\<lambda>l old new w. (if l = 9 then Some ''x'' else None, w @ [(l, old, new)])"
    "(new_ConfigVar ''int'' ''n'' (4 :: int) [])\<lparr>cv_cbs := [(1, 7), (2, 8 :: nat)]\<rparr>" "[]" 5]
  by (simp add: new_ConfigVar_def)

section \<open>The registry\<close>

text \<open>Every variable is stored under its own valid name.\<close>

definition config_inv :: "('v, 'l) config \<Rightarrow> bool" where
  "config_inv cf \<longleftrightarrow> sorted_wrt str_less (map fst cf) \<and> (\<forall>(k, v) \<in> set cf. valid_name k \<and> cv_name v = k)"

lemma lower_name: "valid_name s \<Longrightarrow> map lower s = s"
proof -
  have "lower c = c" if "c \<in> set name_chars" for c
    using that by (auto simp: name_chars_def lower_def)
  then show "valid_name s \<Longrightarrow> map lower s = s" by (simp add: valid_name_def list_all_iff map_idI)
qed

lemma set_om_put: "set (om_put lt k v m) \<subseteq> set m \<union> {(k', v) | k'. k' = k \<or> \<not> lt k' k \<and> \<not> lt k k'}"
  by (induction m) (auto split: if_splits)

lemma set_put_str: "set (om_put str_less k v m) \<subseteq> insert (k, v) (set m)"
proof -
  have "k' = k" if "k' = k \<or> \<not> str_less k' k \<and> \<not> str_less k k'" for k' using that str_less_total by blast
  then show ?thesis using set_om_put [of str_less k v m] by blast
qed

lemma find_in: "om_find lt k m = Some v \<Longrightarrow> \<exists>k'. (k', v) \<in> set m \<and> \<not> lt k' k \<and> \<not> lt k k'"
  by (induction m) (auto split: if_splits)

lemma find_str_in: "om_find str_less k m = Some v \<Longrightarrow> (k, v) \<in> set m"
  using find_in [of str_less k m v] str_less_total by blast

lemma find_str_put:
  "sorted_wrt str_less (map fst m) \<Longrightarrow> om_find str_less j (om_put str_less k v m) = (if j = k then Some v else om_find str_less j m)"
  using string_order.find_put [of m j k v] str_equiv [of j k] by simp

lemma config_inv_put:
  "config_inv cf \<Longrightarrow> valid_name k \<Longrightarrow> cv_name v = k \<Longrightarrow> config_inv (om_put str_less k v cf)"
  using set_put_str [of k v cf] string_order.sorted_put [of cf k v] by (auto simp: config_inv_def)

lemma those_Some: "those xs = Some ys \<longleftrightarrow> xs = map Some ys"
  by (induction xs arbitrary: ys) (auto split: option.splits)

lemma ListAll_valid:
  "ListAllYamlMember api fuel prefix node = Some nodes \<Longrightarrow> \<forall>(k, n) \<in> set nodes. valid_name k"
proof (induction api fuel prefix node arbitrary: nodes rule: ListAllYamlMember.induct)
  case (2 api fuel prefix node)
  show ?case
  proof (cases "valid_name prefix \<and> ya_is_map api node")
    case True
    define f where "f = (\<lambda>(k, n). ListAllYamlMember api fuel (if prefix = [] then ya_scalar api k else prefix @ ''.'' @ ya_scalar api k) n)"
    obtain ls where ls: "map f (ya_members api node) = map Some ls" "nodes = (prefix, node) # concat ls"
      using "2.prems" True by (auto simp: f_def those_Some split: option.splits)
    have "\<forall>(k, n) \<in> set l. valid_name k" if "l \<in> set ls" for l
    proof -
      have "Some l \<in> set (map f (ya_members api node))" using ls(1) that by simp
      then obtain k n where "(k, n) \<in> set (ya_members api node)" "f (k, n) = Some l" by auto
      then show ?thesis using "2.IH" [of "(k, n)" k n l] True by (auto simp: f_def)
    qed
    then show ?thesis using True ls(2) by auto
  next
    case False
    then show ?thesis using "2.prems" by (auto split: if_splits)
  qed
qed simp

text \<open>The value of a variable after a text: unchanged when the cast throws.\<close>

definition cast_or_keep :: "'v cast \<Rightarrow> string \<Rightarrow> 'v \<Rightarrow> string \<Rightarrow> 'v" where
  "cast_or_keep conv ty v t = (case ca_from conv ty t of Inr x \<Rightarrow> x | Inl e \<Rightarrow> v)"

definition texts_for :: "'n yaml_api \<Rightarrow> string \<Rightarrow> (string \<times> 'n) list \<Rightarrow> string list" where
  "texts_for api k nodes = map (\<lambda>i. node_text api (snd i)) (filter (\<lambda>i. fst i = k \<and> k \<noteq> []) nodes)"

definition quiet :: "('l, 'v, 'w) listener_run \<Rightarrow> bool" where
  "quiet run \<longleftrightarrow> (\<forall>l old new w. fst (run l old new w) = None)"

lemma fromString_quiet:
  assumes "quiet run"
  shows "\<exists>w1. fromString run conv t cv w = (False, cv\<lparr>cv_val := cast_or_keep conv (cv_type cv) (cv_val cv) t\<rparr>, w1)"
proof (cases "ca_from conv (cv_type cv) t")
  case (Inl e)
  then show ?thesis by (simp add: fromString_def cast_or_keep_def)
next
  case (Inr v)
  have "run_cbs run (cv_val cv) v (cv_cbs cv) w = (None, fold (\<lambda>(i, l) w. snd (run l (cv_val cv) v w)) (cv_cbs cv) w)"
    using assms by (intro run_cbs_ok) (simp add: quiet_def)
  then show ?thesis using Inr by (auto simp: fromString_def cast_or_keep_def setValue_def)
qed

lemma load_node_find:
  assumes "quiet run" "valid_name (fst i)" "config_inv cf" "load_node run conv api i (cf, w) = (cf1, w1)"
  shows "config_inv cf1 \<and> om_find str_less k cf1 =
    map_option (\<lambda>cv. cv\<lparr>cv_val := foldl (cast_or_keep conv (cv_type cv)) (cv_val cv) (texts_for api k [i])\<rparr>) (om_find str_less k cf)"
proof -
  obtain key node where i: "i = (key, node)" by (cases i)
  have key: "map lower key = key" using assms(2) i lower_name by simp
  have s: "sorted_wrt str_less (map fst cf)" using assms(3) by (simp add: config_inv_def)
  show ?thesis
  proof (cases "key = [] \<or> om_find str_less key cf = None")
    case True
    then have "cf1 = cf" using assms(4) key by (cases "key = []") (simp_all add: load_node_def i LookupBase_def Let_def)
    then show ?thesis using True assms(3) by (cases "k = key") (auto simp: i texts_for_def option.map_ident)
  next
    case False
    then obtain cv where cv: "om_find str_less key cf = Some cv" by auto
    define cv1 where "cv1 = cv\<lparr>cv_val := cast_or_keep conv (cv_type cv) (cv_val cv) (node_text api node)\<rparr>"
    obtain w2 where "fromString run conv (node_text api node) cv w = (False, cv1, w2)"
      using fromString_quiet [OF assms(1)] cv1_def by blast
    then have cf1: "cf1 = om_put str_less key cv1 cf"
      using assms(4) False cv key by (simp add: load_node_def i LookupBase_def Let_def)
    have "cv_name cv1 = key" using find_str_in [OF cv] assms(3) by (auto simp: config_inv_def cv1_def)
    then have "config_inv cf1" unfolding cf1 using assms(2,3) i by (intro config_inv_put) simp_all
    then show ?thesis using cv False find_str_put [OF s, of k key cv1]
      by (cases "k = key") (simp_all add: cf1 texts_for_def i cv1_def option.map_ident)
  qed
qed

lemma load_nodes_find:
  assumes "quiet run"
  shows "\<forall>i \<in> set nodes. valid_name (fst i) \<Longrightarrow> config_inv cf \<Longrightarrow> fold (load_node run conv api) nodes (cf, w) = (cf1, w1) \<Longrightarrow>
    config_inv cf1 \<and> om_find str_less k cf1 =
    map_option (\<lambda>cv. cv\<lparr>cv_val := foldl (cast_or_keep conv (cv_type cv)) (cv_val cv) (texts_for api k nodes)\<rparr>) (om_find str_less k cf)"
proof (induction nodes arbitrary: cf w)
  case Nil
  then show ?case by (cases "om_find str_less k cf") (simp_all add: texts_for_def)
next
  case (Cons i nodes)
  obtain cf2 w2 where 1: "load_node run conv api i (cf, w) = (cf2, w2)" by (cases "load_node run conv api i (cf, w)")
  note a = load_node_find [OF assms _ Cons.prems(2) 1, of k]
  have 2: "fold (load_node run conv api) nodes (cf2, w2) = (cf1, w1)" using Cons.prems(3) 1 by simp
  have t: "texts_for api k (i # nodes) = texts_for api k [i] @ texts_for api k nodes" by (simp add: texts_for_def)
  show ?case using a Cons.IH [OF _ _ 2] Cons.prems(1) by (cases "om_find str_less k cf") (simp_all add: t)
qed

text \<open>A node whose maps are nested at most \<open>d\<close> deep.\<close>

inductive nested :: "'n yaml_api \<Rightarrow> nat \<Rightarrow> 'n \<Rightarrow> bool" for api where
  leaf: "\<not> ya_is_map api n \<Longrightarrow> nested api d n"
| node: "\<forall>(k, m) \<in> set (ya_members api n). nested api d m \<Longrightarrow> nested api (Suc d) n"

lemma nested_returns: "nested api d n \<Longrightarrow> \<exists>nodes. ListAllYamlMember api (Suc d) prefix n = Some nodes"
proof (induction arbitrary: prefix rule: nested.induct)
  case (leaf n d)
  then show ?case by simp
next
  case (node n d)
  define f where "f = (\<lambda>(k, m). ListAllYamlMember api (Suc d) (if prefix = [] then ya_scalar api k else prefix @ ''.'' @ ya_scalar api k) m)"
  have "\<exists>nodes. f i = Some nodes" if "i \<in> set (ya_members api n)" for i
    using node that by (auto simp: f_def simp del: ListAllYamlMember.simps)
  then obtain g where "\<forall>i \<in> set (ya_members api n). f i = Some (g i)" by metis
  then have "map f (ya_members api n) = map Some (map g (ya_members api n))" by simp
  then have "those (map f (ya_members api n)) = Some (map g (ya_members api n))" by (simp only: those_Some)
  then have l: "(case those (map f (ya_members api n)) of None \<Rightarrow> None | Some ls \<Rightarrow> Some ((prefix, n) # concat ls)) \<noteq> None" by simp
  have "ListAllYamlMember api (Suc (Suc d)) prefix n = (if \<not> valid_name prefix then Some []
      else if ya_is_map api n then (case those (map f (ya_members api n)) of None \<Rightarrow> None | Some ls \<Rightarrow> Some ((prefix, n) # concat ls))
      else Some [(prefix, n)])"
    by (simp only: ListAllYamlMember.simps(2) [of api "Suc d"] f_def)
  then show ?case using l by auto
qed

text \<open>
  C8. Loading a configuration terminates for every node whose maps are nested finitely deep, and sets exactly the registered
  variables that the node names: each gets the value of the last text under its dotted name that the cast
  accepts. A name with a character outside the lower case alphabet, and everything below it, is
  ignored, and every variable stays registered under its own valid name.
\<close>

theorem load_yaml_spec:
  assumes "config_inv cf" "quiet run" "nested api d root"
  shows "\<exists>nodes cf1 w1. ListAllYamlMember api (Suc d) [] root = Some nodes
    \<and> LoadFromYaml run conv api (Suc d) root (cf, w) = Some (cf1, w1) \<and> config_inv cf1
    \<and> (\<forall>(k, n) \<in> set nodes. valid_name k)
    \<and> (\<forall>k. om_find str_less k cf1 =
        map_option (\<lambda>cv. cv\<lparr>cv_val := foldl (cast_or_keep conv (cv_type cv)) (cv_val cv) (texts_for api k nodes)\<rparr>) (om_find str_less k cf))"
proof -
  obtain nodes where n: "ListAllYamlMember api (Suc d) [] root = Some nodes" using nested_returns [OF assms(3)] by blast
  obtain cf1 w1 where f: "fold (load_node run conv api) nodes (cf, w) = (cf1, w1)" by (cases "fold (load_node run conv api) nodes (cf, w)")
  note v = ListAll_valid [OF n]
  have "config_inv cf1 \<and> om_find str_less k cf1 =
      map_option (\<lambda>cv. cv\<lparr>cv_val := foldl (cast_or_keep conv (cv_type cv)) (cv_val cv) (texts_for api k nodes)\<rparr>) (om_find str_less k cf)" for k
    using v by (intro load_nodes_find [OF assms(2) _ assms(1) f]) auto
  then show ?thesis using n f v by (auto simp: LoadFromYaml_def simp del: ListAllYamlMember.simps)
qed

text \<open>A library whose nodes are trees, for the witness.\<close>

datatype tree_node = Scalar_node string | Map_node "(string \<times> tree_node) list"

definition tree_yaml :: "tree_node yaml_api" where
  "tree_yaml = \<lparr>ya_load = (\<lambda>s. Inr (Scalar_node s)), ya_emit = (\<lambda>n. []), ya_null = Map_node [], ya_string = Scalar_node,
     ya_set = (\<lambda>k m n. n), ya_push = (\<lambda>n m. n), ya_size = (\<lambda>n. 0), ya_at = (\<lambda>n i. n), ya_get = (\<lambda>n k. None),
     ya_members = (\<lambda>n. case n of Map_node ms \<Rightarrow> map (\<lambda>(k, m). (Scalar_node k, m)) ms | _ \<Rightarrow> []),
     ya_is_map = (\<lambda>n. case n of Map_node ms \<Rightarrow> True | _ \<Rightarrow> False), ya_is_scalar = (\<lambda>n. case n of Scalar_node s \<Rightarrow> True | _ \<Rightarrow> False),
     ya_scalar = (\<lambda>n. case n of Scalar_node s \<Rightarrow> s | _ \<Rightarrow> []), ya_as_string = (\<lambda>n. Inr [])\<rparr>"

theorem load_yaml_spec_witness:
  "\<exists>cf1 w1. LoadFromYaml (\<lambda>l old new w. (None, w @ [(l :: nat, old, new)])) \<lparr>ca_from = (\<lambda>ty t. if t = ''bad'' then Inl ''e'' else Inr t), ca_to = (\<lambda>ty v. Inr v)\<rparr>
      tree_yaml 3
      (Map_node [(''a'', Map_node [(''b'', Scalar_node ''10''), (''c'', Scalar_node ''bad'')]), (''A'', Map_node [(''b'', Scalar_node ''7'')])])
      ([(''a.b'', new_ConfigVar ''s'' ''a.b'' ''1'' []), (''a.c'', new_ConfigVar ''s'' ''a.c'' ''2'' [])], []) = Some (cf1, w1)
    \<and> map_option cv_val (om_find str_less ''a.b'' cf1) = Some ''10'' \<and> map_option cv_val (om_find str_less ''a.c'' cf1) = Some ''2''"
proof -
  let ?run = "\<lambda>l old new w. (None, w @ [(l :: nat, old, new)])"
  let ?root = "Map_node [(''a'', Map_node [(''b'', Scalar_node ''10''), (''c'', Scalar_node ''bad'')]), (''A'', Map_node [(''b'', Scalar_node ''7'')])]"
  let ?cf = "[(''a.b'', new_ConfigVar ''s'' ''a.b'' ''1'' []), (''a.c'', new_ConfigVar ''s'' ''a.c'' ''2'' [])] :: (string, nat) config"
  have low: "lower CHR ''a'' = CHR ''a''" "lower CHR ''b'' = CHR ''b''" "lower CHR ''c'' = CHR ''c''" "lower CHR ''.'' = CHR ''.''"
    by code_simp+
  have inv: "config_inv ?cf" by (simp add: config_inv_def new_ConfigVar_def valid_name_def name_chars_def low)
  have q: "quiet ?run" by (simp add: quiet_def)
  have nested: "nested tree_yaml 2 ?root"
    unfolding numeral_2_eq_2 by (rule nested.node) (auto simp: tree_yaml_def intro!: nested.intros)
  show ?thesis
    using load_yaml_spec [OF inv q nested, of "\<lparr>ca_from = (\<lambda>ty t. if t = ''bad'' then Inl ''e'' else Inr t), ca_to = (\<lambda>ty v. Inr v)\<rparr>" "[]"]
    by (auto simp: tree_yaml_def new_ConfigVar_def texts_for_def cast_or_keep_def node_text_def low valid_name_def name_chars_def
        eval_nat_numeral)
qed

section \<open>Looking variables up\<close>

text \<open>
  \<open>Lookup\<close> returns the registered variable of the name when the type is the same, the null pointer when it is another
  one, registers a new variable with the default value under a valid name, and throws for every other
  name. What is registered stays, and every variable is stored under its own valid name.
\<close>

theorem Config_Lookup_spec:
  assumes "config_inv cf"
  shows "case Config_Lookup ty name v desc cf of
      Inl e \<Rightarrow> e = InvalidArgument name \<and> \<not> valid_name name
    | Inr (r, cf1) \<Rightarrow> config_inv cf1
        \<and> (\<exists>cv. om_find str_less name cf1 = Some cv \<and> (r = Some name \<and> cv_type cv = ty \<or> r = None \<and> cv_type cv \<noteq> ty))
        \<and> (om_find str_less name cf = None \<longrightarrow> om_find str_less name cf1 = Some (new_ConfigVar ty name v desc))
        \<and> (\<forall>k. om_find str_less k cf \<noteq> None \<longrightarrow> om_find str_less k cf1 = om_find str_less k cf)"
proof (cases "om_find str_less name cf")
  case (Some cv)
  then show ?thesis using assms by (simp add: Config_Lookup_def Lookup_name_def)
next
  case None
  have s: "sorted_wrt str_less (map fst cf)" using assms by (simp add: config_inv_def)
  have n: "valid_name name \<Longrightarrow> cv_name (new_ConfigVar ty name v desc) = name" by (simp add: new_ConfigVar_def lower_name)
  have t: "cv_type (new_ConfigVar ty name v desc) = ty" by (simp add: new_ConfigVar_def)
  show ?thesis using None config_inv_put [OF assms, of name "new_ConfigVar ty name v desc"] n t find_str_put [OF s]
    by (auto simp: Config_Lookup_def Lookup_name_def)
qed

theorem Config_Lookup_spec_witness:
  "Config_Lookup ''i'' ''N'' (1 :: int) [] ([] :: (int, nat) config) = Inl (InvalidArgument ''N'')
   \<and> (\<exists>cf1. Config_Lookup ''i'' ''n'' (1 :: int) [] ([] :: (int, nat) config) = Inr (Some ''n'', cf1)
      \<and> config_inv cf1 \<and> om_find str_less ''n'' cf1 = Some (new_ConfigVar ''i'' ''n'' 1 []))"
proof -
  have i: "config_inv ([] :: (int, nat) config)" by (simp add: config_inv_def)
  show ?thesis using Config_Lookup_spec [OF i, of "''n''" "''i''" 1 "[]"]
    by (simp add: Config_Lookup_def Lookup_name_def valid_name_def name_chars_def)
qed

end
