(* ===== verification/Log_Format.thy ===== *)
theory Log_Format
  imports C_Strings
begin

text \<open>
  Levels, events, format items and the pattern parser of \<open>log/log.h\<close> and \<open>log.cpp\<close>. Parser positions are indices into the
  pattern, as in the code. The lemmas relate the patterns to the items that they are written from.
\<close>

section \<open>Levels and events\<close>

datatype LogLevel = DEBUG | INFO | WARN | ERROR | FATAL

fun level_value :: "LogLevel \<Rightarrow> int" where
  "level_value DEBUG = 1"
| "level_value INFO = 2"
| "level_value WARN = 3"
| "level_value ERROR = 4"
| "level_value FATAL = 5"

lemma level_value_inject [simp]: "level_value a = level_value b \<longleftrightarrow> a = b"
  by (cases a; cases b) simp_all

text \<open>The comparison of two levels is that of the enumeration.\<close>

instantiation LogLevel :: linorder
begin

definition less_eq_LogLevel :: "LogLevel \<Rightarrow> LogLevel \<Rightarrow> bool" where
  "less_eq_LogLevel a b \<longleftrightarrow> level_value a \<le> level_value b"

definition less_LogLevel :: "LogLevel \<Rightarrow> LogLevel \<Rightarrow> bool" where
  "less_LogLevel a b \<longleftrightarrow> level_value a < level_value b"

instance
  by standard (auto simp: less_eq_LogLevel_def less_LogLevel_def)

end

fun LogLevel_toString :: "LogLevel \<Rightarrow> string" where
  "LogLevel_toString DEBUG = ''DEBUG''"
| "LogLevel_toString INFO = ''INFO''"
| "LogLevel_toString WARN = ''WARN''"
| "LogLevel_toString ERROR = ''ERROR''"
| "LogLevel_toString FATAL = ''FATAL''"

text \<open>\<open>toupper\<close> on a byte in the C locale.\<close>

definition upper :: "char \<Rightarrow> char" where
  "upper c = (let n = of_char c :: nat in if 97 \<le> n \<and> n \<le> 122 then char_of (n - 32) else c)"

definition LogLevel_FromString :: "string \<Rightarrow> LogLevel" where
  "LogLevel_FromString s =
     (let u = map upper s
      in if u = ''DEBUG'' then DEBUG
         else if u = ''INFO'' then INFO
         else if u = ''WARN'' then WARN
         else if u = ''ERROR'' then ERROR
         else if u = ''FATAL'' then FATAL
         else DEBUG)"

text \<open>An event; its logger is given by name. The line and the numbers are printed as they are.\<close>

record LogEvent =
  ev_file :: string
  ev_line :: int
  ev_elapse :: u32
  ev_threadId :: u32
  ev_threadName :: string
  ev_fiberId :: u32
  ev_time :: u64
  ev_content :: string
  ev_logger :: string
  ev_level :: LogLevel

definition new_LogEvent ::
  "string \<Rightarrow> LogLevel \<Rightarrow> string \<Rightarrow> int \<Rightarrow> u32 \<Rightarrow> u32 \<Rightarrow> string \<Rightarrow> u32 \<Rightarrow> u64 \<Rightarrow> LogEvent" where
  "new_LogEvent logger level file line elapse thread_id thread_name fiber_id time =
     \<lparr>ev_file = file, ev_line = line, ev_elapse = elapse, ev_threadId = thread_id, ev_threadName = thread_name, ev_fiberId = fiber_id,
      ev_time = time, ev_content = [], ev_logger = logger, ev_level = level\<rparr>"

text \<open>Writing to \<open>getSS()\<close> extends the content; \<open>format\<close> builds a text and drops it.\<close>

definition getSS_put :: "string \<Rightarrow> LogEvent \<Rightarrow> LogEvent" where
  "getSS_put s e = e\<lparr>ev_content := ev_content e @ s\<rparr>"

definition LogEvent_format :: "string option \<Rightarrow> LogEvent \<Rightarrow> LogEvent" where
  "LogEvent_format printed e = e"

section \<open>Format items\<close>

datatype FormatItem = MessageFormatItem | LevelFormatItem | ElapseFormatItem | NameFormatItem | ThreadIdFormatItem |
  ThreadNameFormatItem | FiberIdFormatItem | DateTimeFormatItem string | FilenameFormatItem | LineFormatItem |
  NewLineFormatItem | StringFormatItem string | TabFormatItem

definition new_DateTimeFormatItem :: "string \<Rightarrow> FormatItem" where
  "new_DateTimeFormatItem format = DateTimeFormatItem (if format = [] then ''%Y-%m-%d %H:%M:%S'' else format)"

text \<open>
  \<open>localtime_r\<close> and \<open>strftime\<close> are one argument, the whole text for a format and a time. The buffer
  has 64 bytes, but the call passes the size of \<open>struct tm\<close>, 56 bytes on this platform. A text
  that does not fit leaves the buffer unspecified: it holds \<open>junk\<close>.
\<close>

type_synonym strftime = "string \<Rightarrow> u64 \<Rightarrow> string"

definition date_text :: "strftime \<Rightarrow> string \<Rightarrow> string \<Rightarrow> u64 \<Rightarrow> string" where
  "date_text strf junk format t = (let s = strf (c_str format) t in if length s < 56 then c_str s else c_str junk)"

fun item_format :: "strftime \<Rightarrow> string \<Rightarrow> LogLevel \<Rightarrow> LogEvent \<Rightarrow> FormatItem \<Rightarrow> string" where
  "item_format strf junk level e MessageFormatItem = ev_content e"
| "item_format strf junk level e LevelFormatItem = LogLevel_toString level"
| "item_format strf junk level e ElapseFormatItem = dec (unat (ev_elapse e))"
| "item_format strf junk level e NameFormatItem = ev_logger e"
| "item_format strf junk level e ThreadIdFormatItem = dec (unat (ev_threadId e))"
| "item_format strf junk level e ThreadNameFormatItem = ev_threadName e"
| "item_format strf junk level e FiberIdFormatItem = dec (unat (ev_fiberId e))"
| "item_format strf junk level e (DateTimeFormatItem format) = date_text strf junk format (ev_time e)"
| "item_format strf junk level e FilenameFormatItem = ev_file e"
| "item_format strf junk level e LineFormatItem = int_str (ev_line e)"
| "item_format strf junk level e NewLineFormatItem = [CHR 0x0A]"
| "item_format strf junk level e (StringFormatItem s) = s"
| "item_format strf junk level e TabFormatItem = [CHR 0x09]"

section \<open>The pattern\<close>

definition is_alpha :: "char \<Rightarrow> bool" where
  "is_alpha c \<longleftrightarrow> (let n = of_char c :: nat in 65 \<le> n \<and> n \<le> 90 \<or> 97 \<le> n \<and> n \<le> 122)"

definition substr :: "string \<Rightarrow> nat \<Rightarrow> nat \<Rightarrow> string" where
  "substr s p n = take n (drop p s)"

text \<open>
  The loop over one item that starts at \<open>i\<close>: the position behind it, whether a brace is still open,
  the letters and the argument.
\<close>

function scan_item :: "string \<Rightarrow> nat \<Rightarrow> nat \<Rightarrow> bool \<Rightarrow> nat \<Rightarrow> string \<Rightarrow> string \<Rightarrow> nat \<times> bool \<times> string \<times> string" where
  "scan_item p i n open fmt_begin str fmt =
     (if n < length p then
        let c = p ! n
        in if \<not> open \<and> \<not> is_alpha c \<and> c \<noteq> CHR ''{'' \<and> c \<noteq> CHR ''}'' then (n, open, substr p (i + 1) (n - i - 1), fmt)
           else if \<not> open \<and> c = CHR ''{'' then scan_item p i (n + 1) True n (substr p (i + 1) (n - i - 1)) fmt
           else if open \<and> c = CHR ''}'' then (n + 1, False, str, substr p (fmt_begin + 1) (n - fmt_begin - 1))
           else scan_item p i (n + 1) open fmt_begin
                  (if n + 1 = length p \<and> str = [] then drop (i + 1) p else str) fmt
      else (n, open, str, fmt))"
  by pat_completeness auto
termination by (relation "measure (\<lambda>(p, i, n, _). length p - n)") auto

declare scan_item.simps [simp del]

lemma scan_item_ge: "scan_item p i n op fb str fmt = (m, r) \<Longrightarrow> n \<le> m"
proof (induction p i n op fb str fmt arbitrary: m r rule: scan_item.induct)
  case (1 p i n op fb str fmt)
  have ih: "n + 1 \<le> m" if "n < length p" "scan_item p i (n + 1) True n (substr p (i + 1) (n - i - 1)) fmt = (m, r)"
      "\<not> op" "p ! n = CHR ''{''"
    using "1.IH"(1) [OF that(1) refl] that by simp
  have ih2: "n + 1 \<le> m"
    if "n < length p" "scan_item p i (n + 1) op fb (if n + 1 = length p \<and> str = [] then drop (i + 1) p else str) fmt = (m, r)"
      "\<not> (\<not> op \<and> \<not> is_alpha (p ! n) \<and> p ! n \<noteq> CHR ''{'' \<and> p ! n \<noteq> CHR ''}'')"
      "\<not> (\<not> op \<and> p ! n = CHR ''{'')" "\<not> (op \<and> p ! n = CHR ''}'')"
    using "1.IH"(2) [OF that(1) refl that(3-5)] that(2) by blast
  show ?case using "1.prems" unfolding scan_item.simps [of p i n]
    by (cases "n < length p") (auto simp only: Let_def if_True if_False prod.inject dest: ih ih2 split: if_splits)
qed

text \<open>
  The loop over the pattern: the texts with flag 0 and the items with flag 1. After a doubled percent
  sign the loop goes on at the second one.
\<close>

function scan_pattern ::
  "string \<Rightarrow> nat \<Rightarrow> string \<Rightarrow> (string \<times> string \<times> int) list \<Rightarrow> bool \<Rightarrow> (string \<times> string \<times> int) list \<times> bool" where
  "scan_pattern p i nstr vec err =
     (if i < length p then
        if p ! i \<noteq> CHR ''%'' then scan_pattern p (i + 1) (nstr @ [p ! i]) vec err
        else if i + 1 < length p \<and> p ! (i + 1) = CHR ''%'' then scan_pattern p (i + 1) (nstr @ ''%'') vec err
        else case scan_item p i (i + 1) False 0 [] [] of (n, open, str, fmt) \<Rightarrow>
          if \<not> open then scan_pattern p n [] (vec @ (if nstr \<noteq> [] then [(nstr, [], 0)] else []) @ [(str, fmt, 1)]) err
          else scan_pattern p (i + 1) nstr (vec @ [(''<pattern_error>'', fmt, 0)]) True
      else (vec @ (if nstr \<noteq> [] then [(nstr, [], 0)] else []), err))"
  by pat_completeness auto
termination
  by (relation "measure (\<lambda>(p, i, _). length p - i)") (auto dest!: scan_item_ge [OF sym])

declare scan_pattern.simps [simp del]

fun s_format_items :: "string \<Rightarrow> (string \<Rightarrow> FormatItem) option" where
  "s_format_items s =
     (if s = ''m'' then Some (\<lambda>_. MessageFormatItem)
      else if s = ''p'' then Some (\<lambda>_. LevelFormatItem)
      else if s = ''r'' then Some (\<lambda>_. ElapseFormatItem)
      else if s = ''c'' then Some (\<lambda>_. NameFormatItem)
      else if s = ''t'' then Some (\<lambda>_. ThreadIdFormatItem)
      else if s = ''n'' then Some (\<lambda>_. NewLineFormatItem)
      else if s = ''d'' then Some new_DateTimeFormatItem
      else if s = ''f'' then Some (\<lambda>_. FilenameFormatItem)
      else if s = ''l'' then Some (\<lambda>_. LineFormatItem)
      else if s = ''T'' then Some (\<lambda>_. TabFormatItem)
      else if s = ''F'' then Some (\<lambda>_. FiberIdFormatItem)
      else if s = ''N'' then Some (\<lambda>_. ThreadNameFormatItem)
      else None)"

declare s_format_items.simps [simp del]

fun make_items :: "(string \<times> string \<times> int) list \<Rightarrow> bool \<Rightarrow> FormatItem list \<times> bool" where
  "make_items [] err = ([], err)"
| "make_items ((str, fmt, kind) # vec) err =
     (let (it, err1) =
        (if kind = 0 then (StringFormatItem str, err)
         else case s_format_items str of
                None \<Rightarrow> (StringFormatItem (''<error_format '' @ str @ ''>''), True)
              | Some f \<Rightarrow> (f fmt, err));
          (its, err2) = make_items vec err1
      in (it # its, err2))"

record LogFormatter =
  lf_pattern :: string
  lf_items :: "FormatItem list"
  lf_error :: bool

definition LogFormatter_init :: "LogFormatter \<Rightarrow> LogFormatter" where
  "LogFormatter_init f =
     (let (vec, err) = scan_pattern (lf_pattern f) 0 [] [] (lf_error f); (its, err1) = make_items vec err
      in f\<lparr>lf_items := lf_items f @ its, lf_error := err1\<rparr>)"

definition new_LogFormatter :: "string \<Rightarrow> LogFormatter" where
  "new_LogFormatter pattern = LogFormatter_init \<lparr>lf_pattern = pattern, lf_items = [], lf_error = False\<rparr>"

definition LogFormatter_format :: "strftime \<Rightarrow> string \<Rightarrow> LogFormatter \<Rightarrow> LogLevel \<Rightarrow> LogEvent \<Rightarrow> string" where
  "LogFormatter_format strf junk f level e = concat (map (item_format strf junk level e) (lf_items f))"

section \<open>The loop on a part of the pattern\<close>

lemma scan_item_shift:
  assumes "op \<longrightarrow> fb' = length u + fb"
  shows "scan_item (u @ p) (length u + i) (length u + n) op fb' str fmt =
    map_prod ((+) (length u)) (\<lambda>r. r) (scan_item p i n op fb str fmt)"
  using assms
proof (induction p i n op fb str fmt arbitrary: fb' rule: scan_item.induct)
  case (1 p i n op fb str fmt)
  show ?case
  proof (cases "n < length p")
    case False
    then show ?thesis by (simp add: scan_item.simps [of "u @ p"] scan_item.simps [of p])
  next
    case True
    define c where "c = p ! n"
    have c: "(u @ p) ! (length u + n) = c" by (simp add: c_def nth_append)
    have s: "substr (u @ p) (length u + i + 1) (length u + n - (length u + i) - 1) = substr p (i + 1) (n - i - 1)"
      by (simp add: substr_def)
    have l: "(length u + n + 1 = length (u @ p)) = (n + 1 = length p)" "drop (length u + i + 1) (u @ p) = drop (i + 1) p" by simp_all
    show ?thesis
    proof (cases "\<not> op \<and> c = CHR ''{''")
      case open_brace: True
      have "scan_item (u @ p) (length u + i) (length u + (n + 1)) True (length u + n) (substr p (i + 1) (n - i - 1)) fmt =
          map_prod ((+) (length u)) (\<lambda>r. r) (scan_item p i (n + 1) True n (substr p (i + 1) (n - i - 1)) fmt)"
        using "1.IH"(1) [OF True refl, of "length u + n"] open_brace c_def by simp
      then show ?thesis using True c s open_brace unfolding scan_item.simps [of "u @ p" "length u + i" "length u + n"]
          scan_item.simps [of p i n] by (simp add: c_def [symmetric] Let_def add.assoc)
    next
      case no_open: False
      let ?str = "if n + 1 = length p \<and> str = [] then drop (i + 1) p else str"
      have ih: "scan_item (u @ p) (length u + i) (length u + (n + 1)) op fb' ?str fmt =
          map_prod ((+) (length u)) (\<lambda>r. r) (scan_item p i (n + 1) op fb ?str fmt)"
        if "\<not> (\<not> op \<and> \<not> is_alpha c \<and> c \<noteq> CHR ''{'' \<and> c \<noteq> CHR ''}'')" "\<not> (op \<and> c = CHR ''}'')"
        by (rule "1.IH"(2) [OF True refl that(1) [unfolded c_def] no_open [unfolded c_def] that(2) [unfolded c_def] "1.prems"])
      have f: "op \<Longrightarrow> substr (u @ p) (fb' + 1) (length u + n - fb' - 1) = substr p (fb + 1) (n - fb - 1)"
        using "1.prems" by (simp add: substr_def)
      show ?thesis using True c s l f ih no_open unfolding scan_item.simps [of "u @ p" "length u + i" "length u + n"]
          scan_item.simps [of p i n] c_def [symmetric] by (auto simp: Let_def add.assoc)
    qed
  qed
qed

lemma scan_pattern_shift:
  "scan_pattern (u @ p) (length u + i) nstr vec err = scan_pattern p i nstr vec err"
proof (induction p i nstr vec err rule: scan_pattern.induct)
  case (1 p i nstr vec err)
  show ?case
  proof (cases "i < length p")
    case False
    then show ?thesis by (simp add: scan_pattern.simps [of "u @ p"] scan_pattern.simps [of p])
  next
    case True
    have c: "(u @ p) ! (length u + i) = p ! i" "(u @ p) ! (length u + i + 1) = p ! (i + 1)" "(length u + i < length (u @ p)) = (i < length p)"
      "(length u + i + 1 < length (u @ p)) = (i + 1 < length p)" by (simp_all add: nth_append)
    show ?thesis
    proof (cases "p ! i \<noteq> CHR ''%'' \<or> i + 1 < length p \<and> p ! (i + 1) = CHR ''%''")
      case easy: True
      then show ?thesis using True c "1.IH"(1,2) unfolding scan_pattern.simps [of "u @ p" "length u + i"] scan_pattern.simps [of p i]
        by (auto simp: add.assoc)
    next
      case False
      then have h: "\<not> p ! i \<noteq> CHR ''%''" "\<not> (i + 1 < length p \<and> p ! (i + 1) = CHR ''%'')" by simp_all
      obtain n op str fmt where s: "scan_item p i (i + 1) False 0 [] [] = (n, op, str, fmt)" by (cases "scan_item p i (i + 1) False 0 [] []") auto
      have s2: "scan_item (u @ p) (length u + i) (length u + i + 1) False 0 [] [] = (length u + n, op, str, fmt)"
        using scan_item_shift [of False 0 u 0 p i "i + 1" "[]" "[]"] s by (simp add: add.assoc)
      show ?thesis using True h c s s2 "1.IH"(3,4) [OF True h s [symmetric] refl refl] unfolding scan_pattern.simps [of "u @ p" "length u + i"] scan_pattern.simps [of p i]
        by (cases op) auto
    qed
  qed
qed

lemma scan_pattern_acc:
  "scan_pattern p i nstr (v @ vec) err = map_prod ((@) v) (\<lambda>r. r) (scan_pattern p i nstr vec err)"
proof (induction p i nstr vec err rule: scan_pattern.induct)
  case (1 p i nstr vec err)
  show ?case
  proof (cases "i < length p")
    case False
    then show ?thesis by (simp add: scan_pattern.simps [of p i])
  next
    case True
    obtain n op str fmt where s: "scan_item p i (i + 1) False 0 [] [] = (n, op, str, fmt)" by (cases "scan_item p i (i + 1) False 0 [] []") auto
    show ?thesis using True s "1.IH"(1,2) "1.IH"(3,4) [OF True _ _ s [symmetric] refl refl] unfolding scan_pattern.simps [of p i]
      by (cases "p ! i = CHR ''%''"; cases "i + 1 < length p \<and> p ! (i + 1) = CHR ''%''"; cases op) auto
  qed
qed

lemma scan_text:
  "CHR ''%'' \<notin> set s \<Longrightarrow> scan_pattern (s @ t) 0 nstr vec err = scan_pattern t 0 (nstr @ s) vec err"
proof (induction s arbitrary: nstr)
  case Nil
  then show ?case by simp
next
  case (Cons c s)
  have "scan_pattern ((c # s) @ t) 0 nstr vec err = scan_pattern ([c] @ (s @ t)) (length [c] + 0) (nstr @ [c]) vec err"
    using Cons.prems unfolding scan_pattern.simps [of "(c # s) @ t" 0 nstr] by auto
  also have "\<dots> = scan_pattern (s @ t) 0 (nstr @ [c]) vec err" by (rule scan_pattern_shift)
  finally show ?case using Cons by simp
qed

lemma drop_Cons: "drop n p = c # r \<Longrightarrow> n < length p \<and> p ! n = c \<and> drop (n + 1) p = r"
  by (cases "n < length p") (auto simp: Cons_nth_drop_Suc [symmetric])

lemma scan_braces:
  "CHR ''}'' \<notin> set f \<Longrightarrow> drop n p = f @ CHR ''}'' # t \<Longrightarrow> str \<noteq> [] \<Longrightarrow>
   scan_item p i n True fb str fmt = (n + length f + 1, False, str, substr p (fb + 1) (n + length f - fb - 1))"
proof (induction f arbitrary: n)
  case Nil
  then show ?case using drop_Cons [of n p] by (subst scan_item.simps) simp
next
  case (Cons c f)
  then have n: "n < length p" "p ! n = c" "drop (n + 1) p = f @ CHR ''}'' # t" using drop_Cons [of n p] by simp_all
  moreover have "c \<noteq> CHR ''}''" using Cons.prems(1) by auto
  ultimately show ?case using Cons by (subst scan_item.simps) simp
qed

section \<open>Patterns and their items\<close>

text \<open>What a pattern means: texts and letters with an argument in braces, and how it is written.\<close>

datatype piece = Lit string | Letter char "string option"

fun render_piece :: "piece \<Rightarrow> string" where
  "render_piece (Lit s) = s"
| "render_piece (Letter c None) = [CHR ''%'', c]"
| "render_piece (Letter c (Some f)) = [CHR ''%'', c, CHR ''{''] @ f @ ''}''"

definition render :: "piece list \<Rightarrow> string" where
  "render ps = concat (map render_piece ps)"

definition ends_letter :: "char \<Rightarrow> bool" where
  "ends_letter c \<longleftrightarrow> \<not> is_alpha c \<and> c \<noteq> CHR ''{'' \<and> c \<noteq> CHR ''}''"

fun pieces_ok :: "piece list \<Rightarrow> bool" where
  "pieces_ok [] = True"
| "pieces_ok (Lit s # ps) = (s \<noteq> [] \<and> CHR ''%'' \<notin> set s \<and> (case ps of Lit _ # _ \<Rightarrow> False | _ \<Rightarrow> True) \<and> pieces_ok ps)"
| "pieces_ok (Letter c None # ps) =
     (is_alpha c \<and> (case ps of Lit s # _ \<Rightarrow> ends_letter (hd s) | _ \<Rightarrow> True) \<and> pieces_ok ps)"
| "pieces_ok (Letter c (Some f) # ps) = (is_alpha c \<and> CHR ''}'' \<notin> set f \<and> pieces_ok ps)"

fun piece_item :: "piece \<Rightarrow> FormatItem" where
  "piece_item (Lit s) = StringFormatItem s"
| "piece_item (Letter c a) =
     (case s_format_items [c] of
        None \<Rightarrow> StringFormatItem (''<error_format '' @ [c] @ ''>'')
      | Some f \<Rightarrow> f (case a of None \<Rightarrow> [] | Some x \<Rightarrow> x))"

fun piece_known :: "piece \<Rightarrow> bool" where
  "piece_known (Lit s) = True"
| "piece_known (Letter c a) = (s_format_items [c] \<noteq> None)"

fun piece_tuple :: "piece \<Rightarrow> string \<times> string \<times> int" where
  "piece_tuple (Lit s) = (s, [], 0)"
| "piece_tuple (Letter c a) = ([c], (case a of None \<Rightarrow> [] | Some x \<Rightarrow> x), 1)"

lemma render_simps [simp]: "render [] = []" "render (p # ps) = render_piece p @ render ps"
  by (simp_all add: render_def)

lemma alpha_facts: "is_alpha c \<Longrightarrow> c \<noteq> CHR ''%'' \<and> c \<noteq> CHR ''{'' \<and> c \<noteq> CHR ''}''" "ends_letter CHR ''%''"
  by (auto simp: is_alpha_def ends_letter_def)

lemma render_hd:
  "pieces_ok (Letter c None # ps) \<Longrightarrow> render ps = [] \<or> ends_letter (hd (render ps))"
proof (cases ps)
  case (Cons p qs)
  assume ok: "pieces_ok (Letter c None # ps)"
  show ?thesis
  proof (cases p)
    case (Lit s)
    then show ?thesis using ok Cons by (cases s) auto
  next
    case (Letter d a)
    then show ?thesis using Cons alpha_facts(2) by (cases a) simp_all
  qed
qed simp

text \<open>The loop over one item.\<close>

lemma scan_plain_letter:
  assumes "is_alpha c" "t = [] \<or> ends_letter (hd t)"
  shows "scan_item (CHR ''%'' # c # t) 0 1 False 0 [] [] = (2, False, [c], [])"
proof -
  let ?p = "CHR ''%'' # c # t"
  have 1: "scan_item ?p 0 1 False 0 [] [] = scan_item ?p 0 2 False 0 (if t = [] then [c] else []) []"
    using assms(1) alpha_facts(1) [OF assms(1)] unfolding scan_item.simps [of ?p 0 1] by (simp add: numeral_2_eq_2)
  show ?thesis
  proof (cases t)
    case Nil
    then show ?thesis unfolding 1 by (simp add: scan_item.simps [of _ 0 2])
  next
    case (Cons d r)
    then have "ends_letter d" using assms(2) by simp
    then show ?thesis unfolding 1 unfolding Cons by (simp add: scan_item.simps [of _ 0 "Suc (Suc 0)"] ends_letter_def numeral_2_eq_2 substr_def)
  qed
qed

lemma scan_brace_letter:
  assumes "is_alpha c" "CHR ''}'' \<notin> set f"
  shows "scan_item (CHR ''%'' # c # CHR ''{'' # f @ CHR ''}'' # t) 0 1 False 0 [] [] = (4 + length f, False, [c], f)"
proof -
  let ?p = "CHR ''%'' # c # CHR ''{'' # f @ CHR ''}'' # t"
  have 1: "scan_item ?p 0 1 False 0 [] [] = scan_item ?p 0 2 False 0 [] []"
    using assms(1) alpha_facts(1) [OF assms(1)] unfolding scan_item.simps [of ?p 0 1] by (simp add: numeral_2_eq_2)
  also have "\<dots> = scan_item ?p 0 3 True 2 [c] []"
    unfolding scan_item.simps [of ?p 0 2] by (simp add: numeral_2_eq_2 numeral_3_eq_3 substr_def)
  also have "\<dots> = (3 + length f + 1, False, [c], substr ?p (2 + 1) (3 + length f - 2 - 1))"
    by (rule scan_braces [OF assms(2), of 3 ?p t]) (simp_all add: numeral_3_eq_3)
  also have "substr ?p (2 + 1) (3 + length f - 2 - 1) = f" by (simp add: substr_def numeral_3_eq_3)
  finally show ?thesis by simp
qed

definition text_tuple :: "string \<Rightarrow> (string \<times> string \<times> int) list" where
  "text_tuple s = (if s \<noteq> [] then [(s, [], 0)] else [])"

lemma scan_letter:
  assumes "pieces_ok (Letter c a # ps)"
  shows "scan_pattern (render_piece (Letter c a) @ render ps) 0 nstr vec err =
    scan_pattern (render ps) 0 [] (vec @ text_tuple nstr @ [piece_tuple (Letter c a)]) err"
proof -
  define p where "p = render_piece (Letter c a) @ render ps"
  define x where "x = (case a of None \<Rightarrow> [] | Some x \<Rightarrow> x)"
  have al: "is_alpha c" using assms by (cases a) simp_all
  have s: "scan_item p 0 1 False 0 [] [] = (length (render_piece (Letter c a)), False, [c], x)"
  proof (cases a)
    case None
    then show ?thesis using scan_plain_letter [OF al, of "render ps"] render_hd [of c ps] assms by (simp add: p_def x_def numeral_2_eq_2)
  next
    case (Some f)
    then show ?thesis using scan_brace_letter [OF al, of f "render ps"] assms by (simp add: p_def x_def)
  qed
  have p: "0 < length p" "p ! 0 = CHR ''%''" "\<not> (0 + 1 < length p \<and> p ! (0 + 1) = CHR ''%'')"
    using alpha_facts(1) [OF al] by (cases a; simp add: p_def)+
  have "scan_pattern p 0 nstr vec err =
      scan_pattern p (length (render_piece (Letter c a)) + 0) [] (vec @ text_tuple nstr @ [piece_tuple (Letter c a)]) err"
    using p s unfolding scan_pattern.simps [of p 0 nstr] by (auto simp: text_tuple_def x_def)
  also have "\<dots> = scan_pattern (render ps) 0 [] (vec @ text_tuple nstr @ [piece_tuple (Letter c a)]) err"
    unfolding p_def by (rule scan_pattern_shift)
  finally show ?thesis by (simp add: p_def)
qed

lemma scan_pieces:
  "pieces_ok ps \<Longrightarrow> nstr = [] \<or> (case ps of Lit _ # _ \<Rightarrow> False | _ \<Rightarrow> True) \<Longrightarrow>
   scan_pattern (render ps) 0 nstr vec err = (vec @ text_tuple nstr @ map piece_tuple ps, err)"
proof (induction ps arbitrary: nstr vec)
  case Nil
  then show ?case by (simp add: scan_pattern.simps text_tuple_def)
next
  case (Cons p ps)
  show ?case
  proof (cases p)
    case (Lit s)
    then have "scan_pattern (render (p # ps)) 0 nstr vec err = scan_pattern (render ps) 0 s vec err"
      using Cons.prems scan_text [of s "render ps" "[]" vec err] by simp
    then show ?thesis using Cons.IH [of s vec] Cons.prems Lit by (simp add: text_tuple_def)
  next
    case (Letter c a)
    have "pieces_ok ps" using Cons.prems Letter by (cases a) simp_all
    then show ?thesis using Cons.IH [of "[]" "vec @ text_tuple nstr @ [piece_tuple p]"] Cons.prems Letter
      by (simp add: scan_letter text_tuple_def del: render_piece.simps)
  qed
qed

lemma make_pieces:
  "make_items (map piece_tuple ps) err = (map piece_item ps, err \<or> \<not> list_all piece_known ps)"
proof (induction ps arbitrary: err)
  case Nil
  then show ?case by simp
next
  case (Cons p ps)
  then show ?case by (cases p) (auto split: option.splits)
qed

text \<open>
  C15. The parser of log patterns reads back every pattern that is written from texts without a percent sign
  and letters with an optional argument in braces: the items are the texts and the items of the letters
  in order, and the pattern is an error exactly when a letter is unknown.
\<close>

theorem pattern_roundtrip:
  assumes "pieces_ok ps"
  shows "lf_items (new_LogFormatter (render ps)) = map piece_item ps
    \<and> lf_error (new_LogFormatter (render ps)) = (\<not> list_all piece_known ps)
    \<and> lf_pattern (new_LogFormatter (render ps)) = render ps"
  using scan_pieces [OF assms, of "[]" "[]" False] make_pieces [of ps False]
  by (simp add: new_LogFormatter_def LogFormatter_init_def text_tuple_def)

lemma percent_text:
  "CHR ''%'' \<notin> set s \<Longrightarrow> t \<noteq> [] \<Longrightarrow> hd t = CHR ''%'' \<Longrightarrow>
   scan_pattern (s @ CHR ''%'' # t) 0 [] vec err = scan_pattern t 0 (s @ ''%'') vec err"
proof -
  assume a: "CHR ''%'' \<notin> set s" "t \<noteq> []" "hd t = CHR ''%''"
  have "scan_pattern (CHR ''%'' # t) 0 s vec err = scan_pattern ([CHR ''%''] @ t) (length [CHR ''%''] + 0) (s @ ''%'') vec err"
    using a(2,3) unfolding scan_pattern.simps [of "CHR ''%'' # t" 0 s] by (cases t) auto
  then show ?thesis using scan_text [OF a(1)] scan_pattern_shift [of "''%''" t 0] by simp
qed

text \<open>
  The doubled percent sign is no escape. It puts a percent sign into the text, but the second sign is read
  again: a letter after it is still an item, and at the end of a pattern it makes the pattern an error.
\<close>

theorem percent_escape_broken:
  assumes "CHR ''%'' \<notin> set s" "pieces_ok (Letter c a # ps)"
  shows "lf_items (new_LogFormatter (s @ ''%'' @ render (Letter c a # ps))) = StringFormatItem (s @ ''%'') # map piece_item (Letter c a # ps)
    \<and> lf_items (new_LogFormatter (s @ ''%%'')) = [StringFormatItem (s @ ''%''), StringFormatItem ''<error_format >'']
    \<and> lf_error (new_LogFormatter (s @ ''%%''))"
proof -
  define t where "t = render (Letter c a # ps)"
  have t: "t \<noteq> []" "hd t = CHR ''%''" by (cases a; simp add: t_def)+
  have "scan_pattern (s @ CHR ''%'' # t) 0 [] [] False = ((s @ ''%'', [], 0) # map piece_tuple (Letter c a # ps), False)"
    using percent_text [OF assms(1) t] scan_pieces [OF assms(2), folded t_def, of "s @ ''%''" "[]" False] by (simp add: text_tuple_def)
  then have 1: "lf_items (new_LogFormatter (s @ ''%'' @ t)) = StringFormatItem (s @ ''%'') # map piece_item (Letter c a # ps)"
    using make_pieces [of "Letter c a # ps" False] by (simp add: new_LogFormatter_def LogFormatter_init_def)
  have "scan_item ''%'' 0 1 False 0 [] [] = (1, False, [], [])" by (simp add: scan_item.simps)
  then have "scan_pattern ''%'' 0 (s @ ''%'') [] False = ([(s @ ''%'', [], 0), ([], [], 1)], False)"
    by (simp add: scan_pattern.simps [of "''%''" 0] scan_pattern.simps [of "''%''" "Suc 0"])
  then have "scan_pattern (s @ ''%%'') 0 [] [] False = ([(s @ ''%'', [], 0), ([], [], 1)], False)"
    using percent_text [OF assms(1), of "''%''"] by simp
  then have "lf_items (new_LogFormatter (s @ ''%%'')) = [StringFormatItem (s @ ''%''), StringFormatItem ''<error_format >'']"
    "lf_error (new_LogFormatter (s @ ''%%''))"
    by (simp_all add: new_LogFormatter_def LogFormatter_init_def s_format_items.simps)
  then show ?thesis using 1 by (simp add: t_def)
qed

text \<open>The default pattern of a logger.\<close>

definition default_pattern :: string where
  "default_pattern = ''%d{%Y-%m-%d %H:%M:%S} %T%t %T%N %T%F %T[%p]%T[%c] %T%f:%l %T%m%n''"

definition default_pieces :: "piece list" where
  "default_pieces = [Letter CHR ''d'' (Some ''%Y-%m-%d %H:%M:%S''), Lit '' '', Letter CHR ''T'' None, Letter CHR ''t'' None, Lit '' '',
     Letter CHR ''T'' None, Letter CHR ''N'' None, Lit '' '', Letter CHR ''T'' None, Letter CHR ''F'' None, Lit '' '', Letter CHR ''T'' None,
     Lit ''['', Letter CHR ''p'' None, Lit '']'', Letter CHR ''T'' None, Lit ''['', Letter CHR ''c'' None, Lit ''] '', Letter CHR ''T'' None,
     Letter CHR ''f'' None, Lit '':'', Letter CHR ''l'' None, Lit '' '', Letter CHR ''T'' None, Letter CHR ''m'' None, Letter CHR ''n'' None]"

theorem pattern_roundtrip_witness:
  "lf_error (new_LogFormatter default_pattern) = False
   \<and> lf_items (new_LogFormatter default_pattern) =
     [DateTimeFormatItem ''%Y-%m-%d %H:%M:%S'', StringFormatItem '' '', TabFormatItem, ThreadIdFormatItem, StringFormatItem '' '',
      TabFormatItem, ThreadNameFormatItem, StringFormatItem '' '', TabFormatItem, FiberIdFormatItem, StringFormatItem '' '', TabFormatItem,
      StringFormatItem ''['', LevelFormatItem, StringFormatItem '']'', TabFormatItem, StringFormatItem ''['', NameFormatItem,
      StringFormatItem ''] '', TabFormatItem, FilenameFormatItem, StringFormatItem '':'', LineFormatItem, StringFormatItem '' '',
      TabFormatItem, MessageFormatItem, NewLineFormatItem]"
proof -
  have r: "render default_pieces = default_pattern" by (simp add: default_pieces_def default_pattern_def)
  have ok: "pieces_ok default_pieces" by (simp add: default_pieces_def is_alpha_def ends_letter_def)
  show ?thesis using pattern_roundtrip [OF ok] unfolding r
    by (simp add: default_pieces_def s_format_items.simps new_DateTimeFormatItem_def)
qed

theorem percent_escape_broken_witness:
  "lf_items (new_LogFormatter ''a%%m'') = [StringFormatItem ''a%'', MessageFormatItem] \<and> lf_error (new_LogFormatter ''100%%'')"
  using percent_escape_broken [of "''a''" "CHR ''m''" None "[]"] percent_escape_broken [of "''100''" "CHR ''m''" None "[]"]
  by (simp add: is_alpha_def s_format_items.simps)

end
