(* ===== verification/Loggers.thy ===== *)
theory Loggers
  imports Config_Vars Log_Format
begin

text \<open>
  Appenders, loggers, the manager and the configuration of the loggers of \<open>log/log.h\<close> and \<open>log.cpp\<close>, on top of the formats
  and the configuration. The lemmas show what a log file holds, where a message goes after any operations,
  and what a changed configuration does to the loggers. The messages on the standard output about invalid
  configurations are not modelled.
\<close>

section \<open>Appenders\<close>

datatype appender_kind = StdoutLogAppender | FileLogAppender string

text \<open>
  A file appender has its stream, whether it is open and whether it has no error, and the second of the last
  reopening, which no constructor sets.
\<close>

record LogAppender =
  ap_kind :: appender_kind
  ap_level :: LogLevel
  ap_hasFormatter :: bool
  ap_formatter :: "LogFormatter option"
  ap_reopenTime :: u64
  ap_open :: bool
  ap_good :: bool

definition new_StdoutLogAppender :: LogAppender where
  "new_StdoutLogAppender =
     \<lparr>ap_kind = StdoutLogAppender, ap_level = DEBUG, ap_hasFormatter = False, ap_formatter = None, ap_reopenTime = 0,
      ap_open = False, ap_good = True\<rparr>"

definition new_FileLogAppender :: "u64 \<Rightarrow> string \<Rightarrow> LogAppender" where
  "new_FileLogAppender junk filename =
     \<lparr>ap_kind = FileLogAppender filename, ap_level = DEBUG, ap_hasFormatter = False, ap_formatter = None, ap_reopenTime = junk,
      ap_open = False, ap_good = True\<rparr>"

definition LogAppender_setFormatter :: "LogFormatter option \<Rightarrow> LogAppender \<Rightarrow> LogAppender" where
  "LogAppender_setFormatter val a = a\<lparr>ap_formatter := val, ap_hasFormatter := (val \<noteq> None)\<rparr>"

definition LogAppender_setLevel :: "LogLevel \<Rightarrow> LogAppender \<Rightarrow> LogAppender" where
  "LogAppender_setLevel val a = a\<lparr>ap_level := val\<rparr>"

text \<open>
  What the world answers while a message is logged: dates, the clock, which files can be opened, and
  the value of an unset member.
\<close>

record log_env =
  en_strf :: strftime
  en_junk :: string
  en_now :: u64
  en_can_open :: "string \<Rightarrow> bool"
  en_unset :: u64

text \<open>
  \<open>reopen\<close>: a stream without error is closed, which sets the fail bit when it was not open; opening
  truncates the file and clears the bits, and fails when the file cannot be opened or the stream is
  still open.
\<close>

definition reopen :: "log_env \<Rightarrow> string \<Rightarrow> LogAppender \<Rightarrow> (string \<Rightarrow> string) \<Rightarrow> bool \<times> LogAppender \<times> (string \<Rightarrow> string)" where
  "reopen env filename a files =
     (let a1 = (if ap_good a then a\<lparr>ap_open := False, ap_good := ap_open a\<rparr> else a)
      in if ap_open a1 then (True, a1\<lparr>ap_good := False\<rparr>, files)
         else if en_can_open env filename then (True, a1\<lparr>ap_open := True, ap_good := True\<rparr>, files(filename := []))
         else (False, a1\<lparr>ap_good := False\<rparr>, files))"

text \<open>Writing to a stream that is not open sets its bad bit.\<close>

definition stream_put :: "string \<Rightarrow> string \<Rightarrow> LogAppender \<Rightarrow> (string \<Rightarrow> string) \<Rightarrow> LogAppender \<times> (string \<Rightarrow> string)" where
  "stream_put s filename a files =
     (if \<not> ap_good a then (a, files)
      else if ap_open a then (a, files(filename := files filename @ s))
      else (a\<lparr>ap_good := (s = [])\<rparr>, files))"

datatype log_error = NullFormatter | NullLogger | NullAppender

text \<open>A message with the standard output and the files; a null formatter is dereferenced.\<close>

type_synonym log_io = "string \<times> (string \<Rightarrow> string)"

definition StdoutLogAppender_log :: "log_env \<Rightarrow> LogLevel \<Rightarrow> LogEvent \<Rightarrow> LogAppender \<Rightarrow> log_io \<Rightarrow> log_error + LogAppender \<times> log_io" where
  "StdoutLogAppender_log env level event a io =
     (if ap_level a \<le> level then
        (case ap_formatter a of
           None \<Rightarrow> Inl NullFormatter
         | Some f \<Rightarrow> Inr (a, fst io @ LogFormatter_format (en_strf env) (en_junk env) f level event, snd io))
      else Inr (a, io))"

definition FileLogAppender_log ::
  "log_env \<Rightarrow> LogLevel \<Rightarrow> LogEvent \<Rightarrow> string \<Rightarrow> LogAppender \<Rightarrow> log_io \<Rightarrow> log_error + LogAppender \<times> log_io" where
  "FileLogAppender_log env level event filename a io =
     (if ap_level a \<le> level then
        let (a1, files1) =
          (if en_now env \<noteq> ap_reopenTime a
           then (case reopen env filename a (snd io) of (_, a0, files0) \<Rightarrow> (a0\<lparr>ap_reopenTime := en_now env\<rparr>, files0))
           else (a, snd io))
        in case ap_formatter a1 of
             None \<Rightarrow> Inl NullFormatter
           | Some f \<Rightarrow>
               (case stream_put (LogFormatter_format (en_strf env) (en_junk env) f level event) filename a1 files1 of
                  (a2, files2) \<Rightarrow> Inr (a2, fst io, files2))
      else Inr (a, io))"

definition LogAppender_log :: "log_env \<Rightarrow> LogLevel \<Rightarrow> LogEvent \<Rightarrow> LogAppender \<Rightarrow> log_io \<Rightarrow> log_error + LogAppender \<times> log_io" where
  "LogAppender_log env level event a io =
     (case ap_kind a of
        StdoutLogAppender \<Rightarrow> StdoutLogAppender_log env level event a io
      | FileLogAppender filename \<Rightarrow> FileLogAppender_log env level event filename a io)"

section \<open>Loggers\<close>

text \<open>
  A logger refers to its appenders by their addresses, which loggers may share, and to the root logger by
  name. The world has all appenders and the loggers of the manager by name.
\<close>

record Logger =
  lg_name :: string
  lg_level :: LogLevel
  lg_appenders :: "nat list"
  lg_formatter :: "LogFormatter option"
  lg_root :: "string option"

definition new_Logger :: "string \<Rightarrow> Logger" where
  "new_Logger name =
     \<lparr>lg_name = name, lg_level = INFO, lg_appenders = [], lg_formatter = Some (new_LogFormatter default_pattern), lg_root = None\<rparr>"

record log_world =
  lw_appenders :: "LogAppender list"
  lw_loggers :: "(string \<times> Logger) list"
  lw_stdout :: string
  lw_files :: "string \<Rightarrow> string"

definition find_logger :: "string \<Rightarrow> log_world \<Rightarrow> Logger option" where
  "find_logger name w = om_find str_less name (lw_loggers w)"

text \<open>An operation on the logger of a name; \<open>None\<close> is the null pointer.\<close>

definition update_logger :: "(Logger \<Rightarrow> Logger) \<Rightarrow> string \<Rightarrow> log_world \<Rightarrow> log_world" where
  "update_logger f name w =
     (case find_logger name w of
        None \<Rightarrow> w
      | Some l \<Rightarrow> w\<lparr>lw_loggers := om_put str_less name (f l) (lw_loggers w)\<rparr>)"

definition update_appender :: "(LogAppender \<Rightarrow> LogAppender) \<Rightarrow> nat \<Rightarrow> log_world \<Rightarrow> log_world" where
  "update_appender f i w = w\<lparr>lw_appenders := (lw_appenders w)[i := f (lw_appenders w ! i)]\<rparr>"

definition addAppender :: "string \<Rightarrow> nat \<Rightarrow> log_world \<Rightarrow> log_world" where
  "addAppender name i w =
     (case find_logger name w of
        None \<Rightarrow> w
      | Some l \<Rightarrow>
          let w1 = (if ap_formatter (lw_appenders w ! i) = None
                    then update_appender (\<lambda>a. a\<lparr>ap_formatter := lg_formatter l\<rparr>) i w else w)
          in update_logger (\<lambda>l. l\<lparr>lg_appenders := lg_appenders l @ [i]\<rparr>) name w1)"

definition delAppender :: "string \<Rightarrow> nat \<Rightarrow> log_world \<Rightarrow> log_world" where
  "delAppender name i w = update_logger (\<lambda>l. l\<lparr>lg_appenders := remove1 i (lg_appenders l)\<rparr>) name w"

definition clearAppenders :: "string \<Rightarrow> log_world \<Rightarrow> log_world" where
  "clearAppenders name w = update_logger (\<lambda>l. l\<lparr>lg_appenders := []\<rparr>) name w"

definition Logger_setLevel :: "LogLevel \<Rightarrow> string \<Rightarrow> log_world \<Rightarrow> log_world" where
  "Logger_setLevel level name w = update_logger (\<lambda>l. l\<lparr>lg_level := level\<rparr>) name w"

definition Logger_setFormatter :: "LogFormatter option \<Rightarrow> string \<Rightarrow> log_world \<Rightarrow> log_world" where
  "Logger_setFormatter val name w =
     (case find_logger name w of
        None \<Rightarrow> w
      | Some l \<Rightarrow>
          fold (update_appender (\<lambda>a. if ap_hasFormatter a then a else a\<lparr>ap_formatter := val\<rparr>)) (lg_appenders l)
            (update_logger (\<lambda>l. l\<lparr>lg_formatter := val\<rparr>) name w))"

definition Logger_setFormatter_str :: "string \<Rightarrow> string \<Rightarrow> log_world \<Rightarrow> log_world" where
  "Logger_setFormatter_str val name w =
     (let new_val = new_LogFormatter val in if lf_error new_val then w else Logger_setFormatter (Some new_val) name w)"

fun log_all :: "log_env \<Rightarrow> LogLevel \<Rightarrow> LogEvent \<Rightarrow> nat list \<Rightarrow> log_world \<Rightarrow> log_error + log_world" where
  "log_all env level event [] w = Inr w"
| "log_all env level event (i # is) w =
     bind_res (LogAppender_log env level event (lw_appenders w ! i) (lw_stdout w, lw_files w)) (\<lambda>(a, out, files).
       log_all env level event is (w\<lparr>lw_appenders := (lw_appenders w)[i := a], lw_stdout := out, lw_files := files\<rparr>))"

text \<open>
  \<open>log\<close>, with the recursion to the root logger. The fuel bounds its depth; \<open>None\<close> says that it was not enough.
\<close>

fun Logger_log :: "nat \<Rightarrow> log_env \<Rightarrow> LogLevel \<Rightarrow> LogEvent \<Rightarrow> string \<Rightarrow> log_world \<Rightarrow> (log_error + log_world) option" where
  "Logger_log 0 env level event name w = None"
| "Logger_log (Suc fuel) env level event name w =
     (case find_logger name w of
        None \<Rightarrow> Some (Inl NullLogger)
      | Some l \<Rightarrow>
          if lg_level l \<le> level then
            if lg_appenders l \<noteq> [] then Some (log_all env level event (lg_appenders l) w)
            else case lg_root l of
                   None \<Rightarrow> Some (Inr w)
                 | Some r \<Rightarrow> Logger_log fuel env level event r w
          else Some (Inr w))"

definition LogEventWrap_destroy :: "nat \<Rightarrow> log_env \<Rightarrow> LogEvent \<Rightarrow> log_world \<Rightarrow> (log_error + log_world) option" where
  "LogEventWrap_destroy fuel env event w = Logger_log fuel env (ev_level event) event (ev_logger event) w"

definition Logger_debug where "Logger_debug fuel env event name w = Logger_log fuel env DEBUG event name w"
definition Logger_info where "Logger_info fuel env event name w = Logger_log fuel env INFO event name w"
definition Logger_warn where "Logger_warn fuel env event name w = Logger_log fuel env WARN event name w"
definition Logger_error where "Logger_error fuel env event name w = Logger_log fuel env ERROR event name w"
definition Logger_fatal where "Logger_fatal fuel env event name w = Logger_log fuel env FATAL event name w"

section \<open>The manager\<close>

definition new_appender :: "LogAppender \<Rightarrow> log_world \<Rightarrow> nat \<times> log_world" where
  "new_appender a w = (length (lw_appenders w), w\<lparr>lw_appenders := lw_appenders w @ [a]\<rparr>)"

definition new_LoggerManager :: "(string \<Rightarrow> string) \<Rightarrow> log_world" where
  "new_LoggerManager files =
     (let w = \<lparr>lw_appenders = [], lw_loggers = [(''root'', new_Logger ''root'')], lw_stdout = [], lw_files = files\<rparr>;
          (i, w1) = new_appender new_StdoutLogAppender w
      in addAppender ''root'' i w1)"

definition getLogger :: "string \<Rightarrow> log_world \<Rightarrow> log_world" where
  "getLogger name w =
     (if find_logger name w \<noteq> None then w
      else w\<lparr>lw_loggers := om_put str_less name ((new_Logger name)\<lparr>lg_root := Some ''root''\<rparr>) (lw_loggers w)\<rparr>)"

section \<open>YAML\<close>

definition yaml_str :: "'n yaml_api \<Rightarrow> string \<Rightarrow> string \<Rightarrow> 'n \<Rightarrow> 'n" where
  "yaml_str api k s n = ya_set api k (ya_string api s) n"

definition yaml_formatter :: "'n yaml_api \<Rightarrow> LogAppender \<Rightarrow> 'n \<Rightarrow> 'n" where
  "yaml_formatter api a n =
     (if ap_hasFormatter a \<and> ap_formatter a \<noteq> None then yaml_str api ''formatter'' (lf_pattern (the (ap_formatter a))) n else n)"

definition StdoutLogAppender_toYamlString :: "'n yaml_api \<Rightarrow> LogAppender \<Rightarrow> string" where
  "StdoutLogAppender_toYamlString api a =
     ya_emit api (yaml_formatter api a (yaml_str api ''level'' (LogLevel_toString (ap_level a))
       (yaml_str api ''type'' ''StdoutLogAppender'' (ya_null api))))"

definition FileLogAppender_toYamlString :: "'n yaml_api \<Rightarrow> string \<Rightarrow> LogAppender \<Rightarrow> string" where
  "FileLogAppender_toYamlString api filename a =
     ya_emit api (yaml_formatter api a (yaml_str api ''level'' (LogLevel_toString (ap_level a))
       (yaml_str api ''file'' filename (yaml_str api ''type'' ''FileLogAppender'' (ya_null api)))))"

definition LogAppender_toYamlString :: "'n yaml_api \<Rightarrow> LogAppender \<Rightarrow> string" where
  "LogAppender_toYamlString api a =
     (case ap_kind a of
        StdoutLogAppender \<Rightarrow> StdoutLogAppender_toYamlString api a
      | FileLogAppender filename \<Rightarrow> FileLogAppender_toYamlString api filename a)"

definition Logger_toYamlString :: "'n yaml_api \<Rightarrow> Logger \<Rightarrow> log_world \<Rightarrow> string + string" where
  "Logger_toYamlString api l w =
     (let n = yaml_str api ''level'' (LogLevel_toString (lg_level l)) (yaml_str api ''name'' (lg_name l) (ya_null api));
          n1 = (case lg_formatter l of None \<Rightarrow> n | Some f \<Rightarrow> yaml_str api ''formatter'' (lf_pattern f) n)
      in bind_res (traverse (\<lambda>i. ya_load api (LogAppender_toYamlString api (lw_appenders w ! i))) (lg_appenders l)) (\<lambda>ns.
           Inr (ya_emit api (if ns = [] then n1 else ya_set api ''appenders'' (foldl (ya_push api) (ya_null api) ns) n1))))"

definition LoggerManager_toYamlString :: "'n yaml_api \<Rightarrow> log_world \<Rightarrow> string + string" where
  "LoggerManager_toYamlString api w =
     bind_res (traverse (\<lambda>(k, l). bind_res (Logger_toYamlString api l w) (ya_load api)) (lw_loggers w)) (\<lambda>ns.
       Inr (ya_emit api (foldl (ya_push api) (ya_null api) ns)))"

section \<open>The configuration of the loggers\<close>

record LogAppenderDefine =
  ad_type :: int
  ad_level :: LogLevel
  ad_formatter :: string
  ad_file :: string

record LogDefine =
  ld_name :: string
  ld_level :: LogLevel
  ld_formatter :: string
  ld_appenders :: "LogAppenderDefine list"

definition new_LogAppenderDefine :: LogAppenderDefine where
  "new_LogAppenderDefine = \<lparr>ad_type = 0, ad_level = DEBUG, ad_formatter = [], ad_file = []\<rparr>"

definition LogDefine_less :: "LogDefine \<Rightarrow> LogDefine \<Rightarrow> bool" where
  "LogDefine_less a b = str_less (ld_name a) (ld_name b)"

text \<open>The cast from a text. An entry without a name and an appender without a type or a file are left out.\<close>

definition appender_from :: "'n yaml_api \<Rightarrow> 'n \<Rightarrow> string + LogAppenderDefine option" where
  "appender_from api a =
     (case ya_get api a ''type'' of
        None \<Rightarrow> Inr None
      | Some t \<Rightarrow>
          bind_res (ya_as_string api t) (\<lambda>ty.
            if ty = ''FileLogAppender'' then
              (case ya_get api a ''file'' of
                 None \<Rightarrow> Inr None
               | Some f \<Rightarrow>
                   bind_res (ya_as_string api f) (\<lambda>file.
                     let lad = new_LogAppenderDefine\<lparr>ad_type := 1, ad_file := file\<rparr>
                     in case ya_get api a ''formatter'' of
                          None \<Rightarrow> Inr (Some lad)
                        | Some g \<Rightarrow> bind_res (ya_as_string api g) (\<lambda>fmt. Inr (Some (lad\<lparr>ad_formatter := fmt\<rparr>)))))
            else if ty = ''StdoutLogAppender'' then Inr (Some (new_LogAppenderDefine\<lparr>ad_type := 2\<rparr>))
            else Inr None))"

definition define_from :: "'n yaml_api \<Rightarrow> 'n \<Rightarrow> string + LogDefine option" where
  "define_from api n =
     (case ya_get api n ''name'' of
        None \<Rightarrow> Inr None
      | Some nn \<Rightarrow>
          bind_res (ya_as_string api nn) (\<lambda>name.
          bind_res (case ya_get api n ''level'' of None \<Rightarrow> Inr [] | Some l \<Rightarrow> ya_as_string api l) (\<lambda>level.
          bind_res (case ya_get api n ''formatter'' of None \<Rightarrow> Inr [] | Some f \<Rightarrow> ya_as_string api f) (\<lambda>formatter.
          bind_res (case ya_get api n ''appenders'' of None \<Rightarrow> Inr [] | Some as \<Rightarrow> traverse (appender_from api) (yaml_items api as)) (\<lambda>apps.
            Inr (Some \<lparr>ld_name = name, ld_level = LogLevel_FromString level, ld_formatter = formatter,
                       ld_appenders = List.map_filter (\<lambda>x. x) apps\<rparr>))))))"

definition defines_from :: "'n yaml_api \<Rightarrow> string \<Rightarrow> string + LogDefine list" where
  "defines_from api v =
     bind_res (ya_load api v) (\<lambda>node.
     bind_res (traverse (define_from api) (yaml_items api node)) (\<lambda>ds.
       Inr (foldl (\<lambda>s d. oset_insert LogDefine_less d s) [] (List.map_filter (\<lambda>x. x) ds))))"

text \<open>The cast to a text; it writes the formatter under the key of the level.\<close>

definition appender_to :: "'n yaml_api \<Rightarrow> LogAppenderDefine \<Rightarrow> 'n" where
  "appender_to api a =
     (let n = (if ad_type a = 1 then yaml_str api ''file'' (ad_file a) (yaml_str api ''type'' ''FileLogAppender'' (ya_null api))
               else if ad_type a = 2 then yaml_str api ''type'' ''StdoutLogAppender'' (ya_null api)
               else ya_null api);
          n1 = yaml_str api ''level'' (LogLevel_toString (ad_level a)) n
      in if ad_formatter a = [] then n1 else yaml_str api ''formatter'' (ad_formatter a) n1)"

definition define_to :: "'n yaml_api \<Rightarrow> LogDefine \<Rightarrow> 'n" where
  "define_to api d =
     (let n = yaml_str api ''level'' (LogLevel_toString (ld_level d)) (yaml_str api ''name'' (ld_name d) (ya_null api));
          n1 = (if ld_formatter d = [] then n else yaml_str api ''level'' (ld_formatter d) n)
      in if ld_appenders d = [] then n1
         else ya_set api ''appenders'' (foldl (ya_push api) (ya_null api) (map (appender_to api) (ld_appenders d))) n1)"

definition defines_to :: "'n yaml_api \<Rightarrow> LogDefine list \<Rightarrow> string" where
  "defines_to api v = ya_emit api (foldl (ya_push api) (ya_null api) (map (define_to api) v))"

section \<open>The listener\<close>

definition make_appender :: "log_env \<Rightarrow> LogAppenderDefine \<Rightarrow> log_error + LogAppender" where
  "make_appender env a =
     bind_res (if ad_type a = 1 then Inr (new_FileLogAppender (en_unset env) (ad_file a))
               else if ad_type a = 2 then Inr new_StdoutLogAppender else Inl NullAppender) (\<lambda>ap.
       let ap1 = ap\<lparr>ap_level := ad_level a\<rparr>
       in Inr (if ad_formatter a = [] then ap1
               else let fmt = new_LogFormatter (ad_formatter a)
                    in if lf_error fmt then ap1 else LogAppender_setFormatter (Some fmt) ap1))"

fun add_appenders :: "log_env \<Rightarrow> string \<Rightarrow> LogAppenderDefine list \<Rightarrow> log_world \<Rightarrow> log_error + log_world" where
  "add_appenders env name [] w = Inr w"
| "add_appenders env name (a # as) w =
     bind_res (make_appender env a) (\<lambda>ap.
       let (i, w1) = new_appender ap w in add_appenders env name as (addAppender name i w1))"

definition apply_define :: "log_env \<Rightarrow> LogDefine \<Rightarrow> log_world \<Rightarrow> log_error + log_world" where
  "apply_define env d w =
     (let w1 = Logger_setLevel (ld_level d) (ld_name d) w;
          w2 = (if ld_formatter d = [] then w1 else Logger_setFormatter_str (ld_formatter d) (ld_name d) w1)
      in add_appenders env (ld_name d) (ld_appenders d) (clearAppenders (ld_name d) w2))"

text \<open>
  The loop over the new definitions: the logger stays the null pointer when its definition did not
  change, and is then dereferenced.
\<close>

fun apply_defines :: "log_env \<Rightarrow> LogDefine list \<Rightarrow> LogDefine list \<Rightarrow> log_world \<Rightarrow> log_error + log_world" where
  "apply_defines env old [] w = Inr w"
| "apply_defines env old (d # ds) w =
     (if oset_find LogDefine_less d old = Some d then Inl NullLogger
      else bind_res (apply_define env d (getLogger (ld_name d) w)) (apply_defines env old ds))"

fun drop_loggers :: "LogDefine list \<Rightarrow> LogDefine list \<Rightarrow> log_world \<Rightarrow> log_world" where
  "drop_loggers [] new w = w"
| "drop_loggers (d # ds) new w =
     drop_loggers ds new (if oset_find LogDefine_less d new = None then clearAppenders (ld_name d) (getLogger (ld_name d) w) else w)"

definition logs_changed :: "log_env \<Rightarrow> LogDefine list \<Rightarrow> LogDefine list \<Rightarrow> log_world \<Rightarrow> log_error + log_world" where
  "logs_changed env old_value new_value w =
     bind_res (apply_defines env old_value new_value w) (\<lambda>w1. Inr (drop_loggers old_value new_value w1))"

section \<open>A file appender\<close>

text \<open>A sequence of messages, each with the world it is logged in.\<close>

fun log_messages :: "(log_env \<times> LogLevel \<times> LogEvent) list \<Rightarrow> LogAppender \<times> log_io \<Rightarrow>
    log_error + LogAppender \<times> log_io" where
  "log_messages [] aio = Inr aio"
| "log_messages ((env, level, event) # es) aio =
     (case aio of (a, io) \<Rightarrow> bind_res (LogAppender_log env level event a io) (log_messages es))"

lemma log_messages_append:
  "log_messages (es @ fs) aio = bind_res (log_messages es aio) (log_messages fs)"
proof (induction es aio rule: log_messages.induct)
  case (2 env level event es aio)
  obtain a io where aio: "aio = (a, io)" by (cases aio)
  show ?case
  proof (cases "LogAppender_log env level event a io")
    case (Inl e)
    then show ?thesis by (simp add: aio)
  next
    case (Inr x)
    then show ?thesis using "2.IH" [of a io x] by (simp add: aio)
  qed
qed simp

text \<open>The messages at the end that were logged in the same second as the last one.\<close>

definition last_second :: "(log_env \<times> LogLevel \<times> LogEvent) list \<Rightarrow> (log_env \<times> LogLevel \<times> LogEvent) list" where
  "last_second es = rev (takeWhile (\<lambda>e. en_now (fst e) = en_now (fst (last es))) (rev es))"

definition message_text :: "LogFormatter \<Rightarrow> log_env \<times> LogLevel \<times> LogEvent \<Rightarrow> string" where
  "message_text f e = (case e of (env, level, event) \<Rightarrow> LogFormatter_format (en_strf env) (en_junk env) f level event)"

lemma last_second_snoc:
  "last_second (es @ [e]) = (if es \<noteq> [] \<and> en_now (fst (last es)) = en_now (fst e) then last_second es @ [e] else [e])"
proof (cases "es = []")
  case False
  then have r: "rev es = last es # rev (butlast es)" by (metis append_butlast_last_id rev_eq_Cons_iff rev_rev_ident)
  have "takeWhile P (rev es) = []" if "\<not> P (last es)" for P using that by (subst r) simp
  then show ?thesis using False by (simp add: last_second_def)
qed (simp add: last_second_def)

lemma file_log_run:
  assumes "ap_kind a = FileLogAppender fn" "ap_formatter a = Some f" "\<not> ap_open a" "ap_good a"
  shows "es \<noteq> [] \<Longrightarrow> en_now (fst (hd es)) \<noteq> ap_reopenTime a \<Longrightarrow> \<forall>(env, level, event) \<in> set es. ap_level a \<le> level \<and> en_can_open env fn \<Longrightarrow>
    log_messages es (a, out, files) =
      Inr (a\<lparr>ap_reopenTime := en_now (fst (last es)), ap_open := True\<rparr>, out, files(fn := concat (map (message_text f) (last_second es))))"
proof (induction es rule: rev_induct)
  case (snoc e es)
  obtain env level event where e: "e = (env, level, event)" by (cases e)
  have lv: "ap_level a \<le> level" "en_can_open env fn" using snoc.prems(3) by (auto simp: e)
  have tx: "message_text f e = LogFormatter_format (en_strf env) (en_junk env) f level event" by (simp add: message_text_def e)
  show ?case
  proof (cases "es = []")
    case True
    then show ?thesis using snoc.prems(2) lv assms
      by (simp add: e LogAppender_log_def FileLogAppender_log_def reopen_def stream_put_def last_second_def message_text_def fun_eq_iff)
  next
    case False
    define g where "g = concat (map (message_text f) (last_second es))"
    have 1: "log_messages es (a, out, files) = Inr (a\<lparr>ap_reopenTime := en_now (fst (last es)), ap_open := True\<rparr>, out, files(fn := g))"
      unfolding g_def by (rule snoc.IH) (use False snoc.prems in auto)
    have "log_messages [e] (a\<lparr>ap_reopenTime := en_now (fst (last es)), ap_open := True\<rparr>, out, files(fn := g)) =
        Inr (a\<lparr>ap_reopenTime := en_now env, ap_open := True\<rparr>, out,
          files(fn := (if en_now (fst (last es)) = en_now env then g @ message_text f e else message_text f e)))"
      using lv assms by (simp add: e LogAppender_log_def FileLogAppender_log_def reopen_def stream_put_def message_text_def)
    then show ?thesis using False unfolding log_messages_append 1 by (simp add: last_second_snoc g_def e fun_eq_iff)
  qed
qed simp

text \<open>
  C23. A log file holds the messages of one second. The first message of every second reopens the file, which truncates it,
  so after any sequence of messages it holds exactly those at the end that were logged in the same
  second as the last one, and all earlier ones are gone.
\<close>

theorem file_holds_last_second:
  assumes "a = (new_FileLogAppender junk fn)\<lparr>ap_level := level, ap_formatter := Some f\<rparr>" "es \<noteq> []" "en_now (fst (hd es)) \<noteq> junk"
    "\<forall>(env, lv, event) \<in> set es. level \<le> lv \<and> en_can_open env fn"
  shows "\<exists>a1. log_messages es (a, out, files) = Inr (a1, out, files(fn := concat (map (message_text f) (last_second es))))
    \<and> ap_open a1 \<and> ap_good a1"
  using file_log_run [of a fn f es out files] assms by (simp add: new_FileLogAppender_def)

definition sample_log_env :: "u64 \<Rightarrow> log_env" where
  "sample_log_env now = \<lparr>en_strf = (\<lambda>f t. []), en_junk = [], en_now = now, en_can_open = (\<lambda>f. True), en_unset = 0\<rparr>"

definition sample_event :: "string \<Rightarrow> LogEvent" where
  "sample_event s = getSS_put s (new_LogEvent ''root'' WARN ''f'' 1 0 1 ''t'' 0 1)"

theorem file_holds_last_second_witness:
  "\<exists>a1. log_messages [(sample_log_env 1, WARN, sample_event ''a''), (sample_log_env 2, WARN, sample_event ''b''), (sample_log_env 2, WARN, sample_event ''c'')]
     ((new_FileLogAppender 0 ''l'')\<lparr>ap_level := INFO, ap_formatter := Some \<lparr>lf_pattern = ''%m'', lf_items = [MessageFormatItem], lf_error = False\<rparr>\<rparr>,
      [], \<lambda>_. []) = Inr (a1, [], (\<lambda>_. [])(''l'' := ''bc'')) \<and> ap_open a1"
  using file_holds_last_second [of _ "\<lparr>lf_pattern = ''%m'', lf_items = [MessageFormatItem], lf_error = False\<rparr>" INFO 0 "''l''"
     "[(sample_log_env 1, WARN, sample_event ''a''), (sample_log_env 2, WARN, sample_event ''b''), (sample_log_env 2, WARN, sample_event ''c'')]"
     "[]" "\<lambda>_. []", OF refl]
  by (auto simp: sample_log_env_def sample_event_def new_LogEvent_def getSS_put_def last_second_def message_text_def LogFormatter_format_def
      less_eq_LogLevel_def simp del: log_messages.simps)

section \<open>Invariants of the manager\<close>

text \<open>
  The invariants come in two strengths: \<open>nn\<close> says that no null pointer was ever handed over as a
  formatter, and then every logger and every appender in use has one. A stream that is open has no error.
\<close>

definition logger_ok :: "bool \<Rightarrow> LogAppender list \<Rightarrow> string \<Rightarrow> Logger \<Rightarrow> bool" where
  "logger_ok nn aps name l \<longleftrightarrow> lg_root l = (if name = ''root'' then None else Some ''root'') \<and> (nn \<longrightarrow> lg_formatter l \<noteq> None) \<and> lg_name l = name
     \<and> (\<forall>i \<in> set (lg_appenders l). i < length aps \<and> (nn \<longrightarrow> ap_formatter (aps ! i) \<noteq> None))"

definition stream_ok :: "LogAppender \<Rightarrow> bool" where
  "stream_ok a \<longleftrightarrow> ap_open a \<longrightarrow> ap_good a"

definition log_inv :: "bool \<Rightarrow> log_world \<Rightarrow> bool" where
  "log_inv nn w \<longleftrightarrow> sorted_wrt str_less (map fst (lw_loggers w)) \<and> find_logger ''root'' w \<noteq> None
     \<and> (\<forall>name l. find_logger name w = Some l \<longrightarrow> logger_ok nn (lw_appenders w) name l) \<and> (\<forall>a \<in> set (lw_appenders w). stream_ok a)"

lemma find_update:
  "sorted_wrt str_less (map fst (lw_loggers w)) \<Longrightarrow>
   find_logger j (update_logger f name w) = (if j = name then map_option f (find_logger name w) else find_logger j w)"
  by (auto simp: update_logger_def find_logger_def find_str_put split: option.splits)

lemma sorted_update:
  "sorted_wrt str_less (map fst (lw_loggers w)) \<Longrightarrow> sorted_wrt str_less (map fst (lw_loggers (update_logger f name w)))"
  by (simp add: update_logger_def string_order.sorted_put split: option.splits)

lemma update_logger_other [simp]:
  "lw_appenders (update_logger f name w) = lw_appenders w" "lw_stdout (update_logger f name w) = lw_stdout w"
  "lw_files (update_logger f name w) = lw_files w"
  by (simp_all add: update_logger_def split: option.splits)

lemma update_appender_other [simp]:
  "lw_loggers (update_appender f i w) = lw_loggers w" "find_logger j (update_appender f i w) = find_logger j w"
  "length (lw_appenders (update_appender f i w)) = length (lw_appenders w)"
  by (simp_all add: update_appender_def find_logger_def)

lemma log_inv_logger:
  assumes "log_inv nn w" "\<And>l. find_logger name w = Some l \<Longrightarrow> logger_ok nn (lw_appenders w) name l \<Longrightarrow> logger_ok nn (lw_appenders w) name (f l)"
  shows "log_inv nn (update_logger f name w)"
proof -
  have s: "sorted_wrt str_less (map fst (lw_loggers w))" using assms(1) by (simp add: log_inv_def)
  show ?thesis using assms sorted_update [OF s, of f name] unfolding log_inv_def find_update [OF s] by auto
qed

lemma log_inv_appenders:
  assumes "log_inv nn w" "lw_loggers w1 = lw_loggers w" "length (lw_appenders w) \<le> length (lw_appenders w1)"
    "\<And>i. nn \<Longrightarrow> i < length (lw_appenders w) \<Longrightarrow> ap_formatter (lw_appenders w ! i) \<noteq> None \<Longrightarrow> ap_formatter (lw_appenders w1 ! i) \<noteq> None"
    "\<forall>a \<in> set (lw_appenders w1). stream_ok a"
  shows "log_inv nn w1"
proof -
  have "logger_ok nn (lw_appenders w1) name l" if "logger_ok nn (lw_appenders w) name l" for name l
    using that assms(3,4) unfolding logger_ok_def by (meson less_le_trans)
  moreover have "find_logger name w1 = find_logger name w" for name using assms(2) by (simp add: find_logger_def)
  ultimately show ?thesis using assms(1,2,5) by (simp add: log_inv_def)
qed

text \<open>What may be done to an appender: it keeps its formatter and its stream stays without error.\<close>

definition keeps_ok :: "bool \<Rightarrow> (LogAppender \<Rightarrow> LogAppender) \<Rightarrow> bool" where
  "keeps_ok nn f \<longleftrightarrow> (\<forall>a. (nn \<longrightarrow> ap_formatter a \<noteq> None \<longrightarrow> ap_formatter (f a) \<noteq> None) \<and> (stream_ok a \<longrightarrow> stream_ok (f a)))"

lemma set_update_all: "\<forall>x \<in> set xs. P x \<Longrightarrow> (i < length xs \<Longrightarrow> P y) \<Longrightarrow> \<forall>x \<in> set (xs[i := y]). P x"
  by (cases "i < length xs") (auto simp: list_update_beyond dest!: set_update_subset_insert [THEN subsetD])

lemma update_appender_inv:
  assumes "log_inv nn w" "keeps_ok nn f"
  shows "log_inv nn (update_appender f i w)"
proof (rule log_inv_appenders [OF assms(1)])
  show "ap_formatter (lw_appenders (update_appender f i w) ! j) \<noteq> None"
    if "nn" "j < length (lw_appenders w)" "ap_formatter (lw_appenders w ! j) \<noteq> None" for j
    using that assms(2) by (cases "i = j") (simp_all add: update_appender_def keeps_ok_def del: not_None_eq)
  have "\<forall>a \<in> set (lw_appenders w). stream_ok a" using assms(1) by (simp add: log_inv_def)
  moreover have "stream_ok (f (lw_appenders w ! i))" if "i < length (lw_appenders w)" using assms(2) calculation that by (simp add: keeps_ok_def)
  ultimately show "\<forall>a \<in> set (lw_appenders (update_appender f i w)). stream_ok a"
    using set_update_all [of "lw_appenders w" stream_ok i "f (lw_appenders w ! i)"] by (simp add: update_appender_def)
qed simp_all

lemma clear_inv: "log_inv nn w \<Longrightarrow> log_inv nn (clearAppenders name w)"
  unfolding clearAppenders_def by (rule log_inv_logger) (auto simp: logger_ok_def)

lemma del_inv: "log_inv nn w \<Longrightarrow> log_inv nn (delAppender name i w)"
  unfolding delAppender_def by (rule log_inv_logger) (use set_remove1_subset in \<open>fastforce simp: logger_ok_def\<close>)+

lemma level_inv: "log_inv nn w \<Longrightarrow> log_inv nn (Logger_setLevel level name w)"
  unfolding Logger_setLevel_def by (rule log_inv_logger) (auto simp: logger_ok_def)

lemma fold_update_inv: "keeps_ok nn f \<Longrightarrow> log_inv nn w \<Longrightarrow> log_inv nn (fold (update_appender f) is w)"
  by (induction "is" arbitrary: w) (simp_all add: update_appender_inv)

lemma formatter_inv: "log_inv nn w \<Longrightarrow> nn \<longrightarrow> val \<noteq> None \<Longrightarrow> log_inv nn (Logger_setFormatter val name w)"
proof -
  assume i: "log_inv nn w" and v: "nn \<longrightarrow> val \<noteq> None"
  have "log_inv nn (update_logger (\<lambda>l. l\<lparr>lg_formatter := val\<rparr>) name w)" by (rule log_inv_logger [OF i]) (use v in \<open>auto simp: logger_ok_def\<close>)
  moreover have "keeps_ok nn (\<lambda>a. if ap_hasFormatter a then a else a\<lparr>ap_formatter := val\<rparr>)" using v by (auto simp: keeps_ok_def stream_ok_def)
  ultimately show ?thesis using i by (auto simp: Logger_setFormatter_def intro!: fold_update_inv split: option.splits)
qed

lemma formatter_str_inv: "log_inv nn w \<Longrightarrow> log_inv nn (Logger_setFormatter_str val name w)"
  by (simp add: Logger_setFormatter_str_def Let_def formatter_inv)

lemma appender_formatter_inv:
  "log_inv nn w \<Longrightarrow> nn \<longrightarrow> val \<noteq> None \<Longrightarrow> log_inv nn (update_appender (LogAppender_setFormatter val) i w)"
  by (rule update_appender_inv) (auto simp: keeps_ok_def LogAppender_setFormatter_def stream_ok_def)

lemma appender_level_inv: "log_inv nn w \<Longrightarrow> log_inv nn (update_appender (LogAppender_setLevel level) i w)"
  by (rule update_appender_inv) (auto simp: keeps_ok_def LogAppender_setLevel_def stream_ok_def)

lemma new_appender_inv:
  assumes "log_inv nn w" "stream_ok a" "new_appender a w = (i, w1)"
  shows "log_inv nn w1 \<and> i < length (lw_appenders w1)"
proof -
  have w1: "w1 = w\<lparr>lw_appenders := lw_appenders w @ [a]\<rparr>" "i = length (lw_appenders w)" using assms(3) by (simp_all add: new_appender_def)
  have "log_inv nn w1"
    by (rule log_inv_appenders [OF assms(1)]) (use assms(1,2) in \<open>auto simp: w1 nth_append log_inv_def\<close>)
  then show ?thesis by (simp add: w1)
qed

lemma add_inv: "log_inv nn w \<Longrightarrow> i < length (lw_appenders w) \<Longrightarrow> log_inv nn (addAppender name i w)"
proof (cases "find_logger name w")
  case (Some l)
  assume a: "log_inv nn w" "i < length (lw_appenders w)"
  define w1 where "w1 = (if ap_formatter (lw_appenders w ! i) = None then update_appender (\<lambda>a. a\<lparr>ap_formatter := lg_formatter l\<rparr>) i w else w)"
  have l: "nn \<longrightarrow> lg_formatter l \<noteq> None" using a(1) Some by (auto simp: log_inv_def logger_ok_def)
  then have "keeps_ok nn (\<lambda>a. a\<lparr>ap_formatter := lg_formatter l\<rparr>)" by (auto simp: keeps_ok_def stream_ok_def)
  then have 1: "log_inv nn w1" "i < length (lw_appenders w1)" "nn \<longrightarrow> ap_formatter (lw_appenders w1 ! i) \<noteq> None"
    using a l by (auto simp: w1_def intro: update_appender_inv) (auto simp: update_appender_def)
  have "log_inv nn (update_logger (\<lambda>l. l\<lparr>lg_appenders := lg_appenders l @ [i]\<rparr>) name w1)"
    by (rule log_inv_logger [OF 1(1)]) (use 1(2,3) in \<open>auto simp: logger_ok_def\<close>)
  then show ?thesis using Some by (simp add: addAppender_def w1_def Let_def)
qed (simp add: addAppender_def)

lemma get_inv: "log_inv nn w \<Longrightarrow> log_inv nn (getLogger name w) \<and> find_logger name (getLogger name w) \<noteq> None"
proof (cases "find_logger name w")
  case None
  assume i: "log_inv nn w"
  then have s: "sorted_wrt str_less (map fst (lw_loggers w))" by (simp add: log_inv_def)
  have n: "name \<noteq> ''root''" using i None by (auto simp: log_inv_def)
  have f: "find_logger j (getLogger name w) = (if j = name then Some ((new_Logger name)\<lparr>lg_root := Some ''root''\<rparr>) else find_logger j w)" for j
    using None by (simp add: getLogger_def find_logger_def find_str_put [OF s])
  have "lw_appenders (getLogger name w) = lw_appenders w" by (simp add: getLogger_def)
  moreover have "sorted_wrt str_less (map fst (lw_loggers (getLogger name w)))"
    using s None by (simp add: getLogger_def string_order.sorted_put)
  ultimately show ?thesis using i n unfolding log_inv_def f by (auto simp: logger_ok_def new_Logger_def)
qed (simp add: getLogger_def)

lemma manager_inv: "log_inv nn (new_LoggerManager files)"
proof -
  let ?w = "\<lparr>lw_appenders = [], lw_loggers = [(''root'', new_Logger ''root'')], lw_stdout = [], lw_files = files\<rparr>"
  have "name = ''root'' \<and> l = new_Logger ''root''" if "find_logger name ?w = Some l" for name l
    using that str_less_total [of name "''root''"] by (auto simp: find_logger_def split: if_splits)
  moreover have "find_logger ''root'' ?w \<noteq> None" by (simp add: find_logger_def)
  moreover have "logger_ok nn [] ''root'' (new_Logger ''root'')" by (simp add: logger_ok_def new_Logger_def)
  ultimately have "log_inv nn ?w" unfolding log_inv_def by auto
  moreover have "stream_ok new_StdoutLogAppender" by (simp add: stream_ok_def new_StdoutLogAppender_def)
  ultimately show ?thesis using new_appender_inv [of nn ?w] add_inv by (simp add: new_LoggerManager_def Let_def split: prod.splits)
qed

section \<open>Where a message goes\<close>

definition config_of :: "LogAppender \<Rightarrow> appender_kind \<times> LogLevel \<times> bool \<times> LogFormatter option" where
  "config_of a = (ap_kind a, ap_level a, ap_hasFormatter a, ap_formatter a)"

text \<open>What an appender prints on the standard output.\<close>

definition printed :: "log_env \<Rightarrow> LogLevel \<Rightarrow> LogEvent \<Rightarrow> LogAppender \<Rightarrow> string" where
  "printed env level event a =
     (if ap_kind a = StdoutLogAppender \<and> ap_level a \<le> level
      then LogFormatter_format (en_strf env) (en_junk env) (the (ap_formatter a)) level event else [])"

text \<open>
  What an appender leaves in a file: the first message of a second replaces what the file has, the
  others are appended; nothing happens to the file when the stream could not be opened.
\<close>

definition file_after :: "log_env \<Rightarrow> LogLevel \<Rightarrow> LogEvent \<Rightarrow> string \<Rightarrow> LogAppender \<Rightarrow> string \<Rightarrow> string" where
  "file_after env level event fn a content =
     (if ap_kind a \<noteq> FileLogAppender fn \<or> \<not> ap_level a \<le> level then content
      else let m = LogFormatter_format (en_strf env) (en_junk env) (the (ap_formatter a)) level event
           in if en_now env \<noteq> ap_reopenTime a then (if en_can_open env fn then m else content)
              else if ap_open a then content @ m else content)"

text \<open>An appender that takes the message and has no formatter.\<close>

definition null_formatter :: "LogLevel \<Rightarrow> LogAppender \<Rightarrow> bool" where
  "null_formatter level a \<longleftrightarrow> ap_level a \<le> level \<and> ap_formatter a = None"

lemma reopen_cases:
  assumes "stream_ok a"
  shows "\<exists>x a0. reopen env fn a files = (x, a0, if en_can_open env fn then files(fn := []) else files)
    \<and> config_of a0 = config_of a \<and> ap_open a0 = en_can_open env fn \<and> ap_good a0 = en_can_open env fn"
  using assms by (auto simp: reopen_def Let_def config_of_def stream_ok_def)

lemma put_cases:
  assumes "stream_ok a"
  shows "\<exists>a1. stream_put m fn a files = (a1, if ap_open a then files(fn := files fn @ m) else files) \<and> config_of a1 = config_of a \<and> stream_ok a1"
  using assms by (auto simp: stream_put_def config_of_def stream_ok_def)

lemma appender_log_ok:
  assumes "\<not> null_formatter level a" "stream_ok a"
  shows "\<exists>a1 files1. LogAppender_log env level event a (out, files) = Inr (a1, out @ printed env level event a, files1) \<and> config_of a1 = config_of a
    \<and> stream_ok a1 \<and> (\<forall>fn. files1 fn = file_after env level event fn a (files fn))"
proof (cases "ap_level a \<le> level")
  case False
  then show ?thesis
    by (cases "ap_kind a") (use assms(2) in \<open>auto simp: LogAppender_log_def StdoutLogAppender_log_def FileLogAppender_log_def printed_def file_after_def\<close>)
next
  case lv: True
  obtain f where f: "ap_formatter a = Some f" using assms(1) lv by (auto simp: null_formatter_def)
  show ?thesis
  proof (cases "ap_kind a")
    case StdoutLogAppender
    then show ?thesis using lv f assms(2) by (simp add: LogAppender_log_def StdoutLogAppender_log_def printed_def file_after_def)
  next
    case (FileLogAppender fn)
    let ?m = "LogFormatter_format (en_strf env) (en_junk env) f level event"
    obtain x a0 where r: "reopen env fn a files = (x, a0, if en_can_open env fn then files(fn := []) else files)"
      "config_of a0 = config_of a" "ap_open a0 = en_can_open env fn" "ap_good a0 = en_can_open env fn" using reopen_cases [OF assms(2)] by blast
    define b where "b = (if en_now env \<noteq> ap_reopenTime a then a0\<lparr>ap_reopenTime := en_now env\<rparr> else a)"
    define fs where "fs = (if en_now env \<noteq> ap_reopenTime a then if en_can_open env fn then files(fn := []) else files else files)"
    have cb: "config_of b = config_of a" "stream_ok b" using r(2-4) assms(2) by (auto simp: b_def config_of_def stream_ok_def)
    have fb: "ap_formatter b = Some f" using cb(1) f by (simp add: config_of_def)
    obtain a2 where p: "stream_put ?m fn b fs = (a2, if ap_open b then fs(fn := fs fn @ ?m) else fs)" "config_of a2 = config_of b" "stream_ok a2"
      using put_cases [OF cb(2)] by blast
    have e: "(if en_now env \<noteq> ap_reopenTime a
           then (case reopen env fn a files of (_, a0, files0) \<Rightarrow> (a0\<lparr>ap_reopenTime := en_now env\<rparr>, files0))
           else (a, files)) = (b, fs)" by (simp add: r(1) b_def fs_def)
    have "LogAppender_log env level event a (out, files) = Inr (a2, out, if ap_open b then fs(fn := fs fn @ ?m) else fs)"
      by (simp only: LogAppender_log_def FileLogAppender_log_def FileLogAppender appender_kind.case lv if_True snd_conv fst_conv e Let_def
          prod.case fb option.case p(1))
    moreover have "(if ap_open b then fs(fn := fs fn @ ?m) else fs) g = file_after env level event g a (files g)" for g
      using r(3) lv f FileLogAppender by (auto simp: file_after_def b_def fs_def)
    ultimately show ?thesis using p(2,3) cb FileLogAppender by (simp add: printed_def)
  qed
qed

lemma appender_log_null: "null_formatter level a \<Longrightarrow> LogAppender_log env level event a io = Inl NullFormatter"
proof (cases "ap_kind a")
  case (FileLogAppender fn)
  assume n: "null_formatter level a"
  have "config_of (snd_a) = config_of a \<Longrightarrow> ap_formatter snd_a = None" for snd_a using n by (simp add: config_of_def null_formatter_def)
  moreover have "config_of a0 = config_of a" if "reopen env fn a files = (x, a0, fs)" for x a0 fs files
    using that by (auto simp: reopen_def Let_def config_of_def split: if_splits)
  ultimately show ?thesis using n FileLogAppender
    by (auto simp: LogAppender_log_def FileLogAppender_log_def null_formatter_def split: prod.splits)
qed (simp add: LogAppender_log_def StdoutLogAppender_log_def null_formatter_def)

text \<open>One appender of the loop: the world after it, as far as the other appenders see it.\<close>

lemma config_same:
  "config_of a = config_of b \<Longrightarrow> null_formatter level a = null_formatter level b"
  "config_of a = config_of b \<Longrightarrow> printed env level event a = printed env level event b"
  by (simp_all add: config_of_def null_formatter_def printed_def)

lemma log_all_step:
  assumes "i < length (lw_appenders w)" "\<not> null_formatter level (lw_appenders w ! i)" "\<forall>a \<in> set (lw_appenders w). stream_ok a"
  shows "\<exists>w2. (\<forall>is. log_all env level event (i # is) w = log_all env level event is w2)
    \<and> map config_of (lw_appenders w2) = map config_of (lw_appenders w) \<and> (\<forall>a \<in> set (lw_appenders w2). stream_ok a)
    \<and> (\<forall>j. j \<noteq> i \<longrightarrow> lw_appenders w2 ! j = lw_appenders w ! j) \<and> lw_loggers w2 = lw_loggers w
    \<and> lw_stdout w2 = lw_stdout w @ printed env level event (lw_appenders w ! i)
    \<and> (\<forall>fn. lw_files w2 fn = file_after env level event fn (lw_appenders w ! i) (lw_files w fn))"
proof -
  define a where "a = lw_appenders w ! i"
  obtain a1 files1 where 1: "LogAppender_log env level event a (lw_stdout w, lw_files w) = Inr (a1, lw_stdout w @ printed env level event a, files1)"
    "config_of a1 = config_of a" "stream_ok a1" "\<forall>fn. files1 fn = file_after env level event fn a (lw_files w fn)"
    using appender_log_ok [of level a env event "lw_stdout w" "lw_files w"] assms by (auto simp: a_def)
  let ?w2 = "w\<lparr>lw_appenders := (lw_appenders w)[i := a1], lw_stdout := lw_stdout w @ printed env level event a, lw_files := files1\<rparr>"
  have "map config_of (lw_appenders ?w2) = map config_of (lw_appenders w)"
    using 1(2) assms(1) list_update_id [of "map config_of (lw_appenders w)" i] by (simp add: map_update a_def)
  moreover have "\<forall>a \<in> set (lw_appenders ?w2). stream_ok a" using set_update_all [OF assms(3) 1(3)] by simp
  moreover have "log_all env level event (i # is) w = log_all env level event is ?w2" for "is" using 1(1) by (simp add: a_def)
  ultimately show ?thesis using 1(4) by (intro exI [of _ ?w2]) (simp add: a_def)
qed

lemma log_all_ok:
  "\<forall>i \<in> set is. i < length (lw_appenders w) \<and> \<not> null_formatter level (lw_appenders w ! i) \<Longrightarrow> \<forall>a \<in> set (lw_appenders w). stream_ok a \<Longrightarrow>
   \<exists>w1. log_all env level event is w = Inr w1 \<and> map config_of (lw_appenders w1) = map config_of (lw_appenders w)
     \<and> (\<forall>a \<in> set (lw_appenders w1). stream_ok a) \<and> lw_loggers w1 = lw_loggers w
     \<and> lw_stdout w1 = lw_stdout w @ concat (map (\<lambda>i. printed env level event (lw_appenders w ! i)) is)
     \<and> (distinct is \<longrightarrow> (\<forall>fn. lw_files w1 fn = fold (\<lambda>i. file_after env level event fn (lw_appenders w ! i)) is (lw_files w fn)))"
proof (induction "is" arbitrary: w)
  case Nil
  then show ?case by simp
next
  case (Cons i "is")
  have i: "i < length (lw_appenders w)" "\<not> null_formatter level (lw_appenders w ! i)" using Cons.prems(1) by simp_all
  obtain w2 where 2: "\<And>is. log_all env level event (i # is) w = log_all env level event is w2"
    "map config_of (lw_appenders w2) = map config_of (lw_appenders w)" "\<forall>a \<in> set (lw_appenders w2). stream_ok a"
    "\<And>j. j \<noteq> i \<Longrightarrow> lw_appenders w2 ! j = lw_appenders w ! j" "lw_loggers w2 = lw_loggers w"
    "lw_stdout w2 = lw_stdout w @ printed env level event (lw_appenders w ! i)"
    "\<And>fn. lw_files w2 fn = file_after env level event fn (lw_appenders w ! i) (lw_files w fn)"
    using log_all_step [OF i(1,2) Cons.prems(2), of env event] by blast
  have l: "length (lw_appenders w2) = length (lw_appenders w)" using 2(2) by (metis length_map)
  have c: "config_of (lw_appenders w2 ! j) = config_of (lw_appenders w ! j)" if "j < length (lw_appenders w)" for j
    using that l 2(2) by (metis nth_map)
  have p: "map (\<lambda>i. printed env level event (lw_appenders w2 ! i)) is = map (\<lambda>i. printed env level event (lw_appenders w ! i)) is"
    using config_same(2) [OF c] Cons.prems(1) by (intro map_cong) auto
  have "\<forall>i \<in> set is. i < length (lw_appenders w2) \<and> \<not> null_formatter level (lw_appenders w2 ! i)"
    using config_same(1) [OF c] l Cons.prems(1) by auto
  from Cons.IH [OF this 2(3)] obtain w1 where 1: "log_all env level event is w2 = Inr w1"
    "map config_of (lw_appenders w1) = map config_of (lw_appenders w2)" "\<forall>a \<in> set (lw_appenders w1). stream_ok a"
    "lw_loggers w1 = lw_loggers w2" "lw_stdout w1 = lw_stdout w2 @ concat (map (\<lambda>i. printed env level event (lw_appenders w2 ! i)) is)"
    "distinct is \<longrightarrow> (\<forall>fn. lw_files w1 fn = fold (\<lambda>i. file_after env level event fn (lw_appenders w2 ! i)) is (lw_files w2 fn))" by blast
  have "lw_files w1 fn = fold (\<lambda>i. file_after env level event fn (lw_appenders w ! i)) (i # is) (lw_files w fn)" if "distinct (i # is)" for fn
  proof -
    have "fold (\<lambda>i. file_after env level event fn (lw_appenders w2 ! i)) is x = fold (\<lambda>i. file_after env level event fn (lw_appenders w ! i)) is x" for x
    proof (intro fold_cong refl)
      fix j
      assume "j \<in> set is"
      then have "j \<noteq> i" using that by auto
      from 2(4) [OF this] show "file_after env level event fn (lw_appenders w2 ! j) = file_after env level event fn (lw_appenders w ! j)" by simp
    qed
    then show ?thesis using that 1(6) 2(7) by simp
  qed
  then show ?case unfolding 2(1) using 1(1-5) 2(2,5,6) p by (intro exI [of _ w1] conjI) simp_all
qed

lemma log_all_null:
  "\<forall>i \<in> set is. i < length (lw_appenders w) \<Longrightarrow> \<forall>a \<in> set (lw_appenders w). stream_ok a \<Longrightarrow>
   \<exists>i \<in> set is. null_formatter level (lw_appenders w ! i) \<Longrightarrow> log_all env level event is w = Inl NullFormatter"
proof (induction "is" arbitrary: w)
  case (Cons i "is")
  show ?case
  proof (cases "null_formatter level (lw_appenders w ! i)")
    case False
    have i: "i < length (lw_appenders w)" using Cons.prems(1) by simp
    obtain w2 where 2: "\<And>is. log_all env level event (i # is) w = log_all env level event is w2"
      "map config_of (lw_appenders w2) = map config_of (lw_appenders w)" "\<forall>a \<in> set (lw_appenders w2). stream_ok a"
      using log_all_step [OF i False Cons.prems(2), of env event] by blast
    have l: "length (lw_appenders w2) = length (lw_appenders w)" using 2(2) by (metis length_map)
    have "null_formatter level (lw_appenders w2 ! j) = null_formatter level (lw_appenders w ! j)" if "j < length (lw_appenders w)" for j
      using that l 2(2) config_same(1) by (metis nth_map)
    then have "\<exists>i \<in> set is. null_formatter level (lw_appenders w2 ! i)" using Cons.prems(1,3) False by auto
    then show ?thesis using 2(1) Cons.IH [OF _ 2(3)] l Cons.prems(1) by simp
  qed (simp add: appender_log_null)
qed simp

lemma same_config_inv:
  assumes "log_inv nn w" "map config_of (lw_appenders w1) = map config_of (lw_appenders w)" "\<forall>a \<in> set (lw_appenders w1). stream_ok a"
    "lw_loggers w1 = lw_loggers w"
  shows "log_inv nn w1"
proof (rule log_inv_appenders [OF assms(1,4)])
  have l: "length (lw_appenders w1) = length (lw_appenders w)" using assms(2) by (metis length_map)
  then show "length (lw_appenders w) \<le> length (lw_appenders w1)" by simp
  show "ap_formatter (lw_appenders w1 ! i) \<noteq> None" if "i < length (lw_appenders w)" "ap_formatter (lw_appenders w ! i) \<noteq> None" for i
  proof -
    have "config_of (lw_appenders w1 ! i) = config_of (lw_appenders w ! i)" using that(1) l assms(2) by (metis nth_map)
    then show ?thesis using that(2) by (simp add: config_of_def)
  qed
qed (rule assms(3))


text \<open>What becomes of a message: a null formatter of an appender that takes it is dereferenced.\<close>

definition logged :: "log_env \<Rightarrow> LogLevel \<Rightarrow> LogEvent \<Rightarrow> nat list \<Rightarrow> log_world \<Rightarrow> log_error + log_world \<Rightarrow> bool" where
  "logged env level event is w res \<longleftrightarrow>
     (if \<exists>i \<in> set is. null_formatter level (lw_appenders w ! i) then res = Inl NullFormatter
      else \<exists>w1. res = Inr w1 \<and> lw_loggers w1 = lw_loggers w
        \<and> lw_stdout w1 = lw_stdout w @ concat (map (\<lambda>i. printed env level event (lw_appenders w ! i)) is)
        \<and> (distinct is \<longrightarrow> (\<forall>fn. lw_files w1 fn = fold (\<lambda>i. file_after env level event fn (lw_appenders w ! i)) is (lw_files w fn))))"


lemma log_all_logged:
  assumes "log_inv nn w" "logger_ok mm (lw_appenders w) name l"
  shows "logged env level event (lg_appenders l) w (log_all env level event (lg_appenders l) w)
    \<and> (\<forall>w1. log_all env level event (lg_appenders l) w = Inr w1 \<longrightarrow> log_inv nn w1)"
proof -
  have s: "\<forall>a \<in> set (lw_appenders w). stream_ok a" using assms(1) by (simp add: log_inv_def)
  have r: "\<forall>i \<in> set (lg_appenders l). i < length (lw_appenders w)" using assms(2) by (simp add: logger_ok_def)
  show ?thesis
  proof (cases "\<exists>i \<in> set (lg_appenders l). null_formatter level (lw_appenders w ! i)")
    case True
    then show ?thesis using log_all_null [OF r s True] by (simp add: logged_def)
  next
    case False
    then have "\<forall>i \<in> set (lg_appenders l). i < length (lw_appenders w) \<and> \<not> null_formatter level (lw_appenders w ! i)" using r by blast
    from log_all_ok [OF this s, of env event] obtain w1 where 1: "log_all env level event (lg_appenders l) w = Inr w1"
      "map config_of (lw_appenders w1) = map config_of (lw_appenders w)" "\<forall>a \<in> set (lw_appenders w1). stream_ok a" "lw_loggers w1 = lw_loggers w"
      "lw_stdout w1 = lw_stdout w @ concat (map (\<lambda>i. printed env level event (lw_appenders w ! i)) (lg_appenders l))"
      "distinct (lg_appenders l) \<longrightarrow>
         (\<forall>fn. lw_files w1 fn = fold (\<lambda>i. file_after env level event fn (lw_appenders w ! i)) (lg_appenders l) (lw_files w fn))" by blast
    moreover have "log_inv nn w1" by (rule same_config_inv [OF assms(1) 1(2-4)])
    ultimately show ?thesis using False unfolding logged_def by simp
  qed
qed


lemma Logger_log_inv: "Logger_log n env level event name w = Some (Inr w1) \<Longrightarrow> log_inv nn w \<Longrightarrow> log_inv nn w1"
proof (induction n arbitrary: name)
  case (Suc n)
  show ?case
  proof (cases "find_logger name w")
    case None
    then show ?thesis using Suc.prems(1) by simp
  next
    case (Some l)
    then have ok: "logger_ok nn (lw_appenders w) name l" using Suc.prems(2) by (simp add: log_inv_def)
    show ?thesis using Suc Some log_all_logged [OF Suc.prems(2) ok, of env level event] by (auto split: if_splits option.splits)
  qed
qed simp

lemma make_appender_stream: "make_appender env a = Inr ap \<Longrightarrow> stream_ok ap"
  by (auto simp: make_appender_def bind_res_eq_Inr stream_ok_def new_FileLogAppender_def new_StdoutLogAppender_def LogAppender_setFormatter_def
      Let_def split: if_splits)

lemma add_appenders_inv: "add_appenders env name as w = Inr w1 \<Longrightarrow> log_inv nn w \<Longrightarrow> log_inv nn w1"
proof (induction "as" arbitrary: w)
  case (Cons a "as")
  then obtain ap where m: "make_appender env a = Inr ap" by (auto simp: bind_res_eq_Inr)
  moreover obtain i w2 where n: "new_appender ap w = (i, w2)" by (cases "new_appender ap w")
  ultimately have "add_appenders env name as (addAppender name i w2) = Inr w1" using Cons.prems(1) by simp
  then show ?case using Cons.IH new_appender_inv [OF Cons.prems(2) make_appender_stream [OF m] n] add_inv by blast
qed simp

lemma apply_define_inv: "apply_define env d w = Inr w1 \<Longrightarrow> log_inv nn w \<Longrightarrow> log_inv nn w1"
  unfolding apply_define_def Let_def
  by (drule add_appenders_inv) (simp_all add: clear_inv level_inv formatter_str_inv)

lemma apply_defines_inv: "apply_defines env old new w = Inr w1 \<Longrightarrow> log_inv nn w \<Longrightarrow> log_inv nn w1"
proof (induction new arbitrary: w)
  case (Cons d ds)
  then obtain w2 where "apply_define env d (getLogger (ld_name d) w) = Inr w2" "apply_defines env old ds w2 = Inr w1"
    by (auto simp: bind_res_eq_Inr split: if_splits)
  then show ?case using Cons apply_define_inv get_inv by blast
qed simp

lemma drop_loggers_inv: "log_inv nn w \<Longrightarrow> log_inv nn (drop_loggers old new w)"
  by (induction old arbitrary: w) (simp_all add: clear_inv get_inv)

text \<open>
  The worlds that the operations of loggers, appenders and the manager reach. A formatter is set through a
  pointer, which may be null; \<open>nn\<close> restricts the worlds to those in which it never was.
\<close>

inductive log_reach :: "bool \<Rightarrow> log_world \<Rightarrow> bool" for nn :: bool where
  start: "log_reach nn (new_LoggerManager files)"
| get: "log_reach nn w \<Longrightarrow> log_reach nn (getLogger name w)"
| create: "log_reach nn w \<Longrightarrow> stream_ok a \<Longrightarrow> new_appender a w = (i, w1) \<Longrightarrow> log_reach nn w1"
| add: "log_reach nn w \<Longrightarrow> i < length (lw_appenders w) \<Longrightarrow> log_reach nn (addAppender name i w)"
| del: "log_reach nn w \<Longrightarrow> log_reach nn (delAppender name i w)"
| clear: "log_reach nn w \<Longrightarrow> log_reach nn (clearAppenders name w)"
| level: "log_reach nn w \<Longrightarrow> log_reach nn (Logger_setLevel level name w)"
| formatter: "log_reach nn w \<Longrightarrow> nn \<longrightarrow> val \<noteq> None \<Longrightarrow> log_reach nn (Logger_setFormatter val name w)"
| formatter_str: "log_reach nn w \<Longrightarrow> log_reach nn (Logger_setFormatter_str str name w)"
| appender_formatter: "log_reach nn w \<Longrightarrow> nn \<longrightarrow> val \<noteq> None \<Longrightarrow> log_reach nn (update_appender (LogAppender_setFormatter val) i w)"
| appender_level: "log_reach nn w \<Longrightarrow> log_reach nn (update_appender (LogAppender_setLevel level) i w)"
| configure: "log_reach nn w \<Longrightarrow> logs_changed env old new w = Inr w1 \<Longrightarrow> log_reach nn w1"
| message: "log_reach nn w \<Longrightarrow> Logger_log n env level event name w = Some (Inr w1) \<Longrightarrow> log_reach nn w1"

lemma log_reach_inv: "log_reach nn w \<Longrightarrow> log_inv nn w"
proof (induction rule: log_reach.induct)
  case (create w a i w1)
  then show ?case using new_appender_inv by blast
next
  case (configure w env old new w1)
  then show ?case by (auto simp: logs_changed_def bind_res_eq_Inr intro!: drop_loggers_inv dest: apply_defines_inv)
next
  case (message w n env level event name w1)
  then show ?case using Logger_log_inv by blast
qed (simp_all add: manager_inv get_inv add_inv del_inv clear_inv level_inv formatter_inv formatter_str_inv appender_formatter_inv
    appender_level_inv)







section \<open>Changing the configuration\<close>

definition types_ok :: "LogDefine \<Rightarrow> bool" where
  "types_ok d \<longleftrightarrow> list_all (\<lambda>a. ad_type a = 1 \<or> ad_type a = 2) (ld_appenders d)"

definition define_kind :: "LogAppenderDefine \<Rightarrow> appender_kind" where
  "define_kind a = (if ad_type a = 1 then FileLogAppender (ad_file a) else StdoutLogAppender)"

definition kind_level :: "LogAppender \<Rightarrow> appender_kind \<times> LogLevel" where
  "kind_level a = (ap_kind a, ap_level a)"

text \<open>Later operations keep the kinds and levels of the appenders there are.\<close>

definition grows :: "log_world \<Rightarrow> log_world \<Rightarrow> bool" where
  "grows w w1 \<longleftrightarrow> length (lw_appenders w) \<le> length (lw_appenders w1)
     \<and> (\<forall>i < length (lw_appenders w). kind_level (lw_appenders w1 ! i) = kind_level (lw_appenders w ! i))"

lemma grows_refl [simp]: "grows w w" by (simp add: grows_def)

lemma grows_trans: "grows w w1 \<Longrightarrow> grows w1 w2 \<Longrightarrow> grows w w2"
  by (simp add: grows_def)

lemma grows_same: "lw_appenders w1 = lw_appenders w \<Longrightarrow> grows w w1"
  by (simp add: grows_def)

lemma grows_appender: "\<forall>a. kind_level (f a) = kind_level a \<Longrightarrow> grows w (update_appender f i w)"
  by (simp add: grows_def update_appender_def) (metis nth_list_update_eq nth_list_update_neq)

lemma grows_update_logger [simp]:
  "grows w (update_logger f name v) = grows w v" "grows (update_logger f name v) w = grows v w"
  by (simp_all add: grows_def)

lemma grows_fold: "\<forall>a. kind_level (f a) = kind_level a \<Longrightarrow> grows w (fold (update_appender f) is w)"
  by (induction "is" arbitrary: w) (auto intro: grows_trans [OF grows_appender])

lemma grows_add: "grows w (addAppender name i w)"
proof -
  have "kind_level (a\<lparr>ap_formatter := x\<rparr>) = kind_level a" for a x by (simp add: kind_level_def)
  then have "grows w (update_appender (\<lambda>a. a\<lparr>ap_formatter := x\<rparr>) i w)" for x by (simp add: grows_appender)
  then show ?thesis by (auto simp: addAppender_def Let_def split: option.splits)
qed

lemma grows_setFormatter: "grows w (Logger_setFormatter_str val name w)"
proof -
  have "kind_level (if ap_hasFormatter a then a else a\<lparr>ap_formatter := x\<rparr>) = kind_level a" for a x by (simp add: kind_level_def)
  then have "grows w1 (fold (update_appender (\<lambda>a. if ap_hasFormatter a then a else a\<lparr>ap_formatter := x\<rparr>)) is w1)" for x "is" w1
    by (intro grows_fold) simp
  then have "grows (update_logger f name w) (fold (update_appender (\<lambda>a. if ap_hasFormatter a then a else a\<lparr>ap_formatter := x\<rparr>)) is (update_logger f name w))"
    for x "is" f by blast
  then show ?thesis
    by (simp add: Logger_setFormatter_str_def Logger_setFormatter_def Let_def split: option.splits)
qed

lemma grows_new: "new_appender a w = (i, w1) \<Longrightarrow> grows w w1 \<and> i = length (lw_appenders w) \<and> lw_appenders w1 ! i = a \<and> lw_loggers w1 = lw_loggers w
    \<and> i < length (lw_appenders w1)"
  by (auto simp: new_appender_def grows_def nth_append)

lemma find_add:
  "log_inv nn w \<Longrightarrow> find_logger j (addAppender name i w) =
     (if j = name then map_option (\<lambda>l. l\<lparr>lg_appenders := lg_appenders l @ [i]\<rparr>) (find_logger name w) else find_logger j w)"
  by (auto simp: addAppender_def Let_def log_inv_def find_update split: option.splits)

lemma make_appender_ok:
  assumes "ad_type a = 1 \<or> ad_type a = 2"
  shows "\<exists>ap. make_appender env a = Inr ap \<and> kind_level ap = (define_kind a, ad_level a)"
  using assms by (auto simp: make_appender_def kind_level_def define_kind_def Let_def new_FileLogAppender_def new_StdoutLogAppender_def
      LogAppender_setFormatter_def)

lemma add_appenders_ok:
  "list_all (\<lambda>a. ad_type a = 1 \<or> ad_type a = 2) as \<Longrightarrow> log_inv nn w \<Longrightarrow> find_logger name w = Some l \<Longrightarrow>
   \<exists>w1 is. add_appenders env name as w = Inr w1 \<and> grows w w1 \<and> find_logger name w1 = Some (l\<lparr>lg_appenders := lg_appenders l @ is\<rparr>)
     \<and> (\<forall>j. j \<noteq> name \<longrightarrow> find_logger j w1 = find_logger j w)
     \<and> map (\<lambda>i. kind_level (lw_appenders w1 ! i)) is = map (\<lambda>a. (define_kind a, ad_level a)) as
     \<and> (\<forall>i \<in> set is. i < length (lw_appenders w1))"
proof (induction "as" arbitrary: w l)
  case Nil
  then show ?case by (intro exI [of _ w] exI [of _ "[]"]) simp
next
  case (Cons a "as")
  obtain ap where ap: "make_appender env a = Inr ap" "kind_level ap = (define_kind a, ad_level a)"
    using make_appender_ok Cons.prems(1) by auto
  obtain i w2 where n: "new_appender ap w = (i, w2)" by (cases "new_appender ap w")
  note n1 = grows_new [OF n] and i2 = new_appender_inv [OF Cons.prems(2) make_appender_stream [OF ap(1)] n]
  define w3 where "w3 = addAppender name i w2"
  have i3: "log_inv nn w3" unfolding w3_def using i2 by (intro add_inv) simp_all
  have g3: "grows w2 w3" unfolding w3_def by (rule grows_add)
  have f2: "find_logger j w2 = find_logger j w" for j using n1 by (simp add: find_logger_def)
  have f3: "find_logger j w3 = (if j = name then Some (l\<lparr>lg_appenders := lg_appenders l @ [i]\<rparr>) else find_logger j w)" for j
    unfolding w3_def using find_add [OF conjunct1 [OF i2]] Cons.prems(3) f2 by simp
  have k3: "kind_level (lw_appenders w3 ! i) = (define_kind a, ad_level a)" "i < length (lw_appenders w3)"
    using g3 n1 ap(2) by (auto simp: grows_def)
  obtain w1 "is" where 1: "add_appenders env name as w3 = Inr w1" "grows w3 w1"
    "find_logger name w1 = Some (l\<lparr>lg_appenders := (lg_appenders l @ [i]) @ is\<rparr>)" "\<forall>j. j \<noteq> name \<longrightarrow> find_logger j w1 = find_logger j w3"
    "map (\<lambda>i. kind_level (lw_appenders w1 ! i)) is = map (\<lambda>a. (define_kind a, ad_level a)) as" "\<forall>i \<in> set is. i < length (lw_appenders w1)"
    using Cons.IH [OF _ i3, of "l\<lparr>lg_appenders := lg_appenders l @ [i]\<rparr>"] f3 Cons.prems(1) by auto
  have "add_appenders env name (a # as) w = Inr w1" using ap(1) n 1(1) by (simp add: w3_def)
  moreover have "grows w w1" using n1 g3 1(2) grows_trans by blast
  moreover have "kind_level (lw_appenders w1 ! i) = (define_kind a, ad_level a)" "i < length (lw_appenders w1)"
    using 1(2) k3 by (auto simp: grows_def)
  ultimately show ?case using 1 f3 by (intro exI [of _ w1] exI [of _ "i # is"]) simp
qed

definition configured :: "LogDefine \<Rightarrow> log_world \<Rightarrow> bool" where
  "configured d w \<longleftrightarrow> (\<exists>l. find_logger (ld_name d) w = Some l \<and> lg_level l = ld_level d
     \<and> map (\<lambda>i. kind_level (lw_appenders w ! i)) (lg_appenders l) = map (\<lambda>a. (define_kind a, ad_level a)) (ld_appenders d)
     \<and> (\<forall>i \<in> set (lg_appenders l). i < length (lw_appenders w)))"

lemma find_setFormatter_str:
  assumes "log_inv nn w"
  shows "find_logger j (Logger_setFormatter_str val name w) =
    (if j = name \<and> \<not> lf_error (new_LogFormatter val)
     then map_option (\<lambda>l. l\<lparr>lg_formatter := Some (new_LogFormatter val)\<rparr>) (find_logger name w) else find_logger j w)"
proof -
  have "find_logger k (fold (update_appender f) is w2) = find_logger k w2" for k f "is" w2 by (induction "is" arbitrary: w2) simp_all
  moreover have "sorted_wrt str_less (map fst (lw_loggers w))" using assms by (simp add: log_inv_def)
  ultimately show ?thesis
    by (auto simp: Logger_setFormatter_str_def Logger_setFormatter_def Let_def find_update split: option.splits)
qed

lemma apply_define_ok:
  assumes "types_ok d" "log_inv nn w" "find_logger (ld_name d) w \<noteq> None"
  shows "\<exists>w1. apply_define env d w = Inr w1 \<and> log_inv nn w1 \<and> grows w w1 \<and> configured d w1
    \<and> (\<forall>j. j \<noteq> ld_name d \<longrightarrow> find_logger j w1 = find_logger j w)"
proof -
  obtain l where l: "find_logger (ld_name d) w = Some l" using assms(3) by auto
  have s: "log_inv nn v \<Longrightarrow> sorted_wrt str_less (map fst (lw_loggers v))" for v by (simp add: log_inv_def)
  define w1 where "w1 = Logger_setLevel (ld_level d) (ld_name d) w"
  define w2 where "w2 = (if ld_formatter d = [] then w1 else Logger_setFormatter_str (ld_formatter d) (ld_name d) w1)"
  define w3 where "w3 = clearAppenders (ld_name d) w2"
  have i: "log_inv nn w1" "log_inv nn w2" "log_inv nn w3"
    using assms(2) by (simp_all add: w1_def w2_def w3_def level_inv formatter_str_inv clear_inv)
  have f1: "find_logger j w1 = (if j = ld_name d then Some (l\<lparr>lg_level := ld_level d\<rparr>) else find_logger j w)" for j
    using l by (simp add: w1_def Logger_setLevel_def find_update [OF s [OF assms(2)]])
  obtain l2 where f2: "find_logger (ld_name d) w2 = Some l2" "lg_level l2 = ld_level d" "\<And>j. j \<noteq> ld_name d \<Longrightarrow> find_logger j w2 = find_logger j w"
    using f1 find_setFormatter_str [OF i(1), of _ "ld_formatter d" "ld_name d"]
    by (cases "ld_formatter d = [] \<or> lf_error (new_LogFormatter (ld_formatter d))") (auto simp: w2_def)
  have f3: "find_logger j w3 = (if j = ld_name d then Some (l2\<lparr>lg_appenders := []\<rparr>) else find_logger j w)" for j
    using f2 by (simp add: w3_def clearAppenders_def find_update [OF s [OF i(2)]])
  have g: "grows w w3"
    using grows_setFormatter [of w1 "ld_formatter d" "ld_name d"]
    by (auto simp: w1_def w2_def w3_def Logger_setLevel_def clearAppenders_def intro: grows_same grows_trans)
  obtain w4 "is" where 4: "add_appenders env (ld_name d) (ld_appenders d) w3 = Inr w4" "grows w3 w4"
    "find_logger (ld_name d) w4 = Some (l2\<lparr>lg_appenders := is\<rparr>)" "\<forall>j. j \<noteq> ld_name d \<longrightarrow> find_logger j w4 = find_logger j w3"
    "map (\<lambda>i. kind_level (lw_appenders w4 ! i)) is = map (\<lambda>a. (define_kind a, ad_level a)) (ld_appenders d)"
    "\<forall>i \<in> set is. i < length (lw_appenders w4)"
    using add_appenders_ok [OF _ i(3), of "ld_appenders d" "ld_name d" "l2\<lparr>lg_appenders := []\<rparr>" env] f3 assms(1) by (auto simp: types_ok_def)
  have "apply_define env d w = Inr w4" using 4(1) unfolding apply_define_def Let_def w3_def w2_def w1_def .
  then show ?thesis using 4 f2 f3 g add_appenders_inv [OF 4(1) i(3)] grows_trans [OF g 4(2)] by (auto simp: configured_def)
qed

lemma configured_later:
  assumes "configured d w" "grows w w1" "find_logger (ld_name d) w1 = find_logger (ld_name d) w"
  shows "configured d w1"
proof -
  obtain l where l: "find_logger (ld_name d) w = Some l" "lg_level l = ld_level d"
    "map (\<lambda>i. kind_level (lw_appenders w ! i)) (lg_appenders l) = map (\<lambda>a. (define_kind a, ad_level a)) (ld_appenders d)"
    "\<forall>i \<in> set (lg_appenders l). i < length (lw_appenders w)"
    using assms(1) unfolding configured_def by blast
  have "map (\<lambda>i. kind_level (lw_appenders w1 ! i)) (lg_appenders l) = map (\<lambda>i. kind_level (lw_appenders w ! i)) (lg_appenders l)"
    using l(4) assms(2) by (intro map_cong) (simp_all add: grows_def)
  then have "map (\<lambda>i. kind_level (lw_appenders w1 ! i)) (lg_appenders l) = map (\<lambda>a. (define_kind a, ad_level a)) (ld_appenders d)"
    by (rule trans [OF _ l(3)])
  moreover have "\<forall>i \<in> set (lg_appenders l). i < length (lw_appenders w1)" using l(4) assms(2) by (auto simp: grows_def)
  ultimately show ?thesis using assms(3) l(1,2) unfolding configured_def by (intro exI [of _ l]) (simp only: simp_thms)
qed

lemma get_other: "log_inv nn w \<Longrightarrow> j \<noteq> name \<Longrightarrow> find_logger j (getLogger name w) = find_logger j w"
  by (auto simp: getLogger_def find_logger_def log_inv_def find_str_put)

lemma get_grows: "grows w (getLogger name w)"
  by (simp add: getLogger_def grows_def)

lemma apply_defines_ok:
  "\<forall>d \<in> set new. types_ok d \<and> oset_find LogDefine_less d old \<noteq> Some d \<Longrightarrow> distinct (map ld_name new) \<Longrightarrow> log_inv nn w \<Longrightarrow>
   \<exists>w1. apply_defines env old new w = Inr w1 \<and> log_inv nn w1 \<and> grows w w1 \<and> (\<forall>d \<in> set new. configured d w1)
     \<and> (\<forall>j. j \<notin> ld_name ` set new \<longrightarrow> find_logger j w1 = find_logger j w)"
proof (induction new arbitrary: w)
  case Nil
  then show ?case by simp
next
  case (Cons d ds)
  define w0 where "w0 = getLogger (ld_name d) w"
  have 0: "log_inv nn w0" "find_logger (ld_name d) w0 \<noteq> None" "grows w w0" "\<And>j. j \<noteq> ld_name d \<Longrightarrow> find_logger j w0 = find_logger j w"
    using get_inv [OF Cons.prems(3)] get_grows get_other [OF Cons.prems(3)] by (simp_all add: w0_def)
  obtain w2 where 2: "apply_define env d w0 = Inr w2" "log_inv nn w2" "grows w0 w2" "configured d w2"
    "\<forall>j. j \<noteq> ld_name d \<longrightarrow> find_logger j w2 = find_logger j w0"
    using apply_define_ok [OF _ 0(1,2), of env] Cons.prems(1) by auto
  obtain w1 where 1: "apply_defines env old ds w2 = Inr w1" "log_inv nn w1" "grows w2 w1" "\<forall>d \<in> set ds. configured d w1"
    "\<forall>j. j \<notin> ld_name ` set ds \<longrightarrow> find_logger j w1 = find_logger j w2"
    using Cons.IH [OF _ _ 2(2)] Cons.prems(1,2) by auto
  have n: "ld_name d \<notin> ld_name ` set ds" using Cons.prems(2) by simp
  have "configured d w1" using 1(5) n by (intro configured_later [OF 2(4) 1(3)]) blast
  moreover have "grows w w1" using 0(3) 2(3) 1(3) grows_trans by blast
  moreover have "apply_defines env old (d # ds) w = Inr w1" using 1(1) 2(1) Cons.prems(1) by (simp add: w0_def)
  moreover have "find_logger j w1 = find_logger j w" if "j \<notin> ld_name ` set (d # ds)" for j
    using that 0(4) [of j] 2(5) 1(5) by simp
  ultimately show ?case using 1(2,4) by (intro exI [of _ w1]) simp
qed

lemma drop_loggers_ok:
  "log_inv nn w \<Longrightarrow> log_inv nn (drop_loggers old new w) \<and> lw_appenders (drop_loggers old new w) = lw_appenders w
    \<and> (\<forall>j l. find_logger j w = Some l \<longrightarrow> (\<exists>l1. find_logger j (drop_loggers old new w) = Some l1 \<and> (lg_appenders l = [] \<longrightarrow> lg_appenders l1 = [])))
    \<and> (\<forall>d \<in> set old. oset_find LogDefine_less d new = None \<longrightarrow>
        (\<exists>l. find_logger (ld_name d) (drop_loggers old new w) = Some l \<and> lg_appenders l = []))
    \<and> (\<forall>j. j \<notin> ld_name ` {d \<in> set old. oset_find LogDefine_less d new = None} \<longrightarrow> find_logger j (drop_loggers old new w) = find_logger j w)"
proof (induction old arbitrary: w)
  case Nil
  then show ?case by simp
next
  case (Cons d ds)
  define w1 where "w1 = clearAppenders (ld_name d) (getLogger (ld_name d) w)"
  have g: "log_inv nn (getLogger (ld_name d) w)" "find_logger (ld_name d) (getLogger (ld_name d) w) \<noteq> None" using get_inv [OF Cons.prems] by simp_all
  have s: "sorted_wrt str_less (map fst (lw_loggers (getLogger (ld_name d) w)))" using g(1) by (simp add: log_inv_def)
  have 1: "log_inv nn w1" "lw_appenders w1 = lw_appenders w" using g(1) clear_inv by (simp_all add: w1_def clearAppenders_def getLogger_def)
  have f1: "find_logger j w1 = (if j = ld_name d then map_option (\<lambda>l. l\<lparr>lg_appenders := []\<rparr>) (find_logger (ld_name d) (getLogger (ld_name d) w))
      else find_logger j w)" for j
    using get_other [OF Cons.prems] by (simp add: w1_def clearAppenders_def find_update [OF s])
  obtain l1 where l1: "find_logger (ld_name d) w1 = Some l1" "lg_appenders l1 = []" using g(2) f1 [of "ld_name d"] by auto
  show ?case
  proof (cases "oset_find LogDefine_less d new = None")
    case True
    have "\<exists>l2. find_logger j w1 = Some l2 \<and> (lg_appenders l = [] \<longrightarrow> lg_appenders l2 = [])" if "find_logger j w = Some l" for j l
    proof (cases "j = ld_name d")
      case True
      then show ?thesis using l1 by blast
    next
      case False
      then show ?thesis using that f1 [of j] by simp
    qed
    note old_there = this
    have e: "drop_loggers (d # ds) new w = drop_loggers ds new w1" using True by (simp add: w1_def)
    note ih = Cons.IH [OF 1(1)]
    have p3: "\<exists>l2. find_logger j (drop_loggers ds new w1) = Some l2 \<and> (lg_appenders l = [] \<longrightarrow> lg_appenders l2 = [])"
      if "find_logger j w = Some l" for j l
      using old_there [OF that] ih by blast
    have p4: "\<exists>l. find_logger (ld_name x) (drop_loggers ds new w1) = Some l \<and> lg_appenders l = []"
      if "x \<in> set (d # ds)" "oset_find LogDefine_less x new = None" for x
    proof (cases "x = d")
      case True
      then show ?thesis using ih l1 by blast
    next
      case False
      then show ?thesis using that ih by simp
    qed
    have p5: "find_logger j (drop_loggers ds new w1) = find_logger j w"
      if "j \<notin> ld_name ` {x \<in> set (d # ds). oset_find LogDefine_less x new = None}" for j
    proof -
      have "j \<noteq> ld_name d" "j \<notin> ld_name ` {x \<in> set ds. oset_find LogDefine_less x new = None}" using that True by auto
      then show ?thesis using ih f1 [of j] by simp
    qed
    show ?thesis unfolding e using ih 1(2) p3 p4 p5 by (intro conjI allI ballI impI) simp_all
  next
    case False
    then show ?thesis using Cons.IH [OF Cons.prems] by auto
  qed
qed

interpretation define_order: strict_weak_order LogDefine_less
  by unfold_locales (auto simp: LogDefine_less_def dest: str_less_asym str_less_negtrans)

lemma sorted_names: "sorted_wrt LogDefine_less ds \<Longrightarrow> distinct (map ld_name ds)"
  by (induction ds) (auto simp: LogDefine_less_def)

lemma find_same_name:
  "sorted_wrt LogDefine_less ds \<Longrightarrow> d \<in> set ds \<Longrightarrow> ld_name x = ld_name d \<Longrightarrow> oset_find LogDefine_less x ds \<noteq> None"
  using define_order.find_None [of ds x] by (auto simp: LogDefine_less_def)

text \<open>
  C21. A new configuration in which every definition is new or different takes effect as a whole: every logger that it names
  gets its level and exactly its appenders, with their kinds, files and levels; a logger that is
  no longer named loses its appenders; and no other logger changes.
\<close>

theorem logs_changed_spec:
  assumes "log_reach nn w" "sorted_wrt LogDefine_less new" "\<forall>d \<in> set new. types_ok d \<and> oset_find LogDefine_less d old \<noteq> Some d"
  shows "\<exists>w1. logs_changed env old new w = Inr w1 \<and> (\<forall>d \<in> set new. configured d w1)
    \<and> (\<forall>d \<in> set old. oset_find LogDefine_less d new = None \<longrightarrow> (\<exists>l. find_logger (ld_name d) w1 = Some l \<and> lg_appenders l = []))
    \<and> (\<forall>j. j \<notin> ld_name ` set new \<and> j \<notin> ld_name ` set old \<longrightarrow> find_logger j w1 = find_logger j w)"
proof -
  obtain w1 where 1: "apply_defines env old new w = Inr w1" "log_inv nn w1" "\<forall>d \<in> set new. configured d w1"
    "\<forall>j. j \<notin> ld_name ` set new \<longrightarrow> find_logger j w1 = find_logger j w"
    using apply_defines_ok [OF assms(3) sorted_names [OF assms(2)] log_reach_inv [OF assms(1)]] by blast
  define w2 where "w2 = drop_loggers old new w1"
  note 2 = drop_loggers_ok [OF 1(2), of old new, folded w2_def]
  have "configured d w2" if "d \<in> set new" for d
  proof (rule configured_later)
    show "configured d w1" using 1(3) that by blast
    show "grows w1 w2" using 2 by (intro grows_same) blast
    have "ld_name d \<notin> ld_name ` {x \<in> set old. oset_find LogDefine_less x new = None}"
    proof
      assume "ld_name d \<in> ld_name ` {x \<in> set old. oset_find LogDefine_less x new = None}"
      then obtain x where "oset_find LogDefine_less x new = None" "ld_name x = ld_name d" by auto
      then show False using find_same_name [OF assms(2) that] by blast
    qed
    then show "find_logger (ld_name d) w2 = find_logger (ld_name d) w1" using 2 by blast
  qed
  moreover have "find_logger j w2 = find_logger j w" if "j \<notin> ld_name ` set new" "j \<notin> ld_name ` set old" for j
  proof -
    have "j \<notin> ld_name ` {x \<in> set old. oset_find LogDefine_less x new = None}" using that(2) by auto
    then have "find_logger j w2 = find_logger j w1" using 2 by blast
    then show ?thesis using 1(4) that(1) by simp
  qed
  moreover have "\<exists>l. find_logger (ld_name d) w2 = Some l \<and> lg_appenders l = []" if "d \<in> set old" "oset_find LogDefine_less d new = None" for d
    using 2 that by blast
  ultimately show ?thesis using 1(1) by (intro exI [of _ w2]) (simp add: logs_changed_def w2_def)
qed

lemma unchanged_run:
  "\<forall>d \<in> set new. types_ok d \<Longrightarrow> log_inv nn w \<Longrightarrow> \<exists>d \<in> set new. oset_find LogDefine_less d old = Some d \<Longrightarrow>
   apply_defines env old new w = Inl NullLogger"
proof (induction new arbitrary: w)
  case (Cons d ds)
  show ?case
  proof (cases "oset_find LogDefine_less d old = Some d")
    case False
    obtain w2 where "apply_define env d (getLogger (ld_name d) w) = Inr w2" "log_inv nn w2"
      using apply_define_ok [of d nn "getLogger (ld_name d) w" env] Cons.prems(1) get_inv [OF Cons.prems(2), of "ld_name d"] by auto
    moreover have "apply_defines env old ds w2 = Inl NullLogger" if "log_inv nn w2"
      using Cons.IH [OF _ that] Cons.prems(1,3) False by auto
    ultimately show ?thesis using False by simp
  qed simp
qed simp

text \<open>
  C39. A new configuration that leaves a logger as it is dereferences a null pointer: the listener looks the logger up only
  when its definition is new or different.
\<close>

theorem unchanged_logger_crashes:
  assumes "\<forall>d \<in> set new. types_ok d" "log_reach nn w" "d \<in> set new" "oset_find LogDefine_less d old = Some d"
  shows "logs_changed env old new w = Inl NullLogger"
proof -
  have "apply_defines env old new w = Inl NullLogger"
    using assms(3,4) by (intro unchanged_run [OF assms(1) log_reach_inv [OF assms(2)]]) blast
  then show ?thesis by (simp add: logs_changed_def)
qed

text \<open>The configuration of the witnesses: two loggers with one appender each.\<close>

definition sample_define :: "string \<Rightarrow> LogLevel \<Rightarrow> LogDefine" where
  "sample_define name level =
     \<lparr>ld_name = name, ld_level = level, ld_formatter = [], ld_appenders = [new_LogAppenderDefine\<lparr>ad_type := 2\<rparr>]\<rparr>"

lemma sample_order: "LogDefine_less (sample_define ''a'' u) (sample_define ''b'' v)" "\<not> LogDefine_less (sample_define ''b'' u) (sample_define ''a'' v)"
  by (simp_all add: LogDefine_less_def sample_define_def less_char_def)

theorem logs_changed_spec_witness:
  "\<exists>w1. logs_changed (sample_log_env 1) [sample_define ''a'' INFO] [sample_define ''b'' WARN] (new_LoggerManager (\<lambda>_. [])) = Inr w1
    \<and> configured (sample_define ''b'' WARN) w1"
  using logs_changed_spec [OF log_reach.start, of "[sample_define ''b'' WARN]" "[sample_define ''a'' INFO]" "sample_log_env 1" "\<lambda>_. []"]
  by (auto simp: types_ok_def sample_define_def new_LogAppenderDefine_def oset_find_def LogDefine_less_def)

theorem unchanged_logger_crashes_witness:
  "logs_changed (sample_log_env 1) [sample_define ''a'' INFO, sample_define ''b'' INFO] [sample_define ''a'' INFO, sample_define ''b'' WARN]
     (new_LoggerManager (\<lambda>_. [])) = Inl NullLogger"
  using unchanged_logger_crashes [OF _ log_reach.start, of "[sample_define ''a'' INFO, sample_define ''b'' WARN]" "sample_define ''a'' INFO"
      "[sample_define ''a'' INFO, sample_define ''b'' INFO]" "sample_log_env 1" "\<lambda>_. []"]
  by (simp add: types_ok_def oset_find_def sample_order LogDefine_less_def) (simp add: sample_define_def new_LogAppenderDefine_def)

text \<open>
  The cast drops what it says about appenders: the level of every appender is \<open>DEBUG\<close>, whatever the text says, and an
  appender on the standard output has no formatter.
\<close>

theorem appender_settings_ignored:
  assumes "appender_from api a = Inr (Some lad)"
  shows "ad_level lad = DEBUG \<and> (ad_type lad = 1 \<or> ad_type lad = 2) \<and> (ad_type lad = 2 \<longrightarrow> ad_formatter lad = [])"
  using assms by (auto simp: appender_from_def bind_res_eq_Inr Let_def new_LogAppenderDefine_def split: option.splits if_splits)

end
