(* ===== verification/Threads.thy ===== *)
theory Threads
  imports Fw_Prelude
begin

text \<open>
  Locks, semaphores and threads of \<open>async/multithread.h\<close> and \<open>multithread.cpp\<close>: what the scoped locks do to their
  mutex, the compare and swap lock as a step relation, and the start of a thread, with the creator and the child as
  two processes. The pthread calls are given by their results.
\<close>

section \<open>Scoped locks\<close>

text \<open>
  What a scoped lock does to its mutex is the list of the calls it makes; its own member is the flag. The
  three templates differ in the call that acquires.
\<close>

datatype mutex_call = CallLock | CallRdlock | CallWrlock | CallUnlock

record scoped_lock =
  sl_locked :: bool
  sl_calls :: "mutex_call list"

definition ScopedLock_acquire :: "mutex_call \<Rightarrow> scoped_lock" where
  "ScopedLock_acquire acq = \<lparr>sl_locked = True, sl_calls = [acq]\<rparr>"

definition ScopedLock_lock :: "mutex_call \<Rightarrow> scoped_lock \<Rightarrow> scoped_lock" where
  "ScopedLock_lock acq l = (if \<not> sl_locked l then l\<lparr>sl_locked := True, sl_calls := sl_calls l @ [acq]\<rparr> else l)"

definition ScopedLock_unlock :: "scoped_lock \<Rightarrow> scoped_lock" where
  "ScopedLock_unlock l = (if sl_locked l then l\<lparr>sl_locked := False, sl_calls := sl_calls l @ [CallUnlock]\<rparr> else l)"

definition new_ScopedLockImpl :: scoped_lock where "new_ScopedLockImpl = ScopedLock_acquire CallLock"
definition ScopedLockImpl_lock :: "scoped_lock \<Rightarrow> scoped_lock" where "ScopedLockImpl_lock = ScopedLock_lock CallLock"
definition ScopedLockImpl_unlock :: "scoped_lock \<Rightarrow> scoped_lock" where "ScopedLockImpl_unlock = ScopedLock_unlock"
definition ScopedLockImpl_destroy :: "scoped_lock \<Rightarrow> scoped_lock" where "ScopedLockImpl_destroy = ScopedLockImpl_unlock"

definition new_ReadScopedLockImpl :: scoped_lock where "new_ReadScopedLockImpl = ScopedLock_acquire CallRdlock"
definition ReadScopedLockImpl_lock :: "scoped_lock \<Rightarrow> scoped_lock" where "ReadScopedLockImpl_lock = ScopedLock_lock CallRdlock"
definition ReadScopedLockImpl_unlock :: "scoped_lock \<Rightarrow> scoped_lock" where "ReadScopedLockImpl_unlock = ScopedLock_unlock"
definition ReadScopedLockImpl_destroy :: "scoped_lock \<Rightarrow> scoped_lock" where "ReadScopedLockImpl_destroy = ReadScopedLockImpl_unlock"

definition new_WriteScopedLockImpl :: scoped_lock where "new_WriteScopedLockImpl = ScopedLock_acquire CallWrlock"
definition WriteScopedLockImpl_lock :: "scoped_lock \<Rightarrow> scoped_lock" where "WriteScopedLockImpl_lock = ScopedLock_lock CallWrlock"
definition WriteScopedLockImpl_unlock :: "scoped_lock \<Rightarrow> scoped_lock" where "WriteScopedLockImpl_unlock = ScopedLock_unlock"
definition WriteScopedLockImpl_destroy :: "scoped_lock \<Rightarrow> scoped_lock" where "WriteScopedLockImpl_destroy = WriteScopedLockImpl_unlock"

text \<open>The contract of a scope: the calls on the mutex alternate between acquiring and releasing.\<close>

locale scope_guard =
  fixes acq :: mutex_call and enter :: scoped_lock and lock unlock leave :: "scoped_lock \<Rightarrow> scoped_lock"
  assumes enter: "enter = \<lparr>sl_locked = True, sl_calls = [acq]\<rparr>"
    and lock: "lock l = (if sl_locked l then l else \<lparr>sl_locked = True, sl_calls = sl_calls l @ [acq]\<rparr>)"
    and unlock: "unlock l = (if sl_locked l then \<lparr>sl_locked = False, sl_calls = sl_calls l @ [CallUnlock]\<rparr> else l)"
    and leave: "leave l = unlock l"
begin

text \<open>A use of the guard: \<open>True\<close> locks it again, \<open>False\<close> unlocks it early.\<close>

definition use :: "bool list \<Rightarrow> scoped_lock" where
  "use bs = leave (foldl (\<lambda>l b. if b then lock l else unlock l) enter bs)"

lemma alternates:
  "\<exists>n. sl_calls (foldl (\<lambda>l b. if b then lock l else unlock l) enter bs) =
      concat (replicate n [acq, CallUnlock]) @ (if sl_locked (foldl (\<lambda>l b. if b then lock l else unlock l) enter bs) then [acq] else [])"
proof (induction bs rule: rev_induct)
  case Nil
  then show ?case by (intro exI [of _ 0]) (simp add: enter)
next
  case (snoc b bs)
  define l where "l = foldl (\<lambda>l b. if b then lock l else unlock l) enter bs"
  obtain n where n: "sl_calls l = concat (replicate n [acq, CallUnlock]) @ (if sl_locked l then [acq] else [])" using snoc by (auto simp: l_def)
  have r: "concat (replicate n [acq, CallUnlock]) @ [acq, CallUnlock] = concat (replicate (Suc n) [acq, CallUnlock])"
    by (simp add: replicate_append_same [symmetric])
  show ?case
  proof (cases "sl_locked l \<and> \<not> b")
    case True
    then show ?thesis using n r by (intro exI [of _ "Suc n"]) (simp add: l_def [symmetric] unlock)
  next
    case False
    then show ?thesis using n by (intro exI [of _ n]) (auto simp: l_def [symmetric] lock unlock)
  qed
qed

lemma balanced: "\<not> sl_locked (use bs) \<and> (\<exists>n. sl_calls (use bs) = concat (replicate (Suc n) [acq, CallUnlock]))"
proof -
  define l where "l = foldl (\<lambda>l b. if b then lock l else unlock l) enter bs"
  obtain n where n: "sl_calls l = concat (replicate n [acq, CallUnlock]) @ (if sl_locked l then [acq] else [])" using alternates by (auto simp: l_def)
  have r: "concat (replicate n [acq, CallUnlock]) @ [acq, CallUnlock] = concat (replicate (Suc n) [acq, CallUnlock])"
    by (simp add: replicate_append_same [symmetric])
  have ne: "sl_calls (foldl (\<lambda>l b. if b then lock l else unlock l) enter cs) \<noteq> []" for cs
    by (induction cs rule: rev_induct) (auto simp: enter lock unlock)
  show ?thesis
  proof (cases "sl_locked l")
    case True
    then show ?thesis using n r by (auto simp: use_def l_def [symmetric] leave unlock)
  next
    case False
    then have "n \<noteq> 0" using n ne [of bs] by (auto simp: l_def)
    then obtain m where "n = Suc m" by (cases n) auto
    then show ?thesis using n False by (auto simp: use_def l_def [symmetric] leave unlock)
  qed
qed

end

interpretation scoped: scope_guard CallLock new_ScopedLockImpl ScopedLockImpl_lock ScopedLockImpl_unlock ScopedLockImpl_destroy
  by unfold_locales (auto simp: new_ScopedLockImpl_def ScopedLockImpl_lock_def ScopedLockImpl_unlock_def ScopedLockImpl_destroy_def
      ScopedLock_acquire_def ScopedLock_lock_def ScopedLock_unlock_def)

interpretation read_scoped: scope_guard CallRdlock new_ReadScopedLockImpl ReadScopedLockImpl_lock ReadScopedLockImpl_unlock ReadScopedLockImpl_destroy
  by unfold_locales (auto simp: new_ReadScopedLockImpl_def ReadScopedLockImpl_lock_def ReadScopedLockImpl_unlock_def ReadScopedLockImpl_destroy_def
      ScopedLock_acquire_def ScopedLock_lock_def ScopedLock_unlock_def)

interpretation write_scoped: scope_guard CallWrlock new_WriteScopedLockImpl WriteScopedLockImpl_lock WriteScopedLockImpl_unlock WriteScopedLockImpl_destroy
  by unfold_locales (auto simp: new_WriteScopedLockImpl_def WriteScopedLockImpl_lock_def WriteScopedLockImpl_unlock_def WriteScopedLockImpl_destroy_def
      ScopedLock_acquire_def ScopedLock_lock_def ScopedLock_unlock_def)

text \<open>
  A scoped lock of each of the three kinds releases its mutex exactly as often as it acquires it, in alternation, and never holds
  it after the scope, however often it is locked and unlocked in between.
\<close>

theorem scoped_locks_balanced:
  "\<not> sl_locked (ScopedLockImpl_destroy (foldl (\<lambda>l b. if b then ScopedLockImpl_lock l else ScopedLockImpl_unlock l) new_ScopedLockImpl bs))
   \<and> (\<exists>n. sl_calls (ScopedLockImpl_destroy (foldl (\<lambda>l b. if b then ScopedLockImpl_lock l else ScopedLockImpl_unlock l) new_ScopedLockImpl bs)) =
      concat (replicate (Suc n) [CallLock, CallUnlock]))
   \<and> (\<exists>n. sl_calls (ReadScopedLockImpl_destroy (foldl (\<lambda>l b. if b then ReadScopedLockImpl_lock l else ReadScopedLockImpl_unlock l) new_ReadScopedLockImpl bs)) =
      concat (replicate (Suc n) [CallRdlock, CallUnlock]))
   \<and> (\<exists>n. sl_calls (WriteScopedLockImpl_destroy (foldl (\<lambda>l b. if b then WriteScopedLockImpl_lock l else WriteScopedLockImpl_unlock l) new_WriteScopedLockImpl bs)) =
      concat (replicate (Suc n) [CallWrlock, CallUnlock]))"
  using scoped.balanced [of bs] read_scoped.balanced [of bs] write_scoped.balanced [of bs]
  unfolding scoped.use_def read_scoped.use_def write_scoped.use_def by blast

section \<open>The lock by compare and swap\<close>

text \<open>
  \<open>CASLock::lock\<close> tests and sets the flag until it was clear; one test is one step. A thread is outside,
  spins, or is inside.
\<close>

datatype cas_pc = Outside | Spinning | Inside

definition CASLock_test_and_set :: "bool \<Rightarrow> bool \<times> bool" where
  "CASLock_test_and_set flag = (flag, True)"

definition CASLock_unlock :: "bool \<Rightarrow> bool" where
  "CASLock_unlock flag = False"

inductive cas_step :: "bool \<times> (nat \<Rightarrow> cas_pc) \<Rightarrow> bool \<times> (nat \<Rightarrow> cas_pc) \<Rightarrow> bool" where
  enter: "pc t = Outside \<Longrightarrow> cas_step (flag, pc) (flag, pc(t := Spinning))"
| test: "pc t = Spinning \<Longrightarrow> CASLock_test_and_set flag = (was, flag1) \<Longrightarrow>
    cas_step (flag, pc) (flag1, pc(t := (if was then Spinning else Inside)))"
| leave: "pc t = Inside \<Longrightarrow> cas_step (flag, pc) (CASLock_unlock flag, pc(t := Outside))"

definition cas_inv :: "bool \<times> (nat \<Rightarrow> cas_pc) \<Rightarrow> bool" where
  "cas_inv s \<longleftrightarrow> (case s of (flag, pc) \<Rightarrow> (flag \<longleftrightarrow> (\<exists>t. pc t = Inside)) \<and> (\<forall>t u. pc t = Inside \<and> pc u = Inside \<longrightarrow> t = u))"

lemma cas_inv_step: "cas_step s s1 \<Longrightarrow> cas_inv s \<Longrightarrow> cas_inv s1"
  by (induction rule: cas_step.induct)
    (auto simp: cas_inv_def CASLock_test_and_set_def CASLock_unlock_def split: if_splits, (metis cas_pc.distinct)+)

lemma cas_inv_reach: "cas_step\<^sup>*\<^sup>* s s1 \<Longrightarrow> cas_inv s \<Longrightarrow> cas_inv s1"
  by (induction rule: rtranclp_induct) (auto intro: cas_inv_step)

text \<open>
  C24. Any number of threads that lock and unlock a \<open>CASLock\<close> in any order never have two inside, the flag is set exactly while
  one is inside, and a thread that spins gets in with its next test when none is.
\<close>

theorem cas_exclusive:
  assumes "cas_step\<^sup>*\<^sup>* (False, \<lambda>_. Outside) (flag, pc)"
  shows "(pc t = Inside \<and> pc u = Inside \<longrightarrow> t = u) \<and> flag = (\<exists>t. pc t = Inside)
    \<and> (pc t = Spinning \<and> (\<forall>u. pc u \<noteq> Inside) \<longrightarrow> cas_step (flag, pc) (True, pc(t := Inside)))"
proof -
  have i: "cas_inv (flag, pc)" using cas_inv_reach [OF assms] by (simp add: cas_inv_def)
  have "cas_step (False, pc) (True, pc(t := Inside))" if "pc t = Spinning"
    using cas_step.test [of pc t False False True] that by (simp add: CASLock_test_and_set_def)
  then show ?thesis using i by (auto simp: cas_inv_def)
qed

theorem cas_exclusive_witness:
  "cas_step\<^sup>*\<^sup>* (False, \<lambda>_. Outside) (True, (\<lambda>_. Outside)(0 := Inside, 1 := Spinning))
   \<and> \<not> cas_step\<^sup>*\<^sup>* (False, \<lambda>_. Outside) (True, (\<lambda>_. Outside)(0 := Inside, 1 := Inside))"
proof -
  let ?s = "\<lambda>_. Outside"
  have "cas_step (False, ?s) (False, ?s(0 := Spinning))" by (rule cas_step.enter) simp
  also have "cas_step\<^sup>*\<^sup>* (False, ?s(0 := Spinning)) (True, ?s(0 := Inside))"
    using cas_step.test [of "?s(0 := Spinning)" 0 False False True] by (simp add: CASLock_test_and_set_def)
  also have "cas_step (True, ?s(0 := Inside)) (True, ?s(0 := Inside, 1 := Spinning))" by (rule cas_step.enter) simp
  finally have r: "cas_step\<^sup>*\<^sup>* (False, ?s) (True, ?s(0 := Inside, 1 := Spinning))" by simp
  have "\<not> cas_step\<^sup>*\<^sup>* (False, ?s) (True, ?s(0 := Inside, 1 := Inside))"
  proof
    assume "cas_step\<^sup>*\<^sup>* (False, ?s) (True, ?s(0 := Inside, 1 := Inside))"
    from cas_exclusive [OF this, of 0 1] show False by simp
  qed
  with r show ?thesis by simp
qed

section \<open>Semaphores\<close>

datatype thread_error = LogicError string

definition Semaphore_init :: "int \<Rightarrow> u32 \<Rightarrow> thread_error + nat" where
  "Semaphore_init rt count = (if rt \<noteq> 0 then Inl (LogicError ''sem_init error'') else Inr (unat count))"

text \<open>\<open>wait\<close> with the result of \<open>sem_wait\<close>: it fails, or returns once the count is positive; \<open>None\<close> blocks.\<close>

definition Semaphore_wait :: "int \<Rightarrow> nat \<Rightarrow> (thread_error + nat) option" where
  "Semaphore_wait rt n =
     (if rt \<noteq> 0 then Some (Inl (LogicError ''sem_wait error''))
      else if n = 0 then None else Some (Inr (n - 1)))"

definition Semaphore_notify :: "int \<Rightarrow> nat \<Rightarrow> thread_error + nat" where
  "Semaphore_notify rt n = (if rt \<noteq> 0 then Inl (LogicError ''sem_post error'') else Inr (n + 1))"

section \<open>Threads\<close>

text \<open>
  An object with the thread that its constructor starts. The creator is in the constructor, has returned from it, or
  left it by an exception; the child goes through the lines of \<open>run\<close>. \<open>mt_alive\<close> says whether the object still
  exists; \<open>mt_bad\<close> records an access to it after that. The names of the thread and of the operating system
  are those the child sets.
\<close>

datatype creator_pc = Creating | Waiting | Returned | Threw

datatype child_pc = NotStarted | Started | HasThis | HasName | HasId | OsNamed | Swapped | Notified | Finished

record multithread =
  mt_id :: int
  mt_thread :: nat
  mt_cb :: "nat option"
  mt_name :: string
  mt_sem :: nat
  mt_alive :: bool
  mt_creator :: creator_pc
  mt_child :: child_pc
  mt_this :: bool
  mt_thread_name :: string
  mt_os_name :: string
  mt_local_cb :: "nat option"
  mt_calls :: "nat list"
  mt_bad :: bool

definition new_Multithread :: "nat \<Rightarrow> string \<Rightarrow> multithread" where
  "new_Multithread cb name =
     \<lparr>mt_id = - 1, mt_thread = 0, mt_cb = Some cb, mt_name = (if name = [] then ''UNKNOWN'' else name), mt_sem = 0, mt_alive = True,
      mt_creator = Creating, mt_child = NotStarted, mt_this = False, mt_thread_name = ''UNKNOWN'', mt_os_name = [], mt_local_cb = None,
      mt_calls = [], mt_bad = False\<rparr>"

text \<open>\<open>pthread_create\<close> with its result and the new handle.\<close>

definition create_thread :: "int \<Rightarrow> nat \<Rightarrow> multithread \<Rightarrow> multithread" where
  "create_thread rt handle m =
     (if rt \<noteq> 0 then m\<lparr>mt_creator := Threw, mt_alive := False\<rparr>
      else m\<lparr>mt_thread := handle, mt_creator := Waiting, mt_child := Started\<rparr>)"

text \<open>
  The wait of the constructor. When it throws, the members that were built are destroyed, but the destructor does
  not run and the child goes on.
\<close>

definition creator_wait :: "int \<Rightarrow> multithread \<Rightarrow> multithread option" where
  "creator_wait rt m =
     (case Semaphore_wait rt (mt_sem m) of
        None \<Rightarrow> None
      | Some (Inl e) \<Rightarrow> Some (m\<lparr>mt_creator := Threw, mt_alive := False\<rparr>)
      | Some (Inr n) \<Rightarrow> Some (m\<lparr>mt_sem := n, mt_creator := Returned\<rparr>))"

definition touch :: "multithread \<Rightarrow> multithread" where
  "touch m = m\<lparr>mt_bad := (mt_bad m \<or> \<not> mt_alive m)\<rparr>"

text \<open>\<open>run\<close>, one line per step; \<open>tid\<close> is what \<open>GetThreadId\<close> answers.\<close>

fun run_step :: "int \<Rightarrow> multithread \<Rightarrow> child_pc \<Rightarrow> multithread" where
  "run_step tid m Started = m\<lparr>mt_this := True, mt_child := HasThis\<rparr>"
| "run_step tid m HasThis = (touch m)\<lparr>mt_thread_name := mt_name m, mt_child := HasName\<rparr>"
| "run_step tid m HasName = (touch m)\<lparr>mt_id := tid, mt_child := HasId\<rparr>"
| "run_step tid m HasId = (touch m)\<lparr>mt_os_name := take 15 (mt_name m), mt_child := OsNamed\<rparr>"
| "run_step tid m OsNamed = (touch m)\<lparr>mt_local_cb := mt_cb m, mt_cb := None, mt_child := Swapped\<rparr>"
| "run_step tid m Swapped =
     (case Semaphore_notify 0 (mt_sem m) of Inl e \<Rightarrow> m | Inr n \<Rightarrow> (touch m)\<lparr>mt_sem := n, mt_child := Notified\<rparr>)"
| "run_step tid m Notified =
     m\<lparr>mt_calls := mt_calls m @ (case mt_local_cb m of None \<Rightarrow> [] | Some cb \<Rightarrow> [cb]), mt_child := Finished\<rparr>"
| "run_step tid m NotStarted = m"
| "run_step tid m Finished = m"

text \<open>\<open>SetName\<close> in the child, from its callback: it writes the name of its object when it has one.\<close>

definition SetName :: "string \<Rightarrow> multithread \<Rightarrow> multithread" where
  "SetName name m =
     (let m1 = (if mt_this m then (touch m)\<lparr>mt_name := name\<rparr> else m) in m1\<lparr>mt_thread_name := name\<rparr>)"

definition Multithread_GetName :: "multithread \<Rightarrow> string" where
  "Multithread_GetName m = mt_thread_name m"

definition Multithread_GetThis :: "multithread \<Rightarrow> bool" where
  "Multithread_GetThis m = mt_this m"

text \<open>The destructor and \<open>join\<close> with the result of \<open>pthread_join\<close>, and the calls that they make.\<close>

datatype pthread_call = Detach nat | Join nat

definition Multithread_destroy :: "multithread \<Rightarrow> multithread \<times> pthread_call list" where
  "Multithread_destroy m = (m\<lparr>mt_alive := False\<rparr>, if mt_thread m \<noteq> 0 then [Detach (mt_thread m)] else [])"

definition Multithread_join :: "int \<Rightarrow> multithread \<Rightarrow> thread_error + multithread \<times> pthread_call list" where
  "Multithread_join rt m =
     (if mt_thread m \<noteq> 0 then
        if rt \<noteq> 0 then Inl (LogicError ''pthread_join error'') else Inr (m\<lparr>mt_thread := 0\<rparr>, [Join (mt_thread m)])
      else Inr (m, []))"

text \<open>
  The steps of the creator and the child in any order. A join returns when the child has finished; the creator may destroy the
  object once the constructor returned. With \<open>ok\<close>, the waiting of the semaphore is never interrupted and the object
  is destroyed only after a join.
\<close>

inductive mt_step :: "bool \<Rightarrow> int \<Rightarrow> multithread \<Rightarrow> multithread \<Rightarrow> bool" for ok tid where
  create: "mt_creator m = Creating \<Longrightarrow> handle \<noteq> 0 \<Longrightarrow> mt_step ok tid m (create_thread rt handle m)"
| wait: "mt_creator m = Waiting \<Longrightarrow> creator_wait rt m = Some m1 \<Longrightarrow> (ok \<Longrightarrow> rt = 0) \<Longrightarrow> mt_step ok tid m m1"
| child: "mt_child m \<notin> {NotStarted, Finished} \<Longrightarrow> mt_step ok tid m (run_step tid m (mt_child m))"
| set_name: "mt_child m = Notified \<Longrightarrow> mt_step ok tid m (SetName name m)"
| join: "mt_creator m = Returned \<Longrightarrow> mt_alive m \<Longrightarrow> mt_child m = Finished \<Longrightarrow> Multithread_join rt m = Inr (m1, cs) \<Longrightarrow> mt_step ok tid m m1"
| destroy: "mt_creator m = Returned \<Longrightarrow> mt_alive m \<Longrightarrow> (ok \<Longrightarrow> mt_thread m = 0) \<Longrightarrow> Multithread_destroy m = (m1, cs) \<Longrightarrow> mt_step ok tid m m1"

fun child_rank :: "child_pc \<Rightarrow> nat" where
  "child_rank NotStarted = 0"
| "child_rank Started = 1"
| "child_rank HasThis = 2"
| "child_rank HasName = 3"
| "child_rank HasId = 4"
| "child_rank OsNamed = 5"
| "child_rank Swapped = 6"
| "child_rank Notified = 7"
| "child_rank Finished = 8"

definition mt_inv :: "int \<Rightarrow> nat \<Rightarrow> string \<Rightarrow> multithread \<Rightarrow> bool" where
  "mt_inv tid cb nm m \<longleftrightarrow>
     (let r = child_rank (mt_child m); c = mt_creator m
      in (c = Creating \<longrightarrow> r = 0 \<and> mt_alive m) \<and> (c = Waiting \<longrightarrow> 1 \<le> r \<and> mt_alive m \<and> mt_thread m \<noteq> 0)
       \<and> (c = Returned \<longrightarrow> 7 \<le> r) \<and> (c = Threw \<longrightarrow> r = 0)
       \<and> mt_sem m = (if c = Waiting \<and> 7 \<le> r then 1 else 0)
       \<and> (1 < r \<longrightarrow> mt_this m) \<and> (4 \<le> r \<longrightarrow> mt_id m = tid) \<and> (5 \<le> r \<longrightarrow> mt_os_name m = take 15 nm) \<and> (r < 7 \<longrightarrow> mt_name m = nm)
       \<and> mt_cb m = (if r < 6 then Some cb else None) \<and> (6 \<le> r \<longrightarrow> mt_local_cb m = Some cb)
       \<and> mt_calls m = (if r = 8 then [cb] else [])
       \<and> \<not> mt_bad m \<and> (\<not> mt_alive m \<or> mt_thread m = 0 \<longrightarrow> r = 0 \<or> r = 8))"

lemma mt_inv_step: "mt_step True tid m m1 \<Longrightarrow> mt_inv tid cb nm m \<Longrightarrow> mt_inv tid cb nm m1"
proof (induction rule: mt_step.induct)
  case (create m handle rt)
  then have "child_rank (mt_child m) = 0" by (simp add: mt_inv_def Let_def)
  then have "mt_child m = NotStarted" by (cases "mt_child m") simp_all
  then show ?case using create by (simp add: mt_inv_def create_thread_def Let_def)
next
  case (wait m rt m1)
  then show ?case by (auto simp: mt_inv_def creator_wait_def Semaphore_wait_def Let_def split: if_splits)
next
  case (child m)
  then show ?case
    by (cases "mt_child m"; cases "mt_creator m") (auto simp: mt_inv_def Let_def touch_def Semaphore_notify_def)
next
  case (set_name m name)
  then show ?case by (auto simp: mt_inv_def Let_def SetName_def touch_def)
next
  case (join m rt m1 cs)
  then show ?case by (auto simp: mt_inv_def Let_def Multithread_join_def split: if_splits)
next
  case (destroy m m1 cs)
  then show ?case by (auto simp: mt_inv_def Let_def Multithread_destroy_def split: if_splits)
qed

lemma mt_inv_reach: "(mt_step True tid)\<^sup>*\<^sup>* m m1 \<Longrightarrow> mt_inv tid cb nm m \<Longrightarrow> mt_inv tid cb nm m1"
  by (induction rule: rtranclp_induct) (auto intro: mt_inv_step)

lemma mt_inv_start: "mt_inv tid cb (if name = [] then ''UNKNOWN'' else name) (new_Multithread cb name)"
  by (simp add: mt_inv_def new_Multithread_def)

text \<open>
  C16. The start of a thread is complete when the constructor returns, whatever the order of the steps: the child has its object, its
  id and its name at the operating system, and has moved the callback out of the object. The callback runs at
  most once and never before that, and the object is not used after its end, as long as the wait is not
  interrupted and the object is joined before it is destroyed.
\<close>

theorem handshake_complete:
  assumes "(mt_step True tid)\<^sup>*\<^sup>* (new_Multithread cb name) m"
  shows "(mt_creator m = Returned \<longrightarrow> mt_this m \<and> mt_id m = tid \<and> mt_os_name m = take 15 (if name = [] then ''UNKNOWN'' else name)
      \<and> mt_cb m = None \<and> mt_local_cb m = Some cb)
    \<and> (mt_calls m \<noteq> [] \<longrightarrow> mt_calls m = [cb] \<and> mt_child m = Finished)
    \<and> \<not> mt_bad m"
proof -
  have i: "mt_inv tid cb (if name = [] then ''UNKNOWN'' else name) m" by (rule mt_inv_reach [OF assms mt_inv_start])
  have "mt_child m = Finished" if "child_rank (mt_child m) = 8" using that by (cases "mt_child m") simp_all
  then show ?thesis using i by (auto simp: mt_inv_def Let_def split: if_splits)
qed

text \<open>The object after \<open>pthread_create\<close>, and after the child has run up to its callback.\<close>

definition started :: "nat \<Rightarrow> string \<Rightarrow> multithread" where
  "started cb name = (new_Multithread cb name)\<lparr>mt_thread := 9, mt_creator := Waiting, mt_child := Started\<rparr>"

definition notified :: "int \<Rightarrow> nat \<Rightarrow> string \<Rightarrow> multithread" where
  "notified tid cb name =
     (let nm = mt_name (started cb name)
      in (started cb name)\<lparr>mt_child := Notified, mt_this := True, mt_thread_name := nm, mt_id := tid, mt_os_name := take 15 nm,
           mt_local_cb := Some cb, mt_cb := None, mt_sem := 1\<rparr>)"

lemma started_step: "mt_step ok tid (new_Multithread cb name) (started cb name)"
proof -
  have "create_thread 0 9 (new_Multithread cb name) = started cb name" by (simp add: create_thread_def started_def)
  then show ?thesis using mt_step.create [of "new_Multithread cb name" 9 ok tid 0] by (simp add: new_Multithread_def)
qed

lemma child_step: "mt_child m \<notin> {NotStarted, Finished} \<Longrightarrow> m1 = run_step tid m (mt_child m) \<Longrightarrow> mt_step ok tid m m1"
  by (simp add: mt_step.child)

lemma notified_steps: "(mt_step ok tid)\<^sup>*\<^sup>* (started cb name) (notified tid cb name)"
proof -
  let ?m = "started cb name"
  let ?n = "mt_name ?m"
  let ?m1 = "?m\<lparr>mt_this := True, mt_child := HasThis\<rparr>"
  let ?m2 = "?m1\<lparr>mt_thread_name := ?n, mt_child := HasName\<rparr>"
  let ?m3 = "?m2\<lparr>mt_id := tid, mt_child := HasId\<rparr>"
  let ?m4 = "?m3\<lparr>mt_os_name := take 15 ?n, mt_child := OsNamed\<rparr>"
  let ?m5 = "?m4\<lparr>mt_local_cb := Some cb, mt_cb := None, mt_child := Swapped\<rparr>"
  have "mt_step ok tid ?m ?m1" "mt_step ok tid ?m1 ?m2" "mt_step ok tid ?m2 ?m3" "mt_step ok tid ?m3 ?m4" "mt_step ok tid ?m4 ?m5"
    "mt_step ok tid ?m5 (notified tid cb name)"
    by (rule child_step; simp add: notified_def started_def new_Multithread_def touch_def Semaphore_notify_def Let_def)+
  then show ?thesis by (meson converse_rtranclp_into_rtranclp rtranclp.rtrancl_refl)
qed

theorem handshake_complete_witness:
  "(mt_step True 5)\<^sup>*\<^sup>* (new_Multithread 3 ''worker'') ((notified 5 3 ''worker'')\<lparr>mt_sem := 0, mt_creator := Returned\<rparr>)
   \<and> mt_id ((notified 5 3 ''worker'')\<lparr>mt_sem := 0, mt_creator := Returned\<rparr>) = 5"
proof -
  have "mt_step True 5 (notified 5 3 ''worker'') ((notified 5 3 ''worker'')\<lparr>mt_sem := 0, mt_creator := Returned\<rparr>)"
    by (rule mt_step.wait [of _ 0]) (simp_all add: notified_def started_def new_Multithread_def creator_wait_def Semaphore_wait_def Let_def)
  then have r: "(mt_step True 5)\<^sup>*\<^sup>* (new_Multithread 3 ''worker'') ((notified 5 3 ''worker'')\<lparr>mt_sem := 0, mt_creator := Returned\<rparr>)"
    using notified_steps [of True 5 3 "''worker''"] started_step [of True 5 3 "''worker''"] by (meson converse_rtranclp_into_rtranclp rtranclp.rtrancl_into_rtrancl)
  show ?thesis using handshake_complete [OF r] r by simp
qed

text \<open>
  C40. Without these two conditions the thread uses its object after its end. When the wait of the constructor is interrupted it
  throws while the child is starting; and the destructor only detaches a running thread, whose
  \<open>SetName\<close> then writes through the stale pointer to the object.
\<close>

theorem thread_outlives_object:
  "(\<exists>m. (mt_step False tid)\<^sup>*\<^sup>* (new_Multithread cb name) m \<and> mt_creator m = Threw \<and> mt_bad m)
   \<and> (\<exists>m. (mt_step False tid)\<^sup>*\<^sup>* (new_Multithread cb name) m \<and> mt_creator m = Returned \<and> mt_child m = Notified \<and> mt_bad m)"
proof (rule conjI)
  let ?m = "started cb name"
  let ?d = "?m\<lparr>mt_creator := Threw, mt_alive := False\<rparr>"
  have "mt_step False tid ?m ?d"
    by (rule mt_step.wait [of _ 1]) (simp_all add: started_def creator_wait_def Semaphore_wait_def)
  moreover have "mt_step False tid ?d (?d\<lparr>mt_this := True, mt_child := HasThis\<rparr>)" by (rule child_step) (simp_all add: started_def)
  moreover have "mt_step False tid (?d\<lparr>mt_this := True, mt_child := HasThis\<rparr>)
      (?d\<lparr>mt_this := True, mt_thread_name := mt_name ?m, mt_child := HasName, mt_bad := True\<rparr>)"
    by (rule child_step) (simp_all add: started_def touch_def new_Multithread_def)
  ultimately have "(mt_step False tid)\<^sup>*\<^sup>* (new_Multithread cb name)
      (?d\<lparr>mt_this := True, mt_thread_name := mt_name ?m, mt_child := HasName, mt_bad := True\<rparr>)"
    using started_step by (meson converse_rtranclp_into_rtranclp rtranclp.rtrancl_refl)
  moreover have "mt_creator (?d\<lparr>mt_this := True, mt_thread_name := mt_name ?m, mt_child := HasName, mt_bad := True\<rparr>) = Threw"
    "mt_bad (?d\<lparr>mt_this := True, mt_thread_name := mt_name ?m, mt_child := HasName, mt_bad := True\<rparr>)" by simp_all
  ultimately show "\<exists>m. (mt_step False tid)\<^sup>*\<^sup>* (new_Multithread cb name) m \<and> mt_creator m = Threw \<and> mt_bad m" by blast
  let ?n = "notified tid cb name"
  let ?r = "?n\<lparr>mt_sem := 0, mt_creator := Returned\<rparr>"
  have "mt_step False tid ?n ?r"
    by (rule mt_step.wait [of _ 0]) (simp_all add: notified_def started_def new_Multithread_def creator_wait_def Semaphore_wait_def Let_def)
  moreover have "mt_step False tid ?r (?r\<lparr>mt_alive := False\<rparr>)"
    by (rule mt_step.destroy [where cs = "[Detach 9]"]) (simp_all add: notified_def started_def new_Multithread_def Multithread_destroy_def Let_def)
  moreover have "mt_step False tid (?r\<lparr>mt_alive := False\<rparr>) (SetName [] (?r\<lparr>mt_alive := False\<rparr>))"
    by (rule mt_step.set_name) (simp add: notified_def Let_def)
  ultimately have "(mt_step False tid)\<^sup>*\<^sup>* ?n (SetName [] (?r\<lparr>mt_alive := False\<rparr>))"
    by (meson converse_rtranclp_into_rtranclp rtranclp.rtrancl_refl)
  then have "(mt_step False tid)\<^sup>*\<^sup>* (new_Multithread cb name) (SetName [] (?r\<lparr>mt_alive := False\<rparr>))"
    using started_step [of False tid cb name] notified_steps [of False tid cb name] by (meson converse_rtranclp_into_rtranclp rtranclp_trans)
  moreover have "mt_bad (SetName [] (?r\<lparr>mt_alive := False\<rparr>)) \<and> mt_creator (SetName [] (?r\<lparr>mt_alive := False\<rparr>)) = Returned
      \<and> mt_child (SetName [] (?r\<lparr>mt_alive := False\<rparr>)) = Notified"
    by (simp add: notified_def SetName_def touch_def Let_def)
  ultimately show "\<exists>m. (mt_step False tid)\<^sup>*\<^sup>* (new_Multithread cb name) m \<and> mt_creator m = Returned \<and> mt_child m = Notified \<and> mt_bad m"
    by blast
qed

end
