(* ===== verification/Settings.thy ===== *)
theory Settings
  imports Config_Vars
begin

text \<open>
  The settings that the framework itself keeps in the configuration: the static variables of
  \<open>src/src/HTTP/http_parser.cpp\<close> (limits of requests and responses) and \<open>src/src/async/hook.cpp\<close> (timeout of
  \<open>connect\<close>), their initialisation before \<open>main\<close>, and the listeners that keep them up to date. The variables
  are shared configuration variables of \<open>Config_Vars\<close>; the static variables are the world that the listeners change.
\<close>

section \<open>Values and listeners\<close>

text \<open>The settings are numbers of 64 bits, and the connect timeout an \<open>int\<close>.\<close>

datatype setting_value = U64 u64 | Int32 int

datatype setting = RequestBuffer | RequestBody | ResponseBuffer | ResponseBody | ConnectTimeout

record statics =
  s_http_request_buffer_size :: u64
  s_http_request_max_body_size :: u64
  s_http_response_buffer_size :: u64
  s_http_response_max_body_size :: u64
  s_connect_timeout :: u64

fun setting_name :: "setting \<Rightarrow> string" where
  "setting_name RequestBuffer = ''http.request.buffer_size''"
| "setting_name RequestBody = ''http.request.max_body_size''"
| "setting_name ResponseBuffer = ''http.response.buffer_size''"
| "setting_name ResponseBody = ''http.response.max_body_size''"
| "setting_name ConnectTimeout = ''tcp.connect.timeout''"

fun setting_default :: "setting \<Rightarrow> setting_value" where
  "setting_default RequestBuffer = U64 (4 * 1024)"
| "setting_default RequestBody = U64 (64 * 1024 * 1024)"
| "setting_default ResponseBuffer = U64 (4 * 1024)"
| "setting_default ResponseBody = U64 (64 * 1024 * 1024)"
| "setting_default ConnectTimeout = Int32 5000"

definition value_type :: "setting_value \<Rightarrow> string" where
  "value_type v = (case v of U64 _ \<Rightarrow> ''m'' | Int32 _ \<Rightarrow> ''i'')"

text \<open>Storing into a static variable of type \<open>uint64_t\<close>; an \<open>int\<close> is extended with its sign.\<close>

definition to_u64 :: "setting_value \<Rightarrow> u64" where
  "to_u64 v = (case v of U64 u \<Rightarrow> u | Int32 i \<Rightarrow> of_int i)"

fun set_static :: "setting \<Rightarrow> u64 \<Rightarrow> statics \<Rightarrow> statics" where
  "set_static RequestBuffer v s = s\<lparr>s_http_request_buffer_size := v\<rparr>"
| "set_static RequestBody v s = s\<lparr>s_http_request_max_body_size := v\<rparr>"
| "set_static ResponseBuffer v s = s\<lparr>s_http_response_buffer_size := v\<rparr>"
| "set_static ResponseBody v s = s\<lparr>s_http_response_max_body_size := v\<rparr>"
| "set_static ConnectTimeout v s = s\<lparr>s_connect_timeout := v\<rparr>"

fun get_static :: "setting \<Rightarrow> statics \<Rightarrow> u64" where
  "get_static RequestBuffer s = s_http_request_buffer_size s"
| "get_static RequestBody s = s_http_request_max_body_size s"
| "get_static ResponseBuffer s = s_http_response_buffer_size s"
| "get_static ResponseBody s = s_http_response_max_body_size s"
| "get_static ConnectTimeout s = s_connect_timeout s"

text \<open>The listeners of the initialisers, by the static variable that they set.\<close>

definition setting_listener :: "(setting, setting_value, statics) listener_run" where
  "setting_listener l old new s = (None, set_static l (to_u64 new) s)"

text \<open>
  The steps of the static initialisers: a variable is looked up, its value is copied, and a listener is
  added (\<open>fun_id\<close> is the counter of \<open>addListener\<close>, one for each type of values). \<open>None\<close> stands for an exception or
  a null pointer before \<open>main\<close>.
\<close>

type_synonym settings_world = "(setting_value, setting) config \<times> statics"

definition lookup_setting :: "setting \<Rightarrow> settings_world \<Rightarrow> settings_world option" where
  "lookup_setting l cs =
     (case Config_Lookup (value_type (setting_default l)) (setting_name l) (setting_default l) [] (fst cs) of
        Inr (Some _, cf) \<Rightarrow> Some (cf, snd cs)
      | _ \<Rightarrow> None)"

definition copy_value :: "setting \<Rightarrow> settings_world \<Rightarrow> settings_world option" where
  "copy_value l cs = map_option (\<lambda>cv. (fst cs, set_static l (to_u64 (cv_val cv)) (snd cs))) (om_find str_less (setting_name l) (fst cs))"

definition listen :: "u64 \<Rightarrow> setting \<Rightarrow> settings_world \<Rightarrow> settings_world option" where
  "listen fun_id l cs =
     map_option (\<lambda>cv. (om_put str_less (setting_name l) (snd (addListener l fun_id cv)) (fst cs), snd cs))
       (om_find str_less (setting_name l) (fst cs))"

definition then_do :: "settings_world option \<Rightarrow> (settings_world \<Rightarrow> settings_world option) \<Rightarrow> settings_world option" where
  "then_do r f = (case r of None \<Rightarrow> None | Some cs \<Rightarrow> f cs)"

definition RequestSizeIniter :: "settings_world \<Rightarrow> settings_world option" where
  "RequestSizeIniter cs =
     then_do (then_do (then_do (copy_value RequestBuffer cs) (copy_value RequestBody)) (listen 0 RequestBuffer)) (listen 1 RequestBody)"

definition ResponseSizeIniter :: "settings_world \<Rightarrow> settings_world option" where
  "ResponseSizeIniter cs =
     then_do (then_do (then_do (copy_value ResponseBuffer cs) (copy_value ResponseBody)) (listen 2 ResponseBuffer)) (listen 3 ResponseBody)"

definition http_parser_init :: "settings_world \<Rightarrow> settings_world option" where
  "http_parser_init cs =
     then_do (then_do (fold (\<lambda>l r. then_do r (lookup_setting l)) [RequestBuffer, RequestBody, ResponseBuffer, ResponseBody] (Some cs))
       RequestSizeIniter) ResponseSizeIniter"

definition HookIniter :: "settings_world \<Rightarrow> settings_world option" where
  "HookIniter cs = then_do (copy_value ConnectTimeout cs) (listen 0 ConnectTimeout)"

definition hook_settings_init :: "settings_world \<Rightarrow> settings_world option" where
  "hook_settings_init cs = then_do (lookup_setting ConnectTimeout cs) HookIniter"

definition initial_statics :: statics where
  "initial_statics = \<lparr>s_http_request_buffer_size = 0, s_http_request_max_body_size = 0, s_http_response_buffer_size = 0,
     s_http_response_max_body_size = 0, s_connect_timeout = - 1\<rparr>"

text \<open>The two files may be initialised in either order.\<close>

definition init_settings :: "bool \<Rightarrow> settings_world option" where
  "init_settings parser_first =
     (if parser_first then then_do (http_parser_init ([], initial_statics)) hook_settings_init
      else then_do (hook_settings_init ([], initial_statics)) http_parser_init)"

section \<open>The static variables follow the configuration\<close>

definition settings_inv :: "(setting_value, setting) config \<times> statics \<Rightarrow> bool" where
  "settings_inv cs \<longleftrightarrow> (case cs of (cf, s) \<Rightarrow> config_inv cf
     \<and> (\<forall>l. \<exists>cv i. om_find str_less (setting_name l) cf = Some cv \<and> cv_cbs cv = [(i, l)] \<and> get_static l s = to_u64 (cv_val cv))
     \<and> (\<forall>k cv. om_find str_less k cf = Some cv \<longrightarrow> (\<exists>l. k = setting_name l)))"

lemma get_set: "get_static l (set_static m v s) = (if l = m then v else get_static l s)"
  by (cases l; cases m) simp_all

lemma name_inject: "setting_name l = setting_name m \<longleftrightarrow> l = m"
  by (cases l; cases m) simp_all

lemma names_valid: "valid_name (setting_name l)"
  by (cases l) (simp_all add: valid_name_def name_chars_def)

text \<open>The invariant, checked by evaluation.\<close>

definition all_settings :: "setting list" where
  "all_settings = [RequestBuffer, RequestBody, ResponseBuffer, ResponseBody, ConnectTimeout]"

definition settings_ok :: "settings_world \<Rightarrow> bool" where
  "settings_ok cs \<longleftrightarrow> sorted_wrt str_less (map fst (fst cs))
     \<and> list_all (\<lambda>(k, cv). valid_name k \<and> cv_name cv = k \<and> list_ex (\<lambda>l. k = setting_name l) all_settings) (fst cs)
     \<and> list_all (\<lambda>l. case om_find str_less (setting_name l) (fst cs) of
          None \<Rightarrow> False
        | Some cv \<Rightarrow> map snd (cv_cbs cv) = [l] \<and> get_static l (snd cs) = to_u64 (cv_val cv)) all_settings"

lemma ok_inv:
  assumes "settings_ok cs"
  shows "settings_inv cs"
proof -
  have all: "l \<in> set all_settings" for l by (cases l) (simp_all add: all_settings_def)
  have 1: "\<exists>cv i. om_find str_less (setting_name l) (fst cs) = Some cv \<and> cv_cbs cv = [(i, l)] \<and> get_static l (snd cs) = to_u64 (cv_val cv)" for l
  proof -
    have "case om_find str_less (setting_name l) (fst cs) of None \<Rightarrow> False
        | Some cv \<Rightarrow> map snd (cv_cbs cv) = [l] \<and> get_static l (snd cs) = to_u64 (cv_val cv)"
      using assms all [of l] by (simp add: settings_ok_def list_all_iff)
    then show ?thesis by (auto split: option.splits)
  qed
  have 2: "config_inv (fst cs)" using assms by (auto simp: settings_ok_def config_inv_def list_all_iff)
  have 3: "\<exists>l. k = setting_name l" if "om_find str_less k (fst cs) = Some cv" for k cv
    using assms find_str_in [OF that] by (auto simp: settings_ok_def list_all_iff list_ex_iff)
  obtain cf s where cs: "cs = (cf, s)" by (cases cs)
  show ?thesis unfolding settings_inv_def cs split_conv
    using 1 2 3 unfolding cs fst_conv snd_conv by blast
qed

lemmas literal_names = names_valid [of RequestBuffer, unfolded setting_name.simps] names_valid [of RequestBody, unfolded setting_name.simps]
  names_valid [of ResponseBuffer, unfolded setting_name.simps] names_valid [of ResponseBody, unfolded setting_name.simps]
  names_valid [of ConnectTimeout, unfolded setting_name.simps]

lemma new_variable:
  "cv_val (new_ConfigVar ty n v d) = v" "cv_type (new_ConfigVar ty n v d) = ty" "cv_cbs (new_ConfigVar ty n v d) = []"
  "valid_name n \<Longrightarrow> cv_name (new_ConfigVar ty n v d) = n"
  by (simp_all add: new_ConfigVar_def lower_name)

lemmas init_steps = then_do_def lookup_setting_def copy_value_def listen_def Config_Lookup_def Lookup_name_def new_variable
  value_type_def addListener_def literal_names

lemma init_parser_ok: "case init_settings True of None \<Rightarrow> False | Some cs \<Rightarrow> settings_ok cs"
  by (simp add: init_settings_def http_parser_init_def hook_settings_init_def RequestSizeIniter_def ResponseSizeIniter_def HookIniter_def
    initial_statics_def init_steps settings_ok_def all_settings_def to_u64_def)

lemma init_hook_ok: "case init_settings False of None \<Rightarrow> False | Some cs \<Rightarrow> settings_ok cs"
  by (simp add: init_settings_def http_parser_init_def hook_settings_init_def RequestSizeIniter_def ResponseSizeIniter_def HookIniter_def
    initial_statics_def init_steps settings_ok_def all_settings_def to_u64_def)

lemma init_ok: "case init_settings b of None \<Rightarrow> False | Some cs \<Rightarrow> settings_ok cs"
  using init_parser_ok init_hook_ok by (cases b) simp_all

lemma init_inv: "init_settings b = Some cs \<Longrightarrow> settings_inv cs"
  using init_ok [of b] ok_inv by simp

text \<open>The worlds after the initialisation: variables are set directly, from texts, and from loaded trees.\<close>

inductive settings_reach :: "setting_value cast \<Rightarrow> 'n yaml_api \<Rightarrow> settings_world \<Rightarrow> bool"
  for conv :: "setting_value cast" and api :: "'n yaml_api" where
  s_init: "init_settings b = Some cs \<Longrightarrow> settings_reach conv api cs"
| s_set: "settings_reach conv api (cf, s) \<Longrightarrow> om_find str_less k cf = Some cv \<Longrightarrow> setValue setting_listener v cv s = (e, cv1, s1) \<Longrightarrow>
    settings_reach conv api (om_put str_less k cv1 cf, s1)"
| s_parse: "settings_reach conv api (cf, s) \<Longrightarrow> om_find str_less k cf = Some cv \<Longrightarrow> fromString setting_listener conv t cv s = (f, cv1, s1) \<Longrightarrow>
    settings_reach conv api (om_put str_less k cv1 cf, s1)"
| s_load: "settings_reach conv api cs \<Longrightarrow> LoadFromYaml setting_listener conv api fuel root cs = Some cs1 \<Longrightarrow> settings_reach conv api cs1"

lemma set_inv:
  assumes "settings_inv (cf, s)" "om_find str_less k cf = Some cv" "setValue setting_listener v cv s = (e, cv1, s1)"
  shows "settings_inv (om_put str_less k cv1 cf, s1)"
proof -
  obtain l where k: "k = setting_name l" using assms(1,2) by (auto simp: settings_inv_def)
  then obtain i where cv: "cv_cbs cv = [(i, l)]" "get_static l s = to_u64 (cv_val cv)"
    using assms(1,2) by (auto simp: settings_inv_def) (metis option.inject)
  have ci: "config_inv cf" using assms(1) by (simp add: settings_inv_def)
  then have so: "sorted_wrt str_less (map fst cf)" and nm: "cv_name cv = k" "valid_name k"
    using find_str_in [OF assms(2)] by (auto simp: config_inv_def)
  have cv1: "cv_cbs cv1 = [(i, l)]" "cv_name cv1 = k" "get_static l s1 = to_u64 (cv_val cv1)"
      "\<And>m. m \<noteq> l \<Longrightarrow> get_static m s1 = get_static m s"
    using assms(3) cv nm by (auto simp: setValue_def setting_listener_def get_set split: if_splits)
  have f: "om_find str_less j (om_put str_less (setting_name l) cv1 cf) = (if j = setting_name l then Some cv1 else om_find str_less j cf)" for j
    by (rule find_str_put [OF so])
  have "config_inv (om_put str_less k cv1 cf)" by (rule config_inv_put [OF ci nm(2) cv1(2)])
  then show ?thesis using assms(1) cv1 unfolding settings_inv_def k by (auto simp: f name_inject split: if_splits)
qed

lemma from_inv:
  assumes "settings_inv (cf, s)" "om_find str_less k cf = Some cv" "fromString setting_listener conv t cv s = (b, cv1, s1)"
  shows "settings_inv (om_put str_less k cv1 cf, s1)"
proof (cases "ca_from conv (cv_type cv) t")
  case (Inl x)
  have so: "sorted_wrt str_less (map fst cf)" using assms(1) by (simp add: settings_inv_def config_inv_def)
  then show ?thesis using set_inv [OF assms(1,2), of "cv_val cv" None cv s] Inl assms(3) by (simp add: fromString_def setValue_def)
next
  case (Inr v)
  then show ?thesis using set_inv [OF assms(1,2), of v] assms(3) by (auto simp: fromString_def split: prod.splits)
qed

lemma load_inv: "settings_inv cs \<Longrightarrow> settings_inv (load_node setting_listener conv api i cs)"
  using from_inv by (auto simp: load_node_def LookupBase_def Let_def split: prod.splits option.splits)

lemma loads_inv: "settings_inv cs \<Longrightarrow> settings_inv (fold (load_node setting_listener conv api) nodes cs)"
  by (induction nodes arbitrary: cs) (simp_all add: load_inv)


lemma reach_inv: "settings_reach conv api cs \<Longrightarrow> settings_inv cs"
proof (induction rule: settings_reach.induct)
  case (s_init b cs)
  then show ?case by (rule init_inv)
next
  case (s_set cf s k cv v e cv1 s1)
  show ?case by (rule set_inv [OF s_set.IH s_set.hyps(2,3)])
next
  case (s_parse cf s k cv t f cv1 s1)
  show ?case by (rule from_inv [OF s_parse.IH s_parse.hyps(2,3)])
next
  case (s_load cs fuel root cs1)
  then show ?case by (auto simp: LoadFromYaml_def loads_inv simp del: ListAllYamlMember.simps)
qed

lemma setting_quiet: "quiet setting_listener"
  by (simp add: quiet_def setting_listener_def)

text \<open>
  C9. After the static initialisers of \<open>http_parser.cpp\<close> and \<open>hook.cpp\<close>, in either order, and any sequence of
  changes of the configuration, each of the five static variables (the limits of the parsers and the
  timeout of \<open>connect\<close>) has the value of its configuration variable. Loading a tree returns, and sets each of
  them to the last text for its name in the tree that its type accepts; without one it is unchanged.
\<close>

theorem settings_follow:
  assumes "settings_reach conv api (cf, s)" "nested api d root"
  shows "\<exists>nodes cf1 s1. ListAllYamlMember api (Suc d) [] root = Some nodes
    \<and> LoadFromYaml setting_listener conv api (Suc d) root (cf, s) = Some (cf1, s1)
    \<and> (\<forall>l. \<exists>cv. om_find str_less (setting_name l) cf = Some cv \<and> get_static l s = to_u64 (cv_val cv)
        \<and> get_static l s1 = to_u64 (foldl (cast_or_keep conv (cv_type cv)) (cv_val cv) (texts_for api (setting_name l) nodes)))"
proof -
  have i: "settings_inv (cf, s)" by (rule reach_inv [OF assms(1)])
  then have ci: "config_inv cf" by (simp add: settings_inv_def)
  obtain nodes where n: "ListAllYamlMember api (Suc d) [] root = Some nodes" using nested_returns [OF assms(2)] by blast
  obtain cf1 s1 where f: "fold (load_node setting_listener conv api) nodes (cf, s) = (cf1, s1)"
    by (cases "fold (load_node setting_listener conv api) nodes (cf, s)")
  note v = ListAll_valid [OF n]
  have i1: "settings_inv (cf1, s1)" using loads_inv [OF i, of conv api nodes] f by simp
  have "om_find str_less k cf1 =
      map_option (\<lambda>cv. cv\<lparr>cv_val := foldl (cast_or_keep conv (cv_type cv)) (cv_val cv) (texts_for api k nodes)\<rparr>) (om_find str_less k cf)" for k
    using load_nodes_find [OF setting_quiet _ ci f] v by fastforce
  then have "\<exists>cv. om_find str_less (setting_name l) cf = Some cv \<and> get_static l s = to_u64 (cv_val cv)
        \<and> get_static l s1 = to_u64 (foldl (cast_or_keep conv (cv_type cv)) (cv_val cv) (texts_for api (setting_name l) nodes))" for l
    using i i1 by (fastforce simp: settings_inv_def)
  then show ?thesis using n f by (auto simp: LoadFromYaml_def simp del: ListAllYamlMember.simps)
qed

lemma init_timeout: "\<exists>cf s. init_settings True = Some (cf, s) \<and> s_connect_timeout s = 5000"
  by (simp add: init_settings_def http_parser_init_def hook_settings_init_def RequestSizeIniter_def ResponseSizeIniter_def HookIniter_def
    initial_statics_def init_steps to_u64_def)

theorem settings_follow_witness:
  "\<exists>cf s cf1 s1. init_settings True = Some (cf, s)
    \<and> LoadFromYaml setting_listener \<lparr>ca_from = (\<lambda>ty t. if t = ''7'' then Inr (U64 7) else Inl ''e''), ca_to = (\<lambda>ty v. Inr [])\<rparr>
        tree_yaml 3 (Map_node [(''http.request.buffer_size'', Scalar_node ''7''), (''tcp.connect.timeout'', Scalar_node ''x'')])
        (cf, s) = Some (cf1, s1)
    \<and> s_http_request_buffer_size s1 = 7 \<and> s_connect_timeout s1 = 5000"
proof -
  let ?root = "Map_node [(''http.request.buffer_size'', Scalar_node ''7''), (''tcp.connect.timeout'', Scalar_node ''x'')]"
  let ?conv = "\<lparr>ca_from = (\<lambda>ty t. if t = ''7'' then Inr (U64 7) else Inl ''e''), ca_to = (\<lambda>ty v. Inr [])\<rparr>"
  obtain cf s where i: "init_settings True = Some (cf, s)" "s_connect_timeout s = 5000" using init_timeout by blast
  have nested: "nested tree_yaml 2 ?root"
    unfolding numeral_2_eq_2 by (rule nested.node) (auto simp: tree_yaml_def intro!: nested.intros)
  obtain nodes cf1 s1 where l: "ListAllYamlMember tree_yaml (Suc 2) [] ?root = Some nodes"
    and r: "LoadFromYaml setting_listener ?conv tree_yaml (Suc 2) ?root (cf, s) = Some (cf1, s1)"
    and f: "\<And>l. \<exists>cv. om_find str_less (setting_name l) cf = Some cv \<and> get_static l s = to_u64 (cv_val cv)
        \<and> get_static l s1 = to_u64 (foldl (cast_or_keep ?conv (cv_type cv)) (cv_val cv) (texts_for tree_yaml (setting_name l) nodes))"
    using settings_follow [OF s_init [OF i(1), of ?conv tree_yaml] nested] by blast
  have "nodes = [([], ?root), (''http.request.buffer_size'', Scalar_node ''7''), (''tcp.connect.timeout'', Scalar_node ''x'')]"
    using l literal_names by (simp add: tree_yaml_def numeral_2_eq_2 valid_name_def)
  then have t: "texts_for tree_yaml ''http.request.buffer_size'' nodes = [''7'']" "texts_for tree_yaml ''tcp.connect.timeout'' nodes = [''x'']"
    by (simp_all add: texts_for_def tree_yaml_def node_text_def)
  have "s_http_request_buffer_size s1 = 7" using f [of RequestBuffer] t(1) by (auto simp: cast_or_keep_def to_u64_def)
  moreover have "s_connect_timeout s1 = 5000" using f [of ConnectTimeout] t(2) i(2) by (auto simp: cast_or_keep_def)
  moreover have "Suc 2 = 3" by simp
  ultimately show ?thesis using i(1) r by (metis (no_types, lifting))
qed

end
