(* ===== verification/Io_Setup.thy ===== *)
theory Io_Setup
  imports Io_Manager
begin



text \<open>
  The constructor and the destructor of \<open>IOManager\<close> (\<open>src/src/async/iomanager.cpp\<close>). What the system calls
  return is a parameter; \<open>epoll_ctl\<close> is the parameter \<open>ctl\<close> of the other operations.
\<close>

section \<open>Creating and destroying an IO manager\<close>

record setup_calls =
  su_epoll_create :: int
  su_pipe :: "(nat \<times> nat) option"
  su_fcntl :: int

record io_descriptors =
  io_epfd :: int
  io_tickle_read :: nat
  io_tickle_write :: nat

definition new_IOManager ::
  "(epoll_op \<Rightarrow> nat \<Rightarrow> u32 \<Rightarrow> 'k \<Rightarrow> bool \<times> 'k) \<Rightarrow> setup_calls \<Rightarrow> int list \<Rightarrow> 'f callback sched \<Rightarrow> 'f timer_manager \<Rightarrow> 'k
    \<Rightarrow> io_error + io_descriptors \<times> ('f, 'k) io_manager" where
  "new_IOManager ctl su ids s tm k =
     (if su_epoll_create su \<le> 0 then Inl IoAssert
      else case su_pipe su of
             None \<Rightarrow> Inl IoAssert
           | Some (r, w) \<Rightarrow>
               if su_fcntl su \<noteq> 0 then Inl IoAssert
               else case ctl CtlAdd r (EPOLLIN OR EPOLLET) k of (failed, k1) \<Rightarrow>
                 if failed then Inl IoAssert
                 else Inr (\<lparr>io_epfd = su_epoll_create su, io_tickle_read = r, io_tickle_write = w\<rparr>,
                           \<lparr>io_contexts = contextResize 32 [], io_pending = 0, io_sched = start ids s, io_timers = tm, io_kernel = k1\<rparr>))"

text \<open>The descriptors that the destructor closes, in its order; the contexts are deleted.\<close>

definition IOManager_destroy ::
  "bool \<Rightarrow> io_descriptors \<Rightarrow> ('f, 'k) io_manager \<Rightarrow> sched_error + int list \<times> ('f, 'k) io_manager" where
  "IOManager_destroy is_this d io =
     bind_res (stop is_this (io_sched io)) (\<lambda>(early, tickles, s).
       Inr ([io_epfd d, int (io_tickle_read d), int (io_tickle_write d)], io\<lparr>io_sched := s, io_contexts := []\<rparr>))"

section \<open>A new IO manager\<close>

lemma empty_table: "table_ok (contextResize 32 [])" "interest_of (contextResize 32 []) = (\<lambda>_. None)"
    "sum_list (map pend (contextResize 32 [])) = 0"
proof -
  have n: "contextResize 32 [] = map new_FdContext [0..<32]" by (simp add: contextResize_def)
  show "table_ok (contextResize 32 [])" by (simp add: n table_ok_def fx_ok_new del: upt_Suc)
  show "interest_of (contextResize 32 []) = (\<lambda>_. None)"
    by (simp add: n interest_of_def fun_eq_iff new_FdContext_def NONE_def del: upt_Suc)
  show "sum_list (map pend (contextResize 32 [])) = 0"
    by (simp add: n comp_def pend_def new_FdContext_def NONE_def del: upt_Suc)
qed

context epoll
begin

lemma new_IOManager_ok:
  assumes "new_IOManager ctl su ids s tm k = Inr (d, io)" "interest k = (\<lambda>_. None)"
  shows "io_ok (\<lambda>k. (interest k)(io_tickle_read d := None)) io"
    "interest (io_kernel io) (io_tickle_read d) = Some (EPOLLIN OR EPOLLET)"
    "io_sched io = start ids s"
  using assms ctl_add [of "fst (the (su_pipe su))" "EPOLLIN OR EPOLLET" k]
  by (auto simp: new_IOManager_def io_ok_def empty_table split: if_splits option.splits prod.splits)

end

text \<open>
  Creating an IO manager aborts when creating the epoll instance, creating the pipe, making its read end
  nonblocking or registering it fails. Otherwise the new manager has an empty consistent event table beside the
  registration of the pipe, and its scheduler is started; and when stopping the scheduler
  does not abort, the destructor closes the epoll instance and both ends of the pipe.
\<close>

lemma io_setup_spec:
  assumes "ep_interest k = (\<lambda>_. None)"
  shows "case new_IOManager table_ctl su ids s tm k of
      Inl e \<Rightarrow> e = IoAssert \<and> (su_epoll_create su \<le> 0 \<or> su_pipe su = None \<or> su_fcntl su \<noteq> 0 \<or> (ep_faults k \<noteq> [] \<and> hd (ep_faults k)))
    | Inr (d, io) \<Rightarrow> io_ok (\<lambda>k. (ep_interest k)(io_tickle_read d := None)) io
        \<and> ep_interest (io_kernel io) (io_tickle_read d) = Some (EPOLLIN OR EPOLLET) \<and> io_sched io = start ids s
        \<and> io_pending io = 0 \<and> io_epfd d = su_epoll_create su \<and> su_pipe su = Some (io_tickle_read d, io_tickle_write d)
        \<and> (case IOManager_destroy is_this d io of Inl e \<Rightarrow> stop is_this (start ids s) = Inl e
            | Inr (closed, io2) \<Rightarrow> closed = [su_epoll_create su, int (io_tickle_read d), int (io_tickle_write d)])"
proof (cases "new_IOManager table_ctl su ids s tm k")
  case (Inl e)
  then show ?thesis using assms by (auto simp: new_IOManager_def table_ctl_def Let_def split: if_splits option.splits)
next
  case (Inr a)
  obtain d io where a: "a = (d, io)" by (cases a)
  have i: "io_pending io = 0 \<and> io_epfd d = su_epoll_create su \<and> su_pipe su = Some (io_tickle_read d, io_tickle_write d)"
    using Inr a by (auto simp: new_IOManager_def split: if_splits option.splits prod.splits)
  note n = kernel.new_IOManager_ok [OF Inr [unfolded a] assms]
  have "case IOManager_destroy is_this d io of Inl e \<Rightarrow> stop is_this (start ids s) = Inl e
      | Inr (closed, io2) \<Rightarrow> closed = [su_epoll_create su, int (io_tickle_read d), int (io_tickle_write d)]"
    using n(3) i by (cases "stop is_this (start ids s)") (auto simp: IOManager_destroy_def)
  then show ?thesis using Inr a n i by simp
qed

end
