(* ===== verification/Utils.thy ===== *)
theory Utils
  imports C_Strings "HOL-Library.Signed_Division"
begin



text \<open>
  \<open>src/src/utils/utils.cpp\<close>: the clock readings and the text of a backtrace. \<open>gettimeofday\<close> is its result, a time
  in seconds and microseconds; \<open>backtrace_symbols\<close> is its result, the lines of the frames, or none.
\<close>

record timeval =
  tv_sec :: int
  tv_usec :: int

definition GetCurrentMS :: "timeval \<Rightarrow> u64" where
  "GetCurrentMS tv = of_int (tv_sec tv) * 1000 + of_int (tv_usec tv sdiv 1000)"

definition GetCurrentUS :: "timeval \<Rightarrow> u64" where
  "GetCurrentUS tv = of_int (tv_sec tv * 1000) * 1000 + of_int (tv_usec tv)"

definition Backtrace :: "string list option \<Rightarrow> nat \<Rightarrow> string list \<Rightarrow> string list" where
  "Backtrace symbols skip bt = (case symbols of None \<Rightarrow> bt | Some frames \<Rightarrow> bt @ drop skip frames)"

definition BacktraceToString :: "string list option \<Rightarrow> nat \<Rightarrow> string \<Rightarrow> string" where
  "BacktraceToString symbols skip prefix = concat (map (\<lambda>l. prefix @ l @ [CHR 0x0A]) (Backtrace symbols skip []))"

text \<open>The two clocks agree, rounding down, as long as the microseconds fit in 64 bits.\<close>

lemma clocks_agree:
  assumes "0 \<le> tv_sec tv" "0 \<le> tv_usec tv" "tv_usec tv < 1000000" "tv_sec tv < 2 ^ 44"
  shows "GetCurrentMS tv = GetCurrentUS tv div 1000" "uint (GetCurrentMS tv) = tv_sec tv * 1000 + tv_usec tv div 1000"
proof -
  let ?s = "tv_sec tv" and ?u = "tv_usec tv"
  have q: "?u sdiv 1000 = ?u div 1000" using assms(2) by (cases "tv_usec tv = 0") (simp_all add: signed_divide_int_def)
  have us: "GetCurrentUS tv = of_int (?s * 1000000 + ?u)" by (simp add: GetCurrentUS_def)
  have ms: "GetCurrentMS tv = of_int (?s * 1000 + ?u div 1000)" by (simp add: GetCurrentMS_def q)
  have u: "uint (of_int k :: u64) = k" if "0 \<le> k" "k < 2 ^ 64" for k
    using that by (simp add: uint_word_of_int)
  have ub: "uint (GetCurrentUS tv) = ?s * 1000000 + ?u" unfolding us using assms by (intro u) simp_all
  have d: "0 \<le> ?u div 1000" "?u div 1000 < 1000" using assms by simp_all
  show mb: "uint (GetCurrentMS tv) = ?s * 1000 + ?u div 1000" unfolding ms using assms(1,4) d by (intro u) simp_all
  have "?s * 1000 + ?u div 1000 = (?s * 1000 * 1000 + ?u) div 1000" by simp
  then have "uint (GetCurrentMS tv) = uint (GetCurrentUS tv) div 1000" unfolding ub mb by simp
  then show "GetCurrentMS tv = GetCurrentUS tv div 1000" by (intro word_uint_eqI) (simp add: uint_div)
qed

end
