(* ===== verification/Spec2Isabelle.thy ===== *)
theory Spec2Isabelle
  imports Byte_Io Http_Model Tcp_Server Machines Uri_Parse Http_Exchange Loggers Threads Settings Io_Setup Utils
begin

text \<open>
  A model of the C++ server framework under \<open>src/src\<close>: a byte array, timers, fibers, a scheduler and an
  IO manager over epoll, hooked system calls, addresses and sockets, streams and a TCP server, HTTP messages with
  their generated parsers, an HTTP server and client, configuration and logging.

  \<^bold>\<open>How the parts interact.\<close> A thread of the scheduler (\<open>async/scheduler\<close>) runs fibers (\<open>async/fiber\<close>) from a queue.
  The IO manager (\<open>async/iomanager\<close>) is a scheduler whose idle fiber waits for epoll and for the timers
  (\<open>async/timer\<close>) and queues what waits for them. The hooks (\<open>async/hook\<close>) turn a blocking call of a fiber into a
  registration with the IO manager, a timer and a yield; what they know of a descriptor is in the descriptor
  table (\<open>async/fdmanager\<close>). Sockets (\<open>socket/async_socket\<close>) call the hooks, streams (\<open>stream/stream\<close>) call sockets
  and fill byte arrays (\<open>socket/bytearray\<close>), and the TCP server (\<open>stream/tcpserver\<close>) accepts sockets and hands
  them to a worker. The HTTP server (\<open>HTTP/http_server\<close>) serves such a socket as a session
  (\<open>HTTP/http_session\<close>), whose requests go through the parsers (\<open>HTTP/http_parser\<close> and the three generated files) to a
  servlet (\<open>servlet/servlet\<close>); the client (\<open>HTTP/http_connection\<close>) sends requests and parses responses, by itself or
  through a pool. The configuration (\<open>config/config\<close>) tells its listeners about changes: the limits of the
  parsers, the timeout of \<open>connect\<close>, and the loggers (\<open>log/log\<close>).

  \<^bold>\<open>Representation.\<close> Integers of a fixed width are words of that width, and where C++ computes with signed
  integers the range is checked or the value is an \<open>int\<close>. Strings are lists of bytes or characters. A class is a
  record of its members; an enumeration is a datatype. An operation that can throw, fail an assertion or run
  into undefined behaviour returns \<open>Inl\<close> of an error of its component, and \<open>bind_res\<close> composes such operations.
  Objects that are shared by pointer live in a heap of the record (timers, sockets of the server, appenders,
  descriptor contexts) and are known by their address or index. What the operating system and other
  libraries answer is an argument: a list of results for successive calls, a function, or a record of
  operations. What the code relies on about them is stated as a locale and interpreted on a
  documented behaviour: \<open>epoll\<close> (\<open>Io_Manager\<close>), \<open>status_flags\<close> (\<open>Hooks\<close>), \<open>strict_weak_order\<close> (\<open>Std_Containers\<close>).
  The contracts between the components are locales too: \<open>fd_table\<close> (\<open>Fd_Manager\<close>), \<open>codec\<close> (\<open>Byte_Codec\<close>),
  \<open>scope_guard\<close> (\<open>Threads\<close>).

  \<^bold>\<open>Theories.\<close>

  \<^item> \<open>Fw_Prelude\<close>, \<open>Std_Containers\<close>, \<open>C_Strings\<close>: machine types, results, collections of rules; ordered sets and maps with
    their laws; the string functions and orders of the C library.
  \<^item> \<open>Endians\<close>, \<open>Byte_Array\<close>, \<open>Byte_Codec\<close>, \<open>Byte_Io\<close> (\<open>socket/endians.h\<close>, \<open>socket/bytearray\<close>): storage, typed values,
    and the borders to scatter/gather calls and files. Reading and writing are related to the flat contents of
    the blocks; every typed value is read back as it was written.
  \<^item> \<open>Timers\<close>, \<open>Fd_Manager\<close>, \<open>Fibers\<close>, \<open>Schedulers\<close>, \<open>Io_Manager\<close>, \<open>Io_Setup\<close>, \<open>Threads\<close> (\<open>async\<close>): the invariants are that the
    set of timers stays ordered and complete, that the event table, its counter and the kernel's interest list
    agree, and that no task is lost. Interleavings are step relations or separate critical sections:
    concurrent lookups in the descriptor table, growth of the event table, the compare and swap lock, the
    start of a thread.
  \<^item> \<open>Hooks\<close> (\<open>async/hook.cpp\<close>), \<open>Ip_Address\<close> (\<open>socket/ipaddress\<close>), \<open>Async_Sockets\<close> (\<open>socket/async_socket\<close>), \<open>Streams\<close>
    (\<open>stream/stream\<close>), \<open>Tcp_Server\<close> (\<open>stream/tcpserver\<close>): retries and timeouts of hooked calls, the memory
    layout of addresses, the descriptors that operations open and close, the fixed size loops.
  \<^item> \<open>Http_Model\<close> (\<open>HTTP/http\<close>), \<open>Servlets\<close> (\<open>servlet/servlet\<close>): messages with their text form, dispatching.
  \<^item> \<open>Ragel\<close>, \<open>Request_Tables\<close>, \<open>Respond_Tables\<close>, \<open>Uri_Tables\<close>, \<open>Machines\<close>: the interpreter of the generated state machines and
    the arrays of \<open>HTTP/httprequest_parser.cpp\<close>, \<open>HTTP/httprespond_parser.cpp\<close> and \<open>HTTP/uri.cpp\<close>; the two binary searches
    equal a linear scan and never leave the arrays.
  \<^item> \<open>Http_Parsers\<close>, \<open>Request_Rows\<close>, \<open>Request_Parse\<close>, \<open>Respond_Rows\<close>, \<open>Respond_Parse\<close>, \<open>Uri_Model\<close>, \<open>Uri_Parse\<close>: the actions and the classes
    around the machines, and the round trips: what \<open>dump\<close> prints is parsed back.
  \<^item> \<open>Http_Session\<close>, \<open>Http_Connection\<close>, \<open>Http_Exchange\<close>: the server's loop, the client with chunked and plain
    bodies, the connection pool. At the end of this theory they are put together: a client and a server of the framework
    understand each other.
  \<^item> \<open>Config_Vars\<close>, \<open>Settings\<close>, \<open>Log_Format\<close>, \<open>Loggers\<close>, \<open>Utils\<close> (\<open>config\<close>, \<open>log\<close>, \<open>utils\<close>, the settings of
    \<open>HTTP/http_parser.cpp\<close> and \<open>async/hook.cpp\<close>): variables with listeners, loading a tree of settings, the static
    variables that follow the configuration, patterns, routing of messages, and the listener that sets up the loggers.

  \<^bold>\<open>Loops and fuel.\<close> Loops over data are total functions with a measure. Loops that depend on what the outside
  answers take fuel, one unit for each call or round, and return \<open>None\<close> or an unfinished state when it is used up:
  the fixed size loops of \<open>Streams\<close> (enough is the number of bytes, as each call that does not end the loop
  moves at least one), the rounds of a thread in \<open>Schedulers\<close> (the properties give the rounds that empty the
  queue), the body and head loops of \<open>Http_Session\<close> and \<open>Http_Connection\<close> (the length of the message), the nesting of a
  tree in \<open>Config_Vars\<close> (its depth plus one), and the passing of a message to the root logger in \<open>Loggers\<close> (two). The
  properties about these loops state that they return with this fuel.

  \<^bold>\<open>Not modelled.\<close> Destructors that only free memory, except where they close descriptors or release locks; output on
  \<open>std::cout\<close> and the framework's own log messages; the text that a \<open>va_list\<close> formats. Locks are modelled by making
  each critical section one step, so that the operations between two locks can interleave where the code
  drops a lock, but not inside one; the pthread mutexes, the memory order of atomics, the switch of stacks in
  \<open>ucontext\<close>, and \<open>dlsym\<close> in \<open>hook_init\<close> are outside. So are the YAML library, \<open>boost::lexical_cast\<close>, \<open>getaddrinfo\<close>, \<open>inet_pton\<close>,
  \<open>fnmatch\<close>, \<open>strftime\<close> and the kernel, which are arguments. \<open>utils/macro.h\<close>, \<open>utils/singleton.h\<close> and \<open>utils/noncopyable.h\<close> have no
  behaviour of their own. The grammar files \<open>*.rl\<close> are represented by the C++ code generated from them, and the
  tests are left out.
\<close>

section \<open>A client and a server\<close>

text \<open>
  How a text arrives: in pieces, the first of which holds at least the head, and none of which is empty.
\<close>

definition cut_after :: "string \<Rightarrow> string \<Rightarrow> string list \<Rightarrow> bool" where
  "cut_after head text ps \<longleftrightarrow> concat ps = text \<and> ps \<noteq> [] \<and> take (length head) (hd ps) = head \<and> [] \<notin> set (tl ps)"

lemma cut_after_head:
  assumes "cut_after head (head @ body) ps"
  obtains b0 qs where "ps = (head @ b0) # qs" "body = b0 @ concat qs" "[] \<notin> set qs"
proof -
  obtain p qs where p: "ps = p # qs" "take (length head) p = head" "[] \<notin> set qs" "p @ concat qs = head @ body"
    using assms by (cases ps) (auto simp: cut_after_def)
  define b0 where "b0 = drop (length head) p"
  have "p = head @ b0" using p(2) by (metis append_take_drop_id b0_def)
  then show ?thesis using that [of b0 qs] p by simp
qed

text \<open>
  C1. A client of the framework and its server understand each other. When the server gets the text that the client prints for
  a request, in any pieces after its head, and the client gets what the server prints for the response of the
  handler, then what each side gets is what the other one sends; the handler sees the client's method,
  target and headers with exactly the body that was sent; the client's result is \<open>OK\<close> with the status, the headers and
  exactly the body of the handler's response; and the server has closed its session.
\<close>

theorem client_server_exchange:
  assumes request: "request_ok r" "no_length r" "cast (dec (length (m_body r))) = Some (of_nat (length (m_body r)))"
    "length (dump_request r) < 2 ^ 31" "length (dump_request r) \<le> ce_fuel env" "length (m_body r) \<le> fuel"
    and server: "stream_isConnected (ss_stream s)" "ss_in s = map Some ps" "cut_after (request_head r) (dump_request r) ps"
      "length (hd ps) \<le> B" "B < 2 ^ 31"
    and handler: "ServletDispatch_handle fnmatch vcall (sv_dispatch sv) ((parsed_request r)\<lparr>m_body := m_body r\<rparr>)
        (new_HttpResponse (m_version r) True, s\<lparr>ss_in := []\<rparr>) = (rc, rsp, s2)"
      "stream_isConnected (ss_stream s2)" "\<forall>k \<in> set (ss_script s2). 0 < k"
    and response: "response_ok rsp" "te_field \<notin> set (r_headers rsp)" "no_length_headers (r_headers rsp)"
      "ce_cast env (dec (length (r_body rsp))) = Some (of_nat (length (r_body rsp)))"
      "length (dump_response rsp) < 2 ^ 31" "length (dump_response rsp) \<le> fuel" "length (r_body rsp) \<le> ce_fuel env"
    and client: "stream_isConnected (ss_stream c)" "\<forall>k \<in> set (ss_script c). 0 < k" "ss_in c = map Some qs"
      "cut_after (response_head rsp) (dump_response rsp) qs" "length (hd qs) \<le> ce_buffer env" "ce_buffer env < 2 ^ 31"
      "ce_parser env = new_HttpResponseParser i0"
  shows "\<exists>c1 s1. exchange env peer timeout_ms r c =
        Inr (Some (make_result OK (Some ((parsed_response rsp)\<lparr>r_body := r_body rsp\<rparr>)) ''ok''), c1)
    \<and> HttpServer_handleClient (Suc n) fuel B cast (new_HttpRequestParser relaxed q0) fnmatch vcall sv s = Inr (True, session_close s1)
    \<and> ss_sent c1 = ss_sent c @ concat ps \<and> ss_sent s1 = ss_sent s2 @ concat qs \<and> ss_in c1 = []"
proof -
  obtain b0 ps1 where ps: "ps = (request_head r @ b0) # ps1" "m_body r = b0 @ concat ps1" "[] \<notin> set ps1"
    using cut_after_head [OF server(3) [unfolded dump_request_head]] by blast
  obtain d0 qs1 where qs: "qs = (response_head rsp @ d0) # qs1" "r_body rsp = d0 @ concat qs1" "[] \<notin> set qs1"
    using cut_after_head [OF client(4) [unfolded dump_response_head]] by blast
  have lr: "length (m_body r) < 2 ^ 31" using request(4) by (simp add: dump_request_head)
  have lb: "length (r_body rsp) < 2 ^ 31" using response(5) by (simp add: dump_response_head)
  obtain rest1 where 1: "exchange env peer timeout_ms r c =
      Inr (Some (make_result OK (Some ((parsed_response rsp)\<lparr>r_body := r_body rsp\<rparr>)) ''ok''),
        c\<lparr>ss_in := [], ss_script := rest1, ss_sent := ss_sent c @ dump_request r\<rparr>)"
    using exchange_whole [OF client(1,2) request(4,5) client(7) response(1-4) qs(2,3) _ _ client(6) lb response(7), of "[]"]
      client(3,5) qs(1) by auto
  have in_s: "ss_in s = Some (request_head r @ b0) # map Some ps1 @ []" "length (request_head r @ b0) \<le> B"
    using server(2,4) ps(1) by simp_all
  obtain rest2 where 2: "HttpServer_handleClient (Suc n) fuel B cast (new_HttpRequestParser relaxed q0) fnmatch vcall sv s =
      Inr (True, session_close (s2\<lparr>ss_script := rest2, ss_sent := ss_sent s2 @ dump_response rsp\<rparr>))"
    using handleClient_run [of r cast s b0 ps1 "[]" B fuel "(parsed_request r)\<lparr>m_body := m_body r\<rparr>" fnmatch vcall sv rc rsp s2 n relaxed q0,
      OF request(1-3) server(1) ps(2,3) in_s server(5) lr request(6) refl handler(1-3) response(5,6)] by blast
  have "concat ps = dump_request r" "concat qs = dump_response rsp" using server(3) client(4) by (simp_all add: cut_after_def)
  then show ?thesis using 1 2
    by (intro exI [of _ "c\<lparr>ss_in := [], ss_script := rest1, ss_sent := ss_sent c @ dump_request r\<rparr>"]
        exI [of _ "s2\<lparr>ss_script := rest2, ss_sent := ss_sent s2 @ dump_response rsp\<rparr>"]) simp
qed


theorem client_server_exchange_witness:
  "\<exists>c1 s1. exchange ((sample_env 0)\<lparr>ce_cast := sample_cast, ce_fuel := 200\<rparr>) ''peer'' 5 sample_request
      (sample_session [Some (response_head ((new_HttpResponse 0x11 True)\<lparr>r_body := ''ab''\<rparr>) @ ''a''), Some ''b'']) =
      Inr (Some (make_result OK (Some ((parsed_response ((new_HttpResponse 0x11 True)\<lparr>r_body := ''ab''\<rparr>))\<lparr>r_body := ''ab''\<rparr>)) ''ok''), c1)
    \<and> HttpServer_handleClient 1 200 100 sample_cast (new_HttpRequestParser False 0) (\<lambda>u v. u = v)
      (\<lambda>p rq rs. (0, (fst rs)\<lparr>r_body := m_body rq\<rparr>, snd rs)) (new_HttpServer False (0 :: nat))
      (sample_session [Some (request_head sample_request), Some ''a'', Some ''b'']) = Inr (True, session_close s1)
    \<and> ss_sent c1 = dump_request sample_request"
proof -
  let ?vcall = "\<lambda>p rq rs. (0, (fst rs)\<lparr>r_body := m_body rq\<rparr>, snd rs)"
  let ?rsp = "(new_HttpResponse 0x11 True)\<lparr>r_body := ''ab''\<rparr>"
  let ?env = "(sample_env 0)\<lparr>ce_cast := sample_cast, ce_fuel := 200\<rparr>"
  let ?s = "sample_session [Some (request_head sample_request), Some ''a'', Some ''b'']"
  let ?c = "sample_session [Some (response_head ?rsp @ ''a''), Some ''b'']"
  have v: "version_str 17 = ''1.1''" using version_text [of 17] by simp
  have d2: "dec (Suc (Suc 0)) = ''2''" by (simp add: dec_def num_str.simps digit_def char_of_def bit_Suc_0_iff)
  have d200: "dec 200 = ''200''" by (simp add: dec_def num_str.simps digit_def char_of_def bit_Suc_0_iff)
  have h: "length (response_head ?rsp) \<le> 90"
    by (simp add: response_head_def status_line_def new_HttpResponse_def response_fields_def connection_field_def sent_headers_def
        length_field_def field_line_def crlf_def v d200 d2 HttpStatusToString_def HTTP_STATUS_MAP_def)
  have ok: "response_ok ?rsp" "te_field \<notin> set (r_headers ?rsp)" "no_length_headers (r_headers ?rsp)"
    by (simp_all add: response_ok_def new_HttpResponse_def no_length_headers_def)
  have hd: "ServletDispatch_handle (\<lambda>u v. u = v) ?vcall (sv_dispatch (new_HttpServer False (0 :: nat)))
      ((parsed_request sample_request)\<lparr>m_body := m_body sample_request\<rparr>)
      (new_HttpResponse (m_version sample_request) True, ?s\<lparr>ss_in := []\<rparr>) = (0, ?rsp, sample_session [])"
    by (simp add: ServletDispatch_handle_def getServlet_def new_HttpServer_def new_ServletDispatch_def
        sample_request_def new_HttpRequest_def sample_session_def)
  have cuts: "cut_after (request_head sample_request) (dump_request sample_request) [request_head sample_request, ''a'', ''b'']"
    "cut_after (response_head ?rsp) (dump_response ?rsp) [response_head ?rsp @ ''a'', ''b'']"
    using sample_facts(3) by (simp_all add: cut_after_def dump_request_head dump_response_head)
  have cast: "sample_cast (dec (length (m_body sample_request))) = Some (of_nat (length (m_body sample_request)))"
    "sample_cast (dec (length (r_body ?rsp))) = Some (of_nat (length (r_body ?rsp)))" using sample_facts(3,6) by simp_all
  have len: "length (dump_request sample_request) \<le> 102" "length (dump_response ?rsp) \<le> 92"
    using sample_facts(3,4) h by (simp_all add: dump_request_head dump_response_head)
  have eqs: "m_body sample_request = ''ab''" "r_body ?rsp = ''ab''" using sample_facts(3) by simp_all
  have "\<exists>c1 s1. exchange ?env ''peer'' 5 sample_request ?c =
        Inr (Some (make_result OK (Some ((parsed_response ?rsp)\<lparr>r_body := r_body ?rsp\<rparr>)) ''ok''), c1)
    \<and> HttpServer_handleClient (Suc 0) 200 100 sample_cast (new_HttpRequestParser False 0) (\<lambda>u v. u = v) ?vcall
        (new_HttpServer False (0 :: nat)) ?s = Inr (True, session_close s1)
    \<and> ss_sent c1 = ss_sent ?c @ concat [request_head sample_request, ''a'', ''b'']
    \<and> ss_sent s1 = ss_sent (sample_session []) @ concat [response_head ?rsp @ ''a'', ''b''] \<and> ss_in c1 = []"
  proof (rule client_server_exchange [where cast = sample_cast and s = ?s and B = 100 and rc = 0 and ?i0.0 = 0])
    show "ServletDispatch_handle (\<lambda>u v. u = v) ?vcall (sv_dispatch (new_HttpServer False (0 :: nat)))
      ((parsed_request sample_request)\<lparr>m_body := m_body sample_request\<rparr>)
      (new_HttpResponse (m_version sample_request) True, ?s\<lparr>ss_in := []\<rparr>) = (0, ?rsp, sample_session [])" by (rule hd)
    show "ce_cast ?env (dec (length (r_body ?rsp))) = Some (of_nat (length (r_body ?rsp)))" using cast(2) by (simp add: sample_env_def)
  qed (use cuts cast(1) len h ok eqs sample_facts in \<open>simp_all add: sample_session_def sample_env_def\<close>)
  moreover have "concat [request_head sample_request, ''a'', ''b''] = dump_request sample_request"
    using sample_facts(3) by (simp add: dump_request_head)
  ultimately show ?thesis by (auto simp: sample_session_def)
qed

end
